(* ===== verification/Prelude.thy ===== *)
theory Prelude
  imports Main "HOL-Library.Word"
begin

text \<open>
  Shared vocabulary of the development: Rust's \<open>Result\<close> as a sum, clocks and durations,
  the \<open>HashMap\<close> of the standard library as its list of entries, and the generic lemmas on
  them that the component theories use through the collections \<open>hm_simps\<close> (what an
  operation does to a lookup) and \<open>hm_ok_intros\<close> (what keeps the entries' keys distinct).
\<close>

named_theorems hm_simps "lookups after hash map operations"
named_theorems hm_ok_intros "operations that keep hash map keys distinct"
named_theorems rust_strings "facts on string operations"

section \<open>Results\<close>

text \<open>\<open>Result<T, E>\<close> is \<open>'e + 't\<close>: \<open>Inl\<close> is \<open>Err\<close>, \<open>Inr\<close> is \<open>Ok\<close>.\<close>

definition is_Ok :: "'e + 'a \<Rightarrow> bool" where
  "is_Ok r = (case r of Inl _ \<Rightarrow> False | Inr _ \<Rightarrow> True)"

lemma is_Ok_simps [simp]: "is_Ok (Inr x)" "\<not> is_Ok (Inl e)"
  by (simp_all add: is_Ok_def)

lemma is_OkE: "is_Ok r \<Longrightarrow> (\<And>x. r = Inr x \<Longrightarrow> thesis) \<Longrightarrow> thesis"
  by (cases r) auto

text \<open>\<open>Option::unwrap_or\<close>.\<close>

definition opt_or :: "'a option \<Rightarrow> 'a \<Rightarrow> 'a" where
  "opt_or v d = (case v of Some x \<Rightarrow> x | None \<Rightarrow> d)"

section \<open>Clocks\<close>

text \<open>
  \<open>Instant\<close> and \<open>Duration\<close> are counted in nanoseconds. \<open>duration_since\<close> is zero for an
  earlier argument, as subtraction on \<open>nat\<close> is; so are \<open>u64\<close> seconds with
  \<open>saturating_sub\<close>.
\<close>

type_synonym instant = nat
type_synonym duration = nat

definition from_secs :: "nat \<Rightarrow> duration" where
  "from_secs n = n * 1000000000"

definition duration_since :: "instant \<Rightarrow> instant \<Rightarrow> duration" where
  "duration_since now t = now - t"

section \<open>Hash maps\<close>

text \<open>
  A \<open>HashMap<K, V>\<close> is the list of its entries in some iteration order, with distinct keys
  (\<open>hm_ok\<close>). The order is what the standard library leaves open; no statement of the
  development about a map depends on it except through \<open>set\<close> and \<open>map_of\<close>.
\<close>

type_synonym ('k, 'v) hmap = "('k \<times> 'v) list"

definition hm_get :: "('k, 'v) hmap \<Rightarrow> 'k \<Rightarrow> 'v option" where
  "hm_get m k = map_of m k"

definition hm_remove :: "'k \<Rightarrow> ('k, 'v) hmap \<Rightarrow> ('k, 'v) hmap" where
  "hm_remove k m = filter (\<lambda>e. fst e \<noteq> k) m"

definition hm_insert :: "'k \<Rightarrow> 'v \<Rightarrow> ('k, 'v) hmap \<Rightarrow> ('k, 'v) hmap" where
  "hm_insert k v m = (k, v) # hm_remove k m"

definition hm_retain :: "('k \<Rightarrow> 'v \<Rightarrow> bool) \<Rightarrow> ('k, 'v) hmap \<Rightarrow> ('k, 'v) hmap" where
  "hm_retain P m = filter (\<lambda>e. P (fst e) (snd e)) m"

definition hm_ok :: "('k, 'v) hmap \<Rightarrow> bool" where
  "hm_ok m = distinct (map fst m)"

lemma hm_get_Nil [hm_simps]: "hm_get [] k = None"
  by (simp add: hm_get_def)

lemma hm_get_remove [hm_simps]: "hm_get (hm_remove k m) j = (if j = k then None else hm_get m j)"
  by (induction m) (auto simp: hm_get_def hm_remove_def)

lemma hm_get_insert [hm_simps]: "hm_get (hm_insert k v m) j = (if j = k then Some v else hm_get m j)"
  using hm_get_remove [of k m j] by (simp add: hm_insert_def hm_get_def)

lemma hm_get_notin: "k \<notin> fst ` set m \<Longrightarrow> hm_get m k = None"
  by (simp add: hm_get_def map_of_eq_None_iff)

lemma hm_get_retain [hm_simps]:
  assumes "hm_ok m"
  shows "hm_get (hm_retain P m) k =
    (case hm_get m k of None \<Rightarrow> None | Some v \<Rightarrow> if P k v then Some v else None)"
  using assms
proof (induction m)
  case Nil
  then show ?case by (simp add: hm_get_def hm_retain_def)
next
  case (Cons e m)
  obtain a b where e: "e = (a, b)" by (cases e)
  have notin: "a \<notin> fst ` set (hm_retain P m)"
    using Cons.prems by (auto simp: e hm_ok_def hm_retain_def)
  from Cons.prems have "hm_ok m" by (simp add: hm_ok_def)
  with Cons.IH have IH: "hm_get (hm_retain P m) k =
    (case hm_get m k of None \<Rightarrow> None | Some v \<Rightarrow> if P k v then Some v else None)" by simp
  show ?case
    using IH hm_get_notin [OF notin]
    by (auto simp: e hm_get_def hm_retain_def)
qed

lemma hm_get_retain_SomeD: "hm_ok m \<Longrightarrow> hm_get (hm_retain P m) k = Some v \<Longrightarrow> hm_get m k = Some v \<and> P k v"
  by (auto simp: hm_simps split: option.splits if_splits)

lemma hm_ok_Nil [hm_ok_intros, simp]: "hm_ok []"
  by (simp add: hm_ok_def)

lemma hm_ok_filter: "hm_ok m \<Longrightarrow> hm_ok (filter P m)"
  by (induction m) (auto simp: hm_ok_def)

lemma hm_ok_remove [hm_ok_intros]: "hm_ok m \<Longrightarrow> hm_ok (hm_remove k m)"
  by (simp add: hm_remove_def hm_ok_filter)

lemma hm_ok_retain [hm_ok_intros]: "hm_ok m \<Longrightarrow> hm_ok (hm_retain P m)"
  by (simp add: hm_retain_def hm_ok_filter)

lemma hm_ok_insert [hm_ok_intros]: "hm_ok m \<Longrightarrow> hm_ok (hm_insert k v m)"
  by (auto simp: hm_insert_def hm_ok_def hm_remove_def distinct_map_filter)

lemma length_hm_remove_le: "length (hm_remove k m) \<le> length m"
  by (simp add: hm_remove_def)

lemma length_hm_retain_le: "length (hm_retain P m) \<le> length m"
  by (simp add: hm_retain_def)

lemma length_hm_insert_le: "length (hm_insert k v m) \<le> Suc (length m)"
  using length_hm_remove_le [of k m] by (simp add: hm_insert_def)

lemma length_hm_remove_less: "k \<in> fst ` set m \<Longrightarrow> length (hm_remove k m) < length m"
  by (auto simp: hm_remove_def intro!: length_filter_less)

lemma set_hm_remove: "set (hm_remove k m) = {e \<in> set m. fst e \<noteq> k}"
  by (auto simp: hm_remove_def)

lemma hm_get_SomeI: "hm_ok m \<Longrightarrow> (k, v) \<in> set m \<Longrightarrow> hm_get m k = Some v"
  by (simp add: hm_get_def hm_ok_def)

lemma hm_get_SomeD: "hm_get m k = Some v \<Longrightarrow> (k, v) \<in> set m"
  by (simp add: hm_get_def map_of_SomeD)

text \<open>\<open>min_by_key\<close> over the entries: the first entry with the least key value.\<close>

fun min_by_key :: "('a \<Rightarrow> nat) \<Rightarrow> 'a list \<Rightarrow> 'a option" where
  "min_by_key f [] = None"
| "min_by_key f (x # xs) =
     (case min_by_key f xs of
        None \<Rightarrow> Some x
      | Some y \<Rightarrow> if f x \<le> f y then Some x else Some y)"

lemma min_by_key_None [simp]: "min_by_key f xs = None \<longleftrightarrow> xs = []"
  by (cases xs) (auto split: option.splits)

lemma min_by_key_in: "min_by_key f xs = Some x \<Longrightarrow> x \<in> set xs"
  by (induction xs arbitrary: x) (auto split: option.splits if_splits)

lemma min_by_key_le: "min_by_key f xs = Some x \<Longrightarrow> y \<in> set xs \<Longrightarrow> f x \<le> f y"
proof (induction xs arbitrary: x)
  case Nil
  then show ?case by simp
next
  case (Cons z zs)
  show ?case
  proof (cases "min_by_key f zs")
    case None
    with Cons.prems show ?thesis by auto
  next
    case (Some w)
    with Cons.prems Cons.IH [OF Some] show ?thesis
      by (fastforce split: if_splits)
  qed
qed

text \<open>\<open>max_by_key\<close> over an iterator returns the last of the greatest elements.\<close>

fun max_by_key :: "('a \<Rightarrow> nat) \<Rightarrow> 'a list \<Rightarrow> 'a option" where
  "max_by_key f [] = None"
| "max_by_key f (x # xs) =
     (case max_by_key f xs of
        None \<Rightarrow> Some x
      | Some y \<Rightarrow> if f y < f x then Some x else Some y)"

lemma max_by_key_None [simp]: "max_by_key f xs = None \<longleftrightarrow> xs = []"
  by (cases xs) (auto split: option.splits)

lemma max_by_key_in: "max_by_key f xs = Some x \<Longrightarrow> x \<in> set xs"
  by (induction xs arbitrary: x) (auto split: option.splits if_splits)

lemma max_by_key_ge: "max_by_key f xs = Some x \<Longrightarrow> y \<in> set xs \<Longrightarrow> f y \<le> f x"
proof (induction xs arbitrary: x)
  case Nil
  then show ?case by simp
next
  case (Cons z zs)
  show ?case
  proof (cases "max_by_key f zs")
    case None
    with Cons.prems show ?thesis by auto
  next
    case (Some w)
    with Cons.prems Cons.IH [OF Some] show ?thesis
      by (fastforce split: if_splits)
  qed
qed

section \<open>Counting occurrences\<close>

fun count_if :: "('a \<Rightarrow> bool) \<Rightarrow> 'a list \<Rightarrow> nat" where
  "count_if P [] = 0"
| "count_if P (x # xs) = (if P x then Suc (count_if P xs) else count_if P xs)"

lemma count_if_append: "count_if P (xs @ ys) = count_if P xs + count_if P ys"
  by (induction xs) auto

lemma count_if_le_length: "count_if P xs \<le> length xs"
  by (induction xs) auto

end
