(* ===== verification/Rust_Str.thy ===== *)
theory Rust_Str
  imports Prelude
begin

text \<open>
  Rust's \<open>&str\<close> as its UTF-8 bytes (\<open>string\<close> of HOL), with the standard library's
  string operations the sources use: splitting, prefixes, trimming (Unicode white space
  recognised on its UTF-8 encoding), ASCII classes, and the integer parsers of
  \<open>str::parse\<close>. \<open>len()\<close> counts bytes, as \<open>length\<close> does here.
\<close>

section \<open>Character classes\<close>

definition byte :: "char \<Rightarrow> nat" where
  "byte c = of_char c"

definition is_ascii_digit :: "char \<Rightarrow> bool" where
  "is_ascii_digit c \<longleftrightarrow> c \<in> set ''0123456789''"

definition is_ascii_lowercase :: "char \<Rightarrow> bool" where
  "is_ascii_lowercase c \<longleftrightarrow> c \<in> set ''abcdefghijklmnopqrstuvwxyz''"

definition is_ascii_uppercase :: "char \<Rightarrow> bool" where
  "is_ascii_uppercase c \<longleftrightarrow> c \<in> set ''ABCDEFGHIJKLMNOPQRSTUVWXYZ''"

definition is_ascii_alphanumeric :: "char \<Rightarrow> bool" where
  "is_ascii_alphanumeric c \<longleftrightarrow> is_ascii_digit c \<or> is_ascii_lowercase c \<or> is_ascii_uppercase c"

definition is_ascii_hexdigit :: "char \<Rightarrow> bool" where
  "is_ascii_hexdigit c \<longleftrightarrow> c \<in> set ''0123456789abcdefABCDEF''"

definition to_ascii_lower_char :: "char \<Rightarrow> char" where
  "to_ascii_lower_char c = (if is_ascii_uppercase c then char_of (byte c + 32) else c)"

definition to_ascii_lowercase :: "string \<Rightarrow> string" where
  "to_ascii_lowercase s = map to_ascii_lower_char s"

definition eq_ignore_ascii_case :: "string \<Rightarrow> string \<Rightarrow> bool" where
  "eq_ignore_ascii_case s t \<longleftrightarrow> to_ascii_lowercase s = to_ascii_lowercase t"

text \<open>\<open>chars()\<close>: the Unicode scalar values of a string, decoded from its UTF-8 bytes.\<close>

fun chars :: "string \<Rightarrow> nat list" where
  "chars [] = []"
| "chars (c # s) =
     (let b = byte c; cont = (\<lambda>i. byte (s ! i) mod 64)
      in if b < 0xE0 \<and> 0xC0 \<le> b \<and> 1 \<le> length s then
           ((b mod 32) * 64 + cont 0) # chars (drop 1 s)
         else if b < 0xF0 \<and> 0xE0 \<le> b \<and> 2 \<le> length s then
           ((b mod 16) * 4096 + cont 0 * 64 + cont 1) # chars (drop 2 s)
         else if 0xF0 \<le> b \<and> 3 \<le> length s then
           ((b mod 8) * 262144 + cont 0 * 4096 + cont 1 * 64 + cont 2) # chars (drop 3 s)
         else b # chars s)"

definition is_whitespace :: "nat \<Rightarrow> bool" where
  "is_whitespace c \<longleftrightarrow> (9 \<le> c \<and> c \<le> 13) \<or> c = 0x20 \<or> c = 0x85 \<or> c = 0xA0 \<or> c = 0x1680 \<or>
     (0x2000 \<le> c \<and> c \<le> 0x200A) \<or> c = 0x2028 \<or> c = 0x2029 \<or> c = 0x202F \<or> c = 0x205F \<or> c = 0x3000"

text \<open>\<open>String::from_utf8\<close> succeeds on well-formed UTF-8: no overlong form, surrogate or value
  above U+10FFFF.\<close>

definition in_range :: "nat \<Rightarrow> nat \<Rightarrow> char \<Rightarrow> bool" where
  "in_range lo hi c \<longleftrightarrow> lo \<le> byte c \<and> byte c \<le> hi"

fun utf8_valid :: "string \<Rightarrow> bool" where
  "utf8_valid [] = True"
| "utf8_valid (c # s) =
     (let cont = in_range 0x80 0xBF
      in if byte c < 0x80 then utf8_valid s
         else if in_range 0xC2 0xDF c then 1 \<le> length s \<and> cont (s ! 0) \<and> utf8_valid (drop 1 s)
         else if in_range 0xE0 0xEF c then
           2 \<le> length s \<and>
           in_range (if byte c = 0xE0 then 0xA0 else 0x80) (if byte c = 0xED then 0x9F else 0xBF) (s ! 0) \<and>
           cont (s ! 1) \<and> utf8_valid (drop 2 s)
         else if in_range 0xF0 0xF4 c then
           3 \<le> length s \<and>
           in_range (if byte c = 0xF0 then 0x90 else 0x80) (if byte c = 0xF4 then 0x8F else 0xBF) (s ! 0) \<and>
           cont (s ! 1) \<and> cont (s ! 2) \<and> utf8_valid (drop 3 s)
         else False)"

definition from_utf8 :: "string \<Rightarrow> string option" where
  "from_utf8 s = (if utf8_valid s then Some s else None)"

lemma utf8_valid_ascii: "list_all (\<lambda>c. byte c < 0x80) s \<Longrightarrow> utf8_valid s"
  by (induction s) (auto simp: Let_def)

section \<open>Prefixes, suffixes, substrings\<close>

definition starts_with :: "string \<Rightarrow> string \<Rightarrow> bool" where
  "starts_with s p \<longleftrightarrow> take (length p) s = p"

definition strip_prefix :: "string \<Rightarrow> string \<Rightarrow> string option" where
  "strip_prefix s p = (if starts_with s p then Some (drop (length p) s) else None)"

definition ends_with :: "string \<Rightarrow> string \<Rightarrow> bool" where
  "ends_with s p \<longleftrightarrow> length p \<le> length s \<and> drop (length s - length p) s = p"

definition strip_suffix :: "string \<Rightarrow> string \<Rightarrow> string option" where
  "strip_suffix s p = (if ends_with s p then Some (take (length s - length p) s) else None)"

fun str_contains :: "string \<Rightarrow> string \<Rightarrow> bool" where
  "str_contains [] p = (p = [])"
| "str_contains (c # s) p = (starts_with (c # s) p \<or> str_contains s p)"

lemma starts_with_iff: "starts_with s p \<longleftrightarrow> (\<exists>r. s = p @ r)"
  by (auto simp: starts_with_def) (metis append_take_drop_id)

lemma ends_with_iff: "ends_with s p \<longleftrightarrow> (\<exists>r. s = r @ p)"
  by (auto simp: ends_with_def) (metis append_take_drop_id)

lemma strip_prefix_Some [rust_strings]: "strip_prefix s p = Some r \<longleftrightarrow> s = p @ r"
  by (auto simp: strip_prefix_def starts_with_def) (metis append_take_drop_id)

lemma strip_suffix_Some [rust_strings]: "strip_suffix s p = Some r \<longleftrightarrow> s = r @ p"
  by (auto simp: strip_suffix_def ends_with_def) (metis append_take_drop_id)

lemma str_contains_iff: "str_contains s p \<longleftrightarrow> (\<exists>a b. s = a @ p @ b)"
proof (induction s)
  case Nil
  then show ?case by auto
next
  case (Cons c s)
  show ?case
    by (auto simp: Cons.IH starts_with_iff) (metis append_Cons append_Nil list.inject neq_Nil_conv)+
qed

section \<open>Splitting\<close>

fun split_on :: "char \<Rightarrow> string \<Rightarrow> string list" where
  "split_on c [] = [[]]"
| "split_on c (x # s) =
     (if x = c then [] # split_on c s
      else (case split_on c s of [] \<Rightarrow> [[x]] | y # ys \<Rightarrow> (x # y) # ys))"

fun join_with :: "char \<Rightarrow> string list \<Rightarrow> string" where
  "join_with c [] = []"
| "join_with c [s] = s"
| "join_with c (s # t # ts) = s @ c # join_with c (t # ts)"

definition split_once :: "char \<Rightarrow> string \<Rightarrow> (string \<times> string) option" where
  "split_once c s = (case dropWhile (\<lambda>x. x \<noteq> c) s of
     [] \<Rightarrow> None | _ # r \<Rightarrow> Some (takeWhile (\<lambda>x. x \<noteq> c) s, r))"

definition rsplit_once :: "char \<Rightarrow> string \<Rightarrow> (string \<times> string) option" where
  "rsplit_once c s = (case split_once c (rev s) of
     None \<Rightarrow> None | Some (b, a) \<Rightarrow> Some (rev a, rev b))"

definition find_char :: "char \<Rightarrow> string \<Rightarrow> nat option" where
  "find_char c s = (if c \<in> set s then Some (length (takeWhile (\<lambda>x. x \<noteq> c) s)) else None)"

definition split_any :: "char list \<Rightarrow> string \<Rightarrow> string list" where
  "split_any cs s = split_on (hd cs) (map (\<lambda>x. if x \<in> set cs then hd cs else x) s)"

lemma split_on_not_Nil [simp]: "split_on c s \<noteq> []"
  by (induction s) (auto split: list.splits)

lemma join_split_on [rust_strings]: "join_with c (split_on c s) = s"
proof (induction s)
  case Nil
  then show ?case by simp
next
  case (Cons x s)
  obtain y ys where ys: "split_on c s = y # ys"
    by (cases "split_on c s") auto
  with Cons.IH show ?case by (cases ys) auto
qed

lemma split_on_no_sep: "t \<in> set (split_on c s) \<Longrightarrow> c \<notin> set t"
  by (induction s arbitrary: t) (auto split: list.splits if_splits)

lemma split_on_single [rust_strings]: "c \<notin> set s \<Longrightarrow> split_on c s = [s]"
  by (induction s) auto

lemma split_on_append_sep [rust_strings]:
  "c \<notin> set s \<Longrightarrow> split_on c (s @ c # t) = s # split_on c t"
  by (induction s) auto

lemma split_join_with: "ss \<noteq> [] \<Longrightarrow> (\<forall>s \<in> set ss. c \<notin> set s) \<Longrightarrow> split_on c (join_with c ss) = ss"
  by (induction c ss rule: join_with.induct) (auto simp: rust_strings)

lemma split_once_Some [rust_strings]:
  "split_once c s = Some (a, b) \<longleftrightarrow> s = a @ c # b \<and> c \<notin> set a"
proof
  assume h: "split_once c s = Some (a, b)"
  then obtain x where d: "dropWhile (\<lambda>x. x \<noteq> c) s = x # b" and a: "a = takeWhile (\<lambda>x. x \<noteq> c) s"
    by (auto simp: split_once_def split: list.splits)
  from d have "x = c" by (auto dest: dropWhile_eq_Cons_conv [THEN iffD1])
  moreover have "s = a @ x # b" using d a by (metis takeWhile_dropWhile_id)
  ultimately show "s = a @ c # b \<and> c \<notin> set a"
    using a by (auto dest: set_takeWhileD)
next
  assume "s = a @ c # b \<and> c \<notin> set a"
  then show "split_once c s = Some (a, b)"
    by (auto simp: split_once_def dropWhile_append takeWhile_append)
qed

lemma split_once_None [rust_strings]: "split_once c s = None \<longleftrightarrow> c \<notin> set s"
proof
  assume "split_once c s = None"
  then show "c \<notin> set s"
    using split_once_Some [of c s] split_list_first [of c s] by fastforce
next
  assume "c \<notin> set s"
  then show "split_once c s = None"
    by (cases "split_once c s") (auto simp: split_once_Some)
qed

lemma rsplit_once_Some [rust_strings]:
  "rsplit_once c s = Some (a, b) \<longleftrightarrow> s = a @ c # b \<and> c \<notin> set b"
proof -
  have "rsplit_once c s = Some (a, b) \<longleftrightarrow> split_once c (rev s) = Some (rev b, rev a)"
    by (auto simp: rsplit_once_def split: option.splits)
  also have "\<dots> \<longleftrightarrow> rev s = rev (a @ c # b) \<and> c \<notin> set b"
    by (simp add: split_once_Some)
  finally show ?thesis by (simp only: rev_is_rev_conv)
qed

lemma rsplit_once_None [rust_strings]: "rsplit_once c s = None \<longleftrightarrow> c \<notin> set s"
  using split_once_None [of c "rev s"]
  by (auto simp: rsplit_once_def split: option.splits)

section \<open>White space\<close>

text \<open>
  The byte length of a leading \<open>White_Space\<close> character, 0 if there is none: the ASCII ones
  (U+0009 to U+000D and U+0020) take one byte; U+0085 and U+00A0 take two; U+1680, U+2000 to
  U+200A, U+2028, U+2029, U+202F, U+205F and U+3000 take three.
\<close>

definition ws1 :: "char list" where
  "ws1 = [CHR 0x09, CHR 0x0A, CHR 0x0B, CHR 0x0C, CHR 0x0D, CHR '' '']"

definition ws2 :: "string list" where
  "ws2 = [[CHR 0xC2, CHR 0x85], [CHR 0xC2, CHR 0xA0]]"

definition ws3 :: "string list" where
  "ws3 = [CHR 0xE1, CHR 0x9A, CHR 0x80] # [CHR 0xE2, CHR 0x81, CHR 0x9F] #
     [CHR 0xE3, CHR 0x80, CHR 0x80] #
     map (\<lambda>c. [CHR 0xE2, CHR 0x80, c])
       [CHR 0x80, CHR 0x81, CHR 0x82, CHR 0x83, CHR 0x84, CHR 0x85, CHR 0x86, CHR 0x87,
        CHR 0x88, CHR 0x89, CHR 0x8A, CHR 0xA8, CHR 0xA9, CHR 0xAF]"

definition ws_len :: "string \<Rightarrow> nat" where
  "ws_len s =
     (if s \<noteq> [] \<and> hd s \<in> set ws1 then 1
      else if take 2 s \<in> set ws2 then 2
      else if take 3 s \<in> set ws3 then 3 else 0)"

definition ws_len_back :: "string \<Rightarrow> nat" where
  "ws_len_back r =
     (if r \<noteq> [] \<and> hd r \<in> set ws1 then 1
      else if rev (take 2 r) \<in> set ws2 then 2
      else if rev (take 3 r) \<in> set ws3 then 3 else 0)"

lemma ws2_length: "w \<in> set ws2 \<Longrightarrow> length w = 2"
  by (auto simp: ws2_def)

lemma ws3_length: "w \<in> set ws3 \<Longrightarrow> length w = 3"
  by (auto simp: ws3_def)

lemma ws_len_le: "ws_len s \<le> length s"
  by (auto simp: ws_len_def Suc_le_eq dest!: ws2_length ws3_length)

lemma ws_len_back_le: "ws_len_back r \<le> length r"
  by (auto simp: ws_len_back_def Suc_le_eq dest!: ws2_length ws3_length)

function trim_start :: "string \<Rightarrow> string" where
  "trim_start s = (if ws_len s = 0 then s else trim_start (drop (ws_len s) s))"
  by pat_completeness auto
termination
proof (relation "measure length")
  fix s :: string
  assume "ws_len s \<noteq> 0"
  with ws_len_le [of s] show "(drop (ws_len s) s, s) \<in> measure length" by auto
qed simp

function trim_back :: "string \<Rightarrow> string" where
  "trim_back r = (if ws_len_back r = 0 then r else trim_back (drop (ws_len_back r) r))"
  by pat_completeness auto
termination
proof (relation "measure length")
  fix s :: string
  assume "ws_len_back s \<noteq> 0"
  with ws_len_back_le [of s] show "(drop (ws_len_back s) s, s) \<in> measure length" by auto
qed simp

declare trim_start.simps [simp del] trim_back.simps [simp del]

definition trim_end :: "string \<Rightarrow> string" where
  "trim_end s = rev (trim_back (rev s))"

definition trim :: "string \<Rightarrow> string" where
  "trim s = trim_end (trim_start s)"

definition plain_char :: "char \<Rightarrow> bool" where
  "plain_char c \<longleftrightarrow> c \<notin> set ws1 \<and> c \<notin> \<Union> (set ` set ws2) \<and> c \<notin> \<Union> (set ` set ws3)"

lemma ws_len_plain: "s = [] \<or> plain_char (hd s) \<Longrightarrow> ws_len s = 0"
proof (cases s)
  case Nil
  then show ?thesis by (auto simp: ws_len_def dest: ws2_length ws3_length)
next
  case (Cons c r)
  assume "s = [] \<or> plain_char (hd s)"
  with Cons have p: "plain_char c" by simp
  have "c \<in> set (take 2 s)" "c \<in> set (take 3 s)" by (simp_all add: Cons eval_nat_numeral)
  with p Cons show ?thesis by (auto simp: ws_len_def plain_char_def)
qed

lemma ws_len_back_plain: "r = [] \<or> plain_char (hd r) \<Longrightarrow> ws_len_back r = 0"
proof (cases r)
  case Nil
  then show ?thesis by (auto simp: ws_len_back_def dest: ws2_length ws3_length)
next
  case (Cons c t)
  assume "r = [] \<or> plain_char (hd r)"
  with Cons have p: "plain_char c" by simp
  have "c \<in> set (rev (take 2 r))" "c \<in> set (rev (take 3 r))"
    by (simp_all add: Cons eval_nat_numeral)
  with p Cons show ?thesis by (auto simp: ws_len_back_def plain_char_def)
qed

lemma trim_Nil [simp]: "trim [] = []"
  by (simp add: trim_def trim_end_def ws_len_plain ws_len_back_plain
      trim_start.simps [of "[]"] trim_back.simps [of "[]"])

text \<open>A string that begins and ends with a character no white space uses is its own trim.\<close>

lemma trim_plain [rust_strings]:
  assumes "s \<noteq> []" and "plain_char (hd s)" and "plain_char (last s)"
  shows "trim s = s"
proof -
  have "trim_start s = s"
    using assms by (simp add: trim_start.simps [of s] ws_len_plain)
  moreover have "trim_back (rev s) = rev s"
    using assms by (simp add: trim_back.simps [of "rev s"] ws_len_back_plain hd_rev)
  ultimately show ?thesis by (simp add: trim_def trim_end_def)
qed

lemma ws_len_trim_start: "ws_len (trim_start s) = 0"
  by (induction s rule: trim_start.induct) (subst trim_start.simps, simp)

lemma trim_start_drop: "\<exists>n. trim_start s = drop n s"
proof (induction s rule: trim_start.induct)
  case (1 s)
  show ?case
  proof (cases "ws_len s = 0")
    case True
    then show ?thesis by (auto simp: trim_start.simps [of s] intro: exI [of _ 0])
  next
    case False
    then obtain n where "trim_start (drop (ws_len s) s) = drop n (drop (ws_len s) s)"
      using 1 by blast
    with False show ?thesis by (auto simp: trim_start.simps [of s])
  qed
qed

lemma trim_back_drop: "\<exists>n. trim_back s = drop n s"
proof (induction s rule: trim_back.induct)
  case (1 s)
  show ?case
  proof (cases "ws_len_back s = 0")
    case True
    then show ?thesis by (auto simp: trim_back.simps [of s] intro: exI [of _ 0])
  next
    case False
    then obtain n where "trim_back (drop (ws_len_back s) s) = drop n (drop (ws_len_back s) s)"
      using 1 by blast
    with False show ?thesis by (auto simp: trim_back.simps [of s])
  qed
qed

lemma set_trim_subset: "set (trim s) \<subseteq> set s"
proof -
  obtain n m where "trim_start s = drop n s" and "trim_back (rev (drop n s)) = drop m (rev (drop n s))"
    using trim_start_drop trim_back_drop by metis
  then have "trim s = rev (drop m (rev (drop n s)))" by (simp add: trim_def trim_end_def)
  then have "set (trim s) \<subseteq> set (rev (drop n s))" by (metis set_drop_subset set_rev)
  then show ?thesis using set_drop_subset [of n s] by simp
qed

lemma length_trim_le: "length (trim s) \<le> length s"
proof -
  obtain n m where "trim_start s = drop n s" and "trim_back (rev (drop n s)) = drop m (rev (drop n s))"
    using trim_start_drop trim_back_drop by metis
  then show ?thesis by (simp add: trim_def trim_end_def)
qed

lemma ws_len_prefix: "ws_len (a @ b) = 0 \<Longrightarrow> ws_len a = 0"
proof (rule ccontr)
  assume ab: "ws_len (a @ b) = 0" and a: "ws_len a \<noteq> 0"
  from a consider "a \<noteq> []" "hd a \<in> set ws1" | "take 2 a \<in> set ws2" | "take 3 a \<in> set ws3"
    by (auto simp: ws_len_def split: if_splits)
  then show False
  proof cases
    case 1
    with ab show False by (simp add: ws_len_def split: if_splits)
  next
    case 2
    then have "take 2 (a @ b) = take 2 a" using ws2_length [OF 2] by simp
    with 2 ab show False by (auto simp: ws_len_def split: if_splits)
  next
    case 3
    then have "take 3 (a @ b) = take 3 a" using ws3_length [OF 3] by simp
    with 3 ab show False by (auto simp: ws_len_def split: if_splits)
  qed
qed

lemma ws_len_back_trim_back: "ws_len_back (trim_back r) = 0"
  by (induction r rule: trim_back.induct) (subst trim_back.simps, simp)

lemma trim_idem [simp]: "trim (trim s) = trim s"
proof -
  obtain n where n: "trim_back (rev (trim_start s)) = drop n (rev (trim_start s))" using trim_back_drop by blast
  have t: "trim s = rev (drop n (rev (trim_start s)))" by (simp add: trim_def trim_end_def n)
  then have "\<exists>b. trim_start s = trim s @ b"
    by (intro exI [of _ "rev (take n (rev (trim_start s)))"])
      (simp only: rev_append [symmetric] append_take_drop_id rev_rev_ident)
  then have "ws_len (trim s) = 0" using ws_len_trim_start [of s] ws_len_prefix by metis
  then have 1: "trim_start (trim s) = trim s" by (simp add: trim_start.simps [of "trim s"])
  have "ws_len_back (rev (trim s)) = 0" using ws_len_back_trim_back [of "rev (trim_start s)"] by (simp add: t n)
  then have "trim_back (rev (trim s)) = rev (trim s)" by (simp add: trim_back.simps [of "rev (trim s)"])
  with 1 show ?thesis by (simp add: trim_def [of "trim s"] trim_end_def)
qed

text \<open>\<open>split_whitespace\<close>: the maximal runs without white space. A white space of several
  bytes separates like one byte.\<close>

function split_ws_acc :: "string \<Rightarrow> string \<Rightarrow> string list" where
  "split_ws_acc acc s =
     (if s = [] then (if acc = [] then [] else [rev acc])
      else if ws_len s = 0 then split_ws_acc (hd s # acc) (tl s)
      else (if acc = [] then [] else [rev acc]) @ split_ws_acc [] (drop (ws_len s) s))"
  by pat_completeness auto
termination
proof (relation "measure (\<lambda>(acc, s). length s)")
  fix acc s :: string
  assume "s \<noteq> []" and "ws_len s \<noteq> 0"
  with ws_len_le [of s] show "(([], drop (ws_len s) s), acc, s) \<in> measure (\<lambda>(acc, s). length s)"
    by auto
qed auto

declare split_ws_acc.simps [simp del]

definition split_whitespace :: "string \<Rightarrow> string list" where
  "split_whitespace s = split_ws_acc [] s"

lemma split_ws_acc_not_Nil: "t \<in> set (split_ws_acc acc s) \<Longrightarrow> t \<noteq> []"
proof (induction acc s arbitrary: t rule: split_ws_acc.induct)
  case (1 acc s)
  from "1.prems" show ?case
    by (subst (asm) split_ws_acc.simps) (auto split: if_splits dest: "1.IH")
qed

lemma split_whitespace_not_Nil: "t \<in> set (split_whitespace s) \<Longrightarrow> t \<noteq> []"
  by (simp add: split_whitespace_def split_ws_acc_not_Nil)

lemma split_ws_acc_set: "t \<in> set (split_ws_acc acc s) \<Longrightarrow> set t \<subseteq> set acc \<union> set s"
proof (induction acc s arbitrary: t rule: split_ws_acc.induct)
  case (1 acc s)
  from "1.prems" show ?case
  proof (subst (asm) split_ws_acc.simps, cases "s = []")
    case True
    with "1.prems" show ?thesis by (subst (asm) split_ws_acc.simps) (auto split: if_splits)
  next
    case False
    show ?thesis
    proof (cases "ws_len s = 0")
      case True
      with False "1.prems" have "t \<in> set (split_ws_acc (hd s # acc) (tl s))"
        by (subst (asm) split_ws_acc.simps) simp
      with "1.IH"(1) False True have "set t \<subseteq> set (hd s # acc) \<union> set (tl s)" by blast
      with False show ?thesis by (cases s) auto
    next
      case False': False
      with False "1.prems" have "t = rev acc \<or> t \<in> set (split_ws_acc [] (drop (ws_len s) s))"
        by (subst (asm) split_ws_acc.simps) (auto split: if_splits)
      with "1.IH"(2) [OF False False'] show ?thesis
        by (auto dest: in_set_dropD)
    qed
  qed
qed

lemma split_whitespace_set: "t \<in> set (split_whitespace s) \<Longrightarrow> set t \<subseteq> set s"
  using split_ws_acc_set [of t "[]" s] by (simp add: split_whitespace_def)

section \<open>Integer parsing\<close>

definition digit_val :: "char \<Rightarrow> nat" where
  "digit_val c = byte c - 48"

definition digits_val :: "string \<Rightarrow> nat" where
  "digits_val s = foldl (\<lambda>v c. 10 * v + digit_val c) 0 s"

text \<open>\<open>parse\<close> for an unsigned type with greatest value \<open>mx\<close>: an optional plus sign, then
  at least one digit, and no overflow.\<close>

definition parse_uint :: "nat \<Rightarrow> string \<Rightarrow> nat option" where
  "parse_uint mx s =
     (let d = (if s \<noteq> [] \<and> hd s = CHR ''+'' then tl s else s)
      in if d \<noteq> [] \<and> list_all is_ascii_digit d \<and> digits_val d \<le> mx
         then Some (digits_val d) else None)"

definition parse_u8 :: "string \<Rightarrow> nat option" where "parse_u8 = parse_uint (2 ^ 8 - 1)"
definition parse_u32 :: "string \<Rightarrow> nat option" where "parse_u32 = parse_uint (2 ^ 32 - 1)"
definition parse_u64 :: "string \<Rightarrow> nat option" where "parse_u64 = parse_uint (2 ^ 64 - 1)"

text \<open>\<open>parse\<close> for \<open>i64\<close>: either sign is accepted.\<close>

definition parse_i64 :: "string \<Rightarrow> int option" where
  "parse_i64 s =
     (if s \<noteq> [] \<and> hd s = CHR ''-''
      then (let d = tl s in
            if d \<noteq> [] \<and> list_all is_ascii_digit d \<and> digits_val d \<le> 2 ^ 63
            then Some (- int (digits_val d)) else None)
      else map_option int (parse_uint (2 ^ 63 - 1) s))"

lemma parse_uint_le: "parse_uint mx s = Some n \<Longrightarrow> n \<le> mx"
  by (auto simp: parse_uint_def Let_def split: if_splits)

section \<open>Lines\<close>

abbreviation (input) nl :: char where "nl \<equiv> CHR 0x0A"

text \<open>\<open>str::lines\<close>: a line ends at a newline or a carriage return and newline; what follows the
  last newline is a line when it is not empty.\<close>

definition strip_cr :: "string \<Rightarrow> string" where
  "strip_cr l = (case strip_suffix l [CHR 0x0D] of Some r \<Rightarrow> r | None \<Rightarrow> l)"

definition str_lines :: "string \<Rightarrow> string list" where
  "str_lines s =
     (let ls = split_on nl s
      in map strip_cr (butlast ls) @ (if last ls = [] then [] else [last ls]))"

end
