(* ===== verification/Token_Store.thy ===== *)
theory Token_Store
  imports Rust_Str
begin

text \<open>
  The contract shared by the console's three single-use credential stores (login challenges,
  one-time tickets, step-up grants), as the locale \<open>token_store\<close>: what minting, redeeming and
  pruning may do to the records held. Its client lemmas are about whole runs of a store: a
  credential is redeemed at most as often as it was minted, every redemption goes back to a
  minting whose record it fits, and the store never outgrows its cap.
\<close>

section \<open>Runs of a store\<close>

text \<open>\<open>Mint now t g\<close> stores credential \<open>t\<close> for grant \<open>g\<close>; \<open>Redeem now t a\<close> presents it with
  the request's facts \<open>a\<close>; \<open>Prune d\<close> is a sweep or a revocation.\<close>

datatype ('g, 'a, 'd) tok_op = Mint instant string 'g | Redeem instant string 'a | Prune 'd

fun tok_step :: "(instant \<Rightarrow> string \<Rightarrow> 'g \<Rightarrow> 's \<Rightarrow> 's) \<Rightarrow>
    (instant \<Rightarrow> string \<Rightarrow> 'a \<Rightarrow> 's \<Rightarrow> 's \<times> 'o option) \<Rightarrow> ('d \<Rightarrow> 's \<Rightarrow> 's) \<Rightarrow>
    's \<Rightarrow> ('g, 'a, 'd) tok_op \<Rightarrow> 's \<times> 'o option" where
  "tok_step mint redeem prune s (Mint now t g) = (mint now t g s, None)"
| "tok_step mint redeem prune s (Redeem now t a) = redeem now t a s"
| "tok_step mint redeem prune s (Prune d) = (prune d s, None)"

fun tok_run :: "(instant \<Rightarrow> string \<Rightarrow> 'g \<Rightarrow> 's \<Rightarrow> 's) \<Rightarrow>
    (instant \<Rightarrow> string \<Rightarrow> 'a \<Rightarrow> 's \<Rightarrow> 's \<times> 'o option) \<Rightarrow> ('d \<Rightarrow> 's \<Rightarrow> 's) \<Rightarrow>
    's \<Rightarrow> ('g, 'a, 'd) tok_op list \<Rightarrow> 's \<times> (('g, 'a, 'd) tok_op \<times> 'o option) list" where
  "tok_run mint redeem prune s [] = (s, [])"
| "tok_run mint redeem prune s (x # xs) =
     (let (s', r) = tok_step mint redeem prune s x;
          (s'', tr) = tok_run mint redeem prune s' xs
      in (s'', (x, r) # tr))"

definition mints :: "string \<Rightarrow> ('g, 'a, 'd) tok_op \<times> 'o option \<Rightarrow> bool" where
  "mints t e = (case fst e of Mint _ u _ \<Rightarrow> u = t | _ \<Rightarrow> False)"

definition redeems :: "string \<Rightarrow> ('g, 'a, 'd) tok_op \<times> 'o option \<Rightarrow> bool" where
  "redeems t e = (case fst e of Redeem _ u _ \<Rightarrow> u = t \<and> snd e \<noteq> None | _ \<Rightarrow> False)"

text \<open>The redemptions a held record still allows.\<close>

definition budget_of :: "'r option \<Rightarrow> nat" where
  "budget_of r = (case r of None \<Rightarrow> 0 | Some _ \<Rightarrow> 1)"

lemma budget_of_mono: "(\<And>q. h' = Some q \<Longrightarrow> h = Some q) \<Longrightarrow> budget_of h' \<le> budget_of h"
  by (cases h') (auto simp: budget_of_def)

lemma budget_of_le: "budget_of h \<le> 1"
  by (simp add: budget_of_def split: option.splits)

section \<open>The contract\<close>

locale token_store =
  fixes held :: "'s \<Rightarrow> string \<Rightarrow> 'r option"
    and inv :: "'s \<Rightarrow> bool"
    and size_of :: "'s \<Rightarrow> nat"
    and cap :: nat
    and record_of :: "instant \<Rightarrow> 'g \<Rightarrow> 'r"
    and accepts :: "instant \<Rightarrow> 'a \<Rightarrow> 'r \<Rightarrow> 'o option"
    and mint :: "instant \<Rightarrow> string \<Rightarrow> 'g \<Rightarrow> 's \<Rightarrow> 's"
    and redeem :: "instant \<Rightarrow> string \<Rightarrow> 'a \<Rightarrow> 's \<Rightarrow> 's \<times> 'o option"
    and prune :: "'d \<Rightarrow> 's \<Rightarrow> 's"
  assumes mint_inv: "inv s \<Longrightarrow> inv (mint now t g s)"
    and redeem_inv: "inv s \<Longrightarrow> inv (fst (redeem now t a s))"
    and prune_inv: "inv s \<Longrightarrow> inv (prune d s)"
    and mint_held: "inv s \<Longrightarrow> held (mint now t g s) t = Some (record_of now g)"
    and mint_frame: "inv s \<Longrightarrow> u \<noteq> t \<Longrightarrow> held (mint now t g s) u = Some r \<Longrightarrow> held s u = Some r"
    and redeem_accepts: "inv s \<Longrightarrow> redeem now t a s = (s', Some v) \<Longrightarrow>
      \<exists>r. held s t = Some r \<and> accepts now a r = Some v \<and> held s' t = None"
    and redeem_frame: "inv s \<Longrightarrow> held (fst (redeem now t a s)) u = Some r \<Longrightarrow> held s u = Some r"
    and prune_frame: "inv s \<Longrightarrow> held (prune d s) u = Some r \<Longrightarrow> held s u = Some r"
    and mint_size: "inv s \<Longrightarrow> size_of (mint now t g s) \<le> cap"
    and redeem_size: "size_of (fst (redeem now t a s)) \<le> size_of s"
    and prune_size: "size_of (prune d s) \<le> size_of s"
begin

lemma step_inv: "inv s \<Longrightarrow> inv (fst (tok_step mint redeem prune s x))"
  by (cases x) (simp_all add: mint_inv redeem_inv prune_inv)

lemma run_inv: "inv s \<Longrightarrow> inv (fst (tok_run mint redeem prune s xs))"
proof (induction xs arbitrary: s)
  case Nil
  then show ?case by simp
next
  case (Cons x xs)
  then have "inv (fst (tok_step mint redeem prune s x))" by (simp add: step_inv)
  with Cons.IH show ?case by (simp add: split_def Let_def)
qed

lemma step_size: "inv s \<Longrightarrow> size_of s \<le> cap \<Longrightarrow> size_of (fst (tok_step mint redeem prune s x)) \<le> cap"
  by (cases x) (auto simp: mint_size intro: order_trans [OF redeem_size] order_trans [OF prune_size])

lemma run_size: "inv s \<Longrightarrow> size_of s \<le> cap \<Longrightarrow> size_of (fst (tok_run mint redeem prune s xs)) \<le> cap"
proof (induction xs arbitrary: s)
  case Nil
  then show ?case by simp
next
  case (Cons x xs)
  then have "inv (fst (tok_step mint redeem prune s x))"
    and "size_of (fst (tok_step mint redeem prune s x)) \<le> cap"
    by (simp_all add: step_inv step_size)
  with Cons.IH show ?case by (simp add: split_def Let_def)
qed

text \<open>What one step does to the budget of a credential: redemptions so far plus one while it is
  still held never exceed the mintings.\<close>

lemma step_budget:
  assumes "inv s" and "tok_step mint redeem prune s x = (s', r)"
  shows "budget_of (held s' t) + (if redeems t (x, r) then 1 else 0) \<le>
    budget_of (held s t) + (if mints t (x, r) then 1 else 0)"
proof (cases x)
  case (Mint now u g)
  with assms show ?thesis
    using mint_frame [of s t u now g] budget_of_le [of "held s' t"]
    by (cases "u = t") (auto simp: redeems_def mints_def intro!: budget_of_mono)
next
  case (Prune d)
  with assms show ?thesis
    using prune_frame [of s d t] by (auto simp: redeems_def mints_def intro!: budget_of_mono)
next
  case (Redeem now u a)
  with assms have step: "redeem now u a s = (s', r)" by simp
  with assms(1) have keep: "held s' t = Some q \<Longrightarrow> held s t = Some q" for q
    using redeem_frame [of s now u a t q] by simp
  show ?thesis
  proof (cases "redeems t (x, r)")
    case True
    with Redeem obtain v where "u = t" and "r = Some v" by (auto simp: redeems_def)
    with redeem_accepts [OF assms(1)] step have "held s t \<noteq> None" and "held s' t = None"
      by fastforce+
    then show ?thesis by (auto simp: budget_of_def)
  next
    case False
    with keep Redeem show ?thesis by (auto simp: mints_def intro!: budget_of_mono)
  qed
qed

lemma run_budget:
  assumes "inv s" and "tok_run mint redeem prune s xs = (s', tr)"
  shows "budget_of (held s' t) + count_if (redeems t) tr \<le> budget_of (held s t) + count_if (mints t) tr"
  using assms
proof (induction xs arbitrary: s tr)
  case Nil
  then show ?case by simp
next
  case (Cons x xs)
  obtain s1 r where st: "tok_step mint redeem prune s x = (s1, r)" by (rule prod.exhaust)
  obtain s2 tr' where rn: "tok_run mint redeem prune s1 xs = (s2, tr')" by (rule prod.exhaust)
  from Cons.prems(2) st rn have tr: "s' = s2" "tr = (x, r) # tr'" by simp_all
  have "inv s1" using step_inv [OF Cons.prems(1), of x] st by simp
  with Cons.IH rn tr have "budget_of (held s' t) + count_if (redeems t) tr' \<le> budget_of (held s1 t) + count_if (mints t) tr'"
    by simp
  moreover have "budget_of (held s1 t) + (if redeems t (x, r) then 1 else 0) \<le>
      budget_of (held s t) + (if mints t (x, r) then 1 else 0)"
    using step_budget [OF Cons.prems(1) st] .
  ultimately show ?case by (auto simp: tr split: if_splits)
qed

lemma no_replay:
  assumes "inv s" and "held s t = None"
  shows "count_if (redeems t) (snd (tok_run mint redeem prune s xs)) \<le>
    count_if (mints t) (snd (tok_run mint redeem prune s xs))"
proof -
  obtain s' tr where "tok_run mint redeem prune s xs = (s', tr)" by (rule prod.exhaust)
  with run_budget [OF assms(1) this, of t] assms(2) show ?thesis by (simp add: budget_of_def)
qed

text \<open>Every record held at the end of a run was held at its start or minted in it.\<close>

lemma run_held:
  assumes "inv s" and "held (fst (tok_run mint redeem prune s xs)) t = Some r"
  shows "held s t = Some r \<or> (\<exists>now g. Mint now t g \<in> set xs \<and> r = record_of now g)"
  using assms
proof (induction xs arbitrary: s)
  case Nil
  then show ?case by simp
next
  case (Cons x xs)
  let ?s1 = "fst (tok_step mint redeem prune s x)"
  have "held (fst (tok_run mint redeem prune ?s1 xs)) t = Some r"
    using Cons.prems(2) by (simp add: split_def Let_def)
  with Cons.IH [OF step_inv [OF Cons.prems(1)]]
  consider "held ?s1 t = Some r" | "\<exists>now g. Mint now t g \<in> set xs \<and> r = record_of now g"
    by blast
  then show ?case
  proof cases
    case 1
    show ?thesis
    proof (cases x)
      case (Mint now u g)
      with 1 Cons.prems(1) show ?thesis
        using mint_held [of s now u g] mint_frame [of s t u now g r] by (cases "u = t") auto
    next
      case (Redeem now u a)
      with 1 Cons.prems(1) show ?thesis using redeem_frame by auto
    next
      case (Prune d)
      with 1 Cons.prems(1) show ?thesis using prune_frame by auto
    qed
  qed auto
qed

lemma redemption_minted:
  assumes "inv s" and "\<And>u. held s u = None"
    and "snd (redeem now t a (fst (tok_run mint redeem prune s xs))) = Some v"
  shows "\<exists>now0 g. Mint now0 t g \<in> set xs \<and> accepts now a (record_of now0 g) = Some v"
proof -
  let ?s = "fst (tok_run mint redeem prune s xs)"
  have "redeem now t a ?s = (fst (redeem now t a ?s), Some v)"
    using assms(3) by (simp add: prod_eq_iff)
  from redeem_accepts [OF run_inv [OF assms(1)] this]
  obtain r where "held ?s t = Some r" and "accepts now a r = Some v" by blast
  with run_held [OF assms(1)] assms(2) show ?thesis by fastforce
qed

end

end
