(* ===== verification/Auth_Stores.thy ===== *)
theory Auth_Stores
  imports Token_Store
begin

text \<open>
  The single-use credential stores of the console's auth layer: login challenges
  (\<open>src/src/infra/auth/challenge.rs\<close>), one-time tickets (\<open>ticket.rs\<close>) and step-up grants
  (\<open>stepup.rs\<close>). Each is an interpretation of \<open>token_store\<close>. A random token is an argument of
  the minting operations (it comes from the \<open>rand\<close> crate), and so is the clock.
\<close>

section \<open>Lifetimes and caps\<close>

definition CHALLENGE_TTL :: duration where "CHALLENGE_TTL = from_secs 120"
definition TICKET_TTL :: duration where "TICKET_TTL = from_secs 30"
definition STEPUP_TTL :: duration where "STEPUP_TTL = from_secs 120"
definition MAX_CHALLENGES :: nat where "MAX_CHALLENGES = 4096"
definition MAX_TICKETS :: nat where "MAX_TICKETS = 4096"
definition MAX_STEPUPS :: nat where "MAX_STEPUPS = 1024"

lemmas auth_caps = MAX_CHALLENGES_def MAX_TICKETS_def MAX_STEPUPS_def

section \<open>Evicting the oldest entries\<close>

text \<open>The loop \<open>while m.len() >= MAX\<close>: the entry with the least issue time goes, until the map
  is below the cap (or empty).\<close>

function evict_oldest :: "('v \<Rightarrow> instant) \<Rightarrow> nat \<Rightarrow> ('k, 'v) hmap \<Rightarrow> ('k, 'v) hmap" where
  "evict_oldest issued mx m =
     (if mx \<le> length m then
        (case min_by_key (\<lambda>e. issued (snd e)) m of
           None \<Rightarrow> m
         | Some e \<Rightarrow> evict_oldest issued mx (hm_remove (fst e) m))
      else m)"
  by pat_completeness auto
termination
  by (relation "measure (\<lambda>(issued, mx, m). length m)")
    (auto intro!: length_hm_remove_less dest!: min_by_key_in)

declare evict_oldest.simps [simp del]

lemma evict_oldest_ok [hm_ok_intros]: "hm_ok m \<Longrightarrow> hm_ok (evict_oldest issued mx m)"
proof (induction issued mx m rule: evict_oldest.induct)
  case (1 issued mx m)
  then show ?case
    by (subst evict_oldest.simps) (auto split: option.splits simp: hm_ok_remove)
qed

lemma evict_oldest_get: "hm_get (evict_oldest issued mx m) k = Some v \<Longrightarrow> hm_get m k = Some v"
proof (induction issued mx m rule: evict_oldest.induct)
  case (1 issued mx m)
  from "1.prems" show ?case
    by (subst (asm) evict_oldest.simps)
      (auto split: if_splits option.splits dest: "1.IH" simp: hm_simps)
qed

lemma evict_oldest_length: "0 < mx \<Longrightarrow> length (evict_oldest issued mx m) < mx"
proof (induction issued mx m rule: evict_oldest.induct)
  case (1 issued mx m)
  then show ?case by (subst evict_oldest.simps) (auto split: option.splits)
qed

lemma evict_oldest_id: "length m < mx \<Longrightarrow> evict_oldest issued mx m = m"
  by (subst evict_oldest.simps) simp

text \<open>Eviction takes old entries only: what it drops is no younger than anything it keeps.\<close>

lemma evict_oldest_oldest:
  assumes "hm_ok m" and "(k, v) \<in> set m" and "(k, v) \<notin> set (evict_oldest issued mx m)"
    and "(j, w) \<in> set (evict_oldest issued mx m)"
  shows "issued v \<le> issued w"
  using assms
proof (induction issued mx m rule: evict_oldest.induct)
  case (1 issued mx m)
  show ?case
  proof (cases "mx \<le> length m \<and> m \<noteq> []")
    case False
    with "1.prems"(2,3) show ?thesis
      by (subst (asm) (1) evict_oldest.simps) (auto split: if_splits option.splits)
  next
    case True
    then obtain e where e: "min_by_key (\<lambda>e. issued (snd e)) m = Some e"
      by (cases "min_by_key (\<lambda>e. issued (snd e)) m") auto
    with True have ev: "evict_oldest issued mx m = evict_oldest issued mx (hm_remove (fst e) m)"
      by (subst evict_oldest.simps) simp
    have sub: "set (evict_oldest issued mx (hm_remove (fst e) m)) \<subseteq> set m"
    proof
      fix x assume x: "x \<in> set (evict_oldest issued mx (hm_remove (fst e) m))"
      have "hm_ok (evict_oldest issued mx (hm_remove (fst e) m))"
        using "1.prems"(1) by (intro hm_ok_intros)
      with x have "hm_get (evict_oldest issued mx (hm_remove (fst e) m)) (fst x) = Some (snd x)"
        by (intro hm_get_SomeI) auto
      then have "hm_get (hm_remove (fst e) m) (fst x) = Some (snd x)" by (rule evict_oldest_get)
      then show "x \<in> set m" by (auto dest!: hm_get_SomeD simp: set_hm_remove)
    qed
    show ?thesis
    proof (cases "(k, v) \<in> set (hm_remove (fst e) m)")
      case True
      with "1.IH" [OF _ e] "1.prems" ev \<open>mx \<le> length m \<and> m \<noteq> []\<close> show ?thesis
        by (auto intro: hm_ok_remove)
    next
      case False
      with "1.prems"(2) have "fst e = k" by (auto simp: set_hm_remove)
      with min_by_key_in [OF e] "1.prems"(1,2) have "e = (k, v)"
        by (metis hm_get_SomeI option.inject prod.collapse)
      moreover have "(j, w) \<in> set m" using "1.prems"(4) sub ev by auto
      ultimately show ?thesis using min_by_key_le [OF e, of "(j, w)"] by simp
    qed
  qed
qed

text \<open>Pruning, evicting and inserting, as every minting does: what the three stores share.\<close>

lemma mint_get_self: "hm_get (hm_insert t r (evict_oldest f n (hm_retain P m))) t = Some r"
  by (simp add: hm_simps)

lemma mint_get_other:
  "hm_ok m \<Longrightarrow> u \<noteq> t \<Longrightarrow> hm_get (hm_insert t r (evict_oldest f n (hm_retain P m))) u = Some q \<Longrightarrow>
    hm_get m u = Some q"
  by (auto simp: hm_get_insert dest!: evict_oldest_get hm_get_retain_SomeD)

lemma mint_length:
  "0 < n \<Longrightarrow> length (hm_insert t r (evict_oldest f n (hm_retain P m))) \<le> n"
  using length_hm_insert_le [of t r "evict_oldest f n (hm_retain P m)"]
    evict_oldest_length [of n f "hm_retain P m"] by simp

lemmas mint_facts = mint_get_self mint_get_other mint_length

section \<open>Login challenges\<close>

type_synonym challenge_store = "(string, instant) hmap"

definition challenge_issue :: "instant \<Rightarrow> string \<Rightarrow> challenge_store \<Rightarrow> challenge_store" where
  "challenge_issue now nonce m =
     (let m1 = hm_retain (\<lambda>_ t. duration_since now t \<le> CHALLENGE_TTL) m;
          m2 = evict_oldest id MAX_CHALLENGES m1
      in hm_insert nonce now m2)"

definition challenge_consume :: "instant \<Rightarrow> string \<Rightarrow> challenge_store \<Rightarrow> challenge_store \<times> bool" where
  "challenge_consume now nonce m =
     (if nonce = [] then (m, False)
      else (case hm_get m nonce of
              Some t \<Rightarrow> (hm_remove nonce m, duration_since now t \<le> CHALLENGE_TTL)
            | None \<Rightarrow> (m, False)))"

definition challenge_sweep :: "instant \<Rightarrow> challenge_store \<Rightarrow> challenge_store" where
  "challenge_sweep now m = hm_retain (\<lambda>_ t. duration_since now t \<le> CHALLENGE_TTL) m"

text \<open>The operations in the shape of the contract.\<close>

definition challenge_mint :: "instant \<Rightarrow> string \<Rightarrow> unit \<Rightarrow> challenge_store \<Rightarrow> challenge_store" where
  "challenge_mint now t _ m = challenge_issue now t m"

definition challenge_redeem :: "instant \<Rightarrow> string \<Rightarrow> unit \<Rightarrow> challenge_store \<Rightarrow> challenge_store \<times> unit option" where
  "challenge_redeem now t _ m =
     (let (m', b) = challenge_consume now t m in (m', if b then Some () else None))"

definition challenge_accepts :: "instant \<Rightarrow> unit \<Rightarrow> instant \<Rightarrow> unit option" where
  "challenge_accepts now _ t = (if duration_since now t \<le> CHALLENGE_TTL then Some () else None)"

interpretation chal: token_store hm_get hm_ok length MAX_CHALLENGES "\<lambda>now (_ :: unit). now"
  challenge_accepts challenge_mint challenge_redeem challenge_sweep
proof (unfold_locales, goal_cases)
  case (9 s now t g)
  then show ?case
    by (simp add: challenge_mint_def challenge_issue_def mint_length auth_caps)
qed (auto simp: challenge_mint_def challenge_issue_def challenge_redeem_def challenge_consume_def challenge_sweep_def
    challenge_accepts_def hm_simps length_hm_remove_le length_hm_retain_le
    intro!: hm_ok_intros dest: mint_get_other hm_get_retain_SomeD
    split: if_splits option.splits)

section \<open>One-time tickets\<close>

record ticket_rec =
  tk_issued :: instant
  tk_user :: string
  tk_purpose :: string

type_synonym ticket_store = "(string, ticket_rec) hmap"

definition ticket_issue :: "instant \<Rightarrow> string \<Rightarrow> string \<Rightarrow> string \<Rightarrow> ticket_store \<Rightarrow> ticket_store" where
  "ticket_issue now ticket user purpose m =
     (let m1 = hm_retain (\<lambda>_ r. duration_since now (tk_issued r) \<le> TICKET_TTL) m;
          m2 = evict_oldest tk_issued MAX_TICKETS m1
      in hm_insert ticket \<lparr>tk_issued = now, tk_user = user, tk_purpose = purpose\<rparr> m2)"

definition ticket_consume :: "instant \<Rightarrow> string \<Rightarrow> string \<Rightarrow> ticket_store \<Rightarrow> ticket_store \<times> string option" where
  "ticket_consume now ticket purpose m =
     (if ticket = [] then (m, None)
      else (case hm_get m ticket of
              Some r \<Rightarrow>
                (if tk_purpose r = purpose \<and> duration_since now (tk_issued r) \<le> TICKET_TTL
                 then (hm_remove ticket m, Some (tk_user r)) else (m, None))
            | None \<Rightarrow> (m, None)))"

definition ticket_revoke_user :: "string \<Rightarrow> ticket_store \<Rightarrow> ticket_store" where
  "ticket_revoke_user user m = hm_retain (\<lambda>_ r. tk_user r \<noteq> user) m"

definition ticket_sweep :: "instant \<Rightarrow> ticket_store \<Rightarrow> ticket_store" where
  "ticket_sweep now m = hm_retain (\<lambda>_ r. duration_since now (tk_issued r) \<le> TICKET_TTL) m"

text \<open>The two ways entries leave without being redeemed, and the contract's shape.\<close>

definition ticket_mint :: "instant \<Rightarrow> string \<Rightarrow> string \<times> string \<Rightarrow> ticket_store \<Rightarrow> ticket_store" where
  "ticket_mint now t g m = ticket_issue now t (fst g) (snd g) m"

datatype prune_op = Sweep instant | RevokeUser string

fun ticket_prune :: "prune_op \<Rightarrow> ticket_store \<Rightarrow> ticket_store" where
  "ticket_prune (Sweep now) m = ticket_sweep now m"
| "ticket_prune (RevokeUser u) m = ticket_revoke_user u m"

definition ticket_accepts :: "instant \<Rightarrow> string \<Rightarrow> ticket_rec \<Rightarrow> string option" where
  "ticket_accepts now purpose r =
     (if tk_purpose r = purpose \<and> duration_since now (tk_issued r) \<le> TICKET_TTL
      then Some (tk_user r) else None)"

definition ticket_record :: "instant \<Rightarrow> string \<times> string \<Rightarrow> ticket_rec" where
  "ticket_record now g = \<lparr>tk_issued = now, tk_user = fst g, tk_purpose = snd g\<rparr>"

lemma ticket_prune_retain: "\<exists>P. ticket_prune d m = hm_retain P m"
  by (cases d) (auto simp: ticket_sweep_def ticket_revoke_user_def)

interpretation tick: token_store hm_get hm_ok length MAX_TICKETS ticket_record ticket_accepts
  ticket_mint ticket_consume ticket_prune
proof (unfold_locales, goal_cases)
  case (3 s d)
  then show ?case using ticket_prune_retain [of d s] by (auto intro: hm_ok_intros)
next
  case (8 s d u r)
  then show ?case using ticket_prune_retain [of d s] by (auto dest: hm_get_retain_SomeD)
next
  case (9 s now t g)
  then show ?case by (simp add: ticket_mint_def ticket_issue_def mint_length auth_caps)
next
  case (11 d s)
  then show ?case using ticket_prune_retain [of d s] by (auto simp: length_hm_retain_le)
qed (auto simp: ticket_mint_def ticket_issue_def ticket_consume_def ticket_record_def
    ticket_accepts_def hm_simps length_hm_remove_le
    intro!: hm_ok_intros dest: mint_get_other split: if_splits option.splits)

section \<open>Step-up grants\<close>

record stepup_rec =
  su_issued :: instant
  su_user :: string

type_synonym stepup_store = "(string, stepup_rec) hmap"

definition now_fresh :: "instant \<Rightarrow> instant \<Rightarrow> bool" where
  "now_fresh now issued \<longleftrightarrow> duration_since now issued \<le> STEPUP_TTL"

definition stepup_issue :: "instant \<Rightarrow> string \<Rightarrow> string \<Rightarrow> stepup_store \<Rightarrow> stepup_store" where
  "stepup_issue now token user m =
     (let m1 = hm_retain (\<lambda>_ r. duration_since now (su_issued r) \<le> STEPUP_TTL) m;
          m2 = evict_oldest su_issued MAX_STEPUPS m1
      in hm_insert token \<lparr>su_issued = now, su_user = user\<rparr> m2)"

definition stepup_consume :: "instant \<Rightarrow> string \<Rightarrow> string \<Rightarrow> stepup_store \<Rightarrow> stepup_store \<times> bool" where
  "stepup_consume now token user m =
     (if token = [] then (m, False)
      else (let outcome = (case hm_get m token of
                  Some r \<Rightarrow> if su_user r = user \<and> now_fresh now (su_issued r) then Some True
                            else if \<not> now_fresh now (su_issued r) then Some False else None
                | None \<Rightarrow> None)
            in (case outcome of Some ok \<Rightarrow> (hm_remove token m, ok) | None \<Rightarrow> (m, False))))"

definition stepup_revoke_user :: "string \<Rightarrow> stepup_store \<Rightarrow> stepup_store" where
  "stepup_revoke_user user m = hm_retain (\<lambda>_ r. su_user r \<noteq> user) m"

definition stepup_sweep :: "instant \<Rightarrow> stepup_store \<Rightarrow> stepup_store" where
  "stepup_sweep now m = hm_retain (\<lambda>_ r. now_fresh now (su_issued r)) m"

fun stepup_prune :: "prune_op \<Rightarrow> stepup_store \<Rightarrow> stepup_store" where
  "stepup_prune (Sweep now) m = stepup_sweep now m"
| "stepup_prune (RevokeUser u) m = stepup_revoke_user u m"

definition stepup_redeem :: "instant \<Rightarrow> string \<Rightarrow> string \<Rightarrow> stepup_store \<Rightarrow> stepup_store \<times> unit option" where
  "stepup_redeem now t user m =
     (let (m', b) = stepup_consume now t user m in (m', if b then Some () else None))"

definition stepup_accepts :: "instant \<Rightarrow> string \<Rightarrow> stepup_rec \<Rightarrow> unit option" where
  "stepup_accepts now user r =
     (if su_user r = user \<and> now_fresh now (su_issued r) then Some () else None)"

definition stepup_record :: "instant \<Rightarrow> string \<Rightarrow> stepup_rec" where
  "stepup_record now user = \<lparr>su_issued = now, su_user = user\<rparr>"

lemma stepup_prune_retain: "\<exists>P. stepup_prune d m = hm_retain P m"
  by (cases d) (auto simp: stepup_sweep_def stepup_revoke_user_def)

interpretation step: token_store hm_get hm_ok length MAX_STEPUPS stepup_record stepup_accepts
  stepup_issue stepup_redeem stepup_prune
proof (unfold_locales, goal_cases)
  case (3 s d)
  then show ?case using stepup_prune_retain [of d s] by (auto intro: hm_ok_intros)
next
  case (8 s d u r)
  then show ?case using stepup_prune_retain [of d s] by (auto dest: hm_get_retain_SomeD)
next
  case (9 s now t g)
  then show ?case by (simp add: stepup_issue_def mint_length auth_caps)
next
  case (11 d s)
  then show ?case using stepup_prune_retain [of d s] by (auto simp: length_hm_retain_le)
qed (auto simp: stepup_issue_def stepup_redeem_def stepup_consume_def stepup_record_def
    stepup_accepts_def hm_simps length_hm_remove_le
    intro!: hm_ok_intros dest: mint_get_other split: if_splits option.splits)

type_synonym challenge_op = "(unit, unit, instant) tok_op"
type_synonym ticket_op = "(string \<times> string, string, prune_op) tok_op"
type_synonym stepup_op = "(string, string, prune_op) tok_op"

section \<open>Properties\<close>

text \<open>C21: no single-use credential (login challenge, ticket, step-up grant) is accepted more often
  than it was issued, whatever requests, floods, sweeps and revocations come in between: none of
  them can be replayed.\<close>

theorem credentials_single_use:
  "count_if (redeems t) (snd (tok_run challenge_mint challenge_redeem challenge_sweep [] cs)) \<le>
     count_if (mints t) (snd (tok_run challenge_mint challenge_redeem challenge_sweep [] cs)) \<and>
   count_if (redeems t) (snd (tok_run ticket_mint ticket_consume ticket_prune [] ts)) \<le>
     count_if (mints t) (snd (tok_run ticket_mint ticket_consume ticket_prune [] ts)) \<and>
   count_if (redeems t) (snd (tok_run stepup_issue stepup_redeem stepup_prune [] us)) \<le>
     count_if (mints t) (snd (tok_run stepup_issue stepup_redeem stepup_prune [] us))"
  by (intro conjI chal.no_replay tick.no_replay step.no_replay) (simp_all add: hm_simps)

text \<open>A redeemed ticket was minted before for exactly the user returned and the purpose
  presented, at most 30 seconds earlier.\<close>

theorem ticket_provenance:
  assumes "snd (ticket_consume now t purpose
      (fst (tok_run ticket_mint ticket_consume ticket_prune [] ops))) = Some user"
  shows "\<exists>now0. Mint now0 t (user, purpose) \<in> set ops \<and> now - now0 \<le> 30 * 1000000000"
proof -
  from tick.redemption_minted [OF _ _ assms] obtain now0 g where
    m: "Mint now0 t g \<in> set ops" and a: "ticket_accepts now purpose (ticket_record now0 g) = Some user"
    by (auto simp: hm_simps)
  from a have "g = (user, purpose)" and "now - now0 \<le> 30 * 1000000000"
    by (auto simp: ticket_accepts_def ticket_record_def duration_since_def TICKET_TTL_def
        from_secs_def split: if_splits)
  with m show ?thesis by blast
qed

theorem ticket_provenance_witness:
  "\<exists>now0. Mint now0 ''t1'' (''alice'', ''download'') \<in>
       set ([Mint 5 ''t1'' (''alice'', ''download''), Prune (Sweep 7)] :: ticket_op list)
     \<and> 9 - now0 \<le> 30 * 1000000000"
  by (rule ticket_provenance)
    (simp add: ticket_mint_def ticket_issue_def ticket_consume_def ticket_sweep_def
      evict_oldest_id auth_caps hm_retain_def hm_insert_def hm_remove_def hm_get_def
      duration_since_def TICKET_TTL_def from_secs_def)

text \<open>A step-up grant authorises only the account it was minted for, at most 120 seconds
  after the fresh re-authentication that minted it.\<close>

theorem stepup_bound_to_user:
  assumes "snd (stepup_consume now t user
      (fst (tok_run stepup_issue stepup_redeem stepup_prune [] ops)))"
  shows "\<exists>now0. Mint now0 t user \<in> set ops \<and> now - now0 \<le> 120 * 1000000000"
proof -
  from assms have "snd (stepup_redeem now t user
      (fst (tok_run stepup_issue stepup_redeem stepup_prune [] ops))) = Some ()"
    by (simp add: stepup_redeem_def split_def Let_def)
  from step.redemption_minted [OF _ _ this] obtain now0 g where
    "Mint now0 t g \<in> set ops" and "stepup_accepts now user (stepup_record now0 g) = Some ()"
    by (auto simp: hm_simps)
  then show ?thesis
    by (auto simp: stepup_accepts_def stepup_record_def now_fresh_def duration_since_def
        STEPUP_TTL_def from_secs_def split: if_splits)
qed

theorem stepup_bound_to_user_witness:
  "\<exists>now0. Mint now0 ''g'' ''alice'' \<in>
       set ([Mint 5 ''g'' ''alice'', Redeem 6 ''g'' ''bob'', Prune (RevokeUser ''bob'')] :: stepup_op list)
     \<and> 9 - now0 \<le> 120 * 1000000000"
  by (rule stepup_bound_to_user)
    (simp add: stepup_issue_def stepup_consume_def stepup_redeem_def stepup_revoke_user_def
      now_fresh_def evict_oldest_id auth_caps hm_retain_def hm_insert_def hm_remove_def hm_get_def
      duration_since_def STEPUP_TTL_def from_secs_def)

text \<open>Whatever the load, the stores stay within their caps: at most 4096 login challenges (the
  endpoint is public), 4096 tickets and 1024 step-up grants.\<close>

theorem credential_stores_bounded:
  "length (fst (tok_run challenge_mint challenge_redeem challenge_sweep [] cs)) \<le> 4096 \<and>
   length (fst (tok_run ticket_mint ticket_consume ticket_prune [] ts)) \<le> 4096 \<and>
   length (fst (tok_run stepup_issue stepup_redeem stepup_prune [] us)) \<le> 1024"
  using chal.run_size [of "[]" cs] tick.run_size [of "[]" ts] step.run_size [of "[]" us]
  by (simp add: auth_caps)

end
