(* ===== verification/Sessions.thy ===== *)
theory Sessions
  imports Auth_Stores
begin

text \<open>
  The bearer-session store (\<open>src/src/infra/auth/session.rs\<close>) with its shared helpers from
  \<open>state.rs\<close>: a map from token hash to record, a configurable inactivity timeout, an absolute
  lifetime, and optional persistence. SHA-256 is the parameter \<open>sha\<close>; the clock (unix
  seconds) and random tokens are arguments.
\<close>

section \<open>Tokens and their hashes\<close>

definition HEX :: string where "HEX = ''0123456789abcdef''"

definition hex_lower :: "8 word list \<Rightarrow> string" where
  "hex_lower bytes = concat (map (\<lambda>b. [HEX ! unat (drop_bit 4 b), HEX ! unat (and b 0xf)]) bytes)"

text \<open>\<open>random_token\<close>: 48 hex digits, digit \<open>i\<close> drawn as \<open>rng i\<close> from \<open>0..16\<close>.\<close>

definition random_token :: "(nat \<Rightarrow> nat) \<Rightarrow> string" where
  "random_token rng = map (\<lambda>i. HEX ! rng i) [0..<48]"

definition token_key :: "(string \<Rightarrow> 8 word list) \<Rightarrow> string \<Rightarrow> string" where
  "token_key sha token = hex_lower (sha token)"

section \<open>The store\<close>

definition SESSION_TTL :: nat where "SESSION_TTL = 12 * 3600"
definition SESSION_ABS_TTL :: nat where "SESSION_ABS_TTL = 7 * 24 * 3600"

record session_rec =
  se_user :: string
  se_last :: nat
  se_issued :: nat

text \<open>\<open>se_disk\<close> is the content of \<open>sessions.json\<close>; \<open>se_io\<close> says whether writing it succeeds
  (a failed write is ignored by the code).\<close>

record session_store =
  se_map :: "(string, session_rec) hmap"
  se_ttl :: nat
  se_persist :: bool
  se_disk :: "(string, session_rec) hmap option"
  se_io :: bool

definition record_live :: "session_rec \<Rightarrow> nat \<Rightarrow> nat \<Rightarrow> bool" where
  "record_live r now ttl \<longleftrightarrow> now - se_last r \<le> ttl \<and> now - se_issued r \<le> SESSION_ABS_TTL"

definition session_default :: "(string, session_rec) hmap option \<Rightarrow> bool \<Rightarrow> session_store" where
  "session_default disk io =
     \<lparr>se_map = [], se_ttl = 0, se_persist = False, se_disk = disk, se_io = io\<rparr>"

definition session_with_store :: "nat \<Rightarrow> (string, session_rec) hmap option \<Rightarrow> bool \<Rightarrow> session_store" where
  "session_with_store now disk io =
     (let s = (session_default disk io)\<lparr>se_persist := True\<rparr>
      in (case disk of
            Some m \<Rightarrow> s\<lparr>se_map := hm_retain (\<lambda>_ r. record_live r now SESSION_TTL) m\<rparr>
          | None \<Rightarrow> s))"

definition session_set_ttl_secs :: "nat \<Rightarrow> session_store \<Rightarrow> session_store" where
  "session_set_ttl_secs secs s = s\<lparr>se_ttl := secs\<rparr>"

definition ttl_secs :: "session_store \<Rightarrow> nat" where
  "ttl_secs s = (if se_ttl s = 0 then SESSION_TTL else se_ttl s)"

definition session_save :: "session_store \<Rightarrow> session_store" where
  "session_save s =
     (if \<not> se_persist s then s
      else if se_io s then s\<lparr>se_disk := Some (se_map s)\<rparr> else s)"

definition session_issue :: "(string \<Rightarrow> 8 word list) \<Rightarrow> nat \<Rightarrow> string \<Rightarrow> string \<Rightarrow> session_store \<Rightarrow> session_store" where
  "session_issue sha now token user s =
     (let key = token_key sha token;
          m = hm_retain (\<lambda>_ r. record_live r now (ttl_secs s)) (se_map s);
          m' = hm_insert key \<lparr>se_user = user, se_last = now, se_issued = now\<rparr> m
      in session_save (s\<lparr>se_map := m'\<rparr>))"

definition session_identity :: "(string \<Rightarrow> 8 word list) \<Rightarrow> nat \<Rightarrow> string \<Rightarrow> session_store \<Rightarrow> session_store \<times> string option" where
  "session_identity sha now token s =
     (if token = [] then (s, None)
      else (let key = token_key sha token
            in (case hm_get (se_map s) key of
                  Some r \<Rightarrow>
                    (if record_live r now (ttl_secs s) then
                       (let s' = s\<lparr>se_map := hm_insert key
                                    \<lparr>se_user = se_user r, se_last = now, se_issued = se_issued r\<rparr>
                                    (se_map s)\<rparr>
                        in (if 300 \<le> now - se_last r then session_save s' else s', Some (se_user r)))
                     else (s, None))
                | None \<Rightarrow> (s, None))))"

definition session_revoke :: "(string \<Rightarrow> 8 word list) \<Rightarrow> string \<Rightarrow> session_store \<Rightarrow> session_store" where
  "session_revoke sha token s =
     session_save (s\<lparr>se_map := hm_remove (token_key sha token) (se_map s)\<rparr>)"

definition session_revoke_user :: "(string \<Rightarrow> 8 word list) \<Rightarrow> string \<Rightarrow> string option \<Rightarrow> session_store \<Rightarrow> session_store" where
  "session_revoke_user sha user keep s =
     (let keep_key = map_option (token_key sha) keep
      in session_save (s\<lparr>se_map :=
           hm_retain (\<lambda>tok r. se_user r \<noteq> user \<or> keep_key = Some tok) (se_map s)\<rparr>))"

definition session_sweep :: "nat \<Rightarrow> session_store \<Rightarrow> session_store" where
  "session_sweep now s =
     (let m = hm_retain (\<lambda>_ r. record_live r now (ttl_secs s)) (se_map s);
          s' = s\<lparr>se_map := m\<rparr>
      in if length m \<noteq> length (se_map s) then session_save s' else s')"

section \<open>Frames\<close>

definition session_ok :: "session_store \<Rightarrow> bool" where
  "session_ok s \<longleftrightarrow> hm_ok (se_map s)"

lemma session_save_simps [simp]:
  "se_map (session_save s) = se_map s" "se_ttl (session_save s) = se_ttl s"
  "se_persist (session_save s) = se_persist s" "se_io (session_save s) = se_io s"
  by (simp_all add: session_save_def)

lemma ttl_secs_save [simp]: "ttl_secs (session_save s) = ttl_secs s"
  by (simp add: ttl_secs_def)

lemma ttl_secs_map [simp]: "ttl_secs (s\<lparr>se_map := m\<rparr>) = ttl_secs s"
  by (simp add: ttl_secs_def)

lemmas session_defs = session_issue_def session_identity_def session_revoke_def
  session_revoke_user_def session_sweep_def session_set_ttl_secs_def Let_def

lemma session_issue_ok: "session_ok s \<Longrightarrow> session_ok (session_issue sha now t u s)"
  by (auto simp: session_ok_def session_defs intro!: hm_ok_intros)

lemma session_identity_ok: "session_ok s \<Longrightarrow> session_ok (fst (session_identity sha now t s))"
  by (auto simp: session_ok_def session_defs intro!: hm_ok_intros split: option.splits)

lemma session_revoke_ok: "session_ok s \<Longrightarrow> session_ok (session_revoke sha t s)"
  by (auto simp: session_ok_def session_defs intro!: hm_ok_intros)

lemma session_revoke_user_ok: "session_ok s \<Longrightarrow> session_ok (session_revoke_user sha u keep s)"
  by (auto simp: session_ok_def session_defs intro!: hm_ok_intros)

lemma session_sweep_ok: "session_ok s \<Longrightarrow> session_ok (session_sweep now s)"
  by (auto simp: session_ok_def session_defs intro!: hm_ok_intros)

lemmas session_ok_intros = session_issue_ok session_identity_ok session_revoke_ok
  session_revoke_user_ok session_sweep_ok

section \<open>Runs\<close>

datatype session_op =
    SIssue nat string string | SIdentity nat string | SRevoke string
  | SRevokeUser string "string option" | SSweep nat | SSetTtl nat

fun session_step :: "(string \<Rightarrow> 8 word list) \<Rightarrow> session_store \<Rightarrow> session_op \<Rightarrow> session_store" where
  "session_step sha s (SIssue now t u) = session_issue sha now t u s"
| "session_step sha s (SIdentity now t) = fst (session_identity sha now t s)"
| "session_step sha s (SRevoke t) = session_revoke sha t s"
| "session_step sha s (SRevokeUser u keep) = session_revoke_user sha u keep s"
| "session_step sha s (SSweep now) = session_sweep now s"
| "session_step sha s (SSetTtl n) = session_set_ttl_secs n s"

definition session_run :: "(string \<Rightarrow> 8 word list) \<Rightarrow> session_store \<Rightarrow> session_op list \<Rightarrow> session_store" where
  "session_run sha s xs = foldl (session_step sha) s xs"

fun issues_key :: "(string \<Rightarrow> 8 word list) \<Rightarrow> string \<Rightarrow> session_op \<Rightarrow> bool" where
  "issues_key sha k (SIssue now t u) = (token_key sha t = k)"
| "issues_key sha k _ = False"

lemma session_step_ok: "session_ok s \<Longrightarrow> session_ok (session_step sha s x)"
  by (cases x) (simp_all add: session_ok_intros, simp add: session_ok_def session_set_ttl_secs_def)

lemma session_run_ok: "session_ok s \<Longrightarrow> session_ok (session_run sha s xs)"
  unfolding session_run_def by (induction xs arbitrary: s) (auto intro: session_step_ok)

text \<open>
  The anchor of the absolute lifetime: while no new session is issued under the same key,
  neither its owner nor its issue time ever changes.
\<close>

lemma session_step_anchor:
  assumes "session_ok s" and "\<not> issues_key sha k x"
    and "hm_get (se_map (session_step sha s x)) k = Some r"
  shows "\<exists>q. hm_get (se_map s) k = Some q \<and> se_user q = se_user r \<and> se_issued q = se_issued r"
  using assms
  by (cases x)
    (auto simp: session_defs session_ok_def hm_get_insert hm_get_remove
      dest!: hm_get_retain_SomeD split: if_splits option.splits)

lemma session_run_anchor:
  assumes "session_ok s" and "\<forall>x \<in> set xs. \<not> issues_key sha k x"
    and "hm_get (se_map (session_run sha s xs)) k = Some r"
  shows "\<exists>q. hm_get (se_map s) k = Some q \<and> se_user q = se_user r \<and> se_issued q = se_issued r"
  using assms
proof (induction xs arbitrary: s)
  case Nil
  then show ?case by (auto simp: session_run_def)
next
  case (Cons x xs)
  then have "\<exists>q. hm_get (se_map (session_step sha s x)) k = Some q \<and>
      se_user q = se_user r \<and> se_issued q = se_issued r"
    using session_step_ok [OF Cons.prems(1)] by (simp add: session_run_def)
  with session_step_anchor [OF Cons.prems(1)] Cons.prems(2) show ?case by force
qed

lemma session_identity_Some:
  "snd (session_identity sha now t s) = Some u \<Longrightarrow>
    \<exists>r. hm_get (se_map s) (token_key sha t) = Some r \<and> se_user r = u \<and> record_live r now (ttl_secs s)"
  by (auto simp: session_identity_def Let_def split: if_splits option.splits)

lemma session_with_store_get:
  "hm_ok m \<Longrightarrow> hm_get (se_map (session_with_store now (Some m) io)) k = Some r \<Longrightarrow> hm_get m k = Some r"
  by (auto simp: session_with_store_def Let_def dest: hm_get_retain_SomeD)

lemma session_with_store_empty_ok: "session_ok (session_with_store now None io)"
  by (simp add: session_ok_def session_with_store_def session_default_def)

section \<open>Properties\<close>

text \<open>A session dies seven days after it was issued, no matter how often it is used: after any
  run that does not issue its key anew, a later presentation of the token is refused.\<close>

theorem session_absolute_lifetime:
  assumes "session_ok s" and "\<forall>x \<in> set xs. \<not> issues_key sha (token_key sha t) x"
    and "t0 + 7 * 24 * 3600 < now"
  shows "snd (session_identity sha now t
    (session_run sha (session_issue sha t0 t u s) xs)) = None"
proof (rule ccontr)
  assume "snd (session_identity sha now t (session_run sha (session_issue sha t0 t u s) xs)) \<noteq> None"
  then obtain v where
    "snd (session_identity sha now t (session_run sha (session_issue sha t0 t u s) xs)) = Some v"
    by auto
  from session_identity_Some [OF this] obtain r where
    r: "hm_get (se_map (session_run sha (session_issue sha t0 t u s) xs)) (token_key sha t) = Some r"
    and live: "now - se_issued r \<le> SESSION_ABS_TTL"
    by (auto simp: record_live_def)
  from session_run_anchor [OF session_issue_ok [OF assms(1)] assms(2) r]
  have "se_issued r = t0" by (auto simp: session_defs hm_get_insert)
  with live assms(3) show False by (simp add: SESSION_ABS_TTL_def)
qed

theorem session_absolute_lifetime_witness:
  "snd (session_identity (\<lambda>_. []) 604900 ''tok'' (session_run (\<lambda>_. [])
     (session_issue (\<lambda>_. []) 1 ''tok'' ''bob'' (session_default None True))
     [SIdentity 10 ''tok'', SSweep 100])) = None"
  by (rule session_absolute_lifetime) (simp_all add: session_ok_def session_default_def)

text \<open>C37: after a password or 2FA change revokes a user's sessions, every other session of that
  user stays dead (only the kept token can still name the user), in memory and after a restart.\<close>

theorem revoke_user_effective:
  assumes "session_ok s" and "\<forall>x \<in> set xs. \<not> issues_key sha (token_key sha t) x"
    and "map_option (token_key sha) keep \<noteq> Some (token_key sha t)"
  shows "snd (session_identity sha now t (session_run sha (session_revoke_user sha u keep s) xs)) \<noteq> Some u \<and>
    (se_persist s \<longrightarrow> se_io s \<longrightarrow>
      snd (session_identity sha now t (session_with_store now'
        (se_disk (session_revoke_user sha u keep s)) io)) \<noteq> Some u)"
proof -
  let ?r = "session_revoke_user sha u keep s"
  have gone: "\<not> (\<exists>q. hm_get (se_map ?r) (token_key sha t) = Some q \<and> se_user q = u)"
    using assms(1,3) by (auto simp: session_defs session_ok_def dest!: hm_get_retain_SomeD)
  have "snd (session_identity sha now t (session_run sha ?r xs)) \<noteq> Some u"
  proof
    assume "snd (session_identity sha now t (session_run sha ?r xs)) = Some u"
    from session_identity_Some [OF this] obtain r where
      "hm_get (se_map (session_run sha ?r xs)) (token_key sha t) = Some r" and "se_user r = u" by auto
    with session_run_anchor [OF session_revoke_user_ok [OF assms(1)] assms(2)] gone show False by metis
  qed
  moreover have "snd (session_identity sha now t (session_with_store now' (se_disk ?r) io)) \<noteq> Some u"
    if "se_persist s" "se_io s"
  proof -
    have d: "se_disk ?r = Some (se_map ?r)" and ok: "hm_ok (se_map ?r)"
      using that session_revoke_user_ok [OF assms(1)]
      by (auto simp: session_revoke_user_def session_save_def Let_def session_ok_def)
    show ?thesis
    proof
      assume "snd (session_identity sha now t (session_with_store now' (se_disk ?r) io)) = Some u"
      from session_identity_Some [OF this] show False
        using gone session_with_store_get [OF ok] d by fastforce
    qed
  qed
  ultimately show ?thesis by blast
qed

text \<open>A closed store for the witnesses: two sessions of alice and one of bob, persisted.\<close>

definition demo_sha :: "string \<Rightarrow> 8 word list" where
  "demo_sha t = map (\<lambda>c. of_nat (byte c)) t"

definition demo_store :: session_store where
  "demo_store = session_issue demo_sha 2 ''b'' ''alice''
     (session_issue demo_sha 1 ''a'' ''alice'' (session_with_store 0 None True))"

lemma demo_store_ok: "session_ok demo_store"
  by (simp add: demo_store_def session_ok_intros session_with_store_empty_ok)

theorem revoke_user_effective_witness:
  "snd (session_identity demo_sha 20 ''b'' (session_run demo_sha
      (session_revoke_user demo_sha ''alice'' (Some ''a'') demo_store) [SIdentity 5 ''a''])) \<noteq> Some ''alice''"
  by (rule revoke_user_effective [THEN conjunct1, OF demo_store_ok])
    (simp_all add: demo_sha_def token_key_def hex_lower_def HEX_def byte_def)

text \<open>A token that was issued and not revoked or pruned names its user again at once, and a
  presentation slides the inactivity window but never the issue time.\<close>

theorem session_issue_identity:
  assumes "session_ok s" and "t \<noteq> []" and "t0 \<le> now" and "now - t0 \<le> ttl_secs s"
    and "now - t0 \<le> SESSION_ABS_TTL"
  shows "snd (session_identity sha now t (session_issue sha t0 t u s)) = Some u \<and>
    hm_get (se_map (fst (session_identity sha now t (session_issue sha t0 t u s)))) (token_key sha t)
      = Some \<lparr>se_user = u, se_last = now, se_issued = t0\<rparr>"
  using assms
  by (simp add: session_defs hm_simps record_live_def)

theorem session_issue_identity_witness:
  "snd (session_identity demo_sha 40000 ''tk'' (session_issue demo_sha 5 ''tk'' ''bob''
      (session_with_store 0 None True))) = Some ''bob''"
  by (rule session_issue_identity [THEN conjunct1])
    (simp_all add: session_ok_def session_with_store_def session_default_def ttl_secs_def
      SESSION_TTL_def SESSION_ABS_TTL_def)

text \<open>With the timeout configured to 24 hours a session idle for 13 hours is alive, yet a
  restart at that moment logs it out: \<open>with_store\<close> filters the saved sessions with the built-in
  12 hours, whatever is configured.\<close>

theorem restart_ignores_configured_timeout:
  "let s = session_issue demo_sha 1 ''tk'' ''bob''
        (session_set_ttl_secs 86400 (session_with_store 0 None True))
   in snd (session_identity demo_sha 46801 ''tk'' s) = Some ''bob'' \<and>
      snd (session_identity demo_sha 46801 ''tk''
        (session_set_ttl_secs 86400 (session_with_store 46801 (se_disk s) True))) = None"
  by (simp add: session_with_store_def session_default_def session_issue_def session_identity_def
      Let_def session_set_ttl_secs_def session_save_def hm_get_def hm_retain_def hm_insert_def
      hm_remove_def record_live_def SESSION_TTL_def SESSION_ABS_TTL_def ttl_secs_def)

end
