(* ===== verification/Totp.thy ===== *)
theory Totp
  imports Sessions
begin

text \<open>
  The second factor: base32 decoding, HOTP truncation and step matching
  (\<open>src/src/infra/support/totp.rs\<close>) and the guard that makes a code single use
  (\<open>src/src/infra/auth/totp_guard.rs\<close>). HMAC-SHA1 is the parameter \<open>hmac\<close>, of which the
  code relies on nothing but a 20-byte tag.
\<close>

unbundle bit_operations_syntax

section \<open>Codes\<close>

definition TOTP_STEP :: nat where "TOTP_STEP = 30"
definition DIGITS :: nat where "DIGITS = 6"
definition B32 :: string where "B32 = ''ABCDEFGHIJKLMNOPQRSTUVWXYZ234567''"

text \<open>\<open>gen_secret\<close>: 32 base32 digits, digit \<open>i\<close> drawn as \<open>rng i\<close> from \<open>0..32\<close>.\<close>

definition gen_secret :: "(nat \<Rightarrow> nat) \<Rightarrow> string" where
  "gen_secret rng = map (\<lambda>i. B32 ! rng i) [0..<32]"

fun position :: "('a \<Rightarrow> bool) \<Rightarrow> 'a list \<Rightarrow> nat option" where
  "position P [] = None"
| "position P (x # xs) = (if P x then Some 0 else map_option Suc (position P xs))"

text \<open>The decoding loop over the remaining characters (as code points), with the bit buffer, its
  fill and the bytes so far. \<open>as u8\<close> keeps the low byte of a character.\<close>

fun b32_loop :: "nat list \<Rightarrow> 32 word \<Rightarrow> nat \<Rightarrow> 8 word list \<Rightarrow> 8 word list option" where
  "b32_loop [] bits nbits out = Some out"
| "b32_loop (c # cs) bits nbits out =
     (let up = (if 97 \<le> c \<and> c \<le> 122 then c - 32 else c) mod 256
      in (case position (\<lambda>b. byte b = up) B32 of
            None \<Rightarrow> None
          | Some v \<Rightarrow>
              (let bits' = push_bit 5 bits OR of_nat v; nbits' = nbits + 5
               in if 8 \<le> nbits'
                  then b32_loop cs bits' (nbits' - 8) (out @ [ucast (drop_bit (nbits' - 8) bits')])
                  else b32_loop cs bits' nbits' out)))"

definition b32_decode :: "string \<Rightarrow> 8 word list option" where
  "b32_decode s = b32_loop (filter (\<lambda>c. \<not> is_whitespace c \<and> c \<noteq> 61) (chars s)) 0 0 []"

definition to_be_bytes :: "64 word \<Rightarrow> 8 word list" where
  "to_be_bytes w = map (\<lambda>i. ucast (drop_bit (8 * (7 - i)) w)) [0..<8]"

definition hotp :: "(8 word list \<Rightarrow> 8 word list \<Rightarrow> 8 word list) \<Rightarrow> 8 word list \<Rightarrow> nat \<Rightarrow> nat" where
  "hotp hmac secret counter =
     (let tag = hmac secret (to_be_bytes (of_nat counter));
          off = unat ((tag ! 19) AND 0x0f);
          bin = push_bit 24 ((ucast (tag ! off) :: 32 word) AND 0x7f) OR
                push_bit 16 (ucast (tag ! (off + 1))) OR
                push_bit 8 (ucast (tag ! (off + 2))) OR
                ucast (tag ! (off + 3))
      in unat bin mod 10 ^ DIGITS)"

definition matched_step :: "(8 word list \<Rightarrow> 8 word list \<Rightarrow> 8 word list) \<Rightarrow> nat \<Rightarrow> string \<Rightarrow> string \<Rightarrow> nat option" where
  "matched_step hmac now secret_b32 code =
     (let code' = filter is_ascii_digit code
      in if length code' \<noteq> DIGITS then None
         else (case parse_u32 code' of
                 None \<Rightarrow> None
               | Some want \<Rightarrow>
                   (case b32_decode secret_b32 of
                      None \<Rightarrow> None
                    | Some secret \<Rightarrow>
                        if secret = [] then None
                        else (let t = now div TOTP_STEP
                              in find (\<lambda>c. hotp hmac secret c = want)
                                   [(if t = 0 then 2 ^ 64 - 1 else t - 1), t, t + 1]))))"

section \<open>The single-use guard\<close>

record totp_entry =
  tg_last_step :: nat
  tg_updated :: nat

type_synonym totp_guard = "(string, totp_entry) hmap"

definition PRUNE_AFTER_SECS :: nat where "PRUNE_AFTER_SECS = 300"

definition totp_consume :: "(string \<Rightarrow> 8 word list) \<Rightarrow> nat \<Rightarrow> string \<Rightarrow> nat \<Rightarrow> totp_guard \<Rightarrow> totp_guard \<times> bool" where
  "totp_consume sha now secret step g =
     (let key = token_key sha secret;
          m = hm_retain (\<lambda>_ e. now - tg_updated e \<le> PRUNE_AFTER_SECS) g
      in (case hm_get m key of
            Some e \<Rightarrow>
              (if step \<le> tg_last_step e then (m, False)
               else (hm_insert key (e\<lparr>tg_last_step := step, tg_updated := now\<rparr>) m, True))
          | None \<Rightarrow> (hm_insert key \<lparr>tg_last_step = step, tg_updated = now\<rparr> m, True)))"

text \<open>\<open>AuthState::verify_totp_single_use\<close>, which also returns the step it accepted.\<close>

definition verify_totp_single_use ::
  "(string \<Rightarrow> 8 word list) \<Rightarrow> (8 word list \<Rightarrow> 8 word list \<Rightarrow> 8 word list) \<Rightarrow> nat \<Rightarrow> string \<Rightarrow> string \<Rightarrow>
   totp_guard \<Rightarrow> totp_guard \<times> bool" where
  "verify_totp_single_use sha hmac now secret code g =
     (case matched_step hmac now secret code of
        Some step \<Rightarrow> totp_consume sha now secret step g
      | None \<Rightarrow> (g, False))"

section \<open>Step matching\<close>

lemma matched_step_window:
  assumes "matched_step hmac now secret code = Some s" and "30 \<le> now"
  shows "now div 30 \<le> s + 1 \<and> s \<le> now div 30 + 1"
proof -
  have t: "now div 30 \<noteq> 0" using assms(2) by simp
  from assms(1) t have "s \<in> {now div 30 - 1, now div 30, now div 30 + 1}"
    by (auto simp: matched_step_def Let_def TOTP_STEP_def split: if_splits option.splits)
  then show ?thesis by auto
qed

section \<open>Accepted steps\<close>

text \<open>Attempts in the order they reach the guard: time, secret, code. \<open>totp_accepted\<close> lists the
  key and time step of every accepted one.\<close>

fun totp_accepted ::
  "(string \<Rightarrow> 8 word list) \<Rightarrow> (8 word list \<Rightarrow> 8 word list \<Rightarrow> 8 word list) \<Rightarrow> totp_guard \<Rightarrow>
   (nat \<times> string \<times> string) list \<Rightarrow> (string \<times> nat) list" where
  "totp_accepted sha hmac g [] = []"
| "totp_accepted sha hmac g ((now, secret, code) # xs) =
     (let (g', ok) = verify_totp_single_use sha hmac now secret code g;
          rest = totp_accepted sha hmac g' xs
      in if ok then (token_key sha secret, the (matched_step hmac now secret code)) # rest else rest)"

text \<open>The guard still knows the last accepted step of a key, or has forgotten it long after.\<close>

definition guard_knows :: "nat \<Rightarrow> totp_guard \<Rightarrow> (string \<Rightarrow> (nat \<times> nat) option) \<Rightarrow> bool" where
  "guard_knows now g seen \<longleftrightarrow> hm_ok g \<and>
     (\<forall>k e. hm_get g k = Some e \<longrightarrow> seen k = Some (tg_last_step e, tg_updated e)) \<and>
     (\<forall>k s T. seen k = Some (s, T) \<longrightarrow>
        T \<le> now \<and> s \<le> T div 30 + 1 \<and> (hm_get g k = None \<longrightarrow> T + 300 < now))"

lemma guard_knows_later: "guard_knows now g seen \<Longrightarrow> now \<le> now' \<Longrightarrow> guard_knows now' g seen"
  unfolding guard_knows_def by fastforce

lemma guard_knows_prune:
  assumes "guard_knows now g seen"
  shows "guard_knows now (hm_retain (\<lambda>_ e. now - tg_updated e \<le> PRUNE_AFTER_SECS) g) seen"
  using assms
  by (fastforce simp: guard_knows_def hm_ok_retain hm_get_retain PRUNE_AFTER_SECS_def
      split: option.splits if_splits)

lemma totp_consume_knows:
  assumes "guard_knows now g seen" and "s \<le> now div 30 + 1"
    and "totp_consume sha now secret s g = (g', ok)"
  shows "guard_knows now g' (if ok then seen(token_key sha secret \<mapsto> (s, now)) else seen)"
proof -
  let ?m = "hm_retain (\<lambda>_ e. now - tg_updated e \<le> PRUNE_AFTER_SECS) g"
  from guard_knows_prune [OF assms(1)] have k: "guard_knows now ?m seen" .
  show ?thesis
    using assms(2,3) k
    by (auto simp: totp_consume_def Let_def guard_knows_def hm_simps hm_ok_insert
        split: option.splits if_splits)
qed

text \<open>An accepted step is newer than the last accepted one of its key, remembered or not.\<close>

lemma totp_consume_newer:
  assumes "guard_knows now g seen" and "now div 30 \<le> s + 1"
    and "totp_consume sha now secret s g = (g', True)" and "seen (token_key sha secret) = Some (s0, T)"
  shows "s0 < s"
proof -
  let ?m = "hm_retain (\<lambda>_ e. now - tg_updated e \<le> PRUNE_AFTER_SECS) g"
  from guard_knows_prune [OF assms(1)] have k: "guard_knows now ?m seen" .
  show ?thesis
  proof (cases "hm_get ?m (token_key sha secret)")
    case None
    with k assms(4) have "T + 300 < now" and "s0 \<le> T div 30 + 1" by (auto simp: guard_knows_def)
    with assms(2) show ?thesis by linarith
  next
    case (Some e)
    with k assms(4) have "tg_last_step e = s0" by (auto simp: guard_knows_def)
    with Some assms(3) show ?thesis by (auto simp: totp_consume_def Let_def split: if_splits)
  qed
qed

lemma totp_accepted_increasing:
  assumes "guard_knows now g seen" and "sorted (now # map fst xs)" and "30 \<le> now"
  shows "distinct (totp_accepted sha hmac g xs) \<and>
    (\<forall>(k, s) \<in> set (totp_accepted sha hmac g xs). \<forall>s0 T. seen k = Some (s0, T) \<longrightarrow> s0 < s)"
  using assms
proof (induction xs arbitrary: now g seen)
  case Nil
  then show ?case by simp
next
  case (Cons x xs)
  obtain t secret code where x: "x = (t, secret, code)" by (cases x)
  obtain g' ok where v: "verify_totp_single_use sha hmac t secret code g = (g', ok)"
    by (rule prod.exhaust)
  from Cons.prems have le: "now \<le> t" and srt: "sorted (t # map fst xs)" and t30: "30 \<le> t"
    by (auto simp: x)
  have knows: "guard_knows t g seen" using guard_knows_later [OF Cons.prems(1) le] .
  show ?case
  proof (cases "matched_step hmac t secret code")
    case None
    with v have "g' = g" and "\<not> ok" by (auto simp: verify_totp_single_use_def)
    with v x Cons.IH [OF knows srt t30] show ?thesis by simp
  next
    case (Some s)
    with v have c: "totp_consume sha t secret s g = (g', ok)" by (simp add: verify_totp_single_use_def)
    from matched_step_window [OF Some t30] have w: "t div 30 \<le> s + 1" "s \<le> t div 30 + 1" by auto
    let ?k = "token_key sha secret"
    have k': "guard_knows t g' (if ok then seen(?k \<mapsto> (s, t)) else seen)"
      by (rule totp_consume_knows [OF knows w(2) c])
    note IH = Cons.IH [OF k' srt t30]
    show ?thesis
    proof (cases ok)
      case False
      with IH v x show ?thesis by simp
    next
      case True
      have new: "seen ?k = Some (s0, T) \<Longrightarrow> s0 < s" for s0 T
        using totp_consume_newer [OF knows w(1), of sha secret g' s0 T] c True by simp
      have acc: "totp_accepted sha hmac g (x # xs) = (?k, s) # totp_accepted sha hmac g' xs"
        using v x True Some by simp
      from IH True have d: "distinct (totp_accepted sha hmac g' xs)"
        and up: "\<And>k s'. (k, s') \<in> set (totp_accepted sha hmac g' xs) \<Longrightarrow>
            \<forall>s0 T. (seen(?k \<mapsto> (s, t))) k = Some (s0, T) \<longrightarrow> s0 < s'"
        by auto
      have "(?k, s) \<notin> set (totp_accepted sha hmac g' xs)" using up [of ?k s] by auto
      moreover have "\<forall>s0 T. seen k = Some (s0, T) \<longrightarrow> s0 < s'"
        if "(k, s') \<in> set (totp_accepted sha hmac g' xs)" for k s'
        using up [OF that] new by (cases "k = ?k") (auto intro: less_trans)
      ultimately show ?thesis using d new by (auto simp: acc)
    qed
  qed
qed

text \<open>C22: no time step of a secret is accepted twice, over any sequence of attempts with a clock
  that does not go back. Forgetting entries after 300 idle seconds does not reopen a step,
  because a step can only match within a minute or so of its own time.\<close>

theorem totp_never_replayed:
  assumes "sorted (map fst xs)" and "\<forall>x \<in> set xs. 30 \<le> fst x"
  shows "distinct (totp_accepted sha hmac [] xs)"
proof (cases xs)
  case Nil
  then show ?thesis by simp
next
  case (Cons x ys)
  have "guard_knows (fst x) [] (\<lambda>_. None)" by (simp add: guard_knows_def hm_simps)
  from totp_accepted_increasing [OF this, of xs sha hmac] assms Cons show ?thesis by simp
qed

text \<open>A closed tag function for evaluation: the tag is the counter's last byte, twenty times.\<close>

definition demo_hmac :: "8 word list \<Rightarrow> 8 word list \<Rightarrow> 8 word list" where
  "demo_hmac key msg = replicate 20 (last msg AND 0xf0)"

theorem totp_never_replayed_witness:
  "distinct (totp_accepted demo_sha demo_hmac []
     [(60, ''MFRGG'', ''000000''), (61, ''MFRGG'', ''000000''), (400, ''MFRGG'', ''000000'')])"
  by (rule totp_never_replayed) simp_all

section \<open>Codes and secrets\<close>

lemma b32_loop_length:
  "b32_loop cs bits n out = Some bs \<Longrightarrow> n < 8 \<Longrightarrow> length bs = length out + (n + 5 * length cs) div 8"
proof (induction cs bits n out rule: b32_loop.induct)
  case (1 bits n out)
  then show ?case by simp
next
  case (2 c cs bits n out)
  show ?case
  proof (cases "8 \<le> n + 5")
    case True
    with 2 have "length bs = length (out @ [x]) + (n + 5 - 8 + 5 * length cs) div 8" for x :: "8 word"
      by (auto simp: Let_def split: option.splits)
    moreover have "Suc ((n + 5 - 8 + 5 * length cs) div 8) = (n + 5 * length (c # cs)) div 8"
      using True by auto
    ultimately show ?thesis by simp
  next
    case False
    with 2 show ?thesis by (auto simp: Let_def algebra_simps split: option.splits)
  qed
qed

lemma b32_digit: "i < 32 \<Longrightarrow> position (\<lambda>b. byte b = byte (B32 ! i)) B32 = Some i \<and>
    byte (B32 ! i) < 97 \<and> 48 \<le> byte (B32 ! i) \<and> byte (B32 ! i) \<noteq> 61"
proof -
  have "list_all (\<lambda>i. position (\<lambda>b. byte b = byte (B32 ! i)) B32 = Some i \<and>
    byte (B32 ! i) < 97 \<and> 48 \<le> byte (B32 ! i) \<and> byte (B32 ! i) \<noteq> 61) [0..<32]"
    by code_simp
  then show "i < 32 \<Longrightarrow> ?thesis" by (auto simp: list_all_iff)
qed

lemma chars_ascii: "\<forall>c \<in> set s. byte c < 128 \<Longrightarrow> chars s = map byte s"
  by (induction s) (auto simp: Let_def)

lemma b32_loop_total:
  "\<forall>c \<in> set cs. \<exists>i < 32. c = byte (B32 ! i) \<Longrightarrow> \<exists>bs. b32_loop cs bits n out = Some bs"
proof (induction cs arbitrary: bits n out)
  case Nil
  then show ?case by simp
next
  case (Cons c cs)
  then obtain i where "i < 32" and c: "c = byte (B32 ! i)" by auto
  then have "position (\<lambda>b. byte b = (if 97 \<le> c \<and> c \<le> 122 then c - 32 else c) mod 256) B32 = Some i"
    using b32_digit [of i] by simp
  with Cons show ?case by (simp add: Let_def)
qed

text \<open>Every secret that enrolment can generate decodes, to exactly the 20 bytes the
  authenticator app is given.\<close>

theorem generated_secret_decodes:
  assumes "\<forall>i < 32. rng i < 32"
  shows "\<exists>bs. b32_decode (gen_secret rng) = Some bs \<and> length bs = 20"
proof -
  let ?s = "gen_secret rng"
  have el: "\<exists>i < 32. c = B32 ! i" if "c \<in> set ?s" for c
    using that assms by (auto simp: gen_secret_def)
  have "\<forall>c \<in> set ?s. byte c < 128" using el b32_digit by fastforce
  then have ch: "chars ?s = map byte ?s" by (rule chars_ascii)
  have keep: "\<not> is_whitespace (byte c) \<and> byte c \<noteq> 61" if "c \<in> set ?s" for c
    using el [OF that] b32_digit by (fastforce simp: is_whitespace_def)
  have dec: "b32_decode ?s = b32_loop (map byte ?s) 0 0 []"
    using keep by (simp add: b32_decode_def ch filter_id_conv)
  have "\<forall>c \<in> set (map byte ?s). \<exists>i < 32. c = byte (B32 ! i)" using el by fastforce
  from b32_loop_total [OF this] obtain bs where bs: "b32_loop (map byte ?s) 0 0 [] = Some bs" by blast
  from b32_loop_length [OF bs] have "length bs = 20" by (simp add: gen_secret_def)
  with dec bs show ?thesis by simp
qed

theorem generated_secret_decodes_witness:
  "\<exists>bs. b32_decode (gen_secret (\<lambda>i. i)) = Some bs \<and> length bs = 20"
  by (rule generated_secret_decodes) simp

end
