(* ===== verification/Throttle.thy ===== *)
theory Throttle
  imports Rust_Str
begin

text \<open>
  The per-source login rate limiter (\<open>src/src/infra/auth/rate.rs\<close>): a map from source key to
  the times of its recent failures. It is refined to an abstract limiter that remembers every
  failure since the last reset and counts those inside the window.
\<close>

definition FAIL_WINDOW :: duration where "FAIL_WINDOW = from_secs 300"
definition FAIL_MAX :: nat where "FAIL_MAX = 10"

type_synonym rate_limiter = "(string, instant list) hmap"

section \<open>The limiter of the code\<close>

definition in_window :: "instant \<Rightarrow> instant \<Rightarrow> bool" where
  "in_window now t \<longleftrightarrow> duration_since now t \<le> FAIL_WINDOW"

text \<open>\<open>entry(source).or_default()\<close>.\<close>

definition rate_entry :: "rate_limiter \<Rightarrow> string \<Rightarrow> instant list" where
  "rate_entry m source = (case hm_get m source of Some ts \<Rightarrow> ts | None \<Rightarrow> [])"

definition rate_allowed :: "instant \<Rightarrow> string \<Rightarrow> rate_limiter \<Rightarrow> rate_limiter \<times> bool" where
  "rate_allowed now source m =
     (let entry = filter (in_window now) (rate_entry m source)
      in (hm_insert source entry m, length entry < FAIL_MAX))"

definition rate_record :: "instant \<Rightarrow> string \<Rightarrow> rate_limiter \<Rightarrow> rate_limiter" where
  "rate_record now source m =
     (let entry = filter (in_window now) (rate_entry m source)
      in hm_insert source (entry @ [now]) m)"

definition rate_clear :: "string \<Rightarrow> rate_limiter \<Rightarrow> rate_limiter" where
  "rate_clear source m = hm_remove source m"

definition rate_sweep :: "instant \<Rightarrow> rate_limiter \<Rightarrow> rate_limiter" where
  "rate_sweep now m =
     filter (\<lambda>e. snd e \<noteq> []) (map (\<lambda>e. (fst e, filter (in_window now) (snd e))) m)"

section \<open>The abstract limiter\<close>

text \<open>A source is allowed while fewer than \<open>FAIL_MAX\<close> of the failures since its last reset are
  in the window.\<close>

type_synonym fail_log = "string \<Rightarrow> instant list"

definition spec_allowed :: "instant \<Rightarrow> string \<Rightarrow> fail_log \<Rightarrow> bool" where
  "spec_allowed now source h \<longleftrightarrow> length (filter (in_window now) (h source)) < FAIL_MAX"

definition spec_record :: "instant \<Rightarrow> string \<Rightarrow> fail_log \<Rightarrow> fail_log" where
  "spec_record now source h = h(source := h source @ [now])"

definition spec_clear :: "string \<Rightarrow> fail_log \<Rightarrow> fail_log" where
  "spec_clear source h = h(source := [])"

section \<open>Refinement\<close>

text \<open>At time \<open>now\<close> the limiter and the log agree on the failures in the window.\<close>

definition rate_rel :: "instant \<Rightarrow> rate_limiter \<Rightarrow> fail_log \<Rightarrow> bool" where
  "rate_rel now m h \<longleftrightarrow> hm_ok m \<and>
     (\<forall>src. filter (in_window now) (rate_entry m src) = filter (in_window now) (h src))"

lemma in_window_mono: "now \<le> now' \<Longrightarrow> in_window now' t \<Longrightarrow> in_window now t"
  by (simp add: in_window_def duration_since_def)

lemma filter_window_later:
  "now \<le> now' \<Longrightarrow> filter (in_window now') (filter (in_window now) ts) = filter (in_window now') ts"
  by (simp add: filter_filter) (metis in_window_mono)

lemma rate_rel_later: "rate_rel now m h \<Longrightarrow> now \<le> now' \<Longrightarrow> rate_rel now' m h"
  unfolding rate_rel_def by (metis filter_window_later)

lemma rate_entry_insert: "rate_entry (hm_insert s ts m) s' = (if s' = s then ts else rate_entry m s')"
  by (simp add: rate_entry_def hm_simps)

lemma rate_entry_remove: "rate_entry (hm_remove s m) s' = (if s' = s then [] else rate_entry m s')"
  by (simp add: rate_entry_def hm_simps)

lemma in_window_now: "in_window now now"
  by (simp add: in_window_def duration_since_def)

lemma rate_allowed_rel:
  assumes "rate_rel now m h"
  shows "rate_rel now (fst (rate_allowed now s m)) h" and "snd (rate_allowed now s m) = spec_allowed now s h"
  using assms
  by (auto simp: rate_rel_def rate_allowed_def Let_def spec_allowed_def rate_entry_insert
      intro: hm_ok_intros)

lemma rate_record_rel: "rate_rel now m h \<Longrightarrow> rate_rel now (rate_record now s m) (spec_record now s h)"
  by (auto simp: rate_rel_def rate_record_def Let_def spec_record_def rate_entry_insert
      intro: hm_ok_intros)

lemma rate_clear_rel: "rate_rel now m h \<Longrightarrow> rate_rel now (rate_clear s m) (spec_clear s h)"
  by (auto simp: rate_rel_def rate_clear_def spec_clear_def rate_entry_remove intro: hm_ok_intros)

lemma rate_sweep_ok: "hm_ok m \<Longrightarrow> hm_ok (rate_sweep now m)"
  unfolding rate_sweep_def by (rule hm_ok_filter) (simp add: hm_ok_def comp_def)

lemma rate_sweep_entry:
  assumes "hm_ok m"
  shows "rate_entry (rate_sweep now m) s = filter (in_window now) (rate_entry m s)"
proof -
  let ?m = "map (\<lambda>e. (fst e, filter (in_window now) (snd e))) m"
  have ok: "hm_ok ?m" using assms by (simp add: hm_ok_def comp_def)
  have get: "hm_get ?m s = map_option (filter (in_window now)) (hm_get m s)"
    by (induction m) (auto simp: hm_get_def)
  have "hm_get (rate_sweep now m) s =
      (case hm_get ?m s of None \<Rightarrow> None | Some v \<Rightarrow> if v \<noteq> [] then Some v else None)"
    using hm_get_retain [OF ok, of "\<lambda>_ v. v \<noteq> []" s] by (simp add: rate_sweep_def hm_retain_def)
  then show ?thesis by (auto simp: rate_entry_def get split: option.splits)
qed

lemma rate_sweep_rel: "rate_rel now m h \<Longrightarrow> rate_rel now (rate_sweep now m) h"
  by (simp add: rate_rel_def rate_sweep_ok rate_sweep_entry)

lemmas rate_rel_intros = rate_allowed_rel(1) rate_record_rel rate_clear_rel rate_sweep_rel

section \<open>Runs\<close>

datatype rate_op = Ask instant string | Fail instant string | Reset instant string | SweepAt instant

fun op_time :: "rate_op \<Rightarrow> instant" where
  "op_time (Ask t _) = t"
| "op_time (Fail t _) = t"
| "op_time (Reset t _) = t"
| "op_time (SweepAt t) = t"

fun rate_run :: "rate_limiter \<Rightarrow> rate_op list \<Rightarrow> bool list" where
  "rate_run m [] = []"
| "rate_run m (Ask now s # xs) = snd (rate_allowed now s m) # rate_run (fst (rate_allowed now s m)) xs"
| "rate_run m (Fail now s # xs) = rate_run (rate_record now s m) xs"
| "rate_run m (Reset now s # xs) = rate_run (rate_clear s m) xs"
| "rate_run m (SweepAt now # xs) = rate_run (rate_sweep now m) xs"

fun spec_run :: "fail_log \<Rightarrow> rate_op list \<Rightarrow> bool list" where
  "spec_run h [] = []"
| "spec_run h (Ask now s # xs) = spec_allowed now s h # spec_run h xs"
| "spec_run h (Fail now s # xs) = spec_run (spec_record now s h) xs"
| "spec_run h (Reset now s # xs) = spec_run (spec_clear s h) xs"
| "spec_run h (SweepAt now # xs) = spec_run h xs"

lemma rate_run_refines:
  "rate_rel now m h \<Longrightarrow> sorted (now # map op_time xs) \<Longrightarrow> rate_run m xs = spec_run h xs"
proof (induction xs arbitrary: now m h)
  case Nil
  then show ?case by simp
next
  case (Cons x xs)
  from Cons.prems(2) have le: "now \<le> op_time x" and srt: "sorted (op_time x # map op_time xs)"
    by simp_all
  from rate_rel_later [OF Cons.prems(1) le] have rel: "rate_rel (op_time x) m h" .
  show ?case
    using rel srt rate_allowed_rel(2)
    by (cases x) (auto intro!: Cons.IH rate_rel_intros)
qed

lemma rate_rel_empty: "rate_rel now [] (\<lambda>_. [])"
  by (simp add: rate_rel_def rate_entry_def hm_simps)

text \<open>C36: on every run with a clock that does not go back, the limiter answers as the abstract one:
  a source is refused exactly while ten failures since its last success lie in the last 300
  seconds. Pruning and sweeping are invisible.\<close>

theorem rate_limiter_refines:
  assumes "sorted (map op_time xs)"
  shows "rate_run [] xs = spec_run (\<lambda>_. []) xs"
proof (cases xs)
  case Nil
  then show ?thesis by simp
next
  case (Cons x ys)
  with assms show ?thesis
    using rate_run_refines [OF rate_rel_empty, of "op_time x" xs] by simp
qed

theorem rate_limiter_refines_witness:
  "rate_run [] [Fail 1 ''s'', Ask 2 ''s'', SweepAt 3, Ask 4 ''t''] =
    spec_run (\<lambda>_. []) [Fail 1 ''s'', Ask 2 ''s'', SweepAt 3, Ask 4 ''t'']"
  by (rule rate_limiter_refines) simp

end
