(* ===== verification/Login.thy ===== *)
theory Login
  imports Totp Throttle
begin

text \<open>
  The login policy: the at-rest verifier check (\<open>src/src/infra/auth/verifier.rs\<close>), the
  \<open>AuthState\<close> facade over the stores (\<open>state.rs\<close>) and the two use-cases \<open>verify_login\<close> and
  \<open>verify_reauth\<close> (\<open>src/src/app/auth/service.rs\<close>). Every operation passes the whole state on.
  SHA-256, HMAC-SHA1 and Argon2 are the fields of \<open>crypto\<close>; the clock reading and the random
  tokens are arguments.
\<close>

section \<open>Verifiers\<close>

record crypto =
  cr_sha :: "string \<Rightarrow> 8 word list"
  cr_hmac :: "8 word list \<Rightarrow> 8 word list \<Rightarrow> 8 word list"
  cr_argon_verify :: "string \<Rightarrow> string \<Rightarrow> bool"
  cr_argon_hash :: "string \<Rightarrow> string option"

definition as_bytes :: "string \<Rightarrow> 8 word list" where
  "as_bytes s = map (\<lambda>c. of_nat (byte c)) s"

definition password_matches :: "string \<Rightarrow> string \<Rightarrow> bool" where
  "password_matches expected given =
     (let a = as_bytes expected; b = as_bytes given
      in if length a \<noteq> length b then False
         else foldl (\<lambda>diff i. diff OR (a ! i XOR b ! i)) 0 [0..<length a] = 0)"

definition is_argon2 :: "string \<Rightarrow> bool" where
  "is_argon2 stored = starts_with stored ''$argon2''"

record verdict =
  vd_ok :: bool
  vd_rehash :: "string option"

text \<open>The hash computed against a dummy on the failing paths only spends time.\<close>

definition verify_verifier :: "crypto \<Rightarrow> string \<Rightarrow> string \<Rightarrow> verdict" where
  "verify_verifier cr stored verifier =
     (if stored = [] then \<lparr>vd_ok = False, vd_rehash = None\<rparr>
      else if is_argon2 stored then \<lparr>vd_ok = cr_argon_verify cr stored verifier, vd_rehash = None\<rparr>
      else (let ok = password_matches stored verifier
            in \<lparr>vd_ok = ok, vd_rehash = (if ok then cr_argon_hash cr verifier else None)\<rparr>))"

lemma inj_byte: "byte c = byte d \<Longrightarrow> c = d"
  by (simp add: byte_def)

lemma byte_less: "byte c < 256"
  by (simp add: byte_def)

lemma inj_byte_word: "(of_nat (byte c) :: 8 word) = of_nat (byte d) \<Longrightarrow> c = d"
proof -
  assume "(of_nat (byte c) :: 8 word) = of_nat (byte d)"
  then have "unat (of_nat (byte c) :: 8 word) = unat (of_nat (byte d) :: 8 word)" by simp
  then have "byte c = byte d" using byte_less [of c] byte_less [of d] by (simp add: unat_of_nat)
  then show "c = d" by (rule inj_byte)
qed

lemma or_fold_zero:
  fixes f :: "nat \<Rightarrow> 8 word"
  shows "foldl (\<lambda>diff i. diff OR f i) d xs = 0 \<longleftrightarrow> d = 0 \<and> (\<forall>i \<in> set xs. f i = 0)"
  by (induction xs arbitrary: d) (auto simp: or_eq_0_iff)

lemma word_xor_eq_0: "x XOR y = 0 \<longleftrightarrow> x = y" for x y :: "'a::len word"
proof
  assume "x XOR y = 0"
  then have "(x XOR y) XOR y = 0 XOR y" by simp
  then show "x = y" by (simp add: xor.assoc)
qed simp

text \<open>The accumulating comparison of two slices of one length is equality.\<close>

lemma xor_fold_eq:
  "(if length a \<noteq> length b then False
    else foldl (\<lambda>diff (x, y). diff OR (x XOR y)) (0 :: 8 word) (zip a b) = 0) \<longleftrightarrow> a = b"
proof -
  have f: "foldl (\<lambda>diff (x, y). diff OR (x XOR y)) d xs = 0 \<longleftrightarrow> d = 0 \<and> (\<forall>(x, y) \<in> set xs. x = y)"
    for d :: "8 word" and xs
    by (induction xs arbitrary: d) (auto simp: or_eq_0_iff word_xor_eq_0)
  have "length a = length b \<Longrightarrow> (\<forall>(x, y) \<in> set (zip a b). x = y) \<longleftrightarrow> a = b"
    by (induction a b rule: list_induct2) auto
  then show ?thesis by (auto simp: f)
qed

lemma as_bytes_eq: "as_bytes s = as_bytes t \<longleftrightarrow> s = t"
  unfolding as_bytes_def by (rule inj_map_eq_map) (auto intro: injI dest: inj_byte_word)

lemma password_matches_iff: "password_matches s t \<longleftrightarrow> s = t"
proof -
  have "password_matches s t \<longleftrightarrow> length s = length t \<and>
      (\<forall>i < length s. as_bytes s ! i XOR as_bytes t ! i = 0)"
    by (auto simp: password_matches_def Let_def or_fold_zero as_bytes_def)
  also have "\<dots> \<longleftrightarrow> length s = length t \<and> (\<forall>i < length s. s ! i = t ! i)"
    by (auto simp: as_bytes_def word_xor_eq_0 dest!: inj_byte_word)
  finally show ?thesis by (simp add: list_eq_iff_nth_eq)
qed

section \<open>The facade\<close>

record auth_state =
  au_sessions :: session_store
  au_challenges :: challenge_store
  au_tickets :: ticket_store
  au_rate :: rate_limiter
  au_totp :: totp_guard
  au_stepups :: stepup_store

text \<open>One reading of both clocks.\<close>

record clock =
  ck_instant :: instant
  ck_secs :: nat

definition auth_default :: "session_store \<Rightarrow> auth_state" where
  "auth_default ss = \<lparr>au_sessions = ss, au_challenges = [], au_tickets = [], au_rate = [],
     au_totp = [], au_stepups = []\<rparr>"

definition auth_with_store :: "clock \<Rightarrow> (string, session_rec) hmap option \<Rightarrow> bool \<Rightarrow> auth_state" where
  "auth_with_store ck disk io = auth_default (session_with_store (ck_secs ck) disk io)"

definition auth_set_ttl_secs :: "nat \<Rightarrow> auth_state \<Rightarrow> auth_state" where
  "auth_set_ttl_secs n st = st\<lparr>au_sessions := session_set_ttl_secs n (au_sessions st)\<rparr>"

definition auth_issue :: "crypto \<Rightarrow> clock \<Rightarrow> string \<Rightarrow> string \<Rightarrow> auth_state \<Rightarrow> auth_state" where
  "auth_issue cr ck token user st =
     st\<lparr>au_sessions := session_issue (cr_sha cr) (ck_secs ck) token user (au_sessions st)\<rparr>"

definition auth_identity :: "crypto \<Rightarrow> clock \<Rightarrow> string \<Rightarrow> auth_state \<Rightarrow> auth_state \<times> string option" where
  "auth_identity cr ck token st =
     (let (ss, u) = session_identity (cr_sha cr) (ck_secs ck) token (au_sessions st)
      in (st\<lparr>au_sessions := ss\<rparr>, u))"

definition auth_revoke :: "crypto \<Rightarrow> string \<Rightarrow> auth_state \<Rightarrow> auth_state" where
  "auth_revoke cr token st = st\<lparr>au_sessions := session_revoke (cr_sha cr) token (au_sessions st)\<rparr>"

definition auth_revoke_user :: "crypto \<Rightarrow> string \<Rightarrow> string option \<Rightarrow> auth_state \<Rightarrow> auth_state" where
  "auth_revoke_user cr user keep st =
     st\<lparr>au_sessions := session_revoke_user (cr_sha cr) user keep (au_sessions st),
        au_tickets := ticket_revoke_user user (au_tickets st),
        au_stepups := stepup_revoke_user user (au_stepups st)\<rparr>"

definition login_allowed :: "clock \<Rightarrow> string \<Rightarrow> auth_state \<Rightarrow> auth_state \<times> bool" where
  "login_allowed ck source st =
     (let (r, b) = rate_allowed (ck_instant ck) source (au_rate st) in (st\<lparr>au_rate := r\<rparr>, b))"

definition record_failure :: "clock \<Rightarrow> string \<Rightarrow> auth_state \<Rightarrow> auth_state" where
  "record_failure ck source st = st\<lparr>au_rate := rate_record (ck_instant ck) source (au_rate st)\<rparr>"

definition clear_failures :: "string \<Rightarrow> auth_state \<Rightarrow> auth_state" where
  "clear_failures source st = st\<lparr>au_rate := rate_clear source (au_rate st)\<rparr>"

definition account_key :: "string \<Rightarrow> string" where
  "account_key user = ''u:'' @ user"

definition account_login_allowed :: "clock \<Rightarrow> string \<Rightarrow> auth_state \<Rightarrow> auth_state \<times> bool" where
  "account_login_allowed ck user st = login_allowed ck (account_key user) st"

definition record_account_failure :: "clock \<Rightarrow> string \<Rightarrow> auth_state \<Rightarrow> auth_state" where
  "record_account_failure ck user st = record_failure ck (account_key user) st"

definition clear_account_failures :: "string \<Rightarrow> auth_state \<Rightarrow> auth_state" where
  "clear_account_failures user st = clear_failures (account_key user) st"

definition issue_challenge :: "clock \<Rightarrow> string \<Rightarrow> auth_state \<Rightarrow> auth_state" where
  "issue_challenge ck nonce st = st\<lparr>au_challenges := challenge_issue (ck_instant ck) nonce (au_challenges st)\<rparr>"

definition consume_challenge :: "clock \<Rightarrow> string \<Rightarrow> auth_state \<Rightarrow> auth_state \<times> bool" where
  "consume_challenge ck nonce st =
     (let (c, b) = challenge_consume (ck_instant ck) nonce (au_challenges st)
      in (st\<lparr>au_challenges := c\<rparr>, b))"

definition auth_verify_totp :: "crypto \<Rightarrow> clock \<Rightarrow> string \<Rightarrow> string \<Rightarrow> auth_state \<Rightarrow> auth_state \<times> bool" where
  "auth_verify_totp cr ck secret code st =
     (let (g, b) = verify_totp_single_use (cr_sha cr) (cr_hmac cr) (ck_secs ck) secret code (au_totp st)
      in (st\<lparr>au_totp := g\<rparr>, b))"

definition auth_issue_ticket :: "clock \<Rightarrow> string \<Rightarrow> string \<Rightarrow> string \<Rightarrow> auth_state \<Rightarrow> auth_state" where
  "auth_issue_ticket ck ticket user purpose st =
     st\<lparr>au_tickets := ticket_issue (ck_instant ck) ticket user purpose (au_tickets st)\<rparr>"

definition auth_consume_ticket :: "clock \<Rightarrow> string \<Rightarrow> string \<Rightarrow> auth_state \<Rightarrow> auth_state \<times> string option" where
  "auth_consume_ticket ck ticket purpose st =
     (let (m, u) = ticket_consume (ck_instant ck) ticket purpose (au_tickets st)
      in (st\<lparr>au_tickets := m\<rparr>, u))"

definition auth_issue_stepup :: "clock \<Rightarrow> string \<Rightarrow> string \<Rightarrow> auth_state \<Rightarrow> auth_state" where
  "auth_issue_stepup ck token user st =
     st\<lparr>au_stepups := stepup_issue (ck_instant ck) token user (au_stepups st)\<rparr>"

definition auth_consume_stepup :: "clock \<Rightarrow> string \<Rightarrow> string \<Rightarrow> auth_state \<Rightarrow> auth_state \<times> bool" where
  "auth_consume_stepup ck token user st =
     (let (m, b) = stepup_consume (ck_instant ck) token user (au_stepups st)
      in (st\<lparr>au_stepups := m\<rparr>, b))"

definition auth_sweep :: "clock \<Rightarrow> auth_state \<Rightarrow> auth_state" where
  "auth_sweep ck st =
     st\<lparr>au_sessions := session_sweep (ck_secs ck) (au_sessions st),
        au_challenges := challenge_sweep (ck_instant ck) (au_challenges st),
        au_tickets := ticket_sweep (ck_instant ck) (au_tickets st),
        au_rate := rate_sweep (ck_instant ck) (au_rate st),
        au_stepups := stepup_sweep (ck_instant ck) (au_stepups st)\<rparr>"

section \<open>The login use-case\<close>

record login_creds =
  lc_exp_hash :: string
  lc_totp_secret :: string
  lc_totp_enabled :: bool
  lc_must_setup :: bool

datatype login_outcome =
    LoginOk (lo_token: string) (lo_must_setup: bool) (lo_rehash: "string option")
  | NeedTotp | BadCredentials | BadTotp | RateLimited

record login_attempt =
  la_username :: string
  la_source :: string
  la_nonce :: string
  la_verifier :: string
  la_code :: string

text \<open>The second-factor and session half of \<open>verify_login\<close>, after the password is proved.\<close>

definition login_finish :: "crypto \<Rightarrow> clock \<Rightarrow> string \<Rightarrow> login_creds \<Rightarrow> login_attempt \<Rightarrow>
    string option \<Rightarrow> auth_state \<Rightarrow> auth_state \<times> login_outcome" where
  "login_finish cr ck token creds att rehash st =
     (let st1 = clear_failures (la_source att) st;
          st2 = clear_account_failures (la_username att) st1;
          st3 = auth_issue cr ck token (la_username att) st2
      in (st3, LoginOk token (lc_must_setup creds) rehash))"

definition login_second_factor :: "crypto \<Rightarrow> clock \<Rightarrow> string \<Rightarrow> login_creds \<Rightarrow> login_attempt \<Rightarrow>
    string option \<Rightarrow> auth_state \<Rightarrow> auth_state \<times> login_outcome" where
  "login_second_factor cr ck token creds att rehash st =
     (if lc_totp_enabled creds then
        (if trim (la_code att) = [] then (st, NeedTotp)
         else (let (st', ok) = auth_verify_totp cr ck (lc_totp_secret creds) (la_code att) st
               in if \<not> ok
                  then (record_account_failure ck (la_username att)
                          (record_failure ck (la_source att) st'), BadTotp)
                  else login_finish cr ck token creds att rehash st'))
      else login_finish cr ck token creds att rehash st)"

definition verify_login :: "crypto \<Rightarrow> clock \<Rightarrow> string \<Rightarrow> auth_state \<Rightarrow> login_creds \<Rightarrow>
    login_attempt \<Rightarrow> auth_state \<times> login_outcome" where
  "verify_login cr ck token st creds att =
     (let (st1, src_ok) = login_allowed ck (la_source att) st
      in if \<not> src_ok then (st1, RateLimited)
      else (let account_exists = (lc_exp_hash creds \<noteq> []);
                (st2, acc_ok) = (if account_exists then account_login_allowed ck (la_username att) st1
                                 else (st1, True))
            in if account_exists \<and> \<not> acc_ok then (st2, RateLimited)
            else (let (st3, nonce_ok) = (if account_exists then consume_challenge ck (la_nonce att) st2
                                         else (st2, False));
                      v = verify_verifier cr (lc_exp_hash creds) (la_verifier att);
                      pw_ok = (nonce_ok \<and> vd_ok v)
                  in if \<not> pw_ok
                     then (let st4 = record_failure ck (la_source att) st3;
                               st5 = (if account_exists
                                      then record_account_failure ck (la_username att) st4 else st4)
                           in (st5, BadCredentials))
                     else login_second_factor cr ck token creds att (vd_rehash v) st3)))"

section \<open>Step-up re-authentication\<close>

record reauth_creds =
  rc_exp_hash :: string
  rc_totp_secret :: string
  rc_totp_enabled :: bool

datatype reauth_outcome = ReOk | ReNeedTotp | ReBadCredentials | ReBadTotp | ReRateLimited

definition verify_reauth :: "crypto \<Rightarrow> clock \<Rightarrow> auth_state \<Rightarrow> reauth_creds \<Rightarrow> string \<Rightarrow> string \<Rightarrow>
    string \<Rightarrow> string \<Rightarrow> auth_state \<times> reauth_outcome" where
  "verify_reauth cr ck st creds source nonce verifier code =
     (let (st1, src_ok) = login_allowed ck source st
      in if \<not> src_ok then (st1, ReRateLimited)
      else (let (st2, nonce_ok) = (if rc_exp_hash creds \<noteq> [] then consume_challenge ck nonce st1
                                   else (st1, False));
                v = verify_verifier cr (rc_exp_hash creds) verifier
            in if \<not> (nonce_ok \<and> vd_ok v) then (record_failure ck source st2, ReBadCredentials)
               else if rc_totp_enabled creds then
                 (if trim code = [] then (st2, ReNeedTotp)
                  else (let (st3, ok) = auth_verify_totp cr ck (rc_totp_secret creds) code st2
                        in if \<not> ok then (record_failure ck source st3, ReBadTotp)
                           else (clear_failures source st3, ReOk)))
               else (clear_failures source st2, ReOk)))"

section \<open>What each step does to the limiter\<close>

lemma au_rate_frames [simp]:
  "au_rate (fst (consume_challenge ck n st)) = au_rate st"
  "au_rate (fst (auth_verify_totp cr ck sec code st)) = au_rate st"
  "au_rate (auth_issue cr ck tok u st) = au_rate st"
  "au_rate (issue_challenge ck n st) = au_rate st"
  by (simp_all add: consume_challenge_def auth_verify_totp_def auth_issue_def issue_challenge_def
      split: prod.split)

lemma au_rate_updates [simp]:
  "au_rate (fst (login_allowed ck k st)) = fst (rate_allowed (ck_instant ck) k (au_rate st))"
  "au_rate (record_failure ck k st) = rate_record (ck_instant ck) k (au_rate st)"
  "au_rate (clear_failures k st) = rate_clear k (au_rate st)"
  by (simp_all add: login_allowed_def record_failure_def clear_failures_def split: prod.split)

text \<open>The failures of a key since \<open>T0\<close> that the limiter still holds. Everything of a window
  after \<open>T0\<close> survives each operation but the key's own reset.\<close>

definition recent :: "instant \<Rightarrow> rate_limiter \<Rightarrow> string \<Rightarrow> nat" where
  "recent T0 m k = length (filter (\<lambda>t. T0 \<le> t) (rate_entry m k))"

definition window_at :: "instant \<Rightarrow> instant \<Rightarrow> bool" where
  "window_at T0 now \<longleftrightarrow> T0 \<le> now \<and> now \<le> T0 + FAIL_WINDOW"

lemma window_keeps:
  "window_at T0 now \<Longrightarrow> filter (\<lambda>t. T0 \<le> t) (filter (in_window now) ts) = filter (\<lambda>t. T0 \<le> t) ts"
  unfolding filter_filter
  by (rule filter_cong) (auto simp: window_at_def in_window_def duration_since_def)

lemma recent_le_window:
  assumes "window_at T0 now"
  shows "recent T0 m k \<le> length (filter (in_window now) (rate_entry m k))"
proof -
  have "recent T0 m k = length (filter (\<lambda>t. T0 \<le> t) (filter (in_window now) (rate_entry m k)))"
    using window_keeps [OF assms] by (simp add: recent_def)
  then show ?thesis using length_filter_le by metis
qed

lemma recent_allowed:
  "window_at T0 now \<Longrightarrow> recent T0 (fst (rate_allowed now s m)) k = recent T0 m k"
  using window_keeps [of T0 now]
  by (simp add: recent_def rate_allowed_def Let_def rate_entry_insert)

lemma recent_record:
  "window_at T0 now \<Longrightarrow>
    recent T0 (rate_record now s m) k = recent T0 m k + (if s = k then 1 else 0)"
  using window_keeps [of T0 now]
  by (simp add: recent_def rate_record_def Let_def rate_entry_insert window_at_def)

lemma recent_clear: "s \<noteq> k \<Longrightarrow> recent T0 (rate_clear s m) k = recent T0 m k"
  by (simp add: recent_def rate_clear_def rate_entry_remove)

lemma recent_sweep:
  "window_at T0 now \<Longrightarrow> hm_ok m \<Longrightarrow> recent T0 (rate_sweep now m) k = recent T0 m k"
  using window_keeps [of T0 now] by (simp add: recent_def rate_sweep_entry)

lemmas recent_simps = recent_allowed recent_record recent_clear recent_sweep

lemma allowed_recent:
  "window_at T0 now \<Longrightarrow> snd (rate_allowed now k m) \<Longrightarrow> recent T0 m k < FAIL_MAX"
  using recent_le_window [of T0 now m k] by (simp add: rate_allowed_def Let_def)

lemma rate_ok_steps [hm_ok_intros]:
  "hm_ok m \<Longrightarrow> hm_ok (fst (rate_allowed now s m))"
  "hm_ok m \<Longrightarrow> hm_ok (rate_record now s m)"
  "hm_ok m \<Longrightarrow> hm_ok (rate_clear s m)"
  "hm_ok m \<Longrightarrow> hm_ok (rate_sweep now m)"
  by (auto simp: rate_allowed_def rate_record_def rate_clear_def Let_def rate_sweep_ok
      intro: hm_ok_intros)

section \<open>Interleaved attempts\<close>

datatype auth_op =
    OpLogin clock string login_creds login_attempt
  | OpReauth clock reauth_creds string string string string
  | OpChallenge clock string
  | OpSweep clock

datatype auth_answer = AnsLogin login_outcome | AnsReauth reauth_outcome | AnsDone

fun auth_step :: "crypto \<Rightarrow> auth_state \<Rightarrow> auth_op \<Rightarrow> auth_state \<times> auth_answer" where
  "auth_step cr st (OpLogin ck token creds att) = map_prod id AnsLogin (verify_login cr ck token st creds att)"
| "auth_step cr st (OpReauth ck creds source nonce verifier code) =
     map_prod id AnsReauth (verify_reauth cr ck st creds source nonce verifier code)"
| "auth_step cr st (OpChallenge ck nonce) = (issue_challenge ck nonce st, AnsDone)"
| "auth_step cr st (OpSweep ck) = (auth_sweep ck st, AnsDone)"

fun auth_op_clock :: "auth_op \<Rightarrow> clock" where
  "auth_op_clock (OpLogin ck _ _ _) = ck"
| "auth_op_clock (OpReauth ck _ _ _ _ _) = ck"
| "auth_op_clock (OpChallenge ck _) = ck"
| "auth_op_clock (OpSweep ck) = ck"

fun auth_run :: "crypto \<Rightarrow> auth_state \<Rightarrow> auth_op list \<Rightarrow> (auth_op \<times> auth_answer) list" where
  "auth_run cr st [] = []"
| "auth_run cr st (x # xs) = (x, snd (auth_step cr st x)) # auth_run cr (fst (auth_step cr st x)) xs"

text \<open>A wrong guess against a key: from that source, or (for an account that exists) against that
  account. A success of the same source or account resets the key.\<close>

fun wrong_guess :: "string \<Rightarrow> auth_op \<times> auth_answer \<Rightarrow> bool" where
  "wrong_guess k (OpLogin _ _ creds att, AnsLogin o') \<longleftrightarrow> o' \<in> {BadCredentials, BadTotp} \<and>
     (la_source att = k \<or> lc_exp_hash creds \<noteq> [] \<and> account_key (la_username att) = k)"
| "wrong_guess k (OpReauth _ _ source _ _ _, AnsReauth o') \<longleftrightarrow>
     o' \<in> {ReBadCredentials, ReBadTotp} \<and> source = k"
| "wrong_guess k _ \<longleftrightarrow> False"

fun resets_key :: "string \<Rightarrow> auth_op \<times> auth_answer \<Rightarrow> bool" where
  "resets_key k (OpLogin _ _ _ att, AnsLogin (LoginOk _ _ _)) \<longleftrightarrow>
     la_source att = k \<or> account_key (la_username att) = k"
| "resets_key k (OpReauth _ _ source _ _ _, AnsReauth ReOk) \<longleftrightarrow> source = k"
| "resets_key k _ \<longleftrightarrow> False"

lemma verify_empty: "vd_ok (verify_verifier cr s v) \<Longrightarrow> s \<noteq> []"
  by (auto simp: verify_verifier_def)

definition step_bounded :: "instant \<Rightarrow> string \<Rightarrow> auth_state \<Rightarrow> auth_state \<Rightarrow> bool \<Rightarrow> bool" where
  "step_bounded T0 k st st' guess \<longleftrightarrow> hm_ok (au_rate st') \<and>
     (if guess then recent T0 (au_rate st) k < FAIL_MAX \<and>
        recent T0 (au_rate st) k < recent T0 (au_rate st') k
      else recent T0 (au_rate st) k \<le> recent T0 (au_rate st') k)"

lemma snd_login_allowed [simp]:
  "snd (login_allowed ck k st) = snd (rate_allowed (ck_instant ck) k (au_rate st))"
  by (simp add: login_allowed_def split: prod.split)

lemmas login_policy_defs = verify_login_def login_second_factor_def login_finish_def
  account_login_allowed_def record_account_failure_def clear_account_failures_def

lemma verify_login_bounded:
  assumes w: "window_at T0 (ck_instant ck)" and ok: "hm_ok (au_rate st)"
    and res: "auth_step cr st x = (st', a)" and x: "x = OpLogin ck token creds att"
    and keep: "\<not> resets_key k (x, a)"
  shows "step_bounded T0 k st st' (wrong_guess k (x, a))"
proof -
  let ?now = "ck_instant ck"
  define m1 where "m1 = fst (rate_allowed ?now (la_source att) (au_rate st))"
  have m1: "\<And>j. recent T0 m1 j = recent T0 (au_rate st) j" "hm_ok m1"
    using ok by (auto simp: m1_def recent_simps w intro: hm_ok_intros)
  have a1: "\<And>j. snd (rate_allowed ?now j (au_rate st)) \<Longrightarrow> recent T0 (au_rate st) j < FAIL_MAX"
    and a2: "\<And>j. snd (rate_allowed ?now j m1) \<Longrightarrow> recent T0 (au_rate st) j < FAIL_MAX"
    using allowed_recent [OF w] m1 by metis+
  show ?thesis
    using res keep m1 ok unfolding x
    by (auto simp: login_policy_defs Let_def case_prod_beta step_bounded_def recent_simps w
        m1_def [symmetric] verify_empty split: if_splits intro!: hm_ok_intros dest!: a1 a2)
qed

lemma verify_reauth_bounded:
  assumes w: "window_at T0 (ck_instant ck)" and ok: "hm_ok (au_rate st)"
    and res: "auth_step cr st x = (st', a)" and x: "x = OpReauth ck creds src nonce ver code"
    and keep: "\<not> resets_key k (x, a)"
  shows "step_bounded T0 k st st' (wrong_guess k (x, a))"
proof -
  have a1: "\<And>j. snd (rate_allowed (ck_instant ck) j (au_rate st)) \<Longrightarrow> recent T0 (au_rate st) j < FAIL_MAX"
    using allowed_recent [OF w] by metis
  show ?thesis
    using res keep ok unfolding x
    by (auto simp: verify_reauth_def Let_def case_prod_beta step_bounded_def recent_simps w
        split: if_splits intro!: hm_ok_intros dest!: a1)
qed

lemma auth_step_bounded:
  assumes w: "window_at T0 (ck_instant (auth_op_clock x))" and ok: "hm_ok (au_rate st)"
    and keep: "\<not> resets_key k (x, snd (auth_step cr st x))"
  shows "step_bounded T0 k st (fst (auth_step cr st x)) (wrong_guess k (x, snd (auth_step cr st x)))"
proof -
  obtain st' a where res: "auth_step cr st x = (st', a)" by fastforce
  have keep': "\<not> resets_key k (x, a)" using keep res by simp
  have "step_bounded T0 k st st' (wrong_guess k (x, a))"
  proof (cases x)
    case (OpLogin ck token creds att)
    with verify_login_bounded [OF _ ok res this keep'] w show ?thesis by simp
  next
    case (OpReauth ck creds src nonce ver code)
    with verify_reauth_bounded [OF _ ok res this keep'] w show ?thesis by simp
  next
    case (OpChallenge ck nonce)
    with res ok show ?thesis by (auto simp: step_bounded_def)
  next
    case (OpSweep ck)
    with res ok w show ?thesis
      by (auto simp: step_bounded_def auth_sweep_def recent_sweep rate_sweep_ok)
  qed
  with res show ?thesis by simp
qed

lemma auth_run_bounded:
  assumes "hm_ok (au_rate st)" and "\<forall>x \<in> set xs. window_at T0 (ck_instant (auth_op_clock x))"
    and "\<forall>e \<in> set (auth_run cr st xs). \<not> resets_key k e"
    and "0 < count_if (wrong_guess k) (auth_run cr st xs)"
  shows "recent T0 (au_rate st) k + count_if (wrong_guess k) (auth_run cr st xs) \<le> FAIL_MAX"
  using assms
proof (induction xs arbitrary: st)
  case Nil
  then show ?case by simp
next
  case (Cons x xs)
  let ?st = "fst (auth_step cr st x)" and ?g = "wrong_guess k (x, snd (auth_step cr st x))"
  have b: "step_bounded T0 k st ?st ?g"
    by (rule auth_step_bounded) (use Cons.prems in auto)
  have IH: "0 < count_if (wrong_guess k) (auth_run cr ?st xs) \<Longrightarrow>
      recent T0 (au_rate ?st) k + count_if (wrong_guess k) (auth_run cr ?st xs) \<le> FAIL_MAX"
    using Cons.IH [of ?st] Cons.prems b by (auto simp: step_bounded_def)
  show ?case
    using IH b Cons.prems(4)
    by (cases "count_if (wrong_guess k) (auth_run cr ?st xs)")
      (auto simp: step_bounded_def split: if_splits)
qed

section \<open>Properties\<close>

text \<open>C6: a login succeeds only for an account that exists, whose source and account throttles
  both admit it, with an unused fresh nonce, the right verifier and (where enabled) a second
  factor accepted against the guard; it returns the fresh token, which then names exactly that
  user, and it leaves the nonce unusable and both failure counts at zero.\<close>

theorem verify_login_sound:
  assumes ok: "session_ok (au_sessions st)" "hm_ok (au_challenges st)" "token \<noteq> []"
    and res: "verify_login cr ck token st creds att = (st', LoginOk tok ms rh)"
  shows "lc_exp_hash creds \<noteq> [] \<and> vd_ok (verify_verifier cr (lc_exp_hash creds) (la_verifier att)) \<and>
    snd (login_allowed ck (la_source att) st) \<and>
    snd (account_login_allowed ck (la_username att) (fst (login_allowed ck (la_source att) st))) \<and>
    snd (consume_challenge ck (la_nonce att) st) \<and>
    (lc_totp_enabled creds \<longrightarrow> snd (auth_verify_totp cr ck (lc_totp_secret creds) (la_code att) st)) \<and>
    tok = token \<and> ms = lc_must_setup creds \<and>
    snd (auth_identity cr ck tok st') = Some (la_username att) \<and>
    \<not> snd (consume_challenge ck' (la_nonce att) st') \<and>
    rate_entry (au_rate st') (la_source att) = [] \<and>
    rate_entry (au_rate st') (account_key (la_username att)) = []"
proof -
  have id: "snd (session_identity (cr_sha cr) n t (session_issue (cr_sha cr) n t u s)) = Some u"
    if "session_ok s" "t \<noteq> []" for n t u s
    using that by (simp add: session_defs hm_simps record_live_def)
  have frames: "au_sessions (fst (login_allowed ck k s)) = au_sessions s"
    "au_challenges (fst (login_allowed ck k s)) = au_challenges s"
    "au_totp (fst (login_allowed ck k s)) = au_totp s" for k s
    by (simp_all add: login_allowed_def split: prod.split)
  show ?thesis
    using res ok
    by (auto simp: login_policy_defs Let_def case_prod_beta frames id auth_identity_def auth_issue_def
        consume_challenge_def challenge_consume_def auth_verify_totp_def clear_failures_def hm_simps rate_clear_def
        rate_entry_remove verify_empty split: if_splits option.splits)
qed

text \<open>A closed cryptographic environment and account for the witnesses: the stored verifier is a
  legacy one.\<close>

definition demo_crypto :: crypto where
  "demo_crypto = \<lparr>cr_sha = demo_sha, cr_hmac = demo_hmac, cr_argon_verify = (\<lambda>stored v. False),
     cr_argon_hash = (\<lambda>v. Some (''$argon2'' @ v))\<rparr>"

definition demo_creds :: login_creds where
  "demo_creds = \<lparr>lc_exp_hash = ''ver'', lc_totp_secret = [], lc_totp_enabled = False, lc_must_setup = True\<rparr>"

definition demo_attempt :: "string \<Rightarrow> login_attempt" where
  "demo_attempt ver = \<lparr>la_username = ''bob'', la_source = ''10.0.0.9'', la_nonce = ''n1'',
     la_verifier = ver, la_code = []\<rparr>"

definition demo_clock :: clock where
  "demo_clock = \<lparr>ck_instant = 5, ck_secs = 60\<rparr>"

definition demo_auth :: auth_state where
  "demo_auth = issue_challenge demo_clock ''n1'' (auth_default demo_store)"

lemmas demo_defs = demo_crypto_def demo_creds_def demo_attempt_def demo_clock_def

lemma demo_auth_challenges: "au_challenges demo_auth = [(''n1'', 5)]"
  by (simp add: demo_auth_def issue_challenge_def auth_default_def challenge_issue_def hm_retain_def
      hm_insert_def hm_remove_def evict_oldest_id MAX_CHALLENGES_def demo_clock_def)

lemma demo_auth_rest: "au_sessions demo_auth = demo_store" "au_rate demo_auth = []"
  by (simp_all add: demo_auth_def issue_challenge_def auth_default_def)

lemma demo_login_ok:
  "snd (verify_login demo_crypto demo_clock ''t1'' demo_auth demo_creds (demo_attempt ''ver''))
     = LoginOk ''t1'' True (Some ''$argon2ver'')"
  by (simp add: login_policy_defs Let_def case_prod_beta demo_defs verify_verifier_def is_argon2_def
      starts_with_def password_matches_iff consume_challenge_def challenge_consume_def rate_allowed_def
      login_allowed_def demo_auth_challenges demo_auth_rest rate_entry_def hm_simps hm_get_def
      duration_since_def account_key_def hm_insert_def hm_remove_def FAIL_MAX_def)

theorem verify_login_sound_witness:
  "snd (auth_identity demo_crypto demo_clock ''t1''
     (fst (verify_login demo_crypto demo_clock ''t1'' demo_auth demo_creds (demo_attempt ''ver''))))
     = Some ''bob''"
proof -
  let ?r = "verify_login demo_crypto demo_clock ''t1'' demo_auth demo_creds (demo_attempt ''ver'')"
  have "?r = (fst ?r, LoginOk ''t1'' True (Some ''$argon2ver''))"
    using demo_login_ok by (metis prod.collapse)
  from verify_login_sound [OF _ _ _ this] show ?thesis
    by (simp add: demo_store_ok demo_auth_challenges demo_auth_rest hm_ok_def demo_attempt_def)
qed

text \<open>For an account that does not exist no attempt succeeds or reaches the second factor, the
  answer is the one of a wrong password, and nothing of the state changes but the failure count
  of the attempt's own source: probing usernames leaves no trace under them.\<close>

theorem unknown_account_silent:
  assumes "lc_exp_hash creds = []"
  shows "snd (verify_login cr ck token st creds att) =
      (if snd (login_allowed ck (la_source att) st) then BadCredentials else RateLimited) \<and>
    (\<exists>r. fst (verify_login cr ck token st creds att) = st\<lparr>au_rate := r\<rparr> \<and>
      (\<forall>k. k \<noteq> la_source att \<longrightarrow> rate_entry r k = rate_entry (au_rate st) k))"
  using assms
  by (auto simp: verify_login_def login_allowed_def record_failure_def rate_allowed_def rate_record_def
      Let_def case_prod_beta rate_entry_insert)

theorem unknown_account_silent_witness:
  "snd (verify_login demo_crypto demo_clock ''t1'' demo_auth (demo_creds\<lparr>lc_exp_hash := []\<rparr>)
     (demo_attempt [])) \<in> {BadCredentials, RateLimited}"
  using unknown_account_silent [of "demo_creds\<lparr>lc_exp_hash := []\<rparr>"] by simp



text \<open>The constant-time comparison is equality; a verifier is accepted exactly when it equals
  the legacy record or Argon2 accepts it, never for a missing account, and a rehash is produced
  only by an accepted legacy verifier.\<close>

theorem verifier_decision:
  "(vd_ok (verify_verifier cr stored v) \<longleftrightarrow> stored \<noteq> [] \<and>
     (if starts_with stored ''$argon2'' then cr_argon_verify cr stored v else stored = v)) \<and>
   vd_rehash (verify_verifier cr stored v) = (if vd_ok (verify_verifier cr stored v) \<and>
     \<not> starts_with stored ''$argon2'' then cr_argon_hash cr v else None)"
proof -
  have nil: "\<not> starts_with [] ''$argon2''" by (simp add: starts_with_def)
  show ?thesis
    by (cases "stored = []"; cases "starts_with stored ''$argon2''"; cases "stored = v")
      (simp_all only: verify_verifier_def password_matches_iff is_argon2_def Let_def if_True if_False
        verdict.simps simp_thms nil if_cancel)
qed

text \<open>A step-up re-authentication succeeds only with an admitted source, a fresh unused nonce,
  the right verifier and (where enabled) an accepted code, and it never issues a session.\<close>

theorem verify_reauth_sound:
  assumes "verify_reauth cr ck st creds src nonce ver code = (st', ReOk)"
  shows "rc_exp_hash creds \<noteq> [] \<and> snd (login_allowed ck src st) \<and>
    snd (consume_challenge ck nonce st) \<and> vd_ok (verify_verifier cr (rc_exp_hash creds) ver) \<and>
    (rc_totp_enabled creds \<longrightarrow> snd (auth_verify_totp cr ck (rc_totp_secret creds) code st)) \<and>
    au_sessions st' = au_sessions st \<and> au_tickets st' = au_tickets st \<and>
    rate_entry (au_rate st') src = []"
  using assms
  by (auto simp: verify_reauth_def Let_def case_prod_beta login_allowed_def consume_challenge_def
      auth_verify_totp_def clear_failures_def rate_clear_def rate_entry_remove verify_empty
      split: if_splits)

theorem verify_reauth_sound_witness:
  "au_sessions (fst (verify_reauth demo_crypto demo_clock demo_auth
      \<lparr>rc_exp_hash = ''ver'', rc_totp_secret = [], rc_totp_enabled = False\<rparr> ''s'' ''n1'' ''ver'' [])) = demo_store"
proof -
  let ?r = "verify_reauth demo_crypto demo_clock demo_auth
      \<lparr>rc_exp_hash = ''ver'', rc_totp_secret = [], rc_totp_enabled = False\<rparr> ''s'' ''n1'' ''ver'' []"
  have "snd ?r = ReOk"
    by (simp add: verify_reauth_def Let_def case_prod_beta demo_defs verify_verifier_def is_argon2_def
      starts_with_def password_matches_iff consume_challenge_def challenge_consume_def rate_allowed_def
      login_allowed_def demo_auth_challenges demo_auth_rest rate_entry_def hm_simps hm_get_def
      duration_since_def FAIL_MAX_def)
  then have "?r = (fst ?r, ReOk)" by (metis prod.collapse)
  from verify_reauth_sound [OF this] show ?thesis by (simp add: demo_auth_rest)
qed

end
