(* ===== verification/Net_Addr.thy ===== *)
theory Net_Addr
  imports Rust_Str
begin

text \<open>
  \<open>std::net::IpAddr\<close>: the two address families, the parser behind \<open>str::parse::<IpAddr>()\<close>
  (dotted quads without leading zeros, IPv6 groups with one double colon and an optional
  embedded IPv4 tail), \<open>is_loopback\<close> and \<open>to_canonical\<close>. HTTP header maps and the request
  facts both servers read are here too.
\<close>

unbundle bit_operations_syntax

section \<open>Addresses\<close>

datatype ip_addr = V4 "32 word" | V6 "128 word"

fun is_loopback :: "ip_addr \<Rightarrow> bool" where
  "is_loopback (V4 a) = (drop_bit 24 a = 127)"
| "is_loopback (V6 a) = (a = 1)"

text \<open>An IPv4-mapped IPv6 address \<open>::ffff:a.b.c.d\<close> is collapsed to its IPv4 form.\<close>

fun to_canonical :: "ip_addr \<Rightarrow> ip_addr" where
  "to_canonical (V4 a) = V4 a"
| "to_canonical (V6 a) = (if drop_bit 32 a = 0xFFFF then V4 (ucast a) else V6 a)"

definition octets4 :: "32 word \<Rightarrow> 8 word list" where
  "octets4 a = map (\<lambda>i. ucast (drop_bit (24 - 8 * i) a)) [0..<4]"

definition octets6 :: "128 word \<Rightarrow> 8 word list" where
  "octets6 a = map (\<lambda>i. ucast (drop_bit (120 - 8 * i) a)) [0..<16]"

lemma to_canonical_idem [simp]: "to_canonical (to_canonical a) = to_canonical a"
  by (cases a) auto

section \<open>Parsing\<close>

definition to_digit :: "nat \<Rightarrow> char \<Rightarrow> nat option" where
  "to_digit radix c =
     (let b = byte c;
          d = (if is_ascii_digit c then Some (b - 48)
               else if is_ascii_lowercase c then Some (b - 87)
               else if is_ascii_uppercase c then Some (b - 55) else None)
      in (case d of Some v \<Rightarrow> if v < radix then Some v else None | None \<Rightarrow> None))"

text \<open>The digits at the front of the input, their value and number.\<close>

fun take_digits :: "nat \<Rightarrow> string \<Rightarrow> nat \<Rightarrow> nat \<Rightarrow> nat \<times> nat \<times> string" where
  "take_digits radix [] v n = (v, n, [])"
| "take_digits radix (c # s) v n =
     (case to_digit radix c of
        Some d \<Rightarrow> take_digits radix s (v * radix + d) (Suc n)
      | None \<Rightarrow> (v, n, c # s))"

text \<open>\<open>read_number(radix, Some(max_digits), allow_zero_prefix)\<close> for a type with bound \<open>mx\<close>.\<close>

definition read_number :: "nat \<Rightarrow> nat \<Rightarrow> bool \<Rightarrow> nat \<Rightarrow> string \<Rightarrow> (nat \<times> string) option" where
  "read_number radix max_digits zero_ok mx s =
     (let (v, n, r) = take_digits radix s 0 0
      in if n = 0 \<or> max_digits < n then None
         else if \<not> zero_ok \<and> hd s = CHR ''0'' \<and> 1 < n then None
         else if mx < v then None
         else Some (v, r))"

definition read_given :: "char \<Rightarrow> string \<Rightarrow> string option" where
  "read_given c s = (case s of [] \<Rightarrow> None | x # r \<Rightarrow> if x = c then Some r else None)"

text \<open>\<open>read_separator\<close>: the separator comes before every element but the first.\<close>

definition read_sep :: "char \<Rightarrow> bool \<Rightarrow> string \<Rightarrow> string option" where
  "read_sep c first s = (if first then Some s else read_given c s)"

fun read_octets :: "nat \<Rightarrow> bool \<Rightarrow> string \<Rightarrow> (nat list \<times> string) option" where
  "read_octets 0 first s = Some ([], s)"
| "read_octets (Suc n) first s =
     (case read_sep CHR ''.'' first s of
        None \<Rightarrow> None
      | Some s1 \<Rightarrow>
          (case read_number 10 3 False 255 s1 of
             None \<Rightarrow> None
           | Some (v, s2) \<Rightarrow>
               (case read_octets n False s2 of
                  None \<Rightarrow> None
                | Some (vs, s3) \<Rightarrow> Some (v # vs, s3))))"

definition be_word :: "nat \<Rightarrow> nat list \<Rightarrow> 'a::len word" where
  "be_word bits vs = foldl (\<lambda>a v. push_bit bits a OR of_nat v) 0 vs"

definition read_ipv4 :: "string \<Rightarrow> (32 word \<times> string) option" where
  "read_ipv4 s = map_option (\<lambda>(vs, r). (be_word 8 vs, r)) (read_octets 4 True s)"

text \<open>\<open>read_groups\<close> with \<open>n\<close> slots left: the 16-bit groups read, whether the last two came from
  an embedded IPv4 address, and the rest of the input.\<close>

fun read_groups :: "nat \<Rightarrow> bool \<Rightarrow> string \<Rightarrow> nat list \<times> bool \<times> string" where
  "read_groups 0 first s = ([], False, s)"
| "read_groups (Suc n) first s =
     (case (if 1 \<le> n then
              (case read_sep CHR '':'' first s of None \<Rightarrow> None | Some s1 \<Rightarrow> read_ipv4 s1)
            else None) of
        Some (a, r) \<Rightarrow> ([unat (drop_bit 16 a), unat (a AND 0xFFFF)], True, r)
      | None \<Rightarrow>
          (case (case read_sep CHR '':'' first s of
                   None \<Rightarrow> None | Some s1 \<Rightarrow> read_number 16 4 True 65535 s1) of
             None \<Rightarrow> ([], False, s)
           | Some (g, r) \<Rightarrow>
               (let (gs, v4, r') = read_groups n False r in (g # gs, v4, r'))))"

definition read_ipv6 :: "string \<Rightarrow> (128 word \<times> string) option" where
  "read_ipv6 s =
     (let (head, head_v4, r) = read_groups 8 True s
      in if length head = 8 then Some (be_word 16 head, r)
         else if head_v4 then None
         else (case read_given CHR '':'' r of
                 None \<Rightarrow> None
               | Some r1 \<Rightarrow>
                   (case read_given CHR '':'' r1 of
                      None \<Rightarrow> None
                    | Some r2 \<Rightarrow>
                        (let (tl_gs, _, r3) = read_groups (8 - (length head + 1)) True r2
                         in Some (be_word 16
                              (head @ replicate (8 - length head - length tl_gs) 0 @ tl_gs), r3)))))"

definition parse_ip :: "string \<Rightarrow> ip_addr option" where
  "parse_ip s =
     (case read_ipv4 s of
        Some (a, r) \<Rightarrow> if r = [] then Some (V4 a) else None
      | None \<Rightarrow>
          (case read_ipv6 s of
             Some (a, r) \<Rightarrow> if r = [] then Some (V6 a) else None
           | None \<Rightarrow> None))"

text \<open>\<open>Ipv4Addr::from_str\<close>.\<close>

definition parse_ipv4 :: "string \<Rightarrow> 32 word option" where
  "parse_ipv4 s = (case read_ipv4 s of Some (a, []) \<Rightarrow> Some a | _ \<Rightarrow> None)"

text \<open>Unfolding at numerals, for evaluation by \<open>simp\<close>.\<close>

lemmas read_octets_numeral [simp] = read_octets.simps(2) [of "pred_numeral k" for k, folded numeral_eq_Suc]

lemmas read_groups_numeral [simp] = read_groups.simps(2) [of "pred_numeral k" for k, folded numeral_eq_Suc]

lemmas addr_eval = parse_ip_def read_ipv4_def read_ipv6_def read_sep_def read_given_def read_number_def
  to_digit_def be_word_def is_ascii_digit_def is_ascii_lowercase_def is_ascii_uppercase_def byte_def

lemma read_number_Nil [simp]: "read_number radix n z mx [] = None"
  by (simp add: read_number_def)

lemma parse_ip_Nil [simp]: "parse_ip [] = None"
  by (simp add: parse_ip_def read_ipv4_def read_ipv6_def read_sep_def read_given_def)

section \<open>Decimal output\<close>

definition digit_char :: "nat \<Rightarrow> char" where
  "digit_char n = char_of (n + 48)"

function to_dec :: "nat \<Rightarrow> string" where
  "to_dec n = (if n < 10 then [digit_char n] else to_dec (n div 10) @ [digit_char (n mod 10)])"
  by pat_completeness auto
termination by (relation "measure id") auto

declare to_dec.simps [simp del]

lemma digit_char_props: "n < 10 \<Longrightarrow> is_ascii_digit (digit_char n) \<and> digit_val (digit_char n) = n"
proof -
  have "list_all (\<lambda>n. is_ascii_digit (digit_char n) \<and> digit_val (digit_char n) = n) [0..<10]"
    by code_simp
  then show "n < 10 \<Longrightarrow> ?thesis" by (auto simp: list_all_iff)
qed

lemma to_dec_digits: "list_all is_ascii_digit (to_dec n)"
  by (induction n rule: to_dec.induct) (subst to_dec.simps, auto simp: digit_char_props)

lemma to_dec_val: "digits_val (to_dec n) = n"
proof (induction n rule: to_dec.induct)
  case (1 n)
  then show ?case
    by (subst to_dec.simps) (auto simp: digits_val_def digit_char_props)
qed

lemma to_dec_not_Nil: "to_dec n \<noteq> []"
  by (subst to_dec.simps) simp

section \<open>Header maps\<close>

text \<open>
  A header map is the list of its fields in insertion order, the names in lower case. The
  checks of the \<open>http\<close> crate are parameters: when a value can be read as text, when a string
  makes a value, and the name a string makes.
\<close>

type_synonym header_map = "(string \<times> string) list"

record http_lib =
  hl_readable :: "string \<Rightarrow> bool"
  hl_value_ok :: "string \<Rightarrow> bool"
  hl_name :: "string \<Rightarrow> string option"

definition hv_to_str :: "http_lib \<Rightarrow> string \<Rightarrow> string option" where
  "hv_to_str H v = (if hl_readable H v then Some v else None)"

definition hv_from_str :: "http_lib \<Rightarrow> string \<Rightarrow> string option" where
  "hv_from_str H v = (if hl_value_ok H v then Some v else None)"

definition hd_get :: "header_map \<Rightarrow> string \<Rightarrow> string option" where
  "hd_get h name = map_of h name"

definition hd_get_all :: "header_map \<Rightarrow> string \<Rightarrow> string list" where
  "hd_get_all h name = map snd (filter (\<lambda>e. fst e = name) h)"

definition hd_get_str :: "http_lib \<Rightarrow> header_map \<Rightarrow> string \<Rightarrow> string option" where
  "hd_get_str H h name = Option.bind (hd_get h name) (hv_to_str H)"

definition hd_contains :: "header_map \<Rightarrow> string \<Rightarrow> bool" where
  "hd_contains h name \<longleftrightarrow> hd_get h name \<noteq> None"

text \<open>\<open>insert\<close> replaces every value of the name; \<open>append\<close> keeps the others.\<close>

definition hd_insert :: "string \<Rightarrow> string \<Rightarrow> header_map \<Rightarrow> header_map" where
  "hd_insert name v h = filter (\<lambda>e. fst e \<noteq> name) h @ [(name, v)]"

definition hd_append :: "string \<Rightarrow> string \<Rightarrow> header_map \<Rightarrow> header_map" where
  "hd_append name v h = h @ [(name, v)]"

lemma hd_get_insert: "hd_get (hd_insert n v h) m = (if m = n then Some v else hd_get h m)"
proof -
  have "map_of (filter (\<lambda>e. fst e \<noteq> n) h) m = (if m = n then None else map_of h m)"
    by (induction h) auto
  then show ?thesis by (auto simp: hd_get_def hd_insert_def map_add_def split: option.splits)
qed

lemma hd_get_append: "hd_get (hd_append n v h) m =
    (case hd_get h m of Some x \<Rightarrow> Some x | None \<Rightarrow> if m = n then Some v else None)"
  by (auto simp: hd_get_def hd_append_def map_add_def split: option.splits)

lemma hd_get_str_readable: "hd_get h n = Some v \<Longrightarrow> hl_readable H v \<Longrightarrow> hd_get_str H h n = Some v"
  by (simp add: hd_get_str_def hv_to_str_def)

lemma hd_get_str_absent: "hd_get h n = None \<Longrightarrow> hd_get_str H h n = None"
  by (simp add: hd_get_str_def)

text \<open>An instance for evaluation: visible ASCII and tabs in values, lower-cased names.\<close>

definition demo_http :: http_lib where
  "demo_http = (let ok = list_all (\<lambda>c. (32 \<le> byte c \<and> byte c < 127) \<or> byte c = 9)
     in \<lparr>hl_readable = ok, hl_value_ok = ok, hl_name = (\<lambda>n. if n = [] then None else Some (to_ascii_lowercase n))\<rparr>)"

lemma demo_http_simps [simp]:
  "hl_readable demo_http v = list_all (\<lambda>c. (32 \<le> byte c \<and> byte c < 127) \<or> byte c = 9) v"
  "hl_value_ok demo_http v = list_all (\<lambda>c. (32 \<le> byte c \<and> byte c < 127) \<or> byte c = 9) v"
  "hl_name demo_http n = (if n = [] then None else Some (to_ascii_lowercase n))"
  by (simp_all add: demo_http_def Let_def)

end
