(* ===== verification/Web_Gate.thy ===== *)
theory Web_Gate
  imports Net_Addr Login
begin

text \<open>
  The console's front door: the settings entity (\<open>core/settings/model.rs\<close>) with its validation,
  seeding and reset (\<open>web/settings.rs\<close>), the security policy view and client-address recovery
  (\<open>web/http/policy.rs\<close>), the entry gate that every request passes and the redaction of what
  goes into the audit log (\<open>web/http/middleware/gate.rs\<close>).
\<close>

section \<open>Settings\<close>

record web_settings =
  ws_port :: nat
  ws_username :: string
  ws_pw_salt :: string
  ws_pw_hash :: string
  ws_pw_kdf :: string
  ws_pw_default :: bool
  ws_owner_uid :: nat
  ws_full_name :: string
  ws_nickname :: string
  ws_avatar :: string
  ws_totp_secret :: string
  ws_totp_enabled :: bool
  ws_initialized :: bool
  ws_init_token :: string
  ws_external_address :: string
  ws_https_mode :: string
  ws_website_http_port :: nat
  ws_website_https_port :: nat
  ws_console_port :: nat
  ws_entry_path :: string
  ws_language :: string
  ws_timezone :: string
  ws_session_timeout :: nat
  ws_allow_ips :: "string list"
  ws_trusted_proxies :: "string list"

definition CONSOLE_LOOPBACK_PORT :: nat where "CONSOLE_LOOPBACK_PORT = 1080"
definition default_timeout :: nat where "default_timeout = 1440"
definition default_https_mode :: string where "default_https_mode = ''none''"
definition default_website_http_port :: nat where "default_website_http_port = 80"
definition default_website_https_port :: nat where "default_website_https_port = 443"

definition settings_seed :: "nat \<Rightarrow> web_settings" where
  "settings_seed uid =
     \<lparr>ws_port = CONSOLE_LOOPBACK_PORT, ws_username = [], ws_pw_salt = [], ws_pw_hash = [],
      ws_pw_kdf = [], ws_pw_default = True, ws_owner_uid = uid, ws_full_name = [], ws_nickname = [],
      ws_avatar = [], ws_totp_secret = [], ws_totp_enabled = False, ws_initialized = False,
      ws_init_token = [], ws_external_address = [], ws_https_mode = ''none'',
      ws_website_http_port = default_website_http_port,
      ws_website_https_port = default_website_https_port, ws_console_port = 0, ws_entry_path = [],
      ws_language = [], ws_timezone = [], ws_session_timeout = default_timeout,
      ws_allow_ips = [], ws_trusted_proxies = []\<rparr>"

text \<open>What \<open>web.json\<close> holds: nothing, an unparseable file (which \<open>load_strict\<close> moves aside), or
  settings. \<open>load_or_init\<close> returns the settings to serve with and the file it leaves; a failed
  save is only logged.\<close>

datatype settings_file = Absent | Corrupt | Present web_settings

definition load_strict :: "settings_file \<Rightarrow> settings_file \<times> (unit + web_settings option)" where
  "load_strict f = (case f of Absent \<Rightarrow> (Absent, Inr None) | Corrupt \<Rightarrow> (Absent, Inl ())
     | Present s \<Rightarrow> (Present s, Inr (Some s)))"

definition load_or_init :: "nat \<Rightarrow> bool \<Rightarrow> settings_file \<Rightarrow> settings_file \<times> web_settings" where
  "load_or_init uid save_ok f =
     (let (f', r) = load_strict f
      in (case r of
            Inr (Some s) \<Rightarrow> (f', s)
          | Inr None \<Rightarrow>
              (let s = settings_seed uid in (if save_ok then Present s else f', s))
          | Inl _ \<Rightarrow> (f', settings_seed uid)))"

definition set_password_hashed :: "string \<Rightarrow> string \<Rightarrow> string \<Rightarrow> web_settings \<Rightarrow> web_settings" where
  "set_password_hashed salt hash kdf s =
     s\<lparr>ws_pw_salt := salt, ws_pw_hash := hash, ws_pw_kdf := kdf, ws_pw_default := False\<rparr>"

definition settings_reset :: "web_settings \<Rightarrow> web_settings" where
  "settings_reset s =
     s\<lparr>ws_username := [], ws_pw_hash := [], ws_pw_salt := [], ws_pw_kdf := [], ws_pw_default := True,
       ws_totp_secret := [], ws_totp_enabled := False, ws_initialized := False,
       ws_external_address := [], ws_https_mode := ''none'', ws_entry_path := [],
       ws_init_token := []\<rparr>"

section \<open>Validation\<close>

definition valid_ip_or_cidr :: "string \<Rightarrow> bool" where
  "valid_ip_or_cidr s =
     (case split_once CHR ''/'' s of
        Some (addr, pfx) \<Rightarrow>
          (case (parse_ip addr, parse_u8 pfx) of
             (Some (V4 _), Some p) \<Rightarrow> p \<le> 32
           | (Some (V6 _), Some p) \<Rightarrow> p \<le> 128
           | _ \<Rightarrow> False)
      | None \<Rightarrow> parse_ip s \<noteq> None)"

fun allow_ips_loop :: "string list \<Rightarrow> string list \<Rightarrow> string list option" where
  "allow_ips_loop [] out = Some out"
| "allow_ips_loop (line # raw) out =
     (let t = trim line
      in if t = [] then allow_ips_loop raw out
         else if \<not> valid_ip_or_cidr t then None
         else if t \<in> set out then allow_ips_loop raw out
         else allow_ips_loop raw (out @ [t]))"

definition normalize_allow_ips :: "string list \<Rightarrow> string list option" where
  "normalize_allow_ips raw =
     (case allow_ips_loop raw [] of
        None \<Rightarrow> None
      | Some out \<Rightarrow> if 200 < length out then None else Some out)"

definition valid_entry_path :: "string \<Rightarrow> bool" where
  "valid_entry_path s \<longleftrightarrow> s \<noteq> [] \<and> length s \<le> 64 \<and>
     list_all (\<lambda>c. is_ascii_alphanumeric c \<or> c = CHR ''-'' \<or> c = CHR ''_'') s"

definition trim_start_char :: "char \<Rightarrow> string \<Rightarrow> string" where
  "trim_start_char c s = dropWhile (\<lambda>x. x = c) s"

definition normalize_entry_path :: "string \<Rightarrow> string option" where
  "normalize_entry_path raw =
     (let s = trim (trim_start_char CHR ''/'' (trim raw))
      in if s = [] then Some [] else if valid_entry_path s then Some s else None)"

section \<open>The security policy\<close>

text \<open>A prefix of 0 matches everything; the shifts of the code are by at least 0 and less than
  the width, so the masks are the high \<open>prefix\<close> bits.\<close>

fun cidr_contains :: "ip_addr \<Rightarrow> nat \<Rightarrow> ip_addr \<Rightarrow> bool" where
  "cidr_contains (V4 n) prefix (V4 i) =
     (if prefix = 0 then True
      else if 32 < prefix then False
      else (let mask = push_bit (32 - prefix) (- 1) in n AND mask = i AND mask))"
| "cidr_contains (V6 n) prefix (V6 i) =
     (if prefix = 0 then True
      else if 128 < prefix then False
      else (let mask = push_bit (128 - prefix) (- 1) in n AND mask = i AND mask))"
| "cidr_contains _ _ _ = False"

fun ip_in_cidrs :: "string list \<Rightarrow> ip_addr \<Rightarrow> bool" where
  "ip_in_cidrs [] ip = False"
| "ip_in_cidrs (entry # rest) ip =
     (case split_once CHR ''/'' entry of
        Some (a, p) \<Rightarrow>
          (case (parse_ip a, parse_u8 p) of
             (Some net, Some prefix) \<Rightarrow>
               if cidr_contains net prefix ip then True else ip_in_cidrs rest ip
           | _ \<Rightarrow> ip_in_cidrs rest ip)
      | None \<Rightarrow>
          (case parse_ip entry of
             Some a \<Rightarrow> if a = ip then True else ip_in_cidrs rest ip
           | None \<Rightarrow> ip_in_cidrs rest ip))"

definition ip_in_allowlist :: "string list \<Rightarrow> ip_addr \<Rightarrow> bool" where
  "ip_in_allowlist allow ip = (if is_loopback ip then True else ip_in_cidrs allow ip)"

definition allow_list_active :: "web_settings \<Rightarrow> bool" where
  "allow_list_active s \<longleftrightarrow> ws_allow_ips s \<noteq> []"

definition policy_ip_allowed :: "web_settings \<Rightarrow> ip_addr \<Rightarrow> bool" where
  "policy_ip_allowed s ip = (if ws_allow_ips s = [] then True else ip_in_allowlist (ws_allow_ips s) ip)"

definition trusts_proxy :: "web_settings \<Rightarrow> ip_addr \<Rightarrow> bool" where
  "trusts_proxy s peer \<longleftrightarrow> is_loopback peer \<or>
     (ws_trusted_proxies s \<noteq> [] \<and> ip_in_cidrs (ws_trusted_proxies s) peer)"

text \<open>\<open>rfind\<close> on the iterator: the last element with the property.\<close>

definition rfind :: "('a \<Rightarrow> bool) \<Rightarrow> 'a list \<Rightarrow> 'a option" where
  "rfind P xs = find P (rev xs)"

definition client_ip :: "http_lib \<Rightarrow> ip_addr \<Rightarrow> header_map \<Rightarrow> web_settings \<Rightarrow> ip_addr" where
  "client_ip H peer headers s =
     (if trusts_proxy s peer then
        (case Option.bind (hd_get_str H headers ''x-forwarded-for'')
            (\<lambda>xff. Option.bind (rfind (\<lambda>t. t \<noteq> []) (map trim (split_on CHR '','' xff))) parse_ip) of
           Some ip \<Rightarrow> ip
         | None \<Rightarrow>
             (case Option.bind (hd_get_str H headers ''x-real-ip'') (\<lambda>v. parse_ip (trim v)) of
                Some real \<Rightarrow> real
              | None \<Rightarrow> peer))
      else peer)"

section \<open>The entry gate\<close>

record web_request =
  rq_path :: string
  rq_query :: "string option"
  rq_headers :: header_map
  rq_peer :: "ip_addr option"

record web_response =
  rp_status :: nat
  rp_body :: string
  rp_headers :: header_map

definition plain_response :: "nat \<Rightarrow> string \<Rightarrow> web_response" where
  "plain_response code body = \<lparr>rp_status = code, rp_body = body, rp_headers = []\<rparr>"

definition forbidden :: web_response where "forbidden = plain_response 403 ''Forbidden''"
definition not_found :: web_response where "not_found = plain_response 404 ''Not Found''"

definition redirect_to :: "string \<Rightarrow> web_response" where
  "redirect_to target = \<lparr>rp_status = 303, rp_body = [], rp_headers = [(''location'', target)]\<rparr>"

definition append_cookie :: "http_lib \<Rightarrow> string \<Rightarrow> web_response \<Rightarrow> web_response" where
  "append_cookie H v r =
     (if hv_from_str H v \<noteq> None then r\<lparr>rp_headers := hd_append ''set-cookie'' v (rp_headers r)\<rparr> else r)"

text \<open>\<open>ct_eq\<close>, the constant-time comparison of byte slices.\<close>

definition ct_eq :: "8 word list \<Rightarrow> 8 word list \<Rightarrow> bool" where
  "ct_eq a b =
     (if length a \<noteq> length b then False
      else foldl (\<lambda>diff (x, y). diff OR (x XOR y)) 0 (zip a b) = 0)"

fun find_map :: "('a \<Rightarrow> 'b option) \<Rightarrow> 'a list \<Rightarrow> 'b option" where
  "find_map f [] = None"
| "find_map f (x # xs) = (case f x of Some y \<Rightarrow> Some y | None \<Rightarrow> find_map f xs)"

definition query_value :: "string option \<Rightarrow> string \<Rightarrow> string option" where
  "query_value query key =
     Option.bind query (\<lambda>q. find_map (\<lambda>pair. Option.bind (split_once CHR ''='' pair)
       (\<lambda>(k, v). if k = key then Some v else None)) (split_on CHR ''&'' q))"

definition cookie_value :: "http_lib \<Rightarrow> header_map \<Rightarrow> string \<Rightarrow> string option" where
  "cookie_value H headers name =
     Option.bind (hd_get_str H headers ''cookie'') (\<lambda>raw.
       find_map (\<lambda>pair. Option.bind (split_once CHR ''='' (trim pair))
         (\<lambda>(k, v). if k = name then Some v else None)) (split_on CHR '';'' raw))"

definition or_else :: "'a option \<Rightarrow> 'a option \<Rightarrow> 'a option" where
  "or_else a b = (case a of Some x \<Rightarrow> Some x | None \<Rightarrow> b)"

definition serve_entry_gated :: "http_lib \<Rightarrow> string \<Rightarrow> web_request \<Rightarrow> (web_request \<Rightarrow> web_response) \<Rightarrow> web_response" where
  "serve_entry_gated H entry_path req nxt =
     (let door = ''/'' @ entry_path; path = rq_path req
      in if path = door \<or> path = door @ ''/'' then
           append_cookie H (''dn7_entry='' @ entry_path @ ''; Path=/; SameSite=Strict; Max-Age=2592000'')
             (redirect_to ''/'')
         else
           (let presented = or_else (hd_get_str H (rq_headers req) ''x-dn7-entry'')
                  (cookie_value H (rq_headers req) ''dn7_entry'');
                ok = (case presented of Some p \<Rightarrow> ct_eq (as_bytes p) (as_bytes entry_path) | None \<Rightarrow> False)
            in if \<not> ok then not_found else nxt req))"

definition on_init_surface :: "string \<Rightarrow> bool" where
  "on_init_surface path \<longleftrightarrow> path = ''/'' \<or> path = ''/init'' \<or> starts_with path ''/ui/'' \<or>
     starts_with path ''/api/init/''"

definition serve_init_surface :: "http_lib \<Rightarrow> string \<Rightarrow> web_request \<Rightarrow> (web_request \<Rightarrow> web_response) \<Rightarrow> web_response" where
  "serve_init_surface H init_token req nxt =
     (if \<not> on_init_surface (rq_path req) then not_found
      else (let from_query = query_value (rq_query req) ''init_token'';
                presented = or_else from_query (cookie_value H (rq_headers req) ''dn7_init'');
                ok = (case presented of Some p \<Rightarrow> ct_eq (as_bytes p) (as_bytes init_token) | None \<Rightarrow> False)
            in if \<not> ok then not_found
               else (let resp = nxt req
                     in if from_query \<noteq> None
                        then append_cookie H (''dn7_init='' @ init_token @ ''; Path=/; HttpOnly; SameSite=Strict'') resp
                        else resp)))"

definition entry_gate_inner :: "http_lib \<Rightarrow> web_settings \<Rightarrow> web_request \<Rightarrow> (web_request \<Rightarrow> web_response) \<Rightarrow> web_response" where
  "entry_gate_inner H s req nxt =
     (let eff = map_option (\<lambda>p. client_ip H p (rq_headers req) s) (rq_peer req);
          ip_ok = map_option (policy_ip_allowed s) eff
      in if allow_list_active s \<and> \<not> (case ip_ok of Some b \<Rightarrow> b | None \<Rightarrow> False) then forbidden
         else if \<not> ws_initialized s then
           (if ws_init_token s = [] then not_found else serve_init_surface H (ws_init_token s) req nxt)
         else if ws_entry_path s \<noteq> [] then serve_entry_gated H (ws_entry_path s) req nxt
         else nxt req)"

definition audit_client_ip :: "http_lib \<Rightarrow> (ip_addr \<Rightarrow> string) \<Rightarrow> web_settings \<Rightarrow> web_request \<Rightarrow> string" where
  "audit_client_ip H show_ip s req =
     (case rq_peer req of None \<Rightarrow> [] | Some peer \<Rightarrow> show_ip (client_ip H peer (rq_headers req) s))"

section \<open>Redaction for the audit log\<close>

definition secret_header_words :: "string list" where
  "secret_header_words = [''token'', ''secret'', ''password'', ''session'', ''api-key'', ''apikey'',
     ''credential'', ''bearer'']"

definition header_secret :: "string \<Rightarrow> bool" where
  "header_secret n =
     (let nl = to_ascii_lowercase n
      in nl = ''authorization'' \<or> nl = ''cookie'' \<or> nl = ''proxy-authorization'' \<or>
         list_ex (str_contains nl) secret_header_words)"

text \<open>\<open>chars().take(n).collect()\<close> on a value that can be read as text, where a character is a
  byte.\<close>

definition sanitize_line :: "http_lib \<Rightarrow> string \<times> string \<Rightarrow> string" where
  "sanitize_line H e =
     (let (n, value) = e;
          v = (if header_secret n then ''[redacted]''
               else take 256 (case hv_to_str H value of Some t \<Rightarrow> t | None \<Rightarrow> ''[binary]''))
      in n @ '': '' @ v @ [CHR 0x0A])"

definition sanitize_headers :: "http_lib \<Rightarrow> header_map \<Rightarrow> string" where
  "sanitize_headers H h = concat (map (sanitize_line H) h)"

text \<open>\<open>serde_json::Value\<close>; an object keeps its keys in the order of the map.\<close>

datatype json = JNull | JBool bool | JNum int | JStr string | JArr "json list"
  | JObj "(string \<times> json) list"

definition secret_key_words :: "string list" where
  "secret_key_words = [''password'', ''passwd'', ''pw_'', ''token'', ''secret'', ''salt'', ''private'',
     ''hash'', ''verifier'', ''otp'', ''cred'', ''seed'', ''mnemonic'']"

definition secret_key :: "string \<Rightarrow> bool" where
  "secret_key k =
     (let kl = to_ascii_lowercase k
      in kl = ''pw'' \<or> list_ex (str_contains kl) secret_key_words \<or> ends_with kl ''key'')"

fun redact_json :: "json \<Rightarrow> json" where
  "redact_json (JObj m) =
     JObj (map (\<lambda>(k, v). (k, if secret_key k then JStr ''[redacted]'' else redact_json v)) m)"
| "redact_json (JArr xs) = JArr (map redact_json xs)"
| "redact_json v = v"

definition redact_response :: "(json \<Rightarrow> string) \<Rightarrow> (nat \<Rightarrow> string \<Rightarrow> string) \<Rightarrow> json \<Rightarrow> string" where
  "redact_response to_string take_chars v = take_chars 4000 (to_string (redact_json v))"

text \<open>The values a JSON document holds under a path of keys and indices.\<close>

datatype json_step = Key string | Index nat

fun json_at :: "json \<Rightarrow> json_step list \<Rightarrow> json option" where
  "json_at v [] = Some v"
| "json_at (JObj m) (Key k # p) = (case map_of m k of Some v \<Rightarrow> json_at v p | None \<Rightarrow> None)"
| "json_at (JArr xs) (Index i # p) = (if i < length xs then json_at (xs ! i) p else None)"
| "json_at _ _ = None"

section \<open>Address lists\<close>

lemma mask_high_bits:
  fixes n i :: "'a::len word"
  shows "n AND NOT (mask k) = i AND NOT (mask k) \<longleftrightarrow> drop_bit k n = drop_bit k i"
proof
  assume h: "n AND NOT (mask k) = i AND NOT (mask k)"
  have hb: "bit (n AND NOT (mask k)) (k + j) = bit (i AND NOT (mask k)) (k + j)" for j
    by (simp add: h)
  have b: "k + j < LENGTH('a) \<Longrightarrow> bit n (k + j) = bit i (k + j)" for j
    using hb [of j] by (simp add: bit_and_iff bit_not_iff bit_mask_iff)
  show "drop_bit k n = drop_bit k i"
  proof (rule bit_eqI)
    fix j
    show "bit (drop_bit k n) j = bit (drop_bit k i) j"
      using b [of j] by (cases "k + j < LENGTH('a)") (auto simp: bit_drop_bit_eq dest: bit_imp_le_length)
  qed
next
  assume h: "drop_bit k n = drop_bit k i"
  have hb: "bit (drop_bit k n) (j - k) = bit (drop_bit k i) (j - k)" for j by (simp add: h)
  have b: "k \<le> j \<Longrightarrow> bit n j = bit i j" for j
    using hb [of j] by (simp add: bit_drop_bit_eq)
  show "n AND NOT (mask k) = i AND NOT (mask k)"
    by (rule bit_eqI) (auto simp: bit_and_iff bit_not_iff bit_mask_iff b)
qed

lemma drop_bit_len [simp]: "drop_bit 32 (n :: 32 word) = 0" "drop_bit 128 (m :: 128 word) = 0"
  by (simp_all add: bit_eq_iff bit_simps)

lemma cidr_contains_self: "valid_ip_or_cidr e \<Longrightarrow> \<exists>ip. ip_in_cidrs [e] ip"
proof -
  assume v: "valid_ip_or_cidr e"
  show ?thesis
  proof (cases "split_once CHR ''/'' e")
    case None
    with v show ?thesis by (auto simp: valid_ip_or_cidr_def)
  next
    case (Some ap)
    then obtain a p where ap: "split_once CHR ''/'' e = Some (a, p)" by (cases ap) auto
    with v obtain net n where n: "parse_ip a = Some net" "parse_u8 p = Some n"
      and le: "case net of V4 _ \<Rightarrow> n \<le> 32 | V6 _ \<Rightarrow> n \<le> 128"
      by (auto simp: valid_ip_or_cidr_def split: option.splits ip_addr.splits)
    from le have "cidr_contains net n net" by (cases net) (auto simp: Let_def)
    with ap n show ?thesis by auto
  qed
qed

lemma ip_in_cidrs_append: "ip_in_cidrs (xs @ ys) ip \<longleftrightarrow> ip_in_cidrs xs ip \<or> ip_in_cidrs ys ip"
  by (induction xs) (auto split: option.splits)

lemma ip_in_cidrs_member: "e \<in> set xs \<Longrightarrow> ip_in_cidrs [e] ip \<Longrightarrow> ip_in_cidrs xs ip"
  by (metis append_Cons append_Nil ip_in_cidrs_append split_list)

lemma allow_ips_loop_result:
  "allow_ips_loop raw out = Some res \<Longrightarrow> distinct out \<Longrightarrow> \<forall>e \<in> set out. valid_ip_or_cidr e \<Longrightarrow>
    distinct res \<and> (\<forall>e \<in> set res. valid_ip_or_cidr e) \<and>
    set res = set out \<union> (trim ` set raw - {[]})"
proof (induction raw arbitrary: out)
  case Nil
  then show ?case by simp
next
  case (Cons line raw)
  let ?t = "trim line"
  have set: "set out \<union> (trim ` set (line # raw) - {[]}) =
      (if ?t = [] then set out else insert ?t (set out)) \<union> (trim ` set raw - {[]})" by auto
  consider "?t = [] \<or> ?t \<in> set out" | "?t \<noteq> []" "?t \<notin> set out" "valid_ip_or_cidr ?t"
    using Cons.prems(1) by (auto simp: Let_def split: if_splits)
  then show ?case
  proof cases
    case 1
    with Cons.prems have "allow_ips_loop raw out = Some res" by (auto simp: Let_def split: if_splits)
    from Cons.IH [OF this Cons.prems(2,3)] 1 show ?thesis unfolding set by (auto simp: insert_absorb)
  next
    case 2
    with Cons.prems(1) have "allow_ips_loop raw (out @ [?t]) = Some res" by (simp add: Let_def)
    from Cons.IH [OF this] 2 Cons.prems(2,3) show ?thesis unfolding set by simp
  qed
qed

lemma ct_eq_iff: "ct_eq a b \<longleftrightarrow> a = b"
  unfolding ct_eq_def by (rule xor_fold_eq)

section \<open>Properties\<close>

text \<open>A block contains an address exactly when they are of one family and agree on the first
  \<open>prefix\<close> bits; a prefix longer than the address matches nothing.\<close>

theorem cidr_contains_prefix:
  "(cidr_contains (V4 n) p (V4 i) \<longleftrightarrow> p \<le> 32 \<and> drop_bit (32 - p) n = drop_bit (32 - p) i) \<and>
   (cidr_contains (V6 m) p (V6 j) \<longleftrightarrow> p \<le> 128 \<and> drop_bit (128 - p) m = drop_bit (128 - p) j) \<and>
   \<not> cidr_contains (V4 n) p (V6 j) \<and> \<not> cidr_contains (V6 m) p (V4 i)"
  by (auto simp: Let_def mask_high_bits)

text \<open>A forwarded header changes the client address only when the direct peer is loopback or
  in the configured proxies; otherwise no header does, so the allow list and the throttle see
  the true peer.\<close>

theorem client_ip_unspoofable:
  assumes "client_ip H peer h s \<noteq> client_ip H peer h' s"
  shows "is_loopback peer \<or> ip_in_cidrs (ws_trusted_proxies s) peer"
  using assms by (auto simp: client_ip_def trusts_proxy_def split: if_splits)

definition demo_settings :: web_settings where
  "demo_settings = (settings_seed 0)\<lparr>ws_initialized := True, ws_entry_path := ''door'',
     ws_trusted_proxies := [''10.0.0.0/8'']\<rparr>"

theorem client_ip_unspoofable_witness:
  "is_loopback (V4 0x7F000001) \<or> ip_in_cidrs (ws_trusted_proxies demo_settings) (V4 0x7F000001)"
proof (rule client_ip_unspoofable)
  show "client_ip demo_http (V4 0x7F000001) [(''x-real-ip'', ''1.2.3.4'')] demo_settings \<noteq>
    client_ip demo_http (V4 0x7F000001) [] demo_settings"
    by (simp add: client_ip_def trusts_proxy_def hd_get_str_def hd_get_def hv_to_str_def
        byte_def rust_strings plain_char_def ws1_def ws2_def ws3_def addr_eval)
qed

lemma serve_entry_gated_open:
  "serve_entry_gated H e req n \<noteq> serve_entry_gated H e req n' \<Longrightarrow>
    hd_get_str H (rq_headers req) ''x-dn7-entry'' = Some e \<or>
    cookie_value H (rq_headers req) ''dn7_entry'' = Some e"
  unfolding serve_entry_gated_def Let_def
  by (cases "hd_get_str H (rq_headers req) ''x-dn7-entry''";
      cases "cookie_value H (rq_headers req) ''dn7_entry''")
    (simp_all add: or_else_def ct_eq_iff as_bytes_eq split: if_splits)

lemma serve_init_surface_open:
  "serve_init_surface H t req n \<noteq> serve_init_surface H t req n' \<Longrightarrow>
    on_init_surface (rq_path req) \<and> (query_value (rq_query req) ''init_token'' = Some t \<or>
    cookie_value H (rq_headers req) ''dn7_init'' = Some t)"
  unfolding serve_init_surface_def Let_def
  by (cases "query_value (rq_query req) ''init_token''";
      cases "cookie_value H (rq_headers req) ''dn7_init''")
    (simp_all add: or_else_def ct_eq_iff as_bytes_eq split: if_splits)

lemma allow_list_passed:
  "\<not> (allow_list_active s \<and> \<not> (case map_option (policy_ip_allowed s)
      (map_option (\<lambda>p. client_ip H p h s) peer) of Some b \<Rightarrow> b | None \<Rightarrow> False)) \<Longrightarrow>
    ws_allow_ips s = [] \<or> (\<exists>p. peer = Some p \<and> (is_loopback (client_ip H p h s) \<or>
       ip_in_cidrs (ws_allow_ips s) (client_ip H p h s)))"
  by (cases peer) (auto simp: allow_list_active_def policy_ip_allowed_def ip_in_allowlist_def split: if_splits)

text \<open>C8: the console behind the gate influences the answer only for a request whose recovered
  address the allow list admits and which, before initialisation, is on the wizard's surface
  and presents the init token, or, after it, presents the entry path if one is set.\<close>

theorem gate_admits_only_authorised:
  assumes "entry_gate_inner H s req nxt \<noteq> entry_gate_inner H s req nxt'"
  shows "(ws_allow_ips s = [] \<or> (\<exists>peer. rq_peer req = Some peer \<and>
      (is_loopback (client_ip H peer (rq_headers req) s) \<or>
       ip_in_cidrs (ws_allow_ips s) (client_ip H peer (rq_headers req) s)))) \<and>
    (if ws_initialized s
     then ws_entry_path s = [] \<or> hd_get_str H (rq_headers req) ''x-dn7-entry'' = Some (ws_entry_path s) \<or>
       cookie_value H (rq_headers req) ''dn7_entry'' = Some (ws_entry_path s)
     else ws_init_token s \<noteq> [] \<and> on_init_surface (rq_path req) \<and>
       (query_value (rq_query req) ''init_token'' = Some (ws_init_token s) \<or>
        cookie_value H (rq_headers req) ''dn7_init'' = Some (ws_init_token s)))"
proof
  note g = entry_gate_inner_def [of H s req, unfolded Let_def]
  have pass: "\<not> (allow_list_active s \<and> \<not> (case map_option (policy_ip_allowed s)
      (map_option (\<lambda>p. client_ip H p (rq_headers req) s) (rq_peer req)) of Some b \<Rightarrow> b | None \<Rightarrow> False))"
    (is "\<not> ?deny")
  proof
    assume d: ?deny
    from assms show False unfolding g if_P [OF d] by simp
  qed
  then show "ws_allow_ips s = [] \<or> (\<exists>peer. rq_peer req = Some peer \<and>
      (is_loopback (client_ip H peer (rq_headers req) s) \<or>
       ip_in_cidrs (ws_allow_ips s) (client_ip H peer (rq_headers req) s)))"
    by (rule allow_list_passed)
  show "if ws_initialized s
     then ws_entry_path s = [] \<or> hd_get_str H (rq_headers req) ''x-dn7-entry'' = Some (ws_entry_path s) \<or>
       cookie_value H (rq_headers req) ''dn7_entry'' = Some (ws_entry_path s)
     else ws_init_token s \<noteq> [] \<and> on_init_surface (rq_path req) \<and>
       (query_value (rq_query req) ''init_token'' = Some (ws_init_token s) \<or>
        cookie_value H (rq_headers req) ''dn7_init'' = Some (ws_init_token s))"
    using assms serve_entry_gated_open [of H "ws_entry_path s" req nxt nxt']
      serve_init_surface_open [of H "ws_init_token s" req nxt nxt']
    unfolding g if_not_P [OF pass] by (simp only: split: if_split_asm) simp_all
qed

lemma demo_gate_passes: "entry_gate_inner demo_http demo_settings
    \<lparr>rq_path = ''/'', rq_query = None, rq_headers = [(''x-dn7-entry'', ''door'')], rq_peer = None\<rparr> nxt
  = nxt \<lparr>rq_path = ''/'', rq_query = None, rq_headers = [(''x-dn7-entry'', ''door'')], rq_peer = None\<rparr>"
  by (simp add: entry_gate_inner_def allow_list_active_def demo_settings_def settings_seed_def
      serve_entry_gated_def Let_def hd_get_str_def hd_get_def hv_to_str_def byte_def or_else_def ct_eq_iff)

theorem gate_admits_only_authorised_witness:
  "hd_get_str demo_http [(''x-dn7-entry'', ''door'')] ''x-dn7-entry'' = Some (ws_entry_path demo_settings) \<or>
   cookie_value demo_http [(''x-dn7-entry'', ''door'')] ''dn7_entry'' = Some (ws_entry_path demo_settings)"
proof -
  let ?r = "\<lparr>rq_path = ''/'', rq_query = None, rq_headers = [(''x-dn7-entry'', ''door'')], rq_peer = None\<rparr>"
  have "entry_gate_inner demo_http demo_settings ?r (\<lambda>_. forbidden) \<noteq>
      entry_gate_inner demo_http demo_settings ?r (\<lambda>_. not_found)"
    by (simp add: demo_gate_passes forbidden_def not_found_def plain_response_def)
  from gate_admits_only_authorised [OF this] show ?thesis
    by (simp add: demo_settings_def settings_seed_def)
qed

text \<open>A saved allow list is a duplicate-free list of at most 200 entries, exactly the non-blank
  trimmed lines entered, and none of them is dead: each admits some address.\<close>

theorem normalize_allow_ips_sound:
  assumes "normalize_allow_ips raw = Some out"
  shows "distinct out \<and> length out \<le> 200 \<and> set out = trim ` set raw - {[]} \<and>
    (\<forall>e \<in> set out. \<exists>ip. ip_in_cidrs [e] ip \<and> ip_in_allowlist out ip)"
proof -
  from assms have l: "allow_ips_loop raw [] = Some out" and n: "length out \<le> 200"
    by (auto simp: normalize_allow_ips_def split: option.splits if_splits)
  from allow_ips_loop_result [OF l] have r: "distinct out" "\<forall>e \<in> set out. valid_ip_or_cidr e"
    "set out = trim ` set raw - {[]}" by auto
  have "\<exists>ip. ip_in_cidrs [e] ip \<and> ip_in_allowlist out ip" if "e \<in> set out" for e
    using cidr_contains_self [of e] r(2) that ip_in_cidrs_member [OF that]
    unfolding ip_in_allowlist_def by metis
  with n r show ?thesis by blast
qed

theorem normalize_allow_ips_sound_witness:
  "distinct [''1.2.3.4''] \<and> length [''1.2.3.4''] \<le> 200"
proof -
  have t: "trim ''1.2.3.4'' = ''1.2.3.4''"
    by (rule trim_plain) (simp_all add: plain_char_def ws1_def ws2_def ws3_def)
  have "normalize_allow_ips [''1.2.3.4'', ''1.2.3.4''] = Some [''1.2.3.4'']"
    by (simp add: normalize_allow_ips_def t Let_def valid_ip_or_cidr_def split_once_def addr_eval)
  from normalize_allow_ips_sound [OF this] show ?thesis by blast
qed

text \<open>A corrupt settings file never turns into saved or initialised settings: the panel starts
  uninitialised, with no init token and no account, and leaves no file; an absent file is seeded
  the same way, and a good one is returned unchanged.\<close>

theorem load_or_init_safe:
  "(case f of
      Present s \<Rightarrow> load_or_init uid ok f = (f, s)
    | _ \<Rightarrow> (let (f', s) = load_or_init uid ok f
           in \<not> ws_initialized s \<and> ws_init_token s = [] \<and> ws_pw_hash s = [] \<and>
              (f' = Absent \<or> f = Absent \<and> f' = Present s)))"
  by (cases f) (simp_all add: load_or_init_def load_strict_def Let_def settings_seed_def)

lemma json_at_append: "json_at v (p @ q) = (case json_at v p of None \<Rightarrow> None | Some w \<Rightarrow> json_at w q)"
  by (induction v p rule: json_at.induct) (auto split: option.splits)

lemma map_of_redact: "map_of (map (\<lambda>(k, v). (k, f k v)) m) k = map_option (f k) (map_of m k)"
  by (induction m) auto

definition open_step :: "json_step \<Rightarrow> bool" where
  "open_step st = (case st of Key k \<Rightarrow> \<not> secret_key k | Index _ \<Rightarrow> True)"

lemma json_at_redact_open:
  "json_at v p = Some w \<Longrightarrow> \<forall>st \<in> set p. open_step st \<Longrightarrow> json_at (redact_json v) p = Some (redact_json w)"
  by (induction v p rule: json_at.induct)
    (auto simp: open_step_def map_of_redact split: option.splits if_splits)

lemma json_at_redact_secret:
  "json_at (redact_json v) (p @ [Key k]) = Some w \<Longrightarrow> secret_key k \<Longrightarrow> w = JStr ''[redacted]''"
proof (induction v p rule: json_at.induct)
  case (1 v)
  then show ?case by (cases v) (auto simp: map_of_redact split: option.splits)
next
  case (2 m k p)
  then show ?case by (cases p; auto simp: map_of_redact split: option.splits if_splits)
qed (auto simp: map_of_redact split: option.splits if_splits)

text \<open>Whatever the shape of a response, after redaction every value under a secret-looking key,
  at any depth, is the placeholder, and a value reached through no such key keeps its place.\<close>

theorem redaction_complete:
  assumes "secret_key k" and "json_at v p = Some u" and "\<forall>st \<in> set p. open_step st"
  shows "json_at (redact_json v) p = Some (redact_json u) \<and>
    (\<forall>q w. json_at (redact_json v) (q @ [Key k]) = Some w \<longrightarrow> w = JStr ''[redacted]'')"
proof
  show "json_at (redact_json v) p = Some (redact_json u)"
    by (rule json_at_redact_open [OF assms(2,3)])
  show "\<forall>q w. json_at (redact_json v) (q @ [Key k]) = Some w \<longrightarrow> w = JStr ''[redacted]''"
    using json_at_redact_secret [of v _ k] assms(1) by blast
qed

theorem redaction_complete_witness:
  "json_at (redact_json (JObj [(''a'', JArr [JObj [(''api_key'', JNum 1)]])])) [Key ''a'', Index 0, Key ''api_key'']
    = Some (JStr ''[redacted]'')"
proof -
  let ?v = "JObj [(''a'', JArr [JObj [(''api_key'', JNum 1)]])]"
  have "secret_key ''api_key''"
    by (simp add: secret_key_def Let_def ends_with_def to_ascii_lowercase_def to_ascii_lower_char_def
      is_ascii_uppercase_def byte_def)
  then have r: "\<forall>q w. json_at (redact_json ?v) (q @ [Key ''api_key'']) = Some w \<longrightarrow> w = JStr ''[redacted]''"
    by (rule redaction_complete [OF _ json_at.simps(1), THEN conjunct2]) simp
  have "\<not> secret_key ''a''"
    by (simp add: secret_key_def Let_def ends_with_def to_ascii_lowercase_def to_ascii_lower_char_def
      is_ascii_uppercase_def byte_def secret_key_words_def starts_with_def)
  then obtain w where "json_at (redact_json ?v) ([Key ''a'', Index 0] @ [Key ''api_key'']) = Some w"
    by auto
  with r show ?thesis by fastforce
qed

text \<open>The request-header redaction lets two credentials of the console itself through to the
  audit log: a step-up token and the secret entry path are written out as they are.\<close>

theorem console_headers_not_redacted:
  "sanitize_line demo_http (''x-dn7-stepup'', ''abc'') = ''x-dn7-stepup: abc'' @ [CHR 0x0A] \<and>
   sanitize_line demo_http (''x-dn7-entry'', ''door'') = ''x-dn7-entry: door'' @ [CHR 0x0A]"
  by (simp add: sanitize_line_def header_secret_def Let_def secret_header_words_def starts_with_def
      to_ascii_lowercase_def to_ascii_lower_char_def is_ascii_uppercase_def hv_to_str_def byte_def)

end
