(* ===== verification/Edge_Model.thy ===== *)
theory Edge_Model
  imports Net_Addr
begin

text \<open>
  The edge server's types: the input contract (\<open>crates/dn7-edge/src/model.rs\<close>), the runtime
  route table and its lookups (\<open>config.rs\<close>), and responses (\<open>response.rs\<close>). \<open>ipnet::IpNet\<close> is
  the type parameter \<open>'n\<close> with the operations of \<open>net_lib\<close>; a TLS key is the type
  parameter \<open>'c\<close>.
\<close>

section \<open>Networks\<close>

record 'n net_lib =
  nl_parse :: "string \<Rightarrow> 'n option"
  nl_contains :: "'n \<Rightarrow> ip_addr \<Rightarrow> bool"
  nl_host :: "ip_addr \<Rightarrow> 'n"
  nl_prefix_len :: "'n \<Rightarrow> nat"

section \<open>Input model\<close>

record location_in =
  li_path :: string
  li_scheme :: string
  li_target :: string
  li_websockets :: bool
  li_kind :: string
  li_container :: string
  li_container_port :: int

record site_in =
  si_id :: string
  si_server_name :: string
  si_kind :: string
  si_target_url :: string
  si_container :: string
  si_container_port :: int
  si_root :: string
  si_local_root :: string
  si_ssl :: bool
  si_cert_name :: string
  si_scheme :: string
  si_cache :: bool
  si_block_attacks :: bool
  si_websockets :: bool
  si_force_ssl :: bool
  si_hsts :: bool
  si_hsts_sub :: bool
  si_trust_proxy :: bool
  si_trust_proxy_cidrs :: string
  si_locations :: "location_in list"
  si_extra_conf :: string
  si_rate_limit_rps :: nat
  si_rate_limit_burst :: nat
  si_bandwidth_kbps :: nat
  si_autoban_threshold :: nat
  si_autoban_window :: nat
  si_autoban_minutes :: nat
  si_cert_mode :: string
  si_http2 :: bool
  si_conn_per_ip :: nat
  si_ip_acl_mode :: string
  si_ip_acl_list :: string
  si_hotlink_referers :: string
  si_access_id :: string

record access_user = au_username :: string  au_hash :: string

record access_client = ac_directive :: string  ac_address :: string

record access_list =
  al_id :: string
  al_name :: string
  al_satisfy :: string
  al_pass_auth :: bool
  al_users :: "access_user list"
  al_clients :: "access_client list"

record default_site = ds_mode :: string  ds_redirect_url :: string

record http_tuning =
  ht_gzip :: bool
  ht_gzip_min_length :: nat
  ht_client_max_body_size :: string
  ht_gzip_comp_level :: nat
  ht_keepalive_timeout :: nat

definition default_site_default :: default_site where
  "default_site_default = \<lparr>ds_mode = ''404'', ds_redirect_url = []\<rparr>"

definition http_tuning_default :: http_tuning where
  "http_tuning_default = \<lparr>ht_gzip = True, ht_gzip_min_length = 20, ht_client_max_body_size = ''1024m'',
     ht_gzip_comp_level = 1, ht_keepalive_timeout = 60\<rparr>"

section \<open>Route table\<close>

datatype 'n acl_net = AclAll | AclIp ip_addr | AclNet 'n

fun acl_net_matches :: "('n, 'z) net_lib_scheme \<Rightarrow> 'n acl_net \<Rightarrow> ip_addr \<Rightarrow> bool" where
  "acl_net_matches N AclAll ip = True"
| "acl_net_matches N (AclIp a) ip = (a = ip)"
| "acl_net_matches N (AclNet n) ip = nl_contains N n ip"

record 'n acl_rule = ar_allow :: bool  ar_net :: "'n acl_net"

record 'n access_control =
  ax_satisfy_all :: bool
  ax_users :: "(string \<times> string) list"
  ax_rules :: "'n acl_rule list"
  ax_realm :: string

definition has_auth :: "'n access_control \<Rightarrow> bool" where
  "has_auth a \<longleftrightarrow> ax_users a \<noteq> []"

definition has_acl :: "'n access_control \<Rightarrow> bool" where
  "has_acl a \<longleftrightarrow> ax_rules a \<noteq> []"

record 'n trust_proxy = tp_sources :: "'n list"  tp_recursive :: bool

definition tp_trusts :: "'n net_lib \<Rightarrow> 'n trust_proxy \<Rightarrow> ip_addr \<Rightarrow> bool" where
  "tp_trusts N tp ip = list_ex (\<lambda>n. nl_contains N n ip) (tp_sources tp)"

record 'n ip_acl = ia_allow :: bool  ia_nets :: "'n acl_net list"

definition ip_acl_permits :: "'n net_lib \<Rightarrow> 'n ip_acl \<Rightarrow> ip_addr \<Rightarrow> bool" where
  "ip_acl_permits N acl ip =
     (let listed = list_ex (\<lambda>n. acl_net_matches N n ip) (ia_nets acl)
      in if ia_allow acl then listed else \<not> listed)"

record hsts = hs_max_age :: nat  hs_include_sub :: bool

definition hsts_header_value :: "hsts \<Rightarrow> string" where
  "hsts_header_value h =
     (if hs_include_sub h then ''max-age='' @ to_dec (hs_max_age h) @ ''; includeSubDomains''
      else ''max-age='' @ to_dec (hs_max_age h))"

record rate_limit =
  rl_req_per_sec :: nat
  rl_burst :: nat
  rl_bytes_per_sec :: nat
  rl_autoban_threshold :: nat
  rl_autoban_window :: nat
  rl_autoban_minutes :: nat

datatype upstream = Fixed string | Container string int

record proxy_target =
  pt_scheme :: string
  pt_upstream :: upstream
  pt_websockets :: bool
  pt_cache_assets :: bool
  pt_strip_auth :: bool

record static_root = sr_root :: string  sr_cache_assets :: bool

datatype route_kind = Proxy proxy_target | Static static_root | Maintenance

record location_route = lr_path :: string  lr_target :: proxy_target

record 'n server_route =
  rt_id :: string
  rt_server_names :: "string list"
  rt_ssl :: bool
  rt_force_ssl :: bool
  rt_hsts :: "hsts option"
  rt_block_attacks :: bool
  rt_trust_proxy :: "'n trust_proxy option"
  rt_access :: "'n access_control option"
  rt_kind :: route_kind
  rt_locations :: "location_route list"
  rt_extra_headers :: "(string \<times> string) list"
  rt_rate_limit :: "rate_limit option"
  rt_conn_per_ip :: nat
  rt_ip_acl :: "'n ip_acl option"
  rt_hotlink :: "string list option"

datatype default_route = DefNotFound | DefWelcome | DefDrop | DefRedirect string

record tuning =
  tn_gzip :: bool
  tn_gzip_min_length :: nat
  tn_gzip_comp_level :: nat
  tn_client_max_body_size :: nat
  tn_keepalive_timeout :: nat

definition tuning_default :: tuning where
  "tuning_default = \<lparr>tn_gzip = True, tn_gzip_min_length = 20, tn_gzip_comp_level = 1,
     tn_client_max_body_size = 1024 * 1024 * 1024, tn_keepalive_timeout = 60\<rparr>"

record 'c cert_store =
  cs_by_host :: "(string, 'c) hmap"
  cs_wildcards :: "(string \<times> 'c) list"
  cs_default :: "'c option"

record ('n, 'c) runtime_config =
  rc_hosts :: "(string, 'n server_route) hmap"
  rc_wildcards :: "(string \<times> 'n server_route) list"
  rc_default_site :: default_route
  rc_console_fallback :: "'n server_route option"
  rc_console_route :: "'n server_route option"
  rc_tuning :: tuning
  rc_certs :: "'c cert_store"

definition runtime_config_default :: "('n, 'c) runtime_config" where
  "runtime_config_default = \<lparr>rc_hosts = [], rc_wildcards = [], rc_default_site = DefNotFound,
     rc_console_fallback = None, rc_console_route = None, rc_tuning = tuning_default,
     rc_certs = \<lparr>cs_by_host = [], cs_wildcards = [], cs_default = None\<rparr>\<rparr>"

section \<open>Lookups\<close>

definition wildcard_matches :: "string \<Rightarrow> string \<Rightarrow> bool" where
  "wildcard_matches host suffix =
     (case strip_suffix host suffix of
        Some prefix \<Rightarrow> prefix \<noteq> [] \<and> CHR ''.'' \<notin> set prefix
      | None \<Rightarrow> False)"

text \<open>Longest matching suffix; of several, the last of the greatest.\<close>

definition best_wildcard :: "string \<Rightarrow> (string \<times> 'a) list \<Rightarrow> (string \<times> 'a) option" where
  "best_wildcard host ws =
     max_by_key (\<lambda>e. length (fst e)) (filter (\<lambda>e. wildcard_matches host (fst e)) ws)"

definition route_for :: "('n, 'c) runtime_config \<Rightarrow> string \<Rightarrow> 'n server_route option" where
  "route_for cfg host =
     (case hm_get (rc_hosts cfg) host of
        Some r \<Rightarrow> Some r
      | None \<Rightarrow>
          (case best_wildcard host (rc_wildcards cfg) of
             Some (_, r) \<Rightarrow> Some r
           | None \<Rightarrow> rc_console_fallback cfg))"

definition cert_resolve :: "'c cert_store \<Rightarrow> string option \<Rightarrow> 'c option" where
  "cert_resolve cs sni =
     (case sni of
        None \<Rightarrow> cs_default cs
      | Some s \<Rightarrow>
          (let host = to_ascii_lowercase s
           in case hm_get (cs_by_host cs) host of
                Some ck \<Rightarrow> Some ck
              | None \<Rightarrow>
                  (case best_wildcard host (cs_wildcards cs) of
                     Some (_, ck) \<Rightarrow> Some ck
                   | None \<Rightarrow> cs_default cs)))"

section \<open>Referers\<close>

definition count_char :: "char \<Rightarrow> string \<Rightarrow> nat" where
  "count_char c s = length (filter (\<lambda>x. x = c) s)"

text \<open>The host of an authority: a bracketed literal keeps its brackets, a single port is cut.\<close>

definition strip_port :: "string \<Rightarrow> string" where
  "strip_port h =
     (case strip_prefix h ''['' of
        Some rest \<Rightarrow> (case find_char CHR '']'' rest of Some e \<Rightarrow> take (e + 2) h | None \<Rightarrow> h)
      | None \<Rightarrow> if count_char CHR '':'' h = 1 then hd (split_on CHR '':'' h) else h)"

text \<open>\<open>split_once\<close> on a separator of several bytes.\<close>

fun split_once_str :: "string \<Rightarrow> string \<Rightarrow> (string \<times> string) option" where
  "split_once_str sep [] = (if sep = [] then Some ([], []) else None)"
| "split_once_str sep (c # s) =
     (case strip_prefix (c # s) sep of
        Some rest \<Rightarrow> Some ([], rest)
      | None \<Rightarrow> (case split_once_str sep s of Some (a, b) \<Rightarrow> Some (c # a, b) | None \<Rightarrow> None))"

definition referer_host :: "string \<Rightarrow> string option" where
  "referer_host referer =
     (let s = trim referer
      in if s = [] then None
         else (let after_scheme = (case split_once_str ''://'' s of Some (_, rest) \<Rightarrow> rest | None \<Rightarrow> s);
                   authority = hd (split_any [CHR ''/'', CHR ''?'', CHR ''#''] after_scheme);
                   host_port = (case rsplit_once CHR ''@'' authority of Some (_, h) \<Rightarrow> h | None \<Rightarrow> authority);
                   host = strip_port host_port
               in if host = [] then None else Some (to_ascii_lowercase host)))"

definition hotlink_permits :: "string list \<Rightarrow> string option \<Rightarrow> string \<Rightarrow> bool" where
  "hotlink_permits allowed referer host =
     (case Option.bind referer referer_host of
        None \<Rightarrow> True
      | Some ref_host \<Rightarrow>
          ref_host = host \<or>
          list_ex (\<lambda>pat. case strip_prefix pat ''.'' of
                           Some suffix \<Rightarrow> ref_host = suffix \<or> ends_with ref_host pat
                         | None \<Rightarrow> ref_host = pat) allowed)"

section \<open>Responses\<close>

datatype resp_body = BEmpty | BText string | BStream nat | BThrottled nat resp_body
  | BGuarded "nat \<times> 8 word list" resp_body

record resp =
  rs_status :: nat
  rs_headers :: header_map
  rs_body :: resp_body

definition resp_status :: "nat \<Rightarrow> resp" where
  "resp_status code = \<lparr>rs_status = code, rs_headers = [], rs_body = BEmpty\<rparr>"

definition resp_text :: "nat \<Rightarrow> string \<Rightarrow> resp" where
  "resp_text code body = \<lparr>rs_status = code,
     rs_headers = [(''content-type'', ''text/plain; charset=utf-8'')], rs_body = BText body\<rparr>"

definition resp_html :: "nat \<Rightarrow> string \<Rightarrow> resp" where
  "resp_html code body = \<lparr>rs_status = code,
     rs_headers = [(''content-type'', ''text/html; charset=utf-8'')], rs_body = BText body\<rparr>"

definition add_header :: "http_lib \<Rightarrow> string \<Rightarrow> string \<Rightarrow> resp \<Rightarrow> resp" where
  "add_header H name v r =
     (case hv_from_str H v of
        Some hv \<Rightarrow> r\<lparr>rs_headers := hd_insert name hv (rs_headers r)\<rparr>
      | None \<Rightarrow> r)"

definition resp_redirect :: "http_lib \<Rightarrow> string \<Rightarrow> resp" where
  "resp_redirect H location = add_header H ''location'' location (resp_status 301)"

definition auth_challenge :: "http_lib \<Rightarrow> string \<Rightarrow> resp" where
  "auth_challenge H realm =
     (let safe = filter (\<lambda>c. c \<noteq> CHR 0x22) realm
      in add_header H ''www-authenticate'' (''Basic realm='' @ [CHR 0x22] @ safe @ [CHR 0x22])
           (resp_text 401 ''401 Authorization Required''))"

end
