(* ===== verification/Htpasswd.thy ===== *)
theory Htpasswd
  imports Login
begin

text \<open>
  The Basic-Auth password hashes of access lists (\<open>crates/dn7-edge/src/htpasswd.rs\<close>): Apache's
  salted MD5 scheme and the check against a stored hash. MD5, SHA-1 and base64 are the fields of
  \<open>digests\<close>.
\<close>

record digests =
  dg_md5 :: "8 word list \<Rightarrow> 8 word list"
  dg_sha1 :: "8 word list \<Rightarrow> 8 word list"
  dg_b64_encode :: "8 word list \<Rightarrow> string"
  dg_b64_decode :: "string \<Rightarrow> string option"

definition APR1_ITOA64 :: string where
  "APR1_ITOA64 = ''./0123456789ABCDEFGHIJKLMNOPQRSTUVWXYZabcdefghijklmnopqrstuvwxyz''"

text \<open>\<open>rng i\<close> is the random byte drawn for position \<open>i\<close>.\<close>

definition apr1_salt :: "(nat \<Rightarrow> 8 word) \<Rightarrow> string" where
  "apr1_salt rng = map (\<lambda>i. APR1_ITOA64 ! unat (rng i AND 0x3f)) [0..<8]"

fun apr1_to64 :: "32 word \<Rightarrow> nat \<Rightarrow> string" where
  "apr1_to64 v 0 = []"
| "apr1_to64 v (Suc n) = APR1_ITOA64 ! unat (v AND 0x3f) # apr1_to64 (drop_bit 6 v) n"

text \<open>The bytes fed for the alternate digest: sixteen at a time, as many as the password is long.\<close>

function apr1_alt :: "8 word list \<Rightarrow> nat \<Rightarrow> 8 word list" where
  "apr1_alt alt pl =
     (if 0 < pl then take (if 16 < pl then 16 else pl) alt @ apr1_alt alt (pl - 16) else [])"
  by pat_completeness auto
termination by (relation "measure snd") auto

function apr1_bits :: "8 word list \<Rightarrow> nat \<Rightarrow> 8 word list" where
  "apr1_bits pw i =
     (if i \<noteq> 0 then (if odd i then [0] else take 1 pw) @ apr1_bits pw (i div 2) else [])"
  by pat_completeness auto
termination by (relation "measure snd") auto

declare apr1_alt.simps [simp del] apr1_bits.simps [simp del]

definition apr1_round :: "digests \<Rightarrow> 8 word list \<Rightarrow> 8 word list \<Rightarrow> 8 word list \<Rightarrow> nat \<Rightarrow> 8 word list" where
  "apr1_round D pw salt digest i =
     dg_md5 D ((if odd i then pw else digest) @ (if i mod 3 \<noteq> 0 then salt else []) @
       (if i mod 7 \<noteq> 0 then pw else []) @ (if odd i then digest else pw))"

definition apr1_group :: "8 word list \<Rightarrow> nat \<Rightarrow> nat \<Rightarrow> nat \<Rightarrow> 32 word" where
  "apr1_group f a b c = push_bit 16 (ucast (f ! a)) OR push_bit 8 (ucast (f ! b)) OR ucast (f ! c)"

definition apr1_with_salt :: "digests \<Rightarrow> string \<Rightarrow> string \<Rightarrow> string" where
  "apr1_with_salt D password salt_str =
     (let pw = as_bytes password; salt = as_bytes salt_str;
          alt = dg_md5 D (pw @ salt @ pw);
          first = dg_md5 D (pw @ as_bytes ''$apr1$'' @ salt @ apr1_alt alt (length pw) @
                    apr1_bits pw (length pw));
          f = foldl (apr1_round D pw salt) first [0..<1000]
      in ''$apr1$'' @ salt_str @ ''$'' @
         apr1_to64 (apr1_group f 0 6 12) 4 @ apr1_to64 (apr1_group f 1 7 13) 4 @
         apr1_to64 (apr1_group f 2 8 14) 4 @ apr1_to64 (apr1_group f 3 9 15) 4 @
         apr1_to64 (apr1_group f 4 10 5) 4 @ apr1_to64 (ucast (f ! 11)) 2)"

definition htpasswd_hash :: "digests \<Rightarrow> (nat \<Rightarrow> 8 word) \<Rightarrow> string \<Rightarrow> string" where
  "htpasswd_hash D rng password = apr1_with_salt D password (apr1_salt rng)"

definition constant_eq :: "8 word list \<Rightarrow> 8 word list \<Rightarrow> bool" where
  "constant_eq a b =
     (if length a \<noteq> length b then False
      else foldl (\<lambda>diff (x, y). diff OR (x XOR y)) 0 (zip a b) = 0)"

definition verify_htpasswd_hash :: "digests \<Rightarrow> string \<Rightarrow> string \<Rightarrow> bool" where
  "verify_htpasswd_hash D hash password =
     (case strip_prefix hash ''$apr1$'' of
        Some rest \<Rightarrow>
          (let salt = hd (split_on CHR ''$'' rest)
           in if salt = [] then False
              else constant_eq (as_bytes (apr1_with_salt D password salt)) (as_bytes hash))
      | None \<Rightarrow>
          (case strip_prefix hash ''{SHA}'' of
             Some b64 \<Rightarrow>
               constant_eq (as_bytes (dg_b64_encode D (dg_sha1 D (as_bytes password)))) (as_bytes b64)
           | None \<Rightarrow> False))"

lemma constant_eq_iff: "constant_eq a b \<longleftrightarrow> a = b"
  unfolding constant_eq_def by (rule xor_fold_eq)

lemma itoa64_no_dollar: "i < 64 \<Longrightarrow> APR1_ITOA64 ! i \<noteq> CHR ''$''"
proof -
  have "list_all (\<lambda>i. APR1_ITOA64 ! i \<noteq> CHR ''$'') [0..<64]" by code_simp
  then show "i < 64 \<Longrightarrow> ?thesis" by (auto simp: list_all_iff)
qed

lemma salt_no_dollar: "CHR ''$'' \<notin> set (apr1_salt rng)"
proof -
  have "unat (w AND 0x3f) < 64" for w :: "8 word"
  proof -
    have "w AND 0x3f \<le> 0x3f" by (rule word_and_le1)
    then have "unat (w AND 0x3f) \<le> unat (0x3f :: 8 word)" by (simp only: word_le_nat_alt)
    then show ?thesis by simp
  qed
  then show ?thesis using itoa64_no_dollar by (fastforce simp: apr1_salt_def)
qed

lemma salt_not_Nil: "apr1_salt rng \<noteq> []"
  by (simp add: apr1_salt_def)

text \<open>A stored password verifies, whatever its salt and whatever MD5 computes, and a presented
  password is accepted against it exactly when it hashes to the same string under that salt.\<close>

theorem htpasswd_roundtrip:
  "verify_htpasswd_hash D (htpasswd_hash D rng pw) pw \<and>
   (verify_htpasswd_hash D (htpasswd_hash D rng pw) pw' \<longleftrightarrow>
     apr1_with_salt D pw' (apr1_salt rng) = apr1_with_salt D pw (apr1_salt rng))"
proof -
  obtain t where h: "htpasswd_hash D rng pw = ''$apr1$'' @ apr1_salt rng @ CHR ''$'' # t"
    by (simp add: htpasswd_hash_def apr1_with_salt_def Let_def)
  have strip: "strip_prefix (htpasswd_hash D rng pw) ''$apr1$'' = Some (apr1_salt rng @ CHR ''$'' # t)"
    by (simp only: h strip_prefix_Some)
  have salt: "hd (split_on CHR ''$'' (apr1_salt rng @ CHR ''$'' # t)) = apr1_salt rng"
    by (simp add: split_on_append_sep salt_no_dollar)
  have "verify_htpasswd_hash D (htpasswd_hash D rng pw) q \<longleftrightarrow>
      apr1_with_salt D q (apr1_salt rng) = htpasswd_hash D rng pw" for q
    unfolding verify_htpasswd_hash_def strip
    by (simp add: salt Let_def salt_not_Nil constant_eq_iff as_bytes_eq)
  then show ?thesis by (simp add: htpasswd_hash_def)
qed

end
