(* ===== verification/Edge_Security.thy ===== *)
theory Edge_Security
  imports Edge_Model Htpasswd
begin

text \<open>
  Request-time access control of the edge (\<open>crates/dn7-edge/src/security.rs\<close>): the real client
  address behind trusted proxies, the exploit-pattern block, the access lists with Basic Auth,
  and the response decoration.
\<close>

section \<open>The real client address\<close>

definition parse_xff_entry :: "string \<Rightarrow> ip_addr option" where
  "parse_xff_entry raw =
     (let s = trim raw
      in if s = [] then None
         else (case parse_ip s of
           Some ip \<Rightarrow> Some (to_canonical ip)
         | None \<Rightarrow>
             (case Option.bind (strip_prefix s ''['') (\<lambda>rest.
                Option.bind (find_char CHR '']'' rest) (\<lambda>e. parse_ip (take e rest))) of
                Some ip \<Rightarrow> Some (to_canonical ip)
              | None \<Rightarrow>
                  (if count_char CHR '':'' s = 1 then
                     (case Option.bind (rsplit_once CHR '':'' s) (\<lambda>(host, port). parse_ip host) of
                        Some ip \<Rightarrow> Some (to_canonical ip)
                      | None \<Rightarrow> None)
                   else None))))"

text \<open>\<open>find_map\<close> over the chain from the right: the first hop that is not trusted.\<close>

definition xff_chain :: "http_lib \<Rightarrow> header_map \<Rightarrow> ip_addr list" where
  "xff_chain H headers =
     concat (map (\<lambda>hv. case hv_to_str H hv of
         None \<Rightarrow> []
       | Some s \<Rightarrow> List.map_filter parse_xff_entry (split_on CHR '','' s))
       (hd_get_all headers ''x-forwarded-for''))"

definition real_ip_inner :: "http_lib \<Rightarrow> 'n net_lib \<Rightarrow> ip_addr \<Rightarrow> header_map \<Rightarrow> 'n trust_proxy option \<Rightarrow> ip_addr" where
  "real_ip_inner H N peer_ip headers trust =
     (let peer = to_canonical peer_ip
      in case trust of
           None \<Rightarrow> peer
         | Some tp \<Rightarrow>
             (if \<not> tp_trusts N tp peer then peer
              else (let chain = xff_chain H headers
                    in if chain = [] then peer
                       else if tp_recursive tp then
                         (case find (\<lambda>ip. \<not> tp_trusts N tp ip) (rev chain) of
                            Some ip \<Rightarrow> ip
                          | None \<Rightarrow> hd chain)
                       else last chain)))"

definition real_ip :: "http_lib \<Rightarrow> 'n net_lib \<Rightarrow> ip_addr \<Rightarrow> header_map \<Rightarrow> 'n trust_proxy option \<Rightarrow> ip_addr" where
  "real_ip H N peer_ip headers trust = to_canonical (real_ip_inner H N peer_ip headers trust)"

section \<open>Exploit patterns\<close>

definition blocked_by_attacks :: "string \<Rightarrow> bool" where
  "blocked_by_attacks query =
     (let q = to_ascii_lowercase query;
          has_open = (str_contains q ''<'' \<or> str_contains q ''%3c'');
          has_close = (str_contains q ''>'' \<or> str_contains q ''%3e'')
      in if has_open \<and> has_close \<and> str_contains q ''script'' then True
         else if str_contains q ''globals='' \<or> str_contains q ''globals['' \<or> str_contains q ''globals%'' then True
         else if str_contains q ''_request='' \<or> str_contains q ''_request['' \<or> str_contains q ''_request%'' then True
         else if str_contains q ''proc/self/environ'' then True
         else if str_contains q ''base64_encode('' \<or> str_contains q ''base64_decode('' then True
         else False)"

section \<open>Access lists\<close>

text \<open>\<open>splitn(2, ' ')\<close> and the Basic credentials of a request.\<close>

definition parse_basic_auth :: "http_lib \<Rightarrow> digests \<Rightarrow> header_map \<Rightarrow> (string \<times> string) option" where
  "parse_basic_auth H D headers =
     Option.bind (hd_get_str H headers ''authorization'') (\<lambda>value.
       let (scheme, rest) = (case split_once CHR '' '' value of Some (a, b) \<Rightarrow> (a, Some b) | None \<Rightarrow> (value, None))
       in if \<not> eq_ignore_ascii_case scheme ''basic'' then None
          else Option.bind rest (\<lambda>b.
            Option.bind (dg_b64_decode D (trim b)) (\<lambda>bytes.
              Option.bind (from_utf8 bytes) (\<lambda>decoded. split_once CHR '':'' decoded))))"

definition auth_allowed :: "http_lib \<Rightarrow> digests \<Rightarrow> 'n access_control \<Rightarrow> header_map \<Rightarrow> bool" where
  "auth_allowed H D access headers =
     (case parse_basic_auth H D headers of
        None \<Rightarrow> False
      | Some (user, pass) \<Rightarrow>
          (case find (\<lambda>(u, _). u = user) (ax_users access) of
             Some (_, hash) \<Rightarrow> verify_htpasswd_hash D hash pass
           | None \<Rightarrow> False))"

fun acl_verdict :: "'n net_lib \<Rightarrow> 'n acl_rule list \<Rightarrow> ip_addr \<Rightarrow> bool" where
  "acl_verdict N [] ip = True"
| "acl_verdict N (rule # rules) ip =
     (if acl_net_matches N (ar_net rule) ip then ar_allow rule else acl_verdict N rules ip)"

definition ip_allowed :: "'n net_lib \<Rightarrow> 'n access_control \<Rightarrow> ip_addr \<Rightarrow> bool" where
  "ip_allowed N access ip = (if \<not> has_acl access then True else acl_verdict N (ax_rules access) ip)"

definition check_access :: "http_lib \<Rightarrow> digests \<Rightarrow> 'n net_lib \<Rightarrow> 'n access_control option \<Rightarrow> header_map \<Rightarrow>
    ip_addr \<Rightarrow> resp option" where
  "check_access H D N acc headers ip =
     (case acc of
        None \<Rightarrow> None
      | Some access \<Rightarrow>
          (if \<not> has_acl access \<and> \<not> has_auth access then None
           else (let ip_pass = (has_acl access \<and> ip_allowed N access ip);
                     auth_pass = (has_auth access \<and> auth_allowed H D access headers);
                     granted = (if ax_satisfy_all access
                       then (\<not> has_acl access \<or> ip_pass) \<and> (\<not> has_auth access \<or> auth_pass)
                       else ip_pass \<or> auth_pass)
                 in if granted then None
                    else if ax_satisfy_all access then
                      (if has_acl access \<and> \<not> ip_pass then Some (resp_status 403)
                       else Some (auth_challenge H (ax_realm access)))
                    else if has_auth access then Some (auth_challenge H (ax_realm access))
                    else Some (resp_status 403))))"

section \<open>Decoration\<close>

definition add_extra :: "http_lib \<Rightarrow> header_map \<Rightarrow> string \<times> string \<Rightarrow> header_map" where
  "add_extra H headers e =
     (case hl_name H (fst e) of
        None \<Rightarrow> headers
      | Some hname \<Rightarrow>
          (if hd_contains headers hname then headers
           else (case hv_from_str H (snd e) of
                   None \<Rightarrow> headers
                 | Some hvalue \<Rightarrow> hd_insert hname hvalue headers)))"

definition decorate :: "http_lib \<Rightarrow> 'n server_route \<Rightarrow> bool \<Rightarrow> resp \<Rightarrow> resp" where
  "decorate H route tls r =
     (let h1 = (case (tls, rt_hsts route) of
            (True, Some hs) \<Rightarrow>
              (if hd_contains (rs_headers r) ''strict-transport-security'' then rs_headers r
               else (case hv_from_str H (hsts_header_value hs) of
                       Some v \<Rightarrow> hd_insert ''strict-transport-security'' v (rs_headers r)
                     | None \<Rightarrow> rs_headers r))
          | _ \<Rightarrow> rs_headers r)
      in r\<lparr>rs_headers := foldl (add_extra H) h1 (rt_extra_headers route)\<rparr>)"

section \<open>Properties\<close>

lemma real_ip_canonical: "to_canonical (real_ip H N p h tr) = real_ip H N p h tr"
  by (simp add: real_ip_def)

text \<open>C31: the address the gates judge is canonical (an IPv4 rule cannot be sidestepped in an
  IPv6-mapped form), it depends on forwarded headers only when the peer is a trusted source, and
  with the recursive walk it is the nearest hop that no trusted proxy vouches for.\<close>

theorem real_ip_trust:
  "to_canonical (real_ip H N p h tr) = real_ip H N p h tr \<and>
   (real_ip H N p h tr \<noteq> real_ip H N p h' tr \<longrightarrow> (\<exists>tp. tr = Some tp \<and> tp_trusts N tp (to_canonical p))) \<and>
   (\<forall>tp xs ip ys. tr = Some tp \<longrightarrow> tp_recursive tp \<longrightarrow> tp_trusts N tp (to_canonical p) \<longrightarrow>
      xff_chain H h = xs @ ip # ys \<longrightarrow> \<not> tp_trusts N tp ip \<longrightarrow> (\<forall>y \<in> set ys. tp_trusts N tp y) \<longrightarrow>
      real_ip H N p h tr = to_canonical ip)"
proof (intro conjI impI allI)
  show "to_canonical (real_ip H N p h tr) = real_ip H N p h tr" by (rule real_ip_canonical)
  show "\<exists>tp. tr = Some tp \<and> tp_trusts N tp (to_canonical p)"
    if "real_ip H N p h tr \<noteq> real_ip H N p h' tr"
    using that by (auto simp: real_ip_def real_ip_inner_def Let_def split: option.splits if_splits)
  fix tp xs ip ys
  assume "tr = Some tp" "tp_recursive tp" "tp_trusts N tp (to_canonical p)"
    and chain: "xff_chain H h = xs @ ip # ys" and ip: "\<not> tp_trusts N tp ip"
    and ys: "\<forall>y \<in> set ys. tp_trusts N tp y"
  moreover have "find (\<lambda>ip. \<not> tp_trusts N tp ip) (rev ys @ ip # rev xs) = Some ip"
  proof -
    have "find (\<lambda>ip. \<not> tp_trusts N tp ip) (zs @ ip # rev xs) = Some ip"
      if "\<forall>z \<in> set zs. tp_trusts N tp z" for zs
      using that ip by (induction zs) auto
    with ys show ?thesis by simp
  qed
  ultimately show "real_ip H N p h tr = to_canonical ip"
    by (simp add: real_ip_def real_ip_inner_def Let_def)
qed

text \<open>A network library for evaluation: a network is a pair of address and prefix length, and only
  equal addresses match.\<close>

definition demo_nets :: "(ip_addr \<times> nat) net_lib" where
  "demo_nets = \<lparr>nl_parse = (\<lambda>s. None), nl_contains = (\<lambda>n ip. fst n = ip \<or> snd n = 0),
     nl_host = (\<lambda>ip. (ip, 32)), nl_prefix_len = snd\<rparr>"

theorem real_ip_trust_witness:
  "real_ip demo_http demo_nets (V4 1) [(''x-forwarded-for'', ''1.2.3.4'')]
     (Some \<lparr>tp_sources = [(V4 1, 32)], tp_recursive = True\<rparr>) = V4 0x01020304"
proof -
  let ?tp = "\<lparr>tp_sources = [(V4 1, 32)], tp_recursive = True\<rparr>"
  have t: "trim ''1.2.3.4'' = ''1.2.3.4''"
    by (rule trim_plain) (simp_all add: plain_char_def ws1_def ws2_def ws3_def)
  have chain: "xff_chain demo_http [(''x-forwarded-for'', ''1.2.3.4'')] = [] @ V4 0x01020304 # []"
    by (simp add: xff_chain_def hd_get_all_def hv_to_str_def List.map_filter_def parse_xff_entry_def t
        Let_def addr_eval)
  have "tp_trusts demo_nets ?tp (to_canonical (V4 1))" "\<not> tp_trusts demo_nets ?tp (V4 0x01020304)"
    by (simp_all add: tp_trusts_def demo_nets_def)
  with chain show ?thesis
    using real_ip_trust [THEN conjunct2, THEN conjunct2, rule_format, of "Some ?tp" ?tp demo_nets "V4 1"
        demo_http "[(''x-forwarded-for'', ''1.2.3.4'')]" "[]" "V4 0x01020304" "[]"] by simp
qed

text \<open>A request passes an access list exactly when the configured factors are met: all of them
  under \<open>satisfy all\<close>, one of the configured ones under \<open>satisfy any\<close> (an absent factor never
  counts as a pass unless both are absent); a refusal is a 401 challenge only when a password
  could still help, and 403 otherwise.\<close>

theorem check_access_decision:
  "(check_access H D N (Some a) h ip = None \<longleftrightarrow>
     (\<not> has_acl a \<and> \<not> has_auth a) \<or>
     (if ax_satisfy_all a
      then (has_acl a \<longrightarrow> ip_allowed N a ip) \<and> (has_auth a \<longrightarrow> auth_allowed H D a h)
      else (has_acl a \<and> ip_allowed N a ip) \<or> (has_auth a \<and> auth_allowed H D a h))) \<and>
   (\<forall>r. check_access H D N (Some a) h ip = Some r \<longrightarrow>
      rs_status r = (if has_auth a \<and> (ax_satisfy_all a \<longrightarrow> has_acl a \<longrightarrow> ip_allowed N a ip) then 401 else 403))"
proof -
  have st: "rs_status (auth_challenge H realm) = 401" "rs_status (resp_status 403) = 403" for realm
    by (auto simp: auth_challenge_def Let_def add_header_def resp_text_def resp_status_def split: option.splits)
  show ?thesis
    by (cases "has_acl a"; cases "has_auth a"; cases "ax_satisfy_all a"; cases "ip_allowed N a ip";
        cases "auth_allowed H D a h")
      (simp_all add: check_access_def Let_def st)
qed

theorem check_access_decision_witness:
  "check_access demo_http \<lparr>dg_md5 = id, dg_sha1 = id, dg_b64_encode = (\<lambda>_. []), dg_b64_decode = (\<lambda>_. None)\<rparr>
     demo_nets (Some \<lparr>ax_satisfy_all = False, ax_users = [], ax_rules = [\<lparr>ar_allow = False, ar_net = AclAll\<rparr>],
       ax_realm = ''r''\<rparr>) [] (V4 1) \<noteq> None"
  using check_access_decision [of demo_http
      "\<lparr>dg_md5 = id, dg_sha1 = id, dg_b64_encode = (\<lambda>_. []), dg_b64_decode = (\<lambda>_. None)\<rparr>" demo_nets
      "\<lparr>ax_satisfy_all = False, ax_users = [], ax_rules = [\<lparr>ar_allow = False, ar_net = AclAll\<rparr>], ax_realm = ''r''\<rparr>"
      "[]" "V4 1"]
  by (simp add: has_acl_def has_auth_def ip_allowed_def)

end
