(* ===== verification/Edge_Limits.thy ===== *)
theory Edge_Limits
  imports Complex_Main Edge_Model
begin

text \<open>
  The per-client trackers of the edge: the token bucket with its auto-ban
  (\<open>crates/dn7-edge/src/limit.rs\<close>) and the count of requests in flight (\<open>conn_limit.rs\<close>). Both
  are keyed by route and client address. The bucket's \<open>f64\<close> is a rational number here: rounding
  is not modelled. The standard hasher of the route id is the parameter \<open>rhash\<close>.
\<close>

section \<open>Keys\<close>

type_synonym limit_key = "nat \<times> 8 word list"

definition limit_key :: "(string \<Rightarrow> nat) \<Rightarrow> string \<Rightarrow> ip_addr \<Rightarrow> limit_key" where
  "limit_key rhash rid ip =
     (rhash rid, (case ip of
        V4 a \<Rightarrow> replicate 12 0 @ octets4 a
      | V6 a \<Rightarrow> take 8 (octets6 a) @ replicate 8 0))"

section \<open>The token bucket\<close>

datatype verdict_l = Allow | RateLimited_l | Banned

record bucket =
  bk_tokens :: rat
  bk_last :: instant
  bk_violations :: nat
  bk_vwindow :: instant
  bk_banned_until :: "instant option"

type_synonym limit_table = "(limit_key, bucket) hmap"

definition secs_f64 :: "duration \<Rightarrow> rat" where
  "secs_f64 d = of_nat d / 1000000000"

text \<open>The sum of the two \<open>u32\<close> knobs wraps (release profile).\<close>

definition limit_cap :: "rate_limit \<Rightarrow> rat" where
  "limit_cap rl = of_nat ((rl_req_per_sec rl + rl_burst rl) mod 2 ^ 32)"

definition record_violation :: "bucket \<Rightarrow> instant \<Rightarrow> rate_limit \<Rightarrow> bucket \<times> bool" where
  "record_violation st now rl =
     (if rl_autoban_threshold rl = 0 then (st, False)
      else (let window = from_secs (max (rl_autoban_window rl) 1);
                st1 = (if window < duration_since now (bk_vwindow st)
                       then st\<lparr>bk_violations := 1, bk_vwindow := now\<rparr>
                       else st\<lparr>bk_violations := bk_violations st + 1\<rparr>)
            in if rl_autoban_threshold rl \<le> bk_violations st1
               then (st1\<lparr>bk_banned_until := Some (now + from_secs (max (rl_autoban_minutes rl) 1 * 60))\<rparr>, True)
               else (st1, False)))"

definition bucket_refill :: "bucket \<Rightarrow> instant \<Rightarrow> rate_limit \<Rightarrow> bucket" where
  "bucket_refill st now rl =
     st\<lparr>bk_tokens := min (bk_tokens st + secs_f64 (duration_since now (bk_last st)) * of_nat (rl_req_per_sec rl))
          (limit_cap rl),
        bk_last := now\<rparr>"

definition bucket_take :: "bucket \<Rightarrow> instant \<Rightarrow> rate_limit \<Rightarrow> bucket \<times> verdict_l" where
  "bucket_take st now rl =
     (let st1 = bucket_refill st now rl
      in if 1 \<le> bk_tokens st1 then (st1\<lparr>bk_tokens := bk_tokens st1 - 1\<rparr>, Allow)
         else (let (st2, banned) = record_violation st1 now rl
               in (st2, if banned then Banned else RateLimited_l)))"

definition bucket_check :: "bucket \<Rightarrow> instant \<Rightarrow> rate_limit \<Rightarrow> bucket \<times> verdict_l" where
  "bucket_check st now rl =
     (case bk_banned_until st of
        Some u \<Rightarrow>
          (if now < u then (st, Banned)
           else bucket_take (st\<lparr>bk_banned_until := None, bk_violations := 0,
                  bk_tokens := limit_cap rl, bk_last := now\<rparr>) now rl)
      | None \<Rightarrow> bucket_take st now rl)"

definition bucket_new :: "instant \<Rightarrow> rate_limit \<Rightarrow> bucket" where
  "bucket_new now rl = \<lparr>bk_tokens = limit_cap rl, bk_last = now, bk_violations = 0, bk_vwindow = now,
     bk_banned_until = None\<rparr>"

definition limit_entry :: "limit_table \<Rightarrow> limit_key \<Rightarrow> instant \<Rightarrow> rate_limit \<Rightarrow> bucket" where
  "limit_entry t k now rl = (case hm_get t k of Some st \<Rightarrow> st | None \<Rightarrow> bucket_new now rl)"

definition limit_check :: "(string \<Rightarrow> nat) \<Rightarrow> string \<Rightarrow> ip_addr \<Rightarrow> rate_limit \<Rightarrow> instant \<Rightarrow> limit_table \<Rightarrow>
    limit_table \<times> verdict_l" where
  "limit_check rhash rid ip rl now t =
     (if rl_req_per_sec rl = 0 then (t, Allow)
      else (let k = limit_key rhash rid ip;
                (st, v) = bucket_check (limit_entry t k now rl) now rl
            in (hm_insert k st t, v)))"

text \<open>One tick of the sweeper.\<close>

definition limit_sweep :: "instant \<Rightarrow> limit_table \<Rightarrow> limit_table" where
  "limit_sweep now t =
     hm_retain (\<lambda>_ st. (case bk_banned_until st of Some u \<Rightarrow> now < u | None \<Rightarrow> False) \<or>
       duration_since now (bk_last st) < from_secs 300) t"

section \<open>Runs of one route\<close>

datatype limit_op = Check instant ip_addr | Sweep instant

fun lop_time :: "limit_op \<Rightarrow> instant" where
  "lop_time (Check t _) = t"
| "lop_time (Sweep t) = t"

fun limit_run :: "(string \<Rightarrow> nat) \<Rightarrow> string \<Rightarrow> rate_limit \<Rightarrow> limit_table \<Rightarrow> limit_op list \<Rightarrow>
    (ip_addr \<times> verdict_l) list" where
  "limit_run rhash rid rl t [] = []"
| "limit_run rhash rid rl t (Check now ip # xs) =
     (ip, snd (limit_check rhash rid ip rl now t)) # limit_run rhash rid rl (fst (limit_check rhash rid ip rl now t)) xs"
| "limit_run rhash rid rl t (Sweep now # xs) = limit_run rhash rid rl (limit_sweep now t) xs"

definition allows :: "(string \<Rightarrow> nat) \<Rightarrow> string \<Rightarrow> limit_key \<Rightarrow> ip_addr \<times> verdict_l \<Rightarrow> bool" where
  "allows rhash rid k e \<longleftrightarrow> limit_key rhash rid (fst e) = k \<and> snd e = Allow"

text \<open>What the bucket of a key is worth at a time, and the invariant of a table without bans.\<close>

definition credit :: "rate_limit \<Rightarrow> limit_table \<Rightarrow> limit_key \<Rightarrow> instant \<Rightarrow> rat" where
  "credit rl t k now = bk_tokens (bucket_refill (limit_entry t k now rl) now rl)"

definition unbanned :: "limit_table \<Rightarrow> instant \<Rightarrow> bool" where
  "unbanned t now \<longleftrightarrow> hm_ok t \<and>
     (\<forall>k st. hm_get t k = Some st \<longrightarrow> bk_banned_until st = None \<and> bk_last st \<le> now \<and> 0 \<le> bk_tokens st)"

lemma unbanned_ok: "unbanned t now \<Longrightarrow> hm_ok t"
  by (simp add: unbanned_def)

lemma unbanned_get:
  assumes "unbanned t now" and "hm_get t k = Some st"
  shows "bk_banned_until st = None" and "bk_last st \<le> now" and "0 \<le> bk_tokens st"
  using assms unfolding unbanned_def by blast+

lemma unbannedI:
  assumes "hm_ok t"
    and "\<And>k st. hm_get t k = Some st \<Longrightarrow> bk_banned_until st = None \<and> bk_last st \<le> now \<and> 0 \<le> bk_tokens st"
  shows "unbanned t now"
  using assms unfolding unbanned_def by blast

lemma limit_cap_nonneg: "0 \<le> limit_cap rl"
  by (simp add: limit_cap_def)

lemma secs_f64_nonneg: "0 \<le> secs_f64 d"
  by (simp add: secs_f64_def)

lemma secs_f64_add: "secs_f64 (a + b) = secs_f64 a + secs_f64 b"
  by (simp add: secs_f64_def add_divide_distrib)

lemma record_violation_off:
  "rl_autoban_threshold rl = 0 \<Longrightarrow> record_violation st now rl = (st, False)"
  by (simp add: record_violation_def)

lemma bucket_check_unbanned:
  assumes "rl_autoban_threshold rl = 0" and "bk_banned_until st = None"
  shows "bucket_check st now rl =
    (let st1 = bucket_refill st now rl
     in if 1 \<le> bk_tokens st1 then (st1\<lparr>bk_tokens := bk_tokens st1 - 1\<rparr>, Allow) else (st1, RateLimited_l))"
  using assms by (simp add: bucket_check_def bucket_take_def record_violation_off Let_def)

definition rps :: "rate_limit \<Rightarrow> rat" where
  "rps rl = of_nat (rl_req_per_sec rl)"

lemma credit_Some: "hm_get t k = Some st \<Longrightarrow>
    credit rl t k now = min (bk_tokens st + secs_f64 (now - bk_last st) * rps rl) (limit_cap rl)"
  by (simp add: credit_def limit_entry_def bucket_refill_def duration_since_def rps_def)

lemma credit_None: "hm_get t k = None \<Longrightarrow> credit rl t k now = limit_cap rl"
  by (simp add: credit_def limit_entry_def bucket_refill_def duration_since_def bucket_new_def secs_f64_def)

lemma rps_nonneg: "0 \<le> rps rl"
  by (simp add: rps_def)

lemma refill_nonneg: "0 \<le> secs_f64 d * rps rl"
  by (simp add: secs_f64_nonneg rps_nonneg)

lemma credit_nonneg: "unbanned t now \<Longrightarrow> 0 \<le> credit rl t k now"
  using refill_nonneg limit_cap_nonneg [of rl]
  by (cases "hm_get t k") (auto simp: credit_Some credit_None dest: unbanned_get(3) intro!: add_nonneg_nonneg)

lemma credit_later:
  assumes "unbanned t now" and "now \<le> now'"
  shows "credit rl t k now' \<le> credit rl t k now + secs_f64 (now' - now) * rps rl"
proof (cases "hm_get t k")
  case None
  then show ?thesis using refill_nonneg [of "now' - now" rl] by (simp add: credit_None)
next
  case (Some st)
  from unbanned_get(2) [OF assms(1) this] have "bk_last st \<le> now" .
  with assms(2) have "now' - bk_last st = (now - bk_last st) + (now' - now)" by simp
  then have "secs_f64 (now' - bk_last st) * rps rl =
      secs_f64 (now - bk_last st) * rps rl + secs_f64 (now' - now) * rps rl"
    by (simp add: secs_f64_add ring_distribs)
  then show ?thesis using Some refill_nonneg [of "now' - now" rl] by (simp add: credit_Some min_def)
qed

lemma unbanned_later: "unbanned t now \<Longrightarrow> now \<le> now' \<Longrightarrow> unbanned t now'"
  by (rule unbannedI) (auto simp: unbanned_ok dest: unbanned_get)

text \<open>One check spends a unit of its own key's credit exactly when it allows.\<close>

lemma limit_check_credit:
  assumes off: "rl_autoban_threshold rl = 0" and un: "unbanned t now" and r: "0 < rl_req_per_sec rl"
    and c: "limit_check rhash rid ip rl now t = (t', v)"
  shows "unbanned t' now \<and>
    credit rl t' k now = credit rl t k now - (if allows rhash rid k (ip, v) then 1 else 0)"
proof -
  let ?j = "limit_key rhash rid ip"
  let ?st = "limit_entry t ?j now rl"
  let ?r = "bucket_refill ?st now rl"
  have ban: "bk_banned_until ?st = None"
    using un by (cases "hm_get t ?j") (auto simp: limit_entry_def bucket_new_def dest: unbanned_get)
  have tok: "bk_tokens ?r = credit rl t ?j now" by (simp add: credit_def)
  have cap: "credit rl t ?j now \<le> limit_cap rl" by (simp add: credit_def bucket_refill_def)
  have last: "bk_last ?r = now" "bk_banned_until ?r = None" using ban by (simp_all add: bucket_refill_def)
  obtain st' where t': "t' = hm_insert ?j st' t" and st': "bk_last st' = now" "bk_banned_until st' = None"
    "bk_tokens st' = credit rl t ?j now - (if v = Allow then 1 else 0)"
    and v: "v = Allow \<longleftrightarrow> 1 \<le> credit rl t ?j now"
    using c r ban tok last
    by (auto simp: limit_check_def Let_def bucket_check_unbanned [OF off ban] split: if_splits)
  have nn: "0 \<le> bk_tokens st'" using st'(3) v credit_nonneg [OF un, of rl ?j] by auto
  have "unbanned t' now"
  proof (rule unbannedI)
    show "hm_ok t'" using unbanned_ok [OF un] by (simp add: t' hm_ok_insert)
    fix i b
    assume "hm_get t' i = Some b"
    with un st' nn show "bk_banned_until b = None \<and> bk_last b \<le> now \<and> 0 \<le> bk_tokens b"
      by (auto simp: t' hm_get_insert dest: unbanned_get split: if_splits)
  qed
  moreover have "credit rl t' k now = credit rl t k now - (if allows rhash rid k (ip, v) then 1 else 0)"
  proof (cases "k = ?j")
    case True
    have "credit rl t' ?j now = min (bk_tokens st') (limit_cap rl)"
      using st'(1) by (simp add: credit_Some t' hm_get_insert secs_f64_def)
    with True st'(3) cap show ?thesis by (auto simp: allows_def min_def)
  next
    case False
    then have "hm_get t' k = hm_get t k" by (simp add: t' hm_get_insert)
    then have "credit rl t' k now = credit rl t k now" by (simp add: credit_def limit_entry_def)
    with False show ?thesis by (auto simp: allows_def)
  qed
  ultimately show ?thesis by blast
qed

text \<open>Forgetting an idle key does not help it while the burst refills within the idle time.\<close>

lemma limit_sweep_credit:
  assumes un: "unbanned t now" and cap: "limit_cap rl \<le> 300 * rps rl"
  shows "unbanned (limit_sweep now t) now \<and> credit rl (limit_sweep now t) k now = credit rl t k now"
proof -
  let ?P = "\<lambda>(_ :: limit_key) st. (case bk_banned_until st of Some u \<Rightarrow> now < u | None \<Rightarrow> False) \<or>
       duration_since now (bk_last st) < from_secs 300"
  have ok: "hm_ok t" using un by (simp add: unbanned_def)
  have get: "hm_get (limit_sweep now t) k = (case hm_get t k of None \<Rightarrow> None | Some v \<Rightarrow> if ?P k v then Some v else None)"
    for k unfolding limit_sweep_def by (rule hm_get_retain [OF ok])
  have "unbanned (limit_sweep now t) now"
  proof (rule unbannedI)
    show "hm_ok (limit_sweep now t)" unfolding limit_sweep_def by (rule hm_ok_retain [OF ok])
    fix i b
    assume "hm_get (limit_sweep now t) i = Some b"
    then have "hm_get t i = Some b" by (auto simp: get split: option.splits if_splits)
    with un show "bk_banned_until b = None \<and> bk_last b \<le> now \<and> 0 \<le> bk_tokens b"
      by (blast dest: unbanned_get)
  qed
  moreover have "credit rl (limit_sweep now t) k now = credit rl t k now"
  proof (cases "hm_get t k")
    case None
    then show ?thesis by (simp add: get credit_None)
  next
    case (Some st)
    show ?thesis
    proof (cases "?P k st")
      case True
      with Some have "hm_get (limit_sweep now t) k = Some st" by (simp add: get)
      with Some show ?thesis by (simp add: credit_Some)
    next
      case False
      from unbanned_get(3) [OF un Some] have nn: "0 \<le> bk_tokens st" .
      from False have "from_secs 300 \<le> now - bk_last st" by (simp add: duration_since_def)
      then have "(of_nat (300 * 1000000000) :: rat) \<le> of_nat (now - bk_last st)"
        unfolding from_secs_def by (simp only: of_nat_le_iff)
      then have "300 \<le> secs_f64 (now - bk_last st)" by (simp add: secs_f64_def field_simps)
      then have "300 * rps rl \<le> secs_f64 (now - bk_last st) * rps rl"
        by (rule mult_right_mono [OF _ rps_nonneg])
      with cap nn have "limit_cap rl \<le> bk_tokens st + secs_f64 (now - bk_last st) * rps rl" by simp
      with Some False show ?thesis by (simp add: get credit_None credit_Some min_absorb2)
    qed
  qed
  ultimately show ?thesis by blast
qed

lemma limit_run_credit:
  assumes off: "rl_autoban_threshold rl = 0" and r: "0 < rl_req_per_sec rl"
    and cap: "limit_cap rl \<le> 300 * rps rl"
  shows "unbanned t now \<Longrightarrow> sorted (now # map lop_time xs @ [stop]) \<Longrightarrow>
    of_nat (count_if (allows rhash rid k) (limit_run rhash rid rl t xs))
      \<le> credit rl t k now + secs_f64 (stop - now) * rps rl"
proof (induction xs arbitrary: t now)
  case Nil
  then show ?case using credit_nonneg refill_nonneg by (simp add: add_nonneg_nonneg)
next
  case (Cons x xs)
  let ?t = "lop_time x"
  from Cons.prems(2) have le: "now \<le> ?t" "?t \<le> stop" and srt: "sorted (?t # map lop_time xs @ [stop])"
    by (auto simp: sorted_append)
  have un: "unbanned t ?t" by (rule unbanned_later [OF Cons.prems(1) le(1)])
  have later: "credit rl t k ?t \<le> credit rl t k now + secs_f64 (?t - now) * rps rl"
    by (rule credit_later [OF Cons.prems(1) le(1)])
  have split: "secs_f64 (stop - now) * rps rl = secs_f64 (?t - now) * rps rl + secs_f64 (stop - ?t) * rps rl"
    using le secs_f64_add [of "?t - now" "stop - ?t"] by (simp add: ring_distribs)
  show ?case
  proof (cases x)
    case (Check u ip)
    obtain t' v where c: "limit_check rhash rid ip rl u t = (t', v)" by fastforce
    from limit_check_credit [OF off _ r c, of k] un Check
    have s: "unbanned t' u" "credit rl t' k u = credit rl t k u - (if allows rhash rid k (ip, v) then 1 else 0)"
      by auto
    with Cons.IH [of t' u] srt later split Check c show ?thesis by (auto simp: algebra_simps)
  next
    case (Sweep u)
    from limit_sweep_credit [OF _ cap, of t u k] un Sweep
    have s: "unbanned (limit_sweep u t) u" "credit rl (limit_sweep u t) k u = credit rl t k u" by auto
    with Cons.IH [of "limit_sweep u t" u] srt later split Sweep show ?thesis by (simp add: algebra_simps)
  qed
qed

text \<open>While a ban stands, every check of its key is refused and leaves the ban in place.\<close>

lemma banned_check:
  assumes "hm_get t k = Some st" and "bk_banned_until st = Some u" and "now < u"
    and "0 < rl_req_per_sec rl" and "limit_check rhash rid ip rl now t = (t', v)"
  shows "hm_get t' k = Some st \<and> (limit_key rhash rid ip = k \<longrightarrow> v = Banned)"
  using assms
  by (auto simp: limit_check_def limit_entry_def bucket_check_def Let_def hm_get_insert
      split: prod.splits if_splits)

lemma banned_sweep:
  assumes "hm_ok t" and "hm_get t k = Some st" and "bk_banned_until st = Some u" and "now < u"
  shows "hm_get (limit_sweep now t) k = Some st"
  using assms by (simp add: limit_sweep_def hm_get_retain)

lemma limit_check_ok: "hm_ok t \<Longrightarrow> hm_ok (fst (limit_check rhash rid ip rl now t))"
  by (auto simp: limit_check_def Let_def case_prod_beta intro: hm_ok_intros)

lemma limit_sweep_ok: "hm_ok t \<Longrightarrow> hm_ok (limit_sweep now t)"
  by (simp add: limit_sweep_def hm_ok_retain)

section \<open>Properties of the rate limit\<close>

lemma unbanned_empty: "unbanned [] now"
  by (simp add: unbanned_def hm_simps)


definition demo_rl :: "nat \<Rightarrow> rate_limit" where
  "demo_rl threshold = \<lparr>rl_req_per_sec = 1, rl_burst = 0, rl_bytes_per_sec = 0,
     rl_autoban_threshold = threshold, rl_autoban_window = 10, rl_autoban_minutes = 1\<rparr>"


text \<open>A ban holds: from the moment it is set until it expires, every request of the client to
  the route is refused as banned, whatever other clients do and however often idle entries are
  swept.\<close>

theorem ban_holds:
  assumes "0 < rl_req_per_sec rl" and "hm_ok t" and "hm_get t k = Some st"
    and "bk_banned_until st = Some u" and "\<forall>x \<in> set xs. lop_time x < u"
  shows "\<forall>e \<in> set (limit_run rhash rid rl t xs). limit_key rhash rid (fst e) = k \<longrightarrow> snd e = Banned"
  using assms(2,3,5)
proof (induction xs arbitrary: t)
  case Nil
  then show ?case by simp
next
  case (Cons x xs)
  show ?case
  proof (cases x)
    case (Check now ip)
    obtain t' v where c: "limit_check rhash rid ip rl now t = (t', v)" by fastforce
    have "hm_get t' k = Some st" "limit_key rhash rid ip = k \<longrightarrow> v = Banned"
      using banned_check [OF Cons.prems(2) assms(4) _ assms(1) c] Cons.prems(3) Check by auto
    moreover have "hm_ok t'" using limit_check_ok [OF Cons.prems(1), of rhash rid ip rl now] c by simp
    ultimately show ?thesis using Cons.IH [of t'] Cons.prems(3) Check c by auto
  next
    case (Sweep now)
    with Cons.prems(3) have "hm_get (limit_sweep now t) k = Some st"
      by (intro banned_sweep [OF Cons.prems(1,2) assms(4)]) simp
    with Cons.IH [OF limit_sweep_ok [OF Cons.prems(1)]] Cons.prems(3) Sweep show ?thesis by simp
  qed
qed

theorem ban_holds_witness:
  "map snd (limit_run (\<lambda>_. 0) ''s'' (demo_rl 1)
      [(limit_key (\<lambda>_. 0) ''s'' (V4 1), (bucket_new 0 (demo_rl 1))\<lparr>bk_banned_until := Some 9\<rparr>)]
      [Check 1 (V4 1), Sweep 2, Check 3 (V4 1)]) = [Banned, Banned]"
proof -
  let ?k = "limit_key (\<lambda>_. 0) ''s'' (V4 1)"
  let ?xs = "limit_run (\<lambda>_. 0) ''s'' (demo_rl 1) [(?k, (bucket_new 0 (demo_rl 1))\<lparr>bk_banned_until := Some 9\<rparr>)]
    [Check 1 (V4 1), Sweep 2, Check 3 (V4 1)]"
  have "\<forall>e \<in> set ?xs. limit_key (\<lambda>_. 0) ''s'' (fst e) = ?k \<longrightarrow> snd e = Banned"
    by (rule ban_holds [where u = 9 and st = "(bucket_new 0 (demo_rl 1))\<lparr>bk_banned_until := Some 9\<rparr>"])
      (simp_all add: demo_rl_def hm_ok_def hm_get_def bucket_new_def)
  then show ?thesis by simp
qed

text \<open>The violation window does not slide. With a threshold of three violations in ten
  seconds, three violations within half a second do not ban when they straddle the end of the
  window that began with the client's first request.\<close>

lemma secs_demo: "secs_f64 (n * 100000000) = of_nat n / 10"
  by (simp add: secs_f64_def)

theorem violation_window_tumbles:
  "map snd (limit_run (\<lambda>_. 0) ''s'' (demo_rl 3) []
     (map (\<lambda>n. Check (n * 100000000) (V4 1)) [0, 95, 96, 97, 101]))
   = [Allow, Allow, RateLimited_l, RateLimited_l, RateLimited_l]"
  by (simp add: limit_check_def Let_def limit_entry_def bucket_check_def bucket_take_def bucket_refill_def
      bucket_new_def record_violation_def hm_get_insert hm_get_Nil demo_rl_def limit_cap_def secs_f64_def
      duration_since_def from_secs_def)

section \<open>Requests in flight\<close>

type_synonym conn_table = "(limit_key, nat) hmap"

definition conn_count :: "conn_table \<Rightarrow> limit_key \<Rightarrow> nat" where
  "conn_count t k = (case hm_get t k of Some n \<Rightarrow> n | None \<Rightarrow> 0)"

text \<open>\<open>acquire\<close>: a guard is its key. The counter is a \<open>u32\<close> below \<open>mx\<close>, so the increment does not
  wrap.\<close>

definition conn_acquire :: "(string \<Rightarrow> nat) \<Rightarrow> string \<Rightarrow> ip_addr \<Rightarrow> nat \<Rightarrow> conn_table \<Rightarrow>
    conn_table \<times> limit_key option" where
  "conn_acquire rhash rid ip mx t =
     (let k = limit_key rhash rid ip;
          n = conn_count t k
      in if mx \<le> n then (if n = 0 then hm_remove k t else hm_insert k n t, None)
         else (hm_insert k (n + 1) t, Some k))"

definition conn_drop :: "limit_key \<Rightarrow> conn_table \<Rightarrow> conn_table" where
  "conn_drop k t =
     (case hm_get t k of
        None \<Rightarrow> t
      | Some n \<Rightarrow> (let n' = n - 1 in if n' = 0 then hm_remove k t else hm_insert k n' t))"

text \<open>The table together with the guards alive. \<open>mx\<close> is the limit of a key's route.\<close>

inductive conn_step :: "(string \<Rightarrow> nat) \<Rightarrow> (limit_key \<Rightarrow> nat) \<Rightarrow>
    conn_table \<times> limit_key list \<Rightarrow> conn_table \<times> limit_key list \<Rightarrow> bool" for rhash mx where
  admit: "conn_acquire rhash rid ip (mx (limit_key rhash rid ip)) t = (t', Some k) \<Longrightarrow>
    conn_step rhash mx (t, gs) (t', k # gs)"
| refuse: "conn_acquire rhash rid ip (mx (limit_key rhash rid ip)) t = (t', None) \<Longrightarrow>
    conn_step rhash mx (t, gs) (t', gs)"
| release: "k \<in> set gs \<Longrightarrow> conn_step rhash mx (t, gs) (conn_drop k t, remove1 k gs)"

inductive conn_reachable :: "(string \<Rightarrow> nat) \<Rightarrow> (limit_key \<Rightarrow> nat) \<Rightarrow> conn_table \<times> limit_key list \<Rightarrow> bool"
  for rhash mx where
  start: "conn_reachable rhash mx ([], [])"
| step: "conn_reachable rhash mx s \<Longrightarrow> conn_step rhash mx s s' \<Longrightarrow> conn_reachable rhash mx s'"

inductive_cases conn_stepE: "conn_step rhash mx (t, gs) s'"

definition slot :: "nat \<Rightarrow> nat option" where
  "slot n = (if n = 0 then None else Some n)"

definition conn_inv :: "(limit_key \<Rightarrow> nat) \<Rightarrow> conn_table \<times> limit_key list \<Rightarrow> bool" where
  "conn_inv mx s \<longleftrightarrow> (\<forall>k. hm_get (fst s) k = slot (count_list (snd s) k) \<and> count_list (snd s) k \<le> mx k)"

lemma conn_invI:
  assumes "\<And>k. hm_get t k = slot (count_list gs k) \<and> count_list gs k \<le> mx k"
  shows "conn_inv mx (t, gs)"
  using assms unfolding conn_inv_def by (metis fst_conv snd_conv)

lemma conn_invD:
  assumes "conn_inv mx (t, gs)"
  shows "hm_get t k = slot (count_list gs k)" and "count_list gs k \<le> mx k"
  using assms unfolding conn_inv_def by (metis fst_conv snd_conv)+

lemma conn_count_inv: "conn_inv mx (t, gs) \<Longrightarrow> conn_count t k = count_list gs k"
  by (simp add: conn_count_def conn_invD slot_def)

lemma count_list_remove1: "count_list (remove1 k gs) j = count_list gs j - (if j = k then 1 else 0)"
  by (induction gs) auto

lemma conn_inv_step: "conn_step rhash mx s s' \<Longrightarrow> conn_inv mx s \<Longrightarrow> conn_inv mx s'"
proof (induction rule: conn_step.induct)
  case (admit rid ip t t' k gs)
  note D = conn_invD [OF admit.prems] conn_count_inv [OF admit.prems]
  show ?case
    using admit.hyps D(2)
    by (intro conn_invI) (auto simp: conn_acquire_def Let_def D(1,3) hm_get_insert slot_def split: if_splits)
next
  case (refuse rid ip t t' gs)
  note D = conn_invD [OF refuse.prems] conn_count_inv [OF refuse.prems]
  show ?case
    using refuse.hyps D(2)
    by (intro conn_invI)
      (auto simp: conn_acquire_def Let_def D(1,3) hm_get_insert hm_get_remove slot_def split: if_splits)
next
  case (release k gs t)
  note D = conn_invD [OF release.prems]
  have pos: "0 < count_list gs k" using release.hyps by (metis count_list_0_iff gr0I)
  have le: "count_list gs j - Suc 0 \<le> mx j" for j using D(2) [of j] by simp
  show ?case
    using pos D(2) le
    by (intro conn_invI)
      (auto simp: conn_drop_def Let_def D(1) hm_get_insert hm_get_remove count_list_remove1 slot_def)
qed

lemma conn_inv_reachable: "conn_reachable rhash mx s \<Longrightarrow> conn_inv mx s"
proof (induction rule: conn_reachable.induct)
  case start
  then show ?case by (rule conn_invI) (simp add: hm_get_Nil slot_def)
next
  case (step s s')
  then show ?case by (blast intro: conn_inv_step)
qed

text \<open>In every reachable state a client has exactly as many requests counted as guards alive,
  never more than its route's limit, and a client with none leaves no entry behind.\<close>

theorem conn_limit_exact:
  assumes "conn_reachable rhash mx (t, gs)"
  shows "conn_count t k = count_list gs k \<and> count_list gs k \<le> mx k \<and>
    (count_list gs k = 0 \<longrightarrow> hm_get t k = None)"
proof -
  have inv: "conn_inv mx (t, gs)" by (rule conn_inv_reachable [OF assms])
  show ?thesis using conn_invD [OF inv, of k] conn_count_inv [OF inv, of k] by (simp add: slot_def)
qed

theorem conn_limit_exact_witness:
  "conn_count (fst (conn_acquire (\<lambda>_. 0) ''s'' (V4 1) 2 [])) (limit_key (\<lambda>_. 0) ''s'' (V4 1)) = 1"
proof -
  let ?k = "limit_key (\<lambda>_. 0) ''s'' (V4 1)"
  have a: "conn_acquire (\<lambda>_. 0) ''s'' (V4 1) 2 [] = (fst (conn_acquire (\<lambda>_. 0) ''s'' (V4 1) 2 []), Some ?k)"
    by (simp add: conn_acquire_def Let_def conn_count_def hm_get_Nil)
  have "conn_reachable (\<lambda>_. 0) (\<lambda>_. 2) (fst (conn_acquire (\<lambda>_. 0) ''s'' (V4 1) 2 []), ?k # [])"
    by (rule conn_reachable.step [OF conn_reachable.start conn_step.admit [OF a]])
  from conn_limit_exact [OF this, of ?k] show ?thesis by simp
qed

end
