(* ===== verification/Edge_Router.thy ===== *)
theory Edge_Router
  imports Edge_Security Edge_Limits
begin

text \<open>
  The edge's request pipeline (\<open>crates/dn7-edge/src/router.rs\<close>) with the ACME challenge map
  (\<open>acme.rs\<close>) and the listen ports (\<open>ports.rs\<close>). \<open>handle\<close> passes the process-wide trackers
  on; the reverse proxy and the file server are the two fields of \<open>handlers\<close>.
\<close>

section \<open>Contexts\<close>

datatype listener_role = Website | AcmeOnly | Console

record conn_ctx =
  cc_tls :: bool
  cc_role :: listener_role
  cc_sni :: "string option"
  cc_peer :: ip_addr

record edge_request =
  er_path :: string
  er_query :: "string option"
  er_authority :: "string option"
  er_headers :: header_map

record listen_ports =
  lp_website_http :: nat
  lp_website_https :: nat
  lp_console :: nat
  lp_console_tls :: bool
  lp_need_acme_80 :: bool

definition listen_ports_default :: listen_ports where
  "listen_ports_default = \<lparr>lp_website_http = 80, lp_website_https = 443, lp_console = 0,
     lp_console_tls = False, lp_need_acme_80 = True\<rparr>"

text \<open>\<open>set_listen_ports\<close> on a \<open>OnceLock\<close>: only the first call counts.\<close>

definition set_listen_ports :: "listen_ports \<Rightarrow> listen_ports option \<Rightarrow> listen_ports option" where
  "set_listen_ports p cell = (case cell of Some q \<Rightarrow> Some q | None \<Rightarrow> Some p)"

definition listen_ports_of :: "listen_ports option \<Rightarrow> listen_ports" where
  "listen_ports_of cell = (case cell of Some q \<Rightarrow> q | None \<Rightarrow> listen_ports_default)"

record 'n edge_env =
  ee_http :: http_lib
  ee_digests :: digests
  ee_nets :: "'n net_lib"
  ee_hash :: "string \<Rightarrow> nat"
  ee_ports :: "listen_ports option"

record edge_state =
  es_limits :: limit_table
  es_conns :: conn_table
  es_acme :: "(string, string) hmap"

record handlers =
  hs_proxy :: "edge_request \<Rightarrow> proxy_target \<Rightarrow> conn_ctx \<Rightarrow> ip_addr \<Rightarrow> tuning \<Rightarrow> limit_key option \<Rightarrow>
    resp \<times> limit_key option"
  hs_static :: "edge_request \<Rightarrow> static_root \<Rightarrow> tuning \<Rightarrow> resp"

section \<open>ACME challenges\<close>

definition acme_insert :: "string \<Rightarrow> string \<Rightarrow> edge_state \<Rightarrow> edge_state" where
  "acme_insert token keyauth s = s\<lparr>es_acme := hm_insert token keyauth (es_acme s)\<rparr>"

definition acme_remove :: "string \<Rightarrow> edge_state \<Rightarrow> edge_state" where
  "acme_remove token s = s\<lparr>es_acme := hm_remove token (es_acme s)\<rparr>"

definition acme_serve :: "string \<Rightarrow> edge_state \<Rightarrow> resp option" where
  "acme_serve token s = map_option (resp_text 200) (hm_get (es_acme s) token)"

definition ACME_PREFIX :: string where
  "ACME_PREFIX = ''/.well-known/acme-challenge/''"

section \<open>Hosts and paths\<close>

fun collapse_loop :: "bool \<Rightarrow> string \<Rightarrow> string" where
  "collapse_loop prev [] = []"
| "collapse_loop prev (c # s) =
     (if c = CHR ''/'' then (if prev then collapse_loop True s else c # collapse_loop True s)
      else c # collapse_loop False s)"

definition collapse_slashes :: "string \<Rightarrow> string" where
  "collapse_slashes path = (if \<not> str_contains path ''//'' then path else collapse_loop False path)"

definition location_matches :: "string \<Rightarrow> string \<Rightarrow> bool" where
  "location_matches prefix path =
     (if prefix = ''/'' then True
      else if \<not> starts_with path prefix then False
      else ends_with prefix ''/'' \<or> length path = length prefix \<or>
        (length prefix < length path \<and> path ! length prefix = CHR ''/''))"

definition host_key :: "string option \<Rightarrow> string" where
  "host_key host_header =
     to_ascii_lowercase (strip_port (trim (case host_header of Some h \<Rightarrow> h | None \<Rightarrow> [])))"

definition request_host :: "http_lib \<Rightarrow> conn_ctx \<Rightarrow> edge_request \<Rightarrow> string" where
  "request_host H ctx req =
     (let h = host_key (hd_get_str H (er_headers req) ''host'');
          h1 = (if h = [] then (case er_authority req of Some a \<Rightarrow> host_key (Some a) | None \<Rightarrow> h) else h);
          h2 = (if h1 = [] then (case cc_sni ctx of Some sni \<Rightarrow> host_key (Some sni) | None \<Rightarrow> h1) else h1)
      in h2)"

section \<open>Fixed answers\<close>

definition finish :: "http_lib \<Rightarrow> 'n server_route \<Rightarrow> bool \<Rightarrow> resp \<Rightarrow> resp" where
  "finish H route tls r = decorate H route tls r"

definition https_redirect :: "'n edge_env \<Rightarrow> string \<Rightarrow> string \<Rightarrow> string \<Rightarrow> resp" where
  "https_redirect E host path query =
     (let https_port = lp_website_https (listen_ports_of (ee_ports E));
          authority = (if https_port = 443 then host else host @ '':'' @ to_dec https_port);
          target = (if query = [] then ''https://'' @ authority @ path
                    else ''https://'' @ authority @ path @ ''?'' @ query)
      in resp_redirect (ee_http E) target)"

definition WELCOME_PAGE :: string where
  "WELCOME_PAGE = ''<!doctype html><html><head><meta charset='' @ [CHR 0x22] @ ''utf-8'' @ [CHR 0x22] @
     ''><title>Welcome</title></head><body><h1>Welcome</h1><p>This server is managed by DN7 Panel.</p></body></html>''"

definition default_response :: "'n edge_env \<Rightarrow> default_route \<Rightarrow> resp" where
  "default_response E d =
     (case d of
        DefNotFound \<Rightarrow> resp_text 404 ''404 Not Found''
      | DefWelcome \<Rightarrow> resp_html 200 WELCOME_PAGE
      | DefDrop \<Rightarrow> resp_status 444
      | DefRedirect url \<Rightarrow> resp_redirect (ee_http E) url)"

definition retry_later :: "nat \<Rightarrow> string \<Rightarrow> resp" where
  "retry_later code body =
     (let r = resp_text code body in r\<lparr>rs_headers := hd_insert ''retry-after'' ''1'' (rs_headers r)\<rparr>)"

section \<open>The pipeline\<close>

text \<open>Steps 1 to 3: the route of a request, or the answer that needs none.\<close>

definition select_route :: "('n, 'c) runtime_config \<Rightarrow> conn_ctx \<Rightarrow> string \<Rightarrow> 'n server_route option" where
  "select_route cfg ctx host =
     (if cc_role ctx = Console then
        (case rc_console_route cfg of Some r \<Rightarrow> Some r | None \<Rightarrow> rc_console_fallback cfg)
      else route_for cfg host)"

definition acme_answer :: "conn_ctx \<Rightarrow> string \<Rightarrow> edge_state \<Rightarrow> resp option" where
  "acme_answer ctx match_path s =
     (if cc_role ctx \<noteq> Console then
        (case strip_prefix match_path ACME_PREFIX of
           Some token \<Rightarrow> if token \<noteq> [] then acme_serve token s else None
         | None \<Rightarrow> None)
      else None)"

text \<open>Steps 8 to 9: dispatch with the admission slot, throttle, slot held by the body, decoration.\<close>

definition dispatch :: "'n edge_env \<Rightarrow> handlers \<Rightarrow> conn_ctx \<Rightarrow> tuning \<Rightarrow> 'n server_route \<Rightarrow> string \<Rightarrow>
    ip_addr \<Rightarrow> limit_key option \<Rightarrow> edge_request \<Rightarrow> resp" where
  "dispatch E hs ctx tn route match_path client guard req =
     (let (r, g) =
        (case find (\<lambda>l. location_matches (lr_path l) match_path) (rt_locations route) of
           Some loc \<Rightarrow> hs_proxy hs req (lr_target loc) ctx client tn guard
         | None \<Rightarrow>
             (case rt_kind route of
                Proxy target \<Rightarrow> hs_proxy hs req target ctx client tn guard
              | Static docroot \<Rightarrow> (hs_static hs req docroot tn, guard)
              | Maintenance \<Rightarrow> (resp_text 503 ''503 Service Unavailable'', guard)));
          r1 = (case rt_rate_limit route of
             Some rl \<Rightarrow> if 0 < rl_bytes_per_sec rl \<and> \<not> is_loopback client
                        then r\<lparr>rs_body := BThrottled (rl_bytes_per_sec rl) (rs_body r)\<rparr> else r
           | None \<Rightarrow> r);
          r2 = (case g of Some k \<Rightarrow> r1\<lparr>rs_body := BGuarded k (rs_body r1)\<rparr> | None \<Rightarrow> r1)
      in finish (ee_http E) route (cc_tls ctx) r2)"

text \<open>Steps 5 to 8, after the rate limit.\<close>

definition handle_gated :: "'n edge_env \<Rightarrow> handlers \<Rightarrow> conn_ctx \<Rightarrow> tuning \<Rightarrow> 'n server_route \<Rightarrow> string \<Rightarrow>
    string \<Rightarrow> ip_addr \<Rightarrow> edge_state \<Rightarrow> edge_request \<Rightarrow> edge_state \<times> resp" where
  "handle_gated E hs ctx tn route host match_path client s req =
     (let path = er_path req;
          query = (case er_query req of Some q \<Rightarrow> q | None \<Rightarrow> []);
          fin = finish (ee_http E) route (cc_tls ctx)
      in if rt_force_ssl route \<and> \<not> cc_tls ctx then (s, https_redirect E host path query)
         else if rt_block_attacks route \<and> blocked_by_attacks query then (s, fin (resp_status 403))
         else (case check_access (ee_http E) (ee_digests E) (ee_nets E) (rt_access route) (er_headers req) client of
           Some r \<Rightarrow> (s, decorate (ee_http E) route (cc_tls ctx) r)
         | None \<Rightarrow>
             (if (case rt_hotlink route of
                    Some hotlink \<Rightarrow> \<not> hotlink_permits hotlink (hd_get_str (ee_http E) (er_headers req) ''referer'') host
                  | None \<Rightarrow> False)
              then (s, fin (resp_status 403))
              else if 0 < rt_conn_per_ip route \<and> \<not> is_loopback client then
                (case conn_acquire (ee_hash E) (rt_id route) client (rt_conn_per_ip route) (es_conns s) of
                   (t, Some g) \<Rightarrow> (s\<lparr>es_conns := t\<rparr>, dispatch E hs ctx tn route match_path client (Some g) req)
                 | (t, None) \<Rightarrow> (s\<lparr>es_conns := t\<rparr>, fin (retry_later 503 ''503 Service Unavailable'')))
              else (s, dispatch E hs ctx tn route match_path client None req))))"

text \<open>Step 4: the client's address, the inline IP filter and the rate limit.\<close>

definition handle_route :: "'n edge_env \<Rightarrow> handlers \<Rightarrow> conn_ctx \<Rightarrow> tuning \<Rightarrow> instant \<Rightarrow> 'n server_route \<Rightarrow>
    string \<Rightarrow> string \<Rightarrow> edge_state \<Rightarrow> edge_request \<Rightarrow> edge_state \<times> resp" where
  "handle_route E hs ctx tn now route host match_path s req =
     (let client = real_ip (ee_http E) (ee_nets E) (cc_peer ctx) (er_headers req) (rt_trust_proxy route);
          fin = finish (ee_http E) route (cc_tls ctx)
      in if (case rt_ip_acl route of
               Some acl \<Rightarrow> \<not> is_loopback client \<and> \<not> ip_acl_permits (ee_nets E) acl client
             | None \<Rightarrow> False)
         then (s, fin (resp_status 403))
         else (case rt_rate_limit route of
             Some rl \<Rightarrow>
               (if \<not> is_loopback client then
                  (let (t, v) = limit_check (ee_hash E) (rt_id route) client rl now (es_limits s);
                       s1 = s\<lparr>es_limits := t\<rparr>
                   in case v of
                        Allow \<Rightarrow> handle_gated E hs ctx tn route host match_path client s1 req
                      | Banned \<Rightarrow> (s1, fin (resp_status 403))
                      | RateLimited_l \<Rightarrow> (s1, fin (retry_later 429 ''429 Too Many Requests'')))
                else handle_gated E hs ctx tn route host match_path client s req)
           | None \<Rightarrow> handle_gated E hs ctx tn route host match_path client s req))"

definition handle :: "'n edge_env \<Rightarrow> handlers \<Rightarrow> conn_ctx \<Rightarrow> ('n, 'c) runtime_config \<Rightarrow> instant \<Rightarrow>
    edge_state \<Rightarrow> edge_request \<Rightarrow> edge_state \<times> resp" where
  "handle E hs ctx cfg now s req =
     (let match_path = collapse_slashes (er_path req);
          host = request_host (ee_http E) ctx req
      in case acme_answer ctx match_path s of
           Some r \<Rightarrow> (s, r)
         | None \<Rightarrow>
             (if cc_role ctx = AcmeOnly then (s, resp_status 404)
              else (case select_route cfg ctx host of
                      None \<Rightarrow> (s, default_response E (rc_default_site cfg))
                    | Some route \<Rightarrow> handle_route E hs ctx (rc_tuning cfg) now route host match_path s req)))"

section \<open>Properties\<close>

text \<open>What must hold of a request for it to reach a handler.\<close>

definition gates_open :: "'n edge_env \<Rightarrow> conn_ctx \<Rightarrow> instant \<Rightarrow> 'n server_route \<Rightarrow> string \<Rightarrow> edge_state \<Rightarrow>
    edge_request \<Rightarrow> bool" where
  "gates_open E ctx now route host s req \<longleftrightarrow>
     (let client = real_ip (ee_http E) (ee_nets E) (cc_peer ctx) (er_headers req) (rt_trust_proxy route);
          local = is_loopback client
      in (\<forall>acl. rt_ip_acl route = Some acl \<longrightarrow> local \<or> ip_acl_permits (ee_nets E) acl client) \<and>
         (\<forall>rl. rt_rate_limit route = Some rl \<longrightarrow> local \<or>
            snd (limit_check (ee_hash E) (rt_id route) client rl now (es_limits s)) = Allow) \<and>
         (rt_force_ssl route \<longrightarrow> cc_tls ctx) \<and>
         \<not> (rt_block_attacks route \<and> blocked_by_attacks (case er_query req of Some q \<Rightarrow> q | None \<Rightarrow> [])) \<and>
         check_access (ee_http E) (ee_digests E) (ee_nets E) (rt_access route) (er_headers req) client = None \<and>
         (\<forall>hotlink. rt_hotlink route = Some hotlink \<longrightarrow>
            hotlink_permits hotlink (hd_get_str (ee_http E) (er_headers req) ''referer'') host) \<and>
         (0 < rt_conn_per_ip route \<longrightarrow> local \<or>
            snd (conn_acquire (ee_hash E) (rt_id route) client (rt_conn_per_ip route) (es_conns s)) \<noteq> None))"

lemma handle_gated_gates:
  assumes "handle_gated E hs ctx tn route host mp client s req \<noteq> handle_gated E hs' ctx tn route host mp client s req"
  shows "(rt_force_ssl route \<longrightarrow> cc_tls ctx) \<and>
    \<not> (rt_block_attacks route \<and> blocked_by_attacks (case er_query req of Some q \<Rightarrow> q | None \<Rightarrow> [])) \<and>
    check_access (ee_http E) (ee_digests E) (ee_nets E) (rt_access route) (er_headers req) client = None \<and>
    (\<forall>hotlink. rt_hotlink route = Some hotlink \<longrightarrow>
       hotlink_permits hotlink (hd_get_str (ee_http E) (er_headers req) ''referer'') host) \<and>
    (0 < rt_conn_per_ip route \<longrightarrow> is_loopback client \<or>
       snd (conn_acquire (ee_hash E) (rt_id route) client (rt_conn_per_ip route) (es_conns s)) \<noteq> None)"
  using assms unfolding handle_gated_def Let_def
  by (auto split: if_split_asm option.split_asm prod.split_asm)

text \<open>C1: whatever the configuration and the trackers, the proxy or file server can influence the
  answer only to a request that was not on the ACME-only listener, resolved to a route, and
  passed every gate of that route: inline address filter, rate limit, HTTPS enforcement, exploit
  block, access list, hot-link policy and admission.\<close>

theorem handler_behind_gates:
  assumes "handle E hs ctx cfg now s req \<noteq> handle E hs' ctx cfg now s req"
  shows "cc_role ctx \<noteq> AcmeOnly \<and>
    (\<exists>route. select_route cfg ctx (request_host (ee_http E) ctx req) = Some route \<and>
       gates_open E ctx now route (request_host (ee_http E) ctx req) s req)"
proof -
  let ?h = "request_host (ee_http E) ctx req" and ?mp = "collapse_slashes (er_path req)"
  from assms have role: "cc_role ctx \<noteq> AcmeOnly"
    by (auto simp: handle_def Let_def split: option.splits)
  from assms obtain route where route: "select_route cfg ctx ?h = Some route"
    and neq: "handle_route E hs ctx (rc_tuning cfg) now route ?h ?mp s req \<noteq>
      handle_route E hs' ctx (rc_tuning cfg) now route ?h ?mp s req"
    by (auto simp: handle_def Let_def split: option.splits if_splits)
  let ?c = "real_ip (ee_http E) (ee_nets E) (cc_peer ctx) (er_headers req) (rt_trust_proxy route)"
  obtain s1 where gated: "handle_gated E hs ctx (rc_tuning cfg) route ?h ?mp ?c s1 req \<noteq>
      handle_gated E hs' ctx (rc_tuning cfg) route ?h ?mp ?c s1 req"
    and conns: "es_conns s1 = es_conns s"
    and acl: "\<forall>acl. rt_ip_acl route = Some acl \<longrightarrow> is_loopback ?c \<or> ip_acl_permits (ee_nets E) acl ?c"
    and rate: "\<forall>rl. rt_rate_limit route = Some rl \<longrightarrow> is_loopback ?c \<or>
      snd (limit_check (ee_hash E) (rt_id route) ?c rl now (es_limits s)) = Allow"
    using neq unfolding handle_route_def Let_def
    by (auto split: if_split_asm option.split_asm prod.split_asm verdict_l.split_asm)
  from handle_gated_gates [OF gated] acl rate conns have "gates_open E ctx now route ?h s req"
    unfolding gates_open_def Let_def by simp
  with role route show ?thesis by blast
qed

text \<open>A closed environment for the witnesses: one maintenance-free static site on any host.\<close>

definition demo_env :: "(ip_addr \<times> nat) edge_env" where
  "demo_env = \<lparr>ee_http = demo_http, ee_digests = \<lparr>dg_md5 = id, dg_sha1 = id, dg_b64_encode = (\<lambda>_. []),
     dg_b64_decode = (\<lambda>_. None)\<rparr>, ee_nets = demo_nets, ee_hash = (\<lambda>_. 0), ee_ports = None\<rparr>"

definition demo_route :: "(ip_addr \<times> nat) server_route" where
  "demo_route = \<lparr>rt_id = ''s1'', rt_server_names = [''a.example''], rt_ssl = False, rt_force_ssl = False,
     rt_hsts = None, rt_block_attacks = True, rt_trust_proxy = None, rt_access = None,
     rt_kind = Static \<lparr>sr_root = ''/srv'', sr_cache_assets = False\<rparr>, rt_locations = [],
     rt_extra_headers = [], rt_rate_limit = None, rt_conn_per_ip = 0, rt_ip_acl = None, rt_hotlink = None\<rparr>"

definition demo_cfg :: "(ip_addr \<times> nat, unit) runtime_config" where
  "demo_cfg = runtime_config_default\<lparr>rc_console_fallback := Some demo_route\<rparr>"

definition demo_handlers :: "nat \<Rightarrow> handlers" where
  "demo_handlers code = \<lparr>hs_proxy = (\<lambda>req tg ctx ip tn g. (resp_status 502, g)),
     hs_static = (\<lambda>req docroot tn. resp_status code)\<rparr>"

definition demo_ctx :: "listener_role \<Rightarrow> conn_ctx" where
  "demo_ctx role = \<lparr>cc_tls = False, cc_role = role, cc_sni = None, cc_peer = V4 1\<rparr>"

definition demo_request :: edge_request where
  "demo_request = \<lparr>er_path = ''/x'', er_query = None, er_authority = None, er_headers = []\<rparr>"

definition demo_estate :: edge_state where
  "demo_estate = \<lparr>es_limits = [], es_conns = [], es_acme = [(''tok'', ''key'')]\<rparr>"

lemma demo_handle: "snd (handle demo_env (demo_handlers n) (demo_ctx Website) demo_cfg 0 demo_estate demo_request)
    = resp_status n"
  by (simp add: handle_def Let_def demo_ctx_def demo_cfg_def demo_route_def demo_request_def demo_env_def
      acme_answer_def collapse_slashes_def starts_with_def strip_prefix_def ACME_PREFIX_def select_route_def
      route_for_def runtime_config_default_def hm_get_Nil best_wildcard_def handle_route_def
      handle_gated_def real_ip_def real_ip_inner_def blocked_by_attacks_def to_ascii_lowercase_def
      check_access_def dispatch_def demo_handlers_def finish_def decorate_def resp_status_def)

theorem handler_behind_gates_witness:
  "\<exists>route. select_route demo_cfg (demo_ctx Website) (request_host demo_http (demo_ctx Website) demo_request) = Some route
    \<and> gates_open demo_env (demo_ctx Website) 0 route (request_host demo_http (demo_ctx Website) demo_request)
        demo_estate demo_request"
proof -
  have "handle demo_env (demo_handlers 200) (demo_ctx Website) demo_cfg 0 demo_estate demo_request \<noteq>
      handle demo_env (demo_handlers 404) (demo_ctx Website) demo_cfg 0 demo_estate demo_request"
    using demo_handle [of 200] demo_handle [of 404] by (auto simp: resp_status_def)
  from handler_behind_gates [OF this] show ?thesis by (simp add: demo_env_def)
qed

text \<open>The issuance listener answers nothing but challenges it holds: a request there gets the key
  authorization registered for its token, or 404, and changes no state.\<close>

theorem acme_only_listener:
  assumes "cc_role ctx = AcmeOnly"
  shows "fst (handle E hs ctx cfg now s req) = s \<and>
    (rs_status (snd (handle E hs ctx cfg now s req)) = 404 \<or>
     (\<exists>token keyauth. collapse_slashes (er_path req) = ACME_PREFIX @ token \<and> token \<noteq> [] \<and>
        hm_get (es_acme s) token = Some keyauth \<and> snd (handle E hs ctx cfg now s req) = resp_text 200 keyauth))"
  using assms
  by (auto simp: handle_def Let_def acme_answer_def acme_serve_def resp_status_def strip_prefix_Some
      split: option.splits if_splits)

theorem acme_only_listener_witness:
  "fst (handle demo_env (demo_handlers 200) (demo_ctx AcmeOnly) demo_cfg 0 demo_estate demo_request) = demo_estate"
  by (rule acme_only_listener [THEN conjunct1]) (simp add: demo_ctx_def)

lemma strip_port_plain: "CHR ''['' \<notin> set h \<Longrightarrow> CHR '':'' \<notin> set h \<Longrightarrow> strip_port h = h"
proof -
  assume h: "CHR ''['' \<notin> set h" "CHR '':'' \<notin> set h"
  have "filter (\<lambda>x. x = CHR '':'') h = []" using h(2) by (auto simp: filter_empty_conv)
  moreover have "strip_prefix h ''['' = None"
    using h(1) by (cases h) (auto simp: strip_prefix_def starts_with_def)
  ultimately show ?thesis by (simp add: strip_port_def count_char_def)
qed

lemma strip_port_port:
  assumes "CHR ''['' \<notin> set h" and "CHR '':'' \<notin> set h" and "CHR '':'' \<notin> set p"
  shows "strip_port (h @ CHR '':'' # p) = h"
proof -
  have "strip_prefix (h @ CHR '':'' # p) ''['' = None"
    using assms(1) by (cases h) (auto simp: strip_prefix_def starts_with_def)
  moreover have "count_char CHR '':'' (h @ CHR '':'' # p) = 1"
    using assms(2,3) by (auto simp: count_char_def filter_empty_conv)
  ultimately show ?thesis by (simp add: strip_port_def split_on_append_sep [OF assms(2)])
qed

text \<open>The route key of a request ignores case and a port: a name with any port, in any
  capitals, gives the lower-cased name.\<close>

theorem host_key_ignores_port:
  assumes "list_all plain_char (h @ CHR '':'' # p)" and "CHR ''['' \<notin> set h" and "CHR '':'' \<notin> set h"
    and "CHR '':'' \<notin> set p" and "h \<noteq> []"
  shows "host_key (Some (h @ CHR '':'' # p)) = to_ascii_lowercase h \<and>
    host_key (Some h) = to_ascii_lowercase h"
proof -
  from assms(1,5) have t: "trim (h @ CHR '':'' # p) = h @ CHR '':'' # p" "trim h = h"
    by (auto intro!: trim_plain simp: list_all_iff)
  show ?thesis by (simp add: host_key_def t strip_port_port [OF assms(2,3,4)] strip_port_plain [OF assms(2,3)])
qed

theorem host_key_ignores_port_witness: "host_key (Some ''example:8080'') = ''example''"
proof -
  have "host_key (Some (''example'' @ CHR '':'' # ''8080'')) = to_ascii_lowercase ''example''"
    by (rule host_key_ignores_port [THEN conjunct1]) (simp_all add: plain_char_def ws1_def ws2_def ws3_def)
  then show ?thesis by (simp add: to_ascii_lowercase_def to_ascii_lower_char_def is_ascii_uppercase_def byte_def)
qed

end
