(* ===== verification/Edge_Build.thy ===== *)
theory Edge_Build
  imports Edge_Router
begin

text \<open>
  The projection of the persisted model into the runtime route table
  (\<open>crates/dn7-edge/src/build.rs\<close>). Reading and parsing a certificate pair is the field
  \<open>bl_load\<close> of \<open>build_lib\<close>; log lines are not modelled.
\<close>

section \<open>Inputs\<close>

record ('n, 'c) build_lib =
  bl_nets :: "'n net_lib"
  bl_load :: "string \<Rightarrow> string \<Rightarrow> 'c option"

record console_params =
  cp_external_address :: string
  cp_https_mode :: string
  cp_initialized :: bool
  cp_dedicated_console :: bool

record reload_input =
  ri_sites :: "site_in list"
  ri_access :: "access_list list"
  ri_default_site :: default_site
  ri_tuning :: http_tuning
  ri_cert_dir :: string
  ri_www_dir :: string
  ri_console :: console_params

definition CONSOLE_LOOPBACK_PORT_edge :: nat where "CONSOLE_LOOPBACK_PORT_edge = 1080"

section \<open>Strings and paths\<close>

text \<open>\<open>Path::join\<close> on Unix: an absolute path replaces the base.\<close>

definition path_is_absolute :: "string \<Rightarrow> bool" where
  "path_is_absolute p = starts_with p ''/''"

definition path_join :: "string \<Rightarrow> string \<Rightarrow> string" where
  "path_join base p =
     (if path_is_absolute p then p
      else if base = [] \<or> last base = CHR ''/'' then base @ p
      else base @ ''/'' @ p)"

definition trim_start_matches :: "char \<Rightarrow> string \<Rightarrow> string" where
  "trim_start_matches c s = dropWhile (\<lambda>x. x = c) s"

definition trim_end_matches :: "char \<Rightarrow> string \<Rightarrow> string" where
  "trim_end_matches c s = rev (dropWhile (\<lambda>x. x = c) (rev s))"

definition trim_matches :: "char \<Rightarrow> string \<Rightarrow> string" where
  "trim_matches c s = trim_end_matches c (trim_start_matches c s)"

text \<open>\<open>str::lines\<close>: pieces between line feeds without a final empty one, less one carriage return.\<close>

definition chomp_cr :: "string \<Rightarrow> string" where
  "chomp_cr s = (case strip_suffix s [CHR 0x0D] of Some r \<Rightarrow> r | None \<Rightarrow> s)"

definition lines_of :: "string \<Rightarrow> string list" where
  "lines_of s =
     (let ls = split_on (CHR 0x0A) s
      in map chomp_cr (if last ls = [] then butlast ls else ls))"

text \<open>\<open>split_once(char::is_whitespace)\<close>.\<close>

fun split_once_ws :: "string \<Rightarrow> (string \<times> string) option" where
  "split_once_ws [] = None"
| "split_once_ws (c # s) =
     (let n = ws_len (c # s)
      in if 0 < n then Some ([], drop n (c # s))
         else map_option (\<lambda>(a, b). (c # a, b)) (split_once_ws s))"

definition list_seps :: "char list" where
  "list_seps = [CHR '','', CHR '' '', CHR 0x09, CHR 0x0A, CHR 0x0D]"

definition split_names :: "string \<Rightarrow> string list" where
  "split_names server_name = filter (\<lambda>s. s \<noteq> []) (split_whitespace server_name)"

definition norm_scheme :: "string \<Rightarrow> string" where
  "norm_scheme s = (if s = ''https'' then ''https'' else ''http'')"

definition parse_ipv6 :: "string \<Rightarrow> 128 word option" where
  "parse_ipv6 s = (case read_ipv6 s of Some (a, r) \<Rightarrow> if r = [] then Some a else None | None \<Rightarrow> None)"

definition bracket_if_ipv6 :: "string \<Rightarrow> string" where
  "bracket_if_ipv6 host =
     (if \<not> starts_with host ''['' \<and> parse_ipv6 host \<noteq> None then ''['' @ host @ '']'' else host)"

definition with_scheme_port :: "string \<Rightarrow> string \<Rightarrow> string" where
  "with_scheme_port host scheme =
     (let default_port = (if scheme = ''https'' then 443 else 80);
          has_port = (case rsplit_once CHR '']'' host of
                        Some (_, after) \<Rightarrow> starts_with after '':''
                      | None \<Rightarrow> count_char CHR '':'' host = 1)
      in if has_port then host
         else if 1 < count_char CHR '':'' host \<and> \<not> starts_with host ''['' then
           ''['' @ host @ '']:'' @ to_dec default_port
         else host @ '':'' @ to_dec default_port)"

text \<open>The product is computed on \<open>u64\<close>; the release profile wraps.\<close>

definition parse_size :: "string \<Rightarrow> nat option" where
  "parse_size s0 =
     (let s = to_ascii_lowercase (trim s0)
      in if s = [] then None
         else (let c = last s;
                   (num, mult) = (if c = CHR ''k'' then (butlast s, 1024)
                      else if c = CHR ''m'' then (butlast s, 1024 * 1024)
                      else if c = CHR ''g'' then (butlast s, 1024 * 1024 * 1024)
                      else (s, 1))
               in map_option (\<lambda>n. n * mult mod 2 ^ 64) (parse_u64 (trim num))))"

section \<open>Default site, tuning, extra headers\<close>

definition build_default :: "default_site \<Rightarrow> default_route" where
  "build_default d =
     (if ds_mode d = ''welcome'' then DefWelcome
      else if ds_mode d = ''444'' then DefDrop
      else if ds_mode d = ''redirect'' then DefRedirect (ds_redirect_url d)
      else DefNotFound)"

definition build_tuning :: "http_tuning \<Rightarrow> tuning" where
  "build_tuning t = \<lparr>tn_gzip = ht_gzip t, tn_gzip_min_length = ht_gzip_min_length t,
     tn_gzip_comp_level = ht_gzip_comp_level t,
     tn_client_max_body_size =
       (case parse_size (ht_client_max_body_size t) of Some n \<Rightarrow> n | None \<Rightarrow> 1024 * 1024 * 1024),
     tn_keepalive_timeout = ht_keepalive_timeout t\<rparr>"

definition extra_header_of :: "string \<Rightarrow> (string \<times> string) option" where
  "extra_header_of line =
     (let l = trim (trim_end_matches CHR '';'' (trim line))
      in case strip_prefix l ''add_header '' of
           None \<Rightarrow> None
         | Some rest0 \<Rightarrow>
             (case split_once_ws (trim rest0) of
                None \<Rightarrow> None
              | Some (name, value0) \<Rightarrow>
                  (let v = trim_matches CHR 0x22 (trim value0)
                   in if name \<noteq> [] \<and> v \<noteq> [] then Some (name, v) else None)))"

definition extra_headers :: "string \<Rightarrow> (string \<times> string) list" where
  "extra_headers extra = List.map_filter extra_header_of (lines_of extra)"

section \<open>Filters\<close>

definition parse_net :: "'n net_lib \<Rightarrow> string \<Rightarrow> 'n option" where
  "parse_net N tok =
     (let t = trim tok
      in case nl_parse N t of
           Some n \<Rightarrow> Some n
         | None \<Rightarrow> map_option (nl_host N) (parse_ip t))"

definition parse_acl_net :: "'n net_lib \<Rightarrow> string \<Rightarrow> 'n acl_net option" where
  "parse_acl_net N addr =
     (let a = trim addr
      in if a = ''all'' then Some AclAll
         else if CHR ''/'' \<in> set a then map_option AclNet (nl_parse N a)
         else map_option AclIp (parse_ip a))"

definition private_nets :: "string list" where
  "private_nets = [''127.0.0.0/8'', ''10.0.0.0/8'', ''172.16.0.0/12'', ''192.168.0.0/16'',
     ''169.254.0.0/16'', ''::1/128'', ''fc00::/7'', ''fe80::/10'']"

definition build_trust_proxy :: "'n net_lib \<Rightarrow> ('z) site_in_scheme \<Rightarrow> 'n trust_proxy" where
  "build_trust_proxy N site =
     (let explicit = filter (\<lambda>n. nl_prefix_len N n \<noteq> 0)
            (List.map_filter (parse_net N) (split_whitespace (si_trust_proxy_cidrs site)))
      in \<lparr>tp_sources = (if explicit = [] then List.map_filter (nl_parse N) private_nets else explicit),
          tp_recursive = True\<rparr>)"

definition build_hotlink :: "('z) site_in_scheme \<Rightarrow> string list option" where
  "build_hotlink site =
     (let allowed = List.map_filter
            (\<lambda>t. case strip_prefix t ''.'' of
                   Some suffix \<Rightarrow> Some (''.'' @ to_ascii_lowercase suffix)
                 | None \<Rightarrow> referer_host t)
            (filter (\<lambda>t. t \<noteq> []) (map trim (split_any list_seps (si_hotlink_referers site))))
      in if allowed = [] then None else Some allowed)"

definition build_ip_acl :: "'n net_lib \<Rightarrow> ('z) site_in_scheme \<Rightarrow> 'n ip_acl option" where
  "build_ip_acl N site =
     (let mode = trim (si_ip_acl_mode site)
      in if mode \<noteq> ''allow'' \<and> mode \<noteq> ''deny'' then None
         else (let nets = List.map_filter (parse_acl_net N)
                     (filter (\<lambda>t. trim t \<noteq> []) (split_any list_seps (si_ip_acl_list site)))
               in if nets = [] then None else Some \<lparr>ia_allow = (mode = ''allow''), ia_nets = nets\<rparr>))"

definition build_rate_limit :: "('z) site_in_scheme \<Rightarrow> rate_limit option" where
  "build_rate_limit site =
     (if si_rate_limit_rps site = 0 \<and> si_autoban_threshold site = 0 \<and> si_bandwidth_kbps site = 0 then None
      else Some \<lparr>rl_req_per_sec = si_rate_limit_rps site, rl_burst = si_rate_limit_burst site,
             rl_bytes_per_sec = si_bandwidth_kbps site * 1024,
             rl_autoban_threshold = si_autoban_threshold site,
             rl_autoban_window = si_autoban_window site,
             rl_autoban_minutes = si_autoban_minutes site\<rparr>)"

definition acl_rules :: "'n net_lib \<Rightarrow> access_client list \<Rightarrow> 'n acl_rule list" where
  "acl_rules N cs = List.map_filter
     (\<lambda>c. map_option (\<lambda>net. \<lparr>ar_allow = (ac_directive c \<noteq> ''deny''), ar_net = net\<rparr>)
            (parse_acl_net N (ac_address c))) cs"

definition build_access :: "'n net_lib \<Rightarrow> access_list \<Rightarrow> 'n access_control" where
  "build_access N a =
     (let fail_closed = list_ex (\<lambda>c. parse_acl_net N (ac_address c) = None) (al_clients a);
          rules = (if fail_closed then [\<lparr>ar_allow = False, ar_net = AclAll\<rparr>] else acl_rules N (al_clients a))
      in \<lparr>ax_satisfy_all = (al_satisfy a = ''all''),
          ax_users = map (\<lambda>u. (au_username u, au_hash u)) (filter (\<lambda>u. au_hash u \<noteq> []) (al_users a)),
          ax_rules = rules, ax_realm = al_name a\<rparr>)"

section \<open>Handlers and locations\<close>

definition site_upstream :: "('z) site_in_scheme \<Rightarrow> upstream" where
  "site_upstream site =
     (if si_kind site = ''proxy_container'' then Container (si_container site) (si_container_port site)
      else Fixed (with_scheme_port (si_target_url site) (si_scheme site)))"

definition is_proxy_kind :: "('z) site_in_scheme \<Rightarrow> bool" where
  "is_proxy_kind site \<longleftrightarrow> si_kind site = ''proxy_host'' \<or> si_kind site = ''proxy_container''"

definition build_kind :: "reload_input \<Rightarrow> ('z) site_in_scheme \<Rightarrow> bool \<Rightarrow> route_kind" where
  "build_kind inp site strip_auth =
     (if is_proxy_kind site then
        Proxy \<lparr>pt_scheme = norm_scheme (si_scheme site), pt_upstream = site_upstream site,
          pt_websockets = si_websockets site, pt_cache_assets = si_cache site,
          pt_strip_auth = strip_auth\<rparr>
      else if si_kind site = ''static'' then
        Static \<lparr>sr_root = (if si_local_root site = [] then path_join (ri_www_dir inp) (si_root site)
                            else si_local_root site),
          sr_cache_assets = si_cache site\<rparr>
      else Maintenance)"

definition build_location :: "bool \<Rightarrow> location_in \<Rightarrow> location_route" where
  "build_location strip_auth l =
     \<lparr>lr_path = li_path l,
      lr_target = \<lparr>pt_scheme = norm_scheme (li_scheme l),
        pt_upstream = (if li_kind l = ''container'' then Container (li_container l) (li_container_port l)
                       else Fixed (with_scheme_port (li_target l) (li_scheme l))),
        pt_websockets = li_websockets l, pt_cache_assets = False, pt_strip_auth = strip_auth\<rparr>\<rparr>"

text \<open>\<open>sort_by_key\<close> with \<open>Reverse(len)\<close>: a stable sort, longest first.\<close>

fun insert_loc :: "location_route \<Rightarrow> location_route list \<Rightarrow> location_route list" where
  "insert_loc l [] = [l]"
| "insert_loc l (m # ms) =
     (if length (lr_path m) \<le> length (lr_path l) then l # m # ms else m # insert_loc l ms)"

definition sort_locs :: "location_route list \<Rightarrow> location_route list" where
  "sort_locs ls = foldr insert_loc ls []"

definition build_locations :: "('z) site_in_scheme \<Rightarrow> bool \<Rightarrow> location_route list" where
  "build_locations site strip_auth =
     sort_locs (map (build_location strip_auth)
       (filter (\<lambda>l. \<not> (li_path l = ''/'' \<and> is_proxy_kind site)) (si_locations site)))"

section \<open>Certificates\<close>

definition index_cert :: "'c cert_store \<Rightarrow> string \<Rightarrow> 'c \<Rightarrow> 'c cert_store" where
  "index_cert store name ck =
     (let key = to_ascii_lowercase name
      in case strip_prefix key ''*.'' of
           Some suffix \<Rightarrow> store\<lparr>cs_wildcards := cs_wildcards store @ [(''.'' @ suffix, ck)]\<rparr>
         | None \<Rightarrow> store\<lparr>cs_by_host := hm_insert key ck (cs_by_host store)\<rparr>)"

definition load_site_cert :: "('n, 'c) build_lib \<Rightarrow> reload_input \<Rightarrow> ('z) site_in_scheme \<Rightarrow> 'c option" where
  "load_site_cert L inp site =
     (let stem = (if si_cert_name site = [] then si_id site else ''cert-'' @ si_cert_name site)
      in bl_load L (path_join (ri_cert_dir inp) (stem @ ''.crt''))
                   (path_join (ri_cert_dir inp) (stem @ ''.key'')))"

section \<open>Routes\<close>

text \<open>The map by id: of lists with equal ids the last counts.\<close>

definition access_by_id :: "reload_input \<Rightarrow> string \<Rightarrow> access_list option" where
  "access_by_id inp aid = map_of (rev (map (\<lambda>a. (al_id a, a)) (ri_access inp))) aid"

definition site_access :: "reload_input \<Rightarrow> ('z) site_in_scheme \<Rightarrow> access_list option" where
  "site_access inp site = (if si_access_id site = [] then None else access_by_id inp (si_access_id site))"

definition site_cert :: "('n, 'c) build_lib \<Rightarrow> reload_input \<Rightarrow> ('z) site_in_scheme \<Rightarrow> 'c option" where
  "site_cert L inp site = (if si_ssl site then load_site_cert L inp site else None)"

definition site_route :: "('n, 'c) build_lib \<Rightarrow> reload_input \<Rightarrow> ('z) site_in_scheme \<Rightarrow> 'n server_route" where
  "site_route L inp site =
     (let N = bl_nets L;
          access = map_option (build_access N) (site_access inp site);
          strip_auth = (case site_access inp site of Some a \<Rightarrow> \<not> al_pass_auth a | None \<Rightarrow> False);
          ssl = (site_cert L inp site \<noteq> None)
      in \<lparr>rt_id = si_id site, rt_server_names = split_names (si_server_name site), rt_ssl = ssl,
          rt_force_ssl = (ssl \<and> si_force_ssl site),
          rt_hsts = (if ssl \<and> si_hsts site
                     then Some \<lparr>hs_max_age = 63072000, hs_include_sub = si_hsts_sub site\<rparr> else None),
          rt_block_attacks = si_block_attacks site,
          rt_trust_proxy = (if si_trust_proxy site then Some (build_trust_proxy N site) else None),
          rt_access = access,
          rt_kind = build_kind inp site strip_auth,
          rt_locations = build_locations site strip_auth,
          rt_extra_headers = extra_headers (si_extra_conf site),
          rt_rate_limit = build_rate_limit site,
          rt_conn_per_ip = si_conn_per_ip site,
          rt_ip_acl = build_ip_acl N site,
          rt_hotlink = build_hotlink site\<rparr>)"

lemma site_route_simps [simp]:
  "rt_server_names (site_route L inp s) = split_names (si_server_name s)"
  "rt_ssl (site_route L inp s) \<longleftrightarrow> site_cert L inp s \<noteq> None"
  "rt_locations (site_route L inp s) = build_locations s
     (case site_access inp s of Some a \<Rightarrow> \<not> al_pass_auth a | None \<Rightarrow> False)"
  "rt_kind (site_route L inp s) = build_kind inp s
     (case site_access inp s of Some a \<Rightarrow> \<not> al_pass_auth a | None \<Rightarrow> False)"
  "rt_access (site_route L inp s) = map_option (build_access (bl_nets L)) (site_access inp s)"
  "rt_id (site_route L inp s) = si_id s"
  by (simp_all add: site_route_def Let_def)

text \<open>One host of a route; a host already taken is refused.\<close>

definition index_route :: "'n server_route \<Rightarrow> string \<Rightarrow> ('n, 'c) runtime_config \<Rightarrow>
    string + ('n, 'c) runtime_config" where
  "index_route route name cfg =
     (let key = to_ascii_lowercase name
      in case strip_prefix key ''*.'' of
           Some suffix0 \<Rightarrow>
             (let suffix = ''.'' @ suffix0
              in if list_ex (\<lambda>e. fst e = suffix) (rc_wildcards cfg)
                 then Inl (''conflicting server name '' @ [CHR 0x22] @ name @ [CHR 0x22] @ '' (wildcard)'')
                 else Inr (cfg\<lparr>rc_wildcards := rc_wildcards cfg @ [(suffix, route)]\<rparr>))
         | None \<Rightarrow>
             (if hm_get (rc_hosts cfg) key \<noteq> None
              then Inl (''conflicting server name '' @ [CHR 0x22] @ name @ [CHR 0x22])
              else Inr (cfg\<lparr>rc_hosts := hm_insert key route (rc_hosts cfg)\<rparr>)))"

fun index_routes :: "'n server_route \<Rightarrow> string list \<Rightarrow> ('n, 'c) runtime_config \<Rightarrow>
    string + ('n, 'c) runtime_config" where
  "index_routes route [] cfg = Inr cfg"
| "index_routes route (n # ns) cfg =
     (case index_route route n cfg of Inl e \<Rightarrow> Inl e | Inr cfg' \<Rightarrow> index_routes route ns cfg')"

definition build_site :: "('n, 'c) build_lib \<Rightarrow> reload_input \<Rightarrow> site_in \<Rightarrow> ('n, 'c) runtime_config \<Rightarrow>
    string + ('n, 'c) runtime_config" where
  "build_site L inp site cfg =
     (let route = site_route L inp site;
          certs = (case site_cert L inp site of
                     Some ck \<Rightarrow> foldl (\<lambda>cs n. index_cert cs n ck) (rc_certs cfg) (rt_server_names route)
                   | None \<Rightarrow> rc_certs cfg)
      in index_routes route (rt_server_names route) (cfg\<lparr>rc_certs := certs\<rparr>))"

fun build_sites :: "('n, 'c) build_lib \<Rightarrow> reload_input \<Rightarrow> site_in list \<Rightarrow> ('n, 'c) runtime_config \<Rightarrow>
    string + ('n, 'c) runtime_config" where
  "build_sites L inp [] cfg = Inr cfg"
| "build_sites L inp (s # ss) cfg =
     (case build_site L inp s cfg of Inl e \<Rightarrow> Inl e | Inr cfg' \<Rightarrow> build_sites L inp ss cfg')"

section \<open>The console\<close>

definition console_route :: "bool \<Rightarrow> bool \<Rightarrow> string list \<Rightarrow> 'n server_route" where
  "console_route ssl force_ssl names =
     \<lparr>rt_id = ''__console__'', rt_server_names = names, rt_ssl = ssl, rt_force_ssl = force_ssl,
      rt_hsts = (if force_ssl then Some \<lparr>hs_max_age = 63072000, hs_include_sub = False\<rparr> else None),
      rt_block_attacks = False, rt_trust_proxy = None, rt_access = None,
      rt_kind = Proxy \<lparr>pt_scheme = ''http'',
        pt_upstream = Fixed (''127.0.0.1:'' @ to_dec CONSOLE_LOOPBACK_PORT_edge),
        pt_websockets = True, pt_cache_assets = False, pt_strip_auth = False\<rparr>,
      rt_locations = [], rt_extra_headers = [], rt_rate_limit = None, rt_conn_per_ip = 0,
      rt_ip_acl = None, rt_hotlink = None\<rparr>"

definition loopback_route :: "'n server_route" where
  "loopback_route = console_route False False [''localhost'', ''127.0.0.1'']"

definition console_cert :: "('n, 'c) build_lib \<Rightarrow> reload_input \<Rightarrow> 'c option" where
  "console_cert L inp =
     (if cp_https_mode (ri_console inp) \<noteq> ''none''
      then bl_load L (path_join (ri_cert_dir inp) ''cert-console.crt'')
                     (path_join (ri_cert_dir inp) ''cert-console.key'')
      else None)"

definition console_ext :: "reload_input \<Rightarrow> string" where
  "console_ext inp = bracket_if_ipv6 (to_ascii_lowercase (trim (cp_external_address (ri_console inp))))"

definition inject_console_route :: "('n, 'c) build_lib \<Rightarrow> reload_input \<Rightarrow> ('n, 'c) runtime_config \<Rightarrow>
    ('n, 'c) runtime_config" where
  "inject_console_route L inp cfg0 =
     (let con = ri_console inp;
          cfg1 = cfg0\<lparr>rc_hosts := hm_insert ''127.0.0.1'' loopback_route
                        (hm_insert ''localhost'' loopback_route (rc_hosts cfg0)),
                      rc_console_route := Some loopback_route\<rparr>;
          ext = console_ext inp;
          cfg2 = (if ext \<noteq> [] \<and> ext \<noteq> ''localhost'' \<and> ext \<noteq> ''127.0.0.1'' then
             (let cert = console_cert L inp;
                  ssl = (cert \<noteq> None);
                  enforce_ssl = (ssl \<and> cp_initialized con);
                  sni_key = trim_end_matches CHR '']'' (trim_start_matches CHR ''['' ext);
                  c1 = (case cert of
                          Some ck \<Rightarrow> cfg1\<lparr>rc_certs := index_cert (rc_certs cfg1) sni_key ck\<rparr>
                        | None \<Rightarrow> cfg1)
              in if \<not> cp_dedicated_console con
                 then c1\<lparr>rc_hosts := hm_insert ext (console_route ssl enforce_ssl [ext]) (rc_hosts c1)\<rparr>
                 else c1)
             else cfg1)
      in if \<not> cp_initialized con then cfg2\<lparr>rc_console_fallback := Some loopback_route\<rparr> else cfg2)"

definition build_base :: "('n, 'c) build_lib \<Rightarrow> reload_input \<Rightarrow> ('n, 'c) runtime_config" where
  "build_base L inp = runtime_config_default\<lparr>rc_tuning := build_tuning (ri_tuning inp),
     rc_default_site := build_default (ri_default_site inp),
     rc_certs := \<lparr>cs_by_host = [], cs_wildcards = [],
       cs_default = bl_load L (path_join (ri_cert_dir inp) ''default.crt'')
                              (path_join (ri_cert_dir inp) ''default.key'')\<rparr>\<rparr>"

definition build_runtime :: "('n, 'c) build_lib \<Rightarrow> reload_input \<Rightarrow> string + ('n, 'c) runtime_config" where
  "build_runtime L inp =
     (case build_sites L inp (ri_sites inp) (build_base L inp) of
        Inl e \<Rightarrow> Inl e
      | Inr cfg \<Rightarrow> Inr (inject_console_route L inp cfg))"

end
