(* ===== verification/Website_Rules.thy ===== *)
theory Website_Rules
  imports Web_Gate Edge_Model
begin

text \<open>
  The panel's website domain: field validators (\<open>core/website/validate.rs\<close>), tuning and
  default-site rules (\<open>core/website/tuning.rs\<close>), the persisted entities that extend the edge's
  input contract (\<open>core/website/model.rs\<close>) and the error codes (\<open>core/website/error.rs\<close>).
\<close>

section \<open>Entities\<close>

text \<open>The panel's entities carry the edge's fields and a few more; the serde round trip to the edge
  drops the latter.\<close>

record site = site_in +
  st_key_type :: string

record panel_tuning = http_tuning +
  pt_hash_bucket :: nat
  pt_header_buffer :: string

definition site_to_edge :: "site \<Rightarrow> site_in" where
  "site_to_edge s = site_in.truncate s"

definition panel_tuning_default :: panel_tuning where
  "panel_tuning_default = http_tuning.extend http_tuning_default
     \<lparr>pt_hash_bucket = 64, pt_header_buffer = ''32k''\<rparr>"

record tuning_input =
  ti_hash_bucket :: "nat option"
  ti_gzip :: "bool option"
  ti_header_buffer :: "string option"
  ti_gzip_min_length :: "nat option"
  ti_max_body_size :: "string option"
  ti_gzip_comp_level :: "nat option"
  ti_keepalive :: "nat option"

section \<open>Errors\<close>

text \<open>The coded errors, and the two messages of path rules; the operations have more in \<open>op_error\<close>.\<close>

datatype website_error =
    AccessNotFound | BadAccessName | BadAuthPw | BadAuthUser | BadCertName | BadCertNameChars
  | BadClientAddr | BadContainer | BadContainerPort | BadDomain | BadFilePath | BadStaticDir
  | BadStaticDirName | BadTarget | BadTrustCidr | CertDomainExists | CertNotFound | DupAuthUser
  | DuplicateDomain | ExtraConfBad | ExtraConfTooLong | LeIssueTimeout | LeNeedDomainSpecific
  | LeNoHttp01 | LeVerifyTimeout | LocalRootAbs | LocalRootDenied | LocalRootMissing
  | LocalRootNotDir | ManualNoRenew | MissingAccessId | MissingCertName | MissingFilePath
  | MissingSiteId | NeedAccessName | NeedAuthPw | NeedCertDomain | NeedCertKey | NeedContainer
  | NeedDomain | NeedRoot | NeedStaticDir | NeedTarget | NotSetup | SiteNotFound | TooManyRules
  | UnknownCertMode | UnknownSiteKind | UnknownUploadMode
  | BadPathRule string | BadRuleTarget string

datatype tuning_error = HashBucket | CompLevel | MinLength | Keepalive | SizeValue | DefaultMode
  | RedirectUrl

definition tuning_err_code :: "tuning_error \<Rightarrow> string" where
  "tuning_err_code e = (case e of
       HashBucket \<Rightarrow> ''website.bad_hash_bucket'' | CompLevel \<Rightarrow> ''website.bad_comp_level''
     | MinLength \<Rightarrow> ''website.bad_min_length'' | Keepalive \<Rightarrow> ''website.bad_keepalive''
     | SizeValue \<Rightarrow> ''website.bad_size_value'' | DefaultMode \<Rightarrow> ''website.bad_default_mode''
     | RedirectUrl \<Rightarrow> ''website.bad_redirect_url'')"

section \<open>Validators\<close>

definition norm_key_type :: "string \<Rightarrow> string" where
  "norm_key_type s =
     (let t = trim s
      in if t = ''ecdsa-p384'' then ''ecdsa-p384'' else if t = ''ecdsa-p256'' then ''ecdsa-p256'' else [])"

definition name_char :: "char list \<Rightarrow> char \<Rightarrow> bool" where
  "name_char extra c \<longleftrightarrow> is_ascii_alphanumeric c \<or> c \<in> set extra"

definition valid_cert_name :: "string \<Rightarrow> bool" where
  "valid_cert_name s0 =
     (let s = trim s0
      in s \<noteq> [] \<and> length s \<le> 64 \<and> s \<noteq> ''.'' \<and> s \<noteq> ''..'' \<and> list_all (name_char ''_-.'') s)"

text \<open>\<open>char::is_control\<close>: general category Cc.\<close>

definition is_control :: "nat \<Rightarrow> bool" where
  "is_control c \<longleftrightarrow> c < 0x20 \<or> (0x7F \<le> c \<and> c \<le> 0x9F)"

definition valid_access_name :: "string \<Rightarrow> bool" where
  "valid_access_name s0 =
     (let s = trim s0
      in s \<noteq> [] \<and> length (chars s) \<le> 64 \<and>
         \<not> list_ex (\<lambda>c. is_control c \<or> c = 0x22 \<or> c = 0x5C) (chars s))"

definition valid_auth_username :: "string \<Rightarrow> bool" where
  "valid_auth_username s \<longleftrightarrow> s \<noteq> [] \<and> length s \<le> 64 \<and> list_all (name_char ''_-.@'') s"

definition valid_cidr :: "string \<Rightarrow> bool" where
  "valid_cidr s =
     (case split_once CHR ''/'' s of
        None \<Rightarrow> False
      | Some (addr, prefix) \<Rightarrow>
          (if CHR ''/'' \<in> set prefix then False
           else (case parse_u8 prefix of
                   None \<Rightarrow> False
                 | Some len \<Rightarrow>
                     (case parse_ip addr of
                        Some (V4 _) \<Rightarrow> len \<le> 32
                      | Some (V6 _) \<Rightarrow> len \<le> 128
                      | None \<Rightarrow> False))))"

definition valid_client_address :: "string \<Rightarrow> bool" where
  "valid_client_address s0 =
     (let s = trim s0
      in if s = ''all'' then True
         else if CHR ''/'' \<in> set s then valid_cidr s
         else parse_ip s \<noteq> None)"

definition valid_server_name :: "string \<Rightarrow> bool" where
  "valid_server_name s0 =
     (let s = trim s0
      in if s = [] \<or> 255 < length s then False
         else list_all (\<lambda>h. h \<noteq> [] \<and> length h \<le> 253 \<and> list_all (name_char ''.-*_'') h) (split_whitespace s))"

definition primary_host :: "string \<Rightarrow> string" where
  "primary_host server_name = (case split_whitespace server_name of h # _ \<Rightarrow> h | [] \<Rightarrow> [])"

definition valid_host_token :: "string \<Rightarrow> bool" where
  "valid_host_token s0 =
     (let s = trim s0 in s \<noteq> [] \<and> length s \<le> 255 \<and> list_all (name_char ''.-_:[]'') s)"

definition valid_container_name :: "string \<Rightarrow> bool" where
  "valid_container_name s0 =
     (let s = trim s0
      in s \<noteq> [] \<and> length s \<le> 128 \<and> \<not> starts_with s ''-'' \<and> list_all (name_char ''_.-'') s)"

definition valid_root_segment :: "string \<Rightarrow> bool" where
  "valid_root_segment s0 =
     (let s = trim s0
      in s \<noteq> [] \<and> length s \<le> 64 \<and> list_all (name_char ''_-.'') s \<and> s \<noteq> ''.'' \<and> s \<noteq> ''..'')"

definition valid_port :: "int \<Rightarrow> bool" where
  "valid_port p \<longleftrightarrow> 1 \<le> p \<and> p \<le> 65535"

definition norm_scheme_opt :: "string option \<Rightarrow> string" where
  "norm_scheme_opt s = (if map_option trim s = Some ''https'' then ''https'' else ''http'')"

definition valid_location_path :: "string \<Rightarrow> bool" where
  "valid_location_path s0 =
     (let s = trim s0 in starts_with s ''/'' \<and> length s \<le> 200 \<and> list_all (name_char ''/-_.~:@'') s)"

definition valid_redirect_url :: "string \<Rightarrow> bool" where
  "valid_redirect_url s \<longleftrightarrow> (starts_with s ''http://'' \<or> starts_with s ''https://'') \<and> length s \<le> 2048 \<and>
     \<not> list_ex (\<lambda>c. is_whitespace c \<or> c = 0x22 \<or> c = 0x5C) (chars s)"

definition valid_size_value :: "string \<Rightarrow> bool" where
  "valid_size_value s0 =
     (let s = trim s0; num = takeWhile is_ascii_digit s; unit = dropWhile is_ascii_digit s
      in s \<noteq> [] \<and> length s \<le> 12 \<and> num \<noteq> [] \<and>
         unit \<in> {[], ''k'', ''K'', ''m'', ''M'', ''g'', ''G''})"

section \<open>Tuning\<close>

definition size_field :: "string option \<Rightarrow> string \<Rightarrow> string" where
  "size_field inp cur =
     (case map_option trim inp of
        Some s \<Rightarrow> if s \<noteq> [] then s else cur
      | None \<Rightarrow> cur)"

definition merge_http_tuning :: "panel_tuning \<Rightarrow> tuning_input \<Rightarrow> tuning_error + panel_tuning" where
  "merge_http_tuning cur inp =
     (let snhbs = opt_or (ti_hash_bucket inp) (pt_hash_bucket cur);
          gcl = opt_or (ti_gzip_comp_level inp) (ht_gzip_comp_level cur);
          gmin = opt_or (ti_gzip_min_length inp) (ht_gzip_min_length cur);
          kat = opt_or (ti_keepalive inp) (ht_keepalive_timeout cur);
          chdr = size_field (ti_header_buffer inp) (pt_header_buffer cur);
          cmbs = size_field (ti_max_body_size inp) (ht_client_max_body_size cur)
      in if snhbs \<notin> {32, 64, 128, 256, 512} then Inl HashBucket
         else if \<not> (1 \<le> gcl \<and> gcl \<le> 9) then Inl CompLevel
         else if 10000000 < gmin then Inl MinLength
         else if 86400 < kat then Inl Keepalive
         else if \<not> valid_size_value chdr \<or> \<not> valid_size_value cmbs then Inl SizeValue
         else Inr \<lparr>ht_gzip = opt_or (ti_gzip inp) (ht_gzip cur), ht_gzip_min_length = gmin,
                   ht_client_max_body_size = cmbs, ht_gzip_comp_level = gcl,
                   ht_keepalive_timeout = kat, pt_hash_bucket = snhbs, pt_header_buffer = chdr\<rparr>)"

definition build_default_site :: "string \<Rightarrow> string \<Rightarrow> tuning_error + default_site" where
  "build_default_site mode_input redirect_url_input =
     (if mode_input \<notin> {''404'', ''welcome'', ''444'', ''redirect''} then Inl DefaultMode
      else (let redirect_url = trim redirect_url_input
            in if mode_input = ''redirect'' \<and> \<not> valid_redirect_url redirect_url then Inl RedirectUrl
               else Inr \<lparr>ds_mode = mode_input, ds_redirect_url = redirect_url\<rparr>))"

section \<open>Properties\<close>

definition tuning_ok :: "panel_tuning \<Rightarrow> bool" where
  "tuning_ok t \<longleftrightarrow> pt_hash_bucket t \<in> {32, 64, 128, 256, 512} \<and> 1 \<le> ht_gzip_comp_level t \<and>
     ht_gzip_comp_level t \<le> 9 \<and> ht_gzip_min_length t \<le> 10000000 \<and> ht_keepalive_timeout t \<le> 86400 \<and>
     valid_size_value (pt_header_buffer t) \<and> valid_size_value (ht_client_max_body_size t)"

text \<open>Tuning stays within its bounds: a merge either refuses, naming the first field out of
  bounds, or yields settings in bounds; an empty request changes nothing of settings in bounds,
  and the defaults are in bounds.\<close>

theorem merge_http_tuning_sound:
  "(\<forall>t. merge_http_tuning cur inp = Inr t \<longrightarrow> tuning_ok t) \<and>
   (tuning_ok cur \<longrightarrow> merge_http_tuning cur \<lparr>ti_hash_bucket = None, ti_gzip = None, ti_header_buffer = None,
      ti_gzip_min_length = None, ti_max_body_size = Some [], ti_gzip_comp_level = None,
      ti_keepalive = None\<rparr> = Inr cur)"
  by (auto simp: merge_http_tuning_def Let_def tuning_ok_def opt_or_def size_field_def split: if_splits)

lemma panel_tuning_default_ok: "tuning_ok panel_tuning_default"
proof -
  have t: "trim ''32k'' = ''32k''" "trim ''1024m'' = ''1024m''"
    by (auto intro!: trim_plain simp: plain_char_def ws1_def ws2_def ws3_def)
  show ?thesis
    by (simp add: tuning_ok_def panel_tuning_default_def http_tuning.extend_def http_tuning_default_def
      valid_size_value_def Let_def t is_ascii_digit_def)
qed

theorem merge_http_tuning_sound_witness:
  "merge_http_tuning panel_tuning_default \<lparr>ti_hash_bucket = None, ti_gzip = None, ti_header_buffer = None,
      ti_gzip_min_length = None, ti_max_body_size = Some [], ti_gzip_comp_level = None,
      ti_keepalive = None\<rparr> = Inr panel_tuning_default"
  using merge_http_tuning_sound [of panel_tuning_default] panel_tuning_default_ok by blast

end
