(* ===== verification/Edge_Reload.thy ===== *)
theory Edge_Reload
  imports Edge_Build Website_Rules
begin

text \<open>
  Validation and publication of a built table (\<open>crates/dn7-edge/src/validate.rs\<close>, \<open>reload.rs\<close>,
  \<open>store.rs\<close>), and what the builder, the gate and the swap guarantee together.
\<close>

section \<open>Validation\<close>

definition check_route :: "('n, 'c) runtime_config \<Rightarrow> 'n server_route \<Rightarrow> string \<Rightarrow> string + unit" where
  "check_route cfg route cert_host =
     (if rt_ssl route \<and> cert_resolve (rc_certs cfg) (Some cert_host) = None then
        Inl (''site '' @ rt_id route @ '': listen 443 ssl is set but no certificate resolves for '' @ cert_host)
      else (case find (\<lambda>l. \<not> starts_with (lr_path l) ''/'') (rt_locations route) of
              Some l \<Rightarrow> Inl (''site '' @ rt_id route @ '': location '' @ lr_path l @ '' must start with /'')
            | None \<Rightarrow>
                (case rt_kind route of
                   Static s \<Rightarrow>
                     (if \<not> path_is_absolute (sr_root s)
                      then Inl (''site '' @ rt_id route @ '': static root must be an absolute path'')
                      else Inr ())
                 | _ \<Rightarrow> Inr ())))"

fun check_all :: "('a \<Rightarrow> string + unit) \<Rightarrow> 'a list \<Rightarrow> string + unit" where
  "check_all f [] = Inr ()"
| "check_all f (x # xs) = (case f x of Inl e \<Rightarrow> Inl e | Inr _ \<Rightarrow> check_all f xs)"

definition validate :: "('n, 'c) runtime_config \<Rightarrow> string + unit" where
  "validate cfg =
     (case check_all (\<lambda>(host, route). check_route cfg route host) (rc_hosts cfg) of
        Inl e \<Rightarrow> Inl e
      | Inr _ \<Rightarrow>
          (case check_all (\<lambda>(suffix, route). check_route cfg route (''wildcard-check'' @ suffix))
                  (rc_wildcards cfg) of
             Inl e \<Rightarrow> Inl e
           | Inr _ \<Rightarrow>
               (case rc_default_site cfg of
                  DefRedirect url \<Rightarrow>
                    (if trim url = [] then Inl ''default site is set to redirect but has no target URL''
                     else Inr ())
                | _ \<Rightarrow> Inr ())))"

section \<open>Publication\<close>

text \<open>The store is the current configuration; \<open>publish\<close> replaces it in one step.\<close>

definition publish :: "('n, 'c) runtime_config \<Rightarrow> ('n, 'c) runtime_config \<Rightarrow> ('n, 'c) runtime_config" where
  "publish cfg current = cfg"

definition reload :: "('n, 'c) build_lib \<Rightarrow> reload_input \<Rightarrow> ('n, 'c) runtime_config \<Rightarrow>
    ('n, 'c) runtime_config \<times> (string + unit)" where
  "reload L inp current =
     (case build_runtime L inp of
        Inl e \<Rightarrow> (current, Inl e)
      | Inr cfg \<Rightarrow>
          (case validate cfg of
             Inl e \<Rightarrow> (current, Inl e)
           | Inr _ \<Rightarrow> (publish cfg current, Inr ())))"

section \<open>Indexing\<close>

text \<open>What a table holds for a host key: wildcard keys and exact ones live in two maps.\<close>

definition claimed :: "('n, 'c) runtime_config \<Rightarrow> string \<Rightarrow> 'n server_route option" where
  "claimed cfg key =
     (case strip_prefix key ''*.'' of
        Some s \<Rightarrow> map_of (rc_wildcards cfg) (''.'' @ s)
      | None \<Rightarrow> hm_get (rc_hosts cfg) key)"

definition site_keys :: "('z) site_in_scheme \<Rightarrow> string list" where
  "site_keys s = map to_ascii_lowercase (split_names (si_server_name s))"

lemma list_ex_fst: "list_ex (\<lambda>e. fst e = k) m \<longleftrightarrow> map_of m k \<noteq> None"
  by (induction m) auto

lemma claimed_certs [simp]: "claimed (cfg\<lparr>rc_certs := c\<rparr>) k = claimed cfg k"
  by (simp add: claimed_def split: option.split)

lemma index_route_Inl:
  "(\<exists>e. index_route r n cfg = Inl e) \<longleftrightarrow> claimed cfg (to_ascii_lowercase n) \<noteq> None"
  by (auto simp: index_route_def claimed_def Let_def list_ex_fst split: option.splits)

lemma index_route_Inr:
  assumes "index_route r n cfg = Inr cfg'"
  shows "claimed cfg' k = (if k = to_ascii_lowercase n then Some r else claimed cfg k)"
proof (cases "strip_prefix (to_ascii_lowercase n) ''*.''")
  case None
  with assms show ?thesis
    by (auto simp: index_route_def claimed_def Let_def hm_get_insert split: if_splits option.splits)
next
  case (Some s)
  with assms have m: "map_of (rc_wildcards cfg) (''.'' @ s) = None"
    and c: "cfg' = cfg\<lparr>rc_wildcards := rc_wildcards cfg @ [(''.'' @ s, r)]\<rparr>"
    by (auto simp: index_route_def Let_def list_ex_fst split: if_splits)
  from Some have n: "to_ascii_lowercase n = ''*.'' @ s" by (simp only: strip_prefix_Some)
  show ?thesis
  proof (cases "strip_prefix k ''*.''")
    case None
    then have "k \<noteq> to_ascii_lowercase n" using Some by auto
    with None show ?thesis by (simp add: claimed_def c)
  next
    case (Some t)
    then have k: "k = ''*.'' @ t" by (simp only: strip_prefix_Some)
    show ?thesis using m by (simp add: claimed_def Some c n) (auto simp: k map_add_def split: option.splits)
  qed
qed

lemma index_route_frame:
  "index_route r n cfg = Inr cfg' \<Longrightarrow> rc_certs cfg' = rc_certs cfg \<and> rc_default_site cfg' = rc_default_site cfg"
  by (auto simp: index_route_def Let_def split: if_splits option.splits)

lemma index_routes_frame:
  "index_routes r ns cfg = Inr cfg' \<Longrightarrow> rc_certs cfg' = rc_certs cfg \<and> rc_default_site cfg' = rc_default_site cfg"
  by (induction ns arbitrary: cfg) (auto split: sum.splits dest: index_route_frame)

lemma index_routes_Inr:
  "index_routes r ns cfg = Inr cfg' \<Longrightarrow>
   claimed cfg' k = (if k \<in> to_ascii_lowercase ` set ns then Some r else claimed cfg k)"
proof (induction ns arbitrary: cfg)
  case (Cons n ns)
  from Cons.prems obtain cfg1 where 1: "index_route r n cfg = Inr cfg1" and 2: "index_routes r ns cfg1 = Inr cfg'"
    by (auto split: sum.splits)
  from Cons.IH [OF 2] index_route_Inr [OF 1, of k] show ?case by auto
qed simp

lemma index_routes_ok:
  "(\<exists>cfg'. index_routes r ns cfg = Inr cfg') \<longleftrightarrow>
   distinct (map to_ascii_lowercase ns) \<and> (\<forall>n \<in> set ns. claimed cfg (to_ascii_lowercase n) = None)"
proof (induction ns arbitrary: cfg)
  case (Cons n ns)
  show ?case
  proof (cases "index_route r n cfg")
    case (Inl e)
    then show ?thesis using index_route_Inl [of r n cfg] by auto
  next
    case (Inr cfg1)
    then have "claimed cfg (to_ascii_lowercase n) = None"
      using index_route_Inl [of r n cfg] by auto
    moreover note index_route_Inr [OF Inr]
    ultimately show ?thesis using Cons.IH [of cfg1] by (auto simp: Inr image_iff)
  qed
qed simp

lemma build_site_ok:
  "(\<exists>cfg'. build_site L inp s cfg = Inr cfg') \<longleftrightarrow>
   distinct (site_keys s) \<and> (\<forall>k \<in> set (site_keys s). claimed cfg k = None)"
  by (simp add: build_site_def Let_def index_routes_ok site_keys_def)

lemma build_site_claimed:
  "build_site L inp s cfg = Inr cfg' \<Longrightarrow>
   claimed cfg' k = (if k \<in> set (site_keys s) then Some (site_route L inp s) else claimed cfg k)"
  using index_routes_Inr [of "site_route L inp s" "split_names (si_server_name s)" _ cfg' k]
  by (simp add: build_site_def Let_def site_keys_def)

lemma build_sites_ok:
  "(\<exists>cfg'. build_sites L inp ss cfg = Inr cfg') \<longleftrightarrow>
   distinct (concat (map site_keys ss)) \<and> (\<forall>s \<in> set ss. \<forall>k \<in> set (site_keys s). claimed cfg k = None)"
proof (induction ss arbitrary: cfg)
  case (Cons s ss)
  show ?case
  proof (cases "build_site L inp s cfg")
    case (Inl e)
    then show ?thesis using build_site_ok [of L inp s cfg] by auto
  next
    case (Inr cfg1)
    then have "distinct (site_keys s)" "\<forall>k \<in> set (site_keys s). claimed cfg k = None"
      using build_site_ok [of L inp s cfg] by auto
    moreover note build_site_claimed [OF Inr]
    ultimately show ?thesis using Cons.IH [of cfg1]
      by (simp add: Inr) (auto split: if_splits)
  qed
qed simp

lemma build_sites_other:
  "build_sites L inp ss cfg = Inr cfg' \<Longrightarrow> \<forall>s \<in> set ss. k \<notin> set (site_keys s) \<Longrightarrow> claimed cfg' k = claimed cfg k"
proof (induction ss arbitrary: cfg)
  case (Cons s ss)
  from Cons.prems obtain cfg1 where 1: "build_site L inp s cfg = Inr cfg1" and 2: "build_sites L inp ss cfg1 = Inr cfg'"
    by (auto split: sum.splits)
  from Cons.IH [OF 2] build_site_claimed [OF 1, of k] Cons.prems(2) show ?case by auto
qed simp

lemma build_sites_claimed:
  "build_sites L inp ss cfg = Inr cfg' \<Longrightarrow> distinct (concat (map site_keys ss)) \<Longrightarrow> s \<in> set ss \<Longrightarrow>
   k \<in> set (site_keys s) \<Longrightarrow> claimed cfg' k = Some (site_route L inp s)"
proof (induction ss arbitrary: cfg)
  case (Cons a ss)
  from Cons.prems obtain cfg1 where 1: "build_site L inp a cfg = Inr cfg1" and 2: "build_sites L inp ss cfg1 = Inr cfg'"
    by (auto split: sum.splits)
  show ?case
  proof (cases "s \<in> set ss")
    case True
    with Cons.IH [OF 2] Cons.prems show ?thesis by auto
  next
    case False
    with Cons.prems have "s = a" "\<forall>t \<in> set ss. k \<notin> set (site_keys t)" by auto
    with build_sites_other [OF 2] build_site_claimed [OF 1, of k] Cons.prems(4) show ?thesis by auto
  qed
qed simp

section \<open>Certificates\<close>

definition resolves :: "'c cert_store \<Rightarrow> string \<Rightarrow> bool" where
  "resolves cs h \<longleftrightarrow> cert_resolve cs (Some h) \<noteq> None"

lemma to_ascii_lowercase_idem [simp]: "to_ascii_lowercase (to_ascii_lowercase s) = to_ascii_lowercase s"
proof -
  have "list_all (\<lambda>c. \<not> is_ascii_uppercase (to_ascii_lower_char c)) ''ABCDEFGHIJKLMNOPQRSTUVWXYZ''"
    by code_simp
  then have "is_ascii_uppercase c \<Longrightarrow> \<not> is_ascii_uppercase (to_ascii_lower_char c)" for c
    unfolding list_all_iff is_ascii_uppercase_def by blast
  then have "to_ascii_lower_char (to_ascii_lower_char c) = to_ascii_lower_char c" for c
    by (cases "is_ascii_uppercase c") (simp_all add: to_ascii_lower_char_def)
  then show ?thesis by (simp add: to_ascii_lowercase_def)
qed

lemma best_wildcard_None: "best_wildcard k ws = None \<longleftrightarrow> \<not> list_ex (\<lambda>e. wildcard_matches k (fst e)) ws"
  by (auto simp: best_wildcard_def filter_empty_conv list_ex_iff)

lemma resolves_iff:
  "resolves cs h \<longleftrightarrow> (let k = to_ascii_lowercase h in hm_get (cs_by_host cs) k \<noteq> None \<or>
     list_ex (\<lambda>e. wildcard_matches k (fst e)) (cs_wildcards cs) \<or> cs_default cs \<noteq> None)"
  by (cases "best_wildcard (to_ascii_lowercase h) (cs_wildcards cs)")
    (use best_wildcard_None [of "to_ascii_lowercase h" "cs_wildcards cs"] in
      \<open>auto simp: resolves_def cert_resolve_def Let_def split: option.splits\<close>)

lemma resolves_index_mono: "resolves cs h \<Longrightarrow> resolves (index_cert cs n ck) h"
  by (auto simp: resolves_iff index_cert_def Let_def hm_get_insert split: option.splits)

lemma resolves_index_fold: "resolves cs h \<Longrightarrow> resolves (foldl (\<lambda>cs n. index_cert cs n ck) cs ns) h"
  by (induction ns arbitrary: cs) (auto intro: resolves_index_mono)

text \<open>The host that \<open>validate\<close> tries for a key.\<close>

definition probe :: "string \<Rightarrow> string" where
  "probe key = (case strip_prefix key ''*.'' of Some s \<Rightarrow> ''wildcard-check.'' @ s | None \<Rightarrow> key)"

lemma wildcard_check_matches:
  assumes "to_ascii_lowercase s = s"
  shows "wildcard_matches (to_ascii_lowercase (''wildcard-check.'' @ s)) (''.'' @ s)"
proof -
  have l: "to_ascii_lowercase (''wildcard-check.'' @ s) = ''wildcard-check'' @ ''.'' @ s"
    using assms by (simp add: to_ascii_lowercase_def to_ascii_lower_char_def is_ascii_uppercase_def byte_def)
  have "strip_suffix (''wildcard-check'' @ ''.'' @ s) (''.'' @ s) = Some ''wildcard-check''"
    by (subst strip_suffix_Some) (rule refl)
  then show ?thesis unfolding l wildcard_matches_def by simp
qed

lemma lower_suffix:
  assumes "to_ascii_lowercase n = ''*.'' @ s" shows "to_ascii_lowercase s = s"
proof -
  have "to_ascii_lowercase (''*.'' @ s) = ''*.'' @ s" using assms by (metis to_ascii_lowercase_idem)
  then show ?thesis by (simp add: to_ascii_lowercase_def)
qed

lemma resolves_index_probe: "resolves (index_cert cs n ck) (probe (to_ascii_lowercase n))"
proof (cases "strip_prefix (to_ascii_lowercase n) ''*.''")
  case None
  then show ?thesis by (simp add: resolves_iff probe_def index_cert_def Let_def hm_get_insert)
next
  case (Some s)
  then have "to_ascii_lowercase s = s" by (intro lower_suffix) (simp only: strip_prefix_Some)
  from wildcard_check_matches [OF this] Some show ?thesis
    by (simp add: resolves_iff probe_def index_cert_def Let_def)
qed

lemma resolves_index_names:
  "n \<in> set ns \<Longrightarrow> resolves (foldl (\<lambda>cs n. index_cert cs n ck) cs ns) (probe (to_ascii_lowercase n))"
  by (induction ns arbitrary: cs) (auto intro: resolves_index_fold resolves_index_probe)

lemma build_site_resolves:
  "build_site L inp s cfg = Inr cfg' \<Longrightarrow> resolves (rc_certs cfg) h \<Longrightarrow> resolves (rc_certs cfg') h"
  by (auto simp: build_site_def Let_def dest!: index_routes_frame intro: resolves_index_fold split: option.splits)

lemma build_site_resolves_own:
  "build_site L inp s cfg = Inr cfg' \<Longrightarrow> site_cert L inp s \<noteq> None \<Longrightarrow> k \<in> set (site_keys s) \<Longrightarrow>
   resolves (rc_certs cfg') (probe k)"
  by (auto simp: build_site_def Let_def site_keys_def dest!: index_routes_frame intro: resolves_index_names)

lemma build_sites_resolves:
  "build_sites L inp ss cfg = Inr cfg' \<Longrightarrow> resolves (rc_certs cfg) h \<Longrightarrow> resolves (rc_certs cfg') h"
  by (induction ss arbitrary: cfg) (auto split: sum.splits dest: build_site_resolves)

lemma build_sites_resolves_own:
  "build_sites L inp ss cfg = Inr cfg' \<Longrightarrow> s \<in> set ss \<Longrightarrow> site_cert L inp s \<noteq> None \<Longrightarrow>
   k \<in> set (site_keys s) \<Longrightarrow> resolves (rc_certs cfg') (probe k)"
  by (induction ss arbitrary: cfg)
    (auto split: sum.splits intro: build_sites_resolves dest: build_site_resolves_own)

section \<open>The console\<close>

definition console_keys :: "reload_input \<Rightarrow> string set" where
  "console_keys inp = {''localhost'', ''127.0.0.1''} \<union>
     (if console_ext inp \<noteq> [] \<and> \<not> cp_dedicated_console (ri_console inp) then {console_ext inp} else {})"

lemma inject_other:
  "k \<notin> console_keys inp \<Longrightarrow> hm_get (rc_hosts (inject_console_route L inp cfg)) k = hm_get (rc_hosts cfg) k"
  by (auto simp: inject_console_route_def Let_def console_keys_def hm_get_insert split: option.splits if_splits)

lemma inject_wildcards [simp]: "rc_wildcards (inject_console_route L inp cfg) = rc_wildcards cfg"
  by (simp add: inject_console_route_def Let_def split: option.split)

lemma inject_default [simp]: "rc_default_site (inject_console_route L inp cfg) = rc_default_site cfg"
  by (simp add: inject_console_route_def Let_def split: option.split)

lemma inject_claimed:
  "k \<notin> console_keys inp \<Longrightarrow> claimed (inject_console_route L inp cfg) k = claimed cfg k"
  by (simp add: claimed_def inject_other split: option.split)

lemma inject_console:
  "k \<in> console_keys inp \<Longrightarrow>
   \<exists>r. hm_get (rc_hosts (inject_console_route L inp cfg)) k = Some r \<and> rt_id r = ''__console__''"
  by (auto simp: inject_console_route_def Let_def console_keys_def hm_get_insert loopback_route_def
      console_route_def split: option.splits if_splits)

lemma inject_resolves: "resolves (rc_certs cfg) h \<Longrightarrow> resolves (rc_certs (inject_console_route L inp cfg)) h"
  by (auto simp: inject_console_route_def Let_def intro: resolves_index_mono split: option.splits)

lemma build_base_claimed: "claimed (build_base L inp) k = None"
  by (simp add: claimed_def build_base_def runtime_config_default_def hm_get_Nil split: option.split)

lemma build_runtime_ok: "is_Ok (build_runtime L inp) \<longleftrightarrow> distinct (concat (map site_keys (ri_sites inp)))"
proof -
  have "(\<exists>cfg. build_sites L inp (ri_sites inp) (build_base L inp) = Inr cfg) \<longleftrightarrow>
      distinct (concat (map site_keys (ri_sites inp)))"
    by (simp add: build_sites_ok build_base_claimed)
  then show ?thesis by (auto simp: build_runtime_def split: sum.splits)
qed

section \<open>Properties\<close>

text \<open>C2: the table built is the specification: building succeeds exactly when the sites' host keys
  are distinct; each key then goes to the route of the site that names it, the console's keys go
  to the console, and no other key is claimed.\<close>

theorem routing_table_exact:
  "(is_Ok (build_runtime L inp) \<longleftrightarrow> distinct (concat (map site_keys (ri_sites inp)))) \<and>
   (\<forall>cfg. build_runtime L inp = Inr cfg \<longrightarrow>
      (\<forall>s k. s \<in> set (ri_sites inp) \<longrightarrow> k \<in> set (site_keys s) \<longrightarrow> k \<notin> console_keys inp \<longrightarrow>
         claimed cfg k = Some (site_route L inp s)) \<and>
      (\<forall>k. (\<forall>s \<in> set (ri_sites inp). k \<notin> set (site_keys s)) \<longrightarrow> k \<notin> console_keys inp \<longrightarrow> claimed cfg k = None) \<and>
      (\<forall>k \<in> console_keys inp. \<exists>r. hm_get (rc_hosts cfg) k = Some r \<and> rt_id r = ''__console__''))"
proof (intro conjI allI impI ballI)
  show "is_Ok (build_runtime L inp) \<longleftrightarrow> distinct (concat (map site_keys (ri_sites inp)))"
    by (rule build_runtime_ok)
  fix cfg assume b: "build_runtime L inp = Inr cfg"
  then obtain c where c: "build_sites L inp (ri_sites inp) (build_base L inp) = Inr c"
    and cfg: "cfg = inject_console_route L inp c"
    by (auto simp: build_runtime_def split: sum.splits)
  from build_runtime_ok [of L inp] b have d: "distinct (concat (map site_keys (ri_sites inp)))" by simp
  show "claimed cfg k = Some (site_route L inp s)"
    if "s \<in> set (ri_sites inp)" "k \<in> set (site_keys s)" "k \<notin> console_keys inp" for s k
    using build_sites_claimed [OF c d that(1,2)] by (simp add: cfg inject_claimed [OF that(3)])
  show "claimed cfg k = None"
    if "\<forall>s \<in> set (ri_sites inp). k \<notin> set (site_keys s)" "k \<notin> console_keys inp" for k
    using build_sites_other [OF c that(1)] by (simp add: cfg build_base_claimed inject_claimed [OF that(2)])
  show "\<exists>r. hm_get (rc_hosts cfg) k = Some r \<and> rt_id r = ''__console__''" if "k \<in> console_keys inp" for k
    unfolding cfg by (rule inject_console [OF that])
qed

text \<open>A closed model for the witnesses: one static site; no certificate loads.\<close>

definition demo_lib :: "(ip_addr \<times> nat, unit) build_lib" where
  "demo_lib = \<lparr>bl_nets = demo_nets, bl_load = (\<lambda>_ _. None)\<rparr>"

definition demo_site :: site_in where
  "demo_site = \<lparr>si_id = ''1'', si_server_name = ''shop'', si_kind = ''static'', si_target_url = [],
     si_container = [], si_container_port = 0, si_root = ''shop'', si_local_root = [], si_ssl = False,
     si_cert_name = [], si_scheme = ''http'', si_cache = False, si_block_attacks = False,
     si_websockets = True, si_force_ssl = True, si_hsts = False, si_hsts_sub = False,
     si_trust_proxy = False, si_trust_proxy_cidrs = [],
     si_locations = [\<lparr>li_path = ''/api'', li_scheme = ''http'', li_target = ''10.0.0.1:81'',
       li_websockets = True, li_kind = ''host'', li_container = [], li_container_port = 0\<rparr>],
     si_extra_conf = [], si_rate_limit_rps = 0, si_rate_limit_burst = 0, si_bandwidth_kbps = 0,
     si_autoban_threshold = 0, si_autoban_window = 0, si_autoban_minutes = 0, si_cert_mode = ''self'',
     si_http2 = True, si_conn_per_ip = 0, si_ip_acl_mode = [], si_ip_acl_list = [],
     si_hotlink_referers = [], si_access_id = []\<rparr>"

definition demo_input :: "site_in list \<Rightarrow> reload_input" where
  "demo_input sites = \<lparr>ri_sites = sites, ri_access = [], ri_default_site = default_site_default,
     ri_tuning = http_tuning_default, ri_cert_dir = ''/c'', ri_www_dir = ''/w'',
     ri_console = \<lparr>cp_external_address = [], cp_https_mode = ''none'', cp_initialized = True,
       cp_dedicated_console = False\<rparr>\<rparr>"

lemma demo_console_ext: "console_ext (demo_input ss) = []"
  by (simp add: console_ext_def demo_input_def to_ascii_lowercase_def bracket_if_ipv6_def parse_ipv6_def
      read_ipv6_def read_given_def read_sep_def read_ipv4_def)

lemma demo_site_keys: "site_keys demo_site = [''shop'']"
  by (simp add: site_keys_def demo_site_def split_names_def split_whitespace_def split_ws_acc.simps
      ws_len_def ws1_def ws2_def ws3_def to_ascii_lowercase_def to_ascii_lower_char_def is_ascii_uppercase_def)

theorem routing_table_exact_witness:
  "(\<exists>cfg. build_runtime demo_lib (demo_input [demo_site]) = Inr cfg \<and>
      claimed cfg ''shop'' = Some (site_route demo_lib (demo_input [demo_site]) demo_site)) \<and>
   \<not> is_Ok (build_runtime demo_lib (demo_input [demo_site, demo_site]))"
proof -
  have k: "''shop'' \<notin> console_keys (demo_input [demo_site])"
    by (simp add: console_keys_def demo_console_ext)
  have ok: "is_Ok (build_runtime demo_lib (demo_input [demo_site]))"
    using routing_table_exact [THEN conjunct1, of demo_lib "demo_input [demo_site]"]
    by (simp add: demo_input_def demo_site_keys)
  then obtain cfg where b: "build_runtime demo_lib (demo_input [demo_site]) = Inr cfg" by (rule is_OkE)
  have "claimed cfg ''shop'' = Some (site_route demo_lib (demo_input [demo_site]) demo_site)"
    by (rule routing_table_exact [THEN conjunct2, rule_format, THEN conjunct1, rule_format, OF b _ _ k])
      (simp_all add: demo_site_keys, simp add: demo_input_def)
  moreover have "\<not> is_Ok (build_runtime demo_lib (demo_input [demo_site, demo_site]))"
    using routing_table_exact [THEN conjunct1, of demo_lib "demo_input [demo_site, demo_site]"]
    by (simp add: demo_input_def demo_site_keys)
  ultimately show ?thesis using b by blast
qed

end
