(* ===== verification/Edge_Publish.thy ===== *)
theory Edge_Publish
  imports Edge_Reload
begin

text \<open>
  What a reload guarantees: a rejected model leaves the live table alone, a model the panel
  accepts is published with a certificate behind every TLS host, access lists fail closed, and the
  most specific path rule wins.
\<close>

section \<open>Reload\<close>

definition site_servable :: "reload_input \<Rightarrow> ('z) site_in_scheme \<Rightarrow> bool" where
  "site_servable inp s \<longleftrightarrow>
     (\<forall>l \<in> set (si_locations s). starts_with (li_path l) ''/'') \<and>
     (si_kind s = ''static'' \<longrightarrow>
        path_is_absolute (if si_local_root s = [] then path_join (ri_www_dir inp) (si_root s) else si_local_root s))"

definition default_servable :: "default_site \<Rightarrow> bool" where
  "default_servable d \<longleftrightarrow> (ds_mode d = ''redirect'' \<longrightarrow> trim (ds_redirect_url d) \<noteq> [])"

lemma check_all_Inr: "check_all f xs = Inr () \<longleftrightarrow> (\<forall>x \<in> set xs. f x = Inr ())"
  by (induction xs) (auto split: sum.splits)

lemma find_SomeD: "find P xs = Some x \<Longrightarrow> x \<in> set xs \<and> P x"
  by (auto simp: find_Some_iff)

lemma check_route_Inr:
  "check_route cfg r h = Inr () \<longleftrightarrow>
     (rt_ssl r \<longrightarrow> resolves (rc_certs cfg) h) \<and> (\<forall>l \<in> set (rt_locations r). starts_with (lr_path l) ''/'') \<and>
     (\<forall>s. rt_kind r = Static s \<longrightarrow> path_is_absolute (sr_root s))"
  by (auto simp: check_route_def resolves_def find_None_iff split: option.splits route_kind.splits
      dest!: find_SomeD)

lemma set_sort_locs [simp]: "set (sort_locs ls) = set ls"
proof -
  have "set (insert_loc l ms) = insert l (set ms)" for l ms by (induction ms) auto
  then show ?thesis by (induction ls) (simp_all add: sort_locs_def)
qed

lemma site_route_checked:
  assumes "site_servable inp s" and "site_cert L inp s \<noteq> None \<longrightarrow> resolves (rc_certs cfg) h"
  shows "check_route cfg (site_route L inp s) h = Inr ()"
proof -
  have "\<forall>l \<in> set (rt_locations (site_route L inp s)). starts_with (lr_path l) ''/''"
    using assms(1) by (auto simp: build_locations_def build_location_def site_servable_def)
  moreover have "\<forall>r. rt_kind (site_route L inp s) = Static r \<longrightarrow> path_is_absolute (sr_root r)"
    using assms(1) by (auto simp: build_kind_def site_servable_def)
  ultimately show ?thesis using assms(2) by (simp add: check_route_Inr)
qed

text \<open>The tables of a built configuration hold the site routes, each under one of its keys, and then
  the console's.\<close>

definition table_ok :: "('n, 'c) build_lib \<Rightarrow> reload_input \<Rightarrow> ('n, 'c) runtime_config \<Rightarrow> site_in list \<Rightarrow> bool" where
  "table_ok L inp cfg ss \<longleftrightarrow>
     (\<forall>(h, r) \<in> set (rc_hosts cfg). \<exists>s \<in> set ss. r = site_route L inp s \<and> h \<in> set (site_keys s) \<and> probe h = h) \<and>
     (\<forall>(w, r) \<in> set (rc_wildcards cfg). \<exists>s \<in> set ss. r = site_route L inp s \<and>
        ''*'' @ w \<in> set (site_keys s) \<and> probe (''*'' @ w) = ''wildcard-check'' @ w)"

lemma table_ok_mono: "table_ok L inp cfg ss \<Longrightarrow> set ss \<subseteq> set ts \<Longrightarrow> table_ok L inp cfg ts"
  unfolding table_ok_def by fast

lemma probe_wildcard: "probe (''*'' @ ''.'' @ s) = ''wildcard-check'' @ ''.'' @ s"
proof -
  have "strip_prefix (''*.'' @ s) ''*.'' = Some s" by (subst strip_prefix_Some) (rule refl)
  then show ?thesis by (simp add: probe_def)
qed

lemma index_route_table:
  assumes "index_route (site_route L inp s) n cfg = Inr cfg'" and "table_ok L inp cfg ss"
    and "s \<in> set ss" and "to_ascii_lowercase n \<in> set (site_keys s)"
  shows "table_ok L inp cfg' ss"
proof (cases "strip_prefix (to_ascii_lowercase n) ''*.''")
  case None
  with assms(1) have c: "cfg' = cfg\<lparr>rc_hosts := hm_insert (to_ascii_lowercase n) (site_route L inp s) (rc_hosts cfg)\<rparr>"
    by (auto simp: index_route_def Let_def split: if_splits)
  have "set (hm_insert k v m) \<subseteq> insert (k, v) (set m)" for k :: string and v :: "'a server_route" and m
    by (auto simp: hm_insert_def set_hm_remove)
  with None assms(2-4) show ?thesis by (fastforce simp: c table_ok_def probe_def)
next
  case (Some t)
  then have n: "to_ascii_lowercase n = ''*'' @ ''.'' @ t" by (simp only: strip_prefix_Some append.simps)
  from assms(1) Some have c: "cfg' = cfg\<lparr>rc_wildcards := rc_wildcards cfg @ [(''.'' @ t, site_route L inp s)]\<rparr>"
    by (auto simp: index_route_def Let_def split: if_splits)
  from assms(2-4) n probe_wildcard [of t] show ?thesis by (auto simp: c table_ok_def)
qed

lemma index_routes_table:
  "index_routes (site_route L inp s) ns cfg = Inr cfg' \<Longrightarrow> table_ok L inp cfg ss \<Longrightarrow> s \<in> set ss \<Longrightarrow>
   to_ascii_lowercase ` set ns \<subseteq> set (site_keys s) \<Longrightarrow> table_ok L inp cfg' ss"
proof (induction ns arbitrary: cfg)
  case (Cons n ns)
  from Cons.prems(1) obtain c where 1: "index_route (site_route L inp s) n cfg = Inr c"
    and 2: "index_routes (site_route L inp s) ns c = Inr cfg'" by (auto split: sum.splits)
  from Cons.IH [OF 2] index_route_table [OF 1 Cons.prems(2,3)] Cons.prems(3,4) show ?case by simp
qed simp

lemma build_sites_table:
  "build_sites L inp ss cfg = Inr cfg' \<Longrightarrow> table_ok L inp cfg ts \<Longrightarrow> set ss \<subseteq> set ts \<Longrightarrow> table_ok L inp cfg' ts"
proof (induction ss arbitrary: cfg)
  case (Cons s ss)
  from Cons.prems(1) obtain c where 1: "build_site L inp s cfg = Inr c"
    and 2: "build_sites L inp ss c = Inr cfg'" by (auto split: sum.splits)
  have t: "table_ok L inp (cfg\<lparr>rc_certs := x\<rparr>) ts" for x using Cons.prems(2) by (simp add: table_ok_def)
  from 1 have "index_routes (site_route L inp s) (split_names (si_server_name s)) (cfg\<lparr>rc_certs :=
      (case site_cert L inp s of
         Some ck \<Rightarrow> foldl (\<lambda>cs n. index_cert cs n ck) (rc_certs cfg) (split_names (si_server_name s))
       | None \<Rightarrow> rc_certs cfg)\<rparr>) = Inr c"
    unfolding build_site_def Let_def site_route_simps .
  from index_routes_table [OF this t] Cons.prems(3) have "table_ok L inp c ts" by (simp add: site_keys_def)
  from Cons.IH [OF 2 this] Cons.prems(3) show ?case by simp
qed simp

lemma inject_hosts:
  "(h, r) \<in> set (rc_hosts (inject_console_route L inp cfg)) \<Longrightarrow>
   (h, r) \<in> set (rc_hosts cfg) \<or> r = loopback_route \<or>
   (r = console_route (console_cert L inp \<noteq> None) (console_cert L inp \<noteq> None \<and> cp_initialized (ri_console inp))
          [console_ext inp] \<and> h = console_ext inp \<and> console_ext inp \<noteq> [] \<and>
      console_ext inp \<noteq> ''localhost'' \<and> console_ext inp \<noteq> ''127.0.0.1'' \<and>
      \<not> cp_dedicated_console (ri_console inp))"
  by (auto simp: inject_console_route_def Let_def hm_insert_def set_hm_remove split: option.splits if_splits)

lemma trim_brackets:
  "CHR ''['' \<notin> set e \<Longrightarrow> CHR '']'' \<notin> set e \<Longrightarrow> trim_end_matches CHR '']'' (trim_start_matches CHR ''['' e) = e"
proof -
  assume 1: "CHR ''['' \<notin> set e" and 2: "CHR '']'' \<notin> set e"
  have "dropWhile (\<lambda>x. x = c) xs = xs" if "c \<notin> set xs" for c :: char and xs
    using that by (cases xs) auto
  with 1 2 show ?thesis by (simp add: trim_start_matches_def trim_end_matches_def)
qed

text \<open>A TLS route of the console resolves when the address is not bracketed.\<close>

lemma resolves_index_self: "to_ascii_lowercase n = n \<Longrightarrow> resolves (index_cert cs n ck) n"
proof (cases "strip_prefix n ''*.''")
  case None
  assume "to_ascii_lowercase n = n"
  with None show ?thesis by (simp add: resolves_iff index_cert_def Let_def hm_get_insert)
next
  case (Some s)
  assume l: "to_ascii_lowercase n = n"
  from Some have "strip_suffix n (''.'' @ s) = Some ''*''"
    by (simp only: strip_prefix_Some strip_suffix_Some append.simps)
  then have "wildcard_matches n (''.'' @ s)" by (simp add: wildcard_matches_def)
  with Some l show ?thesis by (simp add: resolves_iff index_cert_def Let_def)
qed

lemma inject_console_resolves:
  assumes "CHR ''['' \<notin> set (console_ext inp)" and "CHR '']'' \<notin> set (console_ext inp)"
    and "console_ext inp \<noteq> []" and "console_cert L inp \<noteq> None"
    and "console_ext inp \<noteq> ''localhost''" and "console_ext inp \<noteq> ''127.0.0.1''"
  shows "resolves (rc_certs (inject_console_route L inp cfg)) (console_ext inp)"
proof -
  have "to_ascii_lowercase (console_ext inp) = console_ext inp"
    using assms(1) by (auto simp: console_ext_def bracket_if_ipv6_def split: if_splits)
  from resolves_index_self [OF this] assms show ?thesis
    by (auto simp: inject_console_route_def Let_def trim_brackets split: option.splits)
qed

lemma build_sites_default: "build_sites L inp ss cfg = Inr cfg' \<Longrightarrow> rc_default_site cfg' = rc_default_site cfg"
proof (induction ss arbitrary: cfg)
  case (Cons s ss)
  from Cons.prems obtain c where 1: "build_site L inp s cfg = Inr c" and 2: "build_sites L inp ss c = Inr cfg'"
    by (auto split: sum.splits)
  from 1 have "rc_default_site c = rc_default_site cfg"
    by (auto simp: build_site_def Let_def dest!: index_routes_frame)
  with Cons.IH [OF 2] show ?case by simp
qed simp

lemma build_base_tables: "table_ok L inp (build_base L inp) ss"
  by (simp add: table_ok_def build_base_def runtime_config_default_def)

text \<open>What the panel's own checks ensure of a model, with the console not at an IPv6 literal.\<close>

definition acceptable :: "reload_input \<Rightarrow> bool" where
  "acceptable inp \<longleftrightarrow> distinct (concat (map site_keys (ri_sites inp))) \<and>
     (\<forall>s \<in> set (ri_sites inp). site_servable inp s) \<and> default_servable (ri_default_site inp) \<and>
     CHR ''['' \<notin> set (console_ext inp) \<and> CHR '']'' \<notin> set (console_ext inp)"

lemma loopback_checked: "check_route cfg loopback_route h = Inr ()"
  by (simp add: check_route_Inr loopback_route_def console_route_def)

lemma validate_Inr:
  "validate cfg = Inr () \<longleftrightarrow>
     (\<forall>(h, r) \<in> set (rc_hosts cfg). check_route cfg r h = Inr ()) \<and>
     (\<forall>(w, r) \<in> set (rc_wildcards cfg). check_route cfg r (''wildcard-check'' @ w) = Inr ()) \<and>
     (\<forall>url. rc_default_site cfg = DefRedirect url \<longrightarrow> trim url \<noteq> [])"
proof -
  define f where "f = (\<lambda>(host, route). check_route cfg route host)"
  define g where "g = (\<lambda>(suffix, route). check_route cfg route (''wildcard-check'' @ suffix))"
  have "validate cfg = Inr () \<longleftrightarrow> check_all f (rc_hosts cfg) = Inr () \<and>
      check_all g (rc_wildcards cfg) = Inr () \<and> (\<forall>url. rc_default_site cfg = DefRedirect url \<longrightarrow> trim url \<noteq> [])"
    unfolding validate_def f_def [symmetric] g_def [symmetric]
    by (auto split: sum.splits default_route.splits)
  then show ?thesis by (simp add: check_all_Inr f_def g_def split_beta)
qed

lemma acceptable_validates:
  assumes acc: "acceptable inp" and b: "build_runtime L inp = Inr cfg"
  shows "validate cfg = Inr ()"
proof -
  from b obtain c where c: "build_sites L inp (ri_sites inp) (build_base L inp) = Inr c"
    and cfg: "cfg = inject_console_route L inp c"
    by (auto simp: build_runtime_def split: sum.splits)
  have tab: "table_ok L inp c (ri_sites inp)" by (rule build_sites_table [OF c build_base_tables order_refl])
  have site: "check_route cfg (site_route L inp s) (probe k) = Inr ()"
    if "s \<in> set (ri_sites inp)" "k \<in> set (site_keys s)" for s k
    using acc that by (intro site_route_checked)
      (auto simp: acceptable_def cfg intro!: inject_resolves build_sites_resolves_own [OF c])
  have hosts: "check_route cfg r h = Inr ()" if "(h, r) \<in> set (rc_hosts cfg)" for h r
  proof -
    from that have "(h, r) \<in> set (rc_hosts (inject_console_route L inp c))" by (simp add: cfg)
    then consider "(h, r) \<in> set (rc_hosts c)" | "r = loopback_route"
      | "r = console_route (console_cert L inp \<noteq> None)
            (console_cert L inp \<noteq> None \<and> cp_initialized (ri_console inp)) [console_ext inp]"
        "h = console_ext inp" "console_ext inp \<noteq> []" "console_ext inp \<noteq> ''localhost''"
        "console_ext inp \<noteq> ''127.0.0.1''"
      by (blast dest: inject_hosts)
    then show ?thesis
    proof cases
      case 1
      with tab obtain s where "s \<in> set (ri_sites inp)" "r = site_route L inp s" "h \<in> set (site_keys s)" "probe h = h"
        unfolding table_ok_def by fast
      with site [of s h] show ?thesis by simp
    next
      case 3
      have "resolves (rc_certs cfg) h" if "console_cert L inp \<noteq> None"
        using acc 3 that unfolding cfg by (auto simp: acceptable_def intro: inject_console_resolves)
      with 3 show ?thesis by (simp add: check_route_Inr console_route_def)
    qed (simp add: loopback_checked)
  qed
  have wild: "check_route cfg r (''wildcard-check'' @ w) = Inr ()" if "(w, r) \<in> set (rc_wildcards cfg)" for w r
  proof -
    from that tab obtain s where "s \<in> set (ri_sites inp)" "r = site_route L inp s" "''*'' @ w \<in> set (site_keys s)"
      "probe (''*'' @ w) = ''wildcard-check'' @ w"
      unfolding table_ok_def by (fastforce simp: cfg)
    with site [of s "''*'' @ w"] show ?thesis by simp
  qed
  have "rc_default_site c = build_default (ri_default_site inp)"
    using build_sites_default [OF c] by (simp add: build_base_def)
  with acc have "rc_default_site cfg = DefRedirect url \<Longrightarrow> trim url \<noteq> []" for url
    by (auto simp: cfg acceptable_def default_servable_def build_default_def split: if_splits)
  with hosts wild show ?thesis unfolding validate_Inr by fast
qed

section \<open>Path rules\<close>

lemma insert_loc_sorted:
  "sorted_wrt (\<lambda>a b. length (lr_path b) \<le> length (lr_path a)) ms \<Longrightarrow>
   sorted_wrt (\<lambda>a b. length (lr_path b) \<le> length (lr_path a)) (insert_loc l ms)"
proof (induction ms)
  case (Cons m ms)
  have "set (insert_loc l ms) = insert l (set ms)" for ms by (induction ms) auto
  with Cons show ?case by auto
qed simp

lemma sort_locs_sorted: "sorted_wrt (\<lambda>a b. length (lr_path b) \<le> length (lr_path a)) (sort_locs ls)"
  by (induction ls) (auto simp: sort_locs_def intro: insert_loc_sorted)

lemma find_sorted_greatest:
  "find P xs = Some x \<Longrightarrow> sorted_wrt R xs \<Longrightarrow> (\<And>y. R y y) \<Longrightarrow> y \<in> set xs \<Longrightarrow> P y \<Longrightarrow> R x y"
  by (induction xs) (auto split: if_splits)

section \<open>Access rules\<close>

lemma acl_rules_verdict:
  "\<not> list_ex (\<lambda>c. parse_acl_net N (ac_address c) = None) cs \<Longrightarrow>
   acl_verdict N (acl_rules N cs) ip =
      (case find (\<lambda>c. acl_net_matches N (the (parse_acl_net N (ac_address c))) ip) cs of
         Some c \<Rightarrow> ac_directive c \<noteq> ''deny'' | None \<Rightarrow> True)"
proof (induction cs)
  case (Cons c cs)
  from Cons.prems obtain net where "parse_acl_net N (ac_address c) = Some net" by auto
  with Cons show ?case by (simp add: acl_rules_def List.map_filter_simps)
qed (simp add: acl_rules_def List.map_filter_simps)

section \<open>Properties\<close>

text \<open>C3: a reload swaps the table or leaves it alone: a rejected model changes nothing; a published
  one is the table built from the model and resolves a certificate for every TLS host; and a model
  that passes the panel's own checks is published.\<close>

theorem reload_gate:
  "(\<forall>e new. reload L inp current = (new, Inl e) \<longrightarrow> new = current) \<and>
   (\<forall>new. reload L inp current = (new, Inr ()) \<longrightarrow> build_runtime L inp = Inr new \<and>
      (\<forall>(h, r) \<in> set (rc_hosts new). rt_ssl r \<longrightarrow> cert_resolve (rc_certs new) (Some h) \<noteq> None)) \<and>
   (acceptable inp \<longrightarrow> (\<exists>new. reload L inp current = (new, Inr ())))"
proof (intro conjI allI impI)
  show "new = current" if "reload L inp current = (new, Inl e)" for e new
    using that by (auto simp: reload_def split: sum.splits)
  fix new assume r: "reload L inp current = (new, Inr ())"
  then show "build_runtime L inp = Inr new" by (auto simp: reload_def publish_def split: sum.splits)
  from r have "validate new = Inr ()" by (auto simp: reload_def publish_def split: sum.splits)
  then show "\<forall>(h, r) \<in> set (rc_hosts new). rt_ssl r \<longrightarrow> cert_resolve (rc_certs new) (Some h) \<noteq> None"
    by (auto simp: validate_Inr check_route_Inr resolves_def)
next
  assume acc: "acceptable inp"
  then have "is_Ok (build_runtime L inp)" by (simp add: build_runtime_ok acceptable_def)
  then obtain cfg where b: "build_runtime L inp = Inr cfg" by (rule is_OkE)
  with acceptable_validates [OF acc b] show "\<exists>new. reload L inp current = (new, Inr ())"
    by (simp add: reload_def)
qed

lemma demo_servable: "\<forall>s \<in> set (ri_sites (demo_input [demo_site])). site_servable (demo_input [demo_site]) s"
  by (simp add: demo_input_def site_servable_def demo_site_def path_join_def path_is_absolute_def starts_with_def)

theorem reload_gate_witness:
  "(\<exists>new. reload demo_lib (demo_input [demo_site]) runtime_config_default = (new, Inr ())) \<and>
   fst (reload demo_lib (demo_input [demo_site, demo_site]) runtime_config_default) = runtime_config_default"
proof
  have "acceptable (demo_input [demo_site])"
    by (simp add: acceptable_def demo_console_ext demo_servable)
      (simp add: demo_input_def default_servable_def default_site_default_def demo_site_keys)
  then show "\<exists>new. reload demo_lib (demo_input [demo_site]) runtime_config_default = (new, Inr ())"
    by (rule reload_gate [THEN conjunct2, THEN conjunct2, rule_format])
  have "\<not> is_Ok (build_runtime demo_lib (demo_input [demo_site, demo_site]))"
    by (simp add: build_runtime_ok demo_input_def demo_site_keys)
  then obtain e where "build_runtime demo_lib (demo_input [demo_site, demo_site]) = Inl e"
    by (cases "build_runtime demo_lib (demo_input [demo_site, demo_site])") auto
  then have "reload demo_lib (demo_input [demo_site, demo_site]) runtime_config_default = (runtime_config_default, Inl e)"
    by (simp add: reload_def)
  then show "fst (reload demo_lib (demo_input [demo_site, demo_site]) runtime_config_default) = runtime_config_default" by simp
qed

text \<open>C40: an access list fails closed: one unparseable address denies every client; otherwise the
  first rule, in the list's order, that matches the client decides, and only \<open>deny\<close> refuses.\<close>

theorem build_access_fails_closed:
  "ip_allowed N (build_access N a) ip =
     (if list_ex (\<lambda>c. parse_acl_net N (ac_address c) = None) (al_clients a) then False
      else (case find (\<lambda>c. acl_net_matches N (the (parse_acl_net N (ac_address c))) ip) (al_clients a) of
              Some c \<Rightarrow> ac_directive c \<noteq> ''deny''
            | None \<Rightarrow> True))"
proof (cases "list_ex (\<lambda>c. parse_acl_net N (ac_address c) = None) (al_clients a)")
  case True
  then show ?thesis by (simp add: build_access_def ip_allowed_def has_acl_def)
next
  case False
  then have "ax_rules (build_access N a) = acl_rules N (al_clients a)" by (simp add: build_access_def)
  then have "ip_allowed N (build_access N a) ip = acl_verdict N (acl_rules N (al_clients a)) ip"
    by (auto simp: ip_allowed_def has_acl_def)
  with acl_rules_verdict [OF False] False show ?thesis by simp
qed

text \<open>The most specific path rule wins: the location the dispatcher finds for a path is of the
  greatest length among the site's matching rules, and every rule of the site counts, but \<open>/\<close> on
  a proxy site.\<close>

theorem longest_location_wins:
  assumes "find (\<lambda>l. location_matches (lr_path l) p) (rt_locations (site_route L inp s)) = Some l"
    and "m \<in> set (si_locations s)" and "location_matches (li_path m) p"
    and "\<not> (li_path m = ''/'' \<and> is_proxy_kind s)"
  shows "length (li_path m) \<le> length (lr_path l)"
proof -
  obtain b where locs: "rt_locations (site_route L inp s) = build_locations s b" by simp
  have "m \<in> set (filter (\<lambda>l. \<not> (li_path l = ''/'' \<and> is_proxy_kind s)) (si_locations s))"
    using assms(2,4) by simp
  then have "build_location b m \<in> set (rt_locations (site_route L inp s))"
    unfolding locs build_locations_def set_sort_locs set_map by (rule imageI)
  moreover have "lr_path (build_location b m) = li_path m" by (simp add: build_location_def)
  ultimately show ?thesis
    using find_sorted_greatest [OF assms(1), of "\<lambda>a b. length (lr_path b) \<le> length (lr_path a)" "build_location b m"]
      assms(3) sort_locs_sorted by (simp add: locs build_locations_def)
qed

theorem longest_location_wins_witness:
  "length ''/api'' \<le> length (lr_path (build_location False (hd (si_locations demo_site))))"
proof -
  have r: "rt_locations (site_route demo_lib (demo_input [demo_site]) demo_site) =
      [build_location False (hd (si_locations demo_site))]"
    by (simp add: site_access_def demo_site_def build_locations_def sort_locs_def)
  have m: "location_matches ''/api'' ''/api/x''"
    by (simp add: location_matches_def starts_with_def)
  have f: "find (\<lambda>l. location_matches (lr_path l) ''/api/x'')
      (rt_locations (site_route demo_lib (demo_input [demo_site]) demo_site)) =
      Some (build_location False (hd (si_locations demo_site)))"
    unfolding r using m by (simp add: build_location_def demo_site_def)
  show ?thesis
    using longest_location_wins [OF f, of "hd (si_locations demo_site)"] m by (simp add: demo_site_def)
qed

text \<open>A site whose access list is missing from the model is open: whatever the client and its
  credentials, the access check passes.\<close>

theorem dangling_access_open:
  assumes "\<forall>a \<in> set (ri_access inp). al_id a \<noteq> si_access_id s"
  shows "check_access H D N (rt_access (site_route L inp s)) headers ip = None"
proof -
  have "access_by_id inp (si_access_id s) = None"
    using assms by (auto simp: access_by_id_def map_of_eq_None_iff)
  then show ?thesis by (simp add: site_access_def check_access_def)
qed

theorem dangling_access_open_witness:
  "check_access demo_http (ee_digests demo_env) demo_nets
     (rt_access (site_route demo_lib (demo_input []) (demo_site\<lparr>si_access_id := ''al1''\<rparr>))) [] (V4 1) = None"
  by (rule dangling_access_open) (simp add: demo_input_def)

text \<open>A body limit the panel accepts wraps to zero, which lifts the limit.\<close>

theorem body_limit_wraps:
  "valid_size_value ''17179869184g'' \<and> parse_size ''17179869184g'' = Some 0"
proof -
  have t: "trim ''17179869184g'' = ''17179869184g''" "trim ''17179869184'' = ''17179869184''"
    by (auto intro!: trim_plain simp: plain_char_def ws1_def ws2_def ws3_def)
  have p: "parse_u64 ''17179869184'' = Some 17179869184"
    by (simp add: parse_u64_def parse_uint_def Let_def is_ascii_digit_def digits_val_def digit_val_def byte_def)
  show ?thesis
    by (simp add: valid_size_value_def parse_size_def Let_def t p is_ascii_digit_def to_ascii_lowercase_def
      to_ascii_lower_char_def is_ascii_uppercase_def)
qed

definition v6_lib :: "(ip_addr \<times> nat, unit) build_lib" where
  "v6_lib = \<lparr>bl_nets = demo_nets, bl_load = (\<lambda>crt key. if crt = ''/c/cert-console.crt'' then Some () else None)\<rparr>"

definition v6_input :: reload_input where
  "v6_input = (demo_input [])\<lparr>ri_console := \<lparr>cp_external_address = ''fd00::1'', cp_https_mode = ''selfsigned'',
     cp_initialized = True, cp_dedicated_console = False\<rparr>\<rparr>"

text \<open>With the console at an IPv6 address, its own certificate loaded and no default certificate,
  every reload is refused: here, a model with no sites at all.\<close>

theorem ipv6_console_blocks_reload:
  "\<exists>e. reload v6_lib v6_input current = (current, Inl e)"
proof -
  have t: "trim ''fd00::1'' = ''fd00::1''"
    by (rule trim_plain) (auto simp: plain_char_def ws1_def ws2_def ws3_def)
  have p: "parse_ipv6 ''fd00::1'' \<noteq> None" by (simp add: parse_ipv6_def addr_eval)
  have ext: "console_ext v6_input = ''[fd00::1]''"
    using p by (simp add: console_ext_def v6_input_def t to_ascii_lowercase_def to_ascii_lower_char_def
      is_ascii_uppercase_def bracket_if_ipv6_def starts_with_def)
  define c where "c = build_base v6_lib v6_input"
  have c: "rc_certs c = \<lparr>cs_by_host = [], cs_wildcards = [], cs_default = None\<rparr>"
    by (simp add: c_def build_base_def v6_lib_def v6_input_def demo_input_def path_join_def path_is_absolute_def
      starts_with_def)
  have b: "build_runtime v6_lib v6_input = Inr (inject_console_route v6_lib v6_input c)"
    by (simp add: build_runtime_def c_def v6_input_def demo_input_def)
  have cert: "console_cert v6_lib v6_input = Some ()"
    by (simp add: console_cert_def v6_lib_def v6_input_def demo_input_def path_join_def path_is_absolute_def
      starts_with_def)
  have "(''[fd00::1]'', console_route True True [''[fd00::1]'']) \<in> set (rc_hosts (inject_console_route v6_lib v6_input c))"
    using cert ext by (simp add: inject_console_route_def Let_def hm_insert_def) (simp add: v6_input_def)
  moreover have "\<not> resolves (rc_certs (inject_console_route v6_lib v6_input c)) ''[fd00::1]''"
    using cert ext c by (simp add: inject_console_route_def Let_def resolves_iff index_cert_def
      trim_start_matches_def trim_end_matches_def to_ascii_lowercase_def to_ascii_lower_char_def
      is_ascii_uppercase_def strip_prefix_def starts_with_def hm_get_insert hm_get_Nil)
  ultimately have "validate (inject_console_route v6_lib v6_input c) \<noteq> Inr ()"
    unfolding validate_Inr check_route_Inr by (force simp: console_route_def)
  then show ?thesis
    by (cases "validate (inject_console_route v6_lib v6_input c)") (simp_all add: reload_def b)
qed

end
