(* ===== verification/Website_Forms.thy ===== *)
theory Website_Forms
  imports Website_Rules
begin

text \<open>
  Requests to the website control plane: the command types (\<open>contracts/website.rs\<close>), the
  construction of a site from its form (\<open>infra/website/sites/build.rs\<close>) and of an access list
  (\<open>infra/website/access/ops.rs\<close>). The file system is asked through \<open>fs_lib\<close>; the password
  hash (with its random salt) is a parameter.
\<close>

section \<open>Commands\<close>

record access_user_input = ui_username :: string  ui_password :: string

record site_form =
  sf_site_id :: "string option"
  sf_server_name :: "string option"
  sf_kind :: "string option"
  sf_target_url :: "string option"
  sf_container :: "string option"
  sf_container_port :: "int option"
  sf_root :: "string option"
  sf_local_root :: "string option"
  sf_ssl :: "bool option"
  sf_cert_mode :: "string option"
  sf_cert_name :: "string option"
  sf_cert_pem :: "string option"
  sf_key_pem :: "string option"
  sf_key_type :: "string option"
  sf_scheme :: "string option"
  sf_cache :: "bool option"
  sf_block_attacks :: "bool option"
  sf_websockets :: "bool option"
  sf_force_ssl :: "bool option"
  sf_http2 :: "bool option"
  sf_hsts :: "bool option"
  sf_hsts_sub :: "bool option"
  sf_trust_proxy :: "bool option"
  sf_trust_proxy_cidrs :: "string option"
  sf_locations :: "location_in list option"
  sf_extra_conf :: "string option"
  sf_rate_limit_rps :: "int option"
  sf_rate_limit_burst :: "int option"
  sf_bandwidth_kbps :: "int option"
  sf_conn_per_ip :: "int option"
  sf_autoban_threshold :: "int option"
  sf_autoban_window :: "int option"
  sf_autoban_minutes :: "int option"
  sf_ip_acl_mode :: "string option"
  sf_ip_acl_list :: "string option"
  sf_hotlink_referers :: "string option"
  sf_access_id :: "string option"

record save_access =
  sa_access_id :: "string option"
  sa_name :: "string option"
  sa_satisfy :: "string option"
  sa_pass_auth :: "bool option"
  sa_users :: "access_user_input list option"
  sa_clients :: "access_client list option"

record create_cert_cmd =
  ct_cert_mode :: "string option"
  ct_server_name :: "string option"
  ct_cert_pem :: "string option"
  ct_key_pem :: "string option"
  ct_key_type :: "string option"

text \<open>What the code asks of the file system: the canonical form of a path, and if it is a directory.\<close>

record fs_lib =
  fs_canonicalize :: "string \<Rightarrow> string option"
  fs_is_dir :: "string \<Rightarrow> bool"

section \<open>Field validators\<close>

text \<open>\<open>map(str::trim).filter(non-empty)\<close> on an optional field.\<close>

definition trimmed :: "string option \<Rightarrow> string option" where
  "trimmed f = (case f of Some s \<Rightarrow> if trim s = [] then None else Some (trim s) | None \<Rightarrow> None)"

definition text_or :: "string option \<Rightarrow> string" where
  "text_or f = (case f of Some s \<Rightarrow> s | None \<Rightarrow> [])"

definition cidr_seps :: "char list" where
  "cidr_seps = [CHR '','', CHR '' '', CHR 0x09, CHR 0x0A, CHR 0x0D]"

definition valid_trust_cidr :: "string \<Rightarrow> bool" where
  "valid_trust_cidr t =
     (case split_once CHR ''/'' t of
        Some (addr, prefix) \<Rightarrow>
          parse_ip addr \<noteq> None \<and>
          (case parse_u8 prefix of
             None \<Rightarrow> False
           | Some p \<Rightarrow>
               (case parse_ip addr of
                  Some (V4 _) \<Rightarrow> p \<le> 32
                | Some (V6 _) \<Rightarrow> p \<le> 128
                | None \<Rightarrow> False))
      | None \<Rightarrow> parse_ip t \<noteq> None)"

fun trust_tokens :: "string list \<Rightarrow> website_error + string list" where
  "trust_tokens [] = Inr []"
| "trust_tokens (tok # toks) =
     (let t = trim tok
      in if t = [] then trust_tokens toks
         else if \<not> valid_trust_cidr t then Inl BadTrustCidr
         else (case trust_tokens toks of Inl e \<Rightarrow> Inl e | Inr out \<Rightarrow> Inr (t # out)))"

definition sanitize_trusted_cidrs :: "string \<Rightarrow> website_error + string" where
  "sanitize_trusted_cidrs s = map_sum id (join_with CHR '' '') (trust_tokens (split_any cidr_seps s))"

definition clamp_u32 :: "int option \<Rightarrow> nat \<Rightarrow> nat" where
  "clamp_u32 v mx = nat (min (max (case v of Some x \<Rightarrow> x | None \<Rightarrow> 0) 0) (int mx))"

definition norm_acl_mode :: "string option \<Rightarrow> string" where
  "norm_acl_mode m =
     (if map_option trim m = Some ''allow'' then ''allow''
      else if map_option trim m = Some ''deny'' then ''deny'' else [])"

text \<open>\<open>Path::starts_with\<close> on canonical paths: whole components.\<close>

definition path_under :: "string \<Rightarrow> string \<Rightarrow> bool" where
  "path_under path tree \<longleftrightarrow> path = tree \<or> starts_with path (tree @ ''/'')"

definition denied_trees :: "string list" where
  "denied_trees = [''/etc'', ''/root'', ''/proc'', ''/sys'', ''/boot'', ''/dev'']"

definition local_root_denied :: "string \<Rightarrow> bool" where
  "local_root_denied path \<longleftrightarrow> path = ''/'' \<or> list_ex (path_under path) denied_trees"

definition valid_local_root :: "fs_lib \<Rightarrow> string \<Rightarrow> website_error + string" where
  "valid_local_root F p =
     (if \<not> starts_with p ''/'' then Inl LocalRootAbs
      else (case fs_canonicalize F p of
              None \<Rightarrow> Inl LocalRootMissing
            | Some canon \<Rightarrow>
                (if \<not> fs_is_dir F canon then Inl LocalRootNotDir
                 else if local_root_denied canon then Inl LocalRootDenied
                 else Inr canon)))"

definition validate_extra_conf :: "string \<Rightarrow> website_error + unit" where
  "validate_extra_conf s =
     (if 20000 < length s then Inl ExtraConfTooLong
      else if list_ex (\<lambda>c. is_control c \<and> c \<notin> {10, 13, 9}) (chars s) then Inl ExtraConfBad
      else Inr ())"

section \<open>Path rules\<close>

definition validate_one_location :: "location_in \<Rightarrow> website_error + location_in option" where
  "validate_one_location l =
     (let path = trim (li_path l)
      in if trim (li_kind l) = ''container'' then
           (let c = trim (li_container l)
            in if path = [] \<and> c = [] then Inr None
               else if \<not> valid_location_path path then Inl (BadPathRule path)
               else if \<not> valid_container_name c then Inl BadContainer
               else if \<not> valid_port (li_container_port l) then Inl BadContainerPort
               else Inr (Some \<lparr>li_path = path, li_scheme = norm_scheme_opt (Some (li_scheme l)),
                      li_target = [], li_websockets = li_websockets l, li_kind = ''container'',
                      li_container = c, li_container_port = li_container_port l\<rparr>))
         else
           (let t = trim (li_target l)
            in if path = [] \<and> t = [] then Inr None
               else if \<not> valid_location_path path then Inl (BadPathRule path)
               else if \<not> valid_host_token t then Inl (BadRuleTarget t)
               else Inr (Some \<lparr>li_path = path, li_scheme = norm_scheme_opt (Some (li_scheme l)),
                      li_target = t, li_websockets = li_websockets l, li_kind = ''host'',
                      li_container = [], li_container_port = 0\<rparr>)))"

fun location_rows :: "location_in list \<Rightarrow> website_error + location_in list" where
  "location_rows [] = Inr []"
| "location_rows (l # ls) =
     (case validate_one_location l of
        Inl e \<Rightarrow> Inl e
      | Inr row \<Rightarrow>
          (case location_rows ls of
             Inl e \<Rightarrow> Inl e
           | Inr out \<Rightarrow> Inr (case row of Some loc \<Rightarrow> loc # out | None \<Rightarrow> out)))"

definition validate_locations :: "location_in list \<Rightarrow> website_error + location_in list" where
  "validate_locations locs =
     (case location_rows locs of
        Inl e \<Rightarrow> Inl e
      | Inr out \<Rightarrow> if 50 < length out then Inl TooManyRules else Inr out)"

section \<open>Sites\<close>

definition apply_proxy_host :: "site_form \<Rightarrow> site \<Rightarrow> website_error + site" where
  "apply_proxy_host form s =
     (case trimmed (sf_target_url form) of
        None \<Rightarrow> Inl NeedTarget
      | Some t \<Rightarrow> if \<not> valid_host_token t then Inl BadTarget else Inr (s\<lparr>si_target_url := t\<rparr>))"

definition apply_proxy_container :: "site_form \<Rightarrow> site \<Rightarrow> website_error + site" where
  "apply_proxy_container form s =
     (case trimmed (sf_container form) of
        None \<Rightarrow> Inl NeedContainer
      | Some c \<Rightarrow>
          (let port = opt_or (sf_container_port form) 0
           in if \<not> valid_container_name c then Inl BadContainer
              else if \<not> valid_port port then Inl BadContainerPort
              else Inr (s\<lparr>si_container := c, si_container_port := port\<rparr>)))"

definition apply_static :: "fs_lib \<Rightarrow> site_form \<Rightarrow> site \<Rightarrow> website_error + site" where
  "apply_static F form s =
     (case trimmed (sf_local_root form) of
        Some p \<Rightarrow>
          (case valid_local_root F p of Inl e \<Rightarrow> Inl e | Inr canon \<Rightarrow> Inr (s\<lparr>si_local_root := canon\<rparr>))
      | None \<Rightarrow>
          (case trimmed (sf_root form) of
             None \<Rightarrow> Inl NeedStaticDir
           | Some r \<Rightarrow> if \<not> valid_root_segment r then Inl BadStaticDirName else Inr (s\<lparr>si_root := r\<rparr>)))"

definition apply_site_kind :: "fs_lib \<Rightarrow> site_form \<Rightarrow> site \<Rightarrow> website_error + site" where
  "apply_site_kind F form s =
     (if si_kind s = ''proxy_host'' then apply_proxy_host form s
      else if si_kind s = ''proxy_container'' then apply_proxy_container form s
      else if si_kind s = ''static'' then apply_static F form s
      else Inl UnknownSiteKind)"

definition resolve_access_ref :: "access_list list \<Rightarrow> site_form \<Rightarrow> website_error + string" where
  "resolve_access_ref als form =
     (let access_id = trim (text_or (sf_access_id form))
      in if access_id \<noteq> [] \<and> \<not> list_ex (\<lambda>a. al_id a = access_id) als then Inl AccessNotFound
         else Inr access_id)"

text \<open>The record the form's own fields make, before its kind, rules and reference are applied.\<close>

definition form_site :: "string \<Rightarrow> site_form \<Rightarrow> string \<Rightarrow> string \<Rightarrow> string \<Rightarrow> string \<Rightarrow> site" where
  "form_site new_id form server_name cert_name tcidrs acllist =
     \<lparr>si_id = new_id, si_server_name = server_name, si_kind = opt_or (sf_kind form) ''proxy_host'',
      si_target_url = [], si_container = [], si_container_port = 0, si_root = [], si_local_root = [],
      si_ssl = opt_or (sf_ssl form) False, si_cert_name = cert_name,
      si_scheme = norm_scheme_opt (sf_scheme form), si_cache = opt_or (sf_cache form) False,
      si_block_attacks = opt_or (sf_block_attacks form) False,
      si_websockets = opt_or (sf_websockets form) True, si_force_ssl = opt_or (sf_force_ssl form) True,
      si_hsts = opt_or (sf_hsts form) False, si_hsts_sub = opt_or (sf_hsts_sub form) False,
      si_trust_proxy = opt_or (sf_trust_proxy form) False, si_trust_proxy_cidrs = tcidrs,
      si_locations = [], si_extra_conf = [],
      si_rate_limit_rps = clamp_u32 (sf_rate_limit_rps form) 100000,
      si_rate_limit_burst = clamp_u32 (sf_rate_limit_burst form) 100000,
      si_bandwidth_kbps = clamp_u32 (sf_bandwidth_kbps form) 10000000,
      si_autoban_threshold = clamp_u32 (sf_autoban_threshold form) 100000,
      si_autoban_window = clamp_u32 (sf_autoban_window form) 86400,
      si_autoban_minutes = clamp_u32 (sf_autoban_minutes form) 525600,
      si_cert_mode = opt_or (sf_cert_mode form) ''self'', si_http2 = opt_or (sf_http2 form) True,
      si_conn_per_ip = clamp_u32 (sf_conn_per_ip form) 100000,
      si_ip_acl_mode = norm_acl_mode (sf_ip_acl_mode form), si_ip_acl_list = acllist,
      si_hotlink_referers = trim (text_or (sf_hotlink_referers form)), si_access_id = [],
      st_key_type = norm_key_type (text_or (sf_key_type form))\<rparr>"

definition site_from_req :: "fs_lib \<Rightarrow> access_list list \<Rightarrow> string \<Rightarrow> site_form \<Rightarrow> website_error + site" where
  "site_from_req F als new_id form =
     (case trimmed (sf_server_name form) of
        None \<Rightarrow> Inl NeedDomain
      | Some server_name \<Rightarrow>
     (let cert_name = trim (text_or (sf_cert_name form));
          ssl = opt_or (sf_ssl form) False;
          cert_mode = opt_or (sf_cert_mode form) ''self''
      in if \<not> valid_server_name server_name then Inl BadDomain
         else if cert_name \<noteq> [] \<and> \<not> valid_cert_name cert_name then Inl BadCertName
         else
     (case sanitize_trusted_cidrs (text_or (sf_trust_proxy_cidrs form)) of Inl e \<Rightarrow> Inl e | Inr tcidrs \<Rightarrow>
     (case sanitize_trusted_cidrs (text_or (sf_ip_acl_list form)) of Inl e \<Rightarrow> Inl e | Inr acllist \<Rightarrow>
     (case apply_site_kind F form (form_site new_id form server_name cert_name tcidrs acllist) of
        Inl e \<Rightarrow> Inl e
      | Inr s1 \<Rightarrow>
     (case (case sf_locations form of Some locs \<Rightarrow> validate_locations locs | None \<Rightarrow> Inr []) of
        Inl e \<Rightarrow> Inl e
      | Inr locs \<Rightarrow>
     (let extra = trim (text_or (sf_extra_conf form))
      in case validate_extra_conf extra of Inl e \<Rightarrow> Inl e | Inr _ \<Rightarrow>
     (case resolve_access_ref als form of
        Inl e \<Rightarrow> Inl e
      | Inr aid \<Rightarrow>
          if ssl \<and> cert_mode \<notin> {''self'', ''le'', ''manual'', ''named''} then Inl UnknownCertMode
          else Inr (s1\<lparr>si_locations := locs, si_extra_conf := extra, si_access_id := aid\<rparr>)))))))))"

section \<open>Access lists\<close>

fun build_access_clients :: "access_client list \<Rightarrow> website_error + access_client list" where
  "build_access_clients [] = Inr []"
| "build_access_clients (c # cs) =
     (let d = trim (ac_directive c)
      in if d \<noteq> ''allow'' \<and> d \<noteq> ''deny'' then Inl BadClientAddr
         else if \<not> valid_client_address (ac_address c) then Inl BadClientAddr
         else (case build_access_clients cs of
                 Inl e \<Rightarrow> Inl e
               | Inr out \<Rightarrow> Inr (\<lparr>ac_directive = d, ac_address = trim (ac_address c)\<rparr> # out)))"

definition stored_hash :: "access_list option \<Rightarrow> string \<Rightarrow> string option" where
  "stored_hash old username =
     (case old of
        Some o' \<Rightarrow> map_option au_hash (find (\<lambda>x. au_username x = username) (al_users o'))
      | None \<Rightarrow> None)"

fun access_users_loop :: "(string \<Rightarrow> string) \<Rightarrow> access_list option \<Rightarrow> string set \<Rightarrow> access_user_input list \<Rightarrow>
    website_error + access_user list" where
  "access_users_loop hash old seen [] = Inr []"
| "access_users_loop hash old seen (u # us) =
     (let username = trim (ui_username u)
      in if username = [] then access_users_loop hash old seen us
         else if \<not> valid_auth_username username then Inl BadAuthUser
         else if username \<in> seen then Inl DupAuthUser
         else (case (if ui_password u \<noteq> [] then
                       (if 128 < length (ui_password u) then Inl BadAuthPw else Inr (hash (ui_password u)))
                     else (case stored_hash old username of Some h \<Rightarrow> Inr h | None \<Rightarrow> Inl NeedAuthPw)) of
                 Inl e \<Rightarrow> Inl e
               | Inr h \<Rightarrow>
                   (case access_users_loop hash old (insert username seen) us of
                      Inl e \<Rightarrow> Inl e
                    | Inr out \<Rightarrow> Inr (\<lparr>au_username = username, au_hash = h\<rparr> # out))))"

definition build_access_users :: "(string \<Rightarrow> string) \<Rightarrow> access_list option \<Rightarrow> access_user_input list option \<Rightarrow>
    website_error + access_user list" where
  "build_access_users hash old us = access_users_loop hash old {} (opt_or us [])"

section \<open>Properties\<close>

definition location_ok :: "location_in \<Rightarrow> bool" where
  "location_ok l \<longleftrightarrow> starts_with (li_path l) ''/'' \<and> valid_location_path (li_path l) \<and>
     (li_kind l = ''container'' \<and> valid_container_name (li_container l) \<and> valid_port (li_container_port l) \<or>
      li_kind l = ''host'' \<and> valid_host_token (li_target l))"

definition destination_ok :: "fs_lib \<Rightarrow> site \<Rightarrow> bool" where
  "destination_ok F s \<longleftrightarrow>
     si_kind s = ''proxy_host'' \<and> valid_host_token (si_target_url s) \<or>
     si_kind s = ''proxy_container'' \<and> valid_container_name (si_container s) \<and> valid_port (si_container_port s) \<or>
     si_kind s = ''static'' \<and>
       (si_local_root s = [] \<and> valid_root_segment (si_root s) \<or>
        (\<exists>p. fs_canonicalize F p = Some (si_local_root s) \<and> fs_is_dir F (si_local_root s)) \<and>
          \<not> local_root_denied (si_local_root s))"

definition limits_ok :: "site \<Rightarrow> bool" where
  "limits_ok s \<longleftrightarrow> si_rate_limit_rps s \<le> 100000 \<and> si_rate_limit_burst s \<le> 100000 \<and>
     si_bandwidth_kbps s \<le> 10000000 \<and> si_conn_per_ip s \<le> 100000 \<and> si_autoban_threshold s \<le> 100000 \<and>
     si_autoban_window s \<le> 86400 \<and> si_autoban_minutes s \<le> 525600"

definition site_ok :: "fs_lib \<Rightarrow> access_list list \<Rightarrow> site \<Rightarrow> bool" where
  "site_ok F als s \<longleftrightarrow> valid_server_name (si_server_name s) \<and> destination_ok F s \<and> limits_ok s \<and>
     length (si_locations s) \<le> 50 \<and> (\<forall>l \<in> set (si_locations s). location_ok l) \<and>
     length (si_extra_conf s) \<le> 20000 \<and> (si_cert_name s = [] \<or> valid_cert_name (si_cert_name s)) \<and>
     (si_ssl s \<longrightarrow> si_cert_mode s \<in> {''self'', ''le'', ''manual'', ''named''}) \<and>
     (si_access_id s = [] \<or> (\<exists>a \<in> set als. al_id a = si_access_id s))"

lemma trimmed_Some: "trimmed f = Some t \<Longrightarrow> trim t = t \<and> t \<noteq> []"
  by (auto simp: trimmed_def split: option.splits if_splits)

lemma validate_one_location_ok:
  "validate_one_location l = Inr (Some loc) \<Longrightarrow> location_ok loc"
  by (auto simp: validate_one_location_def Let_def location_ok_def valid_location_path_def split: if_splits)

lemma location_rows_ok: "location_rows ls = Inr out \<Longrightarrow> \<forall>l \<in> set out. location_ok l"
  by (induction ls arbitrary: out)
    (auto split: sum.splits option.splits dest: validate_one_location_ok)

lemma validate_locations_ok:
  "validate_locations ls = Inr out \<Longrightarrow> length out \<le> 50 \<and> (\<forall>l \<in> set out. location_ok l)"
  by (auto simp: validate_locations_def split: sum.splits if_splits dest: location_rows_ok)

lemma valid_local_root_ok:
  "valid_local_root F p = Inr c \<Longrightarrow> fs_canonicalize F p = Some c \<and> fs_is_dir F c \<and> \<not> local_root_denied c"
  by (auto simp: valid_local_root_def split: if_splits option.splits)

lemma clamp_u32_le: "clamp_u32 v mx \<le> mx"
  by (auto simp: clamp_u32_def)

text \<open>What \<open>apply_site_kind\<close> sets, and what it leaves.\<close>

definition same_but_destination :: "site \<Rightarrow> site \<Rightarrow> bool" where
  "same_but_destination s s0 \<longleftrightarrow> s = s0\<lparr>si_target_url := si_target_url s, si_container := si_container s,
     si_container_port := si_container_port s, si_root := si_root s, si_local_root := si_local_root s\<rparr>"

lemma apply_site_kind_ok:
  assumes "apply_site_kind F form s0 = Inr s" and "si_local_root s0 = []"
  shows "destination_ok F s" and "same_but_destination s s0"
proof -
  consider "si_kind s0 = ''proxy_host''" "apply_proxy_host form s0 = Inr s"
    | "si_kind s0 = ''proxy_container''" "apply_proxy_container form s0 = Inr s"
    | "si_kind s0 = ''static''" "apply_static F form s0 = Inr s"
    using assms(1) by (auto simp: apply_site_kind_def split: if_splits)
  then have "destination_ok F s \<and> same_but_destination s s0"
  proof cases
    case 1
    then show ?thesis
      by (auto simp: apply_proxy_host_def destination_ok_def same_but_destination_def split: option.splits if_splits)
  next
    case 2
    then show ?thesis
      by (auto simp: apply_proxy_container_def Let_def destination_ok_def same_but_destination_def
          split: option.splits if_splits)
  next
    case 3
    then show ?thesis using assms(2)
      by (auto simp: apply_static_def destination_ok_def same_but_destination_def
          split: option.splits if_splits sum.splits dest: valid_local_root_ok)
  qed
  then show "destination_ok F s" and "same_but_destination s s0" by simp_all
qed

lemma same_but_destination_fields:
  assumes "same_but_destination s s0"
  shows "si_server_name s = si_server_name s0" "si_cert_name s = si_cert_name s0" "si_ssl s = si_ssl s0"
    "si_cert_mode s = si_cert_mode s0" "limits_ok s = limits_ok s0" "si_id s = si_id s0"
proof -
  show "si_server_name s = si_server_name s0" "si_cert_name s = si_cert_name s0" "si_ssl s = si_ssl s0"
    "si_cert_mode s = si_cert_mode s0" "si_id s = si_id s0"
    by (subst assms [unfolded same_but_destination_def], simp)+
  show "limits_ok s = limits_ok s0"
    by (subst assms [unfolded same_but_destination_def], simp add: limits_ok_def)
qed

lemma form_site_limits: "limits_ok (form_site i f n c t a)"
  by (simp add: limits_ok_def form_site_def clamp_u32_le)

lemma site_from_req_steps:
  assumes "site_from_req F als i form = Inr s"
  obtains n s1 t a where "trimmed (sf_server_name form) = Some n" "valid_server_name n"
    "trim (text_or (sf_cert_name form)) = [] \<or> valid_cert_name (trim (text_or (sf_cert_name form)))"
    "apply_site_kind F form (form_site i form n (trim (text_or (sf_cert_name form))) t a) = Inr s1"
    "s = s1\<lparr>si_locations := si_locations s, si_extra_conf := si_extra_conf s, si_access_id := si_access_id s\<rparr>"
    "length (si_locations s) \<le> 50" "\<forall>l \<in> set (si_locations s). location_ok l"
    "validate_extra_conf (si_extra_conf s) = Inr ()" "resolve_access_ref als form = Inr (si_access_id s)"
    "opt_or (sf_ssl form) False \<longrightarrow> opt_or (sf_cert_mode form) ''self'' \<in> {''self'', ''le'', ''manual'', ''named''}"
  using assms unfolding site_from_req_def Let_def
  by (auto split: option.split_asm if_split_asm sum.split_asm dest!: validate_locations_ok)

lemma site_from_req_site_ok: "site_from_req F als i form = Inr s \<Longrightarrow> site_ok F als s"
proof (erule site_from_req_steps)
  fix n s1 t a
  let ?s0 = "form_site i form n (trim (text_or (sf_cert_name form))) t a"
  assume n: "trimmed (sf_server_name form) = Some n" "valid_server_name n"
    and cn: "trim (text_or (sf_cert_name form)) = [] \<or> valid_cert_name (trim (text_or (sf_cert_name form)))"
    and k: "apply_site_kind F form ?s0 = Inr s1"
    and s: "s = s1\<lparr>si_locations := si_locations s, si_extra_conf := si_extra_conf s, si_access_id := si_access_id s\<rparr>"
    and l: "length (si_locations s) \<le> 50" "\<forall>l \<in> set (si_locations s). location_ok l"
    and x: "validate_extra_conf (si_extra_conf s) = Inr ()" and r: "resolve_access_ref als form = Inr (si_access_id s)"
    and m: "opt_or (sf_ssl form) False \<longrightarrow> opt_or (sf_cert_mode form) ''self'' \<in> {''self'', ''le'', ''manual'', ''named''}"
  have root: "si_local_root ?s0 = []" by (simp add: form_site_def)
  note d = apply_site_kind_ok [OF k root]
  note f = same_but_destination_fields [OF d(2)]
  have dest: "destination_ok F s"
    by (subst s) (use d(1) in \<open>simp add: destination_ok_def\<close>)
  have lim: "limits_ok s"
    by (subst s) (use f(5) form_site_limits in \<open>simp add: limits_ok_def\<close>)
  have flds: "si_server_name s = n" "si_cert_name s = trim (text_or (sf_cert_name form))"
    "si_ssl s = opt_or (sf_ssl form) False" "si_cert_mode s = opt_or (sf_cert_mode form) ''self''"
    by (subst s, simp add: f(1-4), simp add: form_site_def)+
  have "length (si_extra_conf s) \<le> 20000" using x by (auto simp: validate_extra_conf_def split: if_splits)
  moreover have "si_access_id s = [] \<or> (\<exists>a \<in> set als. al_id a = si_access_id s)"
    using r by (auto simp: resolve_access_ref_def Let_def list_ex_iff split: if_splits)
  ultimately show "site_ok F als s" using n cn l m dest lim by (simp add: site_ok_def flds)
qed

lemma site_from_req_sound:
  assumes "site_from_req F als i form = Inr s"
  shows "site_ok F als s \<and> si_id s = i"
proof -
  from assms have "si_id s = i"
  proof (rule site_from_req_steps)
    fix n s1 t a
    assume k: "apply_site_kind F form (form_site i form n (trim (text_or (sf_cert_name form))) t a) = Inr s1"
      and s: "s = s1\<lparr>si_locations := si_locations s, si_extra_conf := si_extra_conf s, si_access_id := si_access_id s\<rparr>"
    have "si_id s1 = i"
      using same_but_destination_fields(6) [OF apply_site_kind_ok(2) [OF k]] by (simp add: form_site_def)
    then show "si_id s = i" by (subst s) simp
  qed
  with site_from_req_site_ok [OF assms] show ?thesis by simp
qed

text \<open>C38: a site the panel accepts is well formed: a valid server name, a destination that fits its
  kind (a served directory is canonical, is a directory and lies outside the protected trees),
  at most fifty valid path rules, numeric limits in bounds, a known certificate mode and an
  access list that exists.\<close>

theorem site_from_req_ok:
  assumes "site_from_req F als i form = Inr s"
  shows "site_ok F als s \<and> si_id s = i"
  by (rule site_from_req_sound [OF assms])

definition empty_form :: site_form where
  "empty_form = \<lparr>sf_site_id = None, sf_server_name = None, sf_kind = None, sf_target_url = None,
     sf_container = None, sf_container_port = None, sf_root = None, sf_local_root = None, sf_ssl = None,
     sf_cert_mode = None, sf_cert_name = None, sf_cert_pem = None, sf_key_pem = None, sf_key_type = None,
     sf_scheme = None, sf_cache = None, sf_block_attacks = None, sf_websockets = None,
     sf_force_ssl = None, sf_http2 = None, sf_hsts = None, sf_hsts_sub = None, sf_trust_proxy = None,
     sf_trust_proxy_cidrs = None, sf_locations = None, sf_extra_conf = None, sf_rate_limit_rps = None,
     sf_rate_limit_burst = None, sf_bandwidth_kbps = None, sf_conn_per_ip = None,
     sf_autoban_threshold = None, sf_autoban_window = None, sf_autoban_minutes = None,
     sf_ip_acl_mode = None, sf_ip_acl_list = None, sf_hotlink_referers = None, sf_access_id = None\<rparr>"

definition demo_form :: site_form where
  "demo_form = empty_form\<lparr>sf_server_name := Some ''shop'', sf_kind := Some ''proxy_host'',
     sf_target_url := Some ''app:8080'', sf_rate_limit_rps := Some 999999999\<rparr>"

lemma plain_trims: "trim ''shop'' = ''shop''" "trim ''app:8080'' = ''app:8080''"
  by (auto intro!: trim_plain simp: plain_char_def ws1_def ws2_def ws3_def)

lemma split_any_Nil: "split_any cs [] = [[]]"
  by (simp add: split_any_def)

lemma demo_form_site: "\<exists>s. site_from_req F als i demo_form = Inr s \<and> si_rate_limit_rps s = 100000"
proof -
  have w: "split_whitespace ''shop'' = [''shop'']"
    by (simp add: split_whitespace_def split_ws_acc.simps ws_len_def ws1_def ws2_def ws3_def)
  have v: "valid_server_name ''shop''"
    by (simp add: valid_server_name_def Let_def plain_trims w name_char_def is_ascii_alphanumeric_def
      is_ascii_lowercase_def)
  have h: "valid_host_token ''app:8080''"
    by (simp add: valid_host_token_def Let_def plain_trims name_char_def is_ascii_alphanumeric_def
      is_ascii_lowercase_def is_ascii_digit_def)
  show ?thesis
    by (simp add: site_from_req_def demo_form_def empty_form_def trimmed_def plain_trims v h Let_def text_or_def
      sanitize_trusted_cidrs_def split_any_Nil apply_site_kind_def form_site_def opt_or_def apply_proxy_host_def
      validate_extra_conf_def resolve_access_ref_def clamp_u32_def)
qed

theorem site_from_req_ok_witness:
  "\<exists>s. site_from_req \<lparr>fs_canonicalize = Some, fs_is_dir = (\<lambda>_. True)\<rparr> [] ''7'' demo_form = Inr s \<and>
     si_rate_limit_rps s = 100000 \<and> limits_ok s \<and> si_id s = ''7''"
proof -
  obtain s where s: "site_from_req \<lparr>fs_canonicalize = Some, fs_is_dir = (\<lambda>_. True)\<rparr> [] ''7'' demo_form = Inr s"
    "si_rate_limit_rps s = 100000" using demo_form_site by blast
  from site_from_req_ok [OF s(1)] s show ?thesis by (auto simp: site_ok_def)
qed

lemma access_users_loop_sound:
  "access_users_loop hash old seen us = Inr out \<Longrightarrow>
   distinct (map au_username out) \<and> set (map au_username out) \<inter> seen = {} \<and>
   (\<forall>x \<in> set out. valid_auth_username (au_username x) \<and>
      ((\<exists>u \<in> set us. ui_password u \<noteq> [] \<and> length (ui_password u) \<le> 128 \<and>
          trim (ui_username u) = au_username x \<and> au_hash x = hash (ui_password u)) \<or>
       stored_hash old (au_username x) = Some (au_hash x)))"
proof (induction us arbitrary: seen out)
  case (Cons u us)
  show ?case
  proof (cases "trim (ui_username u) = []")
    case True
    with Cons show ?thesis by fastforce
  next
    case False
    with Cons.prems obtain h rest where h: "(if ui_password u \<noteq> [] then
          (if 128 < length (ui_password u) then Inl BadAuthPw else Inr (hash (ui_password u)))
        else (case stored_hash old (trim (ui_username u)) of Some h \<Rightarrow> Inr h | None \<Rightarrow> Inl NeedAuthPw)) = Inr h"
      and rest: "access_users_loop hash old (insert (trim (ui_username u)) seen) us = Inr rest"
      and out: "out = \<lparr>au_username = trim (ui_username u), au_hash = h\<rparr> # rest"
      and v: "valid_auth_username (trim (ui_username u))" "trim (ui_username u) \<notin> seen"
      by (auto simp: Let_def split: if_split_asm sum.split_asm option.split_asm)
    from Cons.IH [OF rest] h v show ?thesis
      by (auto simp: out split: if_splits option.splits)
  qed
qed simp

text \<open>The stored users of an access list have distinct, valid names, and each hash is either
  that of a password sent with the name or the one stored before: a save never leaves a user
  without a hash, nor takes another user's.\<close>

theorem build_access_users_sound:
  assumes "build_access_users hash old us = Inr out" and "x \<in> set out"
  shows "distinct (map au_username out) \<and> valid_auth_username (au_username x) \<and>
    ((\<exists>u \<in> set (opt_or us []). ui_password u \<noteq> [] \<and> length (ui_password u) \<le> 128 \<and>
        trim (ui_username u) = au_username x \<and> au_hash x = hash (ui_password u)) \<or>
     stored_hash old (au_username x) = Some (au_hash x))"
  using access_users_loop_sound [of hash old "{}" "opt_or us []" out] assms
  by (auto simp: build_access_users_def)

theorem build_access_users_sound_witness:
  "valid_auth_username ''shop'' \<and> distinct (map au_username [\<lparr>au_username = ''shop'', au_hash = ''pw''\<rparr>])"
proof -
  have v: "valid_auth_username ''shop''"
    by (simp add: valid_auth_username_def name_char_def is_ascii_alphanumeric_def is_ascii_lowercase_def)
  have "build_access_users id None (Some [\<lparr>ui_username = ''shop'', ui_password = ''pw''\<rparr>]) =
      Inr [\<lparr>au_username = ''shop'', au_hash = ''pw''\<rparr>]"
    by (simp add: build_access_users_def opt_or_def Let_def plain_trims v)
  from build_access_users_sound [OF this, of "\<lparr>au_username = ''shop'', au_hash = ''pw''\<rparr>"] show ?thesis by simp
qed

end
