(* ===== verification/Json_Store.thy ===== *)
theory Json_Store
  imports Prelude
begin

text \<open>
  The panel's JSON files (\<open>infra/support/json_store.rs\<close>): a file is absent, does not parse, or
  holds a value. The read cache is transparent: every save drops its entry.
\<close>

datatype 'a manifest = Missing | Unparsable | Parsed 'a

definition load_or_default :: "'a \<Rightarrow> 'a manifest \<Rightarrow> 'a" where
  "load_or_default d m = (case m of Parsed v \<Rightarrow> v | _ \<Rightarrow> d)"

definition load_opt :: "'a manifest \<Rightarrow> 'a option" where
  "load_opt m = (case m of Parsed v \<Rightarrow> Some v | _ \<Rightarrow> None)"

text \<open>The strict loader moves an unparseable file aside and reports \<open>e\<close>.\<close>

definition load_strict_m :: "'e \<Rightarrow> 'a manifest \<Rightarrow> 'a manifest \<times> ('e + 'a option)" where
  "load_strict_m e m = (case m of Missing \<Rightarrow> (Missing, Inr None) | Unparsable \<Rightarrow> (Missing, Inl e)
     | Parsed v \<Rightarrow> (m, Inr (Some v)))"

lemma load_or_default_simps [simp]:
  "load_or_default d Missing = d" "load_or_default d Unparsable = d" "load_or_default d (Parsed v) = v"
  by (simp_all add: load_or_default_def)

lemma load_strict_Inr: "load_strict_m e m = (m', Inr v) \<Longrightarrow> m' = m \<and> m \<noteq> Unparsable \<and> opt_or v d = load_or_default d m"
  by (cases m) (auto simp: load_strict_m_def opt_or_def)

lemma load_strict_Inl: "load_strict_m e m = (m', Inl e') \<Longrightarrow> m = Unparsable \<and> m' = Missing"
  by (cases m) (auto simp: load_strict_m_def)

end
