(* ===== verification/Website_Ops.thy ===== *)
theory Website_Ops
  imports Website_Forms Edge_Publish Json_Store
begin

text \<open>
  The operations of the website control plane: sites (\<open>infra/website/sites/crud.rs\<close>,
  \<open>resync.rs\<close>), access lists (\<open>access/ops.rs\<close>), default site and tuning, named certificates
  (\<open>certs/named.rs\<close>, the end of \<open>certs/issue.rs\<close>), over the manifests (\<open>state.rs\<close>, \<open>store.rs\<close>) and the reload of the edge (\<open>api.rs\<close>). \<open>state_lock\<close> makes
  each operation one step; a Let's Encrypt issuance is its start and its end. Best-effort file
  writes succeed; saves of manifests are asked of \<open>we_save\<close> in the order they happen.
\<close>

section \<open>State\<close>

record named_cert =
  nc_name :: string
  nc_domain :: string
  nc_cert_mode :: string
  nc_key_type :: string

record ('n, 'c) web_state =
  wb_setup :: bool
  wb_sites :: "site list manifest"
  wb_access :: "access_list list manifest"
  wb_default :: "default_site manifest"
  wb_tuning :: "panel_tuning manifest"
  wb_named :: "named_cert list manifest"
  wb_settings :: settings_file
  wb_certs :: "(string, string) hmap"
  wb_live :: "('n, 'c) runtime_config"

text \<open>The world: parsing of a certificate pair, the file system, saves, the password hash,
  self-signing for a host and key type, and the next ids.\<close>

record ('n, 'c) web_env =
  we_nets :: "'n net_lib"
  we_pair :: "string \<Rightarrow> string \<Rightarrow> 'c option"
  we_fs :: fs_lib
  we_save :: "nat \<Rightarrow> bool"
  we_hash :: "string \<Rightarrow> string"
  we_self_signed :: "string \<Rightarrow> string \<Rightarrow> (string \<times> string) option"
  we_site_id :: string
  we_access_id :: string
  we_cert_dir :: string
  we_www_dir :: string

datatype op_error = Web website_error | Io | CertUnreadable | CertMissing string | InUse "string list"
  | Rejected string

section \<open>Manifests\<close>

abbreviation "load_sites w \<equiv> load_or_default [] (wb_sites w)"
abbreviation "load_access w \<equiv> load_or_default [] (wb_access w)"
abbreviation "load_named_certs w \<equiv> load_or_default [] (wb_named w)"

definition settings_load :: "('n, 'c) web_state \<Rightarrow> web_settings option" where
  "settings_load w = (case wb_settings w of Present s \<Rightarrow> Some s | _ \<Rightarrow> None)"

definition save_sites :: "('n, 'c) web_env \<Rightarrow> nat \<Rightarrow> site list \<Rightarrow> ('n, 'c) web_state \<Rightarrow>
    (('n, 'c) web_state) option" where
  "save_sites E k ss w = (if we_save E k then Some (w\<lparr>wb_sites := Parsed ss\<rparr>) else None)"

section \<open>Reload\<close>

definition web_lib :: "('n, 'c) web_env \<Rightarrow> ('n, 'c) web_state \<Rightarrow> ('n, 'c) build_lib" where
  "web_lib E w = \<lparr>bl_nets = we_nets E,
     bl_load = (\<lambda>crt key. case hm_get (wb_certs w) crt of
        Some c \<Rightarrow> (case hm_get (wb_certs w) key of Some k \<Rightarrow> we_pair E c k | None \<Rightarrow> None)
      | None \<Rightarrow> None)\<rparr>"

text \<open>The listen ports \<open>edge_reload\<close> publishes: only the first call counts.\<close>

definition gather_ports :: "('n, 'c) web_state \<Rightarrow> listen_ports" where
  "gather_ports w =
     (let ws = settings_load w;
          port = (\<lambda>f d. case ws of Some s \<Rightarrow> if f s \<noteq> 0 then f s else d | None \<Rightarrow> d);
          http_port = port ws_website_http_port 80;
          https_port = port ws_website_https_port 443;
          console_raw = (case ws of Some s \<Rightarrow> ws_console_port s | None \<Rightarrow> 0);
          console_tls = (case ws of Some s \<Rightarrow> ws_https_mode s \<noteq> ''none'' | None \<Rightarrow> False);
          dedicated = (console_raw \<noteq> 0 \<and> console_raw \<noteq> http_port \<and> console_raw \<noteq> https_port);
          panel_sites = (if wb_setup w then load_sites w else [])
      in \<lparr>lp_website_http = http_port, lp_website_https = https_port,
          lp_console = (if dedicated then console_raw else 0), lp_console_tls = console_tls,
          lp_need_acme_80 = ((case ws of Some s \<Rightarrow> ws_https_mode s = ''le'' | None \<Rightarrow> False) \<or>
             list_ex (\<lambda>s. si_ssl s \<and> si_cert_mode s = ''le'') panel_sites)\<rparr>)"

definition gather_console :: "('n, 'c) web_state \<Rightarrow> console_params" where
  "gather_console w =
     (case settings_load w of
        Some s \<Rightarrow> \<lparr>cp_external_address = ws_external_address s, cp_https_mode = ws_https_mode s,
          cp_initialized = ws_initialized s, cp_dedicated_console = (lp_console (gather_ports w) \<noteq> 0)\<rparr>
      | None \<Rightarrow> \<lparr>cp_external_address = [], cp_https_mode = ''none'', cp_initialized = False,
          cp_dedicated_console = False\<rparr>)"

definition gather_input :: "('n, 'c) web_env \<Rightarrow> ('n, 'c) web_state \<Rightarrow> reload_input" where
  "gather_input E w =
     \<lparr>ri_sites = map site_to_edge (if wb_setup w then load_sites w else []),
      ri_access = (if wb_setup w then load_access w else []),
      ri_default_site = (if wb_setup w then load_or_default default_site_default (wb_default w)
                         else default_site_default),
      ri_tuning = http_tuning.truncate (load_or_default panel_tuning_default (wb_tuning w)),
      ri_cert_dir = we_cert_dir E, ri_www_dir = we_www_dir E, ri_console = gather_console w\<rparr>"

definition edge_reload :: "('n, 'c) web_env \<Rightarrow> ('n, 'c) web_state \<Rightarrow> ('n, 'c) web_state \<times> (op_error + unit)" where
  "edge_reload E w =
     (case reload (web_lib E w) (gather_input E w) (wb_live w) of
        (cfg, Inl e) \<Rightarrow> (w\<lparr>wb_live := cfg\<rparr>, Inl (Rejected e))
      | (cfg, Inr _) \<Rightarrow> (w\<lparr>wb_live := cfg\<rparr>, Inr ()))"

section \<open>Host names in use\<close>

definition host_tokens :: "string \<Rightarrow> string list" where
  "host_tokens server_name =
     filter (\<lambda>h. h \<noteq> []) (map (\<lambda>h. to_ascii_lowercase (trim h)) (split_whitespace server_name))"

definition console_reserved :: "('n, 'c) web_state \<Rightarrow> string list \<Rightarrow> bool" where
  "console_reserved w wanted =
     (if ''localhost'' \<in> set wanted \<or> ''127.0.0.1'' \<in> set wanted then True
      else (case settings_load w of
              None \<Rightarrow> False
            | Some ws \<Rightarrow>
                (let ext = to_ascii_lowercase (trim (ws_external_address ws))
                 in ext \<noteq> [] \<and> (ext \<in> set wanted \<or> bracket_if_ipv6 ext \<in> set wanted))))"

definition server_name_taken :: "('n, 'c) web_state \<Rightarrow> string \<Rightarrow> string \<Rightarrow> bool" where
  "server_name_taken w server_name exclude_id =
     (let wanted = host_tokens server_name
      in if wanted = [] then False
         else if console_reserved w wanted then True
         else list_ex (\<lambda>s. si_id s \<noteq> exclude_id \<and>
                list_ex (\<lambda>h. h \<in> set wanted) (host_tokens (si_server_name s))) (load_sites w))"

section \<open>Certificate files\<close>

definition site_crt :: "('n, 'c) web_env \<Rightarrow> string \<Rightarrow> string" where
  "site_crt E i = path_join (we_cert_dir E) (i @ ''.crt'')"

definition site_key :: "('n, 'c) web_env \<Rightarrow> string \<Rightarrow> string" where
  "site_key E i = path_join (we_cert_dir E) (i @ ''.key'')"

definition named_crt_file :: "('n, 'c) web_env \<Rightarrow> string \<Rightarrow> string" where
  "named_crt_file E n = path_join (we_cert_dir E) (''cert-'' @ n @ ''.crt'')"

definition named_key_file :: "('n, 'c) web_env \<Rightarrow> string \<Rightarrow> string" where
  "named_key_file E n = path_join (we_cert_dir E) (''cert-'' @ n @ ''.key'')"

definition file_exists :: "('n, 'c) web_state \<Rightarrow> string \<Rightarrow> bool" where
  "file_exists w f \<longleftrightarrow> hm_get (wb_certs w) f \<noteq> None"

definition write_pair :: "string \<Rightarrow> string \<Rightarrow> string \<times> string \<Rightarrow> ('n, 'c) web_state \<Rightarrow> ('n, 'c) web_state" where
  "write_pair crt key p w = w\<lparr>wb_certs := hm_insert key (snd p) (hm_insert crt (fst p) (wb_certs w))\<rparr>"

definition remove_pair :: "string \<Rightarrow> string \<Rightarrow> ('n, 'c) web_state \<Rightarrow> ('n, 'c) web_state" where
  "remove_pair crt key w = w\<lparr>wb_certs := hm_remove key (hm_remove crt (wb_certs w))\<rparr>"

definition restore_file :: "string \<Rightarrow> string option \<Rightarrow> ('n, 'c) web_state \<Rightarrow> ('n, 'c) web_state" where
  "restore_file f bak w = (case bak of
     Some pem \<Rightarrow> w\<lparr>wb_certs := hm_insert f pem (wb_certs w)\<rparr>
   | None \<Rightarrow> w\<lparr>wb_certs := hm_remove f (wb_certs w)\<rparr>)"

definition gen_self_signed :: "('n, 'c) web_env \<Rightarrow> site \<Rightarrow> ('n, 'c) web_state \<Rightarrow> op_error + ('n, 'c) web_state" where
  "gen_self_signed E s w =
     (let host = primary_host (si_server_name s);
          host' = (if host = [] \<or> host = ''_'' then ''localhost'' else host)
      in case we_self_signed E host' (st_key_type s) of
           Some p \<Rightarrow> Inr (write_pair (site_crt E (si_id s)) (site_key E (si_id s)) p w)
         | None \<Rightarrow> Inl CertUnreadable)"

text \<open>PEM texts of a manual certificate.\<close>

definition manual_pair :: "string option \<Rightarrow> string option \<Rightarrow> (string \<times> string) option" where
  "manual_pair crt key =
     (if trim (text_or crt) = [] \<or> trim (text_or key) = [] then None else Some (text_or crt, text_or key))"

section \<open>Sites\<close>

datatype site_result = SiteDone site | SiteRemoved string | IssueStarted site

definition prepare_new_cert :: "('n, 'c) web_env \<Rightarrow> site_form \<Rightarrow> site \<Rightarrow> ('n, 'c) web_state \<Rightarrow>
    op_error + (('n, 'c) web_state) option" where
  "prepare_new_cert E form s w =
     (if \<not> si_ssl s then Inr (Some w)
      else if si_cert_name s \<noteq> [] then
        (if \<not> file_exists w (named_crt_file E (si_cert_name s)) then Inl (CertMissing (si_cert_name s))
         else Inr (Some w))
      else if si_cert_mode s = ''self'' then map_sum id Some (gen_self_signed E s w)
      else if si_cert_mode s = ''manual'' then
        (case manual_pair (sf_cert_pem form) (sf_key_pem form) of
           None \<Rightarrow> Inl (Web NeedCertKey)
         | Some p \<Rightarrow> Inr (Some (write_pair (site_crt E (si_id s)) (site_key E (si_id s)) p w)))
      else if si_cert_mode s = ''le'' then Inr None
      else Inr (Some w))"

text \<open>The tail of \<open>add_site\<close>: manifest, reload, and back when the model is refused.\<close>

definition commit_new_site :: "('n, 'c) web_env \<Rightarrow> site \<Rightarrow> ('n, 'c) web_state \<Rightarrow>
    ('n, 'c) web_state \<times> (op_error + site_result)" where
  "commit_new_site E s w =
     (case load_strict_m Io (wb_sites w) of
        (m, Inl e) \<Rightarrow> (w\<lparr>wb_sites := m\<rparr>, Inl e)
      | (m, Inr v) \<Rightarrow>
     (let sites = opt_or v [] @ [s]
      in case save_sites E 0 sites w of
           None \<Rightarrow> (w, Inl Io)
         | Some w1 \<Rightarrow>
     (case edge_reload E w1 of
        (w2, Inr _) \<Rightarrow> (w2, Inr (SiteDone s))
      | (w2, Inl e) \<Rightarrow>
          (case save_sites E 1 (filter (\<lambda>x. si_id x \<noteq> si_id s) sites) w2 of
             None \<Rightarrow> (w2, Inl Io)
           | Some w3 \<Rightarrow> (fst (edge_reload E w3), Inl e)))))"

definition add_site :: "('n, 'c) web_env \<Rightarrow> site_form \<Rightarrow> ('n, 'c) web_state \<Rightarrow>
    ('n, 'c) web_state \<times> (op_error + site_result)" where
  "add_site E form w =
     (if \<not> wb_setup w then (w, Inl (Web NotSetup))
      else (case site_from_req (we_fs E) (load_access w) (we_site_id E) form of
        Inl e \<Rightarrow> (w, Inl (Web e))
      | Inr s \<Rightarrow>
          (if server_name_taken w (si_server_name s) (si_id s) then (w, Inl (Web DuplicateDomain))
           else (case prepare_new_cert E form s w of
             Inl e \<Rightarrow> (w, Inl e)
           | Inr None \<Rightarrow> (w, Inr (IssueStarted s))
           | Inr (Some w1) \<Rightarrow> commit_new_site E s w1))))"

definition remove_site :: "('n, 'c) web_env \<Rightarrow> string option \<Rightarrow> ('n, 'c) web_state \<Rightarrow>
    ('n, 'c) web_state \<times> (op_error + site_result)" where
  "remove_site E site_id w =
     (if \<not> wb_setup w then (w, Inl (Web NotSetup))
      else (case trimmed site_id of
        None \<Rightarrow> (w, Inl (Web MissingSiteId))
      | Some i \<Rightarrow>
     (case load_strict_m Io (wb_sites w) of
        (m, Inl e) \<Rightarrow> (w\<lparr>wb_sites := m\<rparr>, Inl e)
      | (m, Inr v) \<Rightarrow>
          (let sites = opt_or v [];
               removed = filter (\<lambda>s. si_id s = i) sites;
               kept = filter (\<lambda>s. si_id s \<noteq> i) sites
           in if length kept = length sites then (w, Inl (Web SiteNotFound))
              else (let w1 = foldl (\<lambda>w s. remove_pair (site_crt E (si_id s)) (site_key E (si_id s)) w) w removed
                    in case save_sites E 0 kept w1 of
                         None \<Rightarrow> (w1, Inl Io)
                       | Some w2 \<Rightarrow> (fst (edge_reload E w2), Inr (SiteRemoved i)))))))"

datatype cert_prep = Ready | ReissueLe

definition prepare_site_cert :: "('n, 'c) web_env \<Rightarrow> site_form \<Rightarrow> site \<Rightarrow> site \<Rightarrow> ('n, 'c) web_state \<Rightarrow>
    op_error + ('n, 'c) web_state \<times> cert_prep" where
  "prepare_site_cert E form old s w =
     (if \<not> si_ssl s then Inr (w, Ready)
      else if si_cert_name s \<noteq> [] then
        (if \<not> file_exists w (named_crt_file E (si_cert_name s)) then Inl (Web CertNotFound) else Inr (w, Ready))
      else
     (let have_pair = (file_exists w (site_crt E (si_id s)) \<and> file_exists w (site_key E (si_id s)))
      in if si_cert_mode s = ''manual'' then
           (case manual_pair (sf_cert_pem form) (sf_key_pem form) of
              Some p \<Rightarrow> Inr (write_pair (site_crt E (si_id s)) (site_key E (si_id s)) p w, Ready)
            | None \<Rightarrow> if \<not> have_pair then Inl (Web NeedCertKey) else Inr (w, Ready))
         else if si_cert_mode s = ''le'' then
           (if \<not> have_pair \<or> si_cert_mode old \<noteq> ''le'' \<or> si_cert_name old \<noteq> [] \<or>
               primary_host (si_server_name old) \<noteq> primary_host (si_server_name s)
            then Inr (w, ReissueLe) else Inr (w, Ready))
         else if si_cert_mode s = ''self'' \<and>
             (\<not> have_pair \<or> si_cert_mode old \<noteq> ''self'' \<or> si_cert_name old \<noteq> []) then
           map_sum id (\<lambda>w'. (w', Ready)) (gen_self_signed E s w)
         else Inr (w, Ready)))"

text \<open>The tail of \<open>update_site\<close>, with the certificate files as they were before.\<close>

definition commit_site :: "('n, 'c) web_env \<Rightarrow> site list \<Rightarrow> site \<Rightarrow> site \<Rightarrow> string option \<Rightarrow> string option \<Rightarrow>
    ('n, 'c) web_state \<Rightarrow> ('n, 'c) web_state \<times> (op_error + site_result)" where
  "commit_site E sites0 old s crt_bak key_bak w =
     (let sites = filter (\<lambda>x. si_id x \<noteq> si_id s) sites0 @ [s]
      in case save_sites E 0 sites w of
           None \<Rightarrow> (w, Inl Io)
         | Some w1 \<Rightarrow>
     (case edge_reload E w1 of
        (w2, Inr _) \<Rightarrow> (w2, Inr (SiteDone s))
      | (w2, Inl e) \<Rightarrow>
          (case save_sites E 1 (filter (\<lambda>x. si_id x \<noteq> si_id old) sites @ [old]) w2 of
             None \<Rightarrow> (w2, Inl Io)
           | Some w3 \<Rightarrow>
               (let w4 = restore_file (site_key E (si_id s)) key_bak (restore_file (site_crt E (si_id s)) crt_bak w3)
                in (fst (edge_reload E w4), Inl e)))))"

definition update_site :: "('n, 'c) web_env \<Rightarrow> site_form \<Rightarrow> ('n, 'c) web_state \<Rightarrow>
    ('n, 'c) web_state \<times> (op_error + site_result)" where
  "update_site E form w =
     (if \<not> wb_setup w then (w, Inl (Web NotSetup))
      else (case trimmed (sf_site_id form) of
        None \<Rightarrow> (w, Inl (Web MissingSiteId))
      | Some i \<Rightarrow>
     (case load_strict_m Io (wb_sites w) of
        (m, Inl e) \<Rightarrow> (w\<lparr>wb_sites := m\<rparr>, Inl e)
      | (m, Inr v) \<Rightarrow>
     (case find (\<lambda>s. si_id s = i) (opt_or v []) of
        None \<Rightarrow> (w, Inl (Web SiteNotFound))
      | Some old \<Rightarrow>
     (case site_from_req (we_fs E) (load_access w) (we_site_id E) form of
        Inl e \<Rightarrow> (w, Inl (Web e))
      | Inr s0 \<Rightarrow>
     (let s = s0\<lparr>si_id := si_id old\<rparr>
      in if server_name_taken w (si_server_name s) (si_id s) then (w, Inl (Web DuplicateDomain))
         else (case prepare_site_cert E form old s w of
                 Inl e \<Rightarrow> (w, Inl e)
               | Inr (w1, ReissueLe) \<Rightarrow> (w1, Inr (IssueStarted s))
               | Inr (w1, Ready) \<Rightarrow>
                   commit_site E (opt_or v []) old s (hm_get (wb_certs w) (site_crt E (si_id s)))
                     (hm_get (wb_certs w) (site_key E (si_id s))) w1)))))))"

text \<open>The end of an issuance: the site as it was when the issuance started goes back into the manifest.\<close>

definition attach_named_cert_to_site :: "('n, 'c) web_env \<Rightarrow> site \<Rightarrow> string \<Rightarrow> ('n, 'c) web_state \<Rightarrow>
    ('n, 'c) web_state \<times> (op_error + unit)" where
  "attach_named_cert_to_site E s0 cert_name w =
     (let s = s0\<lparr>si_cert_mode := ''named'', si_cert_name := cert_name\<rparr>
      in case save_sites E 0 (filter (\<lambda>x. si_id x \<noteq> si_id s) (load_sites w) @ [s]) w of
           None \<Rightarrow> (w, Inl Io)
         | Some w1 \<Rightarrow> edge_reload E w1)"

section \<open>Access lists\<close>

definition save_access :: "('n, 'c) web_env \<Rightarrow> nat \<Rightarrow> access_list list \<Rightarrow> ('n, 'c) web_state \<Rightarrow>
    (('n, 'c) web_state) option" where
  "save_access E k als w = (if we_save E k then Some (w\<lparr>wb_access := Parsed als\<rparr>) else None)"

definition sites_using_access :: "('n, 'c) web_state \<Rightarrow> string \<Rightarrow> string list" where
  "sites_using_access w i =
     map si_server_name (filter (\<lambda>s. si_access_id s \<noteq> [] \<and> si_access_id s = i) (load_sites w))"

definition save_access_op :: "('n, 'c) web_env \<Rightarrow> save_access \<Rightarrow> ('n, 'c) web_state \<Rightarrow>
    ('n, 'c) web_state \<times> (op_error + string)" where
  "save_access_op E cmd w =
     (if \<not> wb_setup w then (w, Inl (Web NotSetup))
      else (case trimmed (sa_name cmd) of
        None \<Rightarrow> (w, Inl (Web NeedAccessName))
      | Some name \<Rightarrow>
     (if \<not> valid_access_name name then (w, Inl (Web BadAccessName))
      else (case build_access_clients (opt_or (sa_clients cmd) []) of
        Inl e \<Rightarrow> (w, Inl (Web e))
      | Inr clients \<Rightarrow>
     (case load_strict_m Io (wb_access w) of
        (m, Inl e) \<Rightarrow> (w\<lparr>wb_access := m\<rparr>, Inl e)
      | (m, Inr v) \<Rightarrow>
     (let als = opt_or v [];
          existing_id = trimmed (sa_access_id cmd);
          old = (case existing_id of Some i \<Rightarrow> find (\<lambda>a. al_id a = i) als | None \<Rightarrow> None)
      in case build_access_users (we_hash E) old (sa_users cmd) of
           Inl e \<Rightarrow> (w, Inl (Web e))
         | Inr users \<Rightarrow>
     (let i = opt_or existing_id (we_access_id E);
          al = \<lparr>al_id = i, al_name = name,
                al_satisfy = (if sa_satisfy cmd = Some ''all'' then ''all'' else ''any''),
                al_pass_auth = opt_or (sa_pass_auth cmd) False, al_users = users, al_clients = clients\<rparr>
      in case save_access E 0 (filter (\<lambda>a. al_id a \<noteq> i) als @ [al]) w of
           None \<Rightarrow> (w, Inl Io)
         | Some w1 \<Rightarrow>
             (case edge_reload E w1 of (w2, Inl e) \<Rightarrow> (w2, Inl e) | (w2, Inr _) \<Rightarrow> (w2, Inr i)))))))))"

definition delete_access_op :: "('n, 'c) web_env \<Rightarrow> string option \<Rightarrow> ('n, 'c) web_state \<Rightarrow>
    ('n, 'c) web_state \<times> (op_error + string)" where
  "delete_access_op E access_id w =
     (if \<not> wb_setup w then (w, Inl (Web NotSetup))
      else (case trimmed access_id of
        None \<Rightarrow> (w, Inl (Web MissingAccessId))
      | Some i \<Rightarrow>
     (if sites_using_access w i \<noteq> [] then (w, Inl (InUse (sites_using_access w i)))
      else (case load_strict_m Io (wb_access w) of
        (m, Inl e) \<Rightarrow> (w\<lparr>wb_access := m\<rparr>, Inl e)
      | (m, Inr v) \<Rightarrow>
     (let als = opt_or v []; kept = filter (\<lambda>a. al_id a \<noteq> i) als
      in if length kept = length als then (w, Inl (Web AccessNotFound))
         else (case save_access E 0 kept w of
                 None \<Rightarrow> (w, Inl Io)
               | Some w1 \<Rightarrow> (fst (edge_reload E w1), Inr i)))))))"

section \<open>Default site and tuning\<close>

definition save_default :: "('n, 'c) web_env \<Rightarrow> nat \<Rightarrow> default_site \<Rightarrow> ('n, 'c) web_state \<Rightarrow>
    (('n, 'c) web_state) option" where
  "save_default E k g w = (if we_save E k then Some (w\<lparr>wb_default := Parsed g\<rparr>) else None)"

definition apply_default_site :: "('n, 'c) web_env \<Rightarrow> default_site \<Rightarrow> ('n, 'c) web_state \<Rightarrow>
    ('n, 'c) web_state \<times> (op_error + unit)" where
  "apply_default_site E g w =
     (if \<not> wb_setup w then (w, Inl (Web NotSetup))
      else (case load_strict_m Io (wb_default w) of
        (m, Inl e) \<Rightarrow> (w\<lparr>wb_default := m\<rparr>, Inl e)
      | (m, Inr v) \<Rightarrow>
     (let prev = opt_or v default_site_default
      in case save_default E 0 g w of
           None \<Rightarrow> (w, Inl Io)
         | Some w1 \<Rightarrow>
     (case edge_reload E w1 of
        (w2, Inr _) \<Rightarrow> (w2, Inr ())
      | (w2, Inl e) \<Rightarrow>
          (case save_default E 1 prev w2 of
             Some w3 \<Rightarrow> (fst (edge_reload E w3), Inl e)
           | None \<Rightarrow> (fst (edge_reload E w2), Inl e))))))"

definition current_tuning :: "('n, 'c) web_state \<Rightarrow> panel_tuning" where
  "current_tuning w = (case load_opt (wb_tuning w) of Some t \<Rightarrow> t | None \<Rightarrow> panel_tuning_default)"

definition apply_tuning :: "('n, 'c) web_env \<Rightarrow> panel_tuning \<Rightarrow> ('n, 'c) web_state \<Rightarrow>
    ('n, 'c) web_state \<times> (op_error + unit)" where
  "apply_tuning E t w =
     (if \<not> wb_setup w then (w, Inl (Web NotSetup))
      else if \<not> we_save E 0 then (w, Inl Io)
      else edge_reload E (w\<lparr>wb_tuning := Parsed t\<rparr>))"

section \<open>Named certificates\<close>

definition save_named_certs :: "('n, 'c) web_env \<Rightarrow> nat \<Rightarrow> named_cert list \<Rightarrow> ('n, 'c) web_state \<Rightarrow>
    (('n, 'c) web_state) option" where
  "save_named_certs E k cs w = (if we_save E k then Some (w\<lparr>wb_named := Parsed cs\<rparr>) else None)"

definition sites_using_certs :: "('n, 'c) web_state \<Rightarrow> string \<Rightarrow> string list" where
  "sites_using_certs w n =
     map si_server_name (filter (\<lambda>s. si_cert_name s \<noteq> [] \<and> si_cert_name s = n) (load_sites w))"

text \<open>\<open>replace('*', ...)\<close> and \<open>take(64)\<close>; by bytes, which agrees on every name that is valid.\<close>

definition cert_name_from_domain :: "string \<Rightarrow> string" where
  "cert_name_from_domain domain =
     take 64 (concat (map (\<lambda>c. if c = CHR ''*'' then ''_wildcard_'' else [c]) (to_ascii_lowercase (trim domain))))"

definition derive_cert_name :: "create_cert_cmd \<Rightarrow> named_cert list \<Rightarrow> website_error + string \<times> string" where
  "derive_cert_name cmd certs =
     (let domain = trim (text_or (ct_server_name cmd));
          name = cert_name_from_domain domain
      in if domain = [] then Inl NeedCertDomain
         else if \<not> valid_server_name domain then Inl BadDomain
         else if \<not> valid_cert_name name then Inl BadCertNameChars
         else if list_ex (\<lambda>c. nc_name c = name \<or>
                (nc_domain c \<noteq> [] \<and> eq_ignore_ascii_case (nc_domain c) domain)) certs
         then Inl CertDomainExists
         else Inr (domain, name))"

datatype cert_result = CertDone string | CertIssueStarted string string string

definition create_cert :: "('n, 'c) web_env \<Rightarrow> create_cert_cmd \<Rightarrow> ('n, 'c) web_state \<Rightarrow>
    ('n, 'c) web_state \<times> (op_error + cert_result)" where
  "create_cert E cmd w =
     (let mode = opt_or (ct_cert_mode cmd) ''self'';
          key_type = norm_key_type (text_or (ct_key_type cmd));
          certs = load_named_certs w
      in if \<not> wb_setup w then (w, Inl (Web NotSetup))
         else if mode \<notin> {''self'', ''le'', ''manual''} then (w, Inl (Web UnknownCertMode))
         else (case derive_cert_name cmd certs of
           Inl e \<Rightarrow> (w, Inl (Web e))
         | Inr (domain, name) \<Rightarrow>
     (if mode = ''le'' then (w, Inr (CertIssueStarted name domain key_type))
      else (case (if mode = ''self'' then
                    (let host = primary_host domain
                     in case we_self_signed E (if host = [] \<or> host = ''_'' then ''localhost'' else host) key_type of
                          Some p \<Rightarrow> Inr p | None \<Rightarrow> Inl CertUnreadable)
                  else (case manual_pair (ct_cert_pem cmd) (ct_key_pem cmd) of
                          Some p \<Rightarrow> Inr p | None \<Rightarrow> Inl (Web NeedCertKey))) of
              Inl e \<Rightarrow> (w, Inl e)
            | Inr p \<Rightarrow>
                (let w1 = write_pair (named_crt_file E name) (named_key_file E name) p w
                 in case save_named_certs E 0 (certs @ [\<lparr>nc_name = name, nc_domain = domain,
                            nc_cert_mode = mode, nc_key_type = key_type\<rparr>]) w1 of
                      None \<Rightarrow> (w1, Inl Io)
                    | Some w2 \<Rightarrow> (w2, Inr (CertDone name)))))))"

definition delete_cert :: "('n, 'c) web_env \<Rightarrow> string option \<Rightarrow> ('n, 'c) web_state \<Rightarrow>
    ('n, 'c) web_state \<times> (op_error + string)" where
  "delete_cert E cert_name w =
     (if \<not> wb_setup w then (w, Inl (Web NotSetup))
      else (case trimmed cert_name of
        None \<Rightarrow> (w, Inl (Web MissingCertName))
      | Some n \<Rightarrow>
     (if sites_using_certs w n \<noteq> [] then (w, Inl (InUse (sites_using_certs w n)))
      else (let certs = load_named_certs w; kept = filter (\<lambda>c. nc_name c \<noteq> n) certs
            in if length kept = length certs then (w, Inl (Web CertNotFound))
               else (let w1 = remove_pair (named_crt_file E n) (named_key_file E n) w
                     in case save_named_certs E 0 kept w1 of
                          None \<Rightarrow> (w1, Inl Io)
                        | Some w2 \<Rightarrow> (w2, Inr n))))))"

text \<open>The end of a Let's Encrypt issuance for a site: the pair goes into the store under a name of
  its own or that of the entry for the same domain.\<close>

fun unique_name_from :: "named_cert list \<Rightarrow> string \<Rightarrow> nat \<Rightarrow> nat \<Rightarrow> string" where
  "unique_name_from certs base i 0 = base @ ''-'' @ to_dec i"
| "unique_name_from certs base i (Suc n) =
     (if list_ex (\<lambda>c. nc_name c = base @ ''-'' @ to_dec i) certs
      then unique_name_from certs base (Suc i) n else base @ ''-'' @ to_dec i)"

definition unique_le_cert_name :: "named_cert list \<Rightarrow> string \<Rightarrow> string \<Rightarrow> string" where
  "unique_le_cert_name certs host i =
     (case find (\<lambda>c. eq_ignore_ascii_case (nc_domain c) host) certs of
        Some c \<Rightarrow> nc_name c
      | None \<Rightarrow>
          (let base = (if valid_cert_name host then host else ''le-'' @ i)
           in if list_ex (\<lambda>c. nc_name c = base) certs
              then unique_name_from certs base 1 (length certs) else base))"

definition finish_le :: "('n, 'c) web_env \<Rightarrow> site \<Rightarrow> string \<times> string \<Rightarrow> ('n, 'c) web_state \<Rightarrow>
    ('n, 'c) web_state \<times> (op_error + unit)" where
  "finish_le E s p w =
     (let certs = load_named_certs w;
          host = primary_host (si_server_name s);
          n = unique_le_cert_name certs host (si_id s);
          w1 = write_pair (named_crt_file E n) (named_key_file E n) p w
      in case save_named_certs E 1 (filter (\<lambda>c. nc_name c \<noteq> n) certs @ [\<lparr>nc_name = n, nc_domain = host,
                nc_cert_mode = ''le'', nc_key_type = st_key_type s\<rparr>]) w1 of
           None \<Rightarrow> (w1, Inl Io)
         | Some w2 \<Rightarrow> attach_named_cert_to_site E s n w2)"

definition finish_le_named :: "('n, 'c) web_env \<Rightarrow> string \<Rightarrow> string \<Rightarrow> string \<Rightarrow> string \<times> string \<Rightarrow>
    ('n, 'c) web_state \<Rightarrow> ('n, 'c) web_state \<times> (op_error + unit)" where
  "finish_le_named E n domain key_type p w =
     (let w1 = write_pair (named_crt_file E n) (named_key_file E n) p w
      in case save_named_certs E 0 (filter (\<lambda>c. nc_name c \<noteq> n) (load_named_certs w1) @ [\<lparr>nc_name = n,
                nc_domain = domain, nc_cert_mode = ''le'', nc_key_type = key_type\<rparr>]) w1 of
           None \<Rightarrow> (w1, Inl Io)
         | Some w2 \<Rightarrow> (w2, Inr ()))"

definition renew_cert :: "('n, 'c) web_env \<Rightarrow> string option \<Rightarrow> ('n, 'c) web_state \<Rightarrow>
    ('n, 'c) web_state \<times> (op_error + cert_result)" where
  "renew_cert E cert_name w =
     (if \<not> wb_setup w then (w, Inl (Web NotSetup))
      else (case trimmed cert_name of
        None \<Rightarrow> (w, Inl (Web MissingCertName))
      | Some n \<Rightarrow>
     (case find (\<lambda>c. nc_name c = n) (load_named_certs w) of
        None \<Rightarrow> (w, Inl (Web CertNotFound))
      | Some c \<Rightarrow>
          (if nc_cert_mode c = ''le'' then (w, Inr (CertIssueStarted (nc_name c) (nc_domain c) (nc_key_type c)))
           else if nc_cert_mode c = ''self'' then
             (if nc_domain c = [] then (w, Inl (Web NeedCertDomain))
              else (let host = primary_host (nc_domain c)
                    in case we_self_signed E (if host = [] \<or> host = ''_'' then ''localhost'' else host) (nc_key_type c) of
                         None \<Rightarrow> (w, Inl CertUnreadable)
                       | Some p \<Rightarrow>
                           (fst (edge_reload E (write_pair (named_crt_file E (nc_name c)) (named_key_file E (nc_name c)) p w)),
                            Inr (CertDone (nc_name c)))))
           else (w, Inl (Web ManualNoRenew))))))"

end
