(* ===== verification/Website_Proofs.thy ===== *)
theory Website_Proofs
  imports Website_Ops
begin

text \<open>
  What the website operations keep: the live table is the one the manifests describe, host names
  stay disjoint, sites refer to access lists that exist; and where the end of a certificate
  issuance breaks it.
\<close>

section \<open>Effects\<close>

lemma edge_reload_frame [simp]:
  "wb_setup (fst (edge_reload E w)) = wb_setup w" "wb_sites (fst (edge_reload E w)) = wb_sites w"
  "wb_access (fst (edge_reload E w)) = wb_access w" "wb_default (fst (edge_reload E w)) = wb_default w"
  "wb_tuning (fst (edge_reload E w)) = wb_tuning w" "wb_named (fst (edge_reload E w)) = wb_named w"
  "wb_settings (fst (edge_reload E w)) = wb_settings w" "wb_certs (fst (edge_reload E w)) = wb_certs w"
  by (auto simp: edge_reload_def split: prod.splits sum.splits)

lemma edge_reload_fst: "edge_reload E w = (w', r) \<Longrightarrow> fst (edge_reload E w) = w'"
  by simp

lemmas edge_reload_effects = edge_reload_frame [of E w for E w, simplified]

lemma edge_reload_eq:
  assumes "edge_reload E w = (w', r)"
  shows "wb_setup w' = wb_setup w" "wb_sites w' = wb_sites w" "wb_access w' = wb_access w"
    "wb_default w' = wb_default w" "wb_tuning w' = wb_tuning w" "wb_named w' = wb_named w"
    "wb_settings w' = wb_settings w" "wb_certs w' = wb_certs w"
  using edge_reload_frame [of E w] assms by simp_all

lemma live_irrelevant [simp]:
  "web_lib E (w\<lparr>wb_live := c\<rparr>) = web_lib E w" "gather_input E (w\<lparr>wb_live := c\<rparr>) = gather_input E w"
  by (simp_all add: web_lib_def gather_input_def gather_console_def gather_ports_def settings_load_def
      cong: option.case_cong)

text \<open>The live table is the one the manifests describe.\<close>

definition served :: "('n, 'c) web_env \<Rightarrow> ('n, 'c) web_state \<Rightarrow> bool" where
  "served E w \<longleftrightarrow> build_runtime (web_lib E w) (gather_input E w) = Inr (wb_live w)"

lemma edge_reload_Inr: "edge_reload E w = (w', Inr u) \<Longrightarrow> served E w'"
  by (auto simp: edge_reload_def reload_def publish_def served_def split: prod.splits sum.splits)

lemma edge_reload_Inl: "edge_reload E w = (w', Inl e) \<Longrightarrow> w' = w"
  by (auto simp: edge_reload_def reload_def split: prod.splits sum.splits)

lemma edge_reload_either: "fst (edge_reload E w) = w \<or> served E (fst (edge_reload E w))"
  by (cases "edge_reload E w") (metis edge_reload_Inl edge_reload_Inr fst_conv sum.exhaust)

lemma save_sites_Some: "save_sites E k ss w = Some w' \<longleftrightarrow> we_save E k \<and> w' = w\<lparr>wb_sites := Parsed ss\<rparr>"
  by (auto simp: save_sites_def)

lemma write_pair_frame [simp]:
  "wb_sites (write_pair c k p w) = wb_sites w" "wb_access (write_pair c k p w) = wb_access w"
  "wb_live (write_pair c k p w) = wb_live w" "wb_setup (write_pair c k p w) = wb_setup w"
  by (simp_all add: write_pair_def)

lemma remove_pairs_frame:
  "wb_sites (foldl (\<lambda>w s. remove_pair (f s) (g s) w) w ss) = wb_sites w"
  "wb_access (foldl (\<lambda>w s. remove_pair (f s) (g s) w) w ss) = wb_access w"
  by (induction ss arbitrary: w) (simp_all add: remove_pair_def)

lemma restore_file_frame [simp]:
  "wb_sites (restore_file f b w) = wb_sites w" "wb_access (restore_file f b w) = wb_access w"
  "wb_setup (restore_file f b w) = wb_setup w"
  by (simp_all add: restore_file_def split: option.splits)

lemma gen_self_signed_frame:
  "gen_self_signed E s w = Inr w' \<Longrightarrow>
   wb_sites w' = wb_sites w \<and> wb_access w' = wb_access w \<and> wb_live w' = wb_live w \<and> wb_setup w' = wb_setup w"
  by (auto simp: gen_self_signed_def Let_def split: option.splits)

lemma map_sum_Inr: "map_sum f g x = Inr y \<longleftrightarrow> (\<exists>z. x = Inr z \<and> y = g z)"
  by (cases x) auto

lemma prepare_new_cert_frame:
  "prepare_new_cert E form s w = Inr (Some w') \<Longrightarrow>
   wb_sites w' = wb_sites w \<and> wb_access w' = wb_access w \<and> wb_live w' = wb_live w \<and> wb_setup w' = wb_setup w"
  by (auto simp: prepare_new_cert_def map_sum_Inr split: if_splits option.splits dest: gen_self_signed_frame)

lemma prepare_site_cert_frame:
  "prepare_site_cert E form old s w = Inr (w', p) \<Longrightarrow>
   wb_sites w' = wb_sites w \<and> wb_access w' = wb_access w \<and> wb_live w' = wb_live w \<and> wb_setup w' = wb_setup w"
  by (auto simp: prepare_site_cert_def Let_def map_sum_Inr split: if_splits option.splits
      dest: gen_self_signed_frame)

section \<open>Commits\<close>

text \<open>What a commit leaves in the manifest: the new model if the edge took it; the old one, if the
  edge refused it and the disk works.\<close>

lemma commit_new_site_cases:
  assumes "commit_new_site E s w = (w', r)"
  obtains (corrupt) "wb_sites w = Unparsable" "w' = w\<lparr>wb_sites := Missing\<rparr>" "r = Inl Io"
    | (disk) "wb_sites w \<noteq> Unparsable" "\<not> we_save E 0" "w' = w" "r = Inl Io"
    | (published) "wb_sites w \<noteq> Unparsable" "we_save E 0" "r = Inr (SiteDone s)" "served E w'"
        "wb_sites w' = Parsed (load_sites w @ [s])" "wb_access w' = wb_access w"
    | (stuck) "wb_sites w \<noteq> Unparsable" "we_save E 0" "\<not> we_save E 1" "r = Inl Io"
        "w' = w\<lparr>wb_sites := Parsed (load_sites w @ [s])\<rparr>"
    | (rolled_back) e where "wb_sites w \<noteq> Unparsable" "we_save E 0" "we_save E 1" "r = Inl e"
        "wb_sites w' = Parsed (filter (\<lambda>x. si_id x \<noteq> si_id s) (load_sites w @ [s]))"
        "wb_access w' = wb_access w" "wb_live w' = wb_live w \<or> served E w'"
proof -
  obtain m v where m: "load_strict_m Io (wb_sites w) = (m, v)" by (cases "load_strict_m Io (wb_sites w)")
  show ?thesis
  proof (cases v)
    case (Inl e)
    with m assms have "wb_sites w = Unparsable" "w' = w\<lparr>wb_sites := Missing\<rparr>" "r = Inl Io"
      by (auto simp: commit_new_site_def load_strict_m_def split: manifest.splits)
    then show ?thesis by (rule corrupt)
  next
    case (Inr v')
    with m have ld: "wb_sites w \<noteq> Unparsable" "opt_or v' [] = load_sites w"
      using load_strict_Inr [of Io "wb_sites w" m v' "[]"] by auto
    define w1 where "w1 = w\<lparr>wb_sites := Parsed (load_sites w @ [s])\<rparr>"
    obtain w2 q where q: "edge_reload E w1 = (w2, q)" by (cases "edge_reload E w1")
    have def: "commit_new_site E s w = (case save_sites E 0 (load_sites w @ [s]) w of None \<Rightarrow> (w, Inl Io)
       | Some w1 \<Rightarrow> (case edge_reload E w1 of
          (w2, Inr _) \<Rightarrow> (w2, Inr (SiteDone s))
        | (w2, Inl e) \<Rightarrow>
          (case save_sites E 1 (filter (\<lambda>x. si_id x \<noteq> si_id s) (load_sites w @ [s])) w2 of
             None \<Rightarrow> (w2, Inl Io) | Some w3 \<Rightarrow> (fst (edge_reload E w3), Inl e))))"
      by (simp only: commit_new_site_def m Inr Let_def prod.case sum.case ld(2))
    show ?thesis
    proof (cases "we_save E 0")
      case False
      with assms def ld(1) show ?thesis by (intro disk) (auto simp: save_sites_def)
    next
      case s0: True
      show ?thesis
      proof (cases q)
        case (Inr u)
        with q assms def s0 have "w' = w2" "r = Inr (SiteDone s)" by (auto simp: save_sites_def w1_def)
        with ld(1) s0 edge_reload_Inr [OF q [unfolded Inr]] edge_reload_eq [OF q] show ?thesis
          by (intro published) (auto simp: w1_def)
      next
        case (Inl e)
        with q have w2: "w2 = w1" using edge_reload_Inl by blast
        show ?thesis
        proof (cases "we_save E 1")
          case False
          with q Inl assms def s0 w2 ld(1) show ?thesis by (intro stuck) (auto simp: save_sites_def w1_def)
        next
          case True
          define w3 where "w3 = w1\<lparr>wb_sites := Parsed (filter (\<lambda>x. si_id x \<noteq> si_id s) (load_sites w @ [s]))\<rparr>"
          from True q Inl assms def s0 w2 have "w' = fst (edge_reload E w3)" "r = Inl e"
            by (auto simp: save_sites_def w1_def w3_def)
          with True s0 ld(1) edge_reload_either [of E w3] show ?thesis
            by (intro rolled_back) (auto simp: w3_def w1_def)
        qed
      qed
    qed
  qed
qed

lemma commit_site_cases:
  assumes "commit_site E ss old s cb kb w = (w', r)"
  obtains (disk) "\<not> we_save E 0" "w' = w" "r = Inl Io"
    | (published) "we_save E 0" "r = Inr (SiteDone s)" "served E w'"
        "wb_sites w' = Parsed (filter (\<lambda>x. si_id x \<noteq> si_id s) ss @ [s])" "wb_access w' = wb_access w"
    | (stuck) "we_save E 0" "\<not> we_save E 1" "r = Inl Io"
        "w' = w\<lparr>wb_sites := Parsed (filter (\<lambda>x. si_id x \<noteq> si_id s) ss @ [s])\<rparr>"
    | (rolled_back) e where "we_save E 0" "we_save E 1" "r = Inl e"
        "wb_sites w' = Parsed (filter (\<lambda>x. si_id x \<noteq> si_id old) (filter (\<lambda>x. si_id x \<noteq> si_id s) ss @ [s]) @ [old])"
        "wb_access w' = wb_access w" "wb_live w' = wb_live w \<or> served E w'"
proof -
  define new where "new = filter (\<lambda>x. si_id x \<noteq> si_id s) ss @ [s]"
  define w1 where "w1 = w\<lparr>wb_sites := Parsed new\<rparr>"
  obtain w2 q where q: "edge_reload E w1 = (w2, q)" by (cases "edge_reload E w1")
  show ?thesis
  proof (cases "we_save E 0")
    case False
    with assms show ?thesis by (intro disk) (auto simp: commit_site_def Let_def save_sites_def)
  next
    case s0: True
    then have sv: "save_sites E 0 new w = Some w1" by (simp add: save_sites_def w1_def)
    then have def: "commit_site E ss old s cb kb w = (case edge_reload E w1 of
        (w2, Inr _) \<Rightarrow> (w2, Inr (SiteDone s))
      | (w2, Inl e) \<Rightarrow>
          (case save_sites E 1 (filter (\<lambda>x. si_id x \<noteq> si_id old) new @ [old]) w2 of
             None \<Rightarrow> (w2, Inl Io)
           | Some w3 \<Rightarrow> (fst (edge_reload E (restore_file (site_key E (si_id s)) kb
                           (restore_file (site_crt E (si_id s)) cb w3))), Inl e)))"
      by (simp only: commit_site_def Let_def new_def [symmetric] sv option.case)
    show ?thesis
    proof (cases q)
      case (Inr u)
      with q assms def have "w' = w2" "r = Inr (SiteDone s)" by auto
      with s0 edge_reload_Inr [OF q [unfolded Inr]] edge_reload_eq [OF q] show ?thesis
        by (intro published) (auto simp: w1_def new_def)
    next
      case (Inl e)
      with q have w2: "w2 = w1" using edge_reload_Inl by blast
      show ?thesis
      proof (cases "we_save E 1")
        case False
        with q Inl assms def s0 w2 show ?thesis by (intro stuck) (auto simp: save_sites_def w1_def new_def)
      next
        case True
        define w3 where "w3 = restore_file (site_key E (si_id s)) kb (restore_file (site_crt E (si_id s)) cb
            (w1\<lparr>wb_sites := Parsed (filter (\<lambda>x. si_id x \<noteq> si_id old) new @ [old])\<rparr>))"
        from True q Inl assms def w2 have w': "w' = fst (edge_reload E w3)" "r = Inl e"
          by (auto simp: save_sites_def w3_def)
        have "wb_live w3 = wb_live w" by (simp add: w3_def w1_def restore_file_def split: option.splits)
        with w' edge_reload_either [of E w3] have l: "wb_live w' = wb_live w \<or> served E w'" by auto
        show ?thesis
          by (rule rolled_back [OF s0 True w'(2) _ _ l]) (simp_all add: w' w3_def w1_def new_def)
      qed
    qed
  qed
qed

section \<open>References to access lists\<close>

definition ref_ok :: "access_list list \<Rightarrow> site \<Rightarrow> bool" where
  "ref_ok als s \<longleftrightarrow> si_access_id s = [] \<or> (\<exists>a \<in> set als. al_id a = si_access_id s)"

text \<open>Readable manifests, and every site's access list among them.\<close>

definition refs_intact :: "('n, 'c) web_state \<Rightarrow> bool" where
  "refs_intact w \<longleftrightarrow> wb_access w \<noteq> Unparsable \<and> (\<forall>s \<in> set (load_sites w). ref_ok (load_access w) s)"

lemma refs_intactI:
  "refs_intact w \<Longrightarrow> wb_access w' = wb_access w \<Longrightarrow>
   (\<And>s. s \<in> set (load_sites w') \<Longrightarrow> s \<in> set (load_sites w) \<or> ref_ok (load_access w) s) \<Longrightarrow> refs_intact w'"
  by (auto simp: refs_intact_def)

lemma add_site_refs:
  assumes "add_site E form w = (w', r)" and ok: "refs_intact w"
  shows "refs_intact w'"
proof -
  from assms(1) consider "w' = w"
    | s w1 where "site_from_req (we_fs E) (load_access w) (we_site_id E) form = Inr s"
        "prepare_new_cert E form s w = Inr (Some w1)" "commit_new_site E s w1 = (w', r)"
    by (auto simp: add_site_def split: if_split_asm sum.split_asm option.split_asm)
  then show ?thesis
  proof cases
    case 2
    have ref: "ref_ok (load_access w) s" using site_from_req_site_ok [OF 2(1)] by (auto simp: site_ok_def ref_ok_def)
    note f = prepare_new_cert_frame [OF 2(2)]
    show ?thesis
      by (rule commit_new_site_cases [OF 2(3)]; rule refs_intactI [OF ok]) (auto simp: f ref)
  qed (simp add: ok)
qed

lemma remove_site_refs:
  assumes "remove_site E i w = (w', r)" and ok: "refs_intact w"
  shows "refs_intact w'"
proof -
  from assms(1) have "wb_access w' = wb_access w \<and> set (load_sites w') \<subseteq> set (load_sites w)"
    unfolding remove_site_def Let_def
    by (auto simp: remove_pairs_frame save_sites_Some split: if_split_asm option.split_asm prod.split_asm sum.split_asm
        dest!: load_strict_Inr [where d = "[]"] load_strict_Inl)
  then show ?thesis by (intro refs_intactI [OF ok]) auto
qed

lemma update_site_refs:
  assumes "update_site E form w = (w', r)" and ok: "refs_intact w"
  shows "refs_intact w'"
proof -
  obtain m v where m: "load_strict_m Io (wb_sites w) = (m, v)" by (cases "load_strict_m Io (wb_sites w)")
  show ?thesis
  proof (cases v)
    case (Inl e)
    with m have "m = Missing" by (auto dest: load_strict_Inl)
    with assms(1) m Inl have "w' = w \<or> w' = w\<lparr>wb_sites := Missing\<rparr>"
      by (auto simp: update_site_def split: if_split_asm option.split_asm)
    then show ?thesis by (elim disjE; intro refs_intactI [OF ok]) auto
  next
    case (Inr u)
    with m have ld: "opt_or u [] = load_sites w" using load_strict_Inr [of Io "wb_sites w" m u "[]"] by simp
    from assms(1) m Inr consider "w' = w"
      | i old s0 w1 where "find (\<lambda>s. si_id s = i) (load_sites w) = Some old"
          "site_from_req (we_fs E) (load_access w) (we_site_id E) form = Inr s0"
          "prepare_site_cert E form old (s0\<lparr>si_id := si_id old\<rparr>) w = Inr (w1, ReissueLe)" "w' = w1"
      | i old s0 w1 cb kb where "find (\<lambda>s. si_id s = i) (load_sites w) = Some old"
          "site_from_req (we_fs E) (load_access w) (we_site_id E) form = Inr s0"
          "prepare_site_cert E form old (s0\<lparr>si_id := si_id old\<rparr>) w = Inr (w1, Ready)"
          "commit_site E (load_sites w) old (s0\<lparr>si_id := si_id old\<rparr>) cb kb w1 = (w', r)"
      unfolding update_site_def
      by (auto simp: Let_def ld split: if_split_asm sum.split_asm option.split_asm prod.split_asm cert_prep.split_asm)
    then show ?thesis
    proof cases
      case 2
      then show ?thesis
        by (intro refs_intactI [OF ok]) (auto dest: prepare_site_cert_frame)
    next
      case 3
      have ref: "ref_ok (load_access w) (s0\<lparr>si_id := si_id old\<rparr>)"
        using site_from_req_site_ok [OF 3(2)] by (auto simp: site_ok_def ref_ok_def)
      have old: "old \<in> set (load_sites w)" using find_SomeD [OF 3(1)] by simp
      note f = prepare_site_cert_frame [OF 3(3)]
      show ?thesis
        by (rule commit_site_cases [OF 3(4)]; rule refs_intactI [OF ok]) (auto simp: f ref old)
    qed (simp add: ok)
  qed
qed

lemma edge_reload_keeps:
  "edge_reload E w = (w', r) \<Longrightarrow> wb_sites w' = wb_sites w \<and> wb_access w' = wb_access w \<and> wb_setup w' = wb_setup w"
  by (simp add: edge_reload_eq)

lemma save_access_refs:
  assumes "save_access_op E cmd w = (w', r)" and ok: "refs_intact w"
  shows "refs_intact w'"
proof -
  have na: "wb_access w \<noteq> Unparsable" using ok by (simp add: refs_intact_def)
  from assms(1) na have "wb_sites w' = wb_sites w \<and> wb_access w' \<noteq> Unparsable \<and>
      (\<forall>a \<in> set (load_access w). al_id a \<in> al_id ` set (load_access w'))"
    unfolding save_access_op_def
    by (auto simp: Let_def save_access_def dest!: load_strict_Inr [where d = "[]"] load_strict_Inl
        edge_reload_keeps split: if_split_asm sum.split_asm option.split_asm prod.split_asm)
  with ok show ?thesis by (simp add: refs_intact_def ref_ok_def) (metis image_iff)
qed

lemma delete_access_refs:
  assumes "delete_access_op E i w = (w', r)" and ok: "refs_intact w"
  shows "refs_intact w'"
proof -
  have na: "wb_access w \<noteq> Unparsable" using ok by (simp add: refs_intact_def)
  from assms(1) na consider "w' = w"
    | a where "sites_using_access w a = []" "wb_sites w' = wb_sites w" "a \<noteq> []"
        "wb_access w' = Parsed (filter (\<lambda>x. al_id x \<noteq> a) (load_access w))"
    unfolding delete_access_op_def
    by (auto simp: Let_def save_access_def dest!: load_strict_Inr [where d = "[]"] load_strict_Inl
        dest: trimmed_Some split: if_split_asm sum.split_asm option.split_asm prod.split_asm)
  then show ?thesis
  proof cases
    case 2
    have "ref_ok (load_access w') s" if "ref_ok (load_access w) s" "s \<in> set (load_sites w)" for s
    proof -
      from that(2) 2(1,3) have "si_access_id s \<noteq> a" by (auto simp: sites_using_access_def filter_empty_conv)
      with that(1) 2(4) show ?thesis by (auto simp: ref_ok_def)
    qed
    with ok 2 show ?thesis by (simp add: refs_intact_def)
  qed (simp add: ok)
qed

lemma other_ops_refs:
  assumes ok: "refs_intact w"
  shows "apply_default_site E g w = (w', r1) \<Longrightarrow> refs_intact w'"
    and "apply_tuning E t w = (w', r2) \<Longrightarrow> refs_intact w'"
    and "create_cert E c w = (w', r3) \<Longrightarrow> refs_intact w'"
    and "delete_cert E n w = (w', r4) \<Longrightarrow> refs_intact w'"
    and "renew_cert E n w = (w', r5) \<Longrightarrow> refs_intact w'"
    and "finish_le_named E x d k p w = (w', r6) \<Longrightarrow> refs_intact w'"
proof -
  have "wb_sites w' = wb_sites w \<and> wb_access w' = wb_access w" if "apply_default_site E g w = (w', r1)"
    using that by (auto simp: apply_default_site_def Let_def save_default_def dest: edge_reload_eq
        split: if_split_asm sum.split_asm option.split_asm prod.split_asm)
  then show "apply_default_site E g w = (w', r1) \<Longrightarrow> refs_intact w'" using ok by (simp add: refs_intact_def)
  have "wb_sites w' = wb_sites w \<and> wb_access w' = wb_access w" if "apply_tuning E t w = (w', r2)"
    using that by (auto simp: apply_tuning_def dest: edge_reload_eq split: if_split_asm)
  then show "apply_tuning E t w = (w', r2) \<Longrightarrow> refs_intact w'" using ok by (simp add: refs_intact_def)
  have "wb_sites w' = wb_sites w \<and> wb_access w' = wb_access w" if "create_cert E c w = (w', r3)"
    using that by (auto simp: create_cert_def Let_def save_named_certs_def
        split: if_split_asm sum.split_asm option.split_asm prod.split_asm)
  then show "create_cert E c w = (w', r3) \<Longrightarrow> refs_intact w'" using ok by (simp add: refs_intact_def)
  have "wb_sites w' = wb_sites w \<and> wb_access w' = wb_access w" if "delete_cert E n w = (w', r4)"
    using that by (auto simp: delete_cert_def Let_def save_named_certs_def remove_pair_def
        split: if_split_asm sum.split_asm option.split_asm prod.split_asm)
  then show "delete_cert E n w = (w', r4) \<Longrightarrow> refs_intact w'" using ok by (simp add: refs_intact_def)
  have "wb_sites w' = wb_sites w \<and> wb_access w' = wb_access w" if "renew_cert E n w = (w', r5)"
    using that by (auto simp: renew_cert_def Let_def
        split: if_split_asm sum.split_asm option.split_asm prod.split_asm)
  then show "renew_cert E n w = (w', r5) \<Longrightarrow> refs_intact w'" using ok by (simp add: refs_intact_def)
  have "wb_sites w' = wb_sites w \<and> wb_access w' = wb_access w" if "finish_le_named E x d k p w = (w', r6)"
    using that by (auto simp: finish_le_named_def Let_def save_named_certs_def split: if_split_asm)
  then show "finish_le_named E x d k p w = (w', r6) \<Longrightarrow> refs_intact w'" using ok by (simp add: refs_intact_def)
qed

text \<open>The operations of an operator, in any order, each in a world of its own.\<close>

inductive web_step :: "('n, 'c) web_state \<Rightarrow> ('n, 'c) web_state \<Rightarrow> bool" where
  step_add: "add_site E form w = (w', r) \<Longrightarrow> web_step w w'"
| step_update: "update_site E form w = (w', r) \<Longrightarrow> web_step w w'"
| step_remove: "remove_site E i w = (w', r) \<Longrightarrow> web_step w w'"
| step_save_access: "save_access_op E cmd w = (w', q) \<Longrightarrow> web_step w w'"
| step_delete_access: "delete_access_op E i w = (w', q) \<Longrightarrow> web_step w w'"
| step_default: "apply_default_site E g w = (w', u) \<Longrightarrow> web_step w w'"
| step_tuning: "apply_tuning E t w = (w', u) \<Longrightarrow> web_step w w'"
| step_create_cert: "create_cert E c w = (w', cr) \<Longrightarrow> web_step w w'"
| step_delete_cert: "delete_cert E i w = (w', q) \<Longrightarrow> web_step w w'"
| step_renew_cert: "renew_cert E i w = (w', cr) \<Longrightarrow> web_step w w'"
| step_finish_named: "finish_le_named E n d k p w = (w', u) \<Longrightarrow> web_step w w'"

inductive_cases web_stepE: "web_step w w'"

lemma web_step_refs: "web_step w w' \<Longrightarrow> refs_intact w \<Longrightarrow> refs_intact w'"
  by (induction rule: web_step.induct)
    (auto dest: add_site_refs update_site_refs remove_site_refs save_access_refs delete_access_refs
      other_ops_refs)

inductive web_runs :: "('n, 'c) web_state \<Rightarrow> ('n, 'c) web_state \<Rightarrow> bool" where
  runs_none: "web_runs w w"
| runs_step: "web_runs w w1 \<Longrightarrow> web_step w1 w2 \<Longrightarrow> web_runs w w2"

lemma web_runs_refs: "web_runs w w' \<Longrightarrow> refs_intact w \<Longrightarrow> refs_intact w'"
  by (induction rule: web_runs.induct) (auto dest: web_step_refs)

lemma commit_new_site_setup: "commit_new_site E s w = (w', r) \<Longrightarrow> wb_setup w' = wb_setup w"
  by (auto simp: commit_new_site_def Let_def save_sites_def dest!: edge_reload_keeps
      split: if_split_asm sum.split_asm option.split_asm prod.split_asm)

lemma commit_site_setup: "commit_site E ss old s cb kb w = (w', r) \<Longrightarrow> wb_setup w' = wb_setup w"
  by (auto simp: commit_site_def Let_def save_sites_def dest!: edge_reload_keeps
      split: if_split_asm sum.split_asm option.split_asm prod.split_asm)

section \<open>Properties\<close>

lemma site_to_edge_simps [simp]:
  "si_id (site_to_edge s) = si_id s" "si_server_name (site_to_edge s) = si_server_name s"
  "si_access_id (site_to_edge s) = si_access_id s" "site_keys (site_to_edge s) = site_keys s"
  "si_locations (site_to_edge s) = si_locations s" "si_kind (site_to_edge s) = si_kind s"
  "si_root (site_to_edge s) = si_root s" "si_local_root (site_to_edge s) = si_local_root s"
  by (simp_all add: site_to_edge_def site_in.truncate_def site_keys_def)


lemma served_distinct:
  "served E w \<Longrightarrow> wb_setup w \<Longrightarrow> distinct (concat (map site_keys (load_sites w)))"
  using build_runtime_ok [of "web_lib E w" "gather_input E w"]
  by (simp add: served_def gather_input_def o_def)

text \<open>What the panel accepts, the edge serves: every site built from a form passes the edge's
  per-site checks (absolute document root, path rules that begin with a slash), so a reload can
  refuse it only for a host name or a certificate.\<close>

theorem panel_sites_servable:
  assumes "site_from_req F als i form = Inr s" and "\<And>p c. fs_canonicalize F p = Some c \<Longrightarrow> path_is_absolute c"
    and "path_is_absolute (ri_www_dir inp)"
  shows "site_servable inp (site_to_edge s)"
proof -
  have ok: "site_ok F als s" by (rule site_from_req_site_ok [OF assms(1)])
  have "path_is_absolute (path_join (ri_www_dir inp) (si_root s))"
    using assms(3) by (auto simp: path_join_def path_is_absolute_def starts_with_iff)
  with ok assms(2) show ?thesis
    by (auto simp: site_servable_def site_ok_def location_ok_def destination_ok_def)
qed

theorem panel_sites_servable_witness:
  "\<exists>s. site_from_req \<lparr>fs_canonicalize = (\<lambda>_. None), fs_is_dir = (\<lambda>_. True)\<rparr> [] ''7'' demo_form = Inr s \<and>
     site_servable (demo_input []) (site_to_edge s)"
proof -
  let ?F = "\<lparr>fs_canonicalize = (\<lambda>_. None), fs_is_dir = (\<lambda>_. True)\<rparr>"
  obtain s where s: "site_from_req ?F [] ''7'' demo_form = Inr s" using demo_form_site by blast
  have "site_servable (demo_input []) (site_to_edge s)"
    by (rule panel_sites_servable [OF s]) (simp_all add: demo_input_def path_is_absolute_def starts_with_def)
  with s show ?thesis by blast
qed


text \<open>A closed state for the witnesses: one site under an access list, a disk that works.\<close>

definition demo_wenv :: "(ip_addr \<times> nat, unit) web_env" where
  "demo_wenv = \<lparr>we_nets = demo_nets, we_pair = (\<lambda>_ _. None),
     we_fs = \<lparr>fs_canonicalize = Some, fs_is_dir = (\<lambda>_. True)\<rparr>, we_save = (\<lambda>_. True), we_hash = id,
     we_self_signed = (\<lambda>_ _. None), we_site_id = ''7'', we_access_id = ''al1'', we_cert_dir = ''/c'', we_www_dir = ''/w''\<rparr>"

definition demo_psite :: site where
  "demo_psite = site_in.extend (demo_site\<lparr>si_access_id := ''al0''\<rparr>) \<lparr>st_key_type = []\<rparr>"

definition demo_list :: access_list where
  "demo_list = \<lparr>al_id = ''al0'', al_name = ''staff'', al_satisfy = ''any'', al_pass_auth = False, al_users = [],
     al_clients = [\<lparr>ac_directive = ''deny'', ac_address = ''all''\<rparr>]\<rparr>"

definition demo_web :: "(ip_addr \<times> nat, unit) web_state" where
  "demo_web = \<lparr>wb_setup = True, wb_sites = Parsed [demo_psite], wb_access = Parsed [demo_list], wb_default = Missing,
     wb_tuning = Missing, wb_named = Missing, wb_settings = Absent, wb_certs = [], wb_live = runtime_config_default\<rparr>"

lemma demo_psite_simps [simp]: "si_access_id demo_psite = ''al0''" "si_id demo_psite = ''1''"
  "site_keys demo_psite = [''shop'']"
proof -
  show "si_access_id demo_psite = ''al0''" "si_id demo_psite = ''1''"
    by (simp_all add: demo_psite_def site_in.extend_def demo_site_def)
  have "si_server_name demo_psite = si_server_name demo_site"
    by (simp add: demo_psite_def site_in.extend_def)
  then have "site_keys demo_psite = site_keys demo_site" by (simp add: site_keys_def)
  then show "site_keys demo_psite = [''shop'']" by (simp add: demo_site_keys)
qed



lemma delete_access_effect:
  "delete_access_op E (Some i) w = (w1, Inr j) \<Longrightarrow> trim i \<noteq> [] \<and> (\<forall>a \<in> set (load_access w1). al_id a \<noteq> trim i)"
  unfolding delete_access_op_def
  by (auto simp: Let_def save_access_def trimmed_def
      split: if_split_asm sum.split_asm option.split_asm prod.split_asm)

lemma attach_effect:
  assumes "attach_named_cert_to_site E s n w = (w', r)" and "we_save E 0"
  shows "load_sites w' = filter (\<lambda>x. si_id x \<noteq> si_id s) (load_sites w) @ [s\<lparr>si_cert_mode := ''named'', si_cert_name := n\<rparr>]"
    and "wb_access w' = wb_access w"
  using assms by (auto simp: attach_named_cert_to_site_def Let_def save_sites_def dest!: edge_reload_keeps)

text \<open>A certificate issuance that outlives its access list opens the site: the list may be
  deleted, since no site of the manifest uses it, while the issuance holds the site; its end puts
  the site into the manifest with the list's id, and the edge then asks nothing of anyone.\<close>

theorem issuance_opens_site:
  assumes "delete_access_op E (Some i) w = (w1, Inr j)" and "si_access_id s = trim i"
    and "attach_named_cert_to_site E' s n w1 = (w2, r)" and "we_save E' 0" and "wb_setup w2"
  shows "\<exists>t \<in> set (load_sites w2). si_id t = si_id s \<and> si_access_id t = trim i \<and>
    check_access H D N (rt_access (site_route (web_lib E' w2) (gather_input E' w2) (site_to_edge t))) headers ip = None"
proof -
  let ?t = "s\<lparr>si_cert_mode := ''named'', si_cert_name := n\<rparr>"
  note a = attach_effect [OF assms(3,4)] and d = delete_access_effect [OF assms(1)]
  have "access_by_id (gather_input E' w2) (trim i) = None"
    using d assms(5) by (auto simp: access_by_id_def gather_input_def a(2) map_of_eq_None_iff)
  then have "check_access H D N (rt_access (site_route (web_lib E' w2) (gather_input E' w2) (site_to_edge ?t))) headers ip = None"
    using assms(2) by (simp add: site_access_def check_access_def)
  then show ?thesis using assms(2) by (intro bexI [of _ ?t]) (simp_all add: a(1))
qed

theorem issuance_opens_site_witness:
  "\<exists>w1 j w2 r. delete_access_op demo_wenv (Some ''al0'') (demo_web\<lparr>wb_sites := Missing\<rparr>) = (w1, Inr j) \<and>
     attach_named_cert_to_site demo_wenv demo_psite ''shop'' w1 = (w2, r) \<and>
     (\<exists>t \<in> set (load_sites w2). si_id t = ''1'' \<and>
        check_access demo_http (ee_digests demo_env) demo_nets
          (rt_access (site_route (web_lib demo_wenv w2) (gather_input demo_wenv w2) (site_to_edge t))) [] (V4 1) = None)"
proof -
  have t: "trim ''al0'' = ''al0''"
    by (rule trim_plain) (simp_all add: plain_char_def ws1_def ws2_def ws3_def)
  define w1 where "w1 = fst (edge_reload demo_wenv (demo_web\<lparr>wb_sites := Missing, wb_access := Parsed []\<rparr>))"
  have d: "delete_access_op demo_wenv (Some ''al0'') (demo_web\<lparr>wb_sites := Missing\<rparr>) = (w1, Inr ''al0'')"
    by (simp add: delete_access_op_def trimmed_def t sites_using_access_def Let_def load_strict_m_def opt_or_def
        save_access_def w1_def demo_web_def demo_list_def) (simp add: demo_wenv_def)
  obtain w2 r where a: "attach_named_cert_to_site demo_wenv demo_psite ''shop'' w1 = (w2, r)"
    by (cases "attach_named_cert_to_site demo_wenv demo_psite ''shop'' w1")
  have s: "we_save demo_wenv 0" by (simp add: demo_wenv_def)
  with a have "wb_setup w2"
    by (auto simp: attach_named_cert_to_site_def Let_def save_sites_def dest!: edge_reload_keeps)
      (simp add: w1_def demo_web_def)
  from issuance_opens_site [OF d _ a s this, of demo_http "ee_digests demo_env" demo_nets "[]" "V4 1"]
  show ?thesis using d a by (auto simp: t)
qed

text \<open>An issuance blocks the control plane when its host was given away: the name a pending
  issuance asked for is free until it ends; when another site has taken it, the manifest then
  holds both, and the edge refuses this and every later reload of it.\<close>

theorem issuance_conflict_blocks_reload:
  assumes "attach_named_cert_to_site E s n w = (w', r)" and "we_save E 0" and "wb_setup w"
    and "t \<in> set (load_sites w)" and "si_id t \<noteq> si_id s" and "k \<in> set (site_keys t)" and "k \<in> set (site_keys s)"
  shows "(\<exists>e. r = Inl e) \<and> wb_live w' = wb_live w \<and> (\<exists>e. edge_reload E' w' = (w', Inl e))"
proof -
  note a = attach_effect [OF assms(1,2)]
  have "\<not> distinct (concat (map site_keys (load_sites w')))"
  proof
    assume "distinct (concat (map site_keys (load_sites w')))"
    then have "set (concat (map site_keys (filter (\<lambda>x. si_id x \<noteq> si_id s) (load_sites w)))) \<inter>
        set (site_keys (s\<lparr>si_cert_mode := ''named'', si_cert_name := n\<rparr>)) = {}"
      by (simp add: a(1))
    moreover have "site_keys (s\<lparr>si_cert_mode := ''named'', si_cert_name := n\<rparr>) = site_keys s"
      by (simp add: site_keys_def)
    ultimately show False using assms(4-7) by auto
  qed
  moreover have st: "wb_setup w'"
    using assms(1-3) by (auto simp: attach_named_cert_to_site_def Let_def save_sites_def dest!: edge_reload_keeps)
  ultimately have bad: "\<not> is_Ok (build_runtime (web_lib F w') (gather_input F w'))" for F :: "('a, 'b) web_env"
    by (simp add: build_runtime_ok gather_input_def o_def)
  have refuse: "\<exists>e. edge_reload F w' = (w', Inl e)" for F
  proof (cases "edge_reload F w'")
    case (Pair v q)
    show ?thesis
    proof (cases q)
      case (Inl e)
      with Pair edge_reload_Inl show ?thesis by blast
    next
      case (Inr u)
      with Pair have "build_runtime (web_lib F w') (gather_input F w') = Inr (wb_live v)"
        by (auto simp: edge_reload_def reload_def publish_def split: prod.splits sum.splits)
      with bad [of F] show ?thesis by simp
    qed
  qed
  define w1 where "w1 = w\<lparr>wb_sites := Parsed (filter (\<lambda>x. si_id x \<noteq> si_id s) (load_sites w) @
      [s\<lparr>si_cert_mode := ''named'', si_cert_name := n\<rparr>])\<rparr>"
  have w1: "edge_reload E w1 = (w', r)"
    using assms(1,2) by (simp add: attach_named_cert_to_site_def Let_def save_sites_def w1_def)
  have "\<exists>e. r = Inl e"
  proof (cases r)
    case (Inr u)
    with w1 edge_reload_Inr have "served E w'" by blast
    with bad [of E] show ?thesis by (simp add: served_def)
  qed simp
  moreover from this w1 have "w' = w1" using edge_reload_Inl by blast
  ultimately show ?thesis using refuse by (simp add: w1_def)
qed

theorem issuance_conflict_blocks_reload_witness:
  "\<exists>w' r e. attach_named_cert_to_site demo_wenv (demo_psite\<lparr>si_id := ''2''\<rparr>) ''shop'' demo_web = (w', r) \<and>
     edge_reload demo_wenv w' = (w', Inl e)"
proof -
  obtain w' r where a: "attach_named_cert_to_site demo_wenv (demo_psite\<lparr>si_id := ''2''\<rparr>) ''shop'' demo_web = (w', r)"
    by (cases "attach_named_cert_to_site demo_wenv (demo_psite\<lparr>si_id := ''2''\<rparr>) ''shop'' demo_web")
  have "site_keys (demo_psite\<lparr>si_id := ''2''\<rparr>) = site_keys demo_psite" by (simp add: site_keys_def)
  then have "(\<exists>e. r = Inl e) \<and> wb_live w' = wb_live demo_web \<and> (\<exists>e. edge_reload demo_wenv w' = (w', Inl e))"
    by (intro issuance_conflict_blocks_reload [OF a, of demo_psite "''shop''"])
      (simp_all add: demo_wenv_def demo_web_def)
  with a show ?thesis by blast
qed

end
