(* ===== verification/Identity.thy ===== *)
theory Identity
  imports Net_Addr
begin

text \<open>
  Identity and authorization rules of the panel: the stored user and the credential formats
  (\<open>core/identity/model.rs\<close>), privilege levels (\<open>core/authz/rules.rs\<close>) and the errors of the
  user and account use-cases (\<open>core/error/kind.rs\<close>).
\<close>

section \<open>Entities\<close>

record panel_user =
  pu_username :: string
  pu_pw_salt :: string
  pu_pw_hash :: string
  pu_pw_kdf :: string
  pu_role :: string
  pu_full_name :: string
  pu_nickname :: string
  pu_avatar :: string
  pu_totp_secret :: string
  pu_totp_enabled :: bool
  pu_uid :: nat

definition pu_is_admin :: "panel_user \<Rightarrow> bool" where
  "pu_is_admin u \<longleftrightarrow> pu_role u = ''admin''"

record principal =
  pr_username :: string
  pr_is_super :: bool
  pr_system_user :: "string option"

datatype system_user_error = NoSudoGroup | SetPwFailed | BadFullName

definition system_user_error_code :: "system_user_error \<Rightarrow> string" where
  "system_user_error_code e =
     (case e of NoSudoGroup \<Rightarrow> ''users.no_sudo_group'' | SetPwFailed \<Rightarrow> ''users.set_pw_failed''
      | BadFullName \<Rightarrow> ''users.bad_full_name'')"

datatype core_error = PasswordMalformed | OldPasswordWrong | TotpInvalid | Persist | PasswordIsDefault
  | UsernameInvalid | RoleInvalid | UserExists | UserNotFound

section \<open>Privilege levels\<close>

definition level :: "bool \<Rightarrow> bool \<Rightarrow> nat" where
  "level is_super is_admin = (if is_super then 2 else if is_admin then 1 else 0)"

definition role_level :: "string \<Rightarrow> nat" where
  "role_level role = (if role = ''admin'' then 1 else 0)"

definition can_manage :: "nat \<Rightarrow> nat \<Rightarrow> bool" where
  "can_manage actor_lvl target_lvl \<longleftrightarrow> target_lvl < actor_lvl"

section \<open>Formats\<close>

definition valid_username :: "string \<Rightarrow> bool" where
  "valid_username s \<longleftrightarrow>
     s \<noteq> [] \<and> length s \<le> 32 \<and> (is_ascii_lowercase (hd s) \<or> hd s = CHR ''_'') \<and>
     list_all (\<lambda>c. is_ascii_lowercase c \<or> is_ascii_digit c \<or> c = CHR ''_'' \<or> c = CHR ''-'') s \<and>
     s \<noteq> ''root''"

definition valid_pw_format :: "string \<Rightarrow> string \<Rightarrow> bool" where
  "valid_pw_format salt hash \<longleftrightarrow>
     length salt = 32 \<and> list_all is_ascii_hexdigit salt \<and>
     length hash = 64 \<and> list_all is_ascii_hexdigit hash"

definition MIN_PW_KDF_ITERS :: nat where "MIN_PW_KDF_ITERS = 30000"

definition valid_pw_kdf :: "string \<Rightarrow> bool" where
  "valid_pw_kdf kdf =
     (case Option.bind (strip_prefix kdf ''s256:'') parse_u32 of
        Some n \<Rightarrow> MIN_PW_KDF_ITERS \<le> n
      | None \<Rightarrow> False)"

definition valid_os_secret :: "string \<Rightarrow> bool" where
  "valid_os_secret s \<longleftrightarrow> \<not> list_ex (\<lambda>b. byte b < 0x20 \<or> byte b = 0x7f) s"

section \<open>Whose system account\<close>

definition DN7_OWNED_MARKER :: string where "DN7_OWNED_MARKER = ''.dn7-owned''"

record account_provenance =
  ap_recorded_in_store :: bool
  ap_has_owned_marker :: bool

definition system_account_adoptable :: "account_provenance \<Rightarrow> bool" where
  "system_account_adoptable p \<longleftrightarrow> ap_recorded_in_store p \<or> ap_has_owned_marker p"

section \<open>Facts\<close>

lemma can_manage_level: "can_manage l t \<Longrightarrow> t < l" and level_le: "level s a \<le> 2"
  and role_level_le: "role_level r \<le> 1"
  by (simp_all add: can_manage_def level_def role_level_def)

lemma valid_username_char:
  assumes "valid_username s" and "c \<in> set s"
  shows "is_ascii_lowercase c \<or> is_ascii_digit c \<or> c = CHR ''_'' \<or> c = CHR ''-''"
  using assms unfolding valid_username_def list_all_iff by blast

lemma valid_username_chars:
  assumes "valid_username s"
  shows "CHR '':'' \<notin> set s" and "CHR '','' \<notin> set s" and "CHR 0x0A \<notin> set s" and "CHR 0x0D \<notin> set s"
    and "CHR ''/'' \<notin> set s"
  using valid_username_char [OF assms]
  by (force simp: is_ascii_lowercase_def is_ascii_digit_def byte_def)+

lemma valid_username_not_Nil: "valid_username s \<Longrightarrow> s \<noteq> []"
  by (simp add: valid_username_def)

end
