(* ===== verification/Etc_Accounts.thy ===== *)
theory Etc_Accounts
  imports Identity
begin

text \<open>
  System accounts (\<open>infra/system/ops.rs\<close>): the edits of \<open>/etc/passwd\<close>, \<open>shadow\<close>, \<open>group\<close> and
  \<open>gshadow\<close>, home directories with the ownership marker, and the operations built on them. The
  name-service look-ups, the password hash, the date and the outcome of every lock, write and
  directory operation (numbered as they happen) are the environment's. The \<open>/etc/.pwd.lock\<close> makes
  an edit one step; the contents of home directories, file modes and owners are left out.
\<close>

section \<open>Files\<close>

datatype etc_file = Absent_file | Unreadable | Text string
datatype etc_path = PASSWD | SHADOW | GROUP | GSHADOW
datatype os_error = SysErr system_user_error | ForeignAccount | OsIo | IdsExhausted

text \<open>\<open>et_homes\<close> maps the directories that exist to the presence of the marker.\<close>

record etc_state =
  et_passwd :: etc_file
  et_shadow :: etc_file
  et_group :: etc_file
  et_gshadow :: etc_file
  et_homes :: "(string, bool) hmap"
  et_io :: nat

record os_env =
  oe_getpw :: "etc_state \<Rightarrow> string \<Rightarrow> (nat \<times> string) option"
  oe_getgr :: "etc_state \<Rightarrow> string \<Rightarrow> bool"
  oe_io :: "nat \<Rightarrow> bool"
  oe_crypt :: "string \<Rightarrow> string option"
  oe_days :: nat

type_synonym 'a os_result = "etc_state \<times> (os_error + 'a)"

fun et_get :: "etc_path \<Rightarrow> etc_state \<Rightarrow> etc_file" where
  "et_get PASSWD s = et_passwd s"
| "et_get SHADOW s = et_shadow s"
| "et_get GROUP s = et_group s"
| "et_get GSHADOW s = et_gshadow s"

fun et_put :: "etc_path \<Rightarrow> etc_file \<Rightarrow> etc_state \<Rightarrow> etc_state" where
  "et_put PASSWD f s = s\<lparr>et_passwd := f\<rparr>"
| "et_put SHADOW f s = s\<lparr>et_shadow := f\<rparr>"
| "et_put GROUP f s = s\<lparr>et_group := f\<rparr>"
| "et_put GSHADOW f s = s\<lparr>et_gshadow := f\<rparr>"

text \<open>The operator \<open>?\<close>.\<close>

definition os_then :: "'a os_result \<Rightarrow> (etc_state \<Rightarrow> 'a \<Rightarrow> 'b os_result) \<Rightarrow> 'b os_result" where
  "os_then r f = (case r of (s, Inl e) \<Rightarrow> (s, Inl e) | (s, Inr x) \<Rightarrow> f s x)"

text \<open>One input or output step: the state with the step counted, and its outcome.\<close>

definition io_step :: "os_env \<Rightarrow> etc_state \<Rightarrow> etc_state \<times> bool" where
  "io_step E s = (s\<lparr>et_io := Suc (et_io s)\<rparr>, oe_io E (et_io s))"

definition lock_etc :: "os_env \<Rightarrow> etc_state \<Rightarrow> unit os_result" where
  "lock_etc E s = (case io_step E s of (s1, ok) \<Rightarrow> (s1, if ok then Inr () else Inl OsIo))"

definition write_atomic :: "os_env \<Rightarrow> etc_path \<Rightarrow> string \<Rightarrow> etc_state \<Rightarrow> unit os_result" where
  "write_atomic E p content s =
     (case io_step E s of (s1, ok) \<Rightarrow>
        if ok then (et_put p (Text content) s1, Inr ()) else (s1, Inl OsIo))"

definition read_lines :: "etc_path \<Rightarrow> etc_state \<Rightarrow> string list" where
  "read_lines p s = (case et_get p s of Text t \<Rightarrow> str_lines t | _ \<Rightarrow> [])"

definition unlines :: "string list \<Rightarrow> string" where
  "unlines ls = join_with nl ls @ [nl]"

definition fields :: "string \<Rightarrow> string list" where
  "fields l = split_on CHR '':'' l"

definition nth_opt :: "'a list \<Rightarrow> nat \<Rightarrow> 'a option" where
  "nth_opt xs i = (if i < length xs then Some (xs ! i) else None)"

definition row_id :: "string \<Rightarrow> nat option" where
  "row_id l = Option.bind (nth_opt (fields l) 2) parse_u32"

definition next_free_id :: "etc_path \<Rightarrow> nat \<Rightarrow> nat \<Rightarrow> etc_state \<Rightarrow> nat option" where
  "next_free_id p lo hi s =
     (let used = set (List.map_filter row_id (read_lines p s)) in find (\<lambda>i. i \<notin> used) [lo..<hi])"

definition append_line :: "os_env \<Rightarrow> etc_path \<Rightarrow> string \<Rightarrow> etc_state \<Rightarrow> unit os_result" where
  "append_line E p line s = write_atomic E p (unlines (read_lines p s @ [line])) s"

definition remove_named :: "os_env \<Rightarrow> etc_path \<Rightarrow> string \<Rightarrow> etc_state \<Rightarrow> unit os_result" where
  "remove_named E p name s =
     write_atomic E p (unlines (filter (\<lambda>l. hd (fields l) \<noteq> name) (read_lines p s))) s"

section \<open>Homes\<close>

definition create_home :: "os_env \<Rightarrow> string \<Rightarrow> etc_state \<Rightarrow> unit os_result" where
  "create_home E home s =
     (case io_step E s of (s1, ok) \<Rightarrow>
        if ok then (if hm_get (et_homes s1) home = None then s1\<lparr>et_homes := hm_insert home False (et_homes s1)\<rparr>
                    else s1, Inr ())
        else (s1, Inl OsIo))"

definition write_owned_marker :: "os_env \<Rightarrow> string \<Rightarrow> etc_state \<Rightarrow> etc_state" where
  "write_owned_marker E home s =
     (case io_step E s of (s1, ok) \<Rightarrow>
        if ok then s1\<lparr>et_homes := hm_insert home True (et_homes s1)\<rparr> else s1)"

definition home_has_owned_marker :: "string \<Rightarrow> etc_state \<Rightarrow> bool" where
  "home_has_owned_marker home s = (hm_get (et_homes s) home = Some True)"

text \<open>\<open>remove_dir_all\<close>, its result ignored.\<close>

definition remove_home :: "os_env \<Rightarrow> string \<Rightarrow> etc_state \<Rightarrow> etc_state" where
  "remove_home E home s =
     (case io_step E s of (s1, ok) \<Rightarrow>
        if ok then s1\<lparr>et_homes := hm_retain (\<lambda>d _. d \<noteq> home \<and> \<not> starts_with d (home @ ''/'')) (et_homes s1)\<rparr>
        else s1)"

definition provenance_of :: "panel_user list \<Rightarrow> string \<Rightarrow> string \<Rightarrow> etc_state \<Rightarrow> account_provenance" where
  "provenance_of users name home s =
     \<lparr>ap_recorded_in_store = list_ex (\<lambda>u. pu_username u = name) users,
      ap_has_owned_marker = home_has_owned_marker home s\<rparr>"

section \<open>Edits\<close>

definition passwd_row :: "string \<Rightarrow> nat \<Rightarrow> nat \<Rightarrow> string \<Rightarrow> string \<Rightarrow> string \<Rightarrow> string" where
  "passwd_row name uid gid gecos home shell =
     name @ '':x:'' @ to_dec uid @ '':'' @ to_dec gid @ '':'' @ gecos @ '':'' @ home @ '':'' @ shell"

definition shadow_row :: "string \<Rightarrow> nat \<Rightarrow> string" where
  "shadow_row name days = name @ '':!:'' @ to_dec days @ '':0:99999:7:::''"

definition group_row :: "string \<Rightarrow> nat \<Rightarrow> string" where
  "group_row name gid = name @ '':x:'' @ to_dec gid @ '':''"

definition add_user_sync :: "os_env \<Rightarrow> string \<Rightarrow> string \<Rightarrow> string \<Rightarrow> etc_state \<Rightarrow> unit os_result" where
  "add_user_sync E name gecos shell s =
     os_then (lock_etc E s) (\<lambda>s _.
     if oe_getpw E s name \<noteq> None then (s, Inr ())
     else (case next_free_id PASSWD 1000 60000 s of
       None \<Rightarrow> (s, Inl IdsExhausted)
     | Some uid \<Rightarrow>
    (case next_free_id GROUP 1000 60000 s of
       None \<Rightarrow> (s, Inl IdsExhausted)
     | Some gid \<Rightarrow>
    (let home = ''/home/'' @ name in
     os_then (append_line E PASSWD (passwd_row name uid gid gecos home shell) s) (\<lambda>s _.
     os_then (append_line E SHADOW (shadow_row name (oe_days E)) s) (\<lambda>s _.
     os_then (append_line E GROUP (group_row name gid) s) (\<lambda>s _.
     os_then (if et_gshadow s \<noteq> Absent_file then append_line E GSHADOW (name @ '':!::'') s else (s, Inr ())) (\<lambda>s _.
     os_then (create_home E home s) (\<lambda>s _.
       (write_owned_marker E home s, Inr ()))))))))))"

definition group_members :: "string \<Rightarrow> string list" where
  "group_members f = filter (\<lambda>m. m \<noteq> []) (split_on CHR '','' f)"

text \<open>The member list of a row, rewritten.\<close>

definition map_members :: "(string list \<Rightarrow> string list) \<Rightarrow> string \<Rightarrow> string" where
  "map_members g l =
     (let f = fields l
      in if 4 \<le> length f then join_with CHR '':'' (f[3 := join_with CHR '','' (g (group_members (f ! 3)))])
         else l)"

definition drop_member :: "string \<Rightarrow> string list \<Rightarrow> string list" where
  "drop_member name = filter (\<lambda>m. m \<noteq> name)"

definition is_group :: "string \<Rightarrow> string \<Rightarrow> bool" where
  "is_group g l \<longleftrightarrow> hd (fields l) = g \<and> 4 \<le> length (fields l)"

definition strip_from_all_groups :: "os_env \<Rightarrow> string \<Rightarrow> etc_state \<Rightarrow> unit os_result" where
  "strip_from_all_groups E name s =
     write_atomic E GROUP (unlines (map (map_members (drop_member name)) (read_lines GROUP s))) s"

definition del_user_sync :: "os_env \<Rightarrow> string \<Rightarrow> etc_state \<Rightarrow> unit os_result" where
  "del_user_sync E name s =
     os_then (lock_etc E s) (\<lambda>s _.
     (let home = map_option snd (oe_getpw E s name) in
     os_then (remove_named E PASSWD name s) (\<lambda>s _.
     os_then (remove_named E SHADOW name s) (\<lambda>s _.
     os_then (remove_named E GROUP name s) (\<lambda>s _.
     os_then (if et_gshadow s \<noteq> Absent_file then remove_named E GSHADOW name s else (s, Inr ())) (\<lambda>s _.
     os_then (strip_from_all_groups E name s) (\<lambda>s _.
       (case home of
          Some h \<Rightarrow> if starts_with h ''/home/'' then remove_home E h s else s
        | None \<Rightarrow> s, Inr ()))))))))"

definition set_passwd_sync :: "os_env \<Rightarrow> string \<Rightarrow> string \<Rightarrow> etc_state \<Rightarrow> unit os_result" where
  "set_passwd_sync E name password s =
     os_then (lock_etc E s) (\<lambda>s _.
     case oe_crypt E password of
       None \<Rightarrow> (s, Inl (SysErr SetPwFailed))
     | Some h \<Rightarrow>
    (let hit = (\<lambda>l. hd (fields l) = name \<and> 3 \<le> length (fields l));
         ls = read_lines SHADOW s
     in if \<not> list_ex hit ls then (s, Inl (SysErr SetPwFailed))
        else write_atomic E SHADOW (unlines (map (\<lambda>l.
          if hit l then join_with CHR '':'' ((fields l)[1 := h, 2 := to_dec (oe_days E)]) else l) ls)) s))"

definition add_to_group_sync :: "os_env \<Rightarrow> string \<Rightarrow> string \<Rightarrow> etc_state \<Rightarrow> unit os_result" where
  "add_to_group_sync E name g s =
     os_then (lock_etc E s) (\<lambda>s _.
    (let ls = read_lines GROUP s;
         add = (\<lambda>ms. if name \<in> set ms then ms else ms @ [name])
     in if \<not> list_ex (is_group g) ls then (s, Inl (SysErr NoSudoGroup))
        else write_atomic E GROUP (unlines (map (\<lambda>l. if is_group g l then map_members add l else l) ls)) s))"

definition remove_from_group_sync :: "os_env \<Rightarrow> string \<Rightarrow> string \<Rightarrow> etc_state \<Rightarrow> unit os_result" where
  "remove_from_group_sync E name g s =
     os_then (lock_etc E s) (\<lambda>s _.
       write_atomic E GROUP (unlines (map (\<lambda>l. if is_group g l then map_members (drop_member name) l else l)
         (read_lines GROUP s))) s)"

definition set_gecos_sync :: "os_env \<Rightarrow> string \<Rightarrow> string \<Rightarrow> etc_state \<Rightarrow> unit os_result" where
  "set_gecos_sync E name gecos s =
     os_then (lock_etc E s) (\<lambda>s _.
       write_atomic E PASSWD (unlines (map (\<lambda>l.
         if hd (fields l) = name \<and> 5 \<le> length (fields l) then join_with CHR '':'' ((fields l)[4 := gecos]) else l)
         (read_lines PASSWD s))) s)"

section \<open>Operations\<close>

definition admin_group :: "os_env \<Rightarrow> etc_state \<Rightarrow> string option" where
  "admin_group E s = find (oe_getgr E s) [''sudo'', ''wheel'']"

definition gecos_ok :: "string \<Rightarrow> bool" where
  "gecos_ok s \<longleftrightarrow> \<not> list_ex (\<lambda>b. byte b < 0x20 \<or> byte b = 0x7f \<or> b = CHR '':'') s"

definition grant_admin :: "os_env \<Rightarrow> string \<Rightarrow> etc_state \<Rightarrow> unit os_result" where
  "grant_admin E u s =
     (case admin_group E s of
        Some g \<Rightarrow> add_to_group_sync E u g s
      | None \<Rightarrow> (s, Inl (SysErr NoSudoGroup)))"

definition provision :: "os_env \<Rightarrow> panel_user list \<Rightarrow> string \<Rightarrow> string \<Rightarrow> bool \<Rightarrow> string \<Rightarrow> etc_state \<Rightarrow> unit os_result" where
  "provision E users u full_name admin pw s =
     (let gecos = (if full_name \<noteq> [] \<and> gecos_ok full_name then full_name else []) in
      os_then
       (case oe_getpw E s u of
          None \<Rightarrow> add_user_sync E u gecos ''/bin/bash'' s
        | Some (uid, home) \<Rightarrow>
            if \<not> system_account_adoptable (provenance_of users u home s) then (s, Inl ForeignAccount)
            else if gecos \<noteq> [] then (fst (set_gecos_sync E u gecos s), Inr ()) else (s, Inr ()))
       (\<lambda>s _. os_then (if admin then grant_admin E u s else (s, Inr ()))
       (\<lambda>s _. if pw \<noteq> [] then set_passwd_sync E u pw s else (s, Inr ()))))"

definition remove_account :: "os_env \<Rightarrow> panel_user list \<Rightarrow> string \<Rightarrow> etc_state \<Rightarrow> unit os_result" where
  "remove_account E users u s =
     (case oe_getpw E s u of
        Some (uid, home) \<Rightarrow>
          if \<not> system_account_adoptable (provenance_of users u home s) then (s, Inl ForeignAccount)
          else del_user_sync E u s
      | None \<Rightarrow> (s, Inr ()))"

definition set_system_password :: "os_env \<Rightarrow> string \<Rightarrow> string \<Rightarrow> etc_state \<Rightarrow> unit os_result" where
  "set_system_password E u pw s =
     (if oe_getpw E s u = None then (s, Inr ())
      else if \<not> valid_os_secret pw then (s, Inl (SysErr SetPwFailed))
      else set_passwd_sync E u pw s)"

fun revoke_groups :: "os_env \<Rightarrow> string \<Rightarrow> string list \<Rightarrow> os_error option \<Rightarrow> etc_state \<Rightarrow> unit os_result" where
  "revoke_groups E u [] first_err s = (s, case first_err of Some e \<Rightarrow> Inl e | None \<Rightarrow> Inr ())"
| "revoke_groups E u (g # gs) first_err s =
     (if oe_getgr E s g then
        (case remove_from_group_sync E u g s of
           (s1, Inl e) \<Rightarrow> revoke_groups E u gs (Some (opt_or first_err e)) s1
         | (s1, Inr _) \<Rightarrow> revoke_groups E u gs first_err s1)
      else revoke_groups E u gs first_err s)"

definition set_sudo :: "os_env \<Rightarrow> string \<Rightarrow> bool \<Rightarrow> etc_state \<Rightarrow> unit os_result" where
  "set_sudo E u on s =
     (if on then grant_admin E u s else revoke_groups E u [''sudo'', ''wheel''] None s)"

definition set_full_name :: "os_env \<Rightarrow> string \<Rightarrow> string \<Rightarrow> etc_state \<Rightarrow> unit os_result" where
  "set_full_name E u full_name s =
     (if \<not> gecos_ok full_name then (s, Inl (SysErr BadFullName))
      else if oe_getpw E s u = None then (s, Inr ())
      else set_gecos_sync E u full_name s)"

section \<open>Lines and fields\<close>

lemma split_on_subset: "t \<in> set (split_on c s) \<Longrightarrow> set t \<subseteq> set s"
  by (induction c s arbitrary: t rule: split_on.induct) (fastforce split: list.splits if_splits)+

definition line_ok :: "string \<Rightarrow> bool" where
  "line_ok l \<longleftrightarrow> nl \<notin> set l \<and> CHR 0x0D \<notin> set l"

lemma strip_cr_ok: "CHR 0x0D \<notin> set l \<Longrightarrow> strip_cr l = l"
  by (auto simp: strip_cr_def strip_suffix_Some split: option.split)

lemma split_unlines: "ls \<noteq> [] \<Longrightarrow> \<forall>l \<in> set ls. nl \<notin> set l \<Longrightarrow> split_on nl (unlines ls) = ls @ [[]]"
proof -
  assume ls: "ls \<noteq> []" "\<forall>l \<in> set ls. nl \<notin> set l"
  have "unlines ls = join_with nl (ls @ [[]])"
    using ls(1) by (induction ls rule: induct_list012) (auto simp: unlines_def)
  with split_join_with [of "ls @ [[]]" nl] ls show ?thesis by auto
qed

lemma lines_unlines:
  assumes "\<forall>l \<in> set ls. line_ok l"
  shows "filter (\<lambda>l. l \<noteq> []) (str_lines (unlines ls)) = filter (\<lambda>l. l \<noteq> []) ls"
proof (cases "ls = []")
  case True
  then show ?thesis by (simp add: str_lines_def unlines_def strip_cr_def strip_suffix_def ends_with_def)
next
  case False
  have "map strip_cr ls = ls" using assms by (intro map_idI) (simp add: line_ok_def strip_cr_ok)
  with False assms show ?thesis
    by (simp add: str_lines_def split_unlines line_ok_def)
qed

lemma str_lines_ok:
  assumes "CHR 0x0D \<notin> set t" and "l \<in> set (str_lines t)"
  shows "line_ok l"
proof -
  have sub: "set x \<subseteq> set t \<and> nl \<notin> set x" if "x \<in> set (split_on nl t)" for x
    using split_on_no_sep [OF that] that by (simp add: split_on_subset)
  have "strip_cr x = x" if "x \<in> set (split_on nl t)" for x
    using sub [OF that] assms(1) by (intro strip_cr_ok) blast
  with assms(2) have "l \<in> set (split_on nl t)"
    by (auto simp: str_lines_def Let_def dest: in_set_butlastD split: if_splits)
  with sub assms(1) show ?thesis unfolding line_ok_def by blast
qed

lemma fields_ne [simp]: "fields l \<noteq> []"
  by (simp add: fields_def)

lemma fields_no_colon: "f \<in> set (fields l) \<Longrightarrow> CHR '':'' \<notin> set f"
  unfolding fields_def by (rule split_on_no_sep)

lemma fields_subset: "f \<in> set (fields l) \<Longrightarrow> set f \<subseteq> set l"
  unfolding fields_def by (rule split_on_subset)

lemma fields_join: "fs \<noteq> [] \<Longrightarrow> \<forall>f \<in> set fs. CHR '':'' \<notin> set f \<Longrightarrow> fields (join_with CHR '':'' fs) = fs"
  unfolding fields_def by (rule split_join_with)

lemma fields_update:
  assumes "CHR '':'' \<notin> set x"
  shows "fields (join_with CHR '':'' ((fields l)[i := x])) = (fields l)[i := x]"
proof (rule fields_join)
  show "\<forall>f \<in> set ((fields l)[i := x]). CHR '':'' \<notin> set f"
    using assms fields_no_colon [of _ l] set_update_subset_insert [of "fields l" i x] by blast
qed simp

lemma set_join_with: "set (join_with c fs) \<subseteq> insert c (\<Union> (set ` set fs))"
  by (induction c fs rule: join_with.induct) auto

lemma join_ne: "2 \<le> length fs \<Longrightarrow> join_with c fs \<noteq> []"
  by (cases fs; cases "tl fs") auto

lemma update_line_ok:
  assumes "line_ok l" and "line_ok x"
  shows "line_ok (join_with CHR '':'' ((fields l)[i := x]))"
proof -
  have "\<Union> (set ` set ((fields l)[i := x])) \<subseteq> set l \<union> set x"
    using fields_subset [of _ l] set_update_subset_insert [of "fields l" i x] by blast
  with set_join_with [of "CHR '':''" "(fields l)[i := x]"] assms show ?thesis
    by (auto simp: line_ok_def)
qed

section \<open>Member lists\<close>

definition name_ok :: "string \<Rightarrow> bool" where
  "name_ok m \<longleftrightarrow> m \<noteq> [] \<and> CHR '','' \<notin> set m \<and> CHR '':'' \<notin> set m \<and> line_ok m"

lemma valid_username_name_ok: "valid_username n \<Longrightarrow> name_ok n"
  by (auto simp: name_ok_def line_ok_def valid_username_not_Nil valid_username_chars)

lemma group_members_name_ok:
  assumes "m \<in> set (group_members f)" and "CHR '':'' \<notin> set f" and "line_ok f"
  shows "name_ok m"
proof -
  from assms(1) have "m \<noteq> []" and m: "m \<in> set (split_on CHR '','' f)" by (auto simp: group_members_def)
  from split_on_no_sep [OF m] split_on_subset [OF m] assms(2,3) \<open>m \<noteq> []\<close> show ?thesis
    by (auto simp: name_ok_def line_ok_def)
qed

lemma group_members_join:
  assumes "\<forall>m \<in> set ms. name_ok m"
  shows "group_members (join_with CHR '','' ms) = ms"
proof (cases "ms = []")
  case False
  with assms have "split_on CHR '','' (join_with CHR '','' ms) = ms"
    by (intro split_join_with) (auto simp: name_ok_def)
  with assms show ?thesis by (auto simp: group_members_def name_ok_def intro: filter_True)
qed (simp add: group_members_def)

text \<open>A rewriting of members that yields names.\<close>

definition names_to_names :: "(string list \<Rightarrow> string list) \<Rightarrow> bool" where
  "names_to_names g \<longleftrightarrow> (\<forall>ms. (\<forall>m \<in> set ms. name_ok m) \<longrightarrow> (\<forall>m \<in> set (g ms). name_ok m))"

lemma drop_member_names: "names_to_names (drop_member n)"
  by (auto simp: names_to_names_def drop_member_def)

lemma map_members_facts:
  assumes "line_ok l" and "names_to_names g"
  shows "line_ok (map_members g l)" and "hd (fields (map_members g l)) = hd (fields l)"
    and "length (fields (map_members g l)) = length (fields l)"
    and "map_members g l = [] \<longleftrightarrow> l = []"
    and "4 \<le> length (fields l) \<Longrightarrow> group_members (fields (map_members g l) ! 3) = g (group_members (fields l ! 3))"
    and "map_members h (map_members g l) = map_members (h \<circ> g) l"
proof -
  let ?ms = "group_members (fields l ! 3)"
  let ?x = "join_with CHR '','' (g ?ms)"
  have ok: "\<forall>m \<in> set (g ?ms). name_ok m" if "4 \<le> length (fields l)"
  proof -
    have f: "fields l ! 3 \<in> set (fields l)" using that by simp
    have "line_ok (fields l ! 3)" using fields_subset [OF f] assms(1) by (auto simp: line_ok_def)
    with group_members_name_ok [OF _ fields_no_colon [OF f]] assms(2) show ?thesis
      by (auto simp: names_to_names_def)
  qed
  have x: "CHR '':'' \<notin> set ?x" "line_ok ?x" if "4 \<le> length (fields l)"
    using ok [OF that] set_join_with [of "CHR '',''" "g ?ms"] by (auto simp: name_ok_def line_ok_def)
  have f: "fields (map_members g l) = (if 4 \<le> length (fields l) then (fields l)[3 := ?x] else fields l)"
    using x by (simp add: map_members_def Let_def fields_update)
  show "line_ok (map_members g l)"
    using x assms(1) by (simp add: map_members_def Let_def update_line_ok)
  show "hd (fields (map_members g l)) = hd (fields l)"
    by (cases "fields l") (auto simp: f)
  show "length (fields (map_members g l)) = length (fields l)" by (simp add: f)
  show "map_members g l = [] \<longleftrightarrow> l = []"
    by (auto simp: map_members_def Let_def fields_def dest: join_ne [rotated])
      (use join_ne [of "(fields l)[3 := ?x]" "CHR '':''"] in \<open>simp add: fields_def\<close>)
  show "group_members (fields (map_members g l) ! 3) = g ?ms" if "4 \<le> length (fields l)"
    using that ok by (simp add: f group_members_join)
  show "map_members h (map_members g l) = map_members (h \<circ> g) l"
    using ok unfolding map_members_def [of h] f
    by (auto simp: Let_def map_members_def group_members_join)
qed

section \<open>Isolation\<close>

text \<open>The rows of the other accounts, and a group row without the account's own membership.\<close>

definition others :: "string \<Rightarrow> string list \<Rightarrow> string list" where
  "others n ls = filter (\<lambda>l. l \<noteq> [] \<and> hd (fields l) \<noteq> n) ls"

abbreviation scrub :: "string \<Rightarrow> string \<Rightarrow> string" where
  "scrub n \<equiv> map_members (drop_member n)"

fun clean_file :: "etc_file \<Rightarrow> bool" where
  "clean_file (Text t) \<longleftrightarrow> CHR 0x0D \<notin> set t"
| "clean_file Absent_file \<longleftrightarrow> True"
| "clean_file Unreadable \<longleftrightarrow> False"

definition etc_clean :: "etc_state \<Rightarrow> bool" where
  "etc_clean s \<longleftrightarrow> (\<forall>p. clean_file (et_get p s))"

text \<open>What an edit for account \<open>n\<close> leaves as it was: the rows of all other accounts and groups, in
  order, up to \<open>n\<close>'s place in member lists.\<close>

definition isolated :: "string \<Rightarrow> etc_state \<Rightarrow> etc_state \<Rightarrow> bool" where
  "isolated n s s' \<longleftrightarrow> etc_clean s' \<and>
     (\<forall>p. p \<noteq> GROUP \<longrightarrow> others n (read_lines p s') = others n (read_lines p s)) \<and>
     map (scrub n) (others n (read_lines GROUP s')) = map (scrub n) (others n (read_lines GROUP s))"

lemma isolated_refl: "etc_clean s \<Longrightarrow> isolated n s s"
  by (simp add: isolated_def)

lemma isolated_trans: "isolated n s t \<Longrightarrow> isolated n t u \<Longrightarrow> isolated n s u"
  by (simp add: isolated_def)

lemma isolated_clean: "isolated n s t \<Longrightarrow> etc_clean t"
  by (simp add: isolated_def)

lemma read_lines_ok: "etc_clean s \<Longrightarrow> l \<in> set (read_lines p s) \<Longrightarrow> line_ok l"
  unfolding etc_clean_def read_lines_def
  by (metis clean_file.simps(1) empty_iff empty_set etc_file.exhaust etc_file.simps(10) etc_file.simps(8)
      etc_file.simps(9) str_lines_ok)

lemma et_get_put: "et_get q (et_put p f s) = (if q = p then f else et_get q s)"
  by (cases p; cases q) auto

lemma et_get_io [simp]: "et_get q (s\<lparr>et_io := n\<rparr>) = et_get q s" "et_get q (s\<lparr>et_homes := h\<rparr>) = et_get q s"
  by (cases q; simp)+

lemma read_lines_io [simp]: "read_lines q (s\<lparr>et_io := n\<rparr>) = read_lines q s"
  "read_lines q (s\<lparr>et_homes := h\<rparr>) = read_lines q s"
  by (simp_all add: read_lines_def)

lemma isolated_same: "(\<And>q. et_get q t = et_get q s) \<Longrightarrow> etc_clean s \<Longrightarrow> isolated n s t"
  by (simp add: isolated_def etc_clean_def read_lines_def)

lemma unlines_clean: "\<forall>l \<in> set ls. line_ok l \<Longrightarrow> CHR 0x0D \<notin> set (unlines ls)"
  using set_join_with [of nl ls] by (auto simp: unlines_def line_ok_def)

lemma others_lines: "\<forall>l \<in> set ls. line_ok l \<Longrightarrow> others n (str_lines (unlines ls)) = others n ls"
proof -
  assume "\<forall>l \<in> set ls. line_ok l"
  from lines_unlines [OF this]
  have "filter (\<lambda>l. hd (fields l) \<noteq> n) (filter (\<lambda>l. l \<noteq> []) (str_lines (unlines ls)))
      = filter (\<lambda>l. hd (fields l) \<noteq> n) (filter (\<lambda>l. l \<noteq> []) ls)" by simp
  then show ?thesis by (simp add: others_def conj_commute)
qed

text \<open>One write: enough to know the new rows.\<close>

lemma isolated_write:
  assumes "etc_clean s" and "\<forall>l \<in> set ls. line_ok l"
    and "p \<noteq> GROUP \<Longrightarrow> others n ls = others n (read_lines p s)"
    and "p = GROUP \<Longrightarrow> map (scrub n) (others n ls) = map (scrub n) (others n (read_lines p s))"
  shows "isolated n s (fst (write_atomic E p (unlines ls) s))"
proof (cases "oe_io E (et_io s)")
  case True
  let ?t = "et_put p (Text (unlines ls)) (s\<lparr>et_io := Suc (et_io s)\<rparr>)"
  have g: "et_get q ?t = (if q = p then Text (unlines ls) else et_get q s)" for q
    by (simp add: et_get_put)
  have "etc_clean ?t" using assms(1,2) by (auto simp: etc_clean_def g unlines_clean)
  with assms(3,4) show ?thesis
    by (auto simp: isolated_def write_atomic_def io_step_def True read_lines_def g others_lines [OF assms(2)])
next
  case False
  with assms(1) show ?thesis by (auto simp: write_atomic_def io_step_def intro!: isolated_same)
qed

lemma isolated_then:
  assumes "isolated n s (fst r)" and "\<And>t x. r = (t, Inr x) \<Longrightarrow> etc_clean t \<Longrightarrow> isolated n t (fst (f t x))"
  shows "isolated n s (fst (os_then r f))"
  using assms by (cases r; cases "snd r")
    (auto simp: os_then_def intro: isolated_trans dest: isolated_clean)

lemma isolated_lock: "etc_clean s \<Longrightarrow> isolated n s (fst (lock_etc E s))"
  by (auto simp: lock_etc_def io_step_def intro: isolated_same)

lemma others_append: "others n (ls @ ms) = others n ls @ others n ms"
  by (simp add: others_def)

lemma others_map:
  assumes "\<And>l. l \<in> set ls \<Longrightarrow> f l = l \<or> hd (fields l) = n \<and> hd (fields (f l)) = n"
  shows "others n (map f ls) = others n ls"
  using assms
proof (induction ls)
  case (Cons l ls)
  then have "others n (map f ls) = others n ls" by simp
  with Cons.prems [of l] show ?case by (auto simp: others_def)
qed (simp add: others_def)

lemma scrub_map:
  assumes "\<And>l. l \<in> set ls \<Longrightarrow> scrub n (f l) = scrub n l \<and> hd (fields (f l)) = hd (fields l) \<and> (f l = [] \<longleftrightarrow> l = [])"
  shows "map (scrub n) (others n (map f ls)) = map (scrub n) (others n ls)"
  using assms by (induction ls) (auto simp: others_def)

lemma fields_named: "CHR '':'' \<notin> set n \<Longrightarrow> hd (fields (n @ CHR '':'' # r)) = n"
  by (simp add: fields_def split_on_append_sep)

lemma dec_line_ok: "line_ok (to_dec k)"
proof -
  have "c \<in> set (to_dec k) \<Longrightarrow> is_ascii_digit c" for c using to_dec_digits [of k] by (auto simp: list_all_iff)
  then show ?thesis by (force simp: line_ok_def is_ascii_digit_def byte_def)
qed

lemma line_ok_append [simp]: "line_ok (a @ b) \<longleftrightarrow> line_ok a \<and> line_ok b"
  and line_ok_Cons [simp]: "line_ok (c # b) \<longleftrightarrow> c \<noteq> nl \<and> c \<noteq> CHR 0x0D \<and> line_ok b"
  and line_ok_Nil [simp]: "line_ok []"
  by (auto simp: line_ok_def)

lemma isolated_append:
  assumes "etc_clean s" and "line_ok r" and "hd (fields r) = n"
  shows "isolated n s (fst (append_line E p r s))"
  unfolding append_line_def using assms
  by (intro isolated_write) (auto simp: others_append others_def dest: read_lines_ok)

lemma others_filter: "others n (filter (\<lambda>l. hd (fields l) \<noteq> n) ls) = others n ls"
  by (induction ls) (auto simp: others_def)

lemma isolated_remove:
  assumes "etc_clean s"
  shows "isolated n s (fst (remove_named E p n s))"
  unfolding remove_named_def using assms
  by (intro isolated_write) (auto simp: others_filter dest: read_lines_ok)

lemma isolated_group_map:
  assumes "etc_clean s" and "names_to_names g" and "\<And>ms. drop_member n (g ms) = drop_member n ms"
  shows "isolated n s (fst (write_atomic E GROUP (unlines (map (\<lambda>l. if P l then map_members g l else l)
    (read_lines GROUP s))) s))"
proof (rule isolated_write)
  have ok: "line_ok l" if "l \<in> set (read_lines GROUP s)" for l using read_lines_ok [OF assms(1) that] .
  note F = map_members_facts [OF ok assms(2)]
  show "\<forall>l \<in> set (map (\<lambda>l. if P l then map_members g l else l) (read_lines GROUP s)). line_ok l"
    using ok F(1) by auto
  have "drop_member n \<circ> g = drop_member n" using assms(3) by auto
  then show "map (scrub n) (others n (map (\<lambda>l. if P l then map_members g l else l) (read_lines GROUP s)))
      = map (scrub n) (others n (read_lines GROUP s))"
    using F(2,4) F(6) [where h = "drop_member n"] by (intro scrub_map) auto
qed (use assms in auto)

lemma drop_member_idem: "drop_member n (drop_member n ms) = drop_member n ms"
  by (simp add: drop_member_def)

lemma isolated_strip: "etc_clean s \<Longrightarrow> isolated n s (fst (strip_from_all_groups E n s))"
  unfolding strip_from_all_groups_def
  using isolated_group_map [of s "drop_member n" n E "\<lambda>_. True"]
  by (simp add: drop_member_names drop_member_idem)

lemma isolated_ungroup: "etc_clean s \<Longrightarrow> isolated n s (fst (remove_from_group_sync E n g s))"
  unfolding remove_from_group_sync_def
  by (intro isolated_then isolated_lock isolated_group_map drop_member_names drop_member_idem)

lemma isolated_addgroup:
  assumes "etc_clean s" and "name_ok n"
  shows "isolated n s (fst (add_to_group_sync E n g s))"
proof -
  have "names_to_names (\<lambda>ms. if n \<in> set ms then ms else ms @ [n])"
    using assms(2) by (auto simp: names_to_names_def)
  from isolated_group_map [OF _ this, of _ n] show ?thesis
    unfolding add_to_group_sync_def Let_def
    by (intro isolated_then isolated_lock assms(1)) (auto simp: drop_member_def intro: isolated_refl)
qed

lemma isolated_passwd_map:
  assumes "etc_clean s" and "p \<noteq> GROUP" and "\<forall>x \<in> set xs. CHR '':'' \<notin> set x \<and> line_ok x"
    and f: "\<And>l. hit l \<Longrightarrow> hd (fields l) = n \<and> (\<exists>i j x y. f l = join_with CHR '':'' ((fields l)[Suc i := x, Suc j := y])
      \<and> x \<in> set xs \<and> y \<in> set xs)"
  shows "isolated n s (fst (write_atomic E p (unlines (map (\<lambda>l. if hit l then f l else l) (read_lines p s))) s))"
proof (rule isolated_write [OF assms(1)])
  have ok: "line_ok l" if "l \<in> set (read_lines p s)" for l using read_lines_ok [OF assms(1) that] .
  have h: "line_ok (f l) \<and> hd (fields (f l)) = n" if l: "l \<in> set (read_lines p s)" "hit l" for l
  proof -
    from f [OF l(2)] obtain i j x y where e: "f l = join_with CHR '':'' ((fields l)[Suc i := x, Suc j := y])"
      and xy: "x \<in> set xs" "y \<in> set xs" and n: "hd (fields l) = n" by blast
    let ?m = "join_with CHR '':'' ((fields l)[Suc i := x])"
    have m: "fields ?m = (fields l)[Suc i := x]" "line_ok ?m"
      using xy assms(3) ok [OF l(1)] by (auto intro: fields_update update_line_ok)
    have "fields (f l) = (fields l)[Suc i := x, Suc j := y]" "line_ok (f l)"
      using fields_update [of y ?m "Suc j"] update_line_ok [OF m(2), of y "Suc j"] xy assms(3) m(1) by (auto simp: e)
    then show ?thesis using n by (cases "fields l") auto
  qed
  show "\<forall>l \<in> set (map (\<lambda>l. if hit l then f l else l) (read_lines p s)). line_ok l" using ok h by auto
  show "others n (map (\<lambda>l. if hit l then f l else l) (read_lines p s)) = others n (read_lines p s)"
    using h f by (intro others_map) auto
qed (use assms(2) in simp)

definition crypt_ok :: "os_env \<Rightarrow> bool" where
  "crypt_ok E \<longleftrightarrow> (\<forall>pw h. oe_crypt E pw = Some h \<longrightarrow> CHR '':'' \<notin> set h \<and> line_ok h)"

lemma isolated_set_passwd:
  assumes "etc_clean s" and "crypt_ok E"
  shows "isolated n s (fst (set_passwd_sync E n pw s))"
  unfolding set_passwd_sync_def
proof (rule isolated_then [OF isolated_lock [OF assms(1)]])
  fix t and u :: unit assume c: "etc_clean t"
  show "isolated n t (fst (case oe_crypt E pw of None \<Rightarrow> (t, Inl (SysErr SetPwFailed))
    | Some h \<Rightarrow> (let hit = (\<lambda>l. hd (fields l) = n \<and> 3 \<le> length (fields l)); ls = read_lines SHADOW t
     in if \<not> list_ex hit ls then (t, Inl (SysErr SetPwFailed))
        else write_atomic E SHADOW (unlines (map (\<lambda>l.
          if hit l then join_with CHR '':'' ((fields l)[1 := h, 2 := to_dec (oe_days E)]) else l) ls)) t)))"
  proof (cases "oe_crypt E pw")
    case (Some h)
    have "CHR '':'' \<notin> set (to_dec k)" for k
      using to_dec_digits [of k] by (force simp: list_all_iff is_ascii_digit_def byte_def)
    with Some assms(2) have x: "\<forall>x \<in> set [h, to_dec (oe_days E)]. CHR '':'' \<notin> set x \<and> line_ok x"
      by (auto simp: crypt_ok_def dec_line_ok)
    have "isolated n t (fst (write_atomic E SHADOW (unlines (map (\<lambda>l.
          if hd (fields l) = n \<and> 3 \<le> length (fields l)
          then join_with CHR '':'' ((fields l)[1 := h, 2 := to_dec (oe_days E)]) else l) (read_lines SHADOW t))) t))"
      by (rule isolated_passwd_map [OF c _ x]) (auto, metis One_nat_def numeral_2_eq_2)
    with c show ?thesis by (simp add: Some Let_def isolated_refl)
  qed (simp add: isolated_refl c)
qed

lemma gecos_ok_line: "gecos_ok g \<Longrightarrow> CHR '':'' \<notin> set g \<and> line_ok g"
  by (force simp: gecos_ok_def list_ex_iff line_ok_def byte_def)

lemma isolated_set_gecos:
  assumes "etc_clean s" and "gecos_ok g"
  shows "isolated n s (fst (set_gecos_sync E n g s))"
  unfolding set_gecos_sync_def
proof (rule isolated_then [OF isolated_lock [OF assms(1)]])
  fix t and u :: unit assume c: "etc_clean t"
  have x: "\<forall>x \<in> set [g]. CHR '':'' \<notin> set x \<and> line_ok x" using gecos_ok_line [OF assms(2)] by simp
  show "isolated n t (fst (write_atomic E PASSWD (unlines (map (\<lambda>l.
       if hd (fields l) = n \<and> 5 \<le> length (fields l) then join_with CHR '':'' ((fields l)[4 := g]) else l)
       (read_lines PASSWD t))) t))"
    by (rule isolated_passwd_map [OF c _ x]) (auto intro!: exI [of _ 3] exI [of _ g])
qed

lemma isolated_home: "etc_clean s \<Longrightarrow> isolated n s (fst (create_home E h s))"
  and isolated_marker: "etc_clean s \<Longrightarrow> isolated n s (write_owned_marker E h s)"
  and isolated_rm_home: "etc_clean s \<Longrightarrow> isolated n s (remove_home E h s)"
  by (auto simp: create_home_def write_owned_marker_def remove_home_def io_step_def intro!: isolated_same)

lemmas isolated_intros = isolated_then isolated_lock isolated_refl isolated_append isolated_remove
  isolated_strip isolated_home isolated_marker isolated_rm_home

lemma rows_ok:
  assumes "name_ok n"
  shows "line_ok g \<Longrightarrow> line_ok h \<Longrightarrow> line_ok (passwd_row n uid gid g h ''/bin/bash'')"
    and "hd (fields (passwd_row n uid gid g h sh)) = n"
    and "line_ok (shadow_row n d)" and "hd (fields (shadow_row n d)) = n"
    and "line_ok (group_row n gid)" and "hd (fields (group_row n gid)) = n"
    and "line_ok n" and "hd (fields (n @ '':!::'')) = n"
  using assms
  by (simp_all add: passwd_row_def shadow_row_def group_row_def dec_line_ok name_ok_def fields_named)

lemma isolated_add_user:
  assumes "etc_clean s" and "name_ok n" and "line_ok g"
  shows "isolated n s (fst (add_user_sync E n g ''/bin/bash'' s))"
  unfolding add_user_sync_def Let_def
  by (rule isolated_then, rule isolated_lock [OF assms(1)])
    (auto intro!: isolated_intros split: option.split simp: rows_ok [OF assms(2)] assms(3))

lemma isolated_del_user: "etc_clean s \<Longrightarrow> isolated n s (fst (del_user_sync E n s))"
  unfolding del_user_sync_def Let_def
  by (rule isolated_then, rule isolated_lock)
    (auto intro!: isolated_intros split: option.split)

lemma isolated_grant: "etc_clean s \<Longrightarrow> name_ok n \<Longrightarrow> isolated n s (fst (grant_admin E n s))"
  by (auto simp: grant_admin_def intro: isolated_addgroup isolated_refl split: option.split)

lemma isolated_revoke: "etc_clean s \<Longrightarrow> isolated n s (fst (revoke_groups E n gs err s))"
proof (induction gs arbitrary: err s)
  case (Cons g gs)
  obtain t r where t: "remove_from_group_sync E n g s = (t, r)" by (cases "remove_from_group_sync E n g s")
  with isolated_ungroup [OF Cons.prems, of n E g] have i: "isolated n s t" by simp
  from Cons.IH [OF isolated_clean [OF i]] have "isolated n s (fst (revoke_groups E n gs e t))" for e
    by (rule isolated_trans [OF i])
  with t Cons show ?case by (cases r) auto
qed (simp add: isolated_refl)

lemma isolated_provision:
  assumes "etc_clean s" and "name_ok n" and "crypt_ok E"
  shows "isolated n s (fst (provision E us n fn admin pw s))"
  unfolding provision_def Let_def
  by (intro isolated_then)
    (auto intro!: isolated_add_user isolated_set_gecos isolated_refl isolated_grant isolated_set_passwd
      simp: assms dest: gecos_ok_line split: option.split)

section \<open>Properties\<close>


text \<open>Allocation of ids is exact: the answer is the least free id of the range, and there is none
  only when every id of the range is taken.\<close>

lemma find_upt: "find P [lo..<hi] = Some i \<longleftrightarrow> lo \<le> i \<and> i < hi \<and> P i \<and> (\<forall>j. lo \<le> j \<longrightarrow> j < i \<longrightarrow> \<not> P j)"
proof -
  have "find P [lo..<hi] = Some i \<longleftrightarrow>
      (\<exists>k < hi - lo. P (lo + k) \<and> i = lo + k \<and> (\<forall>j < k. \<not> P (lo + j)))"
    by (auto simp: find_Some_iff)
  also have "\<dots> \<longleftrightarrow> lo \<le> i \<and> i < hi \<and> P i \<and> (\<forall>j. lo \<le> j \<longrightarrow> j < i \<longrightarrow> \<not> P j)"
    by (auto intro!: exI [of _ "i - lo"]) (metis add_diff_cancel_left' le_Suc_ex nat_add_left_cancel_less)
  finally show ?thesis .
qed

definition row_id_set :: "etc_path \<Rightarrow> etc_state \<Rightarrow> nat set" where
  "row_id_set p s = set (List.map_filter row_id (read_lines p s))"

theorem next_free_id_exact:
  "(next_free_id p lo hi s = Some i \<longleftrightarrow>
     lo \<le> i \<and> i < hi \<and> i \<notin> row_id_set p s \<and> (\<forall>j. lo \<le> j \<longrightarrow> j < i \<longrightarrow> j \<in> row_id_set p s)) \<and>
   (next_free_id p lo hi s = None \<longleftrightarrow> {lo..<hi} \<subseteq> row_id_set p s)"
  by (auto simp: next_free_id_def row_id_set_def find_upt find_None_iff)

text \<open>The members of a group, over all rows that name it.\<close>

definition members_of :: "string \<Rightarrow> etc_state \<Rightarrow> string set" where
  "members_of g s = (\<Union>l \<in> {l \<in> set (read_lines GROUP s). is_group g l}. set (group_members (fields l ! 3)))"

lemma is_group_ne: "is_group g l \<Longrightarrow> l \<noteq> []"
  by (auto simp: is_group_def fields_def)

lemma members_of_write:
  assumes "\<forall>l \<in> set ls. line_ok l" and "write_atomic E GROUP (unlines ls) s = (s', Inr ())"
  shows "members_of g s' = (\<Union>l \<in> {l \<in> set ls. is_group g l}. set (group_members (fields l ! 3)))"
proof -
  have r: "read_lines GROUP s' = str_lines (unlines ls)"
    using assms(2) by (auto simp: write_atomic_def io_step_def read_lines_def split: if_splits)
  have "{l \<in> set (str_lines (unlines ls)). l \<noteq> []} = {l \<in> set ls. l \<noteq> []}"
    using arg_cong [OF lines_unlines [OF assms(1)], of set] by auto
  then have "{l \<in> set (str_lines (unlines ls)). is_group g l} = {l \<in> set ls. is_group g l}"
    using is_group_ne by blast
  then show ?thesis by (simp add: members_of_def r)
qed

lemma members_ungroup:
  assumes "etc_clean s" and "remove_from_group_sync E n g s = (s', Inr ())"
  shows "n \<notin> members_of g s'" and "members_of h s' \<subseteq> members_of h s"
proof -
  define f where "f = (\<lambda>l. if is_group g l then map_members (drop_member n) l else l)"
  have ok: "line_ok l" if "l \<in> set (read_lines GROUP s)" for l using read_lines_ok [OF assms(1) that] .
  obtain t where t: "write_atomic E GROUP (unlines (map f (read_lines GROUP s))) t = (s', Inr ())"
    using assms(2)
    by (auto simp: remove_from_group_sync_def f_def os_then_def lock_etc_def io_step_def split: prod.splits sum.splits if_splits)
  have M: "members_of h s' = (\<Union>l \<in> {l \<in> set (map f (read_lines GROUP s)). is_group h l}. set (group_members (fields l ! 3)))" for h
    by (rule members_of_write [OF _ t]) (auto simp: f_def ok map_members_facts(1) [OF ok drop_member_names])
  have F: "is_group h (f l) = is_group h l" "is_group h l \<Longrightarrow> group_members (fields (f l) ! 3)
      = (if is_group g l then drop_member n else id) (group_members (fields l ! 3))"
    if "l \<in> set (read_lines GROUP s)" for h l
    using map_members_facts(2,3,5) [OF ok [OF that] drop_member_names, of n] by (auto simp: is_group_def f_def)
  have M': "members_of h s' = (\<Union>l \<in> {l \<in> set (read_lines GROUP s). is_group h l}.
      set ((if is_group g l then drop_member n else id) (group_members (fields l ! 3))))" for h
  proof -
    have "{l \<in> set (map f (read_lines GROUP s)). is_group h l} = f ` {l \<in> set (read_lines GROUP s). is_group h l}"
      using F(1) by auto
    then show ?thesis unfolding M
      by (simp only: image_image) (intro SUP_cong refl arg_cong [of _ _ set] F(2), auto)
  qed
  show "n \<notin> members_of g s'" unfolding M' by (simp add: drop_member_def)
  show "members_of h s' \<subseteq> members_of h s"
    unfolding M' [of h] by (auto simp: members_of_def drop_member_def split: if_splits)
qed

lemma members_revoke:
  assumes "\<And>s g. oe_getgr E s g = list_ex (\<lambda>l. hd (fields l) = g) (read_lines GROUP s)"
  shows "etc_clean s \<Longrightarrow> revoke_groups E n gs err s = (s', Inr ()) \<Longrightarrow>
    err = None \<and> members_of h s' \<subseteq> members_of h s \<and> (\<forall>g \<in> set gs. n \<notin> members_of g s')"
proof (induction gs arbitrary: err s h)
  case Nil
  then show ?case by (auto split: option.splits)
next
  case (Cons g gs)
  show ?case
  proof (cases "oe_getgr E s g")
    case False
    then have "members_of g s = {}" by (auto simp: assms list_ex_iff members_of_def is_group_def)
    with False Cons show ?thesis by fastforce
  next
    case True
    obtain t r where t: "remove_from_group_sync E n g s = (t, r)" by (cases "remove_from_group_sync E n g s")
    have c: "etc_clean t" using isolated_clean [OF isolated_ungroup [OF Cons.prems(1), of n E g]] t by simp
    show ?thesis
    proof (cases r)
      case (Inl e)
      with t True Cons.prems Cons.IH [OF c, of "Some (opt_or err e)"] show ?thesis by simp
    next
      case (Inr u)
      with t True Cons.prems(2) have r: "revoke_groups E n gs err t = (s', Inr ())" by simp
      from members_ungroup [OF Cons.prems(1), of E n g t] Inr t
      have "n \<notin> members_of g t" "\<And>h. members_of h t \<subseteq> members_of h s" by simp_all
      moreover have "err = None" "\<And>h. members_of h s' \<subseteq> members_of h t" "\<forall>g \<in> set gs. n \<notin> members_of g s'"
        using Cons.IH [OF c r] by auto
      ultimately show ?thesis by fastforce
    qed
  qed
qed

text \<open>Demotion is effective: when revoking administration reports success, the account is in no
  administrators' group, whichever of the two groups the system has.\<close>

theorem sudo_revoked:
  assumes "etc_clean s" and "\<And>s g. oe_getgr E s g = list_ex (\<lambda>l. hd (fields l) = g) (read_lines GROUP s)"
    and "set_sudo E n False s = (s', Inr ())"
  shows "n \<notin> members_of ''sudo'' s' \<and> n \<notin> members_of ''wheel'' s' \<and> members_of h s' \<subseteq> members_of h s"
  using members_revoke [OF assms(2,1), of n "[''sudo'', ''wheel'']" None s' h] assms(3)
  by (simp add: set_sudo_def del: revoke_groups.simps)

lemma remove_named_gone:
  assumes "etc_clean s" and "remove_named E p n s = (s', Inr ())" and "n \<noteq> []"
  shows "\<forall>l \<in> set (read_lines p s'). hd (fields l) \<noteq> n"
proof -
  let ?ls = "filter (\<lambda>l. hd (fields l) \<noteq> n) (read_lines p s)"
  have ok: "\<forall>l \<in> set ?ls. line_ok l" using read_lines_ok [OF assms(1)] by auto
  have r: "read_lines p s' = str_lines (unlines ?ls)"
    using assms(2) by (auto simp: remove_named_def write_atomic_def io_step_def read_lines_def et_get_put split: if_splits)
  have "hd (fields l) \<noteq> n" if "l \<in> set (str_lines (unlines ?ls))" for l
  proof (cases "l = []")
    case True
    with assms(3) show ?thesis by (simp add: fields_def)
  next
    case False
    with that have "l \<in> set (filter (\<lambda>l. l \<noteq> []) (str_lines (unlines ?ls)))" by simp
    then show ?thesis unfolding lines_unlines [OF ok] by simp
  qed
  then show ?thesis unfolding r by blast
qed

lemma os_then_Inr: "os_then r f = (s', Inr x) \<longleftrightarrow> (\<exists>t y. r = (t, Inr y) \<and> f t y = (s', Inr x))"
  by (auto simp: os_then_def split: prod.splits sum.splits)

lemma write_other: "write_atomic E q c s = (s', r) \<Longrightarrow> p \<noteq> q \<Longrightarrow> read_lines p s' = read_lines p s"
  by (auto simp: write_atomic_def io_step_def read_lines_def et_get_put split: if_splits)

lemma strip_heads:
  assumes "etc_clean s" and "strip_from_all_groups E n s = (s', Inr ())" and "n \<noteq> []"
    and "\<forall>l \<in> set (read_lines GROUP s). hd (fields l) \<noteq> n"
  shows "\<forall>l \<in> set (read_lines GROUP s'). hd (fields l) \<noteq> n"
proof -
  define ls where "ls = map (map_members (drop_member n)) (read_lines GROUP s)"
  note F = map_members_facts [OF read_lines_ok [OF assms(1)] drop_member_names, of _ GROUP]
  have ok: "\<forall>l \<in> set ls. line_ok l" using F(1) by (auto simp: ls_def)
  have h: "\<forall>l \<in> set ls. hd (fields l) \<noteq> n" using F(2) assms(4) by (auto simp: ls_def)
  have r: "read_lines GROUP s' = str_lines (unlines ls)"
    using assms(2)
    by (auto simp: strip_from_all_groups_def ls_def write_atomic_def io_step_def read_lines_def split: if_splits)
  have "hd (fields l) \<noteq> n" if "l \<in> set (str_lines (unlines ls))" for l
  proof (cases "l = []")
    case False
    with that have "l \<in> set (filter (\<lambda>l. l \<noteq> []) (str_lines (unlines ls)))" by simp
    then show ?thesis using h unfolding lines_unlines [OF ok] by simp
  qed (use assms(3) in \<open>simp add: fields_def\<close>)
  then show ?thesis unfolding r by blast
qed

text \<open>Deleting an account deletes every group row of its name: a panel user called \<open>sudo\<close> (a valid
  name, and free on a system that has the group but no such account) takes the administrators'
  group with it.\<close>

theorem delete_takes_group:
  assumes "etc_clean s" and "n \<noteq> []" and "del_user_sync E n s = (s', Inr ())"
  shows "\<forall>l \<in> set (read_lines GROUP s'). hd (fields l) \<noteq> n"
proof -
  from assms(3) obtain a b c d e f where st: "lock_etc E s = (a, Inr ())" "remove_named E PASSWD n a = (b, Inr ())"
    "remove_named E SHADOW n b = (c, Inr ())" "remove_named E GROUP n c = (d, Inr ())"
    and gs: "(if et_gshadow d \<noteq> Absent_file then remove_named E GSHADOW n d else (d, Inr ())) = (e, Inr ())"
    and strip: "strip_from_all_groups E n e = (f, Inr ())"
    and fin: "(case map_option snd (oe_getpw E a n) of Some h \<Rightarrow> if starts_with h ''/home/'' then remove_home E h f else f
        | None \<Rightarrow> f) = s'"
    unfolding del_user_sync_def Let_def os_then_Inr by (auto simp: os_then_Inr)
  have c: "etc_clean a" "etc_clean b" "etc_clean c" "etc_clean d"
    using isolated_clean [OF isolated_lock [OF assms(1), of n E]] st
      isolated_clean [OF isolated_remove, of _ E _ n] by (metis fst_conv)+
  have e: "etc_clean e" using gs c isolated_clean [OF isolated_remove [OF c(4), of n E GSHADOW]]
    by (auto split: if_splits)
  have "\<forall>l \<in> set (read_lines GROUP d). hd (fields l) \<noteq> n"
    by (rule remove_named_gone [OF c(3) st(4) assms(2)])
  moreover have "read_lines GROUP e = read_lines GROUP d"
    using gs by (auto simp: remove_named_def dest: write_other split: if_splits)
  ultimately have "\<forall>l \<in> set (read_lines GROUP f). hd (fields l) \<noteq> n"
    using strip_heads [OF e strip assms(2)] by simp
  moreover have "read_lines GROUP s' = read_lines GROUP f"
    unfolding fin [symmetric] by (simp add: remove_home_def io_step_def split: option.split)
  ultimately show ?thesis by simp
qed

text \<open>A file that is not UTF-8 reads as empty, so the next row appended is all that is left.\<close>

theorem unreadable_table_lost:
  assumes "et_get p s = Unreadable" and "append_line E p row s = (s', r)" and "oe_io E (et_io s)"
  shows "et_get p s' = Text (row @ [nl])"
  using assms by (auto simp: append_line_def write_atomic_def io_step_def read_lines_def unlines_def et_get_put)

section \<open>Witnesses\<close>

text \<open>A small system: root, one administrator, the group but no account \<open>sudo\<close>; look-ups read the
  tables.\<close>

definition files_getpw :: "etc_state \<Rightarrow> string \<Rightarrow> (nat \<times> string) option" where
  "files_getpw s n =
     (if list_ex (\<lambda>l. hd (fields l) = n) (read_lines PASSWD s) then Some (1000, ''/home/'' @ n) else None)"

definition demo_os :: os_env where
  "demo_os = \<lparr>oe_getpw = files_getpw,
     oe_getgr = (\<lambda>s g. list_ex (\<lambda>l. hd (fields l) = g) (read_lines GROUP s)),
     oe_io = (\<lambda>_. True), oe_crypt = (\<lambda>_. Some ''$6$x''), oe_days = 7\<rparr>"

definition demo_etc :: etc_state where
  "demo_etc = \<lparr>et_passwd = Text (unlines [''root:x:0:0::/root:/bin/sh'', ''ann:x:1000:1000::/home/ann:/bin/sh'']),
     et_shadow = Text (unlines [''root:!:1::::::'', ''ann:!:1::::::'']),
     et_group = Text (unlines [''root:x:0:'', ''sudo:x:27:ann'', ''ann:x:1000:'']),
     et_gshadow = Absent_file, et_homes = [(''/home/ann'', True)], et_io = 0\<rparr>"

lemma demo_etc_clean: "etc_clean demo_etc"
proof -
  have "clean_file (et_get p demo_etc)" for p by (cases p) (simp_all add: demo_etc_def unlines_def)
  then show ?thesis by (simp add: etc_clean_def)
qed

lemma demo_crypt_ok: "crypt_ok demo_os"
  by (simp add: crypt_ok_def demo_os_def)


theorem sudo_revoked_witness:
  "''ann'' \<in> members_of ''sudo'' demo_etc \<and>
   ''ann'' \<notin> members_of ''sudo'' (fst (set_sudo demo_os ''ann'' False demo_etc))"
proof
  show "''ann'' \<in> members_of ''sudo'' demo_etc" by code_simp
  have ok: "snd (set_sudo demo_os ''ann'' False demo_etc) = Inr ()" by code_simp
  show "''ann'' \<notin> members_of ''sudo'' (fst (set_sudo demo_os ''ann'' False demo_etc))"
    by (rule sudo_revoked [where E = demo_os, THEN conjunct1, OF demo_etc_clean])
      (simp add: demo_os_def, intro prod_eqI, simp_all add: ok)
qed

theorem next_free_id_exact_witness: "next_free_id PASSWD 1000 60000 demo_etc = Some 1001"
proof -
  have r: "read_lines PASSWD demo_etc = [''root:x:0:0::/root:/bin/sh'', ''ann:x:1000:1000::/home/ann:/bin/sh'']"
    by code_simp
  have "row_id ''root:x:0:0::/root:/bin/sh'' = Some 0" "row_id ''ann:x:1000:1000::/home/ann:/bin/sh'' = Some 1000"
    by (simp_all add: row_id_def fields_def nth_opt_def parse_u32_def parse_uint_def Let_def is_ascii_digit_def
        digits_val_def digit_val_def byte_def)
  then have "row_id_set PASSWD demo_etc = {0, 1000}"
    by (simp add: row_id_set_def r List.map_filter_simps)
  then show ?thesis by (subst next_free_id_exact [THEN conjunct1]) auto
qed

text \<open>A panel user \<open>sudo\<close> beside the group of that name.\<close>

definition demo_etc_sudo :: etc_state where
  "demo_etc_sudo = demo_etc\<lparr>
     et_passwd := Text (unlines [''ann:x:1000:1000::/home/ann:/bin/sh'', ''sudo:x:1001:1001::/home/sudo:/bin/sh'']),
     et_group := Text (unlines [''sudo:x:27:ann'', ''ann:x:1000:'', ''sudo:x:1001:''])\<rparr>"

theorem delete_takes_group_witness:
  "valid_username ''sudo'' \<and> members_of ''sudo'' demo_etc_sudo = {''ann''} \<and>
   members_of ''sudo'' (fst (del_user_sync demo_os ''sudo'' demo_etc_sudo)) = {}"
proof (intro conjI)
  have clean: "clean_file (et_get p demo_etc_sudo)" for p
    by (cases p) (simp_all add: demo_etc_sudo_def demo_etc_def unlines_def)
  have "snd (del_user_sync demo_os ''sudo'' demo_etc_sudo) = Inr ()" by code_simp
  then have "\<forall>l \<in> set (read_lines GROUP (fst (del_user_sync demo_os ''sudo'' demo_etc_sudo))). hd (fields l) \<noteq> ''sudo''"
    by (intro delete_takes_group [where E = demo_os and s = demo_etc_sudo])
      (auto simp: etc_clean_def clean intro: prod_eqI)
  then show "members_of ''sudo'' (fst (del_user_sync demo_os ''sudo'' demo_etc_sudo)) = {}"
    by (auto simp: members_of_def is_group_def)
  show "members_of ''sudo'' demo_etc_sudo = {''ann''}" by code_simp
qed (simp add: valid_username_def is_ascii_lowercase_def)

theorem unreadable_table_lost_witness:
  "et_passwd (fst (append_line demo_os PASSWD ''bob:x:1001:1001:::'' (demo_etc\<lparr>et_passwd := Unreadable\<rparr>)))
    = Text (''bob:x:1001:1001:::'' @ [nl])"
  using unreadable_table_lost [of PASSWD "demo_etc\<lparr>et_passwd := Unreadable\<rparr>" demo_os "''bob:x:1001:1001:::''"]
  by (cases "append_line demo_os PASSWD ''bob:x:1001:1001:::'' (demo_etc\<lparr>et_passwd := Unreadable\<rparr>)")
    (simp add: demo_os_def)

end
