(* ===== verification/Accounts.thy ===== *)
theory Accounts
  imports Login Web_Gate Etc_Accounts Json_Store
begin

text \<open>
  Accounts of the console: who a request is (\<open>web/http/kernel.rs\<close>, \<open>accounts.rs\<close>), the panel users
  backed by system accounts (\<open>app/users/service.rs\<close>, \<open>users_controller.rs\<close>), self-service
  (\<open>app/account/service.rs\<close>, \<open>account_controller.rs\<close>), the owner's settings
  (\<open>settings_controller.rs\<close>), the end of the first-run wizard (\<open>init_controller.rs\<close>) and the login
  handlers (\<open>login_controller.rs\<close>), over one state. A request is one step. The audit log is left
  out; what the code ignores of the outcome of a save is ignored here.
\<close>

section \<open>State\<close>

text \<open>\<open>ps_settings\<close> is the copy in memory, \<open>ps_web_file\<close> the one on disk.\<close>

record panel_state =
  ps_settings :: web_settings
  ps_web_file :: settings_file
  ps_users :: "panel_user list manifest"
  ps_etc :: etc_state
  ps_auth :: auth_state

record panel_env =
  pe_os :: os_env
  pe_crypto :: crypto
  pe_http :: http_lib
  pe_clock :: clock
  pe_cli_token :: string
  pe_save_users :: bool
  pe_save_settings :: bool
  pe_fresh :: string

datatype api_error = Unauthorized | Forbidden | StepupRequired | Core core_error | OsErr os_error
  | Code string

type_synonym 'a reply = "panel_state \<times> (api_error + 'a)"

definition settings_save :: "panel_env \<Rightarrow> web_settings \<Rightarrow> panel_state \<Rightarrow> panel_state \<times> bool" where
  "settings_save E s p = (if pe_save_settings E then (p\<lparr>ps_web_file := Present s\<rparr>, True) else (p, False))"

section \<open>The users store\<close>

definition users_load :: "panel_state \<Rightarrow> panel_user list" where
  "users_load p = load_or_default [] (ps_users p)"

definition find_user :: "panel_state \<Rightarrow> string \<Rightarrow> panel_user option" where
  "find_user p username = find (\<lambda>u. pu_username u = username) (users_load p)"

definition users_mutate :: "panel_env \<Rightarrow> (panel_user list \<Rightarrow> core_error + panel_user list) \<Rightarrow> panel_state \<Rightarrow>
    panel_state \<times> (core_error + unit)" where
  "users_mutate E f p =
     (case load_strict_m Persist (ps_users p) of
        (m, Inl e) \<Rightarrow> (p\<lparr>ps_users := m\<rparr>, Inl e)
      | (m, Inr v) \<Rightarrow>
          (case f (opt_or v []) of
             Inl e \<Rightarrow> (p, Inl e)
           | Inr us \<Rightarrow> if pe_save_users E then (p\<lparr>ps_users := Parsed us\<rparr>, Inr ()) else (p, Inl Persist)))"

fun update_first :: "string \<Rightarrow> (panel_user \<Rightarrow> panel_user) \<Rightarrow> panel_user list \<Rightarrow> core_error + panel_user list" where
  "update_first name f [] = Inl UserNotFound"
| "update_first name f (u # us) =
     (if pu_username u = name then Inr (f u # us)
      else (case update_first name f us of Inl e \<Rightarrow> Inl e | Inr vs \<Rightarrow> Inr (u # vs)))"

definition users_update_record :: "panel_env \<Rightarrow> string \<Rightarrow> (panel_user \<Rightarrow> panel_user) \<Rightarrow> panel_state \<Rightarrow>
    panel_state \<times> (core_error + unit)" where
  "users_update_record E username f p = users_mutate E (update_first username f) p"

record new_user =
  nu_username :: string
  nu_role :: string
  nu_full_name :: string
  nu_pw_salt :: string
  nu_pw_hash :: string
  nu_pw_kdf :: string
  nu_password :: string

definition valid_role :: "string \<Rightarrow> bool" where
  "valid_role r \<longleftrightarrow> r = ''admin'' \<or> r = ''user''"

definition validate_new_user :: "new_user \<Rightarrow> core_error + unit" where
  "validate_new_user req =
     (if \<not> valid_username (nu_username req) then Inl UsernameInvalid
      else if \<not> valid_role (nu_role req) then Inl RoleInvalid
      else if \<not> valid_pw_format (nu_pw_salt req) (nu_pw_hash req) \<or> \<not> valid_pw_kdf (nu_pw_kdf req)
      then Inl PasswordMalformed
      else if \<not> valid_os_secret (nu_password req) then Inl PasswordMalformed
      else Inr ())"

text \<open>The record half of \<open>create_with\<close>, once the system account exists.\<close>

definition create_record :: "panel_env \<Rightarrow> new_user \<Rightarrow> panel_state \<Rightarrow> panel_state \<times> (core_error + panel_user)" where
  "create_record E req p =
     (case oe_getpw (pe_os E) (ps_etc p) (nu_username req) of
        None \<Rightarrow> (p, Inl Persist)
      | Some (uid, _) \<Rightarrow>
     (case cr_argon_hash (pe_crypto E) (to_ascii_lowercase (nu_pw_hash req)) of
        None \<Rightarrow> (p, Inl Persist)
      | Some h \<Rightarrow>
     (let user = \<lparr>pu_username = nu_username req, pu_pw_salt = nu_pw_salt req, pu_pw_hash = h,
            pu_pw_kdf = nu_pw_kdf req, pu_role = nu_role req, pu_full_name = nu_full_name req,
            pu_nickname = [], pu_avatar = [], pu_totp_secret = [], pu_totp_enabled = False, pu_uid = uid\<rparr>
      in case users_mutate E (\<lambda>us. if list_ex (\<lambda>x. pu_username x = pu_username user) us then Inl UserExists
             else Inr (us @ [user])) p of
           (p1, Inl e) \<Rightarrow> (p1, Inl e)
         | (p1, Inr _) \<Rightarrow> (p1, Inr user))))"

definition create_with :: "panel_env \<Rightarrow> new_user \<Rightarrow> panel_state \<Rightarrow> panel_state \<times> (core_error + panel_user)" where
  "create_with E req p =
     (case validate_new_user req of
        Inl e \<Rightarrow> (p, Inl e)
      | Inr _ \<Rightarrow>
     (if find_user p (nu_username req) \<noteq> None then (p, Inl UserExists)
      else (case provision (pe_os E) (users_load p) (nu_username req) (nu_full_name req)
                  (nu_role req = ''admin'') (nu_password req) (ps_etc p) of
        (etc, Inl _) \<Rightarrow> (p\<lparr>ps_etc := etc\<rparr>, Inl Persist)
      | (etc, Inr _) \<Rightarrow>
     (case create_record E req (p\<lparr>ps_etc := etc\<rparr>) of
        (p1, Inr u) \<Rightarrow> (p1, Inr u)
      | (p1, Inl e) \<Rightarrow>
          if e \<noteq> UserExists
          then (p1\<lparr>ps_etc := fst (remove_account (pe_os E) (users_load p1) (nu_username req) (ps_etc p1))\<rparr>, Inl e)
          else (p1, Inl e)))))"

definition delete_with :: "panel_env \<Rightarrow> string \<Rightarrow> panel_state \<Rightarrow> panel_state \<times> (core_error + unit)" where
  "delete_with E username p =
     (if find_user p username = None then (p, Inl UserNotFound)
      else (case remove_account (pe_os E) (users_load p) username (ps_etc p) of
        (etc, Inl _) \<Rightarrow> (p\<lparr>ps_etc := etc\<rparr>, Inl Persist)
      | (etc, Inr _) \<Rightarrow>
          users_mutate E (\<lambda>us. Inr (filter (\<lambda>u. pu_username u \<noteq> username) us)) (p\<lparr>ps_etc := etc\<rparr>)))"

section \<open>Who is asking\<close>

record account =
  ac_username :: string
  ac_is_admin :: bool
  ac_is_super :: bool
  ac_system_user :: "string option"
  ac_totp_enabled :: bool

definition account_level :: "account \<Rightarrow> nat" where
  "account_level a = level (ac_is_super a) (ac_is_admin a)"

definition to_principal :: "account \<Rightarrow> principal" where
  "to_principal a = \<lparr>pr_username = ac_username a, pr_is_super = ac_is_super a, pr_system_user = ac_system_user a\<rparr>"

definition bearer :: "http_lib \<Rightarrow> header_map \<Rightarrow> string option" where
  "bearer H headers =
     (case hd_get_str H headers ''authorization'' of
        None \<Rightarrow> None
      | Some v \<Rightarrow> map_option trim
          (case strip_prefix v ''Bearer '' of Some r \<Rightarrow> Some r | None \<Rightarrow> strip_prefix v ''bearer ''))"

definition is_direct_loopback :: "header_map \<Rightarrow> bool" where
  "is_direct_loopback headers \<longleftrightarrow>
     hd_get headers ''x-dn7-forwarded'' = None \<and> hd_get headers ''x-forwarded-for'' = None \<and>
     hd_get headers ''x-real-ip'' = None"

definition authed_user :: "panel_env \<Rightarrow> header_map \<Rightarrow> panel_state \<Rightarrow> panel_state \<times> string option" where
  "authed_user E headers p =
     (let token = opt_or (bearer (pe_http E) headers) []
      in if token = [] then (p, None)
         else if pe_cli_token E \<noteq> [] \<and> ct_eq (as_bytes token) (as_bytes (pe_cli_token E)) \<and> is_direct_loopback headers
         then (p, if ws_initialized (ps_settings p) \<and> ws_username (ps_settings p) \<noteq> []
                  then Some (ws_username (ps_settings p)) else None)
         else (case auth_identity (pe_crypto E) (pe_clock E) token (ps_auth p) of
                 (a, u) \<Rightarrow> (p\<lparr>ps_auth := a\<rparr>, u)))"

definition resolve_account :: "panel_state \<Rightarrow> string \<Rightarrow> account option" where
  "resolve_account p username =
     (let su = ps_settings p
      in if username = ws_username su
         then Some \<lparr>ac_username = ws_username su, ac_is_admin = True, ac_is_super = True,
                 ac_system_user = None, ac_totp_enabled = ws_totp_enabled su\<rparr>
         else map_option (\<lambda>u. \<lparr>ac_username = pu_username u, ac_is_admin = pu_is_admin u, ac_is_super = False,
                 ac_system_user = Some (pu_username u), ac_totp_enabled = pu_totp_enabled u\<rparr>)
                (find_user p username))"

definition current_account :: "panel_env \<Rightarrow> header_map \<Rightarrow> panel_state \<Rightarrow> account reply" where
  "current_account E headers p =
     (case authed_user E headers p of
        (p1, Some user) \<Rightarrow> (p1, case resolve_account p1 user of Some a \<Rightarrow> Inr a | None \<Rightarrow> Inl Unauthorized)
      | (p1, None) \<Rightarrow> (p1, Inl Unauthorized))"

definition reply_then :: "'a reply \<Rightarrow> (panel_state \<Rightarrow> 'a \<Rightarrow> 'b reply) \<Rightarrow> 'b reply" where
  "reply_then r f = (case r of (p, Inl e) \<Rightarrow> (p, Inl e) | (p, Inr x) \<Rightarrow> f p x)"

definition require_admin :: "panel_env \<Rightarrow> header_map \<Rightarrow> panel_state \<Rightarrow> account reply" where
  "require_admin E headers p =
     reply_then (current_account E headers p) (\<lambda>p a. (p, if ac_is_admin a then Inr a else Inl Forbidden))"

definition require_super :: "panel_env \<Rightarrow> header_map \<Rightarrow> panel_state \<Rightarrow> account reply" where
  "require_super E headers p =
     reply_then (current_account E headers p) (\<lambda>p a. (p, if ac_is_super a then Inr a else Inl Forbidden))"

definition stepup_token :: "http_lib \<Rightarrow> header_map \<Rightarrow> string" where
  "stepup_token H headers = opt_or (hd_get_str H headers ''x-dn7-stepup'') []"

definition require_stepup :: "panel_env \<Rightarrow> header_map \<Rightarrow> string \<Rightarrow> panel_state \<Rightarrow> unit reply" where
  "require_stepup E headers acct p =
     (case auth_consume_stepup (pe_clock E) (stepup_token (pe_http E) headers) acct (ps_auth p) of
        (a, ok) \<Rightarrow> (p\<lparr>ps_auth := a\<rparr>, if ok then Inr () else Inl StepupRequired))"

definition core_reply :: "panel_state \<times> (core_error + 'a) \<Rightarrow> 'a reply" where
  "core_reply r = (case r of (p, Inl e) \<Rightarrow> (p, Inl (Core e)) | (p, Inr x) \<Rightarrow> (p, Inr x))"

definition os_reply :: "panel_state \<Rightarrow> unit os_result \<Rightarrow> unit reply" where
  "os_reply p r = (case r of (etc, Inl e) \<Rightarrow> (p\<lparr>ps_etc := etc\<rparr>, Inl (OsErr e)) | (etc, Inr x) \<Rightarrow> (p\<lparr>ps_etc := etc\<rparr>, Inr x))"

definition revoke_sessions :: "panel_env \<Rightarrow> string \<Rightarrow> string option \<Rightarrow> panel_state \<Rightarrow> panel_state" where
  "revoke_sessions E user keep p = p\<lparr>ps_auth := auth_revoke_user (pe_crypto E) user keep (ps_auth p)\<rparr>"

text \<open>\<open>chars().take(n)\<close> on the bytes of a string.\<close>

definition char_len :: "char \<Rightarrow> nat" where
  "char_len c = (if byte c < 0x80 then 1 else if byte c < 0xE0 then 2 else if byte c < 0xF0 then 3 else 4)"

fun take_chars :: "nat \<Rightarrow> string \<Rightarrow> string" where
  "take_chars 0 s = []"
| "take_chars (Suc n) s = (case s of [] \<Rightarrow> [] | c # _ \<Rightarrow> take (char_len c) s @ take_chars n (drop (char_len c) s))"

definition clip :: "string \<Rightarrow> nat \<Rightarrow> string" where
  "clip s n = take_chars n (trim s)"

section \<open>Managing users\<close>

definition users_create :: "panel_env \<Rightarrow> header_map \<Rightarrow> new_user \<Rightarrow> panel_state \<Rightarrow> string reply" where
  "users_create E headers req p =
     reply_then (require_admin E headers p) (\<lambda>p actor.
       if \<not> valid_role (nu_role req) then (p, Inl (Core RoleInvalid))
       else if \<not> can_manage (account_level actor) (role_level (nu_role req)) then (p, Inl Forbidden)
       else if nu_username req = ws_username (ps_settings p) then (p, Inl (Core UserExists))
       else reply_then (core_reply (create_with E (req\<lparr>nu_full_name := trim (nu_full_name req)\<rparr>) p))
         (\<lambda>p u. (p, Inr (pu_username u))))"

record update_req =
  ur_username :: string
  ur_full_name :: "string option"
  ur_nickname :: "string option"
  ur_role :: "string option"
  ur_pw_salt :: "string option"
  ur_pw_hash :: "string option"
  ur_pw_kdf :: "string option"
  ur_password :: "string option"

definition validate_role_change :: "update_req \<Rightarrow> nat \<Rightarrow> api_error + unit" where
  "validate_role_change req actor_lvl =
     (case ur_role req of
        None \<Rightarrow> Inr ()
      | Some role \<Rightarrow>
          if \<not> valid_role role then Inl (Core RoleInvalid)
          else if \<not> can_manage actor_lvl (role_level role) then Inl Forbidden
          else Inr ())"

definition parse_pw_update :: "panel_env \<Rightarrow> update_req \<Rightarrow> api_error + (string \<times> string \<times> string) option" where
  "parse_pw_update E req =
     (if ur_pw_salt req = None \<and> ur_pw_hash req = None then Inr None
      else (let salt = opt_or (ur_pw_salt req) []; hash = opt_or (ur_pw_hash req) []; kdf = opt_or (ur_pw_kdf req) [] in
        if \<not> valid_pw_format salt hash then Inl (Core PasswordMalformed)
        else if (case ur_password req of Some p \<Rightarrow> \<not> valid_os_secret p | None \<Rightarrow> False)
        then Inl (Core PasswordMalformed)
        else if \<not> valid_pw_kdf kdf then Inl (Core PasswordMalformed)
        else (case cr_argon_hash (pe_crypto E) (to_ascii_lowercase hash) of
                None \<Rightarrow> Inl (Core Persist)
              | Some stored \<Rightarrow> Inr (Some (salt, stored, kdf)))))"

definition apply_user_update :: "update_req \<Rightarrow> (string \<times> string \<times> string) option \<Rightarrow> panel_user \<Rightarrow> panel_user" where
  "apply_user_update req pw u =
     (let u1 = (case ur_full_name req of Some f \<Rightarrow> u\<lparr>pu_full_name := clip f 64\<rparr> | None \<Rightarrow> u);
          u2 = (case ur_nickname req of Some n \<Rightarrow> u1\<lparr>pu_nickname := clip n 40\<rparr> | None \<Rightarrow> u1);
          u3 = (case ur_role req of Some r \<Rightarrow> u2\<lparr>pu_role := r\<rparr> | None \<Rightarrow> u2)
      in (case pw of
            Some (salt, hash, kdf) \<Rightarrow> u3\<lparr>pu_pw_salt := salt, pu_pw_hash := hash, pu_pw_kdf := kdf\<rparr>
          | None \<Rightarrow> u3))"

text \<open>The effects after the record is persisted, in the code's order.\<close>

definition update_effects :: "panel_env \<Rightarrow> update_req \<Rightarrow> (string \<times> string \<times> string) option \<Rightarrow> panel_user \<Rightarrow>
    panel_state \<Rightarrow> unit reply" where
  "update_effects E req pw target p =
     reply_then
       (case ur_role req of
          Some role \<Rightarrow> if role \<noteq> pu_role target
            then os_reply p (set_sudo (pe_os E) (ur_username req) (role = ''admin'') (ps_etc p))
            else (p, Inr ())
        | None \<Rightarrow> (p, Inr ()))
     (\<lambda>p _. let p1 = (case ur_full_name req of
              Some f \<Rightarrow> p\<lparr>ps_etc := fst (set_full_name (pe_os E) (ur_username req) (trim f) (ps_etc p))\<rparr>
            | None \<Rightarrow> p)
        in if pw = None then (p1, Inr ())
           else (let p2 = revoke_sessions E (ur_username req) None p1 in
             case ur_password req of
               Some s \<Rightarrow> if s \<noteq> [] then os_reply p2 (set_system_password (pe_os E) (ur_username req) s (ps_etc p2))
                 else (p2, Inr ())
             | None \<Rightarrow> (p2, Inr ())))"

definition users_update :: "panel_env \<Rightarrow> header_map \<Rightarrow> update_req \<Rightarrow> panel_state \<Rightarrow> unit reply" where
  "users_update E headers req p =
     reply_then (require_admin E headers p) (\<lambda>p actor.
     case find_user p (ur_username req) of
       None \<Rightarrow> (p, Inl (Core UserNotFound))
     | Some target \<Rightarrow>
         if \<not> can_manage (account_level actor) (role_level (pu_role target)) then (p, Inl Forbidden)
         else (case validate_role_change req (account_level actor) of
             Inl e \<Rightarrow> (p, Inl e)
           | Inr _ \<Rightarrow>
         (case parse_pw_update E req of
             Inl e \<Rightarrow> (p, Inl e)
           | Inr pw \<Rightarrow>
         reply_then (core_reply (users_update_record E (ur_username req) (apply_user_update req pw) p))
           (\<lambda>p _. update_effects E req pw target p))))"

definition users_delete :: "panel_env \<Rightarrow> header_map \<Rightarrow> string \<Rightarrow> panel_state \<Rightarrow> unit reply" where
  "users_delete E headers username p =
     reply_then (require_admin E headers p) (\<lambda>p actor.
       if (case find_user p username of
             Some t \<Rightarrow> \<not> can_manage (account_level actor) (role_level (pu_role t)) | None \<Rightarrow> False)
       then (p, Inl Forbidden)
       else reply_then (core_reply (delete_with E username p))
         (\<lambda>p _. (revoke_sessions E username None p, Inr ())))"

section \<open>Self-service\<close>

record password_change =
  ch_salt :: string
  ch_hash :: string
  ch_kdf :: string
  ch_nonce :: string
  ch_old_verifier :: string
  ch_plaintext :: string
  ch_keep_token :: "string option"

definition current_verifier :: "principal \<Rightarrow> panel_state \<Rightarrow> string" where
  "current_verifier who p =
     (if pr_is_super who then ws_pw_hash (ps_settings p)
      else (case find_user p (pr_username who) of Some u \<Rightarrow> pu_pw_hash u | None \<Rightarrow> []))"

definition save_password :: "panel_env \<Rightarrow> principal \<Rightarrow> string \<Rightarrow> string \<Rightarrow> string \<Rightarrow> panel_state \<Rightarrow>
    panel_state \<times> (core_error + unit)" where
  "save_password E who salt hash kdf p =
     (case cr_argon_hash (pe_crypto E) hash of
        None \<Rightarrow> (p, Inl Persist)
      | Some stored \<Rightarrow>
          if pr_is_super who
          then (let s = set_password_hashed salt stored kdf (ps_settings p)
                in case settings_save E s (p\<lparr>ps_settings := s\<rparr>) of
                     (p1, ok) \<Rightarrow> (p1, if ok then Inr () else Inl Persist))
          else users_update_record E (pr_username who)
            (\<lambda>u. u\<lparr>pu_pw_salt := salt, pu_pw_hash := stored, pu_pw_kdf := kdf\<rparr>) p)"

definition change_password :: "panel_env \<Rightarrow> principal \<Rightarrow> password_change \<Rightarrow> panel_state \<Rightarrow>
    panel_state \<times> (core_error + unit)" where
  "change_password E who ch p =
     (if \<not> valid_pw_format (ch_salt ch) (ch_hash ch) \<or> \<not> valid_pw_kdf (ch_kdf ch) then (p, Inl PasswordMalformed)
      else if ch_plaintext ch \<noteq> [] \<and> \<not> valid_os_secret (ch_plaintext ch) then (p, Inl PasswordMalformed)
      else (let current = current_verifier who p in
        case consume_challenge (pe_clock E) (ch_nonce ch) (ps_auth p) of
          (a, nonce_ok) \<Rightarrow>
            (let p1 = p\<lparr>ps_auth := a\<rparr> in
             if current = [] \<or> \<not> nonce_ok \<or> \<not> vd_ok (verify_verifier (pe_crypto E) current (ch_old_verifier ch))
             then (p1, Inl OldPasswordWrong)
             else (case save_password E who (ch_salt ch) (to_ascii_lowercase (ch_hash ch)) (ch_kdf ch) p1 of
                 (p2, Inl e) \<Rightarrow> (p2, Inl e)
               | (p2, Inr _) \<Rightarrow>
                   (let p3 = (case pr_system_user who of
                        Some sys \<Rightarrow> if ch_plaintext ch \<noteq> []
                          then p2\<lparr>ps_etc := fst (set_system_password (pe_os E) sys (ch_plaintext ch) (ps_etc p2))\<rparr>
                          else p2
                      | None \<Rightarrow> p2)
                    in (revoke_sessions E (pr_username who) (ch_keep_token ch) p3, Inr ()))))))"

definition read_totp :: "principal \<Rightarrow> panel_state \<Rightarrow> string" where
  "read_totp who p =
     (if pr_is_super who then ws_totp_secret (ps_settings p)
      else (case find_user p (pr_username who) of Some u \<Rightarrow> pu_totp_secret u | None \<Rightarrow> []))"

definition write_totp :: "panel_env \<Rightarrow> principal \<Rightarrow> string \<Rightarrow> bool \<Rightarrow> panel_state \<Rightarrow> panel_state \<times> (core_error + unit)" where
  "write_totp E who secret enabled p =
     (if pr_is_super who
      then (let s = (ps_settings p)\<lparr>ws_totp_secret := secret, ws_totp_enabled := enabled\<rparr>
            in case settings_save E s (p\<lparr>ps_settings := s\<rparr>) of
                 (p1, ok) \<Rightarrow> (p1, if ok then Inr () else Inl Persist))
      else users_update_record E (pr_username who)
        (\<lambda>u. u\<lparr>pu_totp_secret := secret, pu_totp_enabled := enabled\<rparr>) p)"

definition totp_check :: "panel_env \<Rightarrow> string \<Rightarrow> string \<Rightarrow> panel_state \<Rightarrow> panel_state \<times> bool" where
  "totp_check E secret code p =
     (case auth_verify_totp (pe_crypto E) (pe_clock E) secret code (ps_auth p) of
        (a, ok) \<Rightarrow> (p\<lparr>ps_auth := a\<rparr>, ok))"

definition enable_2fa :: "panel_env \<Rightarrow> principal \<Rightarrow> string \<Rightarrow> string option \<Rightarrow> panel_state \<Rightarrow>
    panel_state \<times> (core_error + unit)" where
  "enable_2fa E who code keep p =
     (let secret = read_totp who p in
      if secret = [] then (p, Inl TotpInvalid)
      else (case totp_check E secret code p of
        (p1, False) \<Rightarrow> (p1, Inl TotpInvalid)
      | (p1, True) \<Rightarrow>
          (case write_totp E who secret True p1 of
             (p2, Inl e) \<Rightarrow> (p2, Inl e)
           | (p2, Inr _) \<Rightarrow> (revoke_sessions E (pr_username who) keep p2, Inr ()))))"

definition disable_2fa :: "panel_env \<Rightarrow> principal \<Rightarrow> string \<Rightarrow> string option \<Rightarrow> panel_state \<Rightarrow>
    panel_state \<times> (core_error + unit)" where
  "disable_2fa E who code keep p =
     (let secret = read_totp who p in
      case (if secret \<noteq> [] then totp_check E secret code p else (p, True)) of
        (p1, False) \<Rightarrow> (p1, Inl TotpInvalid)
      | (p1, True) \<Rightarrow>
          (case write_totp E who [] False p1 of
             (p2, Inl e) \<Rightarrow> (p2, Inl e)
           | (p2, Inr _) \<Rightarrow> (revoke_sessions E (pr_username who) keep p2, Inr ())))"

section \<open>Requests of an account about itself\<close>

record profile_req =
  pf_full_name :: "string option"
  pf_nickname :: "string option"
  pf_avatar :: "string option"

definition avatar_ok :: "string \<Rightarrow> bool" where
  "avatar_ok av = (let t = trim av in (t = [] \<or> starts_with t ''data:image/'') \<and> length t \<le> 700000)"

definition put_profile :: "panel_env \<Rightarrow> header_map \<Rightarrow> profile_req \<Rightarrow> panel_state \<Rightarrow> unit reply" where
  "put_profile E headers req p =
     reply_then (current_account E headers p) (\<lambda>p a.
       if (case pf_avatar req of Some av \<Rightarrow> \<not> avatar_ok av | None \<Rightarrow> False)
       then (p, Inl (Code ''branding.logo_invalid''))
       else if ac_is_super a then
         (let s0 = ps_settings p;
              s1 = (case pf_full_name req of Some f \<Rightarrow> s0\<lparr>ws_full_name := clip f 64\<rparr> | None \<Rightarrow> s0);
              s2 = (case pf_nickname req of Some n \<Rightarrow> s1\<lparr>ws_nickname := clip n 40\<rparr> | None \<Rightarrow> s1);
              s3 = (case pf_avatar req of Some av \<Rightarrow> s2\<lparr>ws_avatar := av\<rparr> | None \<Rightarrow> s2)
          in case settings_save E s3 (p\<lparr>ps_settings := s3\<rparr>) of
               (p1, ok) \<Rightarrow> (p1, if ok then Inr () else Inl (Code ''common.save_failed'')))
       else reply_then (core_reply (users_update_record E (ac_username a) (\<lambda>u.
           let u1 = (case pf_full_name req of Some f \<Rightarrow> u\<lparr>pu_full_name := clip f 64\<rparr> | None \<Rightarrow> u);
               u2 = (case pf_nickname req of Some n \<Rightarrow> u1\<lparr>pu_nickname := clip n 40\<rparr> | None \<Rightarrow> u1)
           in (case pf_avatar req of Some av \<Rightarrow> u2\<lparr>pu_avatar := av\<rparr> | None \<Rightarrow> u2)) p))
         (\<lambda>p _. (case pf_full_name req of
             Some f \<Rightarrow> p\<lparr>ps_etc := fst (set_full_name (pe_os E) (ac_username a) (clip f 64) (ps_etc p))\<rparr>
           | None \<Rightarrow> p, Inr ())))"

definition put_password :: "panel_env \<Rightarrow> header_map \<Rightarrow> password_change \<Rightarrow> panel_state \<Rightarrow> unit reply" where
  "put_password E headers ch p =
     reply_then (current_account E headers p) (\<lambda>p a.
       core_reply (change_password E (to_principal a) (ch\<lparr>ch_keep_token := bearer (pe_http E) headers\<rparr>) p))"

text \<open>\<open>pe_fresh\<close> is the secret or token drawn by the request.\<close>

definition twofa_setup :: "panel_env \<Rightarrow> header_map \<Rightarrow> panel_state \<Rightarrow> string reply" where
  "twofa_setup E headers p =
     reply_then (current_account E headers p) (\<lambda>p a.
       if ac_totp_enabled a then (p, Inl (Code ''auth.2fa_already_on''))
       else (case write_totp E (to_principal a) (pe_fresh E) False p of
               (p1, Inl _) \<Rightarrow> (p1, Inl (Code ''common.save_failed''))
             | (p1, Inr _) \<Rightarrow> (p1, Inr (pe_fresh E))))"

definition twofa_enable :: "panel_env \<Rightarrow> header_map \<Rightarrow> string \<Rightarrow> panel_state \<Rightarrow> unit reply" where
  "twofa_enable E headers code p =
     reply_then (current_account E headers p) (\<lambda>p a.
       core_reply (enable_2fa E (to_principal a) code (bearer (pe_http E) headers) p))"

definition twofa_disable :: "panel_env \<Rightarrow> header_map \<Rightarrow> string \<Rightarrow> panel_state \<Rightarrow> unit reply" where
  "twofa_disable E headers code p =
     reply_then (current_account E headers p) (\<lambda>p a.
       core_reply (disable_2fa E (to_principal a) code (bearer (pe_http E) headers) p))"

section \<open>The owner's settings\<close>

record settings_req =
  sq_username :: "string option"
  sq_pw_salt :: "string option"
  sq_pw_hash :: "string option"
  sq_pw_kdf :: "string option"
  sq_pw_check :: "string option"
  sq_session_timeout :: "nat option"
  sq_allow_ips :: "string list option"
  sq_trusted_proxies :: "string list option"
  sq_entry_path :: "string option"

record settings_outcome =
  so_new_ttl :: "nat option"
  so_password_changed :: bool

text \<open>The updates are made in place: what an error leaves behind is returned with it.\<close>

definition apply_password_change :: "panel_env \<Rightarrow> settings_req \<Rightarrow> web_settings \<Rightarrow> web_settings \<times> (api_error + bool)" where
  "apply_password_change E req s =
     (if sq_pw_salt req = None \<and> sq_pw_hash req = None then (s, Inr False)
      else (let salt = opt_or (sq_pw_salt req) []; hash = opt_or (sq_pw_hash req) [];
                chk = opt_or (sq_pw_check req) []; kdf = opt_or (sq_pw_kdf req) [] in
        if \<not> valid_pw_format salt hash then (s, Inl (Core PasswordMalformed))
        else if ws_pw_default s \<and> (chk = [] \<or> vd_ok (verify_verifier (pe_crypto E) (ws_pw_hash s) chk))
        then (s, Inl (Core PasswordIsDefault))
        else if \<not> valid_pw_kdf kdf then (s, Inl (Core PasswordMalformed))
        else (case cr_argon_hash (pe_crypto E) (to_ascii_lowercase hash) of
                None \<Rightarrow> (s, Inl (Core Persist))
              | Some stored \<Rightarrow> (set_password_hashed salt stored kdf s, Inr True))))"

definition owner_name_ok :: "string \<Rightarrow> bool" where
  "owner_name_ok un \<longleftrightarrow> 2 \<le> length un \<and> length un \<le> 32 \<and>
     list_all (\<lambda>c. is_ascii_alphanumeric c \<or> c = CHR ''_'' \<or> c = CHR ''-'') un"

definition set_list :: "string list option \<Rightarrow> (string list \<Rightarrow> web_settings \<Rightarrow> web_settings) \<Rightarrow> web_settings \<Rightarrow>
    web_settings \<times> (api_error + unit)" where
  "set_list ips upd s =
     (case ips of
        None \<Rightarrow> (s, Inr ())
      | Some xs \<Rightarrow> (case normalize_allow_ips xs of
            Some l \<Rightarrow> (upd l s, Inr ())
          | None \<Rightarrow> (s, Inl (Code ''settings.bad_allow_ip''))))"

definition apply_access_fields :: "settings_req \<Rightarrow> web_settings \<Rightarrow> web_settings \<times> (api_error + unit)" where
  "apply_access_fields req s =
     (case set_list (sq_allow_ips req) (\<lambda>l s. s\<lparr>ws_allow_ips := l\<rparr>) s of
        (s1, Inl e) \<Rightarrow> (s1, Inl e)
      | (s1, Inr _) \<Rightarrow>
     (case set_list (sq_trusted_proxies req) (\<lambda>l s. s\<lparr>ws_trusted_proxies := l\<rparr>) s1 of
        (s2, Inl e) \<Rightarrow> (s2, Inl e)
      | (s2, Inr _) \<Rightarrow>
     (case sq_entry_path req of
        None \<Rightarrow> (s2, Inr ())
      | Some ep \<Rightarrow> (case normalize_entry_path ep of
            Some q \<Rightarrow> (s2\<lparr>ws_entry_path := q\<rparr>, Inr ())
          | None \<Rightarrow> (s2, Inl (Code ''settings.bad_entry_path''))))))"

definition apply_rest :: "settings_req \<Rightarrow> bool \<Rightarrow> web_settings \<Rightarrow> web_settings \<times> (api_error + settings_outcome)" where
  "apply_rest req changed s =
     (if (case sq_session_timeout req of Some t \<Rightarrow> \<not> (1 \<le> t \<and> t \<le> 43200) | None \<Rightarrow> False)
      then (s, Inl (Code ''settings.timeout_range''))
      else (let s1 = (case sq_session_timeout req of Some t \<Rightarrow> s\<lparr>ws_session_timeout := t\<rparr> | None \<Rightarrow> s)
            in case apply_access_fields req s1 of
                 (s2, Inl e) \<Rightarrow> (s2, Inl e)
               | (s2, Inr _) \<Rightarrow> (s2, Inr \<lparr>so_new_ttl = map_option (\<lambda>t. max t 1 * 60) (sq_session_timeout req),
                   so_password_changed = changed\<rparr>)))"

definition apply_settings_update :: "panel_env \<Rightarrow> settings_req \<Rightarrow> web_settings \<Rightarrow>
    web_settings \<times> (api_error + settings_outcome)" where
  "apply_settings_update E req s =
     (case apply_password_change E req s of
        (s1, Inl e) \<Rightarrow> (s1, Inl e)
      | (s1, Inr changed) \<Rightarrow>
     (case map_option trim (sq_username req) of
        Some un \<Rightarrow>
          if \<not> owner_name_ok un then (s1, Inl (Code ''settings.username_format''))
          else if eq_ignore_ascii_case un ''admin'' then (s1, Inl (Code ''settings.username_reserved''))
          else apply_rest req changed (s1\<lparr>ws_username := un\<rparr>)
      | None \<Rightarrow> apply_rest req changed s1))"

definition put_settings :: "panel_env \<Rightarrow> header_map \<Rightarrow> settings_req \<Rightarrow> panel_state \<Rightarrow> unit reply" where
  "put_settings E headers req p =
     reply_then (require_super E headers p) (\<lambda>p acct.
     reply_then (if ws_pw_default (ps_settings p) then (p, Inr ()) else require_stepup E headers (ac_username acct) p)
       (\<lambda>p _. case apply_settings_update E req (ps_settings p) of
          (s, Inl e) \<Rightarrow> (p\<lparr>ps_settings := s\<rparr>, Inl e)
        | (s, Inr out) \<Rightarrow>
            (let p1 = p\<lparr>ps_settings := s\<rparr>;
                 p2 = (case so_new_ttl out of Some secs \<Rightarrow> p1\<lparr>ps_auth := auth_set_ttl_secs secs (ps_auth p1)\<rparr> | None \<Rightarrow> p1)
             in case settings_save E s p2 of
                  (p3, False) \<Rightarrow> (p3, Inl (Code ''common.save_failed''))
                | (p3, True) \<Rightarrow>
                    (if so_password_changed out
                     then revoke_sessions E (ac_username acct) (bearer (pe_http E) headers) p3 else p3, Inr ()))))"

text \<open>The last step of the first-run wizard.\<close>

record step2_req =
  s2_username :: string
  s2_pw_salt :: string
  s2_pw_hash :: string
  s2_pw_kdf :: string

definition init_step2 :: "panel_env \<Rightarrow> step2_req \<Rightarrow> panel_state \<Rightarrow> unit reply" where
  "init_step2 E req p =
     (let s = ps_settings p; un = trim (s2_username req) in
      if ws_initialized s then (p, Inl (Code ''already initialized''))
      else if trim (ws_external_address s) = [] then (p, Inl (Code ''complete step 1 first''))
      else if \<not> valid_username un then (p, Inl (Code ''invalid username''))
      else if \<not> valid_pw_format (s2_pw_salt req) (s2_pw_hash req) \<or> \<not> valid_pw_kdf (s2_pw_kdf req)
      then (p, Inl (Code ''invalid password format''))
      else (case cr_argon_hash (pe_crypto E) (to_ascii_lowercase (s2_pw_hash req)) of
              None \<Rightarrow> (p, Inl (Code ''password hashing failed''))
            | Some stored \<Rightarrow>
                (let s1 = (set_password_hashed (s2_pw_salt req) stored (s2_pw_kdf req) (s\<lparr>ws_username := un\<rparr>))
                       \<lparr>ws_initialized := True, ws_init_token := []\<rparr>
                 in case settings_save E s1 (p\<lparr>ps_settings := s1\<rparr>) of
                      (p1, ok) \<Rightarrow> (p1, if ok then Inr () else Inl (Code ''save failed'')))))"

section \<open>Login requests\<close>

text \<open>The account a login names: no account has an empty credential.\<close>

definition resolve_login_account :: "panel_state \<Rightarrow> string \<Rightarrow> login_creds" where
  "resolve_login_account p username =
     (let su = ps_settings p
      in if username = ws_username su
         then \<lparr>lc_exp_hash = ws_pw_hash su, lc_totp_secret = ws_totp_secret su, lc_totp_enabled = ws_totp_enabled su,
                lc_must_setup = (ws_pw_default su \<or> eq_ignore_ascii_case (ws_username su) ''admin'')\<rparr>
         else (case find_user p username of
             Some u \<Rightarrow> \<lparr>lc_exp_hash = pu_pw_hash u, lc_totp_secret = pu_totp_secret u,
               lc_totp_enabled = pu_totp_enabled u, lc_must_setup = False\<rparr>
           | None \<Rightarrow> \<lparr>lc_exp_hash = [], lc_totp_secret = [], lc_totp_enabled = False, lc_must_setup = False\<rparr>))"

definition still_legacy :: "string \<Rightarrow> string \<Rightarrow> bool" where
  "still_legacy verifier stored \<longleftrightarrow> \<not> starts_with stored ''$argon2'' \<and> password_matches stored verifier"

definition migrate_stored_hash :: "panel_env \<Rightarrow> string \<Rightarrow> string \<Rightarrow> string \<Rightarrow> panel_state \<Rightarrow> panel_state" where
  "migrate_stored_hash E username verifier new_hash p =
     (if username = ws_username (ps_settings p) then
        (if still_legacy verifier (ws_pw_hash (ps_settings p))
         then (let s = (ps_settings p)\<lparr>ws_pw_hash := new_hash\<rparr> in fst (settings_save E s (p\<lparr>ps_settings := s\<rparr>)))
         else p)
      else fst (users_update_record E username
        (\<lambda>u. if still_legacy verifier (pu_pw_hash u) then u\<lparr>pu_pw_hash := new_hash\<rparr> else u) p))"

text \<open>\<open>source\<close> is the client address as text; \<open>pe_fresh\<close> is the token an accepted login issues.\<close>

definition login_request :: "panel_env \<Rightarrow> string \<Rightarrow> login_attempt \<Rightarrow> panel_state \<Rightarrow> panel_state \<times> login_outcome" where
  "login_request E source att p =
     (case verify_login (pe_crypto E) (pe_clock E) (pe_fresh E) (ps_auth p)
             (resolve_login_account p (la_username att)) (att\<lparr>la_source := source\<rparr>) of
        (a, out) \<Rightarrow>
          (let p1 = p\<lparr>ps_auth := a\<rparr>
           in (case out of
                 LoginOk _ _ (Some h) \<Rightarrow> migrate_stored_hash E (la_username att) (la_verifier att) h p1
               | _ \<Rightarrow> p1, out)))"

definition logout :: "panel_env \<Rightarrow> header_map \<Rightarrow> panel_state \<Rightarrow> panel_state" where
  "logout E headers p =
     (let p1 = fst (current_account E headers p)
      in case bearer (pe_http E) headers of
           Some t \<Rightarrow> p1\<lparr>ps_auth := auth_revoke (pe_crypto E) t (ps_auth p1)\<rparr>
         | None \<Rightarrow> p1)"

definition mint_ticket :: "panel_env \<Rightarrow> header_map \<Rightarrow> string \<Rightarrow> panel_state \<Rightarrow> string reply" where
  "mint_ticket E headers purpose p =
     reply_then (current_account E headers p) (\<lambda>p a.
       if purpose \<noteq> ''terminal'' \<and> purpose \<noteq> ''download'' then (p, Inl (Code ''auth.bad_request''))
       else (p\<lparr>ps_auth := auth_issue_ticket (pe_clock E) (pe_fresh E) (ac_username a) purpose (ps_auth p)\<rparr>,
             Inr (pe_fresh E)))"

definition stepup :: "panel_env \<Rightarrow> header_map \<Rightarrow> string \<Rightarrow> string \<Rightarrow> string \<Rightarrow> string \<Rightarrow> panel_state \<Rightarrow>
    (string option) reply" where
  "stepup E headers source nonce verifier code p =
     reply_then (current_account E headers p) (\<lambda>p a.
      (let la = resolve_login_account p (ac_username a) in
       case verify_reauth (pe_crypto E) (pe_clock E) (ps_auth p)
           \<lparr>rc_exp_hash = lc_exp_hash la, rc_totp_secret = lc_totp_secret la, rc_totp_enabled = lc_totp_enabled la\<rparr>
           source nonce verifier code of
         (s, ReRateLimited) \<Rightarrow> (p\<lparr>ps_auth := s\<rparr>, Inl (Code ''auth.rate_limited''))
       | (s, ReBadCredentials) \<Rightarrow> (p\<lparr>ps_auth := s\<rparr>, Inl (Code ''auth.bad_credentials''))
       | (s, ReNeedTotp) \<Rightarrow> (p\<lparr>ps_auth := s\<rparr>, Inr None)
       | (s, ReBadTotp) \<Rightarrow> (p\<lparr>ps_auth := s\<rparr>, Inl (Code ''auth.bad_totp''))
       | (s, ReOk) \<Rightarrow> (p\<lparr>ps_auth := auth_issue_stepup (pe_clock E) (pe_fresh E) (ac_username a) s\<rparr>,
             Inr (Some (pe_fresh E)))))"

end
