(* ===== verification/Accounts_Proofs.thy ===== *)
theory Accounts_Proofs
  imports Accounts
begin

text \<open>
  What the account requests keep: privilege is only handed downwards, records stay well formed,
  a second factor goes only with a code, a credential change ends the other sessions, a created
  user can log in; and where the code breaks its own rules.
\<close>

section \<open>Frames\<close>

lemma reply_then_simps [simp]:
  "reply_then (p, Inl e) f = (p, Inl e)" "reply_then (p, Inr x) f = f p x"
  by (simp_all add: reply_then_def)

lemma reply_then_Inr: "reply_then r f = (p', Inr y) \<longleftrightarrow> (\<exists>q x. r = (q, Inr x) \<and> f q x = (p', Inr y))"
  by (auto simp: reply_then_def split: prod.splits sum.splits)

lemma core_reply_simps [simp]:
  "core_reply (p, Inl e) = (p, Inl (Core e))" "core_reply (p, Inr x) = (p, Inr x)"
  by (simp_all add: core_reply_def)

text \<open>Authentication touches the sessions only.\<close>

definition same_but_auth :: "panel_state \<Rightarrow> panel_state \<Rightarrow> bool" where
  "same_but_auth p q \<longleftrightarrow> (\<exists>a. q = p\<lparr>ps_auth := a\<rparr>)"

lemma same_but_auth_refl [simp]: "same_but_auth p p"
  unfolding same_but_auth_def by (rule exI [of _ "ps_auth p"]) simp

lemma same_but_auth_upd [simp]: "same_but_auth p (p\<lparr>ps_auth := a\<rparr>)"
  by (auto simp: same_but_auth_def)

lemma same_but_auth_trans: "same_but_auth p q \<Longrightarrow> same_but_auth q r \<Longrightarrow> same_but_auth p r"
  by (auto simp: same_but_auth_def)

lemma same_but_auth_fields:
  "same_but_auth p q \<Longrightarrow> ps_users q = ps_users p \<and> ps_settings q = ps_settings p \<and> ps_etc q = ps_etc p \<and>
    ps_web_file q = ps_web_file p"
  by (auto simp: same_but_auth_def)

lemma users_load_auth [simp]: "users_load (p\<lparr>ps_auth := a\<rparr>) = users_load p"
  "users_load (p\<lparr>ps_etc := e\<rparr>) = users_load p" "users_load (p\<lparr>ps_settings := s\<rparr>) = users_load p"
  "users_load (p\<lparr>ps_web_file := w\<rparr>) = users_load p"
  by (simp_all add: users_load_def)

lemma find_user_auth [simp]: "find_user (p\<lparr>ps_auth := a\<rparr>) u = find_user p u"
  "find_user (p\<lparr>ps_etc := e\<rparr>) u = find_user p u" "find_user (p\<lparr>ps_settings := s\<rparr>) u = find_user p u"
  "find_user (p\<lparr>ps_web_file := w\<rparr>) u = find_user p u"
  by (simp_all add: find_user_def)

lemma same_but_auth_users: "same_but_auth p q \<Longrightarrow> users_load q = users_load p \<and> find_user q u = find_user p u"
  by (auto simp: same_but_auth_def)

lemma authed_user_same: "same_but_auth p (fst (authed_user E h p))"
  by (auto simp: authed_user_def Let_def split: prod.split)

lemma current_account_same: "same_but_auth p (fst (current_account E h p))"
  using authed_user_same [of p E h]
  by (auto simp: current_account_def split: prod.split option.split)

lemma require_same: "same_but_auth p (fst (require_admin E h p))" "same_but_auth p (fst (require_super E h p))"
  using current_account_same [of p E h]
  by (auto simp: require_admin_def require_super_def reply_then_def split: prod.split sum.split)

lemma require_stepup_same: "same_but_auth p (fst (require_stepup E h a p))"
  by (simp add: require_stepup_def split: prod.split)

section \<open>The users store\<close>

lemma users_mutate_cases:
  assumes "users_mutate E f p = (p', r)"
  obtains (kept) "users_load p' = users_load p" "r \<noteq> Inr ()"
      "p' = p \<or> ps_users p = Unparsable \<and> p' = p\<lparr>ps_users := Missing\<rparr>"
  | (saved) us where "f (users_load p) = Inr us" "p' = p\<lparr>ps_users := Parsed us\<rparr>" "r = Inr ()" "ps_users p \<noteq> Unparsable"
proof -
  obtain m v where m: "load_strict_m Persist (ps_users p) = (m, v)" by (cases "load_strict_m Persist (ps_users p)")
  show ?thesis
  proof (cases v)
    case (Inl e)
    with m have "ps_users p = Unparsable" "m = Missing" by (auto dest: load_strict_Inl)
    with m Inl assms show ?thesis by (intro kept) (auto simp: users_mutate_def users_load_def)
  next
    case (Inr x)
    with m have "m = ps_users p" "ps_users p \<noteq> Unparsable" "opt_or x [] = users_load p"
      using load_strict_Inr [of Persist "ps_users p" m x "[]"] by (auto simp: users_load_def)
    with m Inr assms kept saved show ?thesis
      by (auto simp: users_mutate_def split: sum.splits if_splits)
  qed
qed

lemma users_mutate_frame:
  assumes "users_mutate E f p = (p', r)"
  shows "ps_settings p' = ps_settings p" and "ps_etc p' = ps_etc p" and "ps_auth p' = ps_auth p"
    and "ps_web_file p' = ps_web_file p"
  using assms by (auto elim!: users_mutate_cases)

lemma update_first_find:
  assumes "update_first n f us = Inr vs" and "\<And>x. pu_username (f x) = pu_username x"
  shows "find (\<lambda>x. pu_username x = u) vs =
    (if u = n then map_option f (find (\<lambda>x. pu_username x = n) us) else find (\<lambda>x. pu_username x = u) us)"
  using assms by (induction us arbitrary: vs) (auto split: sum.splits if_splits)

lemma update_first_map:
  assumes "update_first n f us = Inr vs" and "\<And>x. pu_username (f x) = pu_username x"
  shows "map pu_username vs = map pu_username us \<and> (\<forall>v \<in> set vs. v \<in> set us \<or> (\<exists>x \<in> set us. v = f x \<and> pu_username x = n))"
  using assms by (induction us arbitrary: vs) (fastforce split: sum.splits if_splits)+

lemma find_filter_name:
  "find (\<lambda>x. pu_username x = u) (filter (\<lambda>x. pu_username x \<noteq> n) us)
    = (if u = n then None else find (\<lambda>x. pu_username x = u) us)"
  by (induction us) auto

lemma find_append: "find P (xs @ ys) = (case find P xs of Some x \<Rightarrow> Some x | None \<Rightarrow> find P ys)"
  by (induction xs) auto

lemma create_with_settings: "create_with E req p = (p', r) \<Longrightarrow> ps_settings p' = ps_settings p"
  and delete_with_settings: "delete_with E n p = (p', r') \<Longrightarrow> ps_settings p' = ps_settings p"
  by (auto simp: create_with_def create_record_def delete_with_def Let_def dest: users_mutate_frame(1)
      split: sum.splits prod.splits option.splits if_splits)

section \<open>Privilege\<close>

text \<open>An effect on the record of \<open>u\<close>: what was there and what is there then.\<close>

definition touches :: "panel_state \<Rightarrow> panel_state \<Rightarrow> string \<Rightarrow> panel_user \<Rightarrow> bool" where
  "touches p p' u x \<longleftrightarrow> find_user p' u \<noteq> find_user p u \<and> (find_user p u = Some x \<or> find_user p' u = Some x)"

lemma users_update_record_touch:
  assumes "users_update_record E n f p = (p', r)" and "\<And>x. pu_username (f x) = pu_username x"
    and "find_user p' u \<noteq> find_user p u"
  shows "u = n \<and> (\<exists>x. find_user p n = Some x \<and> find_user p' n = Some (f x))"
  using assms(1)
  unfolding users_update_record_def
proof (cases rule: users_mutate_cases)
  case kept
  with assms(3) show ?thesis by (auto simp: find_user_def)
next
  case (saved us)
  from update_first_find [OF saved(1) assms(2)] saved(2)
  have f: "find_user p' v = (if v = n then map_option f (find_user p n) else find_user p v)" for v
    by (simp add: find_user_def users_load_def)
  with assms(3) have "u = n" by (auto split: if_splits)
  with f assms(3) show ?thesis by (cases "find_user p n") auto
qed

lemma create_with_touch:
  assumes "create_with E req p = (p', r)" and "find_user p' u \<noteq> find_user p u"
  shows "u = nu_username req \<and> find_user p u = None \<and>
    (\<exists>x. find_user p' u = Some x \<and> pu_role x = nu_role req)"
proof -
  obtain etc r1 where pr: "provision (pe_os E) (users_load p) (nu_username req) (nu_full_name req)
      (nu_role req = ''admin'') (nu_password req) (ps_etc p) = (etc, r1)"
    by (cases "provision (pe_os E) (users_load p) (nu_username req) (nu_full_name req)
      (nu_role req = ''admin'') (nu_password req) (ps_etc p)")
  obtain p1 r2 where cr: "create_record E req (p\<lparr>ps_etc := etc\<rparr>) = (p1, r2)"
    by (cases "create_record E req (p\<lparr>ps_etc := etc\<rparr>)")
  from assms pr cr have p1: "find_user p1 u \<noteq> find_user p u" "find_user p' u = find_user p1 u"
    "find_user p (nu_username req) = None"
    by (auto simp: create_with_def split: sum.splits if_splits)
  from cr p1 obtain f q where m: "users_mutate E f (p\<lparr>ps_etc := etc\<rparr>) = (p1, q)"
    and f: "\<And>us vs. f us = Inr vs \<Longrightarrow> \<exists>x. vs = us @ [x] \<and> pu_username x = nu_username req \<and> pu_role x = nu_role req"
    by (fastforce simp: create_record_def Let_def split: option.splits prod.splits sum.splits if_splits)
  from m show ?thesis
  proof (cases rule: users_mutate_cases)
    case kept
    with p1 show ?thesis by (simp add: find_user_def)
  next
    case (saved us)
    from f [OF saved(1)] obtain x where "us = users_load p @ [x]" "pu_username x = nu_username req"
      "pu_role x = nu_role req" by auto
    with p1 saved(2) show ?thesis
      by (auto simp: find_user_def users_load_def find_append split: option.splits if_splits)
  qed
qed

lemma delete_with_touch:
  assumes "delete_with E n p = (p', r)" and "find_user p' u \<noteq> find_user p u"
  shows "u = n \<and> find_user p' u = None"
proof -
  from assms obtain etc where
    "users_mutate E (\<lambda>us. Inr (filter (\<lambda>u. pu_username u \<noteq> n) us)) (p\<lparr>ps_etc := etc\<rparr>) = (p', r)"
    by (auto simp: delete_with_def split: if_splits prod.splits sum.splits)
  then show ?thesis
  proof (cases rule: users_mutate_cases)
    case kept
    with assms(2) show ?thesis by (simp add: find_user_def)
  next
    case (saved us)
    with assms(2) show ?thesis by (auto simp: find_user_def users_load_def find_filter_name split: if_splits)
  qed
qed

text \<open>Privilege is only handed downwards: whatever a request to create, change or delete a user
  does, it does so only to records strictly below the level of the account that asks, before and
  after; it never touches the owner's settings.\<close>

lemma apply_user_update_name: "pu_username (apply_user_update req pw x) = pu_username x"
  by (auto simp: apply_user_update_def Let_def split: option.splits)

lemma apply_user_update_role: "pu_role (apply_user_update req pw x) = opt_or (ur_role req) (pu_role x)"
  by (auto simp: apply_user_update_def Let_def opt_or_def split: option.splits)

lemma update_effects_frame:
  "ps_users (fst (update_effects E req pw t p)) = ps_users p \<and> ps_settings (fst (update_effects E req pw t p)) = ps_settings p"
  by (auto simp: update_effects_def reply_then_def os_reply_def revoke_sessions_def Let_def
      split: prod.splits sum.splits option.splits)

lemma users_update_run:
  assumes "users_update E h req p = (p', r)"
  obtains (refused) "same_but_auth p p'"
  | (through) q a t pw p1 where "require_admin E h p = (q, Inr a)" "find_user q (ur_username req) = Some t"
      "can_manage (account_level a) (role_level (pu_role t))" "validate_role_change req (account_level a) = Inr ()"
      "parse_pw_update E req = Inr pw"
      "fst (users_update_record E (ur_username req) (apply_user_update req pw) q) = p1"
      "p' = p1 \<or> p' = fst (update_effects E req pw t p1)"
proof -
  obtain q x where q: "require_admin E h p = (q, x)" by (cases "require_admin E h p")
  with require_same(1) [of p E h] have s: "same_but_auth p q" by simp
  show ?thesis
  proof (cases x)
    case (Inl e)
    with q assms s show ?thesis by (intro refused) (simp add: users_update_def)
  next
    case (Inr a)
    show ?thesis
    proof (cases "find_user q (ur_username req)")
      case None
      with q Inr assms s show ?thesis by (intro refused) (simp add: users_update_def)
    next
      case (Some t)
      note def = users_update_def [of E h req p, unfolded q Inr reply_then_simps, unfolded Some option.case]
      consider "\<not> can_manage (account_level a) (role_level (pu_role t)) \<or> (\<exists>e. validate_role_change req (account_level a) = Inl e)
          \<or> (\<exists>e. parse_pw_update E req = Inl e)"
        | pw where "can_manage (account_level a) (role_level (pu_role t))"
            "validate_role_change req (account_level a) = Inr ()" "parse_pw_update E req = Inr pw"
        by (cases "validate_role_change req (account_level a)"; cases "parse_pw_update E req") auto
      then show ?thesis
      proof cases
        case 1
        with def assms s show ?thesis by (intro refused) (auto split: if_splits sum.splits)
      next
        case (2 pw)
        obtain p1 y where u: "users_update_record E (ur_username req) (apply_user_update req pw) q = (p1, y)"
          by (cases "users_update_record E (ur_username req) (apply_user_update req pw) q")
        from 2 def assms u have "p' = p1 \<or> p' = fst (update_effects E req pw t p1)"
          by (cases y) (auto, metis fst_conv)
        with through [OF q [unfolded Inr] Some 2] u show ?thesis by simp
      qed
    qed
  qed
qed

text \<open>C10: no privilege escalation: a request of the user manager leaves the owner's settings alone, and
  a user whose record it creates, changes or removes has, before and after, a role strictly below
  that of the authenticated caller.\<close>

theorem no_privilege_escalation:
  assumes "p' \<in> {fst (users_create E h cr p), fst (users_update E h up p), fst (users_delete E h n p)}"
  shows "ps_settings p' = ps_settings p \<and>
    (\<forall>u x. touches p p' u x \<longrightarrow> (\<exists>q a. require_admin E h p = (q, Inr a) \<and> role_level (pu_role x) < account_level a))"
proof -
  obtain q r where q: "require_admin E h p = (q, r)" by (cases "require_admin E h p")
  from require_same(1) [of p E h] q have s: "same_but_auth p q" by simp
  note F = same_but_auth_fields [OF s] same_but_auth_users [OF s]
  show ?thesis
  proof (cases r)
    case (Inl e)
    with q assms F show ?thesis
      by (auto simp: users_create_def users_update_def users_delete_def touches_def)
  next
    case (Inr a)
    from assms consider (create) "p' = fst (users_create E h cr p)" | (update) "p' = fst (users_update E h up p)"
      | (delete) "p' = fst (users_delete E h n p)" by blast
    then show ?thesis
    proof cases
      case create
      let ?req = "cr\<lparr>nu_full_name := trim (nu_full_name cr)\<rparr>"
      obtain p1 y where c: "create_with E ?req q = (p1, y)" by (cases "create_with E ?req q")
      have set: "ps_settings p1 = ps_settings q" using c by (rule create_with_settings)
      show ?thesis
      proof (cases "valid_role (nu_role cr) \<and> can_manage (account_level a) (role_level (nu_role cr)) \<and>
          nu_username cr \<noteq> ws_username (ps_settings q)")
        case True
        then have "p' = p1" using create q Inr c by (cases y) (auto simp: users_create_def)
        with create_with_touch [OF c] set F True show ?thesis
          by (fastforce simp: touches_def q Inr dest: can_manage_level)
      next
        case False
        with create q Inr F show ?thesis by (auto simp: users_create_def touches_def)
      qed
    next
      case delete
      obtain p1 y where c: "delete_with E n q = (p1, y)" by (cases "delete_with E n q")
      have set: "ps_settings p1 = ps_settings q" using c by (rule delete_with_settings)
      show ?thesis
      proof (cases "case find_user q n of Some t \<Rightarrow> \<not> can_manage (account_level a) (role_level (pu_role t)) | None \<Rightarrow> False")
        case True
        with delete q Inr F show ?thesis by (simp add: users_delete_def touches_def)
      next
        case False
        then have "p' = p1 \<or> p' = revoke_sessions E n None p1"
          using delete q Inr c by (cases y) (auto simp: users_delete_def)
        then have "find_user p' u = find_user p1 u" "ps_settings p' = ps_settings p1" for u
          by (auto simp: revoke_sessions_def)
        with delete_with_touch [OF c] set F False show ?thesis
          by (fastforce simp: touches_def q Inr dest: can_manage_level split: option.splits)
      qed
    next
      case update
      then obtain y where "users_update E h up p = (p', y)" by (cases "users_update E h up p") auto
      then show ?thesis
      proof (cases rule: users_update_run)
        case refused
        then show ?thesis by (simp add: touches_def same_but_auth_fields same_but_auth_users)
      next
        case (through q' a' t pw p1)
        then have q': "q' = q" "a' = a" using q Inr by auto
        obtain z where c: "users_update_record E (ur_username up) (apply_user_update up pw) q = (p1, z)"
          using through q' by (cases "users_update_record E (ur_username up) (apply_user_update up pw) q") auto
        have set: "ps_settings p1 = ps_settings q"
          using users_mutate_frame(1) [OF c [unfolded users_update_record_def]] .
        have p1: "find_user p' u = find_user p1 u" "ps_settings p' = ps_settings p1" for u
          using through(7) update_effects_frame [of E up pw t p1] by (auto simp: find_user_def users_load_def)
        have "role_level (opt_or (ur_role up) (pu_role t)) < account_level a"
          using through(3,4) q' by (auto simp: validate_role_change_def opt_or_def can_manage_def split: option.splits if_splits)
        with users_update_record_touch [OF c apply_user_update_name] p1 set F through(2,3) q' show ?thesis
          by (fastforce simp: touches_def q Inr apply_user_update_role dest: can_manage_level)
      qed
    qed
  qed
qed

section \<open>Requests as steps\<close>

inductive account_step :: "panel_env \<Rightarrow> panel_state \<Rightarrow> panel_state \<Rightarrow> bool" for E where
  create: "account_step E p (fst (users_create E h cr p))"
| update: "account_step E p (fst (users_update E h up p))"
| delete: "account_step E p (fst (users_delete E h n p))"
| profile: "account_step E p (fst (put_profile E h pf p))"
| password: "account_step E p (fst (put_password E h ch p))"
| enrol: "account_step E p (fst (twofa_setup E h p))"
| enable: "account_step E p (fst (twofa_enable E h code p))"
| disable: "account_step E p (fst (twofa_disable E h code p))"
| settings: "account_step E p (fst (put_settings E h sq p))"
| init: "account_step E p (fst (init_step2 E s2 p))"
| login: "account_step E p (fst (login_request E source att p))"
| logout: "account_step E p (logout E h p)"
| ticket: "account_step E p (fst (mint_ticket E h purpose p))"
| stepup: "account_step E p (fst (stepup E h source nonce v code p))"

inductive account_runs :: "panel_state \<Rightarrow> panel_state \<Rightarrow> bool" where
  start: "account_runs p p"
| step: "account_runs p q \<Longrightarrow> account_step E q r \<Longrightarrow> account_runs p r"

text \<open>Edits of one record that leave its name and second factor alone and its role a role.\<close>

definition benign :: "(panel_user \<Rightarrow> panel_user) \<Rightarrow> bool" where
  "benign f \<longleftrightarrow> (\<forall>x. pu_username (f x) = pu_username x \<and> pu_totp_enabled (f x) = pu_totp_enabled x \<and>
     pu_totp_secret (f x) = pu_totp_secret x \<and> (valid_role (pu_role x) \<longrightarrow> valid_role (pu_role (f x))))"

definition edits :: "string \<Rightarrow> (panel_user \<Rightarrow> panel_user) \<Rightarrow> panel_state \<Rightarrow> panel_state \<Rightarrow> bool" where
  "edits n f p p' \<longleftrightarrow> users_load p' = users_load p \<or> update_first n f (users_load p) = Inr (users_load p')"

definition benign_step :: "panel_state \<Rightarrow> panel_state \<Rightarrow> bool" where
  "benign_step p p' \<longleftrightarrow> (\<exists>n f. benign f \<and> edits n f p p')"

lemma edits_record: "users_update_record E n f p = (p', r) \<Longrightarrow> edits n f p p'"
  unfolding users_update_record_def edits_def
  by (erule users_mutate_cases) (auto simp: users_load_def)

lemma benign_same: "users_load p' = users_load p \<Longrightarrow> benign_step p p'"
  unfolding benign_step_def edits_def by (intro exI [of _ "[]"] exI [of _ "\<lambda>x. x"]) (simp add: benign_def)

lemma benign_record: "benign f \<Longrightarrow> benign_step p (fst (users_update_record E n f p))"
  unfolding benign_step_def using edits_record [of E n f p] by (metis surjective_pairing)

lemma benign_frame:
  "benign_step p p1 \<Longrightarrow> users_load q = users_load p \<Longrightarrow> users_load p' = users_load p1 \<Longrightarrow> benign_step q p'"
  by (simp add: benign_step_def edits_def)

lemma users_load_frames [simp]:
  "users_load (revoke_sessions E u k p) = users_load p"
  "users_load (fst (settings_save E s p)) = users_load p"
  "users_load (fst (os_reply p r)) = users_load p"
  "users_load (fst (totp_check E sec code p)) = users_load p"
  "users_load (fst (update_effects E req pw t p)) = users_load p"
  using update_effects_frame [of E req pw t p]
  by (auto simp: revoke_sessions_def settings_save_def os_reply_def totp_check_def users_load_def
      split: prod.splits sum.splits)

lemma edits_frame: "edits n f p p1 \<Longrightarrow> users_load q = users_load p \<Longrightarrow> users_load p' = users_load p1 \<Longrightarrow> edits n f q p'"
  by (simp add: edits_def)

lemma current_account_users: "current_account E h p = (q, r) \<Longrightarrow> users_load q = users_load p"
  using same_but_auth_users [OF current_account_same [of p E h]] by simp

lemma require_super_users: "require_super E h p = (q, r) \<Longrightarrow> users_load q = users_load p"
  using same_but_auth_users [OF require_same(2) [of p E h]] by simp

lemma reply_then_users:
  assumes "users_load (fst r) = users_load p" and "\<And>q x. r = (q, Inr x) \<Longrightarrow> users_load (fst (f q x)) = users_load q"
  shows "users_load (fst (reply_then r f)) = users_load p"
  using assms by (cases r; cases "snd r") (auto simp: reply_then_def)

lemma put_settings_users: "users_load (fst (put_settings E h sq p)) = users_load p"
  unfolding put_settings_def
proof (rule reply_then_users)
  show "users_load (fst (require_super E h p)) = users_load p"
    using same_but_auth_users [OF require_same(2)] by simp
  show "users_load (fst (reply_then (if ws_pw_default (ps_settings q) then (q, Inr ()) else require_stepup E h (ac_username a) q)
     (\<lambda>p _. case apply_settings_update E sq (ps_settings p) of
          (s, Inl e) \<Rightarrow> (p\<lparr>ps_settings := s\<rparr>, Inl e)
        | (s, Inr out) \<Rightarrow>
            (let p1 = p\<lparr>ps_settings := s\<rparr>;
                 p2 = (case so_new_ttl out of Some secs \<Rightarrow> p1\<lparr>ps_auth := auth_set_ttl_secs secs (ps_auth p1)\<rparr> | None \<Rightarrow> p1)
             in case settings_save E s p2 of
                  (p3, False) \<Rightarrow> (p3, Inl (Code ''common.save_failed''))
                | (p3, True) \<Rightarrow>
                    (if so_password_changed out
                     then revoke_sessions E (ac_username a) (bearer (pe_http E) h) p3 else p3, Inr ()))))) = users_load q"
    for q a
  proof (rule reply_then_users)
    show "users_load (fst (if ws_pw_default (ps_settings q) then (q, Inr ()) else require_stepup E h (ac_username a) q)) = users_load q"
      using same_but_auth_users [OF require_stepup_same [of q E h "ac_username a"]] by simp
  qed (auto simp: Let_def settings_save_def split: prod.split sum.split option.split bool.split)
qed

lemma simple_users:
  "users_load (fst (init_step2 E s2 p)) = users_load p"
  "users_load (logout E h p) = users_load p"
  "users_load (fst (mint_ticket E h purpose p)) = users_load p"
  "users_load (fst (stepup E h source nonce v code p)) = users_load p"
proof -
  note c = current_account_same [of p E h, THEN same_but_auth_users, THEN conjunct1]
  show "users_load (fst (init_step2 E s2 p)) = users_load p"
    by (auto simp: init_step2_def Let_def settings_save_def split: option.split)
  show "users_load (logout E h p) = users_load p" using c by (simp add: logout_def Let_def split: option.split)
  show "users_load (fst (mint_ticket E h purpose p)) = users_load p"
    unfolding mint_ticket_def by (rule reply_then_users) (auto simp: c)
  show "users_load (fst (stepup E h source nonce v code p)) = users_load p"
    unfolding stepup_def by (rule reply_then_users) (auto simp: c Let_def split: prod.split reauth_outcome.split)
qed

text \<open>Edits by requests that are not about the second factor.\<close>

lemma reply_then_benign:
  assumes "users_load (fst r) = users_load p" and "\<And>q x. r = (q, Inr x) \<Longrightarrow> benign_step q (fst (f q x))"
  shows "benign_step p (fst (reply_then r f))"
proof (cases "snd r")
  case (Inl e)
  with assms(1) show ?thesis by (cases r) (auto simp: reply_then_def intro: benign_same)
next
  case (Inr x)
  with assms(2) [of "fst r" x] assms(1) show ?thesis
    by (cases r) (auto simp: reply_then_def benign_step_def edits_def)
qed

lemma change_password_benign: "benign_step p (fst (change_password E who ch p))"
proof -
  have pw: "benign_step q (fst (save_password E who salt hash kdf q))" for salt hash kdf q
  proof (cases "pr_is_super who \<or> cr_argon_hash (pe_crypto E) hash = None")
    case True
    then show ?thesis
      by (intro benign_same) (auto simp: save_password_def Let_def settings_save_def split: option.split)
  next
    case False
    then show ?thesis
      by (auto simp: save_password_def benign_def intro!: benign_record)
  qed
  obtain a ok where c: "consume_challenge (pe_clock E) (ch_nonce ch) (ps_auth p) = (a, ok)"
    by (cases "consume_challenge (pe_clock E) (ch_nonce ch) (ps_auth p)")
  let ?p1 = "p\<lparr>ps_auth := a\<rparr>"
  obtain p2 r where s: "save_password E who (ch_salt ch) (to_ascii_lowercase (ch_hash ch)) (ch_kdf ch) ?p1 = (p2, r)"
    by (cases "save_password E who (ch_salt ch) (to_ascii_lowercase (ch_hash ch)) (ch_kdf ch) ?p1")
  have "benign_step ?p1 p2" using pw [of ?p1 "ch_salt ch" "to_ascii_lowercase (ch_hash ch)" "ch_kdf ch"] s by simp
  then have b: "benign_step p p2" by (rule benign_frame) simp_all
  have "users_load (fst (change_password E who ch p)) \<in> {users_load p, users_load p2}"
    by (auto simp: change_password_def Let_def c s split: sum.split option.split)
  then consider "users_load (fst (change_password E who ch p)) = users_load p"
    | "users_load (fst (change_password E who ch p)) = users_load p2" by blast
  then show ?thesis by cases (auto intro: benign_same benign_frame [OF b])
qed

lemma core_reply_fst [simp]: "fst (core_reply r) = fst r"
  by (auto simp: core_reply_def split: prod.split sum.split)

lemma put_password_benign: "benign_step p (fst (put_password E h ch p))"
  unfolding put_password_def
  by (rule reply_then_benign)
    (simp_all add: current_account_same [THEN same_but_auth_users] change_password_benign)

lemma put_profile_benign: "benign_step p (fst (put_profile E h pf p))"
  unfolding put_profile_def
proof (rule reply_then_benign)
  show "users_load (fst (current_account E h p)) = users_load p"
    by (simp add: current_account_same [THEN same_but_auth_users])
  fix q a
  define f :: "panel_user \<Rightarrow> panel_user" where "f = (\<lambda>u. let u1 = (case pf_full_name pf of Some f \<Rightarrow> u\<lparr>pu_full_name := clip f 64\<rparr> | None \<Rightarrow> u);
       u2 = (case pf_nickname pf of Some n \<Rightarrow> u1\<lparr>pu_nickname := clip n 40\<rparr> | None \<Rightarrow> u1)
     in (case pf_avatar pf of Some av \<Rightarrow> u2\<lparr>pu_avatar := av\<rparr> | None \<Rightarrow> u2))"
  have f: "benign f" by (auto simp: benign_def f_def Let_def split: option.split)
  obtain p1 r where u: "users_update_record E (ac_username a) f q = (p1, r)"
    by (cases "users_update_record E (ac_username a) f q")
  have b: "benign_step q p1" using benign_record [OF f, of q E "ac_username a"] u by simp
  let ?g = "\<lambda>p (_ :: unit). (case pf_full_name pf of
      Some f \<Rightarrow> p\<lparr>ps_etc := fst (set_full_name (pe_os E) (ac_username a) (clip f 64) (ps_etc p))\<rparr>
    | None \<Rightarrow> p, Inr ())"
  have "users_load (fst (reply_then (core_reply (p1, r)) ?g)) = users_load p1"
    by (rule reply_then_users) (auto split: option.split)
  with b have prof: "benign_step q (fst (reply_then (core_reply (users_update_record E (ac_username a) f q)) ?g))"
    unfolding u by (simp add: benign_step_def edits_def)
  show "benign_step q (fst (if case pf_avatar pf of None \<Rightarrow> False | Some av \<Rightarrow> \<not> avatar_ok av
       then (q, Inl (Code ''branding.logo_invalid''))
       else if ac_is_super a then
         (let s0 = ps_settings q;
              s1 = (case pf_full_name pf of Some f \<Rightarrow> s0\<lparr>ws_full_name := clip f 64\<rparr> | None \<Rightarrow> s0);
              s2 = (case pf_nickname pf of Some n \<Rightarrow> s1\<lparr>ws_nickname := clip n 40\<rparr> | None \<Rightarrow> s1);
              s3 = (case pf_avatar pf of Some av \<Rightarrow> s2\<lparr>ws_avatar := av\<rparr> | None \<Rightarrow> s2)
          in case settings_save E s3 (q\<lparr>ps_settings := s3\<rparr>) of
               (p1, ok) \<Rightarrow> (p1, if ok then Inr () else Inl (Code ''common.save_failed'')))
       else reply_then (core_reply (users_update_record E (ac_username a) (\<lambda>u.
           let u1 = (case pf_full_name pf of Some f \<Rightarrow> u\<lparr>pu_full_name := clip f 64\<rparr> | None \<Rightarrow> u);
               u2 = (case pf_nickname pf of Some n \<Rightarrow> u1\<lparr>pu_nickname := clip n 40\<rparr> | None \<Rightarrow> u1)
           in (case pf_avatar pf of Some av \<Rightarrow> u2\<lparr>pu_avatar := av\<rparr> | None \<Rightarrow> u2)) q)) ?g))"
    using prof unfolding f_def
    by (auto simp: Let_def settings_save_def intro!: benign_same)
qed

lemma users_update_benign: "benign_step p (fst (users_update E h up p))"
proof -
  obtain p' r where u: "users_update E h up p = (p', r)" by (cases "users_update E h up p")
  then show ?thesis
  proof (cases rule: users_update_run)
    case refused
    with u show ?thesis by (simp add: benign_same same_but_auth_users)
  next
    case (through q a t pw p1)
    have q: "users_load q = users_load p"
      using through(1) require_same(1) [of p E h] by (simp add: same_but_auth_users)
    have "\<forall>role. ur_role up = Some role \<longrightarrow> valid_role role"
      using through(4) by (auto simp: validate_role_change_def split: if_splits)
    then have "benign (apply_user_update up pw)"
      by (auto simp: benign_def apply_user_update_def Let_def split: option.split)
    with benign_record [of "apply_user_update up pw" q E "ur_username up"] through(6)
    have "benign_step q p1" by simp
    then have "benign_step p p1" using q by (simp add: benign_step_def edits_def)
    moreover have "users_load p' = users_load p1" using through(7) by auto
    ultimately show ?thesis using u by (simp add: benign_step_def edits_def)
  qed
qed

lemma login_benign: "benign_step p (fst (login_request E source att p))"
proof -
  have m: "benign_step q (migrate_stored_hash E u v nh q)" for q u v nh
    by (auto simp: migrate_stored_hash_def Let_def benign_def intro!: benign_same benign_record)
  obtain a out where "verify_login (pe_crypto E) (pe_clock E) (pe_fresh E) (ps_auth p)
      (resolve_login_account p (la_username att)) (att\<lparr>la_source := source\<rparr>) = (a, out)"
    by (cases "verify_login (pe_crypto E) (pe_clock E) (pe_fresh E) (ps_auth p)
      (resolve_login_account p (la_username att)) (att\<lparr>la_source := source\<rparr>)")
  moreover have "benign_step p (migrate_stored_hash E u v nh (p\<lparr>ps_auth := a\<rparr>))" for u v nh
    by (rule benign_frame [OF m [of "p\<lparr>ps_auth := a\<rparr>"]]) simp_all
  ultimately show ?thesis
    by (auto simp: login_request_def Let_def split: login_outcome.split option.split intro: benign_same)
qed

section \<open>The second factor\<close>

lemma find_user_name: "find_user p u = Some x \<Longrightarrow> pu_username x = u"
  by (auto simp: find_user_def find_Some_iff)

lemma current_account_user:
  assumes "current_account E h p = (q, Inr a)" and "\<not> ac_is_super a"
  obtains x where "find_user p (ac_username a) = Some x" "ac_totp_enabled a = pu_totp_enabled x"
    "ac_is_admin a = pu_is_admin x"
proof -
  from assms(1) obtain user where "resolve_account q user = Some a"
    by (auto simp: current_account_def split: prod.splits option.splits)
  with assms(2) find_user_name [of q user] have "\<exists>x. find_user q (ac_username a) = Some x \<and>
      ac_totp_enabled a = pu_totp_enabled x \<and> ac_is_admin a = pu_is_admin x"
    by (auto simp: resolve_account_def Let_def split: if_splits)
  moreover have "find_user q (ac_username a) = find_user p (ac_username a)"
    using current_account_same [of p E h] assms(1) by (simp add: same_but_auth_users)
  ultimately show ?thesis using that by auto
qed

lemma write_totp_edits:
  "users_load (fst (write_totp E who sec on p)) = users_load p \<or>
   \<not> pr_is_super who \<and> edits (pr_username who) (\<lambda>u. u\<lparr>pu_totp_secret := sec, pu_totp_enabled := on\<rparr>) p
     (fst (write_totp E who sec on p))"
  by (cases "users_update_record E (pr_username who) (\<lambda>u. u\<lparr>pu_totp_secret := sec, pu_totp_enabled := on\<rparr>) p")
    (auto simp: write_totp_def Let_def settings_save_def dest: edits_record)

text \<open>What one of the three requests does to the records: nothing, or one edit with its reason.\<close>

definition totp_edit :: "panel_env \<Rightarrow> header_map \<Rightarrow> string \<Rightarrow> panel_state \<Rightarrow> string \<Rightarrow> string \<Rightarrow> bool \<Rightarrow> bool" where
  "totp_edit E h code p n sec on \<longleftrightarrow>
     (\<exists>q a x. current_account E h p = (q, Inr a) \<and> \<not> ac_is_super a \<and> ac_username a = n \<and> find_user p n = Some x \<and>
       (on \<and> sec = pu_totp_secret x \<and> sec \<noteq> [] \<or>
        \<not> on \<and> (\<not> pu_totp_enabled x \<or> pu_totp_secret x = [] \<or> snd (totp_check E (pu_totp_secret x) code q))))"

lemma reply_cases:
  obtains (err) q e where "current_account E h p = (q, Inl e)" "users_load q = users_load p"
  | (acct) q a where "current_account E h p = (q, Inr a)" "users_load q = users_load p" "\<And>u. find_user q u = find_user p u"
proof -
  note s = current_account_same [of p E h, THEN same_but_auth_users]
  show ?thesis
  proof (cases "snd (current_account E h p)")
    case (Inl e)
    with s show ?thesis by (intro err [of "fst (current_account E h p)" e]) (auto intro: prod_eqI)
  next
    case (Inr a)
    with s show ?thesis by (intro acct [of "fst (current_account E h p)" a]) (auto intro: prod_eqI)
  qed
qed

lemma twofa_edits:
  assumes "p' \<in> {fst (twofa_setup E h p), fst (twofa_enable E h code p), fst (twofa_disable E h code p)}"
  shows "users_load p' = users_load p \<or>
    (\<exists>n sec on. totp_edit E h code p n sec on \<and>
       edits n (\<lambda>u. u\<lparr>pu_totp_secret := sec, pu_totp_enabled := on\<rparr>) p p')"
proof (cases rule: reply_cases [of E h p])
  case (err q e)
  with assms show ?thesis by (auto simp: twofa_setup_def twofa_enable_def twofa_disable_def)
next
  case (acct q a)
  define who where "who = to_principal a"
  have who: "pr_is_super who = ac_is_super a" "pr_username who = ac_username a"
    by (simp_all add: who_def to_principal_def)
  have step: ?thesis if "\<not> ac_is_super a \<Longrightarrow> totp_edit E h code p (ac_username a) sec on"
    and "users_load p0 = users_load q"
    and "users_load p' = users_load p0 \<or> users_load p' = users_load (fst (write_totp E who sec on p0))" for p0 sec on
    using that write_totp_edits [of E who sec on p0] acct(2) who
    by (auto simp: edits_def)
  have read: "read_totp who q = pu_totp_secret x" if "\<not> ac_is_super a" "find_user p (ac_username a) = Some x" for x
    using that acct(3) by (simp add: read_totp_def who)
  from assms consider (enrol) "p' = fst (twofa_setup E h p)" | (enable) "p' = fst (twofa_enable E h code p)"
    | (disable) "p' = fst (twofa_disable E h code p)" by blast
  then show ?thesis
  proof cases
    case enrol
    show ?thesis
    proof (cases "ac_totp_enabled a")
      case True
      with enrol acct show ?thesis by (simp add: twofa_setup_def)
    next
      case False
      then have "totp_edit E h code p (ac_username a) (pe_fresh E) False" if "\<not> ac_is_super a"
        using current_account_user [OF acct(1) that] acct(1) that unfolding totp_edit_def by metis
      moreover have "p' = fst (write_totp E who (pe_fresh E) False q)"
        using enrol acct(1) False by (auto simp: twofa_setup_def who_def split: prod.split sum.split)
      ultimately show ?thesis by (intro step [of "pe_fresh E" False q]) auto
    qed
  next
    case enable
    obtain q1 ok where t: "totp_check E (read_totp who q) code q = (q1, ok)" by (cases "totp_check E (read_totp who q) code q")
    have q1: "users_load q1 = users_load q" using t by (metis fst_conv users_load_frames(4))
    show ?thesis
    proof (cases "read_totp who q = []")
      case True
      with enable acct show ?thesis by (simp add: twofa_enable_def enable_2fa_def who_def [symmetric])
    next
      case False
      then have "totp_edit E h code p (ac_username a) (read_totp who q) True" if "\<not> ac_is_super a"
        using current_account_user [OF acct(1) that] acct(1) that read unfolding totp_edit_def by metis
      moreover have "users_load p' = users_load q1 \<or> users_load p' = users_load (fst (write_totp E who (read_totp who q) True q1))"
        using enable acct(1) False t
        by (cases ok) (auto simp: twofa_enable_def enable_2fa_def who_def [symmetric] split: prod.split sum.split)
      ultimately show ?thesis using q1 by (intro step [of "read_totp who q" True q1]) auto
    qed
  next
    case disable
    define r where "r = (if read_totp who q \<noteq> [] then totp_check E (read_totp who q) code q else (q, True))"
    obtain q1 ok where r: "r = (q1, ok)" by (cases r)
    have q1: "users_load q1 = users_load q"
      using r unfolding r_def by (auto split: if_splits) (metis fst_conv users_load_frames(4))
    have p': "p' = fst (core_reply (case r of (p1, False) \<Rightarrow> (p1, Inl TotpInvalid)
        | (p1, True) \<Rightarrow> (case write_totp E who [] False p1 of (p2, Inl e) \<Rightarrow> (p2, Inl e)
           | (p2, Inr _) \<Rightarrow> (revoke_sessions E (pr_username who) (bearer (pe_http E) h) p2, Inr ()))))"
      using disable acct(1) by (simp add: twofa_disable_def disable_2fa_def who_def [symmetric] r_def)
    show ?thesis
    proof (cases ok)
      case False
      with p' r q1 acct(2) show ?thesis by simp
    next
      case True
      then have "totp_edit E h code p (ac_username a) [] False" if "\<not> ac_is_super a"
        using current_account_user [OF acct(1) that] acct(1) that read r unfolding totp_edit_def r_def
        by (metis snd_conv)
      moreover have "users_load p' = users_load (fst (write_totp E who [] False q1))"
        using p' r True by (auto split: prod.split sum.split)
      ultimately show ?thesis using q1 by (intro step [of "[]" False q1]) auto
    qed
  qed
qed

section \<open>Runs\<close>

definition user_ok :: "panel_user \<Rightarrow> bool" where
  "user_ok u \<longleftrightarrow> valid_username (pu_username u) \<and> valid_role (pu_role u) \<and>
     (pu_totp_enabled u \<longrightarrow> pu_totp_secret u \<noteq> [])"

definition users_ok :: "panel_user list \<Rightarrow> bool" where
  "users_ok us \<longleftrightarrow> distinct (map pu_username us) \<and> (\<forall>u \<in> set us. user_ok u)"

lemma create_with_list:
  assumes "create_with E req p = (p', r)"
  shows "users_load p' = users_load p \<or>
    (\<exists>x. users_load p' = users_load p @ [x] \<and> pu_username x \<notin> pu_username ` set (users_load p) \<and> user_ok x)"
proof -
  obtain etc r1 where pr: "provision (pe_os E) (users_load p) (nu_username req) (nu_full_name req)
      (nu_role req = ''admin'') (nu_password req) (ps_etc p) = (etc, r1)"
    by (cases "provision (pe_os E) (users_load p) (nu_username req) (nu_full_name req)
      (nu_role req = ''admin'') (nu_password req) (ps_etc p)")
  obtain p1 r2 where cr: "create_record E req (p\<lparr>ps_etc := etc\<rparr>) = (p1, r2)"
    by (cases "create_record E req (p\<lparr>ps_etc := etc\<rparr>)")
  show ?thesis
  proof (cases "validate_new_user req = Inr () \<and> users_load p1 \<noteq> users_load p")
    case False
    with assms pr cr show ?thesis
      by (auto simp: create_with_def split: sum.splits if_splits)
  next
    case True
    then have v: "valid_username (nu_username req)" "valid_role (nu_role req)"
      by (auto simp: validate_new_user_def split: if_splits)
    from True cr obtain f q where m: "users_mutate E f (p\<lparr>ps_etc := etc\<rparr>) = (p1, q)"
      and f: "\<And>us vs. f us = Inr vs \<Longrightarrow> \<exists>x. vs = us @ [x] \<and> pu_username x \<notin> pu_username ` set us \<and> user_ok x"
      using v by (fastforce simp: create_record_def Let_def user_ok_def list_ex_iff
          split: option.splits prod.splits sum.splits if_splits)
    from m obtain x where "users_load p1 = users_load p @ [x]" "pu_username x \<notin> pu_username ` set (users_load p)" "user_ok x"
      using True by (cases rule: users_mutate_cases) (auto dest!: f simp: users_load_def)
    with assms pr cr show ?thesis
      by (auto simp: create_with_def split: sum.splits if_splits)
  qed
qed

lemma delete_with_list:
  assumes "delete_with E n p = (p', r)"
  shows "users_load p' = users_load p \<or> users_load p' = filter (\<lambda>u. pu_username u \<noteq> n) (users_load p)"
  using assms
  by (auto simp: delete_with_def split: if_splits prod.splits sum.splits elim!: users_mutate_cases)
    (auto simp: users_load_def)

lemma admin_then_users:
  assumes "\<And>q a. users_load q = users_load p \<Longrightarrow> P (users_load (fst (f q a)))" and "P (users_load p)"
  shows "P (users_load (fst (reply_then (require_admin E h p) f)))"
  using assms same_but_auth_users [OF require_same(1) [of p E h]]
  by (cases "require_admin E h p"; cases "snd (require_admin E h p)") (auto simp: reply_then_def)

lemma users_create_list:
  "users_load (fst (users_create E h cr p)) = users_load p \<or>
    (\<exists>x. users_load (fst (users_create E h cr p)) = users_load p @ [x] \<and>
      pu_username x \<notin> pu_username ` set (users_load p) \<and> user_ok x)"
  unfolding users_create_def
proof (rule admin_then_users)
  fix q a assume q: "users_load q = users_load p"
  let ?req = "cr\<lparr>nu_full_name := trim (nu_full_name cr)\<rparr>"
  obtain p1 r where c: "create_with E ?req q = (p1, r)" by (cases "create_with E ?req q")
  show "users_load (fst (if \<not> valid_role (nu_role cr) then (q, Inl (Core RoleInvalid))
       else if \<not> can_manage (account_level a) (role_level (nu_role cr)) then (q, Inl Forbidden)
       else if nu_username cr = ws_username (ps_settings q) then (q, Inl (Core UserExists))
       else reply_then (core_reply (create_with E ?req q)) (\<lambda>p u. (p, Inr (pu_username u))))) = users_load p \<or>
    (\<exists>x. users_load (fst (if \<not> valid_role (nu_role cr) then (q, Inl (Core RoleInvalid))
       else if \<not> can_manage (account_level a) (role_level (nu_role cr)) then (q, Inl Forbidden)
       else if nu_username cr = ws_username (ps_settings q) then (q, Inl (Core UserExists))
       else reply_then (core_reply (create_with E ?req q)) (\<lambda>p u. (p, Inr (pu_username u))))) = users_load p @ [x] \<and>
      pu_username x \<notin> pu_username ` set (users_load p) \<and> user_ok x)"
    using create_with_list [OF c] q unfolding c by (cases r) auto
qed simp

lemma users_delete_list:
  "users_load (fst (users_delete E h n p)) = users_load p \<or>
   users_load (fst (users_delete E h n p)) = filter (\<lambda>u. pu_username u \<noteq> n) (users_load p)"
  unfolding users_delete_def
proof (rule admin_then_users)
  fix q a assume q: "users_load q = users_load p"
  obtain p1 r where c: "delete_with E n q = (p1, r)" by (cases "delete_with E n q")
  show "users_load (fst (if (case find_user q n of
             Some t \<Rightarrow> \<not> can_manage (account_level a) (role_level (pu_role t)) | None \<Rightarrow> False)
       then (q, Inl Forbidden)
       else reply_then (core_reply (delete_with E n q)) (\<lambda>p _. (revoke_sessions E n None p, Inr ())))) = users_load p \<or>
    users_load (fst (if (case find_user q n of
             Some t \<Rightarrow> \<not> can_manage (account_level a) (role_level (pu_role t)) | None \<Rightarrow> False)
       then (q, Inl Forbidden)
       else reply_then (core_reply (delete_with E n q)) (\<lambda>p _. (revoke_sessions E n None p, Inr ())))) =
     filter (\<lambda>u. pu_username u \<noteq> n) (users_load p)"
    using delete_with_list [OF c] q unfolding c by (cases r) auto
qed simp

text \<open>One step, seen on the records.\<close>

lemma account_step_records:
  assumes "account_step E p p'"
  obtains (same) "users_load p' = users_load p"
  | (added) x where "users_load p' = users_load p @ [x]" "pu_username x \<notin> pu_username ` set (users_load p)" "user_ok x"
  | (dropped) n where "users_load p' = filter (\<lambda>u. pu_username u \<noteq> n) (users_load p)"
  | (edited) n f where "benign f" "update_first n f (users_load p) = Inr (users_load p')"
  | (totp) h code n sec on where "totp_edit E h code p n sec on"
      "update_first n (\<lambda>u. u\<lparr>pu_totp_secret := sec, pu_totp_enabled := on\<rparr>) (users_load p) = Inr (users_load p')"
proof -
  have ed: thesis if "benign_step p p'" using that same edited by (auto simp: benign_step_def edits_def)
  have tw: thesis if "p' \<in> {fst (twofa_setup E h p), fst (twofa_enable E h code p), fst (twofa_disable E h code p)}" for h code
    using twofa_edits [OF that] same totp by (auto simp: edits_def)
  from assms show thesis
  proof cases
    case (create h cr)
    with users_create_list [of E h cr p] same added show ?thesis by auto
  next
    case (delete h n)
    with users_delete_list [of E h n p] same dropped show ?thesis by auto
  next
    case (update h up)
    with users_update_benign show ?thesis by (intro ed) simp
  next
    case (profile h pf)
    with put_profile_benign show ?thesis by (intro ed) simp
  next
    case (password h ch)
    with put_password_benign show ?thesis by (intro ed) simp
  next
    case (login source att)
    with login_benign show ?thesis by (intro ed) simp
  next
    case (enrol h)
    then show ?thesis by (intro tw [of h "[]"]) simp
  next
    case (enable h code)
    then show ?thesis by (intro tw [of h code]) simp
  next
    case (disable h code)
    then show ?thesis by (intro tw [of h code]) simp
  qed (auto simp: put_settings_users simple_users intro: same)
qed

lemma users_ok_update:
  assumes "users_ok us" and "update_first n f us = Inr vs" and "\<And>x. pu_username (f x) = pu_username x"
    and "\<And>x. x \<in> set us \<Longrightarrow> pu_username x = n \<Longrightarrow> user_ok x \<Longrightarrow> user_ok (f x)"
  shows "users_ok vs"
  using update_first_map [OF assms(2,3)] assms(1,4) unfolding users_ok_def by metis

lemma find_user_in: "find_user p n = Some x \<Longrightarrow> x \<in> set (users_load p)"
  by (auto simp: find_user_def find_Some_iff)

lemma users_ok_unique: "users_ok us \<Longrightarrow> x \<in> set us \<Longrightarrow> y \<in> set us \<Longrightarrow> pu_username x = pu_username y \<Longrightarrow> x = y"
  by (auto simp: users_ok_def distinct_map dest: inj_onD)

lemma users_ok_step: "account_step E p p' \<Longrightarrow> users_ok (users_load p) \<Longrightarrow> users_ok (users_load p')"
proof (erule account_step_records)
  fix x assume "users_load p' = users_load p @ [x]" "pu_username x \<notin> pu_username ` set (users_load p)" "user_ok x"
    "users_ok (users_load p)"
  then show "users_ok (users_load p')" by (auto simp: users_ok_def)
next
  fix n assume "users_load p' = filter (\<lambda>u. pu_username u \<noteq> n) (users_load p)" "users_ok (users_load p)"
  then show "users_ok (users_load p')" by (auto simp: users_ok_def distinct_map intro: inj_on_subset)
next
  fix n f assume f: "benign f" "update_first n f (users_load p) = Inr (users_load p')" and ok: "users_ok (users_load p)"
  show "users_ok (users_load p')"
    by (rule users_ok_update [OF ok f(2)]) (use f(1) in \<open>auto simp: benign_def user_ok_def\<close>)
next
  fix h code n sec on assume t: "totp_edit E h code p n sec on"
    and u: "update_first n (\<lambda>u. u\<lparr>pu_totp_secret := sec, pu_totp_enabled := on\<rparr>) (users_load p) = Inr (users_load p')"
    and ok: "users_ok (users_load p)"
  show "users_ok (users_load p')"
    by (rule users_ok_update [OF ok u]) (use t in \<open>auto simp: totp_edit_def user_ok_def\<close>)
qed simp

text \<open>C11: over every run of account requests, those that fail included, the stored users keep distinct valid names and real roles, and a second factor that is on has a secret.\<close>

theorem users_well_formed:
  assumes "account_runs p q" and "users_ok (users_load p)"
  shows "users_ok (users_load q)"
  using assms by (induction rule: account_runs.induct) (auto intro: users_ok_step)


section \<open>Passwords and sessions\<close>

lemma revoked_dead:
  assumes "session_ok s" and "map_option (token_key sha) keep \<noteq> Some (token_key sha t)"
  shows "snd (session_identity sha now t (session_revoke_user sha u keep s)) \<noteq> Some u"
proof
  assume "snd (session_identity sha now t (session_revoke_user sha u keep s)) = Some u"
  from session_identity_Some [OF this] assms show False
    by (auto simp: session_revoke_user_def Let_def session_ok_def dest!: hm_get_retain_SomeD)
qed

lemma consume_sessions: "consume_challenge ck n st = (st', ok) \<Longrightarrow> au_sessions st' = au_sessions st"
  by (auto simp: consume_challenge_def split: prod.splits)

lemma save_password_Inr:
  assumes "save_password E who salt hash kdf p = (p', Inr ())"
  shows "\<exists>stored. cr_argon_hash (pe_crypto E) hash = Some stored \<and> current_verifier who p' = stored \<and> ps_auth p' = ps_auth p \<and>
    (pr_is_super who \<longrightarrow> ps_web_file p' = Present (ps_settings p'))"
proof (cases "cr_argon_hash (pe_crypto E) hash")
  case (Some stored)
  show ?thesis
  proof (cases "pr_is_super who")
    case True
    with assms Some show ?thesis
      by (auto simp: save_password_def Let_def settings_save_def current_verifier_def set_password_hashed_def split: if_splits)
  next
    case False
    let ?f = "\<lambda>u :: panel_user. u\<lparr>pu_pw_salt := salt, pu_pw_hash := stored, pu_pw_kdf := kdf\<rparr>"
    from assms Some False have u: "users_update_record E (pr_username who) ?f p = (p', Inr ())"
      by (simp add: save_password_def)
    then obtain us where us: "update_first (pr_username who) ?f (users_load p) = Inr us" "p' = p\<lparr>ps_users := Parsed us\<rparr>"
      unfolding users_update_record_def by (cases rule: users_mutate_cases) auto
    have "find (\<lambda>x. pu_username x = n) vs \<noteq> None" if "update_first n ?f vs = Inr ws" for n vs ws
      using that by (induction vs arbitrary: ws) (auto split: sum.splits if_splits)
    from this [OF us(1)] obtain x where "find_user p (pr_username who) = Some x"
      unfolding find_user_def by blast
    with update_first_find [OF us(1), of "pr_username who"] us(2) Some False show ?thesis
      by (auto simp: current_verifier_def find_user_def users_load_def)
  qed
qed (use assms in \<open>simp add: save_password_def\<close>)

text \<open>C13: a password change takes effect: it succeeds only with a held nonce and the old verifier, and
  then the stored credential is the hash of the new verifier, and no session of the user but the
  one that asked is alive.\<close>

theorem change_password_effective:
  assumes "change_password E who ch p = (p', Inr ())" and "session_ok (au_sessions (ps_auth p))"
  shows "snd (consume_challenge (pe_clock E) (ch_nonce ch) (ps_auth p)) \<and>
    vd_ok (verify_verifier (pe_crypto E) (current_verifier who p) (ch_old_verifier ch)) \<and>
    cr_argon_hash (pe_crypto E) (to_ascii_lowercase (ch_hash ch)) = Some (current_verifier who p') \<and>
    (\<forall>t now. map_option (token_key (cr_sha (pe_crypto E))) (ch_keep_token ch) \<noteq> Some (token_key (cr_sha (pe_crypto E)) t) \<longrightarrow>
       snd (session_identity (cr_sha (pe_crypto E)) now t (au_sessions (ps_auth p'))) \<noteq> Some (pr_username who))"
proof -
  obtain a ok where c: "consume_challenge (pe_clock E) (ch_nonce ch) (ps_auth p) = (a, ok)"
    by (cases "consume_challenge (pe_clock E) (ch_nonce ch) (ps_auth p)")
  let ?p1 = "p\<lparr>ps_auth := a\<rparr>"
  from assms(1) c obtain p2 where ok: ok and vd: "vd_ok (verify_verifier (pe_crypto E) (current_verifier who p) (ch_old_verifier ch))"
    and s: "save_password E who (ch_salt ch) (to_ascii_lowercase (ch_hash ch)) (ch_kdf ch) ?p1 = (p2, Inr ())"
    and p': "p' = revoke_sessions E (pr_username who) (ch_keep_token ch)
        (case pr_system_user who of Some sys \<Rightarrow> if ch_plaintext ch \<noteq> []
            then p2\<lparr>ps_etc := fst (set_system_password (pe_os E) sys (ch_plaintext ch) (ps_etc p2))\<rparr> else p2
         | None \<Rightarrow> p2)"
    by (auto simp: change_password_def Let_def split: if_splits prod.splits sum.splits)
  from save_password_Inr [OF s] have st: "cr_argon_hash (pe_crypto E) (to_ascii_lowercase (ch_hash ch)) = Some (current_verifier who p2)"
    "ps_auth p2 = a" by auto
  have cv: "current_verifier who p' = current_verifier who p2"
    by (auto simp: p' revoke_sessions_def current_verifier_def split: option.split)
  have "au_sessions (ps_auth p') = session_revoke_user (cr_sha (pe_crypto E)) (pr_username who) (ch_keep_token ch)
      (au_sessions (ps_auth p))"
    using st(2) consume_sessions [OF c] by (auto simp: p' revoke_sessions_def auth_revoke_user_def split: option.split)
  with revoked_dead [OF assms(2)] show ?thesis using c ok vd st(1) cv by simp
qed

section \<open>A created user can log in\<close>

lemma create_with_Inr:
  assumes "create_with E req p = (p', Inr u)"
  shows "find_user p' (nu_username req) = Some u \<and> pu_username u = nu_username req \<and> \<not> pu_totp_enabled u \<and>
    cr_argon_hash (pe_crypto E) (to_ascii_lowercase (nu_pw_hash req)) = Some (pu_pw_hash u) \<and>
    ps_auth p' = ps_auth p \<and> ps_settings p' = ps_settings p"
proof -
  obtain etc where cr: "create_record E req (p\<lparr>ps_etc := etc\<rparr>) = (p', Inr u)" and new: "find_user p (nu_username req) = None"
    using assms by (auto simp: create_with_def split: sum.splits prod.splits if_splits)
  from cr obtain f where m: "users_mutate E f (p\<lparr>ps_etc := etc\<rparr>) = (p', Inr ())"
    and f: "\<And>us vs. f us = Inr vs \<Longrightarrow> vs = us @ [u]"
    and u: "pu_username u = nu_username req" "\<not> pu_totp_enabled u"
      "cr_argon_hash (pe_crypto E) (to_ascii_lowercase (nu_pw_hash req)) = Some (pu_pw_hash u)"
    by (fastforce simp: create_record_def Let_def split: option.splits prod.splits sum.splits if_splits)
  from m obtain us where us: "f (users_load p) = Inr us" "p' = p\<lparr>ps_etc := etc, ps_users := Parsed us\<rparr>"
    by (cases rule: users_mutate_cases) auto
  from f [OF us(1)] new u(1) have "find_user p' (nu_username req) = Some u"
    by (simp add: us(2) find_user_def users_load_def find_append)
  with u us(2) show ?thesis by simp
qed

text \<open>C14: creating a user is of use: with a nonce held and no lock-out, the new user logs in with the
  verifier the request carried, and the token issued names the user at once.\<close>

theorem created_user_can_login:
  assumes "users_create E h cr p = (p', Inr n)" and "session_ok (au_sessions (ps_auth p'))"
    and "\<And>v s. cr_argon_hash (pe_crypto E) v = Some s \<Longrightarrow> is_argon2 s \<and> cr_argon_verify (pe_crypto E) s v"
    and "pe_crypto F = pe_crypto E" and "pe_fresh F \<noteq> []"
    and "la_username att = n" and "la_verifier att = to_ascii_lowercase (nu_pw_hash cr)"
    and "snd (login_allowed (pe_clock F) source (ps_auth p'))"
    and "snd (account_login_allowed (pe_clock F) n (fst (login_allowed (pe_clock F) source (ps_auth p'))))"
    and "snd (consume_challenge (pe_clock F) (la_nonce att)
      (fst (account_login_allowed (pe_clock F) n (fst (login_allowed (pe_clock F) source (ps_auth p'))))))"
  shows "snd (login_request F source att p') = LoginOk (pe_fresh F) False None \<and>
    snd (auth_identity (pe_crypto F) (pe_clock F) (pe_fresh F) (ps_auth (fst (login_request F source att p')))) = Some n"
proof -
  let ?req = "cr\<lparr>nu_full_name := trim (nu_full_name cr)\<rparr>"
  obtain q a where q: "require_admin E h p = (q, Inr a)"
    using assms(1) by (auto simp: users_create_def reply_then_Inr)
  obtain p1 r where r: "create_with E ?req q = (p1, r)" by (cases "create_with E ?req q")
  with assms(1) q obtain u where u: "r = Inr u" "p1 = p'" "n = pu_username u"
    and own: "nu_username cr \<noteq> ws_username (ps_settings q)"
    by (cases r) (auto simp: users_create_def split: if_splits)
  with r have c: "create_with E ?req q = (p', Inr u)" by simp
  note C = create_with_Inr [OF c]
  with u have n: "n = nu_username cr" by simp
  have creds: "resolve_login_account p' n = \<lparr>lc_exp_hash = pu_pw_hash u, lc_totp_secret = pu_totp_secret u,
      lc_totp_enabled = False, lc_must_setup = False\<rparr>"
    using C own n by (simp add: resolve_login_account_def Let_def)
  have arg: "is_argon2 (pu_pw_hash u)" "cr_argon_verify (pe_crypto F) (pu_pw_hash u) (la_verifier att)"
    using C assms(3,4,7) by auto
  then have ne: "pu_pw_hash u \<noteq> []" by (auto simp: is_argon2_def starts_with_def)
  have v: "verify_verifier (pe_crypto F) (pu_pw_hash u) (la_verifier att) = \<lparr>vd_ok = True, vd_rehash = None\<rparr>"
    using arg ne by (simp add: verify_verifier_def)
  obtain s1 where s1: "login_allowed (pe_clock F) source (ps_auth p') = (s1, True)"
    using assms(8) by (cases "login_allowed (pe_clock F) source (ps_auth p')") auto
  obtain s2 where s2: "account_login_allowed (pe_clock F) n s1 = (s2, True)"
    using assms(9) s1 by (cases "account_login_allowed (pe_clock F) n s1") auto
  obtain s3 where s3: "consume_challenge (pe_clock F) (la_nonce att) s2 = (s3, True)"
    using assms(10) s1 s2 by (cases "consume_challenge (pe_clock F) (la_nonce att) s2") auto
  have ok: "session_ok (au_sessions s3)"
    using assms(2) s1 s2 consume_sessions [OF s3]
    by (auto simp: login_allowed_def account_login_allowed_def split: prod.splits)
  define st where "st = auth_issue (pe_crypto F) (pe_clock F) (pe_fresh F) n
      (clear_account_failures n (clear_failures source s3))"
  have run: "login_request F source att p' = (p'\<lparr>ps_auth := st\<rparr>, LoginOk (pe_fresh F) False None)"
    using assms(6) by (simp add: login_request_def verify_login_def creds Let_def s1 s2 s3 ne v login_second_factor_def
      login_finish_def st_def)
  have "au_sessions st = session_issue (cr_sha (pe_crypto F)) (ck_secs (pe_clock F)) (pe_fresh F) n (au_sessions s3)"
    by (simp add: st_def auth_issue_def clear_account_failures_def clear_failures_def)
  with ok assms(5) have "snd (auth_identity (pe_crypto F) (pe_clock F) (pe_fresh F) st) = Some n"
    by (simp add: auth_identity_def session_defs hm_simps record_live_def split: prod.split)
  with run show ?thesis by simp
qed

section \<open>Where the code breaks its own rules\<close>

text \<open>A rejected settings request is half applied: with a valid new password and the reserved name,
  the answer is an error, nothing is saved and no session is revoked, yet the password in memory
  is the new one and the account no longer counts as unset.\<close>

theorem rejected_settings_applied:
  assumes "require_super E h p = (q, Inr a)" and "ws_pw_default (ps_settings q)"
    and "apply_password_change E req (ps_settings q) = (s, Inr True)"
    and "sq_username req = Some un" and "owner_name_ok (trim un)" and "eq_ignore_ascii_case (trim un) ''admin''"
  shows "put_settings E h req p = (q\<lparr>ps_settings := s\<rparr>, Inl (Code ''settings.username_reserved'')) \<and>
    ws_pw_hash s = the (cr_argon_hash (pe_crypto E) (to_ascii_lowercase (opt_or (sq_pw_hash req) []))) \<and> \<not> ws_pw_default s"
proof -
  have "s = set_password_hashed (opt_or (sq_pw_salt req) []) (the (cr_argon_hash (pe_crypto E)
      (to_ascii_lowercase (opt_or (sq_pw_hash req) [])))) (opt_or (sq_pw_kdf req) []) (ps_settings q)"
    using assms(3) by (auto simp: apply_password_change_def Let_def split: if_splits option.splits)
  moreover have "put_settings E h req p = (q\<lparr>ps_settings := s\<rparr>, Inl (Code ''settings.username_reserved''))"
    by (simp add: put_settings_def assms(1,2) apply_settings_update_def assms(3-6))
  ultimately show ?thesis by (simp add: set_password_hashed_def)
qed

lemma put_settings_saved:
  assumes "put_settings E h req p = (p', Inr ())"
  shows "\<exists>s out. apply_settings_update E req s = (ps_settings p', Inr out)"
proof -
  obtain q1 and a :: account where q1: "(case apply_settings_update E req (ps_settings q1) of
          (s, Inl e) \<Rightarrow> (q1\<lparr>ps_settings := s\<rparr>, Inl e)
        | (s, Inr out) \<Rightarrow>
            (let p1 = q1\<lparr>ps_settings := s\<rparr>;
                 p2 = (case so_new_ttl out of Some secs \<Rightarrow> p1\<lparr>ps_auth := auth_set_ttl_secs secs (ps_auth p1)\<rparr> | None \<Rightarrow> p1)
             in case settings_save E s p2 of
                  (p3, False) \<Rightarrow> (p3, Inl (Code ''common.save_failed''))
                | (p3, True) \<Rightarrow>
                    (if so_password_changed out
                     then revoke_sessions E (ac_username a) (bearer (pe_http E) h) p3 else p3, Inr ()))) = (p', Inr ())"
    using assms unfolding put_settings_def reply_then_Inr by blast
  obtain s r1 where s: "apply_settings_update E req (ps_settings q1) = (s, r1)"
    by (cases "apply_settings_update E req (ps_settings q1)")
  with q1 obtain out where "r1 = Inr out" by (cases r1) auto
  moreover have "ps_settings p' = s"
    using q1 s calculation
    by (auto simp: settings_save_def revoke_sessions_def Let_def split: if_splits option.splits)
  ultimately show ?thesis using s by blast
qed

lemma apply_settings_username:
  assumes "apply_settings_update E req s = (s', Inr out)" and "sq_username req = Some n"
  shows "ws_username s' = trim n"
  using assms
  by (auto simp: apply_settings_update_def apply_rest_def apply_access_fields_def set_list_def Let_def
      split: prod.splits sum.splits if_splits option.splits)

text \<open>Renaming the owner checks the new name's form only. When a panel user has that name, every
  session of that user is an owner's session from then on.\<close>

theorem rename_promotes_user:
  assumes "put_settings E h req p = (p', Inr ())" and "sq_username req = Some n"
    and "authed_user E hb p' = (q, Some (trim n))"
  shows "\<exists>a. require_super E hb p' = (q, Inr a) \<and> account_level a = 2"
proof -
  have "ws_username (ps_settings p') = trim n"
    using put_settings_saved [OF assms(1)] assms(2) by (auto dest: apply_settings_username)
  moreover have "ps_settings q = ps_settings p'"
    using authed_user_same [of p' E hb] assms(3) by (simp add: same_but_auth_fields)
  ultimately show ?thesis
    by (auto simp: require_super_def current_account_def assms(3) resolve_account_def Let_def account_level_def level_def)
qed

text \<open>A password reset that comes with a promotion keeps the user's sessions when the system has no
  administrators' group: the error returns after the new password is stored and before the
  sessions are revoked.\<close>

theorem role_error_keeps_sessions:
  assumes "require_admin E h p = (q, Inr a)" and "ac_is_super a" and "ps_users q = Parsed us"
    and "find_user q (ur_username req) = Some t" and "pu_role t = ''user''"
    and "ur_role req = Some ''admin''" and "parse_pw_update E req = Inr (Some (salt, hash, kdf))"
    and "pe_save_users E" and "admin_group (pe_os E) (ps_etc q) = None"
  shows "\<exists>p'. users_update E h req p = (p', Inl (OsErr (SysErr NoSudoGroup))) \<and> ps_auth p' = ps_auth q \<and>
    map_option pu_pw_hash (find_user p' (ur_username req)) = Some hash"
proof -
  let ?n = "ur_username req" and ?f = "apply_user_update req (Some (salt, hash, kdf))"
  have lvl: "account_level a = 2" using assms(2) by (simp add: account_level_def level_def)
  have "\<exists>vs. update_first ?n f ws = Inr vs" if "find (\<lambda>u. pu_username u = ?n) ws = Some t" for ws f
    using that by (induction ws) (auto split: if_splits)
  with assms(3,4) obtain vs where vs: "update_first ?n ?f us = Inr vs"
    by (auto simp: find_user_def users_load_def)
  let ?p1 = "q\<lparr>ps_users := Parsed vs\<rparr>"
  have m: "users_update_record E ?n ?f q = (?p1, Inr ())"
    using vs assms(3,8) by (simp add: users_update_record_def users_mutate_def load_strict_m_def opt_or_def)
  have find: "map_option pu_pw_hash (find_user ?p1 ?n) = Some hash"
    using update_first_find [OF vs apply_user_update_name, of ?n] assms(3,4)
    by (simp add: find_user_def users_load_def apply_user_update_def Let_def assms(6) split: option.split)
  have "users_update E h req p = (?p1\<lparr>ps_etc := ps_etc q\<rparr>, Inl (OsErr (SysErr NoSudoGroup)))"
    using assms(5,6,7,9) m
    by (simp add: users_update_def assms(1,4) lvl can_manage_def role_level_def validate_role_change_def valid_role_def
        update_effects_def set_sudo_def grant_admin_def os_reply_def)
  with find show ?thesis by simp
qed

text \<open>When the user store does not parse, creating a user who has a system account already deletes
  that account: it is adopted by its marker, the record cannot be stored, and the roll-back
  removes the account with its home.\<close>

theorem corrupt_store_deletes_account:
  assumes "ps_users p = Unparsable" and "validate_new_user req = Inr ()" and "nu_role req = ''user''"
    and "nu_full_name req = []" and "nu_password req = []"
    and "oe_getpw (pe_os E) (ps_etc p) (nu_username req) = Some (uid, home)"
    and "home_has_owned_marker home (ps_etc p)"
    and "cr_argon_hash (pe_crypto E) (to_ascii_lowercase (nu_pw_hash req)) = Some stored"
  shows "create_with E req p = (p\<lparr>ps_users := Missing,
      ps_etc := fst (del_user_sync (pe_os E) (nu_username req) (ps_etc p))\<rparr>, Inl Persist)"
proof -
  have "provision (pe_os E) [] (nu_username req) [] False [] (ps_etc p) = (ps_etc p, Inr ())"
    by (simp add: provision_def Let_def assms(6,7) system_account_adoptable_def provenance_of_def os_then_def)
  then show ?thesis
    using assms
    by (simp add: create_with_def find_user_def users_load_def create_record_def Let_def users_mutate_def
        load_strict_m_def remove_account_def system_account_adoptable_def provenance_of_def)
qed

section \<open>Witnesses\<close>

text \<open>The owner \<open>boss\<close> asks through the local command line; \<open>ann\<close> is a panel user whose home bears the
  marker.\<close>

definition demo_penv :: panel_env where
  "demo_penv = \<lparr>pe_os = demo_os, pe_crypto = \<lparr>cr_sha = demo_sha, cr_hmac = demo_hmac,
       cr_argon_verify = (\<lambda>s v. s = ''$argon2'' @ v), cr_argon_hash = (\<lambda>v. Some (''$argon2'' @ v))\<rparr>,
     pe_http = demo_http, pe_clock = demo_clock, pe_cli_token = ''cli'', pe_save_users = True,
     pe_save_settings = True, pe_fresh = ''tok''\<rparr>"

definition demo_owner :: web_settings where
  "demo_owner = (settings_seed 0)\<lparr>ws_username := ''boss'', ws_pw_hash := ''$argon2pw'', ws_initialized := True\<rparr>"

definition demo_ann :: panel_user where
  "demo_ann = \<lparr>pu_username = ''ann'', pu_pw_salt = ''s'', pu_pw_hash = ''$argon2ab'', pu_pw_kdf = ''k'', pu_role = ''user'',
     pu_full_name = ''Ann'', pu_nickname = [], pu_avatar = [], pu_totp_secret = ''ABCDEFGH'', pu_totp_enabled = True, pu_uid = 1000\<rparr>"

definition demo_panel :: panel_state where
  "demo_panel = \<lparr>ps_settings = demo_owner, ps_web_file = Present demo_owner, ps_users = Parsed [demo_ann],
     ps_etc = demo_etc, ps_auth = demo_auth\<rparr>"

definition cli_headers :: header_map where "cli_headers = [(''authorization'', ''Bearer cli'')]"


lemma demo_bearer: "bearer demo_http cli_headers = Some ''cli''"
  by code_simp

lemma demo_loopback: "is_direct_loopback cli_headers"
  by (simp add: is_direct_loopback_def cli_headers_def hd_get_def)

lemma demo_authed: "ws_initialized (ps_settings p) \<Longrightarrow> ws_username (ps_settings p) \<noteq> [] \<Longrightarrow>
    authed_user demo_penv cli_headers p = (p, Some (ws_username (ps_settings p)))"
  by (simp add: authed_user_def Let_def demo_bearer demo_loopback demo_penv_def opt_or_def ct_eq_iff)

definition boss :: account where
  "boss = \<lparr>ac_username = ''boss'', ac_is_admin = True, ac_is_super = True, ac_system_user = None,
     ac_totp_enabled = False\<rparr>"

lemma demo_current: "ps_settings p = demo_owner \<Longrightarrow> current_account demo_penv cli_headers p = (p, Inr boss)"
  by (simp add: current_account_def demo_authed demo_owner_def resolve_account_def boss_def settings_seed_def)

lemma demo_require: "ps_settings p = demo_owner \<Longrightarrow> require_admin demo_penv cli_headers p = (p, Inr boss)"
  "ps_settings p = demo_owner \<Longrightarrow> require_super demo_penv cli_headers p = (p, Inr boss)"
  by (simp_all add: require_admin_def require_super_def reply_then_def demo_current) (simp_all add: boss_def)

lemma demo_remove: "snd (remove_account demo_os [demo_ann] ''ann'' demo_etc) = Inr ()"
  by code_simp

lemma demo_fields: "ps_settings demo_panel = demo_owner" "users_load demo_panel = [demo_ann]"
   "ps_etc demo_panel = demo_etc" "ps_users demo_panel = Parsed [demo_ann]"
  by (simp_all add: demo_panel_def users_load_def)


lemma demo_penv_fields:
  "pe_os demo_penv = demo_os" "pe_http demo_penv = demo_http" "pe_clock demo_penv = demo_clock"
  "pe_save_users demo_penv" "pe_save_settings demo_penv" "pe_fresh demo_penv = ''tok''"
  "cr_argon_hash (pe_crypto demo_penv) v = Some (''$argon2'' @ v)"
  "cr_argon_verify (pe_crypto demo_penv) st v = (st = ''$argon2'' @ v)" "cr_sha (pe_crypto demo_penv) = demo_sha"
  by (simp_all add: demo_penv_def)

lemmas demo_acc = demo_require demo_current demo_penv_fields demo_fields

lemma demo_level: "account_level boss = 2" "ac_username boss = ''boss''"
  by (simp_all add: boss_def account_level_def level_def)

lemma demo_deleted: "users_load (fst (users_delete demo_penv cli_headers ''ann'' demo_panel)) = []"
proof -
  obtain etc where "remove_account demo_os [demo_ann] ''ann'' demo_etc = (etc, Inr ())"
    using demo_remove by (cases "remove_account demo_os [demo_ann] ''ann'' demo_etc") simp
  then have "delete_with demo_penv ''ann'' demo_panel = (demo_panel\<lparr>ps_etc := etc, ps_users := Parsed []\<rparr>, Inr ())"
    by (simp add: delete_with_def find_user_def demo_acc users_mutate_def load_strict_m_def opt_or_def)
       (simp add: demo_ann_def)
  then show ?thesis
    by (simp add: users_delete_def demo_acc reply_then_def demo_level find_user_def)
      (simp add: demo_ann_def can_manage_def role_level_def core_reply_def revoke_sessions_def users_load_def)
qed

definition ann_update :: update_req where
  "ann_update = \<lparr>ur_username = ''ann'', ur_full_name = None, ur_nickname = Some ''A'', ur_role = None,
     ur_pw_salt = None, ur_pw_hash = None, ur_pw_kdf = None, ur_password = None\<rparr>"

theorem no_privilege_escalation_witness:
  "\<exists>q a. require_admin demo_penv cli_headers demo_panel = (q, Inr a) \<and> role_level ''user'' < account_level a"
proof -
  have "touches demo_panel (fst (users_delete demo_penv cli_headers ''ann'' demo_panel)) ''ann'' demo_ann"
    by (simp add: touches_def find_user_def demo_deleted demo_fields) (simp add: demo_ann_def)
  moreover have "fst (users_delete demo_penv cli_headers ''ann'' demo_panel) \<in>
      {fst (users_create demo_penv cli_headers undefined demo_panel), fst (users_update demo_penv cli_headers ann_update demo_panel),
       fst (users_delete demo_penv cli_headers ''ann'' demo_panel)}" by simp
  note no_privilege_escalation [OF this, THEN conjunct2]
  ultimately have "\<exists>q a. require_admin demo_penv cli_headers demo_panel = (q, Inr a) \<and>
      role_level (pu_role demo_ann) < account_level a" by blast
  then show ?thesis by (simp add: demo_ann_def)
qed

theorem users_well_formed_witness:
  "users_ok (users_load (fst (users_delete demo_penv cli_headers ''ann'' demo_panel)))"
  by (rule users_well_formed [OF account_runs.step [OF account_runs.start account_step.delete]])
    (simp add: users_ok_def user_ok_def demo_fields demo_ann_def valid_username_def is_ascii_lowercase_def valid_role_def)


definition boss_change :: password_change where
  "boss_change = \<lparr>ch_salt = replicate 32 CHR ''0'', ch_hash = replicate 64 CHR ''0'', ch_kdf = ''s256:30000'',
     ch_nonce = ''n1'', ch_old_verifier = ''pw'', ch_plaintext = [], ch_keep_token = None\<rparr>"

lemma demo_pw_ok: "valid_pw_format (replicate 32 CHR ''0'') (replicate 64 CHR ''0'')"
proof -
  have zero: "is_ascii_hexdigit CHR ''0''" by code_simp
  have "list_all is_ascii_hexdigit (replicate n CHR ''0'')" for n by (induction n) (simp_all add: zero)
  then show ?thesis by (simp add: valid_pw_format_def)
qed

lemma demo_kdf_ok: "valid_pw_kdf ''s256:30000''"
proof -
  have "strip_prefix ''s256:30000'' ''s256:'' = Some ''30000''" by code_simp
  moreover have "parse_u32 ''30000'' = Some 30000"
    by (simp add: parse_u32_def parse_uint_def Let_def is_ascii_digit_def digits_val_def digit_val_def byte_def)
  ultimately show ?thesis by (simp add: valid_pw_kdf_def MIN_PW_KDF_ITERS_def)
qed

lemma demo_nonce: "snd (consume_challenge demo_clock ''n1'' (ps_auth demo_panel))"
  by (simp add: consume_challenge_def challenge_consume_def demo_panel_def demo_auth_challenges hm_get_def
      demo_clock_def duration_since_def CHALLENGE_TTL_def)

theorem change_password_effective_witness:
  "snd (session_identity demo_sha 9 ''b'' (au_sessions (ps_auth
     (fst (change_password demo_penv (to_principal boss) boss_change demo_panel))))) \<noteq> Some ''boss''"
proof -
  obtain a where a: "consume_challenge demo_clock ''n1'' (ps_auth demo_panel) = (a, True)"
    using demo_nonce by (cases "consume_challenge demo_clock ''n1'' (ps_auth demo_panel)") simp
  have "is_argon2 ''$argon2pw''" by code_simp
  then have "snd (change_password demo_penv (to_principal boss) boss_change demo_panel) = Inr ()"
    by (simp add: change_password_def boss_change_def demo_pw_ok demo_kdf_ok demo_acc a to_principal_def boss_def current_verifier_def
      demo_owner_def verify_verifier_def save_password_def settings_save_def Let_def)
  moreover have "session_ok (au_sessions (ps_auth demo_panel))"
    by (simp add: demo_panel_def demo_auth_def issue_challenge_def auth_default_def demo_store_ok)
  ultimately show ?thesis
    using change_password_effective [of demo_penv "to_principal boss" boss_change demo_panel]
    by (cases "change_password demo_penv (to_principal boss) boss_change demo_panel")
      (simp add: boss_change_def demo_penv_fields to_principal_def demo_level)
qed


definition new_ann :: new_user where
  "new_ann = \<lparr>nu_username = ''ann'', nu_role = ''user'', nu_full_name = [], nu_pw_salt = replicate 32 CHR ''0'',
     nu_pw_hash = replicate 64 CHR ''0'', nu_pw_kdf = ''s256:30000'', nu_password = []\<rparr>"

lemma new_ann_fields:
  "nu_username new_ann = ''ann''" "nu_role new_ann = ''user''" "nu_full_name new_ann = []" "nu_password new_ann = []"
  "nu_pw_hash new_ann = replicate 64 CHR ''0''"
  by (simp_all add: new_ann_def)

lemma new_ann_valid: "validate_new_user new_ann = Inr ()"
  by (simp add: validate_new_user_def new_ann_def valid_username_def is_ascii_lowercase_def valid_role_def demo_pw_ok
      demo_kdf_ok valid_os_secret_def)

lemma demo_getpw: "oe_getpw demo_os = files_getpw"
  by (simp add: demo_os_def)

lemma demo_ann_account: "files_getpw demo_etc ''ann'' = Some (1000, ''/home/ann'')"
  "home_has_owned_marker ''/home/ann'' demo_etc"
  by code_simp+

theorem corrupt_store_deletes_account_witness:
  "create_with demo_penv new_ann (demo_panel\<lparr>ps_users := Unparsable\<rparr>) = (demo_panel\<lparr>ps_users := Missing,
      ps_etc := fst (del_user_sync demo_os ''ann'' demo_etc)\<rparr>, Inl Persist)"
  using corrupt_store_deletes_account [of "demo_panel\<lparr>ps_users := Unparsable\<rparr>" new_ann demo_penv 1000 "''/home/ann''"
      "''$argon2'' @ to_ascii_lowercase (replicate 64 CHR ''0'')"]
  by (simp add: new_ann_valid new_ann_fields demo_acc demo_ann_account demo_os_def)

definition boss_settings :: settings_req where
  "boss_settings = \<lparr>sq_username = Some ''admin'', sq_pw_salt = Some (replicate 32 CHR ''0''),
     sq_pw_hash = Some (replicate 64 CHR ''0''), sq_pw_kdf = Some ''s256:30000'', sq_pw_check = Some ''no'',
     sq_session_timeout = None, sq_allow_ips = None, sq_trusted_proxies = None, sq_entry_path = None\<rparr>"

lemma demo_names: "owner_name_ok (trim ''admin'')" "eq_ignore_ascii_case (trim ''admin'') ''admin''"
  "owner_name_ok ''alice''" "trim ''alice'' = ''alice''" "\<not> eq_ignore_ascii_case ''alice'' ''admin''"
  "is_argon2 ''$argon2pw''"
  by code_simp+

theorem rejected_settings_applied_witness:
  "snd (put_settings demo_penv cli_headers boss_settings demo_panel) = Inl (Code ''settings.username_reserved'') \<and>
   ws_pw_hash (ps_settings (fst (put_settings demo_penv cli_headers boss_settings demo_panel))) =
     ''$argon2'' @ to_ascii_lowercase (replicate 64 CHR ''0'') \<and>
   ws_pw_hash (ps_settings demo_panel) = ''$argon2pw''"
proof -
  let ?s = "set_password_hashed (replicate 32 CHR ''0'') (''$argon2'' @ to_ascii_lowercase (replicate 64 CHR ''0''))
      ''s256:30000'' demo_owner"
  have "apply_password_change demo_penv boss_settings (ps_settings demo_panel) = (?s, Inr True)"
    by (simp add: apply_password_change_def boss_settings_def demo_acc opt_or_def Let_def demo_pw_ok demo_kdf_ok
        verify_verifier_def)
      (simp add: demo_owner_def demo_names demo_penv_fields)
  then have "put_settings demo_penv cli_headers boss_settings demo_panel =
      (demo_panel\<lparr>ps_settings := ?s\<rparr>, Inl (Code ''settings.username_reserved'')) \<and>
      ws_pw_hash ?s = the (cr_argon_hash (pe_crypto demo_penv) (to_ascii_lowercase (opt_or (sq_pw_hash boss_settings) []))) \<and>
      \<not> ws_pw_default ?s"
    by (intro rejected_settings_applied [where un = "''admin''" and a = boss])
      (simp_all add: demo_acc demo_names boss_settings_def, simp add: demo_owner_def settings_seed_def)
  then show ?thesis
    by (simp add: demo_penv_fields boss_settings_def opt_or_def demo_fields) (simp add: demo_owner_def)
qed


text \<open>A panel user \<open>alice\<close> with a session, and the owner taking her name.\<close>

definition alice_panel :: panel_state where
  "alice_panel = demo_panel\<lparr>ps_users := Parsed [demo_ann\<lparr>pu_username := ''alice''\<rparr>]\<rparr>"

definition alice_headers :: header_map where "alice_headers = [(''authorization'', ''Bearer b'')]"

definition take_alice :: settings_req where
  "take_alice = \<lparr>sq_username = Some ''alice'', sq_pw_salt = None, sq_pw_hash = None, sq_pw_kdf = None,
     sq_pw_check = None, sq_session_timeout = None, sq_allow_ips = None, sq_trusted_proxies = None,
     sq_entry_path = None\<rparr>"

lemma alice_run: "\<exists>p'. put_settings demo_penv cli_headers take_alice alice_panel = (p', Inr ()) \<and> ps_auth p' = demo_auth"
proof -
  have "ps_settings alice_panel = demo_owner" "ps_auth alice_panel = demo_auth"
    by (simp_all add: alice_panel_def demo_panel_def)
  moreover have "ws_pw_default demo_owner" by (simp add: demo_owner_def settings_seed_def)
  ultimately show ?thesis
    by (simp add: put_settings_def demo_acc reply_then_def apply_settings_update_def apply_password_change_def
        take_alice_def demo_names apply_rest_def apply_access_fields_def set_list_def settings_save_def)
qed

lemma alice_authed:
  assumes "ps_auth p = demo_auth"
  shows "snd (authed_user demo_penv alice_headers p) = Some ''alice''"
proof -
  have "bearer demo_http alice_headers = Some ''b''" by code_simp
  moreover have "snd (session_identity demo_sha 60 ''b'' demo_store) = Some ''alice''"
    by (simp add: demo_store_def session_defs hm_simps hm_get_def session_with_store_def record_live_def demo_sha_def token_key_def
        hex_lower_def HEX_def byte_def session_default_def hm_insert_def hm_remove_def hm_retain_def ttl_secs_def session_save_def
        SESSION_TTL_def SESSION_ABS_TTL_def)
  ultimately show ?thesis
    by (cases "session_identity demo_sha 60 ''b'' demo_store")
      (simp add: authed_user_def Let_def demo_penv_def opt_or_def ct_eq_iff as_bytes_eq assms auth_identity_def demo_auth_rest
      demo_clock_def)
qed

theorem rename_promotes_user_witness:
  "\<exists>a. require_super demo_penv alice_headers (fst (put_settings demo_penv cli_headers take_alice alice_panel)) =
      (fst (authed_user demo_penv alice_headers (fst (put_settings demo_penv cli_headers take_alice alice_panel))), Inr a) \<and>
     account_level a = 2"
proof -
  obtain p' where p: "put_settings demo_penv cli_headers take_alice alice_panel = (p', Inr ())" "ps_auth p' = demo_auth"
    using alice_run by blast
  from alice_authed [OF p(2)]
  have q: "authed_user demo_penv alice_headers p' = (fst (authed_user demo_penv alice_headers p'), Some (trim ''alice''))"
    by (intro prod_eqI) (simp_all add: demo_names)
  have "sq_username take_alice = Some ''alice''" by (simp add: take_alice_def)
  from rename_promotes_user [OF p(1) this q] p(1) show ?thesis by simp
qed

definition promote_ann :: update_req where
  "promote_ann = \<lparr>ur_username = ''ann'', ur_full_name = None, ur_nickname = None, ur_role = Some ''admin'',
     ur_pw_salt = Some (replicate 32 CHR ''0''), ur_pw_hash = Some (replicate 64 CHR ''0''),
     ur_pw_kdf = Some ''s256:30000'', ur_password = None\<rparr>"

definition groupless :: panel_state where
  "groupless = demo_panel\<lparr>ps_etc := demo_etc\<lparr>et_group := Text (unlines [''root:x:0:'', ''ann:x:1000:''])\<rparr>\<rparr>"

lemma demo_no_group: "admin_group demo_os (demo_etc\<lparr>et_group := Text (unlines [''root:x:0:'', ''ann:x:1000:''])\<rparr>) = None"
  by code_simp

theorem role_error_keeps_sessions_witness:
  "\<exists>p'. users_update demo_penv cli_headers promote_ann groupless = (p', Inl (OsErr (SysErr NoSudoGroup))) \<and>
     ps_auth p' = ps_auth groupless \<and>
     map_option pu_pw_hash (find_user p' (ur_username promote_ann)) =
       Some (''$argon2'' @ to_ascii_lowercase (replicate 64 CHR ''0''))"
proof (rule role_error_keeps_sessions)
  have f: "ps_settings groupless = demo_owner" "ps_users groupless = Parsed [demo_ann]"
    by (simp_all add: groupless_def demo_fields)
  show "require_admin demo_penv cli_headers groupless = (groupless, Inr boss)" by (simp add: demo_require f)
  show "ps_users groupless = Parsed [demo_ann]" by (rule f)
  show "find_user groupless (ur_username promote_ann) = Some demo_ann"
    by (simp add: find_user_def users_load_def f promote_ann_def) (simp add: demo_ann_def)
  show "parse_pw_update demo_penv promote_ann =
      Inr (Some (replicate 32 CHR ''0'', ''$argon2'' @ to_ascii_lowercase (replicate 64 CHR ''0''), ''s256:30000''))"
    by (simp add: parse_pw_update_def promote_ann_def opt_or_def Let_def demo_pw_ok demo_kdf_ok demo_penv_fields)
  show "admin_group (pe_os demo_penv) (ps_etc groupless) = None"
    using demo_no_group by (simp add: demo_penv_fields groupless_def)
qed (simp_all add: boss_def demo_ann_def promote_ann_def demo_penv_fields)

definition ann_login :: login_attempt where
  "ann_login = \<lparr>la_username = ''ann'', la_source = [], la_nonce = ''n1'',
     la_verifier = to_ascii_lowercase (replicate 64 CHR ''0''), la_code = []\<rparr>"

theorem created_user_can_login_witness:
  "snd (login_request demo_penv ''10.0.0.9'' ann_login
      (fst (users_create demo_penv cli_headers new_ann (demo_panel\<lparr>ps_users := Missing\<rparr>)))) = LoginOk ''tok'' False None"
proof -
  let ?p = "demo_panel\<lparr>ps_users := Missing\<rparr>"
  have pr: "provision demo_os [] ''ann'' [] False [] demo_etc = (demo_etc, Inr ())"
    by (simp add: provision_def Let_def demo_ann_account system_account_adoptable_def provenance_of_def os_then_def demo_getpw)
  have tr: "new_ann\<lparr>nu_full_name := []\<rparr> = new_ann"
    by (simp add: new_ann_def)
  have "\<exists>u. create_with demo_penv new_ann ?p = (?p\<lparr>ps_users := Parsed [u]\<rparr>, Inr u) \<and> pu_username u = ''ann''"
    by (simp add: create_with_def new_ann_valid find_user_def users_load_def new_ann_fields demo_acc pr create_record_def
      demo_getpw demo_ann_account users_mutate_def load_strict_m_def opt_or_def Let_def)
  then obtain u where c: "create_with demo_penv new_ann ?p = (?p\<lparr>ps_users := Parsed [u]\<rparr>, Inr u)" "pu_username u = ''ann''"
    by blast
  have run: "users_create demo_penv cli_headers new_ann ?p = (?p\<lparr>ps_users := Parsed [u]\<rparr>, Inr ''ann'')"
    using c by (simp add: users_create_def demo_acc reply_then_def new_ann_fields valid_role_def can_manage_def role_level_def
      demo_level tr core_reply_def) (simp add: demo_owner_def)
  let ?r1 = "hm_insert ''10.0.0.9'' [] []" and ?r2 = "hm_insert (account_key ''ann'') [] (hm_insert ''10.0.0.9'' [] [])"
  have allow: "login_allowed demo_clock ''10.0.0.9'' demo_auth = (demo_auth\<lparr>au_rate := ?r1\<rparr>, True)"
    "account_login_allowed demo_clock ''ann'' (demo_auth\<lparr>au_rate := ?r1\<rparr>) = (demo_auth\<lparr>au_rate := ?r2\<rparr>, True)"
    by (simp_all add: login_allowed_def account_login_allowed_def demo_auth_rest rate_allowed_def rate_entry_def hm_get_def
        hm_insert_def hm_remove_def account_key_def FAIL_MAX_def)
  have a: "ps_auth demo_panel = demo_auth" by (simp add: demo_panel_def)
  have b: "snd (consume_challenge demo_clock ''n1'' (demo_auth\<lparr>au_rate := ?r2\<rparr>))"
    using demo_nonce by (simp add: a consume_challenge_def split: prod.splits)
  have "snd (login_request demo_penv ''10.0.0.9'' ann_login (?p\<lparr>ps_users := Parsed [u]\<rparr>)) = LoginOk (pe_fresh demo_penv) False None"
    by (rule created_user_can_login [OF run, where F = demo_penv, THEN conjunct1])
      (simp_all add: a demo_auth_rest demo_store_ok demo_penv_fields ann_login_def new_ann_fields allow b is_argon2_def starts_with_def)
  then show ?thesis by (simp add: run demo_penv_fields)
qed

end
