(* ===== verification/Paths.thy ===== *)
theory Paths
  imports Rust_Str
begin

text \<open>
  Paths as text: lexical normalisation (\<open>src/core/path/normalize.rs\<close>), the deny-list for bind
  mounts (\<open>host_bind_denied\<close>, \<open>src/core/docker/policy.rs\<close>) and the guards of the file manager
  (\<open>src/infra/file/ops.rs\<close>). A guard sees the text trimmed, the system does not: the lemmas relate
  the two readings.
\<close>

section \<open>Normalisation\<close>

fun norm_segs :: "string list \<Rightarrow> string list \<Rightarrow> string list" where
  "norm_segs out [] = out"
| "norm_segs out (s # ss) =
     (if s = [] \<or> s = ''.'' then norm_segs out ss
      else if s = ''..'' then norm_segs (butlast out) ss
      else norm_segs (out @ [s]) ss)"

definition path_text :: "string list \<Rightarrow> string" where
  "path_text ns = (if ns = [] then ''/'' else CHR ''/'' # join_with CHR ''/'' ns)"

definition normalize_lexical :: "string \<Rightarrow> string" where
  "normalize_lexical path = path_text (norm_segs [] (split_on CHR ''/'' (trim path)))"

text \<open>What an absolute path names when no symbolic link is involved: the names from the root.\<close>

definition lexical_names :: "string \<Rightarrow> string list" where
  "lexical_names path = norm_segs [] (split_on CHR ''/'' path)"

section \<open>Guards\<close>

definition sensitive_trees :: "string list" where
  "sensitive_trees = [''/etc'', ''/root'', ''/boot'', ''/proc'', ''/sys'', ''/dev'']"

definition protected_dirs :: "string list" where
  "protected_dirs = [''/bin'', ''/sbin'', ''/boot'', ''/dev'', ''/etc'', ''/lib'', ''/lib32'', ''/lib64'',
     ''/libx32'', ''/proc'', ''/root'', ''/run'', ''/sys'', ''/usr'', ''/var'']"

definition host_bind_denied :: "string \<Rightarrow> bool" where
  "host_bind_denied path =
     (let p = normalize_lexical path in
      if p = ''/var/run/docker.sock'' \<or> p = ''/run/docker.sock'' then True
      else if p = ''/'' then True
      else list_ex (\<lambda>t. p = t \<or> starts_with p (t @ ''/'')) sensitive_trees)"

definition is_protected_path :: "string \<Rightarrow> bool" where
  "is_protected_path path = (let n = normalize_lexical path in n = ''/'' \<or> n \<in> set protected_dirs)"

definition is_protected_host_mutation :: "string \<Rightarrow> bool" where
  "is_protected_host_mutation path =
     (let n = normalize_lexical path in
      is_protected_path n \<or> list_ex (\<lambda>t. starts_with n (t @ ''/'')) sensitive_trees)"

section \<open>The names of a path\<close>

definition plain_name :: "string \<Rightarrow> bool" where
  "plain_name s \<longleftrightarrow> s \<noteq> [] \<and> s \<noteq> ''.'' \<and> s \<noteq> ''..'' \<and> CHR ''/'' \<notin> set s"

definition sensitive :: "string list \<Rightarrow> bool" where
  "sensitive ns \<longleftrightarrow> ns \<noteq> [] \<and> hd ns \<in> {''etc'', ''root'', ''boot'', ''proc'', ''sys'', ''dev''}"

lemma norm_segs_append: "norm_segs out (ss @ ts) = norm_segs (norm_segs out ss) ts"
  by (induction out ss rule: norm_segs.induct) auto

lemma norm_segs_plain:
  assumes "\<forall>s \<in> set out. plain_name s" and "\<forall>s \<in> set ss. CHR ''/'' \<notin> set s"
  shows "\<forall>s \<in> set (norm_segs out ss). plain_name s"
  using assms
proof (induction ss arbitrary: out)
  case (Cons s ss)
  have b: "\<forall>s \<in> set (butlast out). plain_name s" using Cons.prems by (auto dest: in_set_butlastD)
  consider "s = [] \<or> s = ''.''" | "s = ''..''" | "plain_name s"
    using Cons.prems(2) by (auto simp: plain_name_def)
  then show ?case
  proof cases
    case 1
    then have "norm_segs out (s # ss) = norm_segs out ss" by simp
    with Cons show ?thesis by simp
  next
    case 2
    then have "norm_segs out (s # ss) = norm_segs (butlast out) ss" by simp
    with Cons.IH [OF b] Cons.prems show ?thesis by simp
  next
    case 3
    then have "norm_segs out (s # ss) = norm_segs (out @ [s]) ss" by (simp add: plain_name_def)
    with Cons.IH [of "out @ [s]"] Cons.prems 3 show ?thesis by simp
  qed
qed simp

lemma plain_nameD: "plain_name s \<Longrightarrow> s \<noteq> [] \<and> s \<noteq> ''.'' \<and> s \<noteq> ''..'' \<and> CHR ''/'' \<notin> set s"
  by (simp add: plain_name_def)

lemma norm_segs_id: "\<forall>s \<in> set ss. plain_name s \<Longrightarrow> norm_segs out ss = out @ ss"
proof (induction ss arbitrary: out)
  case (Cons s ss)
  then show ?case using plain_nameD [of s] by simp
qed simp

lemma lexical_plain: "s \<in> set (lexical_names p) \<Longrightarrow> plain_name s"
  using norm_segs_plain [of "[]" "split_on CHR ''/'' p"] split_on_no_sep [of _ "CHR ''/''" p]
  by (auto simp: lexical_names_def)

lemma normalize_names: "normalize_lexical p = path_text (lexical_names (trim p))"
  by (simp add: normalize_lexical_def lexical_names_def)

lemma lexical_path_text: "\<forall>s \<in> set ns. plain_name s \<Longrightarrow> lexical_names (path_text ns) = ns"
  using split_join_with [of ns "CHR ''/''"] plain_nameD
  by (cases "ns = []") (simp_all add: lexical_names_def path_text_def norm_segs_id)

lemma path_text_cons: "path_text (n # ns) = (if ns = [] then CHR ''/'' # n else CHR ''/'' # n @ path_text ns)"
  by (cases ns) (auto simp: path_text_def)

lemma path_text_eq_one: "plain_name t \<Longrightarrow> \<forall>s \<in> set ns. plain_name s \<Longrightarrow> path_text ns = CHR ''/'' # t \<longleftrightarrow> ns = [t]"
  by (metis lexical_path_text path_text_cons list.set(1) empty_iff set_ConsD)

lemma path_text_under:
  assumes "plain_name t" and "\<forall>s \<in> set ns. plain_name s"
  shows "starts_with (path_text ns) ((CHR ''/'' # t) @ ''/'') \<longleftrightarrow> (\<exists>n ms. ns = t # n # ms)"
proof
  assume "starts_with (path_text ns) ((CHR ''/'' # t) @ ''/'')"
  then obtain r where r: "path_text ns = CHR ''/'' # t @ CHR ''/'' # r" by (auto simp: starts_with_iff)
  have sep: "CHR ''/'' \<notin> set t" using assms(1) by (simp add: plain_name_def)
  have ns: "ns \<noteq> []" using r assms(1) by (auto simp: path_text_def plain_name_def)
  then have j: "join_with CHR ''/'' ns = t @ CHR ''/'' # r" using r by (simp add: path_text_def)
  have "split_on CHR ''/'' (join_with CHR ''/'' ns) = ns"
    by (rule split_join_with [OF ns]) (use assms(2) in \<open>simp add: plain_name_def\<close>)
  then have "ns = t # split_on CHR ''/'' r" unfolding j split_on_append_sep [OF sep] by simp
  then show "\<exists>n ms. ns = t # n # ms" by (cases "split_on CHR ''/'' r") auto
next
  assume "\<exists>n ms. ns = t # n # ms"
  then show "starts_with (path_text ns) ((CHR ''/'' # t) @ ''/'')"
    by (auto simp: path_text_def starts_with_iff)
qed

lemma sensitive_names: "plain_name ''etc''" "plain_name ''root''" "plain_name ''boot''" "plain_name ''proc''"
  "plain_name ''sys''" "plain_name ''dev''"
  by (simp_all add: plain_name_def)

lemma in_tree_iff:
  assumes "\<forall>s \<in> set ns. plain_name s"
  shows "list_ex (\<lambda>t. path_text ns = t \<or> starts_with (path_text ns) (t @ ''/'')) sensitive_trees \<longleftrightarrow> sensitive ns"
proof -
  have "path_text ns = CHR ''/'' # t \<or> starts_with (path_text ns) ((CHR ''/'' # t) @ ''/'') \<longleftrightarrow> ns \<noteq> [] \<and> hd ns = t"
    if "plain_name t" for t
    using path_text_eq_one [OF that assms] path_text_under [OF that assms]
    by (cases ns; cases "tl ns") auto
  note this [OF sensitive_names(1)] this [OF sensitive_names(2)] this [OF sensitive_names(3)]
    this [OF sensitive_names(4)] this [OF sensitive_names(5)] this [OF sensitive_names(6)]
  then show ?thesis by (simp add: sensitive_trees_def sensitive_def) blast
qed

section \<open>The text a guard sees and the text the system sees\<close>

lemma split_on_append_plain:
  "c \<notin> set w \<Longrightarrow> split_on c (t @ w) = butlast (split_on c t) @ [last (split_on c t) @ w]"
proof (induction t)
  case (Cons x t)
  then show ?case
    using split_on_not_Nil [of c t] by (cases "split_on c t") auto
qed (simp add: split_on_single)

definition ws_char :: "char \<Rightarrow> bool" where
  "ws_char c \<longleftrightarrow> c \<in> set ws1 \<or> c \<in> \<Union> (set ` set ws2) \<or> c \<in> \<Union> (set ` set ws3)"

lemma ws_char_cases: "ws_char c \<Longrightarrow> c \<noteq> CHR ''/'' \<and> c \<noteq> CHR ''.'' \<and> \<not> is_ascii_lowercase c"
  by (auto simp: ws_char_def ws1_def ws2_def ws3_def is_ascii_lowercase_def)

lemma trim_back_ws: "\<exists>w. r = w @ trim_back r \<and> (\<forall>c \<in> set w. ws_char c)"
proof (induction r rule: trim_back.induct)
  case (1 r)
  show ?case
  proof (cases "ws_len_back r = 0")
    case True
    then show ?thesis by (subst trim_back.simps) simp
  next
    case False
    let ?n = "ws_len_back r"
    from 1 [OF False] obtain w where w: "drop ?n r = w @ trim_back (drop ?n r)" "\<forall>c \<in> set w. ws_char c" by blast
    have "\<forall>c \<in> set (take ?n r). ws_char c"
    proof -
      consider "r \<noteq> []" "hd r \<in> set ws1" "?n = 1" | "rev (take 2 r) \<in> set ws2" "?n = 2" | "rev (take 3 r) \<in> set ws3" "?n = 3"
        using False by (auto simp: ws_len_back_def split: if_splits)
      then show ?thesis
      proof cases
        case 1
        then show ?thesis by (cases r) (auto simp: ws_char_def)
      next
        case 2
        then have "set (take 2 r) \<in> set ` set ws2" by (metis image_eqI set_rev)
        with 2 show ?thesis unfolding ws_char_def by (metis UnionI)
      next
        case 3
        then have "set (take 3 r) \<in> set ` set ws3" by (metis image_eqI set_rev)
        with 3 show ?thesis unfolding ws_char_def by (metis UnionI)
      qed
    qed
    moreover have "trim_back r = trim_back (drop ?n r)" using False by (subst trim_back.simps) simp
    ultimately show ?thesis
      using w by (intro exI [of _ "take ?n r @ w"]) (metis append.assoc append_take_drop_id Un_iff set_append)
  qed
qed

lemma trim_absolute:
  assumes "starts_with p ''/''"
  obtains w where "p = trim p @ w" and "\<forall>c \<in> set w. ws_char c"
proof -
  have "hd p = CHR ''/''" "p \<noteq> []" using assms by (auto simp: starts_with_iff)
  then have "ws_len p = 0" by (intro ws_len_plain) (simp add: plain_char_def ws1_def ws2_def ws3_def)
  then have t: "trim_start p = p" by (subst trim_start.simps) simp
  obtain w where w: "rev p = w @ trim_back (rev p)" "\<forall>c \<in> set w. ws_char c" using trim_back_ws by blast
  from w(1) have "p = rev (trim_back (rev p)) @ rev w" by (metis rev_append rev_rev_ident)
  then have "p = trim p @ rev w" by (simp add: trim_def trim_end_def t)
  with w(2) that [of "rev w"] show ?thesis by simp
qed

text \<open>The guard's names against the names of the text: equal, or the last name differs by trailing
  white space, in which case the guard sees the name without it, its directory or the directory
  above.\<close>

lemma trimmed_names:
  assumes "starts_with p ''/''"
  obtains "lexical_names (trim p) = lexical_names p"
  | d l c where "lexical_names p = d @ [l]" and "c \<in> set l" and "ws_char c"
      and "lexical_names (trim p) \<in> {d, butlast d} \<or> (\<exists>l'. lexical_names (trim p) = d @ [l'])"
proof -
  from assms obtain w where w: "p = trim p @ w" "\<forall>c \<in> set w. ws_char c" by (rule trim_absolute)
  show ?thesis
  proof (cases w)
    case Nil
    with w(1) that(1) show ?thesis by simp
  next
    case (Cons c w')
    let ?s = "split_on CHR ''/'' (trim p)"
    let ?d = "norm_segs [] (butlast ?s)" and ?l = "last ?s"
    have c: "c \<in> set w" "ws_char c" using Cons w(2) by auto
    have "CHR ''/'' \<notin> set w" using w(2) ws_char_cases by blast
    then have sp: "split_on CHR ''/'' p = butlast ?s @ [?l @ w]" using split_on_append_plain w(1) by metis
    have "?l @ w \<noteq> []" "?l @ w \<noteq> ''.''" "?l @ w \<noteq> ''..''"
      using c w(2) ws_char_cases by (auto simp: append_eq_Cons_conv Cons)
    then have p: "lexical_names p = ?d @ [?l @ w]"
      unfolding lexical_names_def sp norm_segs_append by simp
    have "lexical_names (trim p) = norm_segs ?d [?l]"
      unfolding lexical_names_def norm_segs_append [symmetric]
      by (metis append_butlast_last_id split_on_not_Nil)
    then have "lexical_names (trim p) \<in> {?d, butlast ?d} \<or> (\<exists>l'. lexical_names (trim p) = ?d @ [l'])"
      by (auto split: if_splits)
    with p c show ?thesis by (intro that(2) [of ?d "?l @ w" c]) auto
  qed
qed

lemma sensitive_append: "sensitive (d @ ms) \<longleftrightarrow> (if d = [] then sensitive ms else sensitive d)"
  by (cases d) (simp_all add: sensitive_def)

lemma ws_name_not_sensitive: "c \<in> set l \<Longrightarrow> ws_char c \<Longrightarrow> \<not> sensitive [l]"
  using ws_char_cases [of c] by (auto simp: sensitive_def is_ascii_lowercase_def)

lemma sensitive_seen:
  assumes "starts_with p ''/''" and "sensitive (lexical_names p)"
  shows "lexical_names (trim p) = [] \<or> sensitive (lexical_names (trim p))"
  using assms(1)
proof (cases rule: trimmed_names)
  case 1
  with assms(2) show ?thesis by simp
next
  case (2 d l c)
  with assms(2) have "d \<noteq> []" "sensitive d"
    using ws_name_not_sensitive [of c l] by (auto simp: sensitive_append split: if_splits)
  with 2(4) show ?thesis
    by (auto simp: sensitive_append) (metis append_butlast_last_id sensitive_append)
qed

lemma protected_dirs_normal: "list_all (\<lambda>d. normalize_lexical d = d) protected_dirs"
  by code_simp

lemma lexical_all_plain: "\<forall>s \<in> set (lexical_names p). plain_name s"
  using lexical_plain by blast

lemma lexical_seen:
  assumes "starts_with p ''/''" and "path_text (lexical_names p) = q" and "\<not> list_ex ws_char q"
  shows "normalize_lexical p = q"
  using assms(1)
proof (cases rule: trimmed_names)
  case 1
  with assms(2) show ?thesis by (simp add: normalize_names)
next
  case (2 d l c)
  have "set l \<subseteq> set (path_text (d @ [l]))"
    by (induction d) (auto simp: path_text_cons)
  with 2 assms(2,3) show ?thesis by (auto simp: list_ex_iff)
qed

text \<open>The bind guard is not fooled by spelling: an accepted source is not the root, not in a sensitive
  tree and not the socket.\<close>

theorem bind_guard_sound:
  assumes "starts_with p ''/''" and "\<not> host_bind_denied p"
  shows "lexical_names p \<noteq> [] \<and> \<not> sensitive (lexical_names p) \<and>
    path_text (lexical_names p) \<notin> {''/var/run/docker.sock'', ''/run/docker.sock''}"
proof -
  let ?n = "lexical_names (trim p)"
  have n: "normalize_lexical p = path_text ?n" by (rule normalize_names)
  have d: "?n \<noteq> []" "\<not> sensitive ?n"
    using assms(2) in_tree_iff [OF lexical_all_plain, of "trim p"]
    by (auto simp: host_bind_denied_def n Let_def path_text_def split: if_splits)
  have "lexical_names p \<noteq> []"
    using assms(1) d by (cases rule: trimmed_names) auto
  moreover have "\<not> sensitive (lexical_names p)" using sensitive_seen [OF assms(1)] d by blast
  moreover have "path_text (lexical_names p) \<noteq> q" if "q \<in> {''/var/run/docker.sock'', ''/run/docker.sock''}" for q
  proof
    assume "path_text (lexical_names p) = q"
    moreover have "\<not> list_ex ws_char q" using that by (auto simp: ws_char_def ws1_def ws2_def ws3_def)
    ultimately have "normalize_lexical p = q" by (rule lexical_seen [OF assms(1)])
    with that assms(2) show False by (auto simp: host_bind_denied_def)
  qed
  ultimately show ?thesis by blast
qed

theorem bind_guard_sound_witness:
  "lexical_names ''/srv/../home//./x'' = [''home'', ''x''] \<and> \<not> sensitive (lexical_names ''/srv/../home//./x'')"
proof -
  have "starts_with ''/srv/../home//./x'' ''/''" by (simp add: starts_with_def)
  moreover have "\<not> host_bind_denied ''/srv/../home//./x''" by code_simp
  ultimately have "\<not> sensitive (lexical_names ''/srv/../home//./x'')" using bind_guard_sound by blast
  moreover have "lexical_names ''/srv/../home//./x'' = [''home'', ''x'']" by code_simp
  ultimately show ?thesis by simp
qed

text \<open>The directories that hold the sockets are no sensitive trees: mounting one mounts its socket.\<close>

theorem socket_parents_bindable:
  "host_bind_denied ''/run/docker.sock'' \<and> host_bind_denied ''/var/run/docker.sock'' \<and>
   \<not> host_bind_denied ''/run'' \<and> \<not> host_bind_denied ''/var/run'' \<and> \<not> host_bind_denied ''/var''"
  by code_simp

lemma mutation_guard_names:
  assumes "\<not> is_protected_host_mutation p"
  shows "lexical_names (trim p) \<noteq> [] \<and> \<not> sensitive (lexical_names (trim p)) \<and> normalize_lexical p \<notin> set protected_dirs"
proof -
  let ?n = "lexical_names (trim p)"
  have n: "normalize_lexical p = path_text ?n" by (rule normalize_names)
  have dirs: "normalize_lexical p \<notin> set protected_dirs"
    using assms protected_dirs_normal
    by (auto simp: is_protected_host_mutation_def is_protected_path_def Let_def list_all_iff)
  have "normalize_lexical ''/'' = ''/''" by code_simp
  then have "?n \<noteq> []"
    using assms by (auto simp: is_protected_host_mutation_def is_protected_path_def n path_text_def Let_def)
  moreover have "\<not> list_ex (\<lambda>t. path_text ?n = t) sensitive_trees"
    using dirs unfolding n by (auto simp: sensitive_trees_def protected_dirs_def)
  then have "\<not> sensitive ?n"
    using assms in_tree_iff [OF lexical_all_plain, of "trim p"]
    by (auto simp: is_protected_host_mutation_def n Let_def list_ex_iff)
  ultimately show ?thesis using dirs by blast
qed

theorem mutation_guard_sound:
  assumes "starts_with p ''/''" and "\<not> is_protected_host_mutation p"
  shows "lexical_names p \<noteq> [] \<and> \<not> sensitive (lexical_names p) \<and> path_text (lexical_names p) \<notin> set protected_dirs"
proof -
  note M = mutation_guard_names [OF assms(2)]
  have "lexical_names p \<noteq> []"
    using assms(1) M by (cases rule: trimmed_names) auto
  moreover have "\<not> sensitive (lexical_names p)" using sensitive_seen [OF assms(1)] M by blast
  moreover have "path_text (lexical_names p) \<noteq> q" if "q \<in> set protected_dirs" for q
  proof
    assume "path_text (lexical_names p) = q"
    moreover have "\<not> list_ex ws_char q"
      using that by (auto simp: protected_dirs_def ws_char_def ws1_def ws2_def ws3_def)
    ultimately have "normalize_lexical p = q" by (rule lexical_seen [OF assms(1)])
    with that M show False by simp
  qed
  ultimately show ?thesis by blast
qed

end
