(* ===== verification/Host_Fs.thy ===== *)
theory Host_Fs
  imports Paths "HOL-Library.Sublist"
begin

text \<open>
  The file system the file manager works on: directories, files and symbolic links by physical
  path (the names from the root), and the calls of \<open>std::fs\<close> and \<open>std::path\<close> the code uses, with
  the resolution rules of the kernel: every symbolic link is followed except the last component
  where the call does not follow it, at most 40 links. Paths carry no NUL byte. \<open>may d\<close> says whether the caller may change
  the entries of the directory \<open>d\<close>; it is constant for root.
\<close>

section \<open>State and resolution\<close>

datatype fnode = Dir | File string | Link string

type_synonym ppath = "string list"
type_synonym fsys = "ppath \<Rightarrow> fnode option"

datatype io_err = NotFound | AlreadyExists | CrossDev | OtherIo

definition is_dir_at :: "fsys \<Rightarrow> ppath \<Rightarrow> bool" where
  "is_dir_at F p \<longleftrightarrow> p = [] \<or> F p = Some Dir"

definition is_absolute :: "string \<Rightarrow> bool" where
  "is_absolute p \<longleftrightarrow> starts_with p ''/''"

text \<open>The directory a path starts from and its components as the kernel sees them.\<close>

definition start_of :: "ppath \<Rightarrow> string \<Rightarrow> ppath" where
  "start_of cwd p = (if is_absolute p then [] else cwd)"

definition segs_of :: "string \<Rightarrow> string list" where
  "segs_of p = (if is_absolute p then tl (split_on CHR ''/'' p) else split_on CHR ''/'' p)"

lemma segs_not_Nil: "segs_of p \<noteq> []"
proof (cases "is_absolute p")
  case True
  then obtain q where "p = CHR ''/'' # q" by (auto simp: is_absolute_def starts_with_iff)
  with True show ?thesis by (simp add: segs_of_def)
qed (simp add: segs_of_def)

lemma segs_no_slash: "s \<in> set (segs_of p) \<Longrightarrow> CHR ''/'' \<notin> set s"
  using split_on_no_sep [of s "CHR ''/''" p] list.set_sel(2) [OF split_on_not_Nil [of "CHR ''/''" p], of s]
  by (auto simp: segs_of_def split: if_splits)

text \<open>With \<open>creat\<close> the last component may be absent (\<open>O_CREAT\<close>).\<close>

function walk :: "fsys \<Rightarrow> bool \<Rightarrow> nat \<Rightarrow> ppath \<Rightarrow> string list \<Rightarrow> io_err + ppath" where
  "walk F creat n cur [] = Inr cur"
| "walk F creat n cur (s # ss) =
     (if \<not> is_dir_at F cur then Inl OtherIo
      else if s = [] \<or> s = ''.'' then walk F creat n cur ss
      else if s = ''..'' then walk F creat n (butlast cur) ss
      else (case F (cur @ [s]) of
          None \<Rightarrow> if creat \<and> ss = [] then Inr (cur @ [s]) else Inl NotFound
        | Some (Link t) \<Rightarrow>
            (case n of 0 \<Rightarrow> Inl OtherIo | Suc m \<Rightarrow> walk F creat m (start_of cur t) (segs_of t @ ss))
        | Some _ \<Rightarrow> walk F creat n (cur @ [s]) ss))"
  by pat_completeness auto
termination
  by (relation "(\<lambda>(F, creat, n, cur, ss). n) <*mlex*> measure (\<lambda>(F, creat, n, cur, ss). length ss)")
    (auto simp: mlex_prod_def)

definition MAX_LINKS :: nat where "MAX_LINKS = 40"

definition resolve :: "fsys \<Rightarrow> ppath \<Rightarrow> string list \<Rightarrow> io_err + ppath" where
  "resolve F st ss = walk F False MAX_LINKS st ss"

definition canonicalize :: "fsys \<Rightarrow> ppath \<Rightarrow> string \<Rightarrow> io_err + ppath" where
  "canonicalize F cwd p = (if p = [] then Inl NotFound else resolve F (start_of cwd p) (segs_of p))"

text \<open>The entry a path names: its directory and last component; \<open>None\<close> where the last component is
  no name.\<close>

definition strip_slashes :: "string list \<Rightarrow> string list" where
  "strip_slashes ss = rev (dropWhile (\<lambda>s. s = []) (rev ss))"

definition last_name :: "string list \<Rightarrow> string option" where
  "last_name ss =
     (let r = strip_slashes ss in if r = [] \<or> last r = ''.'' \<or> last r = ''..'' then None else Some (last r))"

definition entry_of :: "fsys \<Rightarrow> ppath \<Rightarrow> string list \<Rightarrow> io_err + ppath" where
  "entry_of F st ss =
     (case last_name ss of
        None \<Rightarrow> Inl OtherIo
      | Some s \<Rightarrow> (case resolve F st (butlast (strip_slashes ss)) of
            Inl e \<Rightarrow> Inl e
          | Inr d \<Rightarrow> if is_dir_at F d then Inr (d @ [s]) else Inl OtherIo))"

text \<open>\<open>lstat\<close>: a trailing slash, \<open>.\<close> or \<open>..\<close> makes the kernel follow the path.\<close>

definition node_at :: "fsys \<Rightarrow> ppath \<Rightarrow> fnode option" where
  "node_at F p = (if p = [] then Some Dir else F p)"

definition follows :: "string list \<Rightarrow> bool" where
  "follows ss \<longleftrightarrow> last ss = [] \<or> last_name ss = None"

definition lstat :: "fsys \<Rightarrow> ppath \<Rightarrow> string list \<Rightarrow> fnode option" where
  "lstat F st ss =
     (case (if follows ss then resolve F st ss else entry_of F st ss) of
        Inr p \<Rightarrow> node_at F p | Inl _ \<Rightarrow> None)"

definition stat :: "fsys \<Rightarrow> ppath \<Rightarrow> string list \<Rightarrow> fnode option" where
  "stat F st ss = (case resolve F st ss of Inr p \<Rightarrow> node_at F p | Inl _ \<Rightarrow> None)"

section \<open>Changes\<close>

type_synonym 'a io = "fsys \<times> (io_err + 'a)"

definition mkdir :: "(ppath \<Rightarrow> bool) \<Rightarrow> ppath \<Rightarrow> string list \<Rightarrow> fsys \<Rightarrow> unit io" where
  "mkdir may st ss F =
     (let r = strip_slashes ss in
      if r = [] then (F, Inl AlreadyExists)
      else (case resolve F st (butlast r) of
              Inl e \<Rightarrow> (F, Inl e)
            | Inr d \<Rightarrow>
                if \<not> is_dir_at F d then (F, Inl OtherIo)
                else if last_name ss = None then (F, Inl AlreadyExists)
                else if F (d @ [last r]) \<noteq> None then (F, Inl AlreadyExists)
                else if may d then (F(d @ [last r] \<mapsto> Dir), Inr ())
                else (F, Inl OtherIo)))"

text \<open>\<open>Path::parent\<close> and \<open>Path::file_name\<close> on the components: empty ones and \<open>.\<close> do not count.\<close>

definition path_trim :: "string list \<Rightarrow> string list" where
  "path_trim ss = rev (dropWhile (\<lambda>s. s = [] \<or> s = ''.'') (rev ss))"

definition path_parent :: "string list \<Rightarrow> string list" where
  "path_parent ss = path_trim (butlast (path_trim ss))"

definition file_name :: "string list \<Rightarrow> string option" where
  "file_name ss = (let r = path_trim ss in if r = [] \<or> last r = ''..'' then None else Some (last r))"

lemma length_path_trim: "length (path_trim ss) \<le> length ss"
  using length_dropWhile_le [of "\<lambda>s. s = [] \<or> s = ''.''" "rev ss"] by (simp add: path_trim_def)

lemma length_path_parent: "path_trim ss \<noteq> [] \<Longrightarrow> length (path_parent ss) < length ss"
  using length_path_trim [of ss] length_path_trim [of "butlast (path_trim ss)"]
  by (cases "length (path_trim ss)") (simp_all add: path_parent_def)

function create_dir_all :: "(ppath \<Rightarrow> bool) \<Rightarrow> ppath \<Rightarrow> string list \<Rightarrow> fsys \<Rightarrow> unit io" where
  "create_dir_all may st ss F =
     (case mkdir may st ss F of
        (F1, Inr _) \<Rightarrow> (F1, Inr ())
      | (F1, Inl e) \<Rightarrow>
          if e \<noteq> NotFound then (F1, if stat F1 st ss = Some Dir then Inr () else Inl e)
          else if path_trim ss = [] then (F1, Inl OtherIo)
          else (case create_dir_all may st (path_parent ss) F1 of
              (F2, Inl e2) \<Rightarrow> (F2, Inl e2)
            | (F2, Inr _) \<Rightarrow> (case mkdir may st ss F2 of
                  (F3, Inr _) \<Rightarrow> (F3, Inr ())
                | (F3, Inl e3) \<Rightarrow> (F3, if stat F3 st ss = Some Dir then Inr () else Inl e3))))"
  by pat_completeness auto
termination
  by (relation "measure (\<lambda>(may, st, ss, F). length ss)") (auto simp: length_path_parent)

declare create_dir_all.simps [simp del]

text \<open>\<open>unlink\<close>, the recursive removal and the move of a subtree.\<close>

definition remove_file :: "(ppath \<Rightarrow> bool) \<Rightarrow> ppath \<Rightarrow> string list \<Rightarrow> fsys \<Rightarrow> unit io" where
  "remove_file may st ss F =
     (if last ss = [] then (F, Inl OtherIo)
      else (case entry_of F st ss of
        Inl e \<Rightarrow> (F, Inl e)
      | Inr p \<Rightarrow> (case F p of
            None \<Rightarrow> (F, Inl NotFound)
          | Some Dir \<Rightarrow> (F, Inl OtherIo)
          | Some _ \<Rightarrow> if may (butlast p) then (F(p := None), Inr ()) else (F, Inl OtherIo))))"

definition drop_below :: "ppath \<Rightarrow> fsys \<Rightarrow> fsys" where
  "drop_below q F = (\<lambda>p. if strict_prefix q p then None else F p)"

text \<open>The entries of the tree go first; the directory itself goes when the path names it.\<close>

definition remove_dir_all :: "(ppath \<Rightarrow> bool) \<Rightarrow> ppath \<Rightarrow> string list \<Rightarrow> fsys \<Rightarrow> unit io" where
  "remove_dir_all may st ss F =
     (case lstat F st ss of
        None \<Rightarrow> (F, Inl NotFound)
      | Some (Link _) \<Rightarrow> remove_file may st ss F
      | Some (File _) \<Rightarrow> (F, Inl OtherIo)
      | Some Dir \<Rightarrow>
          (case resolve F st ss of
             Inl e \<Rightarrow> (F, Inl e)
           | Inr q \<Rightarrow>
               if \<not> may q then (F, Inl OtherIo)
               else (let F1 = drop_below q F in
                 case entry_of F st ss of
                   Inr p \<Rightarrow> if p = q \<and> may (butlast q) then (F1(q := None), Inr ()) else (F1, Inl OtherIo)
                 | Inl e \<Rightarrow> (F1, Inl e))))"

definition move_tree :: "ppath \<Rightarrow> ppath \<Rightarrow> fsys \<Rightarrow> fsys" where
  "move_tree a b F = (\<lambda>p. if prefix b p then F (a @ drop (length b) p) else if prefix a p then None else F p)"

text \<open>\<open>rename\<close> to an absent entry; \<open>xdev\<close> tells whether the two directories are on different
  devices.\<close>

definition rename_entry :: "(ppath \<Rightarrow> bool) \<Rightarrow> (ppath \<Rightarrow> ppath \<Rightarrow> bool) \<Rightarrow> ppath \<Rightarrow> string list \<Rightarrow> ppath \<Rightarrow> string list \<Rightarrow>
    fsys \<Rightarrow> unit io" where
  "rename_entry may xdev st ss st' ss' F =
     (case (entry_of F st ss, entry_of F st' ss') of
        (Inl e, _) \<Rightarrow> (F, Inl e)
      | (Inr a, Inl e) \<Rightarrow> (F, Inl e)
      | (Inr a, Inr b) \<Rightarrow>
          if xdev (butlast a) (butlast b) then (F, Inl CrossDev)
          else if F a = None then (F, Inl NotFound)
          else if F b \<noteq> None \<or> prefix a b then (F, Inl OtherIo)
          else if (last ss = [] \<or> last ss' = []) \<and> F a \<noteq> Some Dir then (F, Inl OtherIo)
          else if may (butlast a) \<and> may (butlast b) then (move_tree a b F, Inr ())
          else (F, Inl OtherIo))"

text \<open>Opening for writing with \<open>O_CREAT\<close> and \<open>O_TRUNC\<close>, then writing: links are followed.\<close>

definition write_path :: "(ppath \<Rightarrow> bool) \<Rightarrow> ppath \<Rightarrow> string list \<Rightarrow> string \<Rightarrow> fsys \<Rightarrow> unit io" where
  "write_path may st ss content F =
     (case walk F True MAX_LINKS st ss of
        Inl e \<Rightarrow> (F, Inl e)
      | Inr p \<Rightarrow>
          if is_dir_at F p \<or> \<not> may (butlast p) then (F, Inl OtherIo)
          else (F(p \<mapsto> File content), Inr ()))"

section \<open>Well-formed file systems\<close>

text \<open>Every entry has a plain name and lies in a directory.\<close>

definition fs_ok :: "fsys \<Rightarrow> bool" where
  "fs_ok F \<longleftrightarrow> F [] = None \<and> (\<forall>p. F p \<noteq> None \<longrightarrow> plain_name (last p) \<and> is_dir_at F (butlast p))"

lemma fs_okD: "fs_ok F \<Longrightarrow> F p \<noteq> None \<Longrightarrow> p \<noteq> [] \<and> plain_name (last p) \<and> is_dir_at F (butlast p)"
  unfolding fs_ok_def by (metis)

lemma is_dir_butlast: "fs_ok F \<Longrightarrow> is_dir_at F p \<Longrightarrow> is_dir_at F (butlast p)"
  by (cases "p = []") (auto simp: is_dir_at_def dest: fs_okD)

lemma fs_ok_plain:
  assumes "fs_ok F" and "p = [] \<or> F p \<noteq> None"
  shows "\<forall>s \<in> set p. plain_name s"
  using assms(2)
proof (induction p rule: rev_induct)
  case (snoc s p)
  then have "F (p @ [s]) \<noteq> None" by simp
  from fs_okD [OF assms(1) this] have "plain_name s" "is_dir_at F p" by simp_all
  with snoc.IH show ?case by (auto simp: is_dir_at_def)
qed simp

section \<open>Resolution\<close>

text \<open>Successful resolution as a relation.\<close>

definition step_name :: "string \<Rightarrow> bool" where
  "step_name s \<longleftrightarrow> s \<noteq> [] \<and> s \<noteq> ''.'' \<and> s \<noteq> ''..''"

inductive walks :: "fsys \<Rightarrow> bool \<Rightarrow> nat \<Rightarrow> ppath \<Rightarrow> string list \<Rightarrow> ppath \<Rightarrow> bool" for F c where
  stop: "walks F c n cur [] cur"
| dot: "is_dir_at F cur \<Longrightarrow> s = [] \<or> s = ''.'' \<Longrightarrow> walks F c n cur ss p \<Longrightarrow> walks F c n cur (s # ss) p"
| up: "is_dir_at F cur \<Longrightarrow> walks F c n (butlast cur) ss p \<Longrightarrow> walks F c n cur (''..'' # ss) p"
| new: "is_dir_at F cur \<Longrightarrow> step_name s \<Longrightarrow> F (cur @ [s]) = None \<Longrightarrow> c \<Longrightarrow> walks F c n cur [s] (cur @ [s])"
| link: "is_dir_at F cur \<Longrightarrow> step_name s \<Longrightarrow> F (cur @ [s]) = Some (Link t) \<Longrightarrow>
    walks F c m (start_of cur t) (segs_of t @ ss) p \<Longrightarrow> walks F c (Suc m) cur (s # ss) p"
| node: "is_dir_at F cur \<Longrightarrow> step_name s \<Longrightarrow> F (cur @ [s]) = Some v \<Longrightarrow> (\<forall>t. v \<noteq> Link t) \<Longrightarrow>
    walks F c n (cur @ [s]) ss p \<Longrightarrow> walks F c n cur (s # ss) p"

inductive_cases walks_NilE [elim!]: "walks F c n cur [] p"
inductive_cases walks_ConsE: "walks F c n cur (s # ss) p"

lemma walk_walks: "walk F c n cur ss = Inr p \<Longrightarrow> walks F c n cur ss p"
proof (induction F c n cur ss rule: walk.induct)
  case (2 F c n cur s ss)
  have d: "is_dir_at F cur" using "2.prems" by (auto split: if_splits)
  consider "s = [] \<or> s = ''.''" | "s = ''..''" | "step_name s" by (auto simp: step_name_def)
  then show ?case
  proof cases
    case 1
    with 2 d show ?thesis by (auto intro: walks.dot)
  next
    case 2
    with "2.IH"(2) "2.prems" d show ?thesis by (auto intro: walks.up)
  next
    case 3
    then have n: "\<not> (s = [] \<or> s = ''.'')" "s \<noteq> ''..''" by (auto simp: step_name_def)
    note IH = "2.IH"(3-) [OF _ n]
    show ?thesis
    proof (cases "F (cur @ [s])")
      case None
      with "2.prems" d n 3 show ?thesis by (auto split: if_splits intro: walks.new)
    next
      case (Some v)
      with "2.prems" IH d n 3 show ?thesis
        by (cases v) (auto split: nat.splits intro: walks.link walks.node)
    qed
  qed
qed (auto intro: walks.stop)

lemma walks_walk: "walks F c n cur ss p \<Longrightarrow> walk F c n cur ss = Inr p"
proof (induction rule: walks.induct)
  case (node cur s v n ss p)
  then show ?case by (cases v) (auto simp: step_name_def)
qed (auto simp: step_name_def)

lemma walk_iff: "walk F c n cur ss = Inr p \<longleftrightarrow> walks F c n cur ss p"
  using walk_walks walks_walk by blast

text \<open>The last component is looked up in the directory the others resolve to.\<close>

lemma walks_snoc:
  "walks F c n cur (pre @ [s]) p \<Longrightarrow> \<exists>m d. m \<le> n \<and> walks F False n cur pre d \<and> walks F c m d [s] p"
proof (induction n cur "pre @ [s]" p arbitrary: pre rule: walks.induct)
  case (dot cur x n ss p)
  then show ?case by (cases pre) (auto intro: walks.intros)
next
  case (up cur n ss p)
  then show ?case by (cases pre) (auto intro: walks.intros)
next
  case (new cur x n)
  then show ?case by (cases pre) (auto intro: walks.intros)
next
  case (link cur x t m ss p)
  show ?case
  proof (cases pre)
    case Nil
    with link have "walks F c (Suc m) cur [s] p" by (intro walks.link) auto
    with Nil show ?thesis by (auto intro: walks.stop)
  next
    case (Cons y ys)
    with link(6) have y: "y = x" "ss = ys @ [s]" by simp_all
    from link(5) [of "segs_of t @ ys"] y(2) obtain k d where
      "k \<le> m" "walks F False m (start_of cur t) (segs_of t @ ys) d" "walks F c k d [s] p" by auto
    with link(1-3) Cons y show ?thesis by (intro exI [of _ k] exI [of _ d]) (auto intro: walks.link)
  qed
next
  case (node cur x v n ss p)
  show ?case
  proof (cases pre)
    case Nil
    with node show ?thesis by (auto intro: walks.intros)
  next
    case (Cons y ys)
    with node(7) have y: "y = x" "ss = ys @ [s]" by simp_all
    from node(6) [OF y(2)] obtain k d where
      "k \<le> n" "walks F False n (cur @ [x]) ys d" "walks F c k d [s] p" by auto
    with node(1-4) Cons y show ?thesis by (intro exI [of _ k] exI [of _ d]) (auto intro: walks.node)
  qed
qed auto

lemma walks_append_node:
  "walks F False n cur pre d \<Longrightarrow> is_dir_at F d \<Longrightarrow> step_name s \<Longrightarrow> F (d @ [s]) = Some v \<Longrightarrow> \<forall>t. v \<noteq> Link t \<Longrightarrow>
     walks F c n cur (pre @ [s]) (d @ [s])"
  by (induction rule: walks.induct) (auto intro: walks.intros)

lemma walks_append_dot:
  "walks F False n cur pre d \<Longrightarrow> is_dir_at F d \<Longrightarrow> s = [] \<or> s = ''.'' \<Longrightarrow> walks F c n cur (pre @ [s]) d"
  by (induction rule: walks.induct) (auto intro: walks.intros)

lemma walks_mono:
  assumes "walks F False n cur ss p" and "F \<subseteq>\<^sub>m G"
  shows "walks G False n cur ss p"
proof -
  have dir: "is_dir_at F d \<Longrightarrow> is_dir_at G d" for d
    using assms(2) by (auto simp: is_dir_at_def map_le_def dom_def)
  have ent: "F q = Some v \<Longrightarrow> G q = Some v" for q v
    using assms(2) by (auto simp: map_le_def dom_def)
  from assms(1) show ?thesis
    by (induction rule: walks.induct) (auto intro: walks.intros dir ent)
qed

lemma walks_plain:
  assumes "fs_ok F"
  shows "walks F False n cur ss p \<Longrightarrow> is_dir_at F cur \<Longrightarrow> p = [] \<or> F p \<noteq> None"
proof (induction rule: walks.induct)
  case (link cur s t m ss p)
  then show ?case by (auto simp: start_of_def is_dir_at_def)
next
  case (node cur s v n ss p)
  then show ?case by (cases ss) (auto elim: walks_ConsE)
next
  case (up cur n ss p)
  then show ?case using is_dir_butlast [OF assms] by blast
qed (auto simp: is_dir_at_def)

end
