(* ===== verification/Host_Files.thy ===== *)
theory Host_Files
  imports Host_Fs
begin

text \<open>
  The file manager on the host (\<open>src/infra/file/hostfs.rs\<close>, \<open>ops.rs\<close>), the helper that runs as a
  system user (\<open>fshelper.rs\<close>) and the routing of \<open>src/app/files/service.rs\<close>. Without a user the
  operation runs as root, guarded by the lexical guard and by what the path resolves to. Listing
  and reading change nothing and are left out.
\<close>

section \<open>Guards\<close>

record host_env =
  he_cwd :: ppath
  he_user :: "string \<Rightarrow> bool"
  he_may :: "string \<Rightarrow> ppath \<Rightarrow> bool"
  he_xdev :: "ppath \<Rightarrow> ppath \<Rightarrow> bool"

datatype file_err = EmptyPath | ProtectedPath | NotAbsolutePath | TargetExists | TargetIsLink | HelperFailed
  | CrossDevice | IoFailed io_err

definition root_may :: "ppath \<Rightarrow> bool" where "root_may = (\<lambda>_. True)"

definition check_abs :: "string \<Rightarrow> bool" where
  "check_abs path \<longleftrightarrow> starts_with path ''/''"

definition path_exists :: "fsys \<Rightarrow> bool \<Rightarrow> ppath \<Rightarrow> string list \<Rightarrow> bool" where
  "path_exists F absolute st ss \<longleftrightarrow> \<not> (ss = [] \<and> \<not> absolute) \<and> stat F st ss \<noteq> None"

text \<open>The longest existing prefix and the names that follow it, last first.\<close>

function existing_prefix :: "fsys \<Rightarrow> bool \<Rightarrow> ppath \<Rightarrow> string list \<Rightarrow> string list \<Rightarrow> string list \<times> string list" where
  "existing_prefix F absolute st ss tail =
     (if path_exists F absolute st ss then (ss, tail)
      else (case file_name ss of
          Some n \<Rightarrow> existing_prefix F absolute st (path_parent ss) (tail @ [n])
        | None \<Rightarrow> (ss, tail)))"
  by pat_completeness auto
termination
  by (relation "measure (\<lambda>(F, absolute, st, ss, tail). length ss)")
    (auto simp: length_path_parent file_name_def Let_def split: if_splits)

declare existing_prefix.simps [simp del]

definition resolves_into_protected :: "host_env \<Rightarrow> string \<Rightarrow> fsys \<Rightarrow> bool" where
  "resolves_into_protected E path F =
     (let a = is_absolute path; st = start_of (he_cwd E) path in
      case existing_prefix F a st (segs_of path) [] of
        (ex, tail) \<Rightarrow>
          if ex = [] \<and> \<not> a then False
          else (case resolve F st ex of
              Inl _ \<Rightarrow> False
            | Inr q \<Rightarrow> is_protected_host_mutation (path_text (q @ rev tail))))"

section \<open>The helper\<close>

text \<open>\<open>__fshelper\<close> drops to the user, then performs one operation; its result is an exit code.\<close>

definition op_mkdir :: "(ppath \<Rightarrow> bool) \<Rightarrow> ppath \<Rightarrow> string \<Rightarrow> fsys \<Rightarrow> fsys \<times> nat" where
  "op_mkdir may cwd path F =
     (if path = [] then (F, 0)
      else (case create_dir_all may (start_of cwd path) (segs_of path) F of
        (F1, Inr _) \<Rightarrow> (F1, 0) | (F1, Inl _) \<Rightarrow> (F1, 1)))"

definition op_remove :: "(ppath \<Rightarrow> bool) \<Rightarrow> ppath \<Rightarrow> string \<Rightarrow> fsys \<Rightarrow> fsys \<times> nat" where
  "op_remove may cwd path F =
     (let st = start_of cwd path; ss = segs_of path;
          code = (\<lambda>r. case r of (F1, Inr ()) \<Rightarrow> (F1, 0) | (F1, Inl _) \<Rightarrow> (F1, 1))
      in if path = [] then (F, 0)
         else (case lstat F st ss of
           Some Dir \<Rightarrow> code (remove_dir_all may st ss F)
         | Some _ \<Rightarrow> code (remove_file may st ss F)
         | None \<Rightarrow> (F, 0)))"

definition op_write :: "(ppath \<Rightarrow> bool) \<Rightarrow> ppath \<Rightarrow> string \<Rightarrow> string \<Rightarrow> fsys \<Rightarrow> fsys \<times> nat" where
  "op_write may cwd path content F =
     (case write_path may (start_of cwd path) (segs_of path) content F of
        (F1, Inr _) \<Rightarrow> (F1, 0) | (F1, Inl _) \<Rightarrow> (F1, 1))"

definition op_stat :: "ppath \<Rightarrow> string \<Rightarrow> fsys \<Rightarrow> nat" where
  "op_stat cwd path F = (if path \<noteq> [] \<and> lstat F (start_of cwd path) (segs_of path) \<noteq> None then 0 else 7)"

definition op_rename :: "(ppath \<Rightarrow> bool) \<Rightarrow> (ppath \<Rightarrow> ppath \<Rightarrow> bool) \<Rightarrow> ppath \<Rightarrow> string \<Rightarrow> string \<Rightarrow> fsys \<Rightarrow> fsys \<times> nat" where
  "op_rename may xdev cwd path input F =
     (let dest = rev (dropWhile (\<lambda>c. c = CHR 0x0A) (rev input)) in
      if dest = [] \<or> \<not> starts_with dest ''/'' then (F, 2)
      else if lstat F [] (segs_of dest) \<noteq> None then (F, 8)
      else (case rename_entry may xdev (start_of cwd path) (segs_of path) [] (segs_of dest) F of
        (F1, Inr _) \<Rightarrow> (F1, 0) | (F1, Inl _) \<Rightarrow> (F1, 1)))"

definition run_fs_helper :: "host_env \<Rightarrow> string \<Rightarrow> ((ppath \<Rightarrow> bool) \<Rightarrow> fsys \<Rightarrow> fsys \<times> nat) \<Rightarrow> fsys \<Rightarrow> fsys \<times> nat" where
  "run_fs_helper E user op F = (if he_user E user then op (he_may E user) F else (F, 111))"

section \<open>Host operations\<close>

definition as_io :: "unit io \<Rightarrow> fsys \<times> (file_err + unit)" where
  "as_io r = (case r of (F, Inl e) \<Rightarrow> (F, Inl (IoFailed e)) | (F, Inr _) \<Rightarrow> (F, Inr ()))"

definition helper_ok :: "fsys \<times> nat \<Rightarrow> fsys \<times> (file_err + unit)" where
  "helper_ok r = (case r of (F, code) \<Rightarrow> (F, if code = 0 then Inr () else Inl HelperFailed))"

definition web_host_exists :: "host_env \<Rightarrow> string \<Rightarrow> string option \<Rightarrow> fsys \<Rightarrow> file_err + bool" where
  "web_host_exists E path as_user F =
     (case as_user of
        Some u \<Rightarrow> if \<not> check_abs path then Inl NotAbsolutePath
          else Inr (snd (run_fs_helper E u (\<lambda>_ F. (F, op_stat (he_cwd E) path F)) F) = 0)
      | None \<Rightarrow> Inr (path \<noteq> [] \<and> lstat F (start_of (he_cwd E) path) (segs_of path) \<noteq> None))"

definition web_host_mkdir :: "host_env \<Rightarrow> string \<Rightarrow> string option \<Rightarrow> fsys \<Rightarrow> fsys \<times> (file_err + unit)" where
  "web_host_mkdir E path as_user F =
     (if trim path = [] then (F, Inl EmptyPath)
      else if is_protected_host_mutation path then (F, Inl ProtectedPath)
      else (case as_user of
        Some u \<Rightarrow> if \<not> check_abs path then (F, Inl NotAbsolutePath)
          else helper_ok (run_fs_helper E u (\<lambda>may. op_mkdir may (he_cwd E) path) F)
      | None \<Rightarrow> if resolves_into_protected E path F then (F, Inl ProtectedPath)
          else as_io (create_dir_all root_may (start_of (he_cwd E) path) (segs_of path) F)))"

definition web_host_delete :: "host_env \<Rightarrow> string \<Rightarrow> string option \<Rightarrow> fsys \<Rightarrow> fsys \<times> (file_err + unit)" where
  "web_host_delete E path as_user F =
     (if is_protected_host_mutation path then (F, Inl ProtectedPath)
      else (case as_user of
        Some u \<Rightarrow> if \<not> check_abs path then (F, Inl NotAbsolutePath)
          else helper_ok (run_fs_helper E u (\<lambda>may. op_remove may (he_cwd E) path) F)
      | None \<Rightarrow>
          if (case canonicalize F (he_cwd E) path of
                Inr q \<Rightarrow> is_protected_host_mutation (path_text q) | Inl _ \<Rightarrow> False)
          then (F, Inl ProtectedPath)
          else (let st = start_of (he_cwd E) path; ss = segs_of path in
            if stat F st ss = Some Dir then as_io (remove_dir_all root_may st ss F)
            else as_io (remove_file root_may st ss F))))"

definition web_host_rename :: "host_env \<Rightarrow> string \<Rightarrow> string \<Rightarrow> string option \<Rightarrow> fsys \<Rightarrow> fsys \<times> (file_err + unit)" where
  "web_host_rename E src dst as_user F =
     (if trim src = [] \<or> trim dst = [] then (F, Inl EmptyPath)
      else if is_protected_host_mutation src \<or> is_protected_host_mutation dst then (F, Inl ProtectedPath)
      else if \<not> check_abs src \<or> \<not> check_abs dst then (F, Inl NotAbsolutePath)
      else (case as_user of
        Some u \<Rightarrow> (case run_fs_helper E u (\<lambda>may. op_rename may (he_xdev E) (he_cwd E) src dst) F of
            (F1, code) \<Rightarrow> (F1, if code = 0 then Inr () else if code = 8 then Inl TargetExists else Inl HelperFailed))
      | None \<Rightarrow>
          if resolves_into_protected E src F \<or> resolves_into_protected E dst F then (F, Inl ProtectedPath)
          else if lstat F [] (segs_of dst) \<noteq> None then (F, Inl TargetExists)
          else (case rename_entry root_may (he_xdev E) [] (segs_of src) [] (segs_of dst) F of
              (F1, Inr _) \<Rightarrow> (F1, Inr ())
            | (F1, Inl e) \<Rightarrow> (F1, Inl (if e = CrossDev then CrossDevice else IoFailed e)))))"

text \<open>\<open>content\<close> is the staged upload.\<close>

definition web_host_write_file :: "host_env \<Rightarrow> string \<Rightarrow> string \<Rightarrow> string option \<Rightarrow> fsys \<Rightarrow> fsys \<times> (file_err + unit)" where
  "web_host_write_file E dest content as_user F =
     (if trim dest = [] then (F, Inl EmptyPath)
      else if is_protected_host_mutation dest then (F, Inl ProtectedPath)
      else (case as_user of
        Some u \<Rightarrow> if \<not> check_abs dest then (F, Inl NotAbsolutePath)
          else helper_ok (run_fs_helper E u (\<lambda>may. op_write may (he_cwd E) dest content) F)
      | None \<Rightarrow>
          if resolves_into_protected E dest F then (F, Inl ProtectedPath)
          else (case lstat F (start_of (he_cwd E) dest) (segs_of dest) of
              Some (Link _) \<Rightarrow> (F, Inl TargetIsLink)
            | _ \<Rightarrow> as_io (write_path root_may (start_of (he_cwd E) dest) (segs_of dest) content F))))"

section \<open>Routing\<close>

text \<open>Container operations are for administrators; the container arm is a parameter.\<close>

record caller =
  ca_is_admin :: bool
  ca_system_user :: "string option"

datatype fs_error = ForbiddenFs | OpFs file_err

definition fs_dispatch :: "caller \<Rightarrow> string option \<Rightarrow> (string \<Rightarrow> fsys \<Rightarrow> fsys \<times> (file_err + 'a)) \<Rightarrow>
    (string option \<Rightarrow> fsys \<Rightarrow> fsys \<times> (file_err + 'a)) \<Rightarrow> fsys \<Rightarrow> fsys \<times> (fs_error + 'a)" where
  "fs_dispatch c container ctn host F =
     (let wrap = (\<lambda>r. case r of (F1, Inl e) \<Rightarrow> (F1, Inl (OpFs e)) | (F1, Inr x) \<Rightarrow> (F1, Inr x)) in
      case container of
        Some n \<Rightarrow> if ca_is_admin c then wrap (ctn n F) else (F, Inl ForbiddenFs)
      | None \<Rightarrow> wrap (host (ca_system_user c) F))"

section \<open>What the guards achieve\<close>

definition sensitive_kept :: "fsys \<Rightarrow> fsys \<Rightarrow> bool" where
  "sensitive_kept F G \<longleftrightarrow> (\<forall>q. sensitive q \<longrightarrow> G q = F q)"

lemma starts_path_text: "starts_with (path_text p) ''/''"
  by (simp add: path_text_def starts_with_def)

lemma guard_safe:
  "\<forall>s \<in> set p. plain_name s \<Longrightarrow> \<not> is_protected_host_mutation (path_text p) \<Longrightarrow> p \<noteq> [] \<and> \<not> sensitive p"
  using mutation_guard_sound [OF starts_path_text, of p] by (simp add: lexical_path_text)

lemma walks_root_plain: "fs_ok F \<Longrightarrow> walks F False n [] ss p \<Longrightarrow> \<forall>s \<in> set p. plain_name s"
  using walks_plain [of F n "[]" ss p] fs_ok_plain [of F p] by (auto simp: is_dir_at_def)

lemma resolve_iff: "resolve F st ss = Inr p \<longleftrightarrow> walks F False MAX_LINKS st ss p"
  by (simp add: resolve_def walk_iff)

lemma stat_None_iff: "stat F st ss = None \<longleftrightarrow> (\<forall>p. walks F False MAX_LINKS st ss p \<longrightarrow> node_at F p = None)"
  by (auto simp: stat_def resolve_iff [symmetric] split: sum.splits)

lemma stat_Some: "walks F False MAX_LINKS st ss p \<Longrightarrow> stat F st ss = node_at F p"
  by (simp add: stat_def resolve_iff [symmetric])

lemma segs_step_plain: "s \<in> set (segs_of p) \<Longrightarrow> step_name s \<Longrightarrow> plain_name s"
  using segs_no_slash by (auto simp: step_name_def plain_name_def)

lemma node_at_step: "node_at F (d @ [s]) = F (d @ [s])"
  by (simp add: node_at_def)

lemma path_trim_snoc: "path_trim (ss @ [s]) = (if s = [] \<or> s = ''.'' then path_trim ss else ss @ [s])"
  by (simp add: path_trim_def)

lemma walks_trim:
  "walks F False n st ss p \<Longrightarrow> walks F False n st (path_trim ss) p"
proof (induction ss arbitrary: p rule: rev_induct)
  case (snoc s ss)
  show ?case
  proof (cases "s = [] \<or> s = ''.''")
    case True
    from walks_snoc [OF snoc.prems] obtain m d where "walks F False n st ss d" "walks F False m d [s] p" by blast
    with True have "walks F False n st ss p" by (auto elim: walks_ConsE simp: step_name_def)
    with snoc.IH True show ?thesis by (simp add: path_trim_snoc)
  next
    case False
    with snoc.prems show ?thesis by (simp add: path_trim_snoc)
  qed
qed (simp add: path_trim_def)

lemma protected_false:
  assumes "\<not> resolves_into_protected E path F" and "is_absolute path"
    and "existing_prefix F True [] (segs_of path) [] = (ex, tail)" and "walks F False MAX_LINKS [] ex q"
  shows "\<not> is_protected_host_mutation (path_text (q @ rev tail))"
  using assms by (simp add: resolves_into_protected_def start_of_def resolve_iff [symmetric])

lemma absolute_exists: "path_exists F True st ss \<longleftrightarrow> stat F st ss \<noteq> None"
  by (simp add: path_exists_def)

text \<open>A target that exists is checked where it lies.\<close>

lemma checked_existing:
  assumes "fs_ok F" and "\<not> resolves_into_protected E path F" and "is_absolute path"
    and "walks F False MAX_LINKS [] (segs_of path) p"
  shows "p \<noteq> [] \<and> \<not> sensitive p"
proof -
  have "p = [] \<or> F p \<noteq> None" using walks_plain [OF assms(1,4)] by (simp add: is_dir_at_def)
  then have "stat F [] (segs_of path) \<noteq> None" by (auto simp: stat_Some [OF assms(4)] node_at_def)
  then have "existing_prefix F True [] (segs_of path) [] = (segs_of path, [])"
    by (subst existing_prefix.simps) (simp add: absolute_exists)
  from protected_false [OF assms(2,3) this assms(4)] show ?thesis
    using guard_safe [OF walks_root_plain [OF assms(1,4)]] by simp
qed

text \<open>A new entry is checked in the directory it is made in.\<close>

lemma checked_new:
  assumes "fs_ok F" and "\<not> resolves_into_protected E path F" and "is_absolute path"
    and "segs_of path = pre @ [s]" and "step_name s" and "walks F False MAX_LINKS [] pre d" and "is_dir_at F d"
    and "F (d @ [s]) = None"
  shows "\<not> sensitive (d @ [s])"
proof -
  have no: "stat F [] (pre @ [s]) = None"
  proof -
    { fix p
      assume "walks F False MAX_LINKS [] (pre @ [s]) p"
      from walks_snoc [OF this] obtain m d' where "walks F False MAX_LINKS [] pre d'" "walks F False m d' [s] p" by blast
      moreover from this(1) assms(6) have "d' = d" by (metis walk_iff sum.inject(2))
      ultimately have False using assms(5,8) by (auto elim: walks_ConsE simp: step_name_def) }
    then show ?thesis by (auto simp: stat_None_iff)
  qed
  have s: "s \<noteq> []" "s \<noteq> ''.''" "s \<noteq> ''..''" using assms(5) by (auto simp: step_name_def)
  then have fn: "file_name (pre @ [s]) = Some s" "path_parent (pre @ [s]) = path_trim pre"
    by (simp_all add: file_name_def path_parent_def path_trim_snoc)
  note w = walks_trim [OF assms(6)]
  have "d = [] \<or> F d \<noteq> None" using walks_plain [OF assms(1,6)] by (simp add: is_dir_at_def)
  then have "stat F [] (path_trim pre) \<noteq> None" by (auto simp: stat_Some [OF w] node_at_def)
  then have "existing_prefix F True [] (path_trim pre) [s] = (path_trim pre, [s])"
    by (subst existing_prefix.simps) (simp add: absolute_exists)
  then have "existing_prefix F True [] (segs_of path) [] = (path_trim pre, [s])"
    by (subst existing_prefix.simps) (simp add: assms(4) no absolute_exists fn)
  from protected_false [OF assms(2,3) this w] have "\<not> is_protected_host_mutation (path_text (d @ [s]))" by simp
  moreover have "\<forall>x \<in> set (d @ [s]). plain_name x"
    using walks_root_plain [OF assms(1,6)] segs_step_plain [of s path] assms(4,5) by auto
  ultimately show ?thesis using guard_safe by blast
qed

lemma follows_snoc: "step_name s \<Longrightarrow> \<not> follows (pre @ [s]) \<and> strip_slashes (pre @ [s]) = pre @ [s] \<and> last_name (pre @ [s]) = Some s"
  by (simp add: follows_def last_name_def strip_slashes_def step_name_def)

lemma lstat_snoc:
  "step_name s \<Longrightarrow> walks F False MAX_LINKS st pre d \<Longrightarrow> is_dir_at F d \<Longrightarrow> lstat F st (pre @ [s]) = F (d @ [s])"
  using follows_snoc [of s pre]
  by (simp add: lstat_def entry_of_def resolve_iff [symmetric] node_at_step)


text \<open>Removing what a path names leaves the sensitive trees alone, unless the last component is itself
  a symbolic link: then its target is checked and the link is removed wherever it lies.\<close>

theorem delete_confined:
  assumes "fs_ok F" and "is_absolute path" and "web_host_delete E path None F = (F', r)"
    and "\<forall>t. lstat F [] (segs_of path) \<noteq> Some (Link t)"
  shows "sensitive_kept F F'"
proof (cases "F' = F")
  case True
  then show ?thesis by (simp add: sensitive_kept_def)
next
  case False
  let ?ss = "segs_of path"
  have ne: "path \<noteq> []" using assms(2) by (auto simp: is_absolute_def starts_with_def)
  from assms(3) False ne have g: "\<And>q. resolve F [] ?ss = Inr q \<Longrightarrow> \<not> is_protected_host_mutation (path_text q)"
    by (auto simp: web_host_delete_def canonicalize_def start_of_def assms(2) split: if_splits sum.splits)
  have safe: "q \<noteq> [] \<and> \<not> sensitive q" if "resolve F [] ?ss = Inr q" for q
    using guard_safe [OF walks_root_plain [OF assms(1)] g [OF that]] that by (simp add: resolve_iff)
  from assms(3) False ne consider
      (dir) "as_io (remove_dir_all root_may [] ?ss F) = (F', r)"
    | (leaf) "as_io (remove_file root_may [] ?ss F) = (F', r)"
    by (auto simp: web_host_delete_def start_of_def assms(2) Let_def split: if_splits sum.splits)
  then show ?thesis
  proof cases
    case dir
    then obtain q where q: "resolve F [] ?ss = Inr q" "F' = drop_below q F \<or> F' = (drop_below q F)(q := None)"
      using False assms(4)
      by (auto simp: remove_dir_all_def remove_file_def as_io_def Let_def root_may_def
          split: option.splits fnode.splits sum.splits if_splits prod.splits)
    note safe [OF q(1)]
    then have "\<not> sensitive x" if "prefix q x" for x
      using that by (auto simp: prefix_def sensitive_append)
    then have "drop_below q F x = F x" if "sensitive x" for x
      using that by (auto simp: drop_below_def strict_prefix_def)
    moreover have "x \<noteq> q" if "sensitive x" for x using that safe [OF q(1)] by blast
    ultimately show ?thesis using q(2) by (auto simp: sensitive_kept_def)
  next
    case leaf
    then obtain p v where l: "last ?ss \<noteq> []" and e: "entry_of F [] ?ss = Inr p" and v: "F p = Some v" "v \<noteq> Dir"
      and F': "F' = F(p := None)"
      using False
      by (auto simp: remove_file_def as_io_def root_may_def split: option.splits fnode.splits sum.splits if_splits prod.splits)
    obtain pre s where ss: "?ss = pre @ [s]" using segs_not_Nil by (metis append_butlast_last_id)
    with l have str: "strip_slashes ?ss = ?ss" by (simp add: strip_slashes_def)
    with e l ss have s: "step_name s"
      by (auto simp: entry_of_def last_name_def step_name_def Let_def split: if_splits)
    with e ss str obtain d where d: "walks F False MAX_LINKS [] pre d" "is_dir_at F d" "p = d @ [s]"
      using follows_snoc [of s pre]
      by (auto simp: entry_of_def resolve_iff split: sum.splits if_splits)
    have "v \<noteq> Link t" for t using assms(4) lstat_snoc [OF s d(1,2)] ss d(3) v(1) by metis
    then have "walks F False MAX_LINKS [] ?ss p"
      unfolding ss d(3) using d v s by (intro walks_append_node) auto
    then have "\<not> sensitive p" using safe by (simp add: resolve_iff)
    with F' show ?thesis by (auto simp: sensitive_kept_def)
  qed
qed

section \<open>Directories\<close>

lemma path_trim_plain: "\<forall>s \<in> set ns. plain_name s \<Longrightarrow> path_trim ns = ns"
proof (cases ns rule: rev_cases)
  case (snoc ys y)
  assume "\<forall>s \<in> set ns. plain_name s"
  with snoc have "y \<noteq> []" "y \<noteq> ''.''" using plain_nameD [of y] by auto
  with snoc show ?thesis by (simp add: path_trim_snoc)
qed (simp add: path_trim_def)

lemma plain_step: "plain_name s \<Longrightarrow> step_name s"
  by (simp add: plain_name_def step_name_def)

lemma walks_fun: "walks F c n st ss p \<Longrightarrow> walks F c n st ss q \<Longrightarrow> p = q"
  by (metis walk_iff sum.inject(2))

lemma stat_snoc:
  assumes "step_name s" and "walks F False MAX_LINKS [] ms d" and "F (d @ [s]) = None"
  shows "stat F [] (ms @ [s]) = None"
proof -
  { fix p
    assume "walks F False MAX_LINKS [] (ms @ [s]) p"
    from walks_snoc [OF this] obtain m d' where "walks F False MAX_LINKS [] ms d'" "walks F False m d' [s] p" by blast
    moreover from this(1) assms(2) have "d' = d" by (rule walks_fun)
    ultimately have False using assms(1,3) by (auto elim: walks_ConsE simp: step_name_def) }
  then show ?thesis by (auto simp: stat_None_iff)
qed

lemma mkdir_snoc:
  assumes "step_name s" and "mkdir root_may st (ms @ [s]) F = (F', r)"
  shows "(F' = F \<and> (\<exists>e. r = Inl e \<and> (e = NotFound \<longleftrightarrow> resolve F st ms = Inl NotFound))) \<or>
    (\<exists>d. walks F False MAX_LINKS st ms d \<and> is_dir_at F d \<and> F (d @ [s]) = None \<and> F' = F(d @ [s] \<mapsto> Dir) \<and> r = Inr ())"
  using assms follows_snoc [of s ms]
  by (auto simp: mkdir_def Let_def root_may_def resolve_iff [symmetric] split: sum.splits if_splits)

lemma dir_chain:
  assumes "fs_ok F" and "F (e @ ts) \<noteq> None" and "i < length ts"
  shows "e @ take i ts = [] \<or> F (e @ take i ts) = Some Dir"
proof -
  have "is_dir_at F (e @ take (length ts - Suc k) ts)" if "k < length ts" for k
    using that
  proof (induction k)
    case 0
    with assms(3) have "butlast (e @ ts) = e @ take (length ts - Suc 0) ts"
      by (simp add: butlast_append butlast_conv_take)
    with fs_okD [OF assms(1,2)] show ?case by simp
  next
    case (Suc k)
    then have "is_dir_at F (e @ take (length ts - Suc k) ts)" by simp
    from is_dir_butlast [OF assms(1) this] have "is_dir_at F (butlast (e @ take (length ts - Suc k) ts))" .
    moreover have "butlast (e @ take (length ts - Suc k) ts) = e @ take (length ts - Suc (Suc k)) ts"
      using Suc.prems by (subst butlast_append) (auto simp: butlast_conv_take min_def)
    ultimately show ?case by simp
  qed
  from this [of "length ts - Suc i"] assms(3) show ?thesis by (simp add: is_dir_at_def)
qed

text \<open>Which directories \<open>create_dir_all\<close> makes: a chain below the longest existing prefix.\<close>

definition makes_chain :: "fsys \<Rightarrow> fsys \<Rightarrow> ppath \<Rightarrow> string list \<Rightarrow> bool" where
  "makes_chain F G e ts \<longleftrightarrow>
     (\<forall>q. G q \<noteq> F q \<longrightarrow> (\<exists>k. 1 \<le> k \<and> k \<le> length ts \<and> q = e @ take k ts \<and> F q = None \<and> G q = Some Dir))"

definition longest_prefix :: "fsys \<Rightarrow> string list \<Rightarrow> nat \<Rightarrow> ppath \<Rightarrow> bool" where
  "longest_prefix F ns j e \<longleftrightarrow> j < length ns \<and> walks F False MAX_LINKS [] (take j ns) e \<and>
     (\<forall>i. j < i \<and> i \<le> length ns \<longrightarrow> stat F [] (take i ns) = None)"

lemma longest_prefix_snoc:
  assumes "longest_prefix F ms j e" and "stat F [] (ms @ [n]) = None"
  shows "longest_prefix F (ms @ [n]) j e"
proof -
  have "stat F [] (take i (ms @ [n])) = None" if "j < i" "i \<le> Suc (length ms)" for i
    using that assms by (cases "i = Suc (length ms)") (auto simp: longest_prefix_def)
  with assms(1) show ?thesis by (auto simp: longest_prefix_def)
qed

lemma longest_prefix_last:
  assumes "walks F False MAX_LINKS [] ms d" and "stat F [] (ms @ [n]) = None"
  shows "longest_prefix F (ms @ [n]) (length ms) d"
proof -
  have "stat F [] (take i (ms @ [n])) = None" if "length ms < i" "i \<le> Suc (length ms)" for i
    using that assms(2) by (cases "i = Suc (length ms)") auto
  with assms(1) show ?thesis by (auto simp: longest_prefix_def)
qed

lemma longest_prefix_exists: "stat F [] ns = None \<Longrightarrow> \<exists>j e. longest_prefix F ns j e"
proof (induction ns rule: rev_induct)
  case Nil
  then show ?case using stat_Some [OF walks.stop [of F False MAX_LINKS "[]"]] by (simp add: node_at_def)
next
  case (snoc n ms)
  show ?case
  proof (cases "stat F [] ms = None")
    case True
    with snoc longest_prefix_snoc show ?thesis by blast
  next
    case False
    then obtain d where "walks F False MAX_LINKS [] ms d" by (auto simp: stat_None_iff)
    with snoc.prems longest_prefix_last show ?thesis by blast
  qed
qed

lemma makes_chain_mono: "makes_chain F G e ts \<Longrightarrow> makes_chain F G e (ts @ us)"
  unfolding makes_chain_def by (metis (no_types, lifting) le_trans length_append le_add1 take_append diff_is_0_eq take0 append_Nil2)

lemma makes_chain_le: "makes_chain F G e ts \<Longrightarrow> F \<subseteq>\<^sub>m G"
  unfolding makes_chain_def map_le_def by (metis domIff)

lemma create_existing:
  assumes "stat F [] ns \<noteq> None" and "\<forall>s \<in> set ns. plain_name s" and "create_dir_all root_may [] ns F = (F', r)"
  shows "F' = F"
proof (cases ns rule: rev_cases)
  case Nil
  with assms(3) show ?thesis
    by (simp add: create_dir_all.simps [of root_may "[]" "[]"] mkdir_def strip_slashes_def split: if_splits)
next
  case (snoc ms n)
  with assms(2) have s: "step_name n" by (simp add: plain_step)
  obtain p where "walks F False MAX_LINKS [] (ms @ [n]) p" using assms(1) snoc by (auto simp: stat_None_iff)
  from walks_snoc [OF this] obtain m d where d: "walks F False MAX_LINKS [] ms d" "walks F False m d [n] p" by blast
  then have "F (d @ [n]) \<noteq> None" using s by (auto elim!: walks_ConsE simp: step_name_def)
  obtain F1 r1 where m: "mkdir root_may [] (ms @ [n]) F = (F1, r1)" by (cases "mkdir root_may [] (ms @ [n]) F")
  from mkdir_snoc [OF s m] d(1) \<open>F (d @ [n]) \<noteq> None\<close> obtain e where "F1 = F" "r1 = Inl e" "e \<noteq> NotFound"
    by (auto simp: resolve_iff [symmetric])
  with m assms(3) snoc show ?thesis
    by (simp add: create_dir_all.simps [of root_may "[]" "ms @ [n]"])
qed

lemma create_chain:
  assumes "fs_ok F"
  shows "stat F [] ns = None \<Longrightarrow> \<forall>s \<in> set ns. plain_name s \<Longrightarrow> create_dir_all root_may [] ns F = (F', r) \<Longrightarrow>
     \<exists>j e. longest_prefix F ns j e \<and> makes_chain F F' e (drop j ns) \<and>
       (r = Inr () \<longrightarrow> walks F' False MAX_LINKS [] ns (e @ drop j ns) \<and> F' (e @ drop j ns) = Some Dir \<and>
         F (e @ drop j ns) = None)"
proof (induction ns arbitrary: F' r rule: rev_induct)
  case Nil
  then show ?case using stat_Some [OF walks.stop [of F False MAX_LINKS "[]"]] by (simp add: node_at_def)
next
  case (snoc n ms)
  from snoc.prems(2) have s: "step_name n" and plain: "\<forall>s \<in> set ms. plain_name s" by (simp_all add: plain_step)
  obtain F1 r1 where m: "mkdir root_may [] (ms @ [n]) F = (F1, r1)" by (cases "mkdir root_may [] (ms @ [n]) F")
  consider (made) d where "walks F False MAX_LINKS [] ms d" "is_dir_at F d" "F (d @ [n]) = None"
      "F1 = F(d @ [n] \<mapsto> Dir)" "r1 = Inr ()"
    | (failed) e where "F1 = F" "r1 = Inl e" "e \<noteq> NotFound"
    | (missing) "F1 = F" "r1 = Inl NotFound" "resolve F [] ms = Inl NotFound"
    using mkdir_snoc [OF s m] by blast
  then show ?case
  proof cases
    case (made d)
    with m snoc.prems(3) have F': "F' = F(d @ [n] \<mapsto> Dir)" "r = Inr ()"
      by (simp_all add: create_dir_all.simps [of root_may "[]" "ms @ [n]"])
    have chain: "makes_chain F F' d [n]"
      unfolding makes_chain_def F' using made(3) by (auto intro!: exI [of _ 1])
    have "is_dir_at F' d" using made(2) F' by (auto simp: is_dir_at_def)
    then have "walks F' False MAX_LINKS [] (ms @ [n]) (d @ [n])"
      using walks_mono [OF made(1) makes_chain_le [OF chain]] s
      by (intro walks_append_node [where v = Dir]) (simp_all add: F')
    moreover have "F' (d @ [n]) = Some Dir" by (simp add: F')
    ultimately show ?thesis using longest_prefix_last [OF made(1) snoc.prems(1)] chain made(3)
      by (intro exI [of _ "length ms"] exI [of _ d]) simp
  next
    case (failed e)
    with m snoc.prems have "F' = F \<and> r = Inl e"
      by (simp add: create_dir_all.simps [of root_may "[]" "ms @ [n]"])
    with longest_prefix_exists [OF snoc.prems(1)] show ?thesis by (auto simp: makes_chain_def)
  next
    case missing
    then have none: "stat F [] ms = None" by (simp add: stat_def)
    have trim: "path_trim (ms @ [n]) = ms @ [n]" "path_parent (ms @ [n]) = ms"
      using path_trim_plain [of "ms @ [n]"] path_trim_plain [OF plain] snoc.prems(2) by (simp_all add: path_parent_def)
    obtain F2 r2 where c: "create_dir_all root_may [] ms F = (F2, r2)" by (cases "create_dir_all root_may [] ms F")
    from snoc.IH [OF none plain c] obtain j e where
      j: "longest_prefix F ms j e" "makes_chain F F2 e (drop j ms)"
      and ok: "r2 = Inr () \<Longrightarrow> walks F2 False MAX_LINKS [] ms (e @ drop j ms) \<and> F2 (e @ drop j ms) = Some Dir \<and>
        F (e @ drop j ms) = None" by blast
    let ?d = "e @ drop j ms"
    have jl: "j < length ms" using j(1) by (simp add: longest_prefix_def)
    then have ds: "drop j (ms @ [n]) = drop j ms @ [n]" by simp
    have z: "j - length ms = 0" using jl by simp
    note pre = longest_prefix_snoc [OF j(1) snoc.prems(1)]
    have chain2: "makes_chain F F2 e (drop j (ms @ [n]))" unfolding ds by (rule makes_chain_mono [OF j(2)])
    show ?thesis
    proof (cases r2)
      case (Inl e2)
      with m missing c trim snoc.prems(3) have "F' = F2 \<and> r = Inl e2"
        by (simp add: create_dir_all.simps [of root_may "[]" "ms @ [n]"])
      with pre chain2 show ?thesis by auto
    next
      case (Inr u)
      with ok have w: "walks F2 False MAX_LINKS [] ms ?d" "F2 ?d = Some Dir" "F ?d = None" by auto
      have "?d \<noteq> []" using jl by simp
      moreover have "butlast (?d @ [n]) = ?d" by (rule butlast_snoc)
      ultimately have fn: "F (?d @ [n]) = None"
        using w(3) fs_okD [OF assms, of "?d @ [n]"] unfolding is_dir_at_def by fastforce
      have f2n: "F2 (?d @ [n]) = None"
      proof (rule ccontr)
        assume "F2 (?d @ [n]) \<noteq> None"
        then obtain k where "?d @ [n] = e @ take k (drop j ms)"
          using j(2) fn unfolding makes_chain_def by metis
        then have "length (drop j ms @ [n]) = length (take k (drop j ms))" by simp
        then show False by simp
      qed
      obtain F3 r3 where m3: "mkdir root_may [] (ms @ [n]) F2 = (F3, r3)" by (cases "mkdir root_may [] (ms @ [n]) F2")
      from m missing c Inr trim snoc.prems(3) m3
      have res: "F' = F3" "r = (case r3 of Inr _ \<Rightarrow> Inr () | Inl e3 \<Rightarrow> if stat F3 [] (ms @ [n]) = Some Dir then Inr () else Inl e3)"
        by (auto simp: create_dir_all.simps [of root_may "[]" "ms @ [n]"] split: sum.splits)
      from mkdir_snoc [OF s m3] consider (no) e3 where "F3 = F2" "r3 = Inl e3"
        | (yes) "F3 = F2(?d @ [n] \<mapsto> Dir)" "r3 = Inr ()"
        using walks_fun [OF w(1)] by blast
      then show ?thesis
      proof cases
        case no
        have "stat F2 [] (ms @ [n]) = None" by (rule stat_snoc [OF s w(1) f2n])
        with no res have "F' = F2 \<and> r = Inl e3" by simp
        with pre chain2 show ?thesis by auto
      next
        case yes
        with res have F': "F' = F2(?d @ [n] \<mapsto> Dir)" "r = Inr ()" by simp_all
        have chain: "makes_chain F F' e (drop j (ms @ [n]))"
          unfolding makes_chain_def
        proof (intro allI impI)
          fix q
          assume "F' q \<noteq> F q"
          then consider "q = ?d @ [n]" | "F2 q \<noteq> F q" "q \<noteq> ?d @ [n]" by (auto simp: F' split: if_splits)
          then show "\<exists>k. 1 \<le> k \<and> k \<le> length (drop j (ms @ [n])) \<and> q = e @ take k (drop j (ms @ [n])) \<and> F q = None \<and> F' q = Some Dir"
          proof cases
            case 1
            then show ?thesis using fn jl by (intro exI [of _ "length (drop j (ms @ [n]))"]) (simp add: F' ds)
          next
            case 2
            with chain2 show ?thesis unfolding makes_chain_def by (auto simp: F')
          qed
        qed
        have "F2 \<subseteq>\<^sub>m F'" using f2n by (auto simp: F' map_le_def)
        from walks_mono [OF w(1) this] have "walks F' False MAX_LINKS [] (ms @ [n]) (?d @ [n])"
          using s w(2) by (intro walks_append_node [where v = Dir]) (simp_all add: F' is_dir_at_def)
        moreover have "F' (?d @ [n]) = Some Dir" by (simp add: F')
        ultimately show ?thesis using pre chain [unfolded ds] fn by (intro exI [of _ j] exI [of _ e]) (simp add: z)
      qed
    qed
  qed
qed

lemma existing_prefix_longest:
  assumes "fs_ok F"
  shows "longest_prefix F ns j e \<Longrightarrow> \<forall>s \<in> set ns. plain_name s \<Longrightarrow>
    existing_prefix F True [] ns tail = (take j ns, tail @ rev (drop j ns))"
proof (induction ns arbitrary: tail rule: rev_induct)
  case Nil
  then show ?case by (simp add: longest_prefix_def)
next
  case (snoc n ms)
  from snoc.prems have s: "step_name n" "n \<noteq> ''..''" and plain: "\<forall>s \<in> set ms. plain_name s"
    by (simp_all add: plain_step plain_name_def)
  have none: "stat F [] (ms @ [n]) = None"
    using snoc.prems(1) unfolding longest_prefix_def by (metis length_append_singleton le_refl lessI less_Suc_eq_le not_le take_all)
  have trim: "path_trim (ms @ [n]) = ms @ [n]" "path_parent (ms @ [n]) = ms"
    using path_trim_plain [of "ms @ [n]"] path_trim_plain [OF plain] snoc.prems(2) by (simp_all add: path_parent_def)
  have step: "existing_prefix F True [] (ms @ [n]) tail = existing_prefix F True [] ms (tail @ [n])"
    using none s by (subst existing_prefix.simps) (simp add: absolute_exists file_name_def trim)
  have jl: "j \<le> length ms" using snoc.prems(1) by (simp add: longest_prefix_def)
  show ?case
  proof (cases "j = length ms")
    case True
    with snoc.prems(1) have w: "walks F False MAX_LINKS [] ms e" by (simp add: longest_prefix_def)
    have "e = [] \<or> F e \<noteq> None" using walks_plain [OF assms w] by (simp add: is_dir_at_def)
    then have "stat F [] ms \<noteq> None" by (auto simp: stat_Some [OF w] node_at_def)
    then have "existing_prefix F True [] ms (tail @ [n]) = (ms, tail @ [n])"
      by (subst existing_prefix.simps) (simp add: absolute_exists)
    with step True show ?thesis by simp
  next
    case False
    with jl have "longest_prefix F ms j e"
      using snoc.prems(1) unfolding longest_prefix_def by (auto simp: le_SucI)
    from snoc.IH [OF this plain, of "tail @ [n]"] step jl show ?thesis by simp
  qed
qed

lemma segs_path_text: "ns \<noteq> [] \<Longrightarrow> \<forall>s \<in> set ns. plain_name s \<Longrightarrow> segs_of (path_text ns) = ns"
  using split_join_with [of ns "CHR ''/''"]
  by (simp add: segs_of_def is_absolute_def path_text_def starts_with_def plain_name_def)

text \<open>Making directories along a path of plain names leaves the sensitive trees alone.\<close>

theorem mkdir_confined:
  assumes "fs_ok F" and "\<forall>s \<in> set ns. plain_name s" and "web_host_mkdir E (path_text ns) None F = (F', r)"
  shows "sensitive_kept F F'"
proof (cases "F' = F")
  case True
  then show ?thesis by (simp add: sensitive_kept_def)
next
  case False
  let ?p = "path_text ns"
  have abs: "is_absolute ?p" using starts_path_text by (simp add: is_absolute_def)
  from assms(3) False have g: "\<not> is_protected_host_mutation ?p" "\<not> resolves_into_protected E ?p F"
    and c: "as_io (create_dir_all root_may [] (segs_of ?p) F) = (F', r)"
    by (auto simp: web_host_mkdir_def start_of_def abs split: if_splits)
  have ns: "ns \<noteq> []" using guard_safe [OF assms(2) g(1)] by blast
  note sg = segs_path_text [OF ns assms(2)]
  from c sg obtain r' where c': "create_dir_all root_may [] ns F = (F', r')"
    by (auto simp: as_io_def split: prod.splits sum.splits)
  have none: "stat F [] ns = None" using create_existing [OF _ assms(2) c'] False by blast
  from create_chain [OF assms(1) none assms(2) c'] obtain j e where
    j: "longest_prefix F ns j e" "makes_chain F F' e (drop j ns)" by blast
  from j(1) have w: "walks F False MAX_LINKS [] (take j ns) e" and jl: "j < length ns" by (simp_all add: longest_prefix_def)
  from existing_prefix_longest [OF assms(1) j(1) assms(2), of "[]"] protected_false [OF g(2) abs _ w]
  have "\<not> is_protected_host_mutation (path_text (e @ drop j ns))" by (simp add: sg)
  moreover have "\<forall>s \<in> set (e @ drop j ns). plain_name s"
    using walks_root_plain [OF assms(1) w] assms(2) by (auto dest: in_set_dropD)
  ultimately have safe: "\<not> sensitive (e @ drop j ns)" using guard_safe by blast
  have "\<not> sensitive (e @ take k (drop j ns))" if "1 \<le> k" for k
    using that safe jl by (cases "e = []"; cases k; cases "drop j ns") (auto simp: sensitive_append sensitive_def)
  then show ?thesis using j(2) unfolding makes_chain_def sensitive_kept_def by metis
qed

section \<open>Ways around the guards\<close>

text \<open>A system with a link into \<open>/etc\<close> and a link inside it, as \<open>/etc/localtime\<close> is.\<close>

definition linked_fs :: fsys where
  "linked_fs = map_of [([''etc''], Dir), ([''etc'', ''localtime''], Link ''/usr/zone''), ([''srv''], Dir),
     ([''srv'', ''link''], Link ''/etc''), ([''usr''], Dir), ([''usr'', ''zone''], File ''tz'')]"

definition plain_env :: host_env where
  "plain_env = \<lparr>he_cwd = [], he_user = (\<lambda>_. False), he_may = (\<lambda>_ _. False), he_xdev = (\<lambda>_ _. False)\<rparr>"

text \<open>With \<open>..\<close> after a name that does not exist yet, the guard finds no prefix to resolve, and
  \<open>create_dir_all\<close> makes that name in \<open>/etc\<close> on its way.\<close>

theorem mkdir_escapes:
  "linked_fs [''etc'', ''new''] = None \<and> linked_fs [''etc'', ''x''] = None \<and>
   snd (web_host_mkdir plain_env ''/srv/link/new/../x'' None linked_fs) = Inr () \<and>
   fst (web_host_mkdir plain_env ''/srv/link/new/../x'' None linked_fs) [''etc'', ''new''] = Some Dir \<and>
   fst (web_host_mkdir plain_env ''/srv/link/new/../x'' None linked_fs) [''etc'', ''x''] = Some Dir"
  by code_simp

text \<open>The check of a deletion, and that of a move, look at what the path resolves to; the operation
  takes the link.\<close>

theorem delete_escapes:
  "linked_fs [''etc'', ''localtime''] = Some (Link ''/usr/zone'') \<and>
   snd (web_host_delete plain_env ''/srv/link/localtime'' None linked_fs) = Inr () \<and>
   fst (web_host_delete plain_env ''/srv/link/localtime'' None linked_fs) [''etc'', ''localtime''] = None"
  by code_simp

theorem rename_escapes:
  "snd (web_host_rename plain_env ''/srv/link/localtime'' ''/srv/x'' None linked_fs) = Inr () \<and>
   fst (web_host_rename plain_env ''/srv/link/localtime'' ''/srv/x'' None linked_fs) [''etc'', ''localtime''] = None"
  by code_simp

lemma linked_fs_ok: "fs_ok linked_fs"
proof -
  have dom: "p \<in> {[''etc''], [''etc'', ''localtime''], [''srv''], [''srv'', ''link''], [''usr''], [''usr'', ''zone'']}"
    if "linked_fs p \<noteq> None" for p
    using that by (auto simp: linked_fs_def split: if_splits)
  then show ?thesis
    by (auto simp: fs_ok_def plain_name_def is_dir_at_def linked_fs_def split: if_splits)
qed


theorem mkdir_confined_witness:
  "sensitive_kept linked_fs (fst (web_host_mkdir plain_env (path_text [''srv'', ''a'', ''b'']) None linked_fs)) \<and>
   fst (web_host_mkdir plain_env (path_text [''srv'', ''a'', ''b'']) None linked_fs) [''srv'', ''a'', ''b''] = Some Dir"
proof
  have "\<forall>s \<in> set [''srv'', ''a'', ''b'']. plain_name s" by (simp add: plain_name_def)
  from mkdir_confined [OF linked_fs_ok this] surjective_pairing
  show "sensitive_kept linked_fs (fst (web_host_mkdir plain_env (path_text [''srv'', ''a'', ''b'']) None linked_fs))"
    by blast
  show "fst (web_host_mkdir plain_env (path_text [''srv'', ''a'', ''b'']) None linked_fs) [''srv'', ''a'', ''b''] = Some Dir"
    by code_simp
qed

theorem delete_confined_witness:
  "sensitive_kept linked_fs (fst (web_host_delete plain_env ''/srv/../usr/zone'' None linked_fs)) \<and>
   fst (web_host_delete plain_env ''/srv/../usr/zone'' None linked_fs) [''usr'', ''zone''] = None"
proof
  have abs: "is_absolute ''/srv/../usr/zone''" by (simp add: is_absolute_def starts_with_def)
  have "lstat linked_fs [] (segs_of ''/srv/../usr/zone'') = Some (File ''tz'')" by code_simp
  then have "\<forall>t. lstat linked_fs [] (segs_of ''/srv/../usr/zone'') \<noteq> Some (Link t)" by simp
  from delete_confined [OF linked_fs_ok abs _ this] surjective_pairing
  show "sensitive_kept linked_fs (fst (web_host_delete plain_env ''/srv/../usr/zone'' None linked_fs))"
    by blast
  show "fst (web_host_delete plain_env ''/srv/../usr/zone'' None linked_fs) [''usr'', ''zone''] = None"
    by code_simp
qed

end
