(* ===== verification/Docker_Policy.thy ===== *)
theory Docker_Policy
  imports Complex_Main Paths Net_Addr
begin

text \<open>
  Rules for containers: the error codes and whitelists of \<open>src/core/docker/policy.rs\<close>, the input
  validators of \<open>src/infra/docker/validate.rs\<close>, \<open>create/checks.rs\<close> and \<open>dispatch.rs\<close>. Character
  classes are tested on bytes: every accepted character is ASCII. \<open>parse_f64\<close> and \<open>canon\<close> are
  parameters: the value of a decimal text, and \<open>std::fs::canonicalize\<close>.
\<close>

section \<open>Errors\<close>

datatype docker_error =
    BackupBadConfig | BackupMissing | BadBackup | BadCidr | BadCpuFormat | BadHostname | BadIpv4
  | BadMac | BadMemFormat | BadMirror | BadName | BadNetDriver | BadProto | BadRef | BadRegistry
  | BadRestartPolicy | BadTag | BindHostPathDenied | CmdNoNewline | CmdTooManyArgs
  | CmdUnclosedQuote | CpuOutOfRange | CpuSharesRange | EnvBadChars | EnvFormat | EnvNameEmpty
  | EnvNameRules | EnvTooLong | HostNetworkRequiresSuper | ImportNoImage | MemOverHost
  | MemTooSmall | MissingImageName | MissingName | MissingNetworkName | MissingRef
  | MissingVolumeName | NameTooLong | NetPredefinedIp | NetRangeNeedsSubnet | NetworkInUse
  | NetworkPredefined | NoStats | PathBadChars | PathNotAbsolute | PortRange | PortsWithHostNet
  | PrivilegedRequiresSuper | PullIncomplete | TagEmpty | TooManyDns | TooManyEnvs | TooManyMounts
  | TooManyNetworks | TooManyPorts | TooManyTags | VolumeInUse | VolumeManaged

fun docker_error_code :: "docker_error \<Rightarrow> string" where
  "docker_error_code BackupBadConfig = ''docker.backup_bad_config''"
| "docker_error_code BackupMissing = ''docker.backup_missing''"
| "docker_error_code BadBackup = ''docker.bad_backup''"
| "docker_error_code BadCidr = ''docker.bad_cidr''"
| "docker_error_code BadCpuFormat = ''docker.bad_cpu_format''"
| "docker_error_code BadHostname = ''docker.bad_hostname''"
| "docker_error_code BadIpv4 = ''docker.bad_ipv4''"
| "docker_error_code BadMac = ''docker.bad_mac''"
| "docker_error_code BadMemFormat = ''docker.bad_mem_format''"
| "docker_error_code BadMirror = ''docker.bad_mirror''"
| "docker_error_code BadName = ''docker.bad_name''"
| "docker_error_code BadNetDriver = ''docker.bad_net_driver''"
| "docker_error_code BadProto = ''docker.bad_proto''"
| "docker_error_code BadRef = ''docker.bad_ref''"
| "docker_error_code BadRegistry = ''docker.bad_registry''"
| "docker_error_code BadRestartPolicy = ''docker.bad_restart_policy''"
| "docker_error_code BadTag = ''docker.bad_tag''"
| "docker_error_code BindHostPathDenied = ''docker.bind_host_path_denied''"
| "docker_error_code CmdNoNewline = ''docker.cmd_no_newline''"
| "docker_error_code CmdTooManyArgs = ''docker.cmd_too_many_args''"
| "docker_error_code CmdUnclosedQuote = ''docker.cmd_unclosed_quote''"
| "docker_error_code CpuOutOfRange = ''docker.cpu_out_of_range''"
| "docker_error_code CpuSharesRange = ''docker.cpu_shares_range''"
| "docker_error_code EnvBadChars = ''docker.env_bad_chars''"
| "docker_error_code EnvFormat = ''docker.env_format''"
| "docker_error_code EnvNameEmpty = ''docker.env_name_empty''"
| "docker_error_code EnvNameRules = ''docker.env_name_rules''"
| "docker_error_code EnvTooLong = ''docker.env_too_long''"
| "docker_error_code HostNetworkRequiresSuper = ''docker.host_network_requires_super''"
| "docker_error_code ImportNoImage = ''docker.import_no_image''"
| "docker_error_code MemOverHost = ''docker.mem_over_host''"
| "docker_error_code MemTooSmall = ''docker.mem_too_small''"
| "docker_error_code MissingImageName = ''docker.missing_image_name''"
| "docker_error_code MissingName = ''docker.missing_name''"
| "docker_error_code MissingNetworkName = ''docker.missing_network_name''"
| "docker_error_code MissingRef = ''docker.missing_ref''"
| "docker_error_code MissingVolumeName = ''docker.missing_volume_name''"
| "docker_error_code NameTooLong = ''docker.name_too_long''"
| "docker_error_code NetPredefinedIp = ''docker.net_predefined_ip''"
| "docker_error_code NetRangeNeedsSubnet = ''docker.net_range_needs_subnet''"
| "docker_error_code NetworkInUse = ''docker.network_in_use''"
| "docker_error_code NetworkPredefined = ''docker.network_predefined''"
| "docker_error_code NoStats = ''docker.no_stats''"
| "docker_error_code PathBadChars = ''docker.path_bad_chars''"
| "docker_error_code PathNotAbsolute = ''docker.path_not_absolute''"
| "docker_error_code PortRange = ''docker.port_range''"
| "docker_error_code PortsWithHostNet = ''docker.ports_with_host_net''"
| "docker_error_code PrivilegedRequiresSuper = ''docker.privileged_requires_super''"
| "docker_error_code PullIncomplete = ''docker.pull_incomplete''"
| "docker_error_code TagEmpty = ''docker.tag_empty''"
| "docker_error_code TooManyDns = ''docker.too_many_dns''"
| "docker_error_code TooManyEnvs = ''docker.too_many_envs''"
| "docker_error_code TooManyMounts = ''docker.too_many_mounts''"
| "docker_error_code TooManyNetworks = ''docker.too_many_networks''"
| "docker_error_code TooManyPorts = ''docker.too_many_ports''"
| "docker_error_code TooManyTags = ''docker.too_many_tags''"
| "docker_error_code VolumeInUse = ''docker.volume_in_use''"
| "docker_error_code VolumeManaged = ''docker.volume_managed''"

section \<open>Whitelists\<close>

definition restart_allowed :: "string \<Rightarrow> bool" where
  "restart_allowed p \<longleftrightarrow>
     p \<in> {''no'', ''unless-stopped'', ''always'', ''on-failure''} \<or>
     (case Option.bind (strip_prefix p ''on-failure:'') parse_u32 of Some n \<Rightarrow> n \<le> 1000 | None \<Rightarrow> False)"

definition net_driver_allowed :: "string \<Rightarrow> bool" where
  "net_driver_allowed d \<longleftrightarrow> d \<in> {''bridge'', ''macvlan'', ''ipvlan'', ''overlay'', ''host'', ''none''}"

definition network_mode_privileged :: "string \<Rightarrow> bool" where
  "network_mode_privileged mode \<longleftrightarrow> mode = ''host'' \<or> starts_with mode ''container:''"

datatype create_escalation = EscPrivileged | EscHostNetwork

definition create_escalation_of :: "bool \<Rightarrow> string list \<Rightarrow> create_escalation option" where
  "create_escalation_of privileged modes =
     (if privileged then Some EscPrivileged
      else if list_ex network_mode_privileged (map trim modes) then Some EscHostNetwork
      else None)"

section \<open>Validators\<close>

type_synonym checked = "docker_error + unit"

definition opt_trim :: "string option \<Rightarrow> string option" where
  "opt_trim s = (case s of Some t \<Rightarrow> if trim t = [] then None else Some (trim t) | None \<Rightarrow> None)"

definition valid_ipv4 :: "string \<Rightarrow> checked" where
  "valid_ipv4 s = (if parse_ipv4 s \<noteq> None then Inr () else Inl BadIpv4)"

definition valid_cidr_d :: "string \<Rightarrow> checked" where
  "valid_cidr_d s =
     (case split_once CHR ''/'' s of
        None \<Rightarrow> Inl BadCidr
      | Some (addr, prefix) \<Rightarrow>
          if parse_ipv4 addr = None then Inl BadCidr
          else (case parse_u8 prefix of Some p \<Rightarrow> if p \<le> 32 then Inr () else Inl BadCidr | None \<Rightarrow> Inl BadCidr))"

definition valid_mac :: "string \<Rightarrow> checked" where
  "valid_mac s =
     (let parts = split_on CHR '':'' s in
      if length parts = 6 \<and> list_all (\<lambda>p. length p = 2 \<and> list_all is_ascii_hexdigit p) parts
      then Inr () else Inl BadMac)"

definition valid_hostname :: "string \<Rightarrow> checked" where
  "valid_hostname s =
     (if s = [] \<or> 253 < length s then Inl BadHostname
      else if list_all (\<lambda>l. l \<noteq> [] \<and> length l \<le> 63 \<and> \<not> starts_with l ''-'' \<and> \<not> ends_with l ''-'' \<and>
                list_all (\<lambda>c. is_ascii_alphanumeric c \<or> c = CHR ''-'') l) (split_on CHR ''.'' s)
      then Inr () else Inl BadHostname)"

definition validate_name :: "string \<Rightarrow> checked" where
  "validate_name s =
     (if 128 < length s then Inl NameTooLong
      else if \<not> list_all (\<lambda>c. is_ascii_alphanumeric c \<or> c \<in> set ''_.-'') s \<or> starts_with s ''-'' then Inl BadName
      else Inr ())"

definition path_bad_chars :: string where
  "path_bad_chars = '';|&$`'' @ [CHR 0x0A, CHR 0x0D, CHR 0x22, CHR 0x27, CHR 0x5C] @ ''<>*:, '' @ [CHR 0x09]"

text \<open>A component is \<open>..\<close> exactly when a segment of the text is.\<close>

definition validate_path :: "string \<Rightarrow> checked" where
  "validate_path s =
     (if s = [] \<or> 1024 < length s \<or> \<not> starts_with s ''/'' then Inl PathNotAbsolute
      else if list_ex (\<lambda>c. c \<in> set path_bad_chars) s then Inl PathBadChars
      else if list_ex (\<lambda>c. c = ''..'') (split_on CHR ''/'' s) then Inl PathBadChars
      else Inr ())"

definition checked_then :: "checked \<Rightarrow> (docker_error + 'a) \<Rightarrow> docker_error + 'a" where
  "checked_then c r = (case c of Inl e \<Rightarrow> Inl e | Inr _ \<Rightarrow> r)"

definition validate_bind_source :: "(string \<Rightarrow> string option) \<Rightarrow> string \<Rightarrow> checked" where
  "validate_bind_source canon host =
     checked_then (validate_path host)
       (if host_bind_denied host then Inl BindHostPathDenied
        else (case canon host of
            Some c \<Rightarrow> if host_bind_denied c then Inl BindHostPathDenied else Inr ()
          | None \<Rightarrow> Inr ()))"

fun env_key_ok :: "nat \<Rightarrow> string \<Rightarrow> bool" where
  "env_key_ok i [] = True"
| "env_key_ok i (c # k) =
     ((c = CHR ''_'' \<or> is_ascii_lowercase c \<or> is_ascii_uppercase c \<or> (0 < i \<and> is_ascii_digit c)) \<and> env_key_ok (Suc i) k)"

definition validate_env :: "string \<Rightarrow> checked" where
  "validate_env s =
     (if 4096 < length s then Inl EnvTooLong
      else (case split_once CHR ''='' s of
        None \<Rightarrow> Inl EnvFormat
      | Some (k, _) \<Rightarrow>
          if k = [] then Inl EnvNameEmpty
          else if \<not> env_key_ok 0 k then Inl EnvNameRules
          else if CHR 0x0A \<in> set s \<or> CHR 0x0D \<in> set s then Inl EnvBadChars
          else Inr ()))"

definition validate_token :: "string \<Rightarrow> checked" where
  "validate_token s =
     (if s = [] \<or> 256 < length s \<or> starts_with s ''-'' then Inl BadRef
      else if \<not> list_all (\<lambda>c. is_ascii_alphanumeric c \<or> c \<in> set ''._-/:@'') s then Inl BadRef
      else Inr ())"

section \<open>Resources and commands\<close>

datatype f64 = Finite rat | PosInf | NegInf | NaN

definition validate_cpus :: "(string \<Rightarrow> f64 option) \<Rightarrow> string \<Rightarrow> checked" where
  "validate_cpus parse_f64 s =
     (case parse_f64 s of
        None \<Rightarrow> Inl BadCpuFormat
      | Some v \<Rightarrow>
          if (case v of Finite x \<Rightarrow> x \<le> 0 \<or> 1024 < x | PosInf \<Rightarrow> True | NegInf \<Rightarrow> True | NaN \<Rightarrow> False) then Inl CpuOutOfRange
          else if \<not> list_all (\<lambda>c. is_ascii_digit c \<or> c = CHR ''.'') s then Inl BadCpuFormat
          else Inr ())"

definition mem_suffix :: "string \<Rightarrow> string \<times> nat" where
  "mem_suffix s =
     (let l = to_ascii_lowercase s in
      if l \<noteq> [] \<and> last l = CHR ''b'' then (butlast l, 1)
      else if l \<noteq> [] \<and> last l = CHR ''k'' then (butlast l, 1024)
      else if l \<noteq> [] \<and> last l = CHR ''m'' then (butlast l, 1024 * 1024)
      else if l \<noteq> [] \<and> last l = CHR ''g'' then (butlast l, 1024 * 1024 * 1024)
      else (l, 1))"

definition validate_memory :: "string \<Rightarrow> checked" where
  "validate_memory s =
     (let num = fst (mem_suffix s) in
      if num = [] \<or> \<not> list_all is_ascii_digit num then Inl BadMemFormat
      else (case parse_u64 num of
              None \<Rightarrow> Inl BadMemFormat
            | Some n \<Rightarrow> if n = 0 then Inl MemTooSmall else Inr ()))"

definition mem_to_bytes :: "string \<Rightarrow> nat" where
  "mem_to_bytes s =
     (case mem_suffix s of (num, mult) \<Rightarrow>
        (case parse_u64 num of Some n \<Rightarrow> min (n * mult) (2 ^ 64 - 1) | None \<Rightarrow> 0))"

text \<open>The state of \<open>split_command\<close>: finished words, the current one, the open quote, whether a word is
  begun.\<close>

fun split_command_loop :: "string list \<Rightarrow> string \<Rightarrow> char option \<Rightarrow> bool \<Rightarrow> string \<Rightarrow>
    docker_error + (string list \<times> string \<times> char option \<times> bool)" where
  "split_command_loop out cur quote has [] = Inr (out, cur, quote, has)"
| "split_command_loop out cur (Some q) has (c # s) =
     (if c = q then split_command_loop out cur None has s
      else split_command_loop out (cur @ [c]) (Some q) has s)"
| "split_command_loop out cur None has (c # s) =
     (if c = CHR 0x27 \<or> c = CHR 0x22 then split_command_loop out cur (Some c) True s
      else if c = CHR '' '' \<or> c = CHR 0x09 then
        (if has then split_command_loop (out @ [cur]) [] None False s
         else split_command_loop out cur None False s)
      else if c = CHR 0x0A \<or> c = CHR 0x0D then Inl CmdNoNewline
      else split_command_loop out (cur @ [c]) None True s)"

definition split_command :: "string \<Rightarrow> docker_error + string list" where
  "split_command s =
     (case split_command_loop [] [] None False s of
        Inl e \<Rightarrow> Inl e
      | Inr (out, cur, quote, has) \<Rightarrow>
          if quote \<noteq> None then Inl CmdUnclosedQuote
          else (let ws = (if has then out @ [cur] else out) in
            if 100 < length ws then Inl CmdTooManyArgs else Inr ws))"

section \<open>What the rules give\<close>

text \<open>Writing words: in single quotes unless the word has one, then in double quotes.\<close>

definition quote_word :: "string \<Rightarrow> string" where
  "quote_word w = (let q = (if CHR 0x27 \<in> set w then CHR 0x22 else CHR 0x27) in q # w @ [q])"

definition quotable :: "string \<Rightarrow> bool" where
  "quotable w \<longleftrightarrow> CHR 0x27 \<notin> set w \<or> CHR 0x22 \<notin> set w"

lemma loop_quoted:
  "q \<notin> set w \<Longrightarrow> split_command_loop out cur (Some q) has (w @ q # s) = split_command_loop out (cur @ w) None has s"
  by (induction w arbitrary: cur) auto

lemma loop_word:
  "quotable w \<Longrightarrow> split_command_loop out [] None False (quote_word w @ s) = split_command_loop out w None True s"
  using loop_quoted [of "if CHR 0x27 \<in> set w then CHR 0x22 else CHR 0x27" w out "[]" True s]
  by (auto simp: quote_word_def quotable_def Let_def)

lemma loop_words:
  "\<forall>w \<in> set ws. quotable w \<Longrightarrow> split_command_loop out w None True (concat (map (\<lambda>w. CHR '' '' # quote_word w) ws)) =
    Inr (out @ butlast (w # ws), last (w # ws), None, True)"
proof (induction ws arbitrary: out w)
  case (Cons v ws)
  have "split_command_loop out w None True (CHR '' '' # quote_word v @ s) = split_command_loop (out @ [w]) v None True s" for s
    using loop_word [of v "out @ [w]" s] Cons.prems by simp
  with Cons show ?case by simp
qed simp

text \<open>
  A command written as its words, each in quotes, one space between two, is read back as the same
  words, empty and spaced ones included.
\<close>

theorem split_command_roundtrip:
  assumes "\<forall>w \<in> set ws. quotable w" and "length ws \<le> 100"
  shows "split_command (join_with CHR '' '' (map quote_word ws)) = Inr ws"
proof (cases ws)
  case Nil
  then show ?thesis by (simp add: split_command_def)
next
  case (Cons w vs)
  have j: "join_with CHR '' '' (map quote_word (w # vs)) = quote_word w @ concat (map (\<lambda>w. CHR '' '' # quote_word w) vs)"
    by (induction vs arbitrary: w) auto
  have "split_command_loop [] [] None False (join_with CHR '' '' (map quote_word ws)) =
      Inr (butlast (w # vs), last (w # vs), None, True)"
    unfolding Cons j using loop_word [of w "[]"] loop_words [of vs "[]" w] assms(1) Cons by simp
  with assms(2) Cons show ?thesis unfolding split_command_def by (simp add: Let_def)
qed

theorem split_command_roundtrip_witness:
  "split_command (join_with CHR '' '' (map quote_word [''sh'', ''-c'', ''a b'', ''it'' @ [CHR 0x27] @ ''s'', []]))
    = Inr [''sh'', ''-c'', ''a b'', ''it'' @ [CHR 0x27] @ ''s'', []]"
  by (rule split_command_roundtrip) (simp_all add: quotable_def)

lemma memory_positive:
  assumes "validate_memory s = Inr ()" and "mem_suffix s = (num, mult)"
  shows "0 < mem_to_bytes s \<and> mem_to_bytes s = min (digits_val num * mult) (2 ^ 64 - 1)"
proof -
  from assms have d: "num \<noteq> []" "list_all is_ascii_digit num" and p: "parse_u64 num \<noteq> None" "parse_u64 num \<noteq> Some 0"
    by (auto simp: validate_memory_def split: if_splits option.splits)
  from d have "hd num \<noteq> CHR ''+''" by (cases num) (auto simp: is_ascii_digit_def)
  with d p have "parse_u64 num = Some (digits_val num)" "0 < digits_val num"
    by (auto simp: parse_u64_def parse_uint_def Let_def split: if_splits)
  moreover have "0 < mult" using assms(2) by (auto simp: mem_suffix_def Let_def split: if_splits)
  ultimately show ?thesis using assms(2) by (simp add: mem_to_bytes_def)
qed

lemma demo_memory: "validate_memory ''512m'' = Inr ()" "mem_suffix ''512m'' = (''512'', 1024 * 1024)"
proof -
  have "to_ascii_lowercase ''512m'' = ''512m''" by code_simp
  then show m: "mem_suffix ''512m'' = (''512'', 1024 * 1024)" by (simp add: mem_suffix_def)
  have "parse_u64 ''512'' = Some 512"
    by (simp add: parse_u64_def parse_uint_def digits_val_def digit_val_def byte_def is_ascii_digit_def)
  then show "validate_memory ''512m'' = Inr ()" by (simp add: validate_memory_def m is_ascii_digit_def)
qed

text \<open>A memory limit that is accepted is a positive number of bytes, exact unless it saturates.\<close>

theorem memory_limit_exact:
  assumes "validate_memory s = Inr ()" and "mem_suffix s = (num, mult)"
  shows "0 < mem_to_bytes s \<and> mem_to_bytes s = min (digits_val num * mult) (2 ^ 64 - 1)"
  by (rule memory_positive [OF assms])

theorem memory_limit_exact_witness: "mem_to_bytes ''512m'' = 536870912"
  using memory_limit_exact [OF demo_memory] by (simp add: digits_val_def digit_val_def byte_def)

text \<open>What a bind source is: absolute, without \<open>..\<close>, and outside the sensitive trees, as written and as
  resolved.\<close>

lemma bind_source_sound:
  assumes "validate_bind_source canon host = Inr ()"
  shows "validate_path host = Inr () \<and> \<not> host_bind_denied host \<and> (\<forall>c. canon host = Some c \<longrightarrow> \<not> host_bind_denied c)"
  using assms by (auto simp: validate_bind_source_def checked_then_def split: sum.splits if_splits option.splits)

lemma valid_path_absolute: "validate_path s = Inr () \<Longrightarrow> starts_with s ''/'' \<and> ''..'' \<notin> set (split_on CHR ''/'' s)"
  by (auto simp: validate_path_def list_ex_iff split: if_splits)

end
