(* ===== verification/Nft_Wire.thy ===== *)
theory Nft_Wire
  imports Prelude
begin

unbundle bit_operations_syntax

text \<open>
  The netlink messages for nftables (\<open>crates/dn7-container/src/net/nft.rs\<close>): attributes, expressions,
  rules and transactions as bytes, and the walk over a dumped rule. Headers are in the byte order of
  the host, taken as little endian. The socket is not modelled.
\<close>

type_synonym bytes = "8 word list"

section \<open>Integers\<close>

definition ne16 :: "16 word \<Rightarrow> bytes" where
  "ne16 w = [ucast w, ucast (drop_bit 8 w)]"

definition ne32 :: "32 word \<Rightarrow> bytes" where
  "ne32 w = [ucast w, ucast (drop_bit 8 w), ucast (drop_bit 16 w), ucast (drop_bit 24 w)]"

definition be16 :: "16 word \<Rightarrow> bytes" where "be16 w = rev (ne16 w)"
definition be32 :: "32 word \<Rightarrow> bytes" where "be32 w = rev (ne32 w)"

definition be64 :: "64 word \<Rightarrow> bytes" where
  "be64 w = map (\<lambda>i. ucast (drop_bit (8 * i) w)) [7, 6, 5, 4, 3, 2, 1, 0]"

definition from_ne16 :: "bytes \<Rightarrow> 16 word" where
  "from_ne16 bs = ucast (bs ! 0) OR push_bit 8 (ucast (bs ! 1))"

definition from_be64 :: "bytes \<Rightarrow> 64 word" where
  "from_be64 bs = foldl (\<lambda>a b. push_bit 8 a OR ucast b) 0 bs"

section \<open>Constants\<close>

definition NFNL_SUBSYS_NFTABLES :: "16 word" where "NFNL_SUBSYS_NFTABLES = 10"
definition NFNL_MSG_BATCH_BEGIN :: "16 word" where "NFNL_MSG_BATCH_BEGIN = 16"
definition NFNL_MSG_BATCH_END :: "16 word" where "NFNL_MSG_BATCH_END = 17"
definition NLM_F_REQUEST :: "16 word" where "NLM_F_REQUEST = 0x1"
definition NLM_F_ACK :: "16 word" where "NLM_F_ACK = 0x4"
definition NLM_F_CREATE :: "16 word" where "NLM_F_CREATE = 0x400"
definition NLM_F_APPEND :: "16 word" where "NLM_F_APPEND = 0x800"
definition NLA_F_NESTED :: "16 word" where "NLA_F_NESTED = 0x8000"
definition NFTA_RULE_HANDLE :: "16 word" where "NFTA_RULE_HANDLE = 3"
definition NFTA_RULE_USERDATA :: "16 word" where "NFTA_RULE_USERDATA = 7"
definition NFPROTO_UNSPEC :: "8 word" where "NFPROTO_UNSPEC = 0"
definition NFPROTO_INET :: "8 word" where "NFPROTO_INET = 1"

definition nft_type :: "16 word \<Rightarrow> 16 word" where
  "nft_type msg = push_bit 8 NFNL_SUBSYS_NFTABLES OR msg"

definition align4 :: "nat \<Rightarrow> nat" where
  "align4 n = (n + 3) div 4 * 4"

section \<open>Attributes\<close>

text \<open>The loop of \<open>raw\<close>: zero bytes up to a multiple of four.\<close>

function pad4 :: "bytes \<Rightarrow> bytes" where
  "pad4 buf = (if length buf mod 4 = 0 then buf else pad4 (buf @ [0]))"
  by pat_completeness auto
termination
  by (relation "measure (\<lambda>buf. (4 - length buf mod 4) mod 4)")
    (auto simp: mod_Suc)

declare pad4.simps [simp del]

definition at_raw :: "16 word \<Rightarrow> bytes \<Rightarrow> bytes \<Rightarrow> bytes" where
  "at_raw typ data buf = pad4 (buf @ ne16 (word_of_nat (4 + length data)) @ ne16 typ @ data)"

definition at_be32 :: "16 word \<Rightarrow> 32 word \<Rightarrow> bytes \<Rightarrow> bytes" where
  "at_be32 typ v = at_raw typ (be32 v)"

definition str_bytes :: "string \<Rightarrow> bytes" where
  "str_bytes s = map (\<lambda>c. word_of_nat (of_char c)) s"

definition at_str0 :: "16 word \<Rightarrow> string \<Rightarrow> bytes \<Rightarrow> bytes" where
  "at_str0 typ s = at_raw typ (str_bytes s @ [0])"

definition at_nested :: "16 word \<Rightarrow> bytes \<Rightarrow> bytes \<Rightarrow> bytes" where
  "at_nested typ inner = at_raw (typ OR NLA_F_NESTED) inner"

section \<open>Expressions\<close>

definition nft_expr :: "string \<Rightarrow> bytes \<Rightarrow> bytes" where
  "nft_expr name data = at_nested 2 data (at_str0 1 name [])"

definition meta_load :: "32 word \<Rightarrow> 32 word \<Rightarrow> bytes" where
  "meta_load key dreg = nft_expr ''meta'' (at_be32 1 dreg (at_be32 2 key []))"

definition nft_cmp :: "32 word \<Rightarrow> 32 word \<Rightarrow> bytes \<Rightarrow> bytes" where
  "nft_cmp sreg op value = nft_expr ''cmp'' (at_nested 3 (at_raw 1 value []) (at_be32 2 op (at_be32 1 sreg [])))"

definition payload_load :: "32 word \<Rightarrow> 32 word \<Rightarrow> 32 word \<Rightarrow> 32 word \<Rightarrow> bytes" where
  "payload_load base offset len dreg =
     nft_expr ''payload'' (at_be32 4 len (at_be32 3 offset (at_be32 2 base (at_be32 1 dreg []))))"

definition nft_bitwise :: "32 word \<Rightarrow> 32 word \<Rightarrow> 32 word \<Rightarrow> bytes \<Rightarrow> bytes \<Rightarrow> bytes" where
  "nft_bitwise sreg dreg len msk xr =
     nft_expr ''bitwise'' (at_nested 5 (at_raw 1 xr []) (at_nested 4 (at_raw 1 msk [])
       (at_be32 3 len (at_be32 2 dreg (at_be32 1 sreg [])))))"

definition immediate_data :: "32 word \<Rightarrow> bytes \<Rightarrow> bytes" where
  "immediate_data dreg value = nft_expr ''immediate'' (at_nested 2 (at_raw 1 value []) (at_be32 1 dreg []))"

definition immediate_verdict :: "32 word \<Rightarrow> bytes" where
  "immediate_verdict code =
     nft_expr ''immediate'' (at_nested 2 (at_nested 2 (at_be32 1 code []) []) (at_be32 1 0 []))"

definition nat_dnat :: "32 word \<Rightarrow> 32 word \<Rightarrow> 32 word \<Rightarrow> bytes" where
  "nat_dnat family addr_reg proto_reg =
     nft_expr ''nat'' (at_be32 5 proto_reg (at_be32 3 addr_reg (at_be32 2 family (at_be32 1 1 []))))"

definition masquerade :: bytes where
  "masquerade = nft_expr ''masq'' []"

section \<open>Messages and transactions\<close>

definition nl_message :: "16 word \<Rightarrow> 16 word \<Rightarrow> 32 word \<Rightarrow> 8 word \<Rightarrow> 16 word \<Rightarrow> bytes \<Rightarrow> bytes" where
  "nl_message nlmsg_type flags sq family res_id attrs =
     (let body = ne16 nlmsg_type @ ne16 (NLM_F_REQUEST OR flags) @ ne32 sq @ ne32 0 @
        [family, 0] @ be16 res_id @ attrs
      in ne32 (word_of_nat (4 + length body)) @ body)"

text \<open>A pending transaction: message type, extra flags, attributes.\<close>

type_synonym batch = "(16 word \<times> 16 word \<times> bytes) list"

definition add_table :: "string \<Rightarrow> batch \<Rightarrow> batch" where
  "add_table name b = b @ [(0, NLM_F_CREATE, at_str0 1 name [])]"

definition del_table :: "string \<Rightarrow> batch \<Rightarrow> batch" where
  "del_table name b = b @ [(2, 0, at_str0 1 name [])]"

definition add_chain :: "string \<Rightarrow> string \<Rightarrow> 32 word \<Rightarrow> 32 word \<Rightarrow> string \<Rightarrow> 32 word \<Rightarrow> batch \<Rightarrow> batch" where
  "add_chain table name hooknum priority chain_type policy b =
     b @ [(3, NLM_F_CREATE, at_str0 7 chain_type (at_be32 5 policy (at_nested 4
       (at_be32 2 priority (at_be32 1 hooknum [])) (at_str0 3 name (at_str0 1 table [])))))]"

definition rule_exprs :: "bytes list \<Rightarrow> bytes" where
  "rule_exprs es = foldl (\<lambda>buf e. at_raw (1 OR NLA_F_NESTED) e buf) [] es"

definition rule_attrs :: "string \<Rightarrow> string \<Rightarrow> bytes list \<Rightarrow> bytes option \<Rightarrow> bytes" where
  "rule_attrs table chain es userdata =
     (let a = at_nested 4 (rule_exprs es) (at_str0 2 chain (at_str0 1 table []))
      in case userdata of Some u \<Rightarrow> at_raw NFTA_RULE_USERDATA u a | None \<Rightarrow> a)"

definition add_rule :: "string \<Rightarrow> string \<Rightarrow> bytes list \<Rightarrow> bytes option \<Rightarrow> batch \<Rightarrow> batch" where
  "add_rule table chain es userdata b = b @ [(6, NLM_F_CREATE OR NLM_F_APPEND, rule_attrs table chain es userdata)]"

definition del_rule :: "string \<Rightarrow> string \<Rightarrow> 64 word \<Rightarrow> batch \<Rightarrow> batch" where
  "del_rule table chain handle b =
     b @ [(8, 0, at_raw NFTA_RULE_HANDLE (be64 handle) (at_str0 2 chain (at_str0 1 table [])))]"

fun batch_body :: "32 word \<Rightarrow> batch \<Rightarrow> bytes" where
  "batch_body sq [] = nl_message NFNL_MSG_BATCH_END 0 (sq + 1) NFPROTO_UNSPEC NFNL_SUBSYS_NFTABLES []"
| "batch_body sq ((m, fl, a) # b) =
     nl_message (nft_type m) (fl OR NLM_F_ACK) (sq + 1) NFPROTO_INET 0 a @ batch_body (sq + 1) b"

definition serialize :: "batch \<Rightarrow> 32 word \<Rightarrow> bytes \<times> 32 word" where
  "serialize b seq0 =
     (nl_message NFNL_MSG_BATCH_BEGIN 0 seq0 NFPROTO_UNSPEC NFNL_SUBSYS_NFTABLES [] @ batch_body seq0 b,
      seq0 + word_of_nat (length b) + 1)"

section \<open>Reading a rule\<close>

function parse_rule_at :: "bytes \<Rightarrow> nat \<Rightarrow> 64 word option \<Rightarrow> bytes \<Rightarrow> (64 word \<times> bytes) option" where
  "parse_rule_at body off handle udata =
     (if length body < off + 4 then map_option (\<lambda>h. (h, udata)) handle
      else (let alen = unat (from_ne16 (take 2 (drop off body)));
                atype = from_ne16 (take 2 (drop (off + 2) body)) AND 0x3fff;
                val = take (alen - 4) (drop (off + 4) body)
            in if alen < 4 \<or> length body < off + alen then map_option (\<lambda>h. (h, udata)) handle
               else parse_rule_at body (off + align4 alen)
                 (if atype = NFTA_RULE_HANDLE \<and> 8 \<le> length val then Some (from_be64 (take 8 val)) else handle)
                 (if \<not> (atype = NFTA_RULE_HANDLE \<and> 8 \<le> length val) \<and> atype = NFTA_RULE_USERDATA then val else udata)))"
  by pat_completeness auto
termination
  by (relation "measure (\<lambda>(body, off, _, _). length body + 4 - off)") (auto simp: align4_def)

declare parse_rule_at.simps [simp del]

definition parse_rule :: "bytes \<Rightarrow> (64 word \<times> bytes) option" where
  "parse_rule body = parse_rule_at body 0 None []"

section \<open>Reading replies\<close>

text \<open>\<open>recv_ack\<close>, \<open>dump_rules\<close> and \<open>table_present\<close> over the buffers received; none left is a receive that
  fails. An error is the number of the kernel's, or \<open>EIO\<close>. An error or rule message of the kernel is never shorter than
  20 bytes; on a shorter one the code would read past the message or panic, which is not modelled.\<close>

definition from_ne32 :: "bytes \<Rightarrow> 32 word" where
  "from_ne32 bs = ucast (bs ! 0) OR push_bit 8 (ucast (bs ! 1)) OR push_bit 16 (ucast (bs ! 2)) OR push_bit 24 (ucast (bs ! 3))"

definition NLMSG_ERROR :: "16 word" where "NLMSG_ERROR = 2"
definition NLMSG_DONE :: "16 word" where "NLMSG_DONE = 3"
definition EIO :: int where "EIO = 5"
definition EEXIST :: int where "EEXIST = 17"
definition ENOENT :: int where "ENOENT = 2"

definition msg_len :: "bytes \<Rightarrow> nat \<Rightarrow> nat" where
  "msg_len buf off = unat (from_ne32 (take 4 (drop off buf)))"

definition msg_type :: "bytes \<Rightarrow> nat \<Rightarrow> 16 word" where
  "msg_type buf off = from_ne16 (take 2 (drop (off + 4) buf))"

definition msg_errno :: "bytes \<Rightarrow> nat \<Rightarrow> int" where
  "msg_errno buf off = sint (from_ne32 (take 4 (drop (off + 16) buf)))"

datatype 'a walk = More 'a | Stop 'a | Fail int

function ack_walk :: "bytes \<Rightarrow> nat \<Rightarrow> unit walk" where
  "ack_walk buf off =
     (if length buf < off + 16 then More ()
      else if msg_len buf off < 16 \<or> length buf < off + msg_len buf off then Fail EIO
      else if msg_type buf off = NLMSG_ERROR then
        (if msg_errno buf off = 0 then Stop () else Fail (- msg_errno buf off))
      else ack_walk buf (off + align4 (msg_len buf off)))"
  by pat_completeness auto
termination
  by (relation "measure (\<lambda>(buf, off). length buf + 16 - off)") (auto simp: align4_def)

fun recv_ack :: "bytes list \<Rightarrow> int + unit" where
  "recv_ack [] = Inl EIO"
| "recv_ack (buf # bs) = (case ack_walk buf 0 of More _ \<Rightarrow> recv_ack bs | Stop _ \<Rightarrow> Inr () | Fail e \<Rightarrow> Inl e)"

definition send_result :: "batch \<Rightarrow> bytes list \<Rightarrow> int + unit" where
  "send_result b replies =
     (if b = [] then Inr ()
      else (case recv_ack replies of Inr _ \<Rightarrow> Inr () | Inl e \<Rightarrow> if e = EEXIST then Inr () else Inl e))"

function dump_walk :: "bytes \<Rightarrow> nat \<Rightarrow> (64 word \<times> bytes) list \<Rightarrow> (64 word \<times> bytes) list walk" where
  "dump_walk buf off out =
     (if length buf < off + 16 then More out
      else if msg_len buf off < 16 \<or> length buf < off + msg_len buf off then Stop out
      else if msg_type buf off = NLMSG_DONE then Stop out
      else if msg_type buf off = NLMSG_ERROR then
        (if msg_errno buf off \<noteq> 0 then Fail (- msg_errno buf off) else Stop out)
      else dump_walk buf (off + align4 (msg_len buf off))
        (if msg_type buf off = nft_type 6 then
           (case parse_rule (take (msg_len buf off - 20) (drop (off + 20) buf)) of Some i \<Rightarrow> out @ [i] | None \<Rightarrow> out)
         else out))"
  by pat_completeness auto
termination
  by (relation "measure (\<lambda>(buf, off, _). length buf + 16 - off)") (auto simp: align4_def)

declare ack_walk.simps [simp del] dump_walk.simps [simp del]

fun dump_rules :: "bytes list \<Rightarrow> (64 word \<times> bytes) list \<Rightarrow> int + (64 word \<times> bytes) list" where
  "dump_rules [] out = Inl EIO"
| "dump_rules (buf # bs) out = (case dump_walk buf 0 out of More o' \<Rightarrow> dump_rules bs o' | Stop o' \<Rightarrow> Inr o' | Fail e \<Rightarrow> Inl e)"

function table_walk :: "bytes \<Rightarrow> nat \<Rightarrow> int + bool" where
  "table_walk buf off =
     (if length buf < off + 16 then Inr False
      else if msg_len buf off < 16 \<or> length buf < off + msg_len buf off then Inr False
      else if msg_type buf off = nft_type 0 then Inr True
      else if msg_type buf off = NLMSG_ERROR then
        (let e = - msg_errno buf off in if e = 0 then Inr True else if e = ENOENT then Inr False else Inl e)
      else table_walk buf (off + align4 (msg_len buf off)))"
  by pat_completeness auto
termination
  by (relation "measure (\<lambda>(buf, off). length buf + 16 - off)") (auto simp: align4_def)

declare table_walk.simps [simp del]

section \<open>Encoding and reading back\<close>

lemma length_ints [simp]: "length (ne16 w) = 2" "length (ne32 v) = 4" "length (be16 w) = 2" "length (be32 v) = 4"
  "length (be64 x) = 8"
  by (simp_all add: ne16_def ne32_def be16_def be32_def be64_def)

lemma from_ne16_ne16: "from_ne16 (ne16 w @ r) = w"
proof (rule bit_word_eqI)
  fix n assume "n < LENGTH(16)"
  then have n: "n < 16" "n - 8 < 8" by simp_all
  show "bit (from_ne16 (ne16 w @ r)) n = bit w n"
    using n by (cases "n < 8")
      (simp_all add: from_ne16_def ne16_def bit_or_iff bit_push_bit_iff bit_unsigned_iff bit_drop_bit_eq)
qed

lemma join_byte: "push_bit 8 (drop_bit 8 w) OR ucast (ucast w :: 8 word) = (w :: 64 word)"
proof (rule bit_word_eqI)
  fix n assume "n < LENGTH(64)"
  then show "bit (push_bit 8 (drop_bit 8 w) OR ucast (ucast w :: 8 word)) n = bit w n"
    by (cases "n < 8") (simp_all add: bit_or_iff bit_push_bit_iff bit_unsigned_iff bit_drop_bit_eq)
qed

lemma top_byte: "ucast (ucast (drop_bit 56 w) :: 8 word) = drop_bit 56 (w :: 64 word)"
proof (rule bit_word_eqI)
  fix n assume "n < LENGTH(64)"
  then show "bit (ucast (ucast (drop_bit 56 w) :: 8 word) :: 64 word) n = bit (drop_bit 56 w) n"
    using bit_imp_le_length [of w "56 + n"] by (auto simp add: bit_unsigned_iff bit_drop_bit_eq)
qed

lemma from_be64_be64: "from_be64 (be64 w) = w"
  using join_byte [of "drop_bit 48 w"] join_byte [of "drop_bit 40 w"] join_byte [of "drop_bit 32 w"]
    join_byte [of "drop_bit 24 w"] join_byte [of "drop_bit 16 w"] join_byte [of "drop_bit 8 w"] join_byte [of w]
  by (simp add: from_be64_def be64_def top_byte)

definition pad_len :: "nat \<Rightarrow> nat" where "pad_len n = (4 - n mod 4) mod 4"

lemma pad_cases:
  obtains "n mod 4 = 0" "pad_len n = 0" | "n mod 4 = 1" "pad_len n = 3"
  | "n mod 4 = 2" "pad_len n = 2" | "n mod 4 = 3" "pad_len n = 1"
proof -
  have "n mod 4 < 4" by simp
  then consider "n mod 4 = 0" | "n mod 4 = 1" | "n mod 4 = 2" | "n mod 4 = 3" by linarith
  then show ?thesis by cases (simp_all add: pad_len_def that)
qed

lemma pad_mod: "(n + pad_len n) mod 4 = 0"
  by (cases rule: pad_cases [of n]; presburger)

lemma pad4_closed: "pad4 buf = buf @ replicate (pad_len (length buf)) 0"
proof (induction buf rule: pad4.induct)
  case (1 buf)
  show ?case
  proof (cases "length buf mod 4 = 0")
    case True
    then show ?thesis by (subst pad4.simps) (simp add: pad_len_def)
  next
    case False
    then have "pad_len (length buf) = Suc (pad_len (length (buf @ [0])))"
      by (cases rule: pad_cases [of "length buf"]) (simp_all add: pad_len_def mod_Suc)
    with 1 [OF False] False show ?thesis by (subst pad4.simps) simp
  qed
qed

lemma pad4_aligned: "length (pad4 buf) mod 4 = 0"
  by (simp add: pad4_closed pad_mod)

lemma align4_pad: "align4 n = n + pad_len n"
  unfolding align4_def by (cases rule: pad_cases [of n]; presburger)

text \<open>An attribute on its own, and a sequence of them.\<close>

definition tlv :: "16 word \<times> bytes \<Rightarrow> bytes" where
  "tlv p = (case p of (typ, data) \<Rightarrow>
     ne16 (word_of_nat (4 + length data)) @ ne16 typ @ data @ replicate (pad_len (length data)) 0)"

lemma length_tlv: "length (tlv (t, d)) = align4 (4 + length d)"
proof -
  have "pad_len (4 + length d) = pad_len (length d)" by (simp add: pad_len_def)
  then show ?thesis by (simp add: tlv_def align4_pad)
qed

lemma at_raw_tlv: "length buf mod 4 = 0 \<Longrightarrow> at_raw t d buf = buf @ tlv (t, d)"
proof -
  assume "length buf mod 4 = 0"
  then have "(length buf + (4 + length d)) mod 4 = length d mod 4" by (simp add: mod_add_eq [symmetric])
  then have "pad_len (length buf + (4 + length d)) = pad_len (length d)" by (simp add: pad_len_def)
  moreover have "length (buf @ ne16 (word_of_nat (4 + length d)) @ ne16 t @ d) = length buf + (4 + length d)" by simp
  ultimately show ?thesis unfolding at_raw_def pad4_closed tlv_def by (simp only: prod.case append_assoc)
qed

lemma unat_len16: "n < 2 ^ 16 \<Longrightarrow> unat (word_of_nat n :: 16 word) = n"
  by (simp add: unsigned_of_nat take_bit_nat_eq_self)

text \<open>What a walk over a sequence of attributes finds: the last handle and the last user data.\<close>

definition attr_type :: "16 word \<Rightarrow> 16 word" where "attr_type t = t AND 0x3fff"

fun find_attrs :: "(16 word \<times> bytes) list \<Rightarrow> 64 word option \<Rightarrow> bytes \<Rightarrow> (64 word \<times> bytes) option" where
  "find_attrs [] h u = map_option (\<lambda>h. (h, u)) h"
| "find_attrs ((t, d) # ps) h u =
     (if attr_type t = NFTA_RULE_HANDLE \<and> 8 \<le> length d then find_attrs ps (Some (from_be64 (take 8 d))) u
      else if attr_type t = NFTA_RULE_USERDATA then find_attrs ps h d
      else find_attrs ps h u)"

lemma parse_rule_step:
  assumes "length pre = off" and "4 + length d < 2 ^ 16"
  shows "parse_rule_at (pre @ tlv (t, d) @ post) off h u =
    parse_rule_at (pre @ tlv (t, d) @ post) (off + length (tlv (t, d)))
      (if attr_type t = NFTA_RULE_HANDLE \<and> 8 \<le> length d then Some (from_be64 (take 8 d)) else h)
      (if \<not> (attr_type t = NFTA_RULE_HANDLE \<and> 8 \<le> length d) \<and> attr_type t = NFTA_RULE_USERDATA then d else u)"
proof -
  let ?b = "pre @ tlv (t, d) @ post"
  have l: "length (tlv (t, d)) = align4 (4 + length d)" by (rule length_tlv)
  have le: "4 + length d \<le> align4 (4 + length d)" by (simp add: align4_pad)
  have self: "from_ne16 (ne16 w) = w" for w using from_ne16_ne16 [of w "[]"] by simp
  have "take 2 (drop off ?b) = ne16 (word_of_nat (4 + length d))" using assms(1) by (simp add: tlv_def)
  then have a: "unat (from_ne16 (take 2 (drop off ?b))) = 4 + length d" by (simp only: self unat_len16 [OF assms(2)])
  have "take 2 (drop (off + 2) ?b) = ne16 t" using assms(1) by (simp add: tlv_def)
  then have ty: "from_ne16 (take 2 (drop (off + 2) ?b)) = t" by (simp only: self)
  have v: "take (4 + length d - 4) (drop (off + 4) ?b) = d"
    using assms by (simp add: tlv_def)
  have c: "(length ?b < off + 4) = False" "(4 + length d < 4 \<or> length ?b < off + (4 + length d)) = False"
    using assms(1) l le by simp_all
  show ?thesis
    by (subst parse_rule_at.simps) (simp only: Let_def a ty v c if_False attr_type_def l)
qed

lemma parse_rule_tlvs:
  assumes "\<forall>(t, d) \<in> set ps. 4 + length d < 2 ^ 16"
  shows "parse_rule_at (pre @ concat (map tlv ps)) (length pre) h u = find_attrs ps h u"
  using assms
proof (induction ps arbitrary: pre h u)
  case Nil
  then show ?case by (subst parse_rule_at.simps) simp
next
  case (Cons p ps)
  obtain t d where p: "p = (t, d)" by (cases p)
  from Cons.prems p have s: "4 + length d < 2 ^ 16" and r: "\<forall>(t, d) \<in> set ps. 4 + length d < 2 ^ 16" by auto
  note step = parse_rule_step [OF refl s, of pre t "concat (map tlv ps)" h u]
  note IH = Cons.IH [OF r, of "pre @ tlv p"]
  show ?case using step IH p by (simp add: add_ac)
qed

lemma parse_rule_finds_aux: "\<forall>(t, d) \<in> set ps. length d < 65532 \<Longrightarrow> parse_rule (concat (map tlv ps)) = find_attrs ps None []"
  using parse_rule_tlvs [of ps "[]" None "[]"] by (auto simp: parse_rule_def)

text \<open>Reading a rule finds what was written: over any sequence of attributes the walk returns the last
  handle and the last user data, and skips every other attribute with its padding.
\<close>

theorem parse_rule_finds:
  assumes "\<forall>(t, d) \<in> set ps. length d < 65532"
  shows "parse_rule (concat (map tlv ps)) = find_attrs ps None []"
  using assms by (rule parse_rule_finds_aux)

theorem parse_rule_finds_witness:
  "parse_rule (concat (map tlv [(1, [1, 2, 3]), (NFTA_RULE_HANDLE, be64 9), (NFTA_RULE_USERDATA, [0, 1, 5])])) =
    Some (9, [0, 1, 5])"
proof -
  have "\<forall>(t, d) \<in> set [(1, [1, 2, 3]), (NFTA_RULE_HANDLE, be64 9), (NFTA_RULE_USERDATA, [0, 1, 5])]. length d < 65532"
    by simp
  from parse_rule_finds [OF this] show ?thesis
    using from_be64_be64 [of 9] by (simp add: attr_type_def NFTA_RULE_HANDLE_def NFTA_RULE_USERDATA_def)
qed

section \<open>Reading a dump back\<close>

lemma from_ne32_ne32: "from_ne32 (ne32 w) = w"
proof (rule bit_word_eqI)
  fix n assume "n < LENGTH(32)"
  then have n: "n < 32" "n - 24 < 8" by simp_all
  consider "n < 8" | "8 \<le> n" "n < 16" "n - 8 < 8" | "16 \<le> n" "n < 24" "n - 16 < 8" | "24 \<le> n" by linarith
  then show "bit (from_ne32 (ne32 w)) n = bit w n"
    using n by cases
      (auto simp: from_ne32_def ne32_def bit_or_iff bit_push_bit_iff bit_unsigned_iff bit_drop_bit_eq)
qed

text \<open>A message with aligned attributes is read where it starts.\<close>

lemma message_fields:
  assumes "20 + length attrs < 2 ^ 32"
  shows "msg_len (pre @ nl_message t fl sq fam rid attrs @ post) (length pre) = 20 + length attrs"
    and "msg_type (pre @ nl_message t fl sq fam rid attrs @ post) (length pre) = t"
    and "drop (length pre + 20) (pre @ nl_message t fl sq fam rid attrs @ post) = attrs @ post"
    and "length (nl_message t fl sq fam rid attrs) = 20 + length attrs"
proof -
  let ?m = "nl_message t fl sq fam rid attrs"
  have n: "unat (word_of_nat (20 + length attrs) :: 32 word) = 20 + length attrs"
    using assms by (simp only: unsigned_of_nat) (simp add: take_bit_nat_eq_self)
  have "take 4 (drop (length pre) (pre @ ?m @ post)) = ne32 (word_of_nat (20 + length attrs))"
    by (simp add: nl_message_def Let_def)
  then show "msg_len (pre @ ?m @ post) (length pre) = 20 + length attrs"
    unfolding msg_len_def by (simp only: from_ne32_ne32 n)
  have "take 2 (drop (length pre + 4) (pre @ ?m @ post)) = ne16 t"
    by (simp add: nl_message_def Let_def)
  then show "msg_type (pre @ ?m @ post) (length pre) = t"
    unfolding msg_type_def using from_ne16_ne16 [of t "[]"] by (simp only: append_Nil2)
  show "drop (length pre + 20) (pre @ ?m @ post) = attrs @ post" "length ?m = 20 + length attrs"
    by (simp_all add: nl_message_def Let_def)
qed

definition rule_msg :: "32 word \<times> (16 word \<times> bytes) list \<Rightarrow> bytes" where
  "rule_msg r = (case r of (sq, ps) \<Rightarrow> nl_message (nft_type 6) 0 sq NFPROTO_INET 0 (concat (map tlv ps)))"

definition done_msg :: "32 word \<Rightarrow> bytes" where
  "done_msg sq = nl_message NLMSG_DONE 0 sq NFPROTO_UNSPEC 0 []"

definition rule_msg_ok :: "32 word \<times> (16 word \<times> bytes) list \<Rightarrow> bool" where
  "rule_msg_ok r \<longleftrightarrow> (\<forall>(t, d) \<in> set (snd r). length d < 65532) \<and> 20 + length (concat (map tlv (snd r))) < 2 ^ 32"

lemma tlvs_aligned: "length (concat (map tlv ps)) mod 4 = 0"
proof (induction ps)
  case (Cons p ps)
  obtain t d where "p = (t, d)" by (cases p)
  moreover have "align4 n mod 4 = 0" for n by (simp add: align4_def)
  ultimately show ?case using Cons by (simp add: length_tlv mod_add_eq [symmetric])
qed simp

lemma align4_self: "n mod 4 = 0 \<Longrightarrow> align4 n = n"
  by (simp add: align4_pad pad_len_def)

lemma rule_type_simps: "nft_type 6 \<noteq> NLMSG_DONE" "nft_type 6 \<noteq> NLMSG_ERROR"
  by (simp_all add: nft_type_def NFNL_SUBSYS_NFTABLES_def NLMSG_DONE_def NLMSG_ERROR_def)

lemma dump_step:
  assumes "rule_msg_ok (sq, ps)"
  shows "dump_walk (pre @ rule_msg (sq, ps) @ post) (length pre) out =
    dump_walk ((pre @ rule_msg (sq, ps)) @ post) (length (pre @ rule_msg (sq, ps)))
      (case find_attrs ps None [] of Some i \<Rightarrow> out @ [i] | None \<Rightarrow> out)"
proof -
  let ?a = "concat (map tlv ps)" and ?m = "rule_msg (sq, ps)"
  let ?b = "pre @ ?m @ post"
  have s: "20 + length ?a < 2 ^ 32" and ok: "\<forall>(t, d) \<in> set ps. length d < 65532"
    using assms by (simp_all add: rule_msg_ok_def)
  have m: "?m = nl_message (nft_type 6) 0 sq NFPROTO_INET 0 ?a" by (simp add: rule_msg_def)
  have f: "msg_len ?b (length pre) = 20 + length ?a" "msg_type ?b (length pre) = nft_type 6"
    "drop (length pre + 20) ?b = ?a @ post" "length ?m = 20 + length ?a"
    unfolding m by (rule message_fields [OF s])+
  have "(20 + length ?a) mod 4 = 0" using tlvs_aligned [of ps] by (simp add: mod_add_eq [symmetric])
  then have al: "align4 (20 + length ?a) = 20 + length ?a" by (rule align4_self)
  have body: "parse_rule (take (20 + length ?a - 20) (drop (length pre + 20) ?b)) = find_attrs ps None []"
    using f(3) parse_rule_finds_aux [OF ok] by simp
  have c: "(length ?b < length pre + 16) = False"
    "(20 + length ?a < 16 \<or> length ?b < length pre + (20 + length ?a)) = False"
    using f(4) by simp_all
  show ?thesis
    by (subst dump_walk.simps)
      (simp only: f(1,2) c if_False if_True rule_type_simps body al, simp add: f(4) add_ac)
qed



end
