(* ===== verification/Net_Config.thy ===== *)
theory Net_Config
  imports Net_Addr
begin

text \<open>
  The vocabulary of container networking (\<open>crates/dn7-container/src/net/config.rs\<close>) and the errors of
  the crate (\<open>error.rs\<close>): identifiers, interface names derived from a hash, published ports and their
  text, the receipt a container keeps. SHA-256 is a parameter, a function from bytes to 32 bytes.
\<close>

section \<open>Errors\<close>

text \<open>\<open>Other\<close> carries its message, which the panel reads; the texts of operating system errors are not
  modelled.\<close>

datatype cerr = IoError | Syscall string | JsonError | BundleError | Exists string | NotFoundC string
  | BadState string string string | Other string

definition cerr_text :: "cerr \<Rightarrow> string" where
  "cerr_text e = (case e of
       IoError \<Rightarrow> ''io error''
     | Syscall c \<Rightarrow> ''syscall '' @ c @ '' failed''
     | JsonError \<Rightarrow> ''json error''
     | BundleError \<Rightarrow> ''invalid OCI bundle''
     | Exists i \<Rightarrow> ''container '' @ i @ '' already exists''
     | NotFoundC i \<Rightarrow> ''container '' @ i @ '' not found''
     | BadState i st act \<Rightarrow> ''container '' @ i @ '' is in state '' @ st @ '', cannot '' @ act
     | Other m \<Rightarrow> m)"

type_synonym 'a cres = "cerr + 'a"

text \<open>The question mark operator.\<close>

definition and_then :: "'e + 'a \<Rightarrow> ('a \<Rightarrow> 'e + 'b) \<Rightarrow> 'e + 'b" where
  "and_then r f = (case r of Inl e \<Rightarrow> Inl e | Inr x \<Rightarrow> f x)"

lemma and_then_simps [simp]: "and_then (Inl e) f = Inl e" "and_then (Inr x) f = f x"
  by (simp_all add: and_then_def)

lemma and_then_Inr: "and_then r f = Inr y \<longleftrightarrow> (\<exists>x. r = Inr x \<and> f x = Inr y)"
  by (cases r) auto

text \<open>\<open>collect\<close> into a \<open>Result\<close>: the first error wins.\<close>

fun collect_res :: "('e + 'a) list \<Rightarrow> 'e + 'a list" where
  "collect_res [] = Inr []"
| "collect_res (r # rs) = and_then r (\<lambda>x. and_then (collect_res rs) (\<lambda>xs. Inr (x # xs)))"

lemma collect_res_Inr: "collect_res rs = Inr xs \<longleftrightarrow> rs = map Inr xs"
  by (induction rs arbitrary: xs) (auto simp: and_then_Inr map_eq_Cons_conv Cons_eq_map_conv)

section \<open>Names\<close>

definition id_start :: "char \<Rightarrow> bool" where
  "id_start c \<longleftrightarrow> is_ascii_lowercase c \<or> is_ascii_digit c"

definition id_char :: "char \<Rightarrow> bool" where
  "id_char c \<longleftrightarrow> id_start c \<or> c \<in> set ''_.-''"

text \<open>\<open>{:?}\<close> of a string is a parameter \<open>dbg\<close>.\<close>

definition validate_id :: "(string \<Rightarrow> string) \<Rightarrow> string \<Rightarrow> unit cres" where
  "validate_id dbg i =
     (if i \<noteq> [] \<and> length i \<le> 64 \<and> id_start (hd i) \<and> list_all id_char i then Inr ()
      else Inl (Other (''invalid container id for networking: '' @ dbg i)))"

definition hex_digit :: "nat \<Rightarrow> char" where
  "hex_digit n = (if n < 10 then char_of (n + 48) else char_of (n + 87))"

definition hex2 :: "8 word \<Rightarrow> string" where
  "hex2 b = [hex_digit (unat b div 16), hex_digit (unat b mod 16)]"

definition hex_sha :: "(string \<Rightarrow> 8 word list) \<Rightarrow> string \<Rightarrow> string" where
  "hex_sha sha s = concat (map hex2 (sha s))"

definition veth_host_name :: "(string \<Rightarrow> 8 word list) \<Rightarrow> string \<Rightarrow> string" where
  "veth_host_name sha i = ''dn7v'' @ take 8 (hex_sha sha i)"

definition veth_peer_name :: "(string \<Rightarrow> 8 word list) \<Rightarrow> string \<Rightarrow> string" where
  "veth_peer_name sha i = ''dn7p'' @ take 8 (hex_sha sha i)"

definition veth_host_name_for :: "(string \<Rightarrow> 8 word list) \<Rightarrow> string \<Rightarrow> string \<Rightarrow> string" where
  "veth_host_name_for sha i net = ''dn7v'' @ take 8 (hex_sha sha (i @ CHR 0x00 # net))"

definition veth_peer_name_for :: "(string \<Rightarrow> 8 word list) \<Rightarrow> string \<Rightarrow> string \<Rightarrow> string" where
  "veth_peer_name_for sha i net = ''dn7p'' @ take 8 (hex_sha sha (i @ CHR 0x00 # net))"

definition mac_for :: "32 word \<Rightarrow> string" where
  "mac_for ip = ''02:42:'' @ join_with CHR '':'' (map hex2 (octets4 ip))"

text \<open>\<open>u8::from_str_radix(p, 16)\<close> on two bytes: hexadecimal digits, or a plus sign and one digit.\<close>

definition is_valid_mac :: "string \<Rightarrow> bool" where
  "is_valid_mac s =
     (let parts = split_on CHR '':'' s in
      length parts = 6 \<and>
      list_all (\<lambda>p. length p = 2 \<and>
        (list_all is_ascii_hexdigit p \<or> p ! 0 = CHR ''+'' \<and> is_ascii_hexdigit (p ! 1))) parts)"

section \<open>Published ports\<close>

datatype proto = Tcp | Udp

fun as_nft :: "proto \<Rightarrow> string" where
  "as_nft Tcp = ''tcp''"
| "as_nft Udp = ''udp''"

record port_map =
  pm_host_ip :: ip_addr
  pm_host_port :: nat
  pm_container_port :: nat
  pm_proto :: proto

definition parse_u16 :: "string \<Rightarrow> nat option" where
  "parse_u16 = parse_uint (2 ^ 16 - 1)"

definition parse_proto :: "(string \<Rightarrow> string) \<Rightarrow> string \<Rightarrow> proto cres" where
  "parse_proto dbg p =
     (let l = to_ascii_lowercase p in
      if l = ''tcp'' then Inr Tcp else if l = ''udp'' then Inr Udp else Inl (Other (''bad proto '' @ dbg l)))"

definition parse_one_port :: "(string \<Rightarrow> string) \<Rightarrow> string \<Rightarrow> port_map cres" where
  "parse_one_port dbg s =
     and_then (case rsplit_once CHR ''/'' s of
         Some (a, p) \<Rightarrow> and_then (parse_proto dbg p) (\<lambda>pr. Inr (a, pr))
       | None \<Rightarrow> Inr (s, Tcp))
     (\<lambda>(addr, pr).
       if starts_with addr ''['' then
         Inl (Other (''IPv6 host addresses are not supported in port mappings ('' @ dbg s @ ''); DNAT is IPv4-only''))
       else and_then (case split_on CHR '':'' addr of
           [hp, cp] \<Rightarrow> Inr (V4 0, hp, cp)
         | [ip, hp, cp] \<Rightarrow> (case parse_ip ip of
               Some a \<Rightarrow> Inr (a, hp, cp)
             | None \<Rightarrow> Inl (Other (''bad host ip in port spec '' @ dbg s)))
         | _ \<Rightarrow> Inl (Other (''bad port spec '' @ dbg s)))
       (\<lambda>(a, hp, cp).
         (case parse_u16 hp of
            None \<Rightarrow> Inl (Other (''bad host port '' @ dbg hp))
          | Some h \<Rightarrow> (case parse_u16 cp of
              None \<Rightarrow> Inl (Other (''bad container port '' @ dbg cp))
            | Some c \<Rightarrow> Inr \<lparr>pm_host_ip = a, pm_host_port = h, pm_container_port = c, pm_proto = pr\<rparr>))))"

definition parse_ports :: "(string \<Rightarrow> string) \<Rightarrow> string \<Rightarrow> port_map list cres" where
  "parse_ports dbg spec =
     collect_res (map (parse_one_port dbg) (filter (\<lambda>s. s \<noteq> []) (map trim (split_on CHR '','' spec))))"

section \<open>Receipts\<close>

record attachment =
  at_network :: string
  at_bridge :: string
  at_veth_host :: string
  at_ifname :: string
  at_ip :: "32 word"
  at_mac :: string

record net_state =
  ns_mode :: string
  ns_network :: string
  ns_bridge :: string
  ns_veth_host :: string
  ns_ip :: "32 word option"
  ns_mac :: "string option"
  ns_ports :: "port_map list"
  ns_extra :: "attachment list"

section \<open>Texts\<close>

definition show_ipv4 :: "32 word \<Rightarrow> string" where
  "show_ipv4 ip = join_with CHR ''.'' (map (\<lambda>b. to_dec (unat b)) (octets4 ip))"

section \<open>Properties\<close>

text \<open>An interface name has 12 characters, within the 15 the kernel allows, and only characters that are
  safe in a rule or a command, whatever the identifier is.\<close>

lemma hex_digit_safe: "n < 16 \<Longrightarrow> is_ascii_lowercase (hex_digit n) \<or> is_ascii_digit (hex_digit n)"
proof -
  have "list_all (\<lambda>n. is_ascii_lowercase (hex_digit n) \<or> is_ascii_digit (hex_digit n)) [0..<16]" by code_simp
  then show "n < 16 \<Longrightarrow> ?thesis" by (auto simp: list_all_iff)
qed

lemma hex2_props: "length (hex2 b) = 2" "c \<in> set (hex2 b) \<Longrightarrow> id_start c"
proof -
  have "unat b < 256" using unsigned_less [of b] by simp
  then have "unat b div 16 < 16" by simp
  then show "c \<in> set (hex2 b) \<Longrightarrow> id_start c"
    using hex_digit_safe [of "unat b div 16"] hex_digit_safe [of "unat b mod 16"]
    by (auto simp: hex2_def id_start_def)
qed (simp add: hex2_def)

lemma length_hex_sha: "length (hex_sha sha s) = 2 * length (sha s)"
  unfolding hex_sha_def by (induction "sha s") (auto simp: length_concat hex2_props o_def sum_list_triv)

lemma set_hex_sha: "c \<in> set (hex_sha sha s) \<Longrightarrow> id_start c"
  by (auto simp: hex_sha_def hex2_props)

theorem veth_names_safe:
  assumes "\<And>s. length (sha s) = 32"
  shows "length (veth_host_name sha i) = 12 \<and> length (veth_peer_name sha i) = 12 \<and>
    list_all id_start (veth_host_name sha i) \<and> list_all id_start (veth_host_name_for sha i net)"
proof -
  have h: "list_all id_start (take 8 (hex_sha sha s))" for s
    using set_hex_sha [of _ sha s] by (auto simp: list_all_iff dest: in_set_takeD)
  have p: "list_all id_start ''dn7v''" by code_simp
  show ?thesis
    using h p unfolding veth_host_name_def veth_peer_name_def veth_host_name_for_def list_all_append
    by (simp add: length_hex_sha assms)
qed

text \<open>Writing a published port, as the panel writes it.\<close>

definition port_text :: "string option \<Rightarrow> nat \<Rightarrow> nat \<Rightarrow> proto \<Rightarrow> string" where
  "port_text ip h c pr =
     (case ip of Some a \<Rightarrow> a @ '':'' | None \<Rightarrow> []) @ to_dec h @ '':'' @ to_dec c @ ''/'' @ as_nft pr"

definition v4_text :: "string \<Rightarrow> bool" where
  "v4_text s \<longleftrightarrow> s \<noteq> [] \<and> list_all (\<lambda>c. is_ascii_digit c \<or> c = CHR ''.'') s"

lemma digit_not_sep: "is_ascii_digit c \<Longrightarrow> c \<notin> set '':/,[+''"
  by (auto simp: is_ascii_digit_def)

lemma to_dec_no_sep: "set (to_dec n) \<inter> set '':/,[+'' = {}"
  using to_dec_digits [of n] digit_not_sep by (fastforce simp: list_all_iff)

lemma v4_text_no_sep: "v4_text s \<Longrightarrow> set s \<inter> set '':/,[+'' = {}"
  using digit_not_sep by (fastforce simp: v4_text_def list_all_iff)

lemma parse_u16_dec: "n < 2 ^ 16 \<Longrightarrow> parse_u16 (to_dec n) = Some n"
proof -
  have "hd (to_dec n) \<noteq> CHR ''+''"
    using to_dec_no_sep [of n] to_dec_not_Nil [of n] hd_in_set by fastforce
  then show "n < 2 ^ 16 \<Longrightarrow> ?thesis"
    using to_dec_digits [of n] to_dec_not_Nil [of n] to_dec_val [of n]
    by (simp add: parse_u16_def parse_uint_def)
qed

lemma as_nft_parse: "parse_proto dbg (as_nft pr) = Inr pr"
  by (cases pr) (simp_all add: parse_proto_def to_ascii_lowercase_def to_ascii_lower_char_def is_ascii_uppercase_def)

lemma as_nft_no_sep: "set (as_nft pr) \<inter> set '':/,['' = {}"
  by (cases pr) auto

lemma split_two: "c \<notin> set a \<Longrightarrow> c \<notin> set b \<Longrightarrow> split_on c (a @ c # b) = [a, b]"
  by (simp add: split_on_append_sep split_on_single)

lemma split_three: "c \<notin> set a \<Longrightarrow> c \<notin> set b \<Longrightarrow> c \<notin> set d \<Longrightarrow> split_on c (a @ c # b @ c # d) = [a, b, d]"
  by (simp add: split_on_append_sep split_on_single)

definition ip_meaning :: "string option \<Rightarrow> ip_addr option" where
  "ip_meaning ip = (case ip of Some a \<Rightarrow> parse_ip a | None \<Rightarrow> Some (V4 0))"

lemma parse_port_text:
  assumes "\<forall>a. ip = Some a \<longrightarrow> v4_text a" and "ip_meaning ip = Some addr" and "h < 2 ^ 16" and "c < 2 ^ 16"
  shows "parse_one_port dbg (port_text ip h c pr) =
    Inr \<lparr>pm_host_ip = addr, pm_host_port = h, pm_container_port = c, pm_proto = pr\<rparr>"
proof -
  let ?a = "(case ip of Some a \<Rightarrow> a @ '':'' | None \<Rightarrow> []) @ to_dec h @ '':'' @ to_dec c"
  have r: "rsplit_once CHR ''/'' (port_text ip h c pr) = Some (?a, as_nft pr)"
    using as_nft_no_sep [of pr] by (auto simp: rsplit_once_Some port_text_def)
  have nb: "\<not> starts_with ?a ''[''"
  proof (cases ip)
    case None
    then show ?thesis using to_dec_no_sep [of h] to_dec_not_Nil [of h]
      by (cases "to_dec h") (auto simp: starts_with_def)
  next
    case (Some a)
    with assms(1) v4_text_no_sep [of a] have "v4_text a" "set a \<inter> set '':/,[+'' = {}" by auto
    with Some show ?thesis by (cases a) (auto simp: starts_with_def v4_text_def)
  qed
  show ?thesis
  proof (cases ip)
    case None
    then have "split_on CHR '':'' ?a = [to_dec h, to_dec c]"
      using to_dec_no_sep [of h] to_dec_no_sep [of c] split_two [of "CHR '':''" "to_dec h" "to_dec c"] by auto
    with None nb assms(2-4) show ?thesis
      unfolding parse_one_port_def r by (simp add: as_nft_parse parse_u16_dec ip_meaning_def)
  next
    case (Some a)
    with assms(1) v4_text_no_sep [of a] have "CHR '':'' \<notin> set a" by auto
    with Some have "split_on CHR '':'' ?a = [a, to_dec h, to_dec c]"
      using to_dec_no_sep [of h] to_dec_no_sep [of c] split_three [of "CHR '':''" a "to_dec h" "to_dec c"] by auto
    with Some nb assms(2-4) show ?thesis
      unfolding parse_one_port_def r by (simp add: as_nft_parse parse_u16_dec ip_meaning_def)
  qed
qed

lemma plain_digit: "is_ascii_digit c \<Longrightarrow> plain_char c"
  by (auto simp: is_ascii_digit_def plain_char_def ws1_def ws2_def ws3_def)

lemma port_text_trim: "\<forall>a. ip = Some a \<longrightarrow> v4_text a \<Longrightarrow> trim (port_text ip h c pr) = port_text ip h c pr"
proof (rule trim_plain)
  show "port_text ip h c pr \<noteq> []" by (simp add: port_text_def to_dec_not_Nil)
  have d: "is_ascii_digit (hd (to_dec n))" for n
    using to_dec_digits [of n] to_dec_not_Nil [of n] by (simp add: list_all_iff)
  show "plain_char (last (port_text ip h c pr))"
    by (cases pr) (simp_all add: port_text_def plain_char_def ws1_def ws2_def ws3_def)
  assume v: "\<forall>a. ip = Some a \<longrightarrow> v4_text a"
  show "plain_char (hd (port_text ip h c pr))"
  proof (cases ip)
    case None
    then show ?thesis using plain_digit [OF d [of h]] to_dec_not_Nil [of h] by (simp add: port_text_def)
  next
    case (Some a)
    with v have "a \<noteq> []" "is_ascii_digit (hd a) \<or> hd a = CHR ''.''"
      by (cases a; auto simp: v4_text_def)+
    then have "plain_char (hd a)"
      using plain_digit by (auto simp: plain_char_def ws1_def ws2_def ws3_def)
    with Some \<open>a \<noteq> []\<close> show ?thesis by (simp add: port_text_def)
  qed
qed

lemma port_text_no_comma: "\<forall>a. ip = Some a \<longrightarrow> v4_text a \<Longrightarrow> CHR '','' \<notin> set (port_text ip h c pr)"
  using to_dec_no_sep [of h] to_dec_no_sep [of c] as_nft_no_sep [of pr] v4_text_no_sep
  by (auto simp: port_text_def split: option.splits)

lemma parse_ports_text:
  assumes "\<forall>(ip, h, c, pr) \<in> set ps. (\<forall>a. ip = Some a \<longrightarrow> v4_text a) \<and> ip_meaning ip \<noteq> None \<and> h < 2 ^ 16 \<and> c < 2 ^ 16"
  shows "parse_ports dbg (join_with CHR '','' (map (\<lambda>(ip, h, c, pr). port_text ip h c pr) ps)) =
    Inr (map (\<lambda>(ip, h, c, pr). \<lparr>pm_host_ip = the (ip_meaning ip), pm_host_port = h, pm_container_port = c, pm_proto = pr\<rparr>) ps)"
proof -
  let ?t = "\<lambda>(ip, h, c, pr). port_text ip h c pr"
  let ?m = "\<lambda>(ip, h, c, pr). \<lparr>pm_host_ip = the (ip_meaning ip), pm_host_port = h, pm_container_port = c, pm_proto = pr\<rparr>"
  have one: "trim (?t p) = ?t p \<and> ?t p \<noteq> [] \<and> CHR '','' \<notin> set (?t p) \<and> parse_one_port dbg (?t p) = Inr (?m p)"
    if "p \<in> set ps" for p
  proof -
    obtain ip h c pr where p: "p = (ip, h, c, pr)" by (cases p)
    with assms that have v: "\<forall>a. ip = Some a \<longrightarrow> v4_text a" and m: "ip_meaning ip = Some (the (ip_meaning ip))"
      and b: "h < 2 ^ 16" "c < 2 ^ 16" by auto
    from port_text_trim [OF v] port_text_no_comma [OF v] parse_port_text [OF v m b] p
    show ?thesis by (simp add: port_text_def to_dec_not_Nil)
  qed
  show ?thesis
  proof (cases "ps = []")
    case True
    then show ?thesis by (simp add: parse_ports_def)
  next
    case False
    then have "split_on CHR '','' (join_with CHR '','' (map ?t ps)) = map ?t ps"
      using one by (intro split_join_with) auto
    then have "parse_ports dbg (join_with CHR '','' (map ?t ps)) =
        collect_res (map (parse_one_port dbg) (filter (\<lambda>s. s \<noteq> []) (map trim (map ?t ps))))"
      by (simp add: parse_ports_def)
    also have "map trim (map ?t ps) = map ?t ps" using one by simp
    also have "filter (\<lambda>s. s \<noteq> []) (map ?t ps) = map ?t ps" using one by (intro filter_True) auto
    also have "map (parse_one_port dbg) (map ?t ps) = map Inr (map ?m ps)" using one by simp
    finally show ?thesis by (simp add: collect_res_Inr)
  qed
qed

text \<open>A list of published ports, each with an optional IPv4 address, written the way the panel writes it
  and read by the runtime, is the same list of mappings.
\<close>

theorem ports_roundtrip:
  assumes "\<forall>(ip, h, c, pr) \<in> set ps. (\<forall>a. ip = Some a \<longrightarrow> v4_text a) \<and> ip_meaning ip \<noteq> None \<and> h < 2 ^ 16 \<and> c < 2 ^ 16"
  shows "parse_ports dbg (join_with CHR '','' (map (\<lambda>(ip, h, c, pr). port_text ip h c pr) ps)) =
    Inr (map (\<lambda>(ip, h, c, pr). \<lparr>pm_host_ip = the (ip_meaning ip), pm_host_port = h, pm_container_port = c, pm_proto = pr\<rparr>) ps)"
  by (rule parse_ports_text [OF assms])

theorem ports_roundtrip_witness:
  "parse_ports id (join_with CHR '','' [port_text None 8080 80 Tcp, port_text (Some ''10.0.0.5'') 53 5353 Udp]) =
    Inr [\<lparr>pm_host_ip = V4 0, pm_host_port = 8080, pm_container_port = 80, pm_proto = Tcp\<rparr>,
         \<lparr>pm_host_ip = V4 0x0A000005, pm_host_port = 53, pm_container_port = 5353, pm_proto = Udp\<rparr>]"
proof -
  have i: "ip_meaning (Some ''10.0.0.5'') = Some (V4 0x0A000005)" by code_simp
  have "v4_text ''10.0.0.5''" by code_simp
  with i have "\<forall>(ip, h, c, pr) \<in> set [(None, 8080 :: nat, 80 :: nat, Tcp), (Some ''10.0.0.5'', 53, 5353, Udp)].
      (\<forall>a. ip = Some a \<longrightarrow> v4_text a) \<and> ip_meaning ip \<noteq> None \<and> h < 2 ^ 16 \<and> c < 2 ^ 16"
    by (simp add: ip_meaning_def)
  from ports_roundtrip [OF this, of id] i show ?thesis by (simp add: ip_meaning_def)
qed

end
