(* ===== verification/Ipam.thy ===== *)
theory Ipam
  imports Net_Config Json_Store
begin

text \<open>
  Address management of container networks (\<open>crates/dn7-container/src/net/ipam.rs\<close>). Each network has a
  lease table in a file of its own, guarded by a lock: an operation is one step. The crate \<open>ipnet\<close> is
  not part of the sources: its functions are the record \<open>ipnet_lib\<close>, and what the code relies on is the
  locale \<open>ipnet\<close>, interpreted at the end on networks as a mask of high bits.
\<close>

section \<open>Networks\<close>

text \<open>An \<open>Ipv4Net\<close> is an address and a prefix length.\<close>

type_synonym ipv4 = "32 word"
type_synonym net4 = "ipv4 \<times> nat"

abbreviation prefix_len :: "net4 \<Rightarrow> nat" where "prefix_len \<equiv> snd"

record ipnet_lib =
  il_contains :: "net4 \<Rightarrow> ipv4 \<Rightarrow> bool"
  il_hosts :: "net4 \<Rightarrow> ipv4 list"
  il_network :: "net4 \<Rightarrow> ipv4"
  il_broadcast :: "net4 \<Rightarrow> ipv4"
  il_netmask :: "net4 \<Rightarrow> ipv4"
  il_trunc :: "net4 \<Rightarrow> net4"
  il_parse :: "string \<Rightarrow> net4 option"

text \<open>What the crate documents: a network holds the addresses that agree with it on the prefix; its
  hosts are those without the first and the last, for prefixes up to 30.\<close>

definition net_base :: "net4 \<Rightarrow> ipv4" where
  "net_base n = push_bit (32 - snd n) (drop_bit (32 - snd n) (fst n))"

definition net_last :: "net4 \<Rightarrow> ipv4" where
  "net_last n = word_of_nat (unat (net_base n) + (2 ^ (32 - snd n) - 1))"

definition net_contains :: "net4 \<Rightarrow> ipv4 \<Rightarrow> bool" where
  "net_contains n a \<longleftrightarrow> drop_bit (32 - snd n) a = drop_bit (32 - snd n) (fst n)"

lemma drop_push_drop: "drop_bit k (push_bit k (drop_bit k (a :: ipv4))) = drop_bit k a"
  by (rule bit_eqI) (auto simp: bit_simps dest: bit_imp_le_length)

lemma div_eq_between: "0 < k \<Longrightarrow> x div k = q \<longleftrightarrow> q * k \<le> x \<and> x < q * k + k" for x k q :: nat
proof
  assume "0 < k" and "x div k = q"
  then show "q * k \<le> x \<and> x < q * k + k"
    using dividend_less_div_times [of k x] by auto
next
  assume "q * k \<le> x \<and> x < q * k + k"
  then show "x div k = q" by (intro div_nat_eqI) (simp_all add: algebra_simps)
qed

lemma unat_drop: "unat (drop_bit k (a :: ipv4)) = unat a div 2 ^ k"
  by (simp add: unat_drop_bit_eq flip: drop_bit_eq_div)

lemma unat_base: "unat (net_base n) = unat (fst n) div 2 ^ (32 - snd n) * 2 ^ (32 - snd n)"
proof -
  have "unat (fst n) div 2 ^ (32 - snd n) * 2 ^ (32 - snd n) \<le> unat (fst n)" by simp
  also have "unat (fst n) < 2 ^ 32" using unsigned_less [of "fst n"] by simp
  finally show ?thesis
    by (simp add: net_base_def unsigned_push_bit_eq unat_drop take_bit_nat_eq_self push_bit_eq_mult [of _ "_ div _"])
qed

lemma net_contains_iff:
  "net_contains n a \<longleftrightarrow> unat (net_base n) \<le> unat a \<and> unat a < unat (net_base n) + 2 ^ (32 - snd n)"
proof -
  let ?k = "2 ^ (32 - snd n) :: nat"
  have "net_contains n a \<longleftrightarrow> unat a div ?k = unat (fst n) div ?k"
    unfolding net_contains_def by (simp add: word_unat_eq_iff unat_drop)
  then show ?thesis using div_eq_between [of ?k "unat a" "unat (fst n) div ?k"] by (simp add: unat_base)
qed

lemma base_bound: "unat (net_base n) + 2 ^ (32 - snd n) \<le> 2 ^ 32"
proof -
  let ?k = "2 ^ (32 - snd n) :: nat" and ?q = "unat (fst n) div 2 ^ (32 - snd n)"
  have d: "?k dvd 2 ^ 32" by (rule le_imp_power_dvd) simp
  have "?q * ?k \<le> unat (fst n)" by simp
  also have "unat (fst n) < 2 ^ 32" using unsigned_less [of "fst n"] by simp
  finally have "?q * ?k < 2 ^ 32" .
  with d have "?q < 2 ^ 32 div ?k" by (metis dvd_div_mult_self mult_less_cancel2)
  then have "Suc ?q * ?k \<le> 2 ^ 32 div ?k * ?k" by (intro mult_le_mono1) simp
  with d show ?thesis by (simp add: unat_base algebra_simps)
qed

lemma unat_last: "unat (net_last n) = unat (net_base n) + (2 ^ (32 - snd n) - 1)"
proof -
  have "0 < (2 :: nat) ^ (32 - snd n)" by simp
  with base_bound [of n] have "unat (net_base n) + (2 ^ (32 - snd n) - 1) < 2 ^ 32" by linarith
  then show ?thesis by (simp add: net_last_def unsigned_of_nat take_bit_nat_eq_self)
qed

lemma net_contains_mono:
  assumes "prefix_len n \<le> prefix_len m" and "net_contains m a" and "net_contains n a" and "net_contains m b"
  shows "net_contains n b"
proof -
  have e: "32 - snd n = 32 - snd m + ((32 - snd n) - (32 - snd m))" using assms(1) by simp
  have "drop_bit (32 - snd n) x = drop_bit ((32 - snd n) - (32 - snd m)) (drop_bit (32 - snd m) x)" for x :: ipv4
    using e by (metis add.commute drop_bit_drop_bit)
  from this [of a] this [of b] assms(2,4) have "drop_bit (32 - snd n) b = drop_bit (32 - snd n) a"
    unfolding net_contains_def by metis
  with assms(3) show ?thesis by (simp add: net_contains_def)
qed

lemma net_contains_base: "net_contains n (net_base n)"
  by (simp add: net_contains_def net_base_def drop_push_drop)

lemma net_contains_trunc: "net_contains (net_base n, snd n) a \<longleftrightarrow> net_contains n a"
  by (simp add: net_contains_def net_base_def drop_push_drop)

text \<open>Two networks are nested or disjoint.\<close>

lemma nets_nested:
  assumes "net_contains m a" and "net_contains n a"
  shows "(\<forall>b. net_contains m b \<longrightarrow> net_contains n b) \<or> (\<forall>b. net_contains n b \<longrightarrow> net_contains m b)"
  using net_contains_mono [of n m a] net_contains_mono [of m n a] linear [of "prefix_len m" "prefix_len n"] assms
  by auto

lemma net_base_trunc: "net_base (net_base n, snd n) = net_base n"
  by (simp add: net_base_def drop_push_drop)

locale ipnet =
  fixes L :: ipnet_lib
  assumes contains_spec: "il_contains L n a \<longleftrightarrow> net_contains n a"
    and network_spec: "il_network L n = net_base n"
    and broadcast_spec: "il_broadcast L n = net_last n"
    and trunc_spec: "il_trunc L n = (net_base n, prefix_len n)"
    and hosts_spec: "a \<in> set (il_hosts L n) \<longleftrightarrow>
      net_contains n a \<and> (prefix_len n \<le> 30 \<longrightarrow> a \<noteq> net_base n \<and> a \<noteq> net_last n)"

record net_cfg =
  nc_name :: string
  nc_bridge :: string
  nc_subnet :: net4
  nc_gateway :: ipv4

definition DEFAULT_NETWORK :: string where "DEFAULT_NETWORK = ''dn7''"
definition DEFAULT_BRIDGE :: string where "DEFAULT_BRIDGE = ''dn7br0''"

definition ip4 :: "nat \<Rightarrow> nat \<Rightarrow> nat \<Rightarrow> nat \<Rightarrow> ipv4" where
  "ip4 a b c d = word_of_nat (((a * 256 + b) * 256 + c) * 256 + d)"

definition default_dn7 :: net_cfg where
  "default_dn7 = \<lparr>nc_name = DEFAULT_NETWORK, nc_bridge = DEFAULT_BRIDGE,
     nc_subnet = (ip4 172 18 0 0, 24), nc_gateway = ip4 172 18 0 1\<rparr>"

definition show_net :: "net4 \<Rightarrow> string" where
  "show_net n = show_ipv4 (fst n) @ ''/'' @ to_dec (prefix_len n)"

section \<open>Lease tables\<close>

record lease =
  le_ip :: ipv4
  le_mac :: string
  le_cid :: string
  le_pid :: int

text \<open>A network has no directory, or one with its table. \<open>lock\<close> makes the directory. \<open>ok\<close> says whether the
  write of the table succeeds; the lock itself is taken to succeed.\<close>

type_synonym ipam = "string \<Rightarrow> lease list manifest option"

definition ipam_lock :: "string \<Rightarrow> ipam \<Rightarrow> ipam" where
  "ipam_lock net I = (case I net of Some _ \<Rightarrow> I | None \<Rightarrow> I(net \<mapsto> Missing))"

definition ipam_load :: "string \<Rightarrow> ipam \<Rightarrow> lease list cres" where
  "ipam_load net I =
     (case I net of
        None \<Rightarrow> Inr []
      | Some Missing \<Rightarrow> Inr []
      | Some Unparsable \<Rightarrow> Inl JsonError
      | Some (Parsed t) \<Rightarrow> Inr t)"

definition ipam_save :: "bool \<Rightarrow> string \<Rightarrow> lease list \<Rightarrow> ipam \<Rightarrow> ipam \<times> unit cres" where
  "ipam_save ok net t I = (if ok then (I(net \<mapsto> Parsed t), Inr ()) else (I, Inl IoError))"

definition with_table :: "string \<Rightarrow> (lease list \<Rightarrow> ipam \<Rightarrow> ipam \<times> 'a cres) \<Rightarrow> ipam \<Rightarrow> ipam \<times> 'a cres" where
  "with_table net f I =
     (let I1 = ipam_lock net I in
      case ipam_load net I1 of Inl e \<Rightarrow> (I1, Inl e) | Inr t \<Rightarrow> f t I1)"

definition save_then :: "ipam \<times> unit cres \<Rightarrow> 'a \<Rightarrow> ipam \<times> 'a cres" where
  "save_then r x = (case r of (I, Inl e) \<Rightarrow> (I, Inl e) | (I, Inr _) \<Rightarrow> (I, Inr x))"

definition ipam_allocate :: "ipnet_lib \<Rightarrow> bool \<Rightarrow> net_cfg \<Rightarrow> string \<Rightarrow> int \<Rightarrow> ipam \<Rightarrow> ipam \<times> lease cres" where
  "ipam_allocate L ok cfg cid pid = with_table (nc_name cfg) (\<lambda>t I.
     (case find (\<lambda>l. le_cid l = cid) t of
        Some l \<Rightarrow> (I, Inr l)
      | None \<Rightarrow>
          (case find (\<lambda>ip. ip \<noteq> nc_gateway cfg \<and> ip \<notin> le_ip ` set t) (il_hosts L (nc_subnet cfg)) of
             None \<Rightarrow> (I, Inl (Other (''network '' @ nc_name cfg @ '' is exhausted'')))
           | Some ip \<Rightarrow>
               (let l = \<lparr>le_ip = ip, le_mac = mac_for ip, le_cid = cid, le_pid = pid\<rparr> in
                save_then (ipam_save ok (nc_name cfg) (t @ [l]) I) l))))"

definition ipam_free :: "bool \<Rightarrow> string \<Rightarrow> string \<Rightarrow> ipam \<Rightarrow> ipam \<times> unit cres" where
  "ipam_free ok net cid = with_table net (\<lambda>t I.
     (let t' = filter (\<lambda>l. le_cid l \<noteq> cid) t in
      if length t' \<noteq> length t then ipam_save ok net t' I else (I, Inr ())))"

definition ipam_leases :: "string \<Rightarrow> ipam \<Rightarrow> lease list" where
  "ipam_leases net I = (case ipam_load net I of Inr t \<Rightarrow> t | Inl _ \<Rightarrow> [])"

definition ipam_reap :: "bool \<Rightarrow> (int \<Rightarrow> bool) \<Rightarrow> string \<Rightarrow> ipam \<Rightarrow> ipam \<times> lease list cres" where
  "ipam_reap ok is_live net = with_table net (\<lambda>t I.
     (let dead = filter (\<lambda>l. \<not> is_live (le_pid l)) t in
      if dead \<noteq> [] then save_then (ipam_save ok net (filter (\<lambda>l. is_live (le_pid l)) t) I) dead
      else (I, Inr dead)))"

definition ipam_reclaim_dead :: "bool \<Rightarrow> (int \<Rightarrow> bool) \<Rightarrow> string \<Rightarrow> ipam \<Rightarrow> ipam \<times> nat cres" where
  "ipam_reclaim_dead ok is_live net I =
     (case ipam_reap ok is_live net I of (I', Inl e) \<Rightarrow> (I', Inl e) | (I', Inr d) \<Rightarrow> (I', Inr (length d)))"

definition ipam_allocate_static :: "ipnet_lib \<Rightarrow> bool \<Rightarrow> net_cfg \<Rightarrow> string \<Rightarrow> int \<Rightarrow> ipv4 \<Rightarrow> ipam \<Rightarrow> ipam \<times> lease cres" where
  "ipam_allocate_static L ok cfg cid pid want = with_table (nc_name cfg) (\<lambda>t I.
     if \<not> il_contains L (nc_subnet cfg) want \<or> want = nc_gateway cfg \<or>
        want = il_network L (nc_subnet cfg) \<or> want = il_broadcast L (nc_subnet cfg)
     then (I, Inl (Other (show_ipv4 want @ '' is not a usable host address in '' @ show_net (nc_subnet cfg))))
     else (case Option.bind (find (\<lambda>l. le_cid l = cid) t) (\<lambda>l. if le_ip l = want then Some l else None) of
         Some l \<Rightarrow> (I, Inr l)
       | None \<Rightarrow>
           if list_ex (\<lambda>l. le_ip l = want \<and> le_cid l \<noteq> cid) t
           then (I, Inl (Other (''address '' @ show_ipv4 want @ '' is already in use on network '' @ nc_name cfg)))
           else (let n = \<lparr>le_ip = want, le_mac = mac_for want, le_cid = cid, le_pid = pid\<rparr> in
             save_then (ipam_save ok (nc_name cfg) (filter (\<lambda>l. le_cid l \<noteq> cid) t @ [n]) I) n)))"

definition ipam_active_leases :: "(int \<Rightarrow> bool) \<Rightarrow> string \<Rightarrow> ipam \<Rightarrow> nat" where
  "ipam_active_leases has_pid net I = length (filter (\<lambda>l. has_pid (le_pid l)) (ipam_leases net I))"

text \<open>The callers of the last two ignore their result: \<open>ok\<close> says whether the directory is removed, or moved.\<close>

definition ipam_drop_table :: "bool \<Rightarrow> string \<Rightarrow> ipam \<Rightarrow> ipam" where
  "ipam_drop_table ok net I = (if ok then I(net := None) else I)"

definition ipam_rename_table :: "bool \<Rightarrow> string \<Rightarrow> string \<Rightarrow> ipam \<Rightarrow> ipam" where
  "ipam_rename_table ok old new I =
     (if I old = None then I else if ok then I(new := I old, old := None) else I(new := None))"

section \<open>Well-formed tables\<close>

definition usable :: "ipnet_lib \<Rightarrow> net_cfg \<Rightarrow> ipv4 \<Rightarrow> bool" where
  "usable L cfg ip \<longleftrightarrow> il_contains L (nc_subnet cfg) ip \<and> ip \<noteq> nc_gateway cfg \<and>
     ip \<noteq> il_network L (nc_subnet cfg) \<and> ip \<noteq> il_broadcast L (nc_subnet cfg)"

definition leases_ok :: "lease list \<Rightarrow> bool" where
  "leases_ok t \<longleftrightarrow> distinct (map le_ip t) \<and> distinct (map le_cid t)"

definition table_ok :: "ipnet_lib \<Rightarrow> net_cfg \<Rightarrow> ipam \<Rightarrow> bool" where
  "table_ok L cfg I \<longleftrightarrow> leases_ok (ipam_leases (nc_name cfg) I) \<and>
     (\<forall>l \<in> set (ipam_leases (nc_name cfg) I). usable L cfg (le_ip l))"

lemma leases_lock [simp]: "ipam_leases n (ipam_lock net I) = ipam_leases n I"
  by (auto simp: ipam_leases_def ipam_load_def ipam_lock_def split: option.splits manifest.splits)

lemma leases_save: "ipam_leases n (fst (ipam_save ok net t I)) = (if ok \<and> n = net then t else ipam_leases n I)"
  by (simp add: ipam_leases_def ipam_load_def ipam_save_def)

lemma with_table_Inl: "ipam_load net (ipam_lock net I) = Inl e \<Longrightarrow> with_table net f I = (ipam_lock net I, Inl e)"
  by (simp add: with_table_def Let_def)

lemma with_table_cases:
  assumes "with_table net f I = (I', r)"
  obtains e where "I' = ipam_lock net I" "r = Inl e" | "f (ipam_leases net I) (ipam_lock net I) = (I', r)"
proof (cases "ipam_load net (ipam_lock net I)")
  case (Inl e)
  with assms have "I' = ipam_lock net I" "r = Inl e" by (auto simp: with_table_def)
  then show ?thesis by (rule that(1))
next
  case (Inr t)
  then have "ipam_leases net (ipam_lock net I) = t" by (simp add: ipam_leases_def)
  with Inr assms that(2) show ?thesis by (simp add: with_table_def)
qed

lemma save_then_cases:
  "save_then (ipam_save ok net t I) x = (if ok then (I(net \<mapsto> Parsed t), Inr x) else (I, Inl IoError))"
  by (simp add: save_then_def ipam_save_def)

lemma leases_upd [simp]: "ipam_leases n (I(net \<mapsto> Parsed t)) = (if n = net then t else ipam_leases n I)"
  by (simp add: ipam_leases_def ipam_load_def)

lemma leases_ok_filter: "leases_ok t \<Longrightarrow> leases_ok (filter P t)"
  by (simp add: leases_ok_def distinct_map_filter)

lemma leases_ok_snoc:
  "leases_ok t \<Longrightarrow> le_ip l \<notin> le_ip ` set t \<Longrightarrow> le_cid l \<notin> le_cid ` set t \<Longrightarrow> leases_ok (t @ [l])"
  by (auto simp: leases_ok_def)

lemma leases_ok_unique: "leases_ok t \<Longrightarrow> l \<in> set t \<Longrightarrow> m \<in> set t \<Longrightarrow> le_cid l = le_cid m \<Longrightarrow> l = m"
  by (metis leases_ok_def distinct_map inj_onD)

lemma leases_ok_unique_ip: "leases_ok t \<Longrightarrow> l \<in> set t \<Longrightarrow> m \<in> set t \<Longrightarrow> le_ip l = le_ip m \<Longrightarrow> l = m"
  by (metis leases_ok_def distinct_map inj_onD)

section \<open>What the operations do\<close>

lemma allocate_cases:
  assumes "ipam_allocate L ok cfg cid pid I = (I', r)"
  obtains (kept) l where "l \<in> set (ipam_leases (nc_name cfg) I)" "le_cid l = cid" "I' = ipam_lock (nc_name cfg) I" "r = Inr l"
  | (refused) "I' = ipam_lock (nc_name cfg) I" "\<not> is_Ok r"
  | (added) ip where "ip \<in> set (il_hosts L (nc_subnet cfg))" "ip \<noteq> nc_gateway cfg"
      "ip \<notin> le_ip ` set (ipam_leases (nc_name cfg) I)" "cid \<notin> le_cid ` set (ipam_leases (nc_name cfg) I)"
      "I' = (ipam_lock (nc_name cfg) I)(nc_name cfg \<mapsto> Parsed (ipam_leases (nc_name cfg) I @
         [\<lparr>le_ip = ip, le_mac = mac_for ip, le_cid = cid, le_pid = pid\<rparr>]))"
      "r = Inr \<lparr>le_ip = ip, le_mac = mac_for ip, le_cid = cid, le_pid = pid\<rparr>"
  using assms unfolding ipam_allocate_def
proof (cases rule: with_table_cases)
  case (1 e)
  then show ?thesis by (intro refused) simp_all
next
  case 2
  let ?t = "ipam_leases (nc_name cfg) I"
  show ?thesis
  proof (cases "find (\<lambda>l. le_cid l = cid) ?t")
    case (Some l)
    with 2 show ?thesis by (intro kept [of l]) (auto simp: find_Some_iff)
  next
    case None
    then have fresh: "cid \<notin> le_cid ` set ?t" by (auto simp: find_None_iff)
    show ?thesis
    proof (cases "find (\<lambda>ip. ip \<noteq> nc_gateway cfg \<and> ip \<notin> le_ip ` set ?t) (il_hosts L (nc_subnet cfg))")
      case None': None
      with 2 None show ?thesis by (intro refused) auto
    next
      case (Some ip)
      then have ip: "ip \<in> set (il_hosts L (nc_subnet cfg))" "ip \<noteq> nc_gateway cfg" "ip \<notin> le_ip ` set ?t"
        by (auto simp: find_Some_iff)
      let ?l = "\<lparr>le_ip = ip, le_mac = mac_for ip, le_cid = cid, le_pid = pid\<rparr>"
      from 2 None Some have e: "save_then (ipam_save ok (nc_name cfg) (?t @ [?l]) (ipam_lock (nc_name cfg) I)) ?l = (I', r)"
        by (simp add: Let_def)
      show ?thesis
      proof (cases ok)
        case True
        with e ip fresh show ?thesis by (intro added [of ip]) (auto simp: save_then_cases)
      next
        case False
        with e show ?thesis by (intro refused) (auto simp: save_then_cases)
      qed
    qed
  qed
qed

lemma static_cases:
  assumes "ipam_allocate_static L ok cfg cid pid want I = (I', r)"
  obtains (kept) l where "l \<in> set (ipam_leases (nc_name cfg) I)" "le_cid l = cid" "le_ip l = want"
      "I' = ipam_lock (nc_name cfg) I" "r = Inr l"
  | (refused) "I' = ipam_lock (nc_name cfg) I" "\<not> is_Ok r"
  | (moved) "usable L cfg want" "\<forall>l \<in> set (ipam_leases (nc_name cfg) I). le_cid l \<noteq> cid \<longrightarrow> le_ip l \<noteq> want"
      "I' = (ipam_lock (nc_name cfg) I)(nc_name cfg \<mapsto> Parsed (filter (\<lambda>l. le_cid l \<noteq> cid) (ipam_leases (nc_name cfg) I) @
         [\<lparr>le_ip = want, le_mac = mac_for want, le_cid = cid, le_pid = pid\<rparr>]))"
      "r = Inr \<lparr>le_ip = want, le_mac = mac_for want, le_cid = cid, le_pid = pid\<rparr>"
  using assms unfolding ipam_allocate_static_def
proof (cases rule: with_table_cases)
  case (1 e)
  then show ?thesis by (intro refused) simp_all
next
  case 2
  let ?t = "ipam_leases (nc_name cfg) I" and ?I = "ipam_lock (nc_name cfg) I"
  let ?n = "\<lparr>le_ip = want, le_mac = mac_for want, le_cid = cid, le_pid = pid\<rparr>"
  let ?t' = "filter (\<lambda>l. le_cid l \<noteq> cid) ?t @ [?n]"
  let ?s = "Option.bind (find (\<lambda>l. le_cid l = cid) ?t) (\<lambda>l. if le_ip l = want then Some l else None)"
  show ?thesis
  proof (cases "usable L cfg want")
    case False
    with 2 show ?thesis by (intro refused) (auto simp: usable_def)
  next
    case u: True
    then have e: "(case ?s of Some l \<Rightarrow> (?I, Inr l) | None \<Rightarrow>
        if list_ex (\<lambda>l. le_ip l = want \<and> le_cid l \<noteq> cid) ?t
        then (?I, Inl (Other (''address '' @ show_ipv4 want @ '' is already in use on network '' @ nc_name cfg)))
        else save_then (ipam_save ok (nc_name cfg) ?t' ?I) ?n) = (I', r)"
      using 2 unfolding Let_def by (simp add: usable_def)
    show ?thesis
    proof (cases ?s)
      case (Some l)
      then have "l \<in> set ?t" "le_cid l = cid" "le_ip l = want"
        by (auto simp: Option.bind_eq_Some_conv find_Some_iff split: if_splits)
      with e Some show ?thesis by (intro kept [of l]) auto
    next
      case None
      show ?thesis
      proof (cases "list_ex (\<lambda>l. le_ip l = want \<and> le_cid l \<noteq> cid) ?t \<or> \<not> ok")
        case True
        with e None show ?thesis by (intro refused) (auto simp: save_then_cases split: if_splits)
      next
        case False
        with e None have "I' = ?I(nc_name cfg \<mapsto> Parsed ?t')" "r = Inr ?n" by (auto simp: save_then_cases)
        with u False show ?thesis by (intro moved) (auto simp: list_ex_iff)
      qed
    qed
  qed
qed

text \<open>An allocation changes only the table of its network, by at most the lease of its container.\<close>

definition extends_by :: "string \<Rightarrow> lease \<Rightarrow> lease list \<Rightarrow> lease list \<Rightarrow> bool" where
  "extends_by cid l t t' \<longleftrightarrow> le_cid l = cid \<and> l \<in> set t' \<and>
     (\<forall>m. le_cid m \<noteq> cid \<longrightarrow> (m \<in> set t' \<longleftrightarrow> m \<in> set t))"

context ipnet
begin

lemma hosts_usable: "prefix_len n \<le> 30 \<Longrightarrow>
    set (il_hosts L n) = {a. il_contains L n a \<and> a \<noteq> il_network L n \<and> a \<noteq> il_broadcast L n}"
  by (auto simp: hosts_spec contains_spec network_spec broadcast_spec)

lemma host_usable: "prefix_len (nc_subnet cfg) \<le> 30 \<Longrightarrow> ip \<in> set (il_hosts L (nc_subnet cfg)) \<Longrightarrow>
    ip \<noteq> nc_gateway cfg \<Longrightarrow> usable L cfg ip"
  using hosts_usable by (auto simp: usable_def)

lemma allocate_ok:
  assumes "table_ok L cfg I" and "prefix_len (nc_subnet cfg) \<le> 30" and "ipam_allocate L ok cfg cid pid I = (I', r)"
  shows "table_ok L cfg I' \<and> (\<forall>n. n \<noteq> nc_name cfg \<longrightarrow> ipam_leases n I' = ipam_leases n I) \<and>
    (\<forall>l. r = Inr l \<longrightarrow> extends_by cid l (ipam_leases (nc_name cfg) I) (ipam_leases (nc_name cfg) I')) \<and>
    (is_Ok r \<or> ipam_leases (nc_name cfg) I' = ipam_leases (nc_name cfg) I)"
  using assms(3)
proof (cases rule: allocate_cases)
  case (kept l)
  with assms(1) show ?thesis by (simp add: table_ok_def extends_by_def)
next
  case refused
  with assms(1) show ?thesis by (auto simp: table_ok_def)
next
  case (added ip)
  note u = host_usable [OF assms(2) added(1,2)]
  have "leases_ok (ipam_leases (nc_name cfg) I @ [\<lparr>le_ip = ip, le_mac = mac_for ip, le_cid = cid, le_pid = pid\<rparr>])"
    using assms(1) added by (intro leases_ok_snoc) (auto simp: table_ok_def)
  then show ?thesis using assms(1) u added by (auto simp: table_ok_def extends_by_def)
qed

text \<open>It fails for want of an address only when every usable one is leased.\<close>

lemma allocate_exhausted:
  assumes "prefix_len (nc_subnet cfg) \<le> 30" and "ipam_load (nc_name cfg) I = Inr t"
    and "cid \<notin> le_cid ` set t" and "usable L cfg ip" and "ip \<notin> le_ip ` set t"
  shows "\<exists>I' l. ipam_allocate L True cfg cid pid I = (I', Inr l)"
proof -
  have t: "ipam_load (nc_name cfg) (ipam_lock (nc_name cfg) I) = Inr t"
    using assms(2) by (auto simp: ipam_load_def ipam_lock_def split: option.splits)
  have "find (\<lambda>l. le_cid l = cid) t = None" using assms(3) by (auto simp: find_None_iff)
  moreover have "ip \<in> set (il_hosts L (nc_subnet cfg))" using assms(1,4) hosts_usable by (auto simp: usable_def)
  then have "find (\<lambda>ip. ip \<noteq> nc_gateway cfg \<and> ip \<notin> le_ip ` set t) (il_hosts L (nc_subnet cfg)) \<noteq> None"
    using assms(4,5) by (auto simp: find_None_iff usable_def)
  ultimately show ?thesis
    using t by (auto simp: ipam_allocate_def with_table_def Let_def save_then_cases)
qed

lemma static_ok:
  assumes "table_ok L cfg I" and "ipam_allocate_static L ok cfg cid pid want I = (I', r)"
  shows "table_ok L cfg I' \<and> (\<forall>n. n \<noteq> nc_name cfg \<longrightarrow> ipam_leases n I' = ipam_leases n I) \<and>
    (\<forall>l. r = Inr l \<longrightarrow> le_ip l = want \<and> extends_by cid l (ipam_leases (nc_name cfg) I) (ipam_leases (nc_name cfg) I')) \<and>
    (is_Ok r \<or> ipam_leases (nc_name cfg) I' = ipam_leases (nc_name cfg) I)"
  using assms(2)
proof (cases rule: static_cases)
  case (kept l)
  with assms(1) show ?thesis by (simp add: table_ok_def extends_by_def)
next
  case refused
  with assms(1) show ?thesis by (auto simp: table_ok_def)
next
  case moved
  have "leases_ok (filter (\<lambda>l. le_cid l \<noteq> cid) (ipam_leases (nc_name cfg) I) @
      [\<lparr>le_ip = want, le_mac = mac_for want, le_cid = cid, le_pid = pid\<rparr>])"
    using assms(1) moved(2) by (intro leases_ok_snoc) (auto simp: table_ok_def leases_ok_filter)
  then show ?thesis using assms(1) moved by (auto simp: table_ok_def extends_by_def)
qed

end

lemma free_cases:
  assumes "ipam_free ok net cid I = (I', r)"
  obtains "I' = ipam_lock net I" "r = Inr () \<longrightarrow> filter (\<lambda>l. le_cid l \<noteq> cid) (ipam_leases net I) = ipam_leases net I"
  | "I' = (ipam_lock net I)(net \<mapsto> Parsed (filter (\<lambda>l. le_cid l \<noteq> cid) (ipam_leases net I)))" "r = Inr ()"
  using assms unfolding ipam_free_def
proof (cases rule: with_table_cases)
  case (1 e)
  then show ?thesis by (intro that(1)) simp_all
next
  case 2
  let ?t = "ipam_leases net I"
  show ?thesis
  proof (cases "length (filter (\<lambda>l. le_cid l \<noteq> cid) ?t) = length ?t")
    case True
    then have "filter (\<lambda>l. le_cid l \<noteq> cid) ?t = ?t"
      by (intro filter_True) (metis (mono_tags, lifting) length_filter_less less_irrefl)
    with 2 True show ?thesis by (intro that(1)) (auto simp: Let_def)
  next
    case False
    with 2 show ?thesis
      by (cases ok) (auto simp: Let_def ipam_save_def intro: that)
  qed
qed

lemma free_leases:
  assumes "ipam_free ok net cid I = (I', r)"
  shows "\<forall>n. n \<noteq> net \<longrightarrow> ipam_leases n I' = ipam_leases n I"
    and "ipam_leases net I' = ipam_leases net I \<or> ipam_leases net I' = filter (\<lambda>l. le_cid l \<noteq> cid) (ipam_leases net I)"
    and "r = Inr () \<Longrightarrow> ipam_leases net I' = filter (\<lambda>l. le_cid l \<noteq> cid) (ipam_leases net I)"
  using assms by (cases rule: free_cases; simp)+

lemma reap_leases:
  assumes "ipam_reap ok is_live net I = (I', r)"
  shows "\<forall>n. n \<noteq> net \<longrightarrow> ipam_leases n I' = ipam_leases n I"
    and "ipam_leases net I' = ipam_leases net I \<or> ipam_leases net I' = filter (\<lambda>l. is_live (le_pid l)) (ipam_leases net I)"
  using assms unfolding ipam_reap_def
  by (cases rule: with_table_cases; auto simp: save_then_cases Let_def split: if_splits)+

lemma table_ok_filter:
  assumes "table_ok L cfg I" and "ipam_leases (nc_name cfg) I' = ipam_leases (nc_name cfg) I \<or>
    (\<exists>P. ipam_leases (nc_name cfg) I' = filter P (ipam_leases (nc_name cfg) I))"
  shows "table_ok L cfg I'"
  using assms by (auto simp: table_ok_def leases_ok_filter)

section \<open>An instance of the library\<close>

text \<open>Networks as the addresses that agree on the high bits, their hosts in increasing order.\<close>

definition demo_hosts :: "net4 \<Rightarrow> ipv4 list" where
  "demo_hosts n =
     map word_of_nat
       (if snd n \<le> 30 then [unat (net_base n) + 1 ..< unat (net_base n) + (2 ^ (32 - snd n) - 1)]
        else [unat (net_base n) ..< unat (net_base n) + 2 ^ (32 - snd n)])"

definition demo_parse :: "string \<Rightarrow> net4 option" where
  "demo_parse s =
     (case split_once CHR ''/'' s of
        Some (a, p) \<Rightarrow> (case (parse_ip a, parse_u8 p) of
            (Some (V4 w), Some k) \<Rightarrow> if k \<le> 32 then Some (w, k) else None
          | _ \<Rightarrow> None)
      | None \<Rightarrow> None)"

definition demo_ipnet :: ipnet_lib where
  "demo_ipnet = \<lparr>il_contains = net_contains, il_hosts = demo_hosts, il_network = net_base, il_broadcast = net_last,
     il_netmask = (\<lambda>n. push_bit (32 - snd n) (- 1)), il_trunc = (\<lambda>n. (net_base n, snd n)), il_parse = demo_parse\<rparr>"

lemma demo_hosts_iff:
  "a \<in> set (demo_hosts n) \<longleftrightarrow> net_contains n a \<and> (prefix_len n \<le> 30 \<longrightarrow> a \<noteq> net_base n \<and> a \<noteq> net_last n)"
proof -
  let ?b = "unat (net_base n)" and ?k = "2 ^ (32 - snd n) :: nat"
  have img: "a \<in> word_of_nat ` set [x ..< y] \<longleftrightarrow> x \<le> unat a \<and> unat a < y" if "y \<le> 2 ^ 32" for x y
  proof
    assume "a \<in> word_of_nat ` set [x ..< y]"
    then obtain v where "a = word_of_nat v" "x \<le> v" "v < y" by auto
    with that show "x \<le> unat a \<and> unat a < y" by (simp add: unsigned_of_nat take_bit_nat_eq_self)
  next
    assume "x \<le> unat a \<and> unat a < y"
    then have "unat a \<in> set [x ..< y]" by simp
    moreover have "a = word_of_nat (unat a)" by simp
    ultimately show "a \<in> word_of_nat ` set [x ..< y]" by (rule rev_image_eqI)
  qed
  have bb: "?b + ?k \<le> 2 ^ 32" "?b + (?k - 1) \<le> 2 ^ 32" using base_bound [of n] by auto
  show ?thesis
    using img [OF bb(1)] img [OF bb(2)]
    by (auto simp: demo_hosts_def net_contains_iff word_unat_eq_iff unat_last)
qed

interpretation demo: ipnet demo_ipnet
  by unfold_locales (auto simp: demo_ipnet_def demo_hosts_iff)

end
