(* ===== verification/Firewall.thy ===== *)
theory Firewall
  imports Nft_Wire Ipam
begin

unbundle bit_operations_syntax

text \<open>
  The rules of container networking (\<open>crates/dn7-container/src/net/firewall.rs\<close>) as transactions of
  \<open>Nft_Wire\<close>. The kernel is a parameter with a state of its own: whether the table is present, what a
  dump of a chain gives, and what a transaction does to it. What the code relies on is the locale
  \<open>nft_kernel\<close>: a transaction is applied whole or not at all, a rule added is listed last with its user
  data, a rule deleted by its handle is the only one to go.
\<close>

section \<open>The kernel\<close>

type_synonym rule = "64 word \<times> bytes"

record 'k nft_lib =
  nl_present :: "'k \<Rightarrow> bool"
  nl_rules :: "'k \<Rightarrow> string \<Rightarrow> rule list cres"
  nl_send :: "batch \<Rightarrow> 'k \<Rightarrow> 'k \<times> unit cres"
  nl_forward :: bool
  nl_have :: "'k \<Rightarrow> bool"
  nl_show :: "ip_addr \<Rightarrow> string"

definition send_batch :: "'k nft_lib \<Rightarrow> batch \<Rightarrow> 'k \<Rightarrow> 'k \<times> unit cres" where
  "send_batch K b k = (if b = [] then (k, Inr ()) else nl_send K b k)"

section \<open>Expressions of a rule\<close>

definition TABLE :: string where "TABLE = ''dn7''"
definition PRI_SRCNAT :: "32 word" where "PRI_SRCNAT = 100"
definition PRI_DSTNAT :: "32 word" where "PRI_DSTNAT = - 100"
definition IP_SADDR_OFF :: "32 word" where "IP_SADDR_OFF = 12"
definition IP_DADDR_OFF :: "32 word" where "IP_DADDR_OFF = 16"
definition TH_DPORT_OFF :: "32 word" where "TH_DPORT_OFF = 2"

fun proto_num :: "proto \<Rightarrow> 8 word" where
  "proto_num Tcp = 6"
| "proto_num Udp = 17"

text \<open>The keys, registers and operators are those of \<open>nft.rs\<close>.\<close>

definition nfproto_ipv4 :: "bytes list" where
  "nfproto_ipv4 = [meta_load 15 1, nft_cmp 1 0 [2]]"

definition match_subnet :: "bool \<Rightarrow> bool \<Rightarrow> ipv4 \<Rightarrow> ipv4 \<Rightarrow> bytes list" where
  "match_subnet source eq net msk =
     [payload_load 1 (if source then IP_SADDR_OFF else IP_DADDR_OFF) 4 1,
      nft_bitwise 1 1 4 (octets4 msk) [0, 0, 0, 0],
      nft_cmp 1 (if eq then 0 else 1) (octets4 net)]"

definition daddr_eq :: "ipv4 \<Rightarrow> bytes list" where
  "daddr_eq addr = nfproto_ipv4 @ [payload_load 1 IP_DADDR_OFF 4 1, nft_cmp 1 0 (octets4 addr)]"

definition l4_dport :: "proto \<Rightarrow> nat \<Rightarrow> bytes list" where
  "l4_dport pr port =
     [meta_load 16 1, nft_cmp 1 0 [proto_num pr],
      payload_load 2 TH_DPORT_OFF 2 1, nft_cmp 1 0 (be16 (word_of_nat port))]"

definition dnat :: "ipv4 \<Rightarrow> nat \<Rightarrow> bytes list" where
  "dnat ip port =
     [immediate_data 1 (octets4 ip), immediate_data 2 (be16 (word_of_nat port)), nat_dnat 2 1 2]"

definition iface :: "32 word \<Rightarrow> string \<Rightarrow> bytes list" where
  "iface key name = [meta_load key 1, nft_cmp 1 0 (str_bytes name @ [0])]"

definition comment_udata :: "string \<Rightarrow> bytes" where
  "comment_udata i =
     (let s = ''dn7:'' @ i in [0, word_of_nat (length s + 1)] @ str_bytes s @ [0])"

fun host_v4 :: "ip_addr \<Rightarrow> ipv4 option" where
  "host_v4 (V4 a) = (if a \<noteq> 0 then Some a else None)"
| "host_v4 (V6 _) = None"

section \<open>Operations\<close>

definition base_batch :: "ipnet_lib \<Rightarrow> net_cfg \<Rightarrow> batch" where
  "base_batch L cfg =
     (let net = il_network L (nc_subnet cfg); msk = il_netmask L (nc_subnet cfg);
          masq1 = nfproto_ipv4 @ match_subnet True True net msk @ match_subnet False False net msk @ [masquerade];
          masq2 = nfproto_ipv4 @ match_subnet True False net msk @ match_subnet False True net msk @ [masquerade];
          fwd_in = iface 6 (nc_bridge cfg) @ [immediate_verdict 1];
          fwd_out = iface 7 (nc_bridge cfg) @ [immediate_verdict 1];
          b = add_table TABLE [];
          b = add_chain TABLE ''postrouting'' 4 PRI_SRCNAT ''nat'' 1 b;
          b = add_chain TABLE ''forward'' 2 0 ''filter'' 1 b;
          b = add_chain TABLE ''prerouting'' 0 PRI_DSTNAT ''nat'' 1 b;
          b = add_chain TABLE ''output'' 3 PRI_DSTNAT ''nat'' 1 b;
          b = add_rule TABLE ''postrouting'' masq1 None b;
          b = add_rule TABLE ''postrouting'' masq2 None b;
          b = add_rule TABLE ''forward'' fwd_in None b
      in add_rule TABLE ''forward'' fwd_out None b)"

definition ensure_base :: "ipnet_lib \<Rightarrow> 'k nft_lib \<Rightarrow> net_cfg \<Rightarrow> 'k \<Rightarrow> 'k \<times> unit cres" where
  "ensure_base L K cfg k =
     (if \<not> nl_forward K then (k, Inl IoError)
      else if nl_present K k then (k, Inr ())
      else send_batch K (base_batch L cfg) k)"

definition pre_rule :: "port_map \<Rightarrow> ipv4 \<Rightarrow> bytes list" where
  "pre_rule p ip =
     (case host_v4 (pm_host_ip p) of Some v4 \<Rightarrow> daddr_eq v4 | None \<Rightarrow> []) @
     l4_dport (pm_proto p) (pm_host_port p) @ dnat ip (pm_container_port p)"

definition out_rule :: "port_map \<Rightarrow> ipv4 \<Rightarrow> bytes list" where
  "out_rule p ip =
     (case host_v4 (pm_host_ip p) of
        Some v4 \<Rightarrow> daddr_eq v4
      | None \<Rightarrow> nfproto_ipv4 @ match_subnet False True (ip4 127 0 0 0) (ip4 255 0 0 0)) @
     l4_dport (pm_proto p) (pm_host_port p) @ dnat ip (pm_container_port p)"

definition publish_port :: "'k nft_lib \<Rightarrow> string \<Rightarrow> port_map \<Rightarrow> ipv4 \<Rightarrow> 'k \<Rightarrow> 'k \<times> unit cres" where
  "publish_port K i p ip k =
     (case pm_host_ip p of
        V6 _ \<Rightarrow> (k, Inl (Other (''cannot publish '' @ nl_show K (pm_host_ip p) @ '':'' @ to_dec (pm_host_port p) @ '' -> '' @
           to_dec (pm_container_port p) @ '': IPv6 host addresses are not supported (DNAT is IPv4-only)'')))
      | V4 _ \<Rightarrow>
          send_batch K (add_rule TABLE ''output'' (out_rule p ip) (Some (comment_udata i))
            (add_rule TABLE ''prerouting'' (pre_rule p ip) (Some (comment_udata i)) [])) k)"

definition del_tagged :: "bytes \<Rightarrow> string \<Rightarrow> rule list \<Rightarrow> batch \<Rightarrow> batch" where
  "del_tagged want chain rs b = foldl (\<lambda>b (h, u). if u = want then del_rule TABLE chain h b else b) b rs"

definition teardown_container :: "'k nft_lib \<Rightarrow> string \<Rightarrow> 'k \<Rightarrow> 'k \<times> unit cres" where
  "teardown_container K i k =
     (if \<not> nl_present K k then (k, Inr ())
      else (case nl_rules K k ''prerouting'' of
          Inl e \<Rightarrow> (k, Inl e)
        | Inr pre \<Rightarrow> (case nl_rules K k ''output'' of
            Inl e \<Rightarrow> (k, Inl e)
          | Inr out \<Rightarrow>
              send_batch K (del_tagged (comment_udata i) ''output'' out (del_tagged (comment_udata i) ''prerouting'' pre [])) k)))"

definition nuke_table :: "'k nft_lib \<Rightarrow> 'k \<Rightarrow> 'k \<times> unit cres" where
  "nuke_table K k = (if \<not> nl_present K k then (k, Inr ()) else send_batch K (del_table TABLE []) k)"

section \<open>What the code relies on\<close>

text \<open>A transaction of rules: additions with their user data, deletions by handle.\<close>

datatype rule_op = AddR string "bytes list" bytes | DelR string "64 word"

fun op_msg :: "rule_op \<Rightarrow> batch" where
  "op_msg (AddR c es u) = add_rule TABLE c es (Some u) []"
| "op_msg (DelR c h) = del_rule TABLE c h []"

definition ops_batch :: "rule_op list \<Rightarrow> batch" where
  "ops_batch ops = concat (map op_msg ops)"

definition added :: "string \<Rightarrow> rule_op list \<Rightarrow> bytes list" where
  "added c ops = List.map_filter (\<lambda>x. case x of AddR d _ u \<Rightarrow> if d = c then Some u else None | DelR _ _ \<Rightarrow> None) ops"

definition deleted :: "string \<Rightarrow> rule_op list \<Rightarrow> 64 word set" where
  "deleted c ops = {h. DelR c h \<in> set ops}"

definition rules_of :: "'k nft_lib \<Rightarrow> 'k \<Rightarrow> string \<Rightarrow> rule list" where
  "rules_of K k c = (case nl_rules K k c of Inr rs \<Rightarrow> rs | Inl _ \<Rightarrow> [])"

text \<open>Sizes an attribute can carry.\<close>

fun op_ok :: "rule_op \<Rightarrow> bool" where
  "op_ok (AddR c es u) \<longleftrightarrow> length c < 60000 \<and> length (rule_exprs es) < 60000 \<and> length u < 60000"
| "op_ok (DelR c h) \<longleftrightarrow> length c < 60000"

locale nft_kernel =
  fixes K :: "'k nft_lib"
  assumes refused: "nl_send K b k = (k', Inl e) \<Longrightarrow> k' = k"
    and applied: "list_all op_ok ops \<Longrightarrow> nl_send K (ops_batch ops) k = (k', Inr ()) \<Longrightarrow>
      nl_present K k' \<and> (\<exists>new. map snd new = added c ops \<and>
        rules_of K k' c = filter (\<lambda>r. fst r \<notin> deleted c ops) (rules_of K k c) @ new)"
    and handles: "distinct (map fst (rules_of K k c))"
begin

lemma send_ops:
  assumes "list_all op_ok ops" and "send_batch K (ops_batch ops) k = (k', Inr ())"
  obtains new where "map snd new = added c ops"
    "rules_of K k' c = filter (\<lambda>r. fst r \<notin> deleted c ops) (rules_of K k c) @ new"
    "ops \<noteq> [] \<longrightarrow> nl_present K k'"
proof (cases "ops_batch ops = []")
  case True
  then have "ops = []" by (cases ops; cases "hd ops") (auto simp: ops_batch_def add_rule_def del_rule_def)
  with assms(2) that [of "[]"] show ?thesis
    by (simp add: send_batch_def ops_batch_def added_def deleted_def List.map_filter_def)
next
  case False
  with assms applied [of ops k k' c] that show ?thesis by (auto simp: send_batch_def)
qed

end

section \<open>Sizes of the rules\<close>

lemma length_at_raw: "length (at_raw t d buf) = align4 (length buf + 4 + length d)"
proof -
  let ?b = "buf @ ne16 (word_of_nat (4 + length d)) @ ne16 t @ d"
  have "length ?b = length buf + 4 + length d" by simp
  then show ?thesis unfolding at_raw_def pad4_closed align4_pad by (simp only: length_append length_replicate)
qed

lemmas expr_defs = nft_expr_def at_nested_def at_be32_def at_str0_def meta_load_def nft_cmp_def payload_load_def
  nft_bitwise_def immediate_data_def nat_dnat_def str_bytes_def

lemma length_octets4 [simp]: "length (octets4 a) = 4"
  by (simp add: octets4_def)

lemma length_exprs:
  "length (meta_load a b) \<le> 100" "length (payload_load a b c d) \<le> 100"
  "length (nft_bitwise a b 4 (octets4 x) [0, 0, 0, 0]) \<le> 100"
  "length (nft_cmp a b [y]) \<le> 100" "length (nft_cmp a b (octets4 x)) \<le> 100" "length (nft_cmp a b (be16 z)) \<le> 100"
  "length (immediate_data a (octets4 x)) \<le> 100" "length (immediate_data a (be16 z)) \<le> 100" "length (nat_dnat a b c) \<le> 100"
  by (simp_all add: expr_defs length_at_raw align4_def)

lemma length_rule_exprs:
  assumes "\<forall>e \<in> set es. length e \<le> 100"
  shows "length (rule_exprs es) \<le> 107 * length es"
proof -
  have al: "align4 n \<le> n + 3" for n unfolding align4_def by (metis div_times_less_eq_dividend)
  have "length (foldl (\<lambda>buf e. at_raw (1 OR NLA_F_NESTED) e buf) b es) \<le> length b + 107 * length es" for b
    using assms
  proof (induction es arbitrary: b)
    case (Cons e es)
    let ?b = "at_raw (1 OR NLA_F_NESTED) e b"
    have "length ?b \<le> length b + 107"
      using al [of "length b + 4 + length e"] Cons.prems by (simp add: length_at_raw)
    moreover have "\<forall>e \<in> set es. length e \<le> 100" using Cons.prems by simp
    ultimately show ?case using Cons.IH [of ?b] by simp
  qed simp
  from this [of "[]"] show ?thesis by (simp add: rule_exprs_def)
qed

lemma rule_sizes: "length (rule_exprs (pre_rule p ip)) < 60000" "length (rule_exprs (out_rule p ip)) < 60000"
proof -
  note d = pre_rule_def out_rule_def daddr_eq_def nfproto_ipv4_def l4_dport_def dnat_def match_subnet_def
  have "\<forall>e \<in> set (pre_rule p ip). length e \<le> 100" "\<forall>e \<in> set (out_rule p ip). length e \<le> 100"
    unfolding d by (auto simp: length_exprs split: option.splits)
  note l = this [THEN length_rule_exprs]
  have n: "length (pre_rule p ip) \<le> 20" "length (out_rule p ip) \<le> 20"
    unfolding d by (auto split: option.splits)
  show "length (rule_exprs (pre_rule p ip)) < 60000" using l(1) n(1) by linarith
  show "length (rule_exprs (out_rule p ip)) < 60000" using l(2) n(2) by linarith
qed

section \<open>Publishing and removing\<close>

lemma str_bytes_inj: "str_bytes a = str_bytes b \<Longrightarrow> a = b"
proof (induction a arbitrary: b)
  case Nil
  then show ?case by (cases b) (simp_all add: str_bytes_def)
next
  case (Cons x a)
  then obtain y b' where b: "b = y # b'" by (cases b) (simp_all add: str_bytes_def)
  have n: "unat (word_of_nat (of_char z) :: 8 word) = of_char z" for z :: char
    using nat_of_char_less_256 [of z] by (simp add: unsigned_of_nat take_bit_nat_eq_self)
  from Cons.prems b have w: "(word_of_nat (of_char x) :: 8 word) = word_of_nat (of_char y)"
    and r: "str_bytes a = str_bytes b'"
    unfolding str_bytes_def list.map list.inject by auto
  have "(of_char x :: nat) = of_char y" using n [of x] n [of y] unfolding w by (rule trans [OF sym])
  then have "x = y" by (rule of_char_eq_iff [THEN iffD1])
  with b Cons.IH [OF r] show ?case by simp
qed

lemma comment_udata_inj: "comment_udata i = comment_udata j \<longleftrightarrow> i = j"
  by (auto simp: comment_udata_def Let_def dest: str_bytes_inj)

lemma length_comment_udata: "length (comment_udata i) = length i + 7"
  by (simp add: comment_udata_def Let_def str_bytes_def)

lemma ops_batch_append: "ops_batch (a @ b) = ops_batch a @ ops_batch b"
  by (simp add: ops_batch_def)

lemma del_tagged_ops:
  "del_tagged want c rs b = b @ ops_batch (map (\<lambda>r. DelR c (fst r)) (filter (\<lambda>r. snd r = want) rs))"
  unfolding del_tagged_def
  by (induction rs arbitrary: b) (auto simp: ops_batch_def del_rule_def)

definition publish_ops :: "string \<Rightarrow> port_map \<Rightarrow> ipv4 \<Rightarrow> rule_op list" where
  "publish_ops i p ip = [AddR ''prerouting'' (pre_rule p ip) (comment_udata i), AddR ''output'' (out_rule p ip) (comment_udata i)]"

lemma publish_ops_ok: "length i \<le> 64 \<Longrightarrow> list_all op_ok (publish_ops i p ip)"
  by (simp add: publish_ops_def rule_sizes length_comment_udata)

lemma publish_port_ops: "publish_port K i p ip k = (k', Inr ()) \<Longrightarrow> send_batch K (ops_batch (publish_ops i p ip)) k = (k', Inr ())"
  by (auto simp: publish_port_def publish_ops_def ops_batch_def add_rule_def split: ip_addr.splits)

definition teardown_ops :: "bytes \<Rightarrow> rule list \<Rightarrow> rule list \<Rightarrow> rule_op list" where
  "teardown_ops want pre out =
     map (\<lambda>r. DelR ''prerouting'' (fst r)) (filter (\<lambda>r. snd r = want) pre) @
     map (\<lambda>r. DelR ''output'' (fst r)) (filter (\<lambda>r. snd r = want) out)"

context nft_kernel
begin

text \<open>Publishing adds one tagged rule to each of the two chains.\<close>

lemma publish_adds:
  assumes "publish_port K i p ip k = (k', Inr ())" and "length i \<le> 64"
  obtains new where "snd ` set new \<subseteq> {comment_udata i}" "rules_of K k' c = rules_of K k c @ new" "nl_present K k'"
    "c \<notin> {''prerouting'', ''output''} \<longrightarrow> new = []"
proof -
  from send_ops [OF publish_ops_ok [OF assms(2)] publish_port_ops [OF assms(1)], of c] obtain new
    where n: "map snd new = added c (publish_ops i p ip)"
      "rules_of K k' c = filter (\<lambda>r. fst r \<notin> deleted c (publish_ops i p ip)) (rules_of K k c) @ new" "nl_present K k'"
    by (auto simp: publish_ops_def)
  have "deleted c (publish_ops i p ip) = {}" "set (added c (publish_ops i p ip)) \<subseteq> {comment_udata i}"
    "c \<notin> {''prerouting'', ''output''} \<longrightarrow> added c (publish_ops i p ip) = []"
    by (auto simp: publish_ops_def deleted_def added_def List.map_filter_def)
  moreover from n(1) have "snd ` set new = set (added c (publish_ops i p ip))" by (metis set_map)
  moreover have "added c (publish_ops i p ip) = [] \<longrightarrow> new = []" using n(1) by auto
  ultimately show ?thesis using n by (intro that [of new]) simp_all
qed

lemma teardown_removes:
  assumes "teardown_container K i k = (k', Inr ())" and "nl_present K k"
  shows "rules_of K k' c =
    (if c = ''prerouting'' \<or> c = ''output'' then filter (\<lambda>r. snd r \<noteq> comment_udata i) (rules_of K k c) else rules_of K k c)"
proof -
  let ?u = "comment_udata i"
  from assms obtain pre out where r: "nl_rules K k ''prerouting'' = Inr pre" "nl_rules K k ''output'' = Inr out"
    and s: "send_batch K (ops_batch (teardown_ops ?u pre out)) k = (k', Inr ())"
    by (auto simp: teardown_container_def del_tagged_ops teardown_ops_def ops_batch_append ops_batch_def split: sum.splits)
  have ok: "list_all op_ok (teardown_ops ?u pre out)" by (auto simp: teardown_ops_def list_all_iff)
  have no: "added c (teardown_ops ?u pre out) = []"
    by (auto simp: added_def teardown_ops_def List.map_filter_def filter_empty_conv)
  from send_ops [OF ok s, of c] no
  have e: "rules_of K k' c = filter (\<lambda>r. fst r \<notin> deleted c (teardown_ops ?u pre out)) (rules_of K k c)" by auto
  have del: "deleted c (teardown_ops ?u pre out) =
      (if c = ''prerouting'' \<or> c = ''output'' then fst ` {r \<in> set (rules_of K k c). snd r = ?u} else {})"
    using r by (auto simp: deleted_def teardown_ops_def rules_of_def)
  have "fst r \<in> fst ` {r \<in> set (rules_of K k c). snd r = ?u} \<longleftrightarrow> snd r = ?u" if "r \<in> set (rules_of K k c)" for r
    using handles [of k c] that by (auto simp: distinct_map dest: inj_onD)
  then have "filter (\<lambda>r. fst r \<notin> fst ` {r \<in> set (rules_of K k c). snd r = ?u}) (rules_of K k c) =
      filter (\<lambda>r. snd r \<noteq> ?u) (rules_of K k c)" by (intro filter_cong) simp_all
  then show ?thesis unfolding e del by simp
qed

end

text \<open>A run of publications for one container.\<close>

inductive published :: "'k nft_lib \<Rightarrow> string \<Rightarrow> 'k \<Rightarrow> 'k \<Rightarrow> bool" for K i where
  published_none: "published K i k k"
| published_one: "published K i k k1 \<Longrightarrow> publish_port K i p ip k1 = (k2, Inr ()) \<Longrightarrow> published K i k k2"

lemma published_adds:
  assumes "nft_kernel K" and "published K i k k'" and "length i \<le> 64"
  shows "\<exists>new. snd ` set new \<subseteq> {comment_udata i} \<and> rules_of K k' c = rules_of K k c @ new \<and>
    (c \<notin> {''prerouting'', ''output''} \<longrightarrow> new = []) \<and> (k' = k \<or> nl_present K k')"
  using assms(2)
proof induction
  case published_none
  show ?case by (intro exI [of _ "[]"]) simp
next
  case (published_one k k1 p ip k2)
  then obtain new where n: "snd ` set new \<subseteq> {comment_udata i}" "rules_of K k1 c = rules_of K k c @ new"
    "c \<notin> {''prerouting'', ''output''} \<longrightarrow> new = []" by auto
  from nft_kernel.publish_adds [OF assms(1) published_one.hyps(2) assms(3)] obtain new'
    where "snd ` set new' \<subseteq> {comment_udata i}" "rules_of K k2 c = rules_of K k1 c @ new'" "nl_present K k2"
      "c \<notin> {''prerouting'', ''output''} \<longrightarrow> new' = []" .
  with n show ?case by (intro exI [of _ "new @ new'"]) (auto simp: image_Un)
qed


lemma publish_teardown_aux:
  assumes "nft_kernel K" and "\<forall>c. comment_udata i \<notin> snd ` set (rules_of K k c)" and "length i \<le> 64"
    and "published K i k k1" and "teardown_container K i k1 = (k2, Inr ())"
  shows "rules_of K k2 c = rules_of K k c"
proof (cases "nl_present K k1")
  case True
  from published_adds [OF assms(1,4,3), of c] obtain new
    where n: "snd ` set new \<subseteq> {comment_udata i}" "rules_of K k1 c = rules_of K k c @ new"
      "c \<notin> {''prerouting'', ''output''} \<longrightarrow> new = []" by auto
  have "filter (\<lambda>r. snd r \<noteq> comment_udata i) (rules_of K k c) = rules_of K k c"
    using assms(2) by (intro filter_True) (metis imageI)
  moreover have "filter (\<lambda>r. snd r \<noteq> comment_udata i) new = []" using n(1) by (auto simp: filter_empty_conv)
  ultimately show ?thesis using n(2,3) by (simp add: nft_kernel.teardown_removes [OF assms(1,5) True])
next
  case False
  with published_adds [OF assms(1,4,3), of c] have "k1 = k" by auto
  with False assms(5) show ?thesis by (simp add: teardown_container_def)
qed

text \<open>Publishing any number of ports for a container and taking it down gives back the rules there were,
  whatever other containers have published.
\<close>

theorem publish_teardown_undo:
  assumes "nft_kernel K" and "\<forall>c. comment_udata i \<notin> snd ` set (rules_of K k c)" and "length i \<le> 64"
    and "published K i k k1" and "teardown_container K i k1 = (k2, Inr ())"
  shows "rules_of K k2 c = rules_of K k c"
  using assms by (rule publish_teardown_aux)

section \<open>A kernel\<close>

text \<open>A kernel that keeps the rules in one list, whose positions are the handles, and reads the messages.\<close>

function read_attrs :: "bytes \<Rightarrow> (16 word \<times> bytes) list" where
  "read_attrs bs =
     (if length bs < 4 then []
      else let n = unat (from_ne16 (take 2 bs)) in
        if n < 4 \<or> length bs < n then []
        else (from_ne16 (take 2 (drop 2 bs)), take (n - 4) (drop 4 bs)) # read_attrs (drop (align4 n) bs))"
  by pat_completeness auto
termination
  by (relation "measure length") (auto simp: align4_def)

declare read_attrs.simps [simp del]

lemma read_attrs_tlvs:
  assumes "\<forall>(t, d) \<in> set ps. length d < 65532"
  shows "read_attrs (concat (map tlv ps)) = ps"
  using assms
proof (induction ps)
  case Nil
  show ?case by (subst read_attrs.simps) simp
next
  case (Cons p ps)
  obtain t d where p: "p = (t, d)" by (cases p)
  let ?r = "concat (map tlv ps)" and ?b = "tlv (t, d) @ concat (map tlv ps)"
  have s: "4 + length d < 2 ^ 16" using Cons.prems p by auto
  have self: "from_ne16 (ne16 w) = w" for w using from_ne16_ne16 [of w "[]"] by simp
  have "take 2 ?b = ne16 (word_of_nat (4 + length d))" by (simp add: tlv_def)
  then have a: "unat (from_ne16 (take 2 ?b)) = 4 + length d" by (simp only: self unat_len16 [OF s])
  have ty: "from_ne16 (take 2 (drop 2 ?b)) = t" by (simp add: tlv_def self)
  have v: "take (4 + length d - 4) (drop 4 ?b) = d" by (simp add: tlv_def)
  have l: "length (tlv (t, d)) = align4 (4 + length d)" by (rule length_tlv)
  have le: "4 + length d \<le> align4 (4 + length d)" by (simp add: align4_pad)
  have c: "(length ?b < 4) = False" "(4 + length d < 4 \<or> length ?b < 4 + length d) = False" using l le by simp_all
  have d: "drop (align4 (4 + length d)) ?b = ?r" using l by simp
  have "read_attrs ?b = (t, d) # read_attrs ?r"
    by (subst read_attrs.simps) (simp only: Let_def a ty v d c if_False)
  with Cons p show ?case by simp
qed

lemma tlvs_step: "at_raw t d (concat (map tlv ps)) = concat (map tlv (ps @ [(t, d)]))"
  using at_raw_tlv [OF tlvs_aligned, of t d ps] by simp

lemma tlvs_start: "at_raw t d [] = concat (map tlv [(t, d)])"
  using tlvs_step [of t d "[]"] by simp

lemma rule_attrs_tlvs:
  "rule_attrs table chain es (Some u) = concat (map tlv
     [(1, str_bytes table @ [0]), (2, str_bytes chain @ [0]), (4 OR NLA_F_NESTED, rule_exprs es), (NFTA_RULE_USERDATA, u)])"
  unfolding rule_attrs_def at_nested_def at_str0_def option.case Let_def tlvs_start tlvs_step append.simps by (rule refl)

lemma del_attrs_tlvs:
  "at_raw NFTA_RULE_HANDLE (be64 h) (at_str0 2 chain (at_str0 1 table [])) = concat (map tlv
     [(1, str_bytes table @ [0]), (2, str_bytes chain @ [0]), (NFTA_RULE_HANDLE, be64 h)])"
  unfolding at_str0_def tlvs_start tlvs_step append.simps by (rule refl)

text \<open>What a message asks for: the user data of a rule to add, or the handle of one to delete, in a chain.\<close>

definition read_op :: "16 word \<times> 16 word \<times> bytes \<Rightarrow> (bytes \<times> (64 word + bytes)) option" where
  "read_op m =
     (case m of (ty, _, attrs) \<Rightarrow>
        (case read_attrs attrs of
           [_, (_, c), _, (_, u)] \<Rightarrow> if ty = 6 then Some (c, Inr u) else None
         | [_, (_, c), (_, h)] \<Rightarrow> if ty = 8 then Some (c, Inl (from_be64 h)) else None
         | _ \<Rightarrow> None))"

fun op_meaning :: "rule_op \<Rightarrow> bytes \<times> (64 word + bytes)" where
  "op_meaning (AddR c es u) = (str_bytes c @ [0], Inr u)"
| "op_meaning (DelR c h) = (str_bytes c @ [0], Inl h)"

lemma read_op_msg:
  assumes "op_ok x"
  shows "map read_op (op_msg x) = [Some (op_meaning x)]"
proof (cases x)
  case (AddR c es u)
  let ?ps = "[(1, str_bytes TABLE @ [0]), (2, str_bytes c @ [0]), (4 OR NLA_F_NESTED, rule_exprs es), (NFTA_RULE_USERDATA, u)]"
  have "\<forall>(t, d) \<in> set ?ps. length d < 65532" using assms AddR by (simp add: str_bytes_def TABLE_def)
  from read_attrs_tlvs [OF this] have "read_attrs (rule_attrs TABLE c es (Some u)) = ?ps" unfolding rule_attrs_tlvs .
  then show ?thesis by (simp add: AddR add_rule_def read_op_def)
next
  case (DelR c h)
  let ?ps = "[(1, str_bytes TABLE @ [0]), (2, str_bytes c @ [0]), (NFTA_RULE_HANDLE, be64 h)]"
  have "\<forall>(t, d) \<in> set ?ps. length d < 65532" using assms DelR by (simp add: str_bytes_def TABLE_def)
  from read_attrs_tlvs [OF this] have "read_attrs (at_raw NFTA_RULE_HANDLE (be64 h) (at_str0 2 c (at_str0 1 TABLE []))) = ?ps"
    unfolding del_attrs_tlvs .
  then show ?thesis by (simp add: DelR del_rule_def read_op_def from_be64_be64)
qed

lemma read_ops: "list_all op_ok ops \<Longrightarrow> those (map read_op (ops_batch ops)) = Some (map op_meaning ops)"
proof -
  assume "list_all op_ok ops"
  then have "map read_op (ops_batch ops) = map Some (map op_meaning ops)"
    by (induction ops) (simp_all add: ops_batch_def read_op_msg)
  moreover have "those (map Some xs) = Some xs" for xs :: "'a list" by (induction xs) simp_all
  ultimately show ?thesis by (simp only:)
qed

text \<open>An entry is the chain and the user data of a rule, \<open>None\<close> once deleted.\<close>

type_synonym demo_rules = "(bytes \<times> bytes option) list"

definition demo_handle :: "nat \<Rightarrow> 64 word" where "demo_handle h = word_of_nat h"

lemma unat_demo_handle: "n < 2 ^ 64 \<Longrightarrow> unat (demo_handle n) = n"
  unfolding demo_handle_def by (simp only: unsigned_of_nat) (simp add: take_bit_nat_eq_self)

fun demo_from :: "bytes \<Rightarrow> nat \<Rightarrow> demo_rules \<Rightarrow> rule list" where
  "demo_from c h [] = []"
| "demo_from c h ((d, u) # k) =
     (if d = c \<and> u \<noteq> None then (demo_handle h, the u) # demo_from c (Suc h) k else demo_from c (Suc h) k)"

fun demo_delete :: "(bytes \<times> (64 word + bytes)) list \<Rightarrow> nat \<Rightarrow> demo_rules \<Rightarrow> demo_rules" where
  "demo_delete ms h [] = []"
| "demo_delete ms h ((d, u) # k) =
     (d, if (d, Inl (demo_handle h)) \<in> set ms then None else u) # demo_delete ms (Suc h) k"

fun demo_added :: "(bytes \<times> (64 word + bytes)) list \<Rightarrow> demo_rules" where
  "demo_added [] = []"
| "demo_added ((c, Inl h) # ms) = demo_added ms"
| "demo_added ((c, Inr u) # ms) = (c, Some u) # demo_added ms"

definition demo_list :: "demo_rules \<Rightarrow> string \<Rightarrow> rule list" where
  "demo_list k c = (if length k < 2 ^ 64 then demo_from (str_bytes c @ [0]) 0 k else [])"

definition demo_send :: "batch \<Rightarrow> demo_rules \<Rightarrow> demo_rules \<times> unit cres" where
  "demo_send b k =
     (case those (map read_op b) of
        None \<Rightarrow> (k, Inl IoError)
      | Some ms \<Rightarrow>
          let k' = demo_delete ms 0 k @ demo_added ms in if length k' < 2 ^ 64 then (k', Inr ()) else (k, Inl IoError))"

definition demo_kernel :: "demo_rules nft_lib" where
  "demo_kernel = \<lparr>nl_present = (\<lambda>_. True), nl_rules = (\<lambda>k c. Inr (demo_list k c)), nl_send = demo_send,
     nl_forward = True, nl_have = (\<lambda>_. True), nl_show = (\<lambda>_. [])\<rparr>"

lemma demo_from_append: "demo_from c h (k @ l) = demo_from c h k @ demo_from c (h + length k) l"
  by (induction c h k rule: demo_from.induct) simp_all

lemma demo_from_delete:
  "demo_from c h (demo_delete ms h k) = filter (\<lambda>r. (c, Inl (fst r)) \<notin> set ms) (demo_from c h k)"
  by (induction c h k rule: demo_from.induct) auto

lemma length_demo_delete [simp]: "length (demo_delete ms h k) = length k"
  by (induction ms h k rule: demo_delete.induct) simp_all

lemma demo_from_added: "map snd (demo_from c h (demo_added ms)) = List.map_filter (\<lambda>(d, x). case x of Inr u \<Rightarrow> if d = c then Some u else None | Inl _ \<Rightarrow> None) ms"
  by (induction ms arbitrary: h rule: demo_added.induct) (auto simp: List.map_filter_def)

lemma demo_from_handles: "fst ` set (demo_from c h k) \<subseteq> demo_handle ` {h..<h + length k}"
proof (induction c h k rule: demo_from.induct)
  case (2 c h d u k)
  have "demo_handle ` {Suc h..<Suc h + length k} \<subseteq> demo_handle ` {h..<h + length ((d, u) # k)}" by (rule image_mono) auto
  with 2 have "fst ` set (demo_from c (Suc h) k) \<subseteq> demo_handle ` {h..<h + length ((d, u) # k)}" by (cases "d = c \<and> u \<noteq> None") auto
  then show ?case by auto
qed simp

lemma demo_from_distinct: "h + length k \<le> 2 ^ 64 \<Longrightarrow> distinct (map fst (demo_from c h k))"
proof (induction c h k rule: demo_from.induct)
  case (2 c h d u k)
  have "demo_handle h \<notin> demo_handle ` {Suc h..<Suc h + length k}"
  proof
    assume "demo_handle h \<in> demo_handle ` {Suc h..<Suc h + length k}"
    then obtain j where j: "demo_handle h = demo_handle j" "h < j" "j < Suc h + length k" by auto
    then have "h < 2 ^ 64" "j < 2 ^ 64" using 2(3) by simp_all
    with j show False using unat_demo_handle by (metis less_irrefl)
  qed
  with demo_from_handles [of c "Suc h" k] have "demo_handle h \<notin> fst ` set (demo_from c (Suc h) k)" by blast
  moreover have "distinct (map fst (demo_from c (Suc h) k))"
    using 2 by (cases "d = c \<and> u \<noteq> None") simp_all
  ultimately show ?case by simp
qed simp

lemma op_meaning_deleted: "(str_bytes c @ [0], Inl h) \<in> set (map op_meaning ops) \<longleftrightarrow> h \<in> deleted c ops"
proof -
  have m: "op_meaning x = (str_bytes c @ [0], Inl h) \<longleftrightarrow> x = DelR c h" for x
  proof (cases x)
    case (DelR d g)
    have "str_bytes d = str_bytes c \<longleftrightarrow> d = c" using str_bytes_inj by blast
    with DelR show ?thesis by simp
  qed simp
  have img: "a \<in> f ` A \<longleftrightarrow> (\<exists>x \<in> A. f x = a)" for a :: 'b and f :: "'c \<Rightarrow> 'b" and A by auto
  show ?thesis unfolding set_map img m deleted_def by simp
qed

lemma op_meaning_added:
  "List.map_filter (\<lambda>(d, x). case x of Inr u \<Rightarrow> if d = str_bytes c @ [0] then Some u else None | Inl _ \<Rightarrow> None)
     (map op_meaning ops) = added c ops"
proof (induction ops)
  case (Cons x ops)
  have "added c (x # ops) = added c [x] @ added c ops" by (simp add: added_def List.map_filter_def)
  moreover have "str_bytes d = str_bytes c \<longleftrightarrow> d = c" for d using str_bytes_inj by blast
  ultimately show ?case using Cons by (cases x) (simp_all add: added_def List.map_filter_def)
qed (simp add: added_def List.map_filter_def)

lemma demo_added_dels:
  "demo_added (map (op_meaning \<circ> (\<lambda>r. DelR c (fst r))) (xs :: rule list) @ map (op_meaning \<circ> (\<lambda>r. DelR d (fst r))) (ys :: rule list)) = []"
proof -
  have "demo_added (map (op_meaning \<circ> (\<lambda>r. DelR d (fst r))) zs) = []" for zs :: "rule list" and d by (induction zs) simp_all
  then show ?thesis by (induction xs) simp_all
qed

interpretation demo_nft: nft_kernel demo_kernel
proof
  show "nl_send demo_kernel b k = (k', Inl e) \<Longrightarrow> k' = k" for b k k' e
    by (auto simp: demo_kernel_def demo_send_def Let_def split: option.splits if_splits)
  show "distinct (map fst (rules_of demo_kernel k c))" for k c
    by (simp add: demo_kernel_def rules_of_def demo_list_def demo_from_distinct)
  fix ops k k' c
  assume ok: "list_all op_ok ops" and "nl_send demo_kernel (ops_batch ops) k = (k', Inr ())"
  then have k': "k' = demo_delete (map op_meaning ops) 0 k @ demo_added (map op_meaning ops)" and l: "length k' < 2 ^ 64"
    by (auto simp: demo_kernel_def demo_send_def read_ops Let_def split: if_splits)
  let ?c = "str_bytes c @ [0]"
  have "rules_of demo_kernel k' c = filter (\<lambda>r. fst r \<notin> deleted c ops) (rules_of demo_kernel k c) @
      demo_from ?c (length k) (demo_added (map op_meaning ops))"
    using l unfolding k'
    by (simp add: demo_kernel_def rules_of_def demo_list_def demo_from_append demo_from_delete
        flip: op_meaning_deleted)
  moreover have "map snd (demo_from ?c (length k) (demo_added (map op_meaning ops))) = added c ops"
    unfolding demo_from_added by (rule op_meaning_added)
  ultimately show "nl_present demo_kernel k' \<and> (\<exists>new. map snd new = added c ops \<and>
      rules_of demo_kernel k' c = filter (\<lambda>r. fst r \<notin> deleted c ops) (rules_of demo_kernel k c) @ new)"
    by (auto simp: demo_kernel_def)
qed

lemma demo_publish:
  assumes "length i \<le> 64" and "length k < 1000"
  shows "publish_port demo_kernel i \<lparr>pm_host_ip = V4 0, pm_host_port = 80, pm_container_port = 8080, pm_proto = Tcp\<rparr> ip k =
    (demo_delete (map op_meaning (publish_ops i \<lparr>pm_host_ip = V4 0, pm_host_port = 80, pm_container_port = 8080, pm_proto = Tcp\<rparr> ip)) 0 k @
       [(str_bytes ''prerouting'' @ [0], Some (comment_udata i)), (str_bytes ''output'' @ [0], Some (comment_udata i))], Inr ())"
proof -
  let ?p = "\<lparr>pm_host_ip = V4 0, pm_host_port = 80, pm_container_port = 8080, pm_proto = Tcp\<rparr>"
  have "publish_port demo_kernel i ?p ip k = demo_send (ops_batch (publish_ops i ?p ip)) k"
    by (simp add: publish_port_def send_batch_def demo_kernel_def publish_ops_def ops_batch_def add_rule_def)
  then show ?thesis using assms
    by (simp add: demo_send_def read_ops publish_ops_ok) (simp add: publish_ops_def)
qed

lemma demo_teardown: "length k < 1000 \<Longrightarrow> \<exists>k'. teardown_container demo_kernel i k = (k', Inr ()) \<and> length k' = length k"
proof -
  assume l: "length k < 1000"
  let ?ops = "teardown_ops (comment_udata i) (demo_list k ''prerouting'') (demo_list k ''output'')"
  have t: "teardown_container demo_kernel i k = send_batch demo_kernel (ops_batch ?ops) k"
    by (simp add: teardown_container_def demo_kernel_def del_tagged_ops teardown_ops_def ops_batch_append)
  have "list_all op_ok ?ops" by (auto simp: teardown_ops_def list_all_iff)
  moreover have "demo_added (map op_meaning ?ops) = []"
    unfolding teardown_ops_def map_append map_map by (rule demo_added_dels)
  ultimately show ?thesis using l unfolding t
    by (auto simp: send_batch_def demo_kernel_def demo_send_def read_ops Let_def)
qed


theorem publish_teardown_undo_witness:
  "\<exists>k1 k2. published demo_kernel ''web'' [] k1 \<and> length k1 = 2 \<and>
     teardown_container demo_kernel ''web'' k1 = (k2, Inr ()) \<and> rules_of demo_kernel k2 ''prerouting'' = []"
proof -
  let ?k = "[(str_bytes ''prerouting'' @ [0], Some (comment_udata ''web'')), (str_bytes ''output'' @ [0], Some (comment_udata ''web''))]"
  have "publish_port demo_kernel ''web'' \<lparr>pm_host_ip = V4 0, pm_host_port = 80, pm_container_port = 8080, pm_proto = Tcp\<rparr>
      (ip4 172 18 0 2) [] = (?k, Inr ())"
    by (subst demo_publish) simp_all
  then have p: "published demo_kernel ''web'' [] ?k" by (rule published_one [OF published_none])
  have "length ?k < 1000" by simp
  from demo_teardown [OF this] obtain k2 where t: "teardown_container demo_kernel ''web'' ?k = (k2, Inr ())" by blast
  have e: "rules_of demo_kernel [] c = []" for c by (simp add: rules_of_def demo_kernel_def demo_list_def)
  then have n: "\<forall>c. comment_udata ''web'' \<notin> snd ` set (rules_of demo_kernel [] c)" by simp
  have "length ''web'' \<le> 64" by simp
  from publish_teardown_undo [OF demo_nft.nft_kernel_axioms n this p t, of "''prerouting''"] p t e
  show ?thesis by (intro exI [of _ ?k] exI [of _ k2]) simp
qed

end
