(* ===== verification/Net_Registry.thy ===== *)
theory Net_Registry
  imports Ipam "HOL-Library.List_Lexorder" "HOL-Library.Char_ord"
begin

text \<open>
  User-defined networks (\<open>crates/dn7-container/src/net/registry.rs\<close>): one file per network beside the
  built-in \<open>dn7\<close>. The kernel is a parameter: which calls of \<open>backend.rs\<close> succeed. A
  network name is taken as a file name. Results the code ignores are those of operations that succeed.
\<close>

section \<open>The host\<close>

datatype backend_call = EnsureBridge string | MakeVeth string string | AttachToBridge string string
  | MovePeer string int | ConfigInside int string ipv4 ipv4 | ConfigAttachment int string string ipv4
  | LoUp int | SetIfaceIp int string "ipv4 option" ipv4

record net_env =
  ne_lib :: ipnet_lib
  ne_sha :: "string \<Rightarrow> 8 word list"
  ne_dbg :: "string \<Rightarrow> string"
  ne_ok :: "backend_call \<Rightarrow> bool"
  ne_write :: bool
  ne_lease_write :: bool

definition call_backend :: "net_env \<Rightarrow> backend_call \<Rightarrow> unit cres" where
  "call_backend E c = (if ne_ok E c then Inr () else Inl (Syscall []))"

type_synonym registry = "(string, net_cfg manifest) hmap"

section \<open>Names and look-up\<close>

definition RESERVED :: "string list" where
  "RESERVED = [DEFAULT_NETWORK, ''bridge'', ''host'', ''none'', ''default'']"

definition bridge_for :: "(string \<Rightarrow> 8 word list) \<Rightarrow> string \<Rightarrow> string" where
  "bridge_for sha name = ''dn7br'' @ take 9 (concat (map hex2 (take 5 (sha name))))"

definition validate_net_name :: "(string \<Rightarrow> string) \<Rightarrow> string \<Rightarrow> unit cres" where
  "validate_net_name dbg name =
     (if \<not> (name \<noteq> [] \<and> length name \<le> 32 \<and> id_start (hd name) \<and> list_all id_char name) then
        Inl (Other (''invalid network name '' @ dbg name @ '' (use a-z 0-9 _ . -, '' @
          [CHR 0xE2, CHR 0x89, CHR 0xA4] @ ''32 chars)''))
      else if name \<in> set RESERVED then Inl (Other (''network name '' @ dbg name @ '' is reserved''))
      else Inr ())"

definition load_user :: "string \<Rightarrow> registry \<Rightarrow> net_cfg option" where
  "load_user name R = (case hm_get R name of Some (Parsed c) \<Rightarrow> Some c | _ \<Rightarrow> None)"

definition resolve_net :: "string \<Rightarrow> registry \<Rightarrow> net_cfg cres" where
  "resolve_net name R =
     (if name = [] \<or> name = DEFAULT_NETWORK \<or> name = ''bridge'' then Inr default_dn7
      else (case load_user name R of
          Some c \<Rightarrow> Inr c
        | None \<Rightarrow> Inl (Other (''no such network: '' @ name))))"

definition user_nets :: "registry \<Rightarrow> net_cfg list" where
  "user_nets R = List.map_filter (\<lambda>(_, m). case m of Parsed c \<Rightarrow> Some c | _ \<Rightarrow> None) R"

definition all_nets :: "registry \<Rightarrow> net_cfg list" where
  "all_nets R = default_dn7 # sort_key nc_name (user_nets R)"

definition is_builtin :: "string \<Rightarrow> bool" where
  "is_builtin name \<longleftrightarrow> name = DEFAULT_NETWORK \<or> name = ''bridge'' \<or> name = DEFAULT_BRIDGE"

section \<open>Operations\<close>

definition write_config :: "net_env \<Rightarrow> net_cfg \<Rightarrow> registry \<Rightarrow> registry \<times> unit cres" where
  "write_config E cfg R =
     (if ne_write E then (hm_insert (nc_name cfg) (Parsed cfg) R, Inr ()) else (R, Inl IoError))"

definition pick_gateway :: "ipnet_lib \<Rightarrow> net4 \<Rightarrow> ipv4 option \<Rightarrow> ipv4 cres" where
  "pick_gateway L subnet gateway =
     (case gateway of
        Some g \<Rightarrow> if \<not> il_contains L subnet g
          then Inl (Other (''gateway '' @ show_ipv4 g @ '' is not inside subnet '' @ show_net subnet)) else Inr g
      | None \<Rightarrow> (case il_hosts L subnet of
            h # _ \<Rightarrow> Inr h
          | [] \<Rightarrow> Inl (Other ''subnet has no usable host address'')))"

definition clashes :: "ipnet_lib \<Rightarrow> net4 \<Rightarrow> ipv4 \<Rightarrow> net_cfg \<Rightarrow> bool" where
  "clashes L subnet gw other \<longleftrightarrow>
     il_trunc L (nc_subnet other) = subnet \<or> il_contains L (nc_subnet other) gw \<or>
     il_contains L subnet (nc_gateway other)"

definition create_net :: "net_env \<Rightarrow> string \<Rightarrow> net4 \<Rightarrow> ipv4 option \<Rightarrow> registry \<Rightarrow> registry \<times> net_cfg cres" where
  "create_net E name subnet0 gateway R =
     (let subnet = il_trunc (ne_lib E) subnet0 in
      case validate_net_name (ne_dbg E) name of
        Inl e \<Rightarrow> (R, Inl e)
      | Inr _ \<Rightarrow>
          if hm_get R name \<noteq> None then (R, Inl (Other (''network '' @ name @ '' already exists'')))
          else if 30 < prefix_len subnet \<or> prefix_len subnet < 8
          then (R, Inl (Other ''subnet prefix must be between /8 and /30''))
          else (case pick_gateway (ne_lib E) subnet gateway of
            Inl e \<Rightarrow> (R, Inl e)
          | Inr gw \<Rightarrow>
              (case find (clashes (ne_lib E) subnet gw) (all_nets R) of
                 Some other \<Rightarrow> (R, Inl (Other (''subnet '' @ show_net subnet @ '' overlaps existing network '' @ nc_name other)))
               | None \<Rightarrow>
                   (let cfg = \<lparr>nc_name = name, nc_bridge = bridge_for (ne_sha E) name, nc_subnet = subnet, nc_gateway = gw\<rparr> in
                    case write_config E cfg R of
                      (R1, Inl e) \<Rightarrow> (R1, Inl e)
                    | (R1, Inr _) \<Rightarrow>
                        (case call_backend E (EnsureBridge (nc_bridge cfg)) of
                           Inl e \<Rightarrow> (R1, Inl e) | Inr _ \<Rightarrow> (R1, Inr cfg))))))"

definition subnet_candidates :: "net4 list" where
  "subnet_candidates =
     concat (map (\<lambda>s. map (\<lambda>t. (ip4 172 s t 0, 24)) [0..<256]) [18..<32]) @ map (\<lambda>t. (ip4 10 10 t 0, 24)) [0..<256]"

definition allocate_free_subnet :: "ipnet_lib \<Rightarrow> registry \<Rightarrow> net4 cres" where
  "allocate_free_subnet L R =
     (let existing = map (\<lambda>c. il_trunc L (nc_subnet c)) (all_nets R);
          overlaps = (\<lambda>cand. list_ex (\<lambda>e. il_contains L e (il_network L cand) \<or> il_contains L cand (il_network L e)) existing)
      in case find (\<lambda>cand. \<not> overlaps cand) subnet_candidates of
           Some n \<Rightarrow> Inr n
         | None \<Rightarrow> Inl (Other ''no free private subnet available; specify one explicitly''))"

definition remove_net :: "(int \<Rightarrow> bool) \<Rightarrow> string \<Rightarrow> registry \<times> ipam \<Rightarrow> (registry \<times> ipam) \<times> unit cres" where
  "remove_net has_pid name w =
     (case w of (R, I) \<Rightarrow>
        if is_builtin name then (w, Inl (Other ''the built-in network can't be removed''))
        else (case load_user name R of
            None \<Rightarrow> (w, Inl (Other (''no such network: '' @ name)))
          | Some cfg \<Rightarrow>
              (let in_use = ipam_active_leases has_pid name I in
               if 0 < in_use
               then (w, Inl (Other (''network '' @ name @ '' still has '' @ to_dec in_use @ '' attached container(s)'')))
               else ((hm_remove name R, ipam_drop_table True name I), Inr ()))))"

definition rename_net :: "net_env \<Rightarrow> string \<Rightarrow> string \<Rightarrow> registry \<times> ipam \<Rightarrow> (registry \<times> ipam) \<times> unit cres" where
  "rename_net E old new w =
     (case w of (R, I) \<Rightarrow>
        if is_builtin old then (w, Inl (Other ''the built-in network can't be renamed''))
        else (case validate_net_name (ne_dbg E) new of
          Inl e \<Rightarrow> (w, Inl e)
        | Inr _ \<Rightarrow>
            (case load_user old R of
               None \<Rightarrow> (w, Inl (Other (''no such network: '' @ old)))
             | Some cfg \<Rightarrow>
                 if hm_get R new \<noteq> None then (w, Inl (Other (''network '' @ new @ '' already exists'')))
                 else (case write_config E (cfg\<lparr>nc_name := new, nc_bridge := bridge_for (ne_sha E) new\<rparr>) R of
                   (R1, Inl e) \<Rightarrow> ((R1, I), Inl e)
                 | (R1, Inr _) \<Rightarrow> ((hm_remove old R1, ipam_rename_table True old new I), Inr ())))))"

definition parse_subnet :: "net_env \<Rightarrow> string \<Rightarrow> string \<Rightarrow> (net4 \<times> ipv4 option) cres" where
  "parse_subnet E subnet gateway =
     (case il_parse (ne_lib E) (trim subnet) of
        None \<Rightarrow> Inl (Other (''invalid subnet CIDR: '' @ ne_dbg E subnet))
      | Some net \<Rightarrow>
          if trim gateway = [] then Inr (net, None)
          else (case parse_ipv4 (trim gateway) of
              Some g \<Rightarrow> Inr (net, Some g)
            | None \<Rightarrow> Inl (Other (''invalid gateway IP: '' @ ne_dbg E gateway))))"

section \<open>The invariant\<close>

definition disjoint_nets :: "net4 \<Rightarrow> net4 \<Rightarrow> bool" where
  "disjoint_nets m n \<longleftrightarrow> (\<forall>a. \<not> (net_contains m a \<and> net_contains n a))"

definition cfg_ok :: "net_cfg \<Rightarrow> bool" where
  "cfg_ok c \<longleftrightarrow> net_base (nc_subnet c) = fst (nc_subnet c) \<and> 8 \<le> prefix_len (nc_subnet c) \<and>
     prefix_len (nc_subnet c) \<le> 30 \<and> net_contains (nc_subnet c) (nc_gateway c)"

definition registry_ok :: "registry \<Rightarrow> bool" where
  "registry_ok R \<longleftrightarrow> hm_ok R \<and>
     (\<forall>n c. hm_get R n = Some (Parsed c) \<longrightarrow> nc_name c = n \<and> n \<notin> set RESERVED \<and> cfg_ok c \<and>
        disjoint_nets (nc_subnet c) (nc_subnet default_dn7)) \<and>
     (\<forall>n m c d. n \<noteq> m \<longrightarrow> hm_get R n = Some (Parsed c) \<longrightarrow> hm_get R m = Some (Parsed d) \<longrightarrow>
        disjoint_nets (nc_subnet c) (nc_subnet d))"

lemma set_user_nets: "hm_ok R \<Longrightarrow> c \<in> set (user_nets R) \<longleftrightarrow> (\<exists>n. hm_get R n = Some (Parsed c))"
proof -
  assume ok: "hm_ok R"
  have "c \<in> set (user_nets R) \<longleftrightarrow> (\<exists>n. (n, Parsed c) \<in> set R)"
    by (force simp: user_nets_def List.map_filter_def split: manifest.splits)
  then show ?thesis using hm_get_SomeI [OF ok] hm_get_SomeD by fast
qed

lemma set_all_nets: "hm_ok R \<Longrightarrow> c \<in> set (all_nets R) \<longleftrightarrow> c = default_dn7 \<or> (\<exists>n. hm_get R n = Some (Parsed c))"
  by (simp add: all_nets_def set_user_nets)

lemma default_ok: "cfg_ok default_dn7"
  by (simp add: cfg_ok_def default_dn7_def ip4_def net_base_def net_contains_def drop_bit_eq_div push_bit_eq_mult)

lemma all_nets_ok: "registry_ok R \<Longrightarrow> c \<in> set (all_nets R) \<Longrightarrow> cfg_ok c"
  using default_ok by (auto simp: registry_ok_def set_all_nets)

lemma disjoint_nets_sym: "disjoint_nets m n \<longleftrightarrow> disjoint_nets n m"
  by (auto simp: disjoint_nets_def)

lemma all_nets_disjoint:
  assumes "registry_ok R" and "c \<in> set (all_nets R)" and "d \<in> set (all_nets R)" and "c \<noteq> d"
  shows "disjoint_nets (nc_subnet c) (nc_subnet d)"
proof -
  have ok: "hm_ok R" using assms(1) by (simp add: registry_ok_def)
  have one: "disjoint_nets (nc_subnet x) (nc_subnet default_dn7)" if "hm_get R n = Some (Parsed x)" for n x
    using assms(1) that by (simp add: registry_ok_def)
  then have one': "disjoint_nets (nc_subnet default_dn7) (nc_subnet x)" if "hm_get R n = Some (Parsed x)" for n x
    using that disjoint_nets_sym by blast
  have two: "disjoint_nets (nc_subnet x) (nc_subnet y)"
    if "hm_get R n = Some (Parsed x)" "hm_get R m = Some (Parsed y)" "x \<noteq> y" for n m x y
  proof -
    have "n \<noteq> m" using that by auto
    with assms(1) that show ?thesis unfolding registry_ok_def by blast
  qed
  from assms(2,3) ok show ?thesis
    using assms(4) one one' two by (auto simp: set_all_nets)
qed

lemma registry_ok_remove: "registry_ok R \<Longrightarrow> registry_ok (hm_remove n R)"
  by (auto simp: registry_ok_def hm_simps hm_ok_remove hm_ok_retain hm_ok_insert split: if_splits)

lemma registry_ok_insert:
  assumes "registry_ok R" and "nc_name c = n" and "n \<notin> set RESERVED" and "cfg_ok c"
    and "\<And>d. d \<in> set (all_nets (hm_remove n R)) \<Longrightarrow> disjoint_nets (nc_subnet c) (nc_subnet d)"
  shows "registry_ok (hm_insert n (Parsed c) R)"
proof -
  have ok: "hm_ok (hm_remove n R)" using assms(1) by (simp add: registry_ok_def hm_ok_remove)
  have dis: "disjoint_nets (nc_subnet c) (nc_subnet d) \<and> disjoint_nets (nc_subnet d) (nc_subnet c)"
    if "hm_get R m = Some (Parsed d)" "m \<noteq> n" for m d
  proof -
    from that have "hm_get (hm_remove n R) m = Some (Parsed d)" by (simp add: hm_simps)
    then have "d \<in> set (all_nets (hm_remove n R))" using ok by (auto simp: set_all_nets)
    with assms(5) show ?thesis using disjoint_nets_sym by blast
  qed
  have "disjoint_nets (nc_subnet c) (nc_subnet default_dn7)" using assms(5) ok by (simp add: set_all_nets)
  with assms(1-4) dis show ?thesis unfolding registry_ok_def by (auto simp: hm_simps hm_ok_remove hm_ok_retain hm_ok_insert split: if_splits)
qed

text \<open>The check of \<open>create\<close> looks at one address of each network, its gateway; networks being nested or
  disjoint, that is enough.\<close>

lemma clash_complete:
  assumes "cfg_ok c" and "net_contains subnet gw" and "net_contains (nc_subnet c) a" and "net_contains subnet a"
  shows "net_contains (nc_subnet c) gw \<or> net_contains subnet (nc_gateway c)"
  using nets_nested [OF assms(3,4)] assms(1,2) by (auto simp: cfg_ok_def)

context ipnet
begin

lemma pick_gateway_in: "pick_gateway L n g = Inr gw \<Longrightarrow> net_contains n gw"
  using hosts_spec [of gw n]
  by (auto simp: pick_gateway_def contains_spec split: option.splits list.splits if_splits)

lemma created_ok:
  assumes "registry_ok R" and "ne_lib E = L" and "create_net E name subnet gateway R = (R', r)"
  shows "registry_ok R'"
proof (cases "R' = R")
  case True
  with assms(1) show ?thesis by simp
next
  case False
  let ?s = "il_trunc L subnet"
  from False assms(2,3) obtain gw where v: "validate_net_name (ne_dbg E) name = Inr ()"
    and p: "8 \<le> prefix_len ?s" "prefix_len ?s \<le> 30" and g: "pick_gateway L ?s gateway = Inr gw"
    and no: "find (clashes L ?s gw) (all_nets R) = None"
    and R': "R' = hm_insert name (Parsed \<lparr>nc_name = name, nc_bridge = bridge_for (ne_sha E) name, nc_subnet = ?s, nc_gateway = gw\<rparr>) R"
    by (auto simp: create_net_def write_config_def Let_def split: sum.splits if_splits option.splits prod.splits)
  let ?c = "\<lparr>nc_name = name, nc_bridge = bridge_for (ne_sha E) name, nc_subnet = ?s, nc_gateway = gw\<rparr>"
  note gw = pick_gateway_in [OF g]
  have ok: "cfg_ok ?c"
    using p gw trunc_spec by (simp add: cfg_ok_def net_base_trunc)
  have dis: "disjoint_nets ?s (nc_subnet d)" if "d \<in> set (all_nets R)" for d
    unfolding disjoint_nets_def
  proof (intro allI notI)
    fix a assume "net_contains ?s a \<and> net_contains (nc_subnet d) a"
    then have "clashes L ?s gw d"
      using clash_complete [OF all_nets_ok [OF assms(1) that] gw] by (auto simp: clashes_def contains_spec)
    with no that show False by (auto simp: find_None_iff)
  qed
  have "hm_ok R" using assms(1) by (simp add: registry_ok_def)
  then have "disjoint_nets ?s (nc_subnet d)" if "d \<in> set (all_nets (hm_remove name R))" for d
    using that dis by (auto simp: set_all_nets hm_simps hm_ok_remove hm_ok_retain hm_ok_insert split: if_splits)
  moreover have "name \<notin> set RESERVED" using v by (auto simp: validate_net_name_def split: if_splits)
  ultimately show ?thesis
    unfolding R' by (intro registry_ok_insert [OF assms(1)]) (simp_all add: ok)
qed

end

lemma removed_ok:
  assumes "registry_ok R" and "remove_net has_pid name (R, I) = ((R', I'), r)"
  shows "registry_ok R'"
proof -
  from assms(2) have "R' = R \<or> R' = hm_remove name R"
    by (auto simp: remove_net_def Let_def split: if_splits option.splits)
  with assms(1) show ?thesis by (auto simp: registry_ok_remove)
qed

lemma renamed_ok:
  assumes "registry_ok R" and "rename_net E old new (R, I) = ((R', I'), r)"
  shows "registry_ok R'"
proof (cases "R' = R")
  case True
  with assms(1) show ?thesis by simp
next
  case False
  with assms(2) obtain c where v: "validate_net_name (ne_dbg E) new = Inr ()" and c: "hm_get R old = Some (Parsed c)"
    and free: "hm_get R new = None"
    and R': "R' = hm_remove old (hm_insert new (Parsed (c\<lparr>nc_name := new, nc_bridge := bridge_for (ne_sha E) new\<rparr>)) R)"
    by (auto simp: rename_net_def write_config_def load_user_def split: if_splits option.splits sum.splits manifest.splits)
  let ?c = "c\<lparr>nc_name := new, nc_bridge := bridge_for (ne_sha E) new\<rparr>" and ?R = "hm_remove old R"
  have ok: "registry_ok ?R" "hm_ok R"
    using registry_ok_remove [OF assms(1)] assms(1) by (auto simp: registry_ok_def [of R])
  then have ok': "hm_ok ?R" by (simp add: hm_ok_remove)
  have "old \<noteq> new" using c free by auto
  then have eq: "R' = hm_insert new (Parsed ?c) ?R"
    unfolding R' by (auto simp: hm_insert_def hm_remove_def intro: filter_cong)
  have c_in: "c \<in> set (all_nets R)" using c ok(2) by (auto simp: set_all_nets)
  have "disjoint_nets (nc_subnet c) (nc_subnet d)" if "d \<in> set (all_nets (hm_remove new ?R))" for d
  proof (rule all_nets_disjoint [OF assms(1) c_in])
    show "d \<in> set (all_nets R)" using that ok ok' by (auto simp: set_all_nets hm_simps hm_ok_remove hm_ok_retain hm_ok_insert split: if_splits)
    have "nc_name c = old" "old \<notin> set RESERVED" using assms(1) c by (auto simp: registry_ok_def)
    moreover have "nc_name d \<noteq> old \<or> d = default_dn7"
      using that ok ok' assms(1) by (auto simp: set_all_nets hm_simps hm_ok_remove hm_ok_retain hm_ok_insert registry_ok_def split: if_splits)
    ultimately show "c \<noteq> d" by (auto simp: RESERVED_def default_dn7_def)
  qed
  moreover have "new \<notin> set RESERVED" using v by (auto simp: validate_net_name_def split: if_splits)
  moreover have "cfg_ok ?c" using all_nets_ok [OF assms(1) c_in] by (simp add: cfg_ok_def)
  ultimately show ?thesis unfolding eq by (intro registry_ok_insert [OF ok(1)]) simp_all
qed

inductive net_step :: "ipnet_lib \<Rightarrow> registry \<times> ipam \<Rightarrow> registry \<times> ipam \<Rightarrow> bool" for L where
  step_create: "ne_lib E = L \<Longrightarrow> create_net E name subnet gateway R = (R', r) \<Longrightarrow> net_step L (R, I) (R', I)"
| step_remove: "remove_net has_pid name w = (w', r) \<Longrightarrow> net_step L w w'"
| step_rename: "ne_lib E = L \<Longrightarrow> rename_net E old new w = (w', r) \<Longrightarrow> net_step L w w'"

lemma net_step_ok:
  assumes "net_step L w w'" and "ipnet L" and "registry_ok (fst w)"
  shows "registry_ok (fst w')"
  using assms
proof cases
  case step_create
  with assms(2,3) show ?thesis using ipnet.created_ok by auto
next
  case step_remove
  with assms(3) show ?thesis using removed_ok by (cases w; cases w') auto
next
  case step_rename
  with assms(3) show ?thesis using renamed_ok by (cases w; cases w') auto
qed

lemma registry_empty: "registry_ok []"
  by (simp add: registry_ok_def hm_simps)

lemma reachable_ok:
  assumes "ipnet L" and "(net_step L)\<^sup>*\<^sup>* ([], I\<^sub>0) w"
  shows "registry_ok (fst w)"
  using assms(2) by (induction rule: rtranclp_induct) (simp_all add: registry_empty net_step_ok [OF _ assms(1)])


definition demo_net_env :: net_env where
  "demo_net_env = \<lparr>ne_lib = demo_ipnet, ne_sha = (\<lambda>_. replicate 32 0), ne_dbg = id, ne_ok = (\<lambda>_. True),
     ne_write = True, ne_lease_write = True\<rparr>"


section \<open>The subnet of a network created without one\<close>

lemma base_of_aligned: "net_base (word_of_nat (x * 256), 24) = word_of_nat (x * 256)"
proof -
  define w :: ipv4 where "w = word_of_nat (x * 256)"
  have "unat w = (x * 256) mod 2 ^ 32" unfolding w_def by (simp only: unsigned_of_nat take_bit_eq_mod) simp
  moreover have "256 dvd (x * 256) mod 2 ^ 32" by (simp add: dvd_mod)
  ultimately have "unat w div 256 * 256 = unat w" by simp
  then have "net_base (w, 24) = w" by (simp add: word_unat_eq_iff unat_base)
  then show ?thesis by (simp only: w_def)
qed

lemma candidate_shape: "n \<in> set subnet_candidates \<Longrightarrow> prefix_len n = 24 \<and> net_base n = fst n"
proof -
  have "net_base (ip4 a b c 0, 24) = ip4 a b c 0" for a b c
    using base_of_aligned [of "(a * 256 + b) * 256 + c"] by (simp add: ip4_def)
  then show "n \<in> set subnet_candidates \<Longrightarrow> ?thesis" by (auto simp: subnet_candidates_def)
qed

context ipnet
begin

lemma hosts_nonempty:
  assumes "prefix_len n = 24"
  shows "il_hosts L n \<noteq> []"
proof -
  define a :: ipv4 where "a = word_of_nat (unat (net_base n) + 1)"
  have "unat (net_base n) + 1 < 2 ^ 32" using base_bound [of n] assms by simp
  then have "unat a = unat (net_base n) + 1"
    unfolding a_def by (simp only: unsigned_of_nat) (simp add: take_bit_nat_eq_self)
  then have "a \<in> set (il_hosts L n)"
    using assms by (simp add: hosts_spec net_contains_iff word_unat_eq_iff unat_last)
  then show ?thesis by auto
qed

lemma free_subnet_accepted:
  assumes "registry_ok R" and "ne_lib E = L" and "allocate_free_subnet L R = Inr n"
    and "validate_net_name (ne_dbg E) name = Inr ()" and "hm_get R name = None" and "ne_write E" and "\<forall>c. ne_ok E c"
  shows "\<exists>R' cfg. create_net E name n None R = (R', Inr cfg) \<and> nc_subnet cfg = n"
proof -
  from assms(3) have n: "n \<in> set subnet_candidates"
    and no: "\<And>c. c \<in> set (all_nets R) \<Longrightarrow> \<not> net_contains (nc_subnet c) (net_base n) \<and> \<not> net_contains n (net_base (nc_subnet c))"
    by (auto simp: allocate_free_subnet_def Let_def find_Some_iff list_ex_iff contains_spec network_spec trunc_spec
        net_contains_trunc net_base_trunc split: option.splits)
  from candidate_shape [OF n] have n': "prefix_len n = 24" "il_trunc L n = n" by (simp_all add: trunc_spec prod_eq_iff)
  obtain gw hs where h: "il_hosts L n = gw # hs" using hosts_nonempty [OF n'(1)] by (cases "il_hosts L n") auto
  then have gw: "net_contains n gw" using hosts_spec [of gw n] by simp
  have "\<not> clashes L n gw c" if "c \<in> set (all_nets R)" for c
  proof
    assume "clashes L n gw c"
    moreover have "cfg_ok c" by (rule all_nets_ok [OF assms(1) that])
    ultimately have "\<exists>a. net_contains (nc_subnet c) a \<and> net_contains n a"
      using gw net_contains_base [of n] net_contains_trunc [of "nc_subnet c" "net_base n"]
      by (auto simp: clashes_def contains_spec trunc_spec cfg_ok_def)
    with no [OF that] nets_nested [of "nc_subnet c" _ n] net_contains_base show False by blast
  qed
  then have "find (clashes L n gw) (all_nets R) = None" by (auto simp: find_None_iff)
  with assms n' h show ?thesis
    by (simp add: create_net_def pick_gateway_def write_config_def call_backend_def Let_def)
qed

end

text \<open>The subnet the runtime chooses for a network that names none passes every check of the creation:
  with a valid free name the network is made, with that subnet.
\<close>

theorem auto_subnet_accepted:
  assumes "ipnet (ne_lib E)" and "(net_step (ne_lib E))\<^sup>*\<^sup>* ([], I\<^sub>0) (R, I)" and "allocate_free_subnet (ne_lib E) R = Inr n"
    and "validate_net_name (ne_dbg E) name = Inr ()" and "hm_get R name = None" and "ne_write E" and "\<forall>c. ne_ok E c"
  shows "\<exists>R' cfg. create_net E name n None R = (R', Inr cfg) \<and> nc_subnet cfg = n"
proof -
  from assms(2) have "registry_ok (fst (R, I))"
    by (rule reachable_ok [OF assms(1)])
  then show ?thesis using ipnet.free_subnet_accepted [OF assms(1)] assms(3-) by simp
qed


theorem auto_subnet_accepted_witness:
  "\<exists>n R' cfg. allocate_free_subnet demo_ipnet [] = Inr n \<and>
     create_net demo_net_env ''web'' n None [] = (R', Inr cfg) \<and> nc_subnet cfg = n"
proof -
  have u: "[18..<32] = 18 # [19..<32]" "[0..<256] = 0 # 1 # [2..<256]" by (simp_all add: upt_rec)
  have "net_contains (nc_subnet default_dn7) (net_base (ip4 172 18 0 0, 24))"
    "\<not> net_contains (nc_subnet default_dn7) (net_base (ip4 172 18 1 0, 24))"
    "\<not> net_contains (ip4 172 18 1 0, 24) (net_base (nc_subnet default_dn7))"
    by (simp_all add: net_contains_def default_dn7_def ip4_def drop_bit_eq_div net_base_def push_bit_eq_mult)
  then have n: "allocate_free_subnet demo_ipnet [] = Inr (ip4 172 18 1 0, 24)"
    by (simp add: allocate_free_subnet_def subnet_candidates_def u all_nets_def user_nets_def List.map_filter_def
        demo_ipnet_def net_contains_trunc net_base_trunc)
  have e: "ne_lib demo_net_env = demo_ipnet" "ne_dbg demo_net_env = id" "ne_write demo_net_env" "\<forall>c. ne_ok demo_net_env c"
    by (simp_all add: demo_net_env_def)
  have v: "validate_net_name id ''web'' = Inr ()" by code_simp
  have "\<exists>R' cfg. create_net demo_net_env ''web'' (ip4 172 18 1 0, 24) None [] = (R', Inr cfg) \<and> nc_subnet cfg = (ip4 172 18 1 0, 24)"
    by (rule auto_subnet_accepted [where I = Map.empty and ?I\<^sub>0 = Map.empty])
      (simp_all add: e n v demo.ipnet_axioms hm_simps)
  with n show ?thesis by blast
qed

end
