(* ===== verification/Net_Manager.thy ===== *)
theory Net_Manager
  imports Firewall Net_Registry
begin

text \<open>
  Wiring and unwiring the network of one container (\<open>crates/dn7-container/src/net/mod.rs\<close>). The state is
  the lease tables and the kernel's rules; links are the calls of \<open>backend.rs\<close>, of which only success or
  failure matters here. The annotations of the bundle are a map.
\<close>

section \<open>State and errors\<close>

record 'k net_world =
  nw_ipam :: ipam
  nw_nft :: 'k

text \<open>The question mark operator in code that changes state.\<close>

definition st_bind :: "'s \<times> 'a cres \<Rightarrow> ('a \<Rightarrow> 's \<Rightarrow> 's \<times> 'b cres) \<Rightarrow> 's \<times> 'b cres" where
  "st_bind r f = (case r of (s, Inl e) \<Rightarrow> (s, Inl e) | (s, Inr x) \<Rightarrow> f x s)"

definition st_lift :: "'a cres \<Rightarrow> 's \<Rightarrow> 's \<times> 'a cres" where
  "st_lift r s = (s, r)"

definition on_ipam :: "(ipam \<Rightarrow> ipam \<times> 'a cres) \<Rightarrow> 'k net_world \<Rightarrow> 'k net_world \<times> 'a cres" where
  "on_ipam f w = (case f (nw_ipam w) of (I, r) \<Rightarrow> (w\<lparr>nw_ipam := I\<rparr>, r))"

definition on_nft :: "('k \<Rightarrow> 'k \<times> 'a cres) \<Rightarrow> 'k net_world \<Rightarrow> 'k net_world \<times> 'a cres" where
  "on_nft f w = (case f (nw_nft w) of (k, r) \<Rightarrow> (w\<lparr>nw_nft := k\<rparr>, r))"

lemma st_bind_simps [simp]: "st_bind (s, Inl e) f = (s, Inl e)" "st_bind (s, Inr x) f = f x s"
  by (simp_all add: st_bind_def)

lemma st_bind_Inr: "st_bind r f = (s', Inr y) \<longleftrightarrow> (\<exists>s x. r = (s, Inr x) \<and> f x s = (s', Inr y))"
  by (cases r; cases "snd r") (auto simp: st_bind_def)

lemma st_bind_cases:
  assumes "st_bind r f = z"
  obtains s e where "r = (s, Inl e)" "z = (s, Inl e)" | s x where "r = (s, Inr x)" "f x s = z"
  using assms by (cases r; cases "snd r") (auto simp: st_bind_def)

section \<open>Operations\<close>

datatype net_mode = Bridge_mode | None_mode | Host_mode

definition mode_of :: "(string \<rightharpoonup> string) \<Rightarrow> net_mode option" where
  "mode_of ann =
     (case ann ''dn7.net'' of
        None \<Rightarrow> None
      | Some m \<Rightarrow> if m = ''none'' then Some None_mode else if m = ''host'' then Some Host_mode else Some Bridge_mode)"

definition plain_state :: "string \<Rightarrow> net_state" where
  "plain_state m = \<lparr>ns_mode = m, ns_network = [], ns_bridge = [], ns_veth_host = [], ns_ip = None, ns_mac = None,
     ns_ports = [], ns_extra = []\<rparr>"

fun publish_all :: "'k nft_lib \<Rightarrow> string \<Rightarrow> ipv4 \<Rightarrow> port_map list \<Rightarrow> 'k net_world \<Rightarrow> 'k net_world \<times> unit cres" where
  "publish_all K i ip [] w = (w, Inr ())"
| "publish_all K i ip (p # ps) w = st_bind (on_nft (publish_port K i p ip) w) (\<lambda>_. publish_all K i ip ps)"

definition apply_bridge ::
  "net_env \<Rightarrow> 'k nft_lib \<Rightarrow> string \<Rightarrow> int \<Rightarrow> net_cfg \<Rightarrow> ipv4 option \<Rightarrow> string option \<Rightarrow> port_map list \<Rightarrow>
   'k net_world \<Rightarrow> 'k net_world \<times> net_state cres" where
  "apply_bridge E K i pid cfg static_ip static_mac ports w =
     st_bind (on_ipam (case static_ip of
           Some ip \<Rightarrow> ipam_allocate_static (ne_lib E) (ne_lease_write E) cfg i pid ip
         | None \<Rightarrow> ipam_allocate (ne_lib E) (ne_lease_write E) cfg i pid) w)
     (\<lambda>l w. let mac = (case static_mac of Some m \<Rightarrow> m | None \<Rightarrow> le_mac l);
              host = veth_host_name (ne_sha E) i; peer = veth_peer_name (ne_sha E) i in
       st_bind (st_lift (call_backend E (EnsureBridge (nc_bridge cfg))) w)
       (\<lambda>_ w. st_bind (st_lift (call_backend E (MakeVeth host peer)) w)
       (\<lambda>_ w. st_bind (st_lift (call_backend E (AttachToBridge host (nc_bridge cfg))) w)
       (\<lambda>_ w. st_bind (st_lift (call_backend E (MovePeer peer pid)) w)
       (\<lambda>_ w. st_bind (st_lift (call_backend E (ConfigInside pid peer (le_ip l) (nc_gateway cfg))) w)
       (\<lambda>_ w. st_bind
           (if nl_have K (nw_nft w) then
              st_bind (on_nft (ensure_base (ne_lib E) K cfg) w)
                (\<lambda>_ w. st_bind (publish_all K i (le_ip l) ports w) (\<lambda>_ w. (w, Inr ports)))
            else if ports = [] then (w, Inr [])
            else (w, Inl (Other ''publishing ports needs `nft` (nftables)'')))
       (\<lambda>published w. (w, Inr \<lparr>ns_mode = ''bridge'', ns_network = nc_name cfg, ns_bridge = nc_bridge cfg,
           ns_veth_host = host, ns_ip = Some (le_ip l), ns_mac = Some mac, ns_ports = published, ns_extra = []\<rparr>))))))))"

definition apply_mode ::
  "net_env \<Rightarrow> 'k nft_lib \<Rightarrow> string \<Rightarrow> int \<Rightarrow> net_mode \<Rightarrow> net_cfg \<Rightarrow> ipv4 option \<Rightarrow> string option \<Rightarrow> port_map list \<Rightarrow>
   'k net_world \<Rightarrow> 'k net_world \<times> net_state cres" where
  "apply_mode E K i pid mode cfg static_ip static_mac ports w =
     (case mode of
        Host_mode \<Rightarrow> (w, Inr (plain_state ''host''))
      | None_mode \<Rightarrow> st_bind (st_lift (call_backend E (LoUp pid)) w) (\<lambda>_ w. (w, Inr (plain_state ''none'')))
      | Bridge_mode \<Rightarrow> apply_bridge E K i pid cfg static_ip static_mac ports w)"

text \<open>Results the code drops: the state stays.\<close>

definition ignore :: "'s \<times> 'a cres \<Rightarrow> 's" where "ignore = fst"

definition teardown_by_id :: "net_env \<Rightarrow> 'k nft_lib \<Rightarrow> string \<Rightarrow> 'k net_world \<Rightarrow> 'k net_world" where
  "teardown_by_id E K i w =
     (let w = ignore (on_nft (teardown_container K i) w)
      in ignore (on_ipam (ipam_free (ne_lease_write E) DEFAULT_NETWORK i) w))"

definition static_ip_of :: "net_env \<Rightarrow> string option \<Rightarrow> ipv4 option cres" where
  "static_ip_of E a =
     (case a of
        Some s \<Rightarrow> if trim s \<noteq> [] then
            (case parse_ipv4 (trim s) of Some ip \<Rightarrow> Inr (Some ip) | None \<Rightarrow> Inl (Other (''invalid dn7.ip: '' @ ne_dbg E s)))
          else Inr None
      | None \<Rightarrow> Inr None)"

definition static_mac_of :: "string option \<Rightarrow> string option" where
  "static_mac_of a = (case map_option trim a of Some m \<Rightarrow> if is_valid_mac m then Some m else None | None \<Rightarrow> None)"

definition apply_net ::
  "net_env \<Rightarrow> 'k nft_lib \<Rightarrow> registry \<Rightarrow> string \<Rightarrow> int \<Rightarrow> (string \<rightharpoonup> string) \<Rightarrow> 'k net_world \<Rightarrow> 'k net_world \<times> net_state option cres" where
  "apply_net E K R i pid ann w =
     (case mode_of ann of
        None \<Rightarrow> (w, Inr None)
      | Some mode \<Rightarrow>
          st_bind (st_lift (validate_id (ne_dbg E) i) w)
          (\<lambda>_ w. st_bind (st_lift (case ann ''dn7.ports'' of Some s \<Rightarrow> parse_ports (ne_dbg E) s | None \<Rightarrow> Inr []) w)
          (\<lambda>ports w. st_bind (st_lift (resolve_net (case ann ''dn7.net'' of Some n \<Rightarrow> n | None \<Rightarrow> []) R) w)
          (\<lambda>cfg w. st_bind (st_lift (static_ip_of E (ann ''dn7.ip'')) w)
          (\<lambda>static_ip w.
             (case apply_mode E K i pid mode cfg static_ip (static_mac_of (ann ''dn7.mac'')) ports w of
                (w', Inl e) \<Rightarrow> (teardown_by_id E K i w', Inl e)
              | (w', Inr st) \<Rightarrow> (w', Inr (Some st))))))))"

fun free_all :: "net_env \<Rightarrow> string \<Rightarrow> attachment list \<Rightarrow> 'k net_world \<Rightarrow> 'k net_world" where
  "free_all E i [] w = w"
| "free_all E i (a # as) w = free_all E i as (ignore (on_ipam (ipam_free (ne_lease_write E) (at_network a) i) w))"

definition teardown :: "net_env \<Rightarrow> 'k nft_lib \<Rightarrow> string \<Rightarrow> net_state \<Rightarrow> 'k net_world \<Rightarrow> 'k net_world" where
  "teardown E K i st w =
     (if ns_mode st = ''bridge'' then
        let w = ignore (on_nft (teardown_container K i) w);
            net = (if ns_network st = [] then DEFAULT_NETWORK else ns_network st);
            w = ignore (on_ipam (ipam_free (ne_lease_write E) net i) w)
        in free_all E i (ns_extra st) w
      else w)"

fun teardown_all :: "'k nft_lib \<Rightarrow> lease list \<Rightarrow> 'k net_world \<Rightarrow> 'k net_world" where
  "teardown_all K [] w = w"
| "teardown_all K (l # ls) w = teardown_all K ls (ignore (on_nft (teardown_container K (le_cid l)) w))"

definition net_gc :: "net_env \<Rightarrow> 'k nft_lib \<Rightarrow> (int \<Rightarrow> bool) \<Rightarrow> 'k net_world \<Rightarrow> 'k net_world \<times> nat cres" where
  "net_gc E K pid_alive w =
     st_bind (on_ipam (ipam_reap (ne_lease_write E) pid_alive DEFAULT_NETWORK) w)
       (\<lambda>dead w. (teardown_all K dead w, Inr (length dead)))"

section \<open>Leases\<close>

text \<open>A change made for one container: leases of the others stay, and tables stay free of duplicates.\<close>

definition own_change :: "string \<Rightarrow> ipam \<Rightarrow> ipam \<Rightarrow> bool" where
  "own_change i I I' \<longleftrightarrow> (\<forall>n. (leases_ok (ipam_leases n I) \<longrightarrow> leases_ok (ipam_leases n I')) \<and>
     (\<forall>m. le_cid m \<noteq> i \<longrightarrow> (m \<in> set (ipam_leases n I') \<longleftrightarrow> m \<in> set (ipam_leases n I))))"

definition has_lease :: "string \<Rightarrow> string \<Rightarrow> ipv4 \<Rightarrow> ipam \<Rightarrow> bool" where
  "has_lease n i ip I \<longleftrightarrow> (\<exists>l \<in> set (ipam_leases n I). le_cid l = i \<and> le_ip l = ip)"

lemma own_change_refl: "(\<And>n. ipam_leases n I' = ipam_leases n I) \<Longrightarrow> own_change i I I'"
  by (simp add: own_change_def)

lemma own_change_trans: "own_change i I J \<Longrightarrow> own_change i J K \<Longrightarrow> own_change i I K"
  by (simp add: own_change_def)

lemma own_change_one:
  assumes "\<forall>n. n \<noteq> net \<longrightarrow> ipam_leases n I' = ipam_leases n I"
    and "leases_ok (ipam_leases net I) \<Longrightarrow> leases_ok (ipam_leases net I')"
    and "\<And>m. le_cid m \<noteq> i \<Longrightarrow> m \<in> set (ipam_leases net I') \<longleftrightarrow> m \<in> set (ipam_leases net I)"
  shows "own_change i I I'"
  unfolding own_change_def
proof
  fix n
  show "(leases_ok (ipam_leases n I) \<longrightarrow> leases_ok (ipam_leases n I')) \<and>
     (\<forall>m. le_cid m \<noteq> i \<longrightarrow> (m \<in> set (ipam_leases n I') \<longleftrightarrow> m \<in> set (ipam_leases n I)))"
    using assms by (cases "n = net") auto
qed

lemma own_change_lease: "own_change i I I' \<Longrightarrow> j \<noteq> i \<Longrightarrow> has_lease n j ip I' \<longleftrightarrow> has_lease n j ip I"
  by (auto simp: own_change_def has_lease_def)

lemma one_owner:
  assumes "leases_ok (ipam_leases n I)" and "has_lease n i ip I" and "has_lease n j ip I"
  shows "i = j"
  using assms by (auto simp: has_lease_def dest: leases_ok_unique_ip)

lemma allocate_own:
  assumes "ipam_allocate L ok cfg i pid I = (I', r)"
  shows "own_change i I I' \<and> (\<forall>l. r = Inr l \<longrightarrow> has_lease (nc_name cfg) i (le_ip l) I')"
  using assms
proof (cases rule: allocate_cases)
  case (kept l)
  then show ?thesis by (auto simp: own_change_refl has_lease_def)
next
  case refused
  then show ?thesis by (auto simp: own_change_refl)
next
  case (added ip)
  have "own_change i I I'"
    by (rule own_change_one [of "nc_name cfg"]) (use added in \<open>auto simp: leases_ok_snoc\<close>)
  then show ?thesis by (simp add: added has_lease_def)
qed

lemma static_own:
  assumes "ipam_allocate_static L ok cfg i pid want I = (I', r)"
  shows "own_change i I I' \<and> (\<forall>l. r = Inr l \<longrightarrow> le_ip l = want \<and> has_lease (nc_name cfg) i want I') \<and>
    (\<not> is_Ok r \<longrightarrow> (\<forall>n. ipam_leases n I' = ipam_leases n I))"
  using assms
proof (cases rule: static_cases)
  case (kept l)
  then show ?thesis by (auto simp: own_change_refl has_lease_def)
next
  case refused
  then show ?thesis by (auto simp: own_change_refl)
next
  case moved
  have "own_change i I I'"
    by (rule own_change_one [of "nc_name cfg"])
      (use moved in \<open>auto simp: leases_ok_filter intro!: leases_ok_snoc\<close>)
  then show ?thesis by (simp add: moved has_lease_def)
qed

lemma free_own: "ipam_free ok net i I = (I', r) \<Longrightarrow> own_change i I I'"
  using free_leases [of ok net i I I' r] by (intro own_change_one [of net]) (auto simp: leases_ok_filter)

section \<open>What wiring does\<close>

lemma on_ipam_cases: "on_ipam f w = (w', r) \<longleftrightarrow> f (nw_ipam w) = (nw_ipam w', r) \<and> nw_nft w' = nw_nft w"
  by (cases "f (nw_ipam w)") (auto simp: on_ipam_def intro: net_world.equality)

lemma on_nft_cases: "on_nft f w = (w', r) \<longleftrightarrow> f (nw_nft w) = (nw_nft w', r) \<and> nw_ipam w' = nw_ipam w"
  by (cases "f (nw_nft w)") (auto simp: on_nft_def intro: net_world.equality)

lemma publish_all_ipam: "publish_all K i ip ps w = (w', r) \<Longrightarrow> nw_ipam w' = nw_ipam w"
proof (induction K i ip ps w rule: publish_all.induct)
  case (2 K i ip p ps w)
  from 2(2) have "st_bind (on_nft (publish_port K i p ip) w) (\<lambda>_. publish_all K i ip ps) = (w', r)" by simp
  then show ?case
    by (cases rule: st_bind_cases) (use 2(1) in \<open>auto simp: on_nft_cases\<close>)
qed simp

lemma published_trans: "published K i k1 k2 \<Longrightarrow> published K i k k1 \<Longrightarrow> published K i k k2"
  by (induction rule: published.induct) (auto intro: published.intros)

lemma publish_all_published: "publish_all K i ip ps w = (w', Inr u) \<Longrightarrow> published K i (nw_nft w) (nw_nft w')"
proof (induction K i ip ps w rule: publish_all.induct)
  case (1 K i ip w)
  then show ?case by (auto intro: published.intros)
next
  case (2 K i ip p ps w)
  from 2(2) obtain w1 where w1: "on_nft (publish_port K i p ip) w = (w1, Inr ())" "publish_all K i ip ps w1 = (w', Inr u)"
    by (auto simp: st_bind_Inr)
  from w1(1) have "published K i (nw_nft w) (nw_nft w1)"
    by (auto simp: on_nft_cases intro: published_one [OF published_none])
  with 2(1) [OF w1(2)] show ?case by (rule published_trans)
qed

text \<open>The lease comes first; what follows does not touch the tables.\<close>

definition allot :: "net_env \<Rightarrow> string \<Rightarrow> int \<Rightarrow> net_cfg \<Rightarrow> ipv4 option \<Rightarrow> ipam \<Rightarrow> ipam \<times> lease cres" where
  "allot E i pid cfg static_ip =
     (case static_ip of
        Some ip \<Rightarrow> ipam_allocate_static (ne_lib E) (ne_lease_write E) cfg i pid ip
      | None \<Rightarrow> ipam_allocate (ne_lib E) (ne_lease_write E) cfg i pid)"

lemma st_bind_ipam:
  assumes "st_bind r f = (w', x)" and "\<And>v s s' y. f v s = (s', y) \<Longrightarrow> nw_ipam s' = nw_ipam s"
  shows "nw_ipam w' = nw_ipam (fst r)"
  using assms by (cases r; cases "snd r") auto

lemma wire_ipam:
  assumes "apply_bridge E K i pid cfg sip smac ports w = (w', r)" and "allot E i pid cfg sip (nw_ipam w) = (I, x)"
  shows "nw_ipam w' = I"
proof -
  let ?r = "on_ipam (allot E i pid cfg sip) w"
  have "fst ?r = w\<lparr>nw_ipam := I\<rparr>" using assms(2) by (simp add: on_ipam_def)
  then have i: "nw_ipam (fst ?r) = I" by simp
  have base: "nw_ipam (fst (on_nft f w)) = nw_ipam w" for f :: "'a \<Rightarrow> 'a \<times> 'b cres" and w
    by (cases "f (nw_nft w)") (simp add: on_nft_def)
  show ?thesis
    using assms(1) unfolding apply_bridge_def allot_def [symmetric] Let_def i [symmetric]
    by (elim st_bind_ipam)
      (auto simp: st_lift_def st_bind_def base on_nft_cases dest!: publish_all_ipam split: sum.splits if_splits prod.splits)
qed

text \<open>What success leaves: the receipt, and rules only of this container.\<close>

lemma wire_result:
  assumes "apply_bridge E K i pid cfg sip smac ports w = (w', Inr st)"
  obtains I l where "allot E i pid cfg sip (nw_ipam w) = (I, Inr l)" "nw_ipam w' = I"
    "ns_mode st = ''bridge''" "ns_network st = nc_name cfg" "ns_ip st = Some (le_ip l)" "ns_extra st = []"
    "nl_present K (nw_nft w) \<Longrightarrow> published K i (nw_nft w) (nw_nft w')"
proof -
  from assms obtain w1 l where a: "on_ipam (allot E i pid cfg sip) w = (w1, Inr l)"
    unfolding apply_bridge_def allot_def [symmetric] by (elim st_bind_cases) auto
  then have al: "allot E i pid cfg sip (nw_ipam w) = (nw_ipam w1, Inr l)" and n: "nw_nft w1 = nw_nft w"
    by (simp_all add: on_ipam_cases)
  from assms a obtain pubs where
    p: "(if nl_have K (nw_nft w1) then
              st_bind (on_nft (ensure_base (ne_lib E) K cfg) w1)
                (\<lambda>_ w. st_bind (publish_all K i (le_ip l) ports w) (\<lambda>_ w. (w, Inr ports)))
            else if ports = [] then (w1, Inr [])
            else (w1, Inl (Other ''publishing ports needs `nft` (nftables)''))) = (w', Inr pubs)"
    and st: "ns_mode st = ''bridge''" "ns_network st = nc_name cfg" "ns_ip st = Some (le_ip l)" "ns_extra st = []"
    unfolding apply_bridge_def allot_def [symmetric] Let_def
    by (auto simp: st_bind_Inr st_lift_def)
  have "published K i (nw_nft w) (nw_nft w')" if "nl_present K (nw_nft w)"
  proof (cases "nl_have K (nw_nft w1)")
    case True
    with p obtain w2 u v where "on_nft (ensure_base (ne_lib E) K cfg) w1 = (w2, Inr u)" "publish_all K i (le_ip l) ports w2 = (w', Inr v)"
      by (auto simp: st_bind_Inr)
    moreover from this(1) that n have "nw_nft w2 = nw_nft w"
      by (auto simp: on_nft_cases ensure_base_def split: if_splits)
    ultimately show ?thesis using publish_all_published by metis
  next
    case False
    with p n show ?thesis by (auto split: if_splits intro: published.intros)
  qed
  with al st wire_ipam [OF assms al] show ?thesis by (intro that) auto
qed

lemma allot_own: "allot E i pid cfg sip I = (I', r) \<Longrightarrow>
    own_change i I I' \<and> (\<forall>l. r = Inr l \<longrightarrow> has_lease (nc_name cfg) i (le_ip l) I')"
  using allocate_own static_own unfolding allot_def by (cases sip) fastforce+

definition same_leases :: "ipam \<Rightarrow> ipam \<Rightarrow> bool" where
  "same_leases I J \<longleftrightarrow> (\<forall>n. ipam_leases n I = ipam_leases n J)"

lemma ignore_free_own: "own_change i (nw_ipam w) (nw_ipam (ignore (on_ipam (ipam_free ok net i) w)))"
  using free_own [of ok net i "nw_ipam w"] by (cases "ipam_free ok net i (nw_ipam w)") (simp add: ignore_def on_ipam_def)

lemma ignore_nft_ipam [simp]: "nw_ipam (ignore (on_nft f w)) = nw_ipam w"
  by (cases "f (nw_nft w)") (simp add: ignore_def on_nft_def)

lemma ignore_ipam_nft [simp]: "nw_nft (ignore (on_ipam f w)) = nw_nft w"
  by (cases "f (nw_ipam w)") (simp add: ignore_def on_ipam_def)

lemma teardown_by_id_own: "own_change i (nw_ipam w) (nw_ipam (teardown_by_id E K i w))"
  using ignore_free_own [of i "ignore (on_nft (teardown_container K i) w)"] by (simp add: teardown_by_id_def Let_def)

lemma free_all_own: "own_change i (nw_ipam w) (nw_ipam (free_all E i as w))"
  by (induction E i as w rule: free_all.induct) (auto simp: own_change_refl intro: own_change_trans ignore_free_own)

lemma teardown_own: "own_change i (nw_ipam w) (nw_ipam (teardown E K i st w))"
proof -
  let ?w = "ignore (on_nft (teardown_container K i) w)"
  show ?thesis
    using ignore_free_own [of i ?w] free_all_own
    by (auto simp: teardown_def Let_def own_change_refl intro!: own_change_trans [OF ignore_free_own [of i ?w, simplified]])
qed

lemma apply_cases:
  assumes "apply_net E K R i pid ann w = (w', r)"
  obtains (unmanaged) "mode_of ann = None" "w' = w" "r = Inr None"
  | (refused) e where "w' = w" "r = Inl e"
  | (failed) mode ports cfg sip w1 e where "mode_of ann = Some mode"
      "resolve_net (case ann ''dn7.net'' of Some n \<Rightarrow> n | None \<Rightarrow> []) R = Inr cfg"
      "apply_mode E K i pid mode cfg sip (static_mac_of (ann ''dn7.mac'')) ports w = (w1, Inl e)"
      "w' = teardown_by_id E K i w1" "r = Inl e"
  | (wired) mode ports cfg sip st where "mode_of ann = Some mode" "validate_id (ne_dbg E) i = Inr ()"
      "resolve_net (case ann ''dn7.net'' of Some n \<Rightarrow> n | None \<Rightarrow> []) R = Inr cfg"
      "apply_mode E K i pid mode cfg sip (static_mac_of (ann ''dn7.mac'')) ports w = (w', Inr st)" "r = Inr (Some st)"
proof (cases "mode_of ann")
  case None
  with assms unmanaged show ?thesis by (simp add: apply_net_def)
next
  case (Some mode)
  define ports where "ports = (case ann ''dn7.ports'' of Some s \<Rightarrow> parse_ports (ne_dbg E) s | None \<Rightarrow> Inr [])"
  define cfg where "cfg = resolve_net (case ann ''dn7.net'' of Some n \<Rightarrow> n | None \<Rightarrow> []) R"
  define sip where "sip = static_ip_of E (ann ''dn7.ip'')"
  note d = ports_def [symmetric] cfg_def [symmetric] sip_def [symmetric]
  show ?thesis
  proof (cases "\<exists>p c s. validate_id (ne_dbg E) i = Inr () \<and> ports = Inr p \<and> cfg = Inr c \<and> sip = Inr s")
    case False
    then obtain e where "apply_net E K R i pid ann w = (w, Inl e)"
      unfolding apply_net_def Some option.case d st_lift_def
      by (cases "validate_id (ne_dbg E) i"; cases ports; cases cfg; cases sip) auto
    with assms refused [of e] show ?thesis by auto
  next
    case True
    then obtain p c s where v: "validate_id (ne_dbg E) i = Inr ()" "ports = Inr p" "cfg = Inr c" "sip = Inr s" by blast
    obtain w1 x where m: "apply_mode E K i pid mode c s (static_mac_of (ann ''dn7.mac'')) p w = (w1, x)" by fastforce
    have "(case x of Inl e \<Rightarrow> (teardown_by_id E K i w1, Inl e) | Inr st \<Rightarrow> (w1, Inr (Some st))) = (w', r)"
      using assms unfolding apply_net_def Some option.case d st_lift_def v st_bind_simps m by (cases x) simp_all
    with Some v m failed [of mode c s p w1] wired [of mode c s p] show ?thesis
      unfolding cfg_def by (cases x) auto
  qed
qed

lemma mode_own:
  assumes "apply_mode E K i pid mode cfg sip smac ports w = (w', r)"
  shows "own_change i (nw_ipam w) (nw_ipam w') \<and> (\<forall>st. r = Inr st \<longrightarrow> ns_extra st = [] \<and>
    (ns_mode st = ''bridge'' \<longrightarrow> (\<exists>ip. ns_ip st = Some ip \<and> has_lease (ns_network st) i ip (nw_ipam w'))))"
proof (cases mode)
  case Bridge_mode
  with assms have b: "apply_bridge E K i pid cfg sip smac ports w = (w', r)" by (simp add: apply_mode_def)
  obtain I y where a: "allot E i pid cfg sip (nw_ipam w) = (I, y)" by fastforce
  from wire_ipam [OF b a] allot_own [OF a] have "own_change i (nw_ipam w) (nw_ipam w')" by simp
  moreover have "ns_extra st = [] \<and> (\<exists>ip. ns_ip st = Some ip \<and> has_lease (ns_network st) i ip (nw_ipam w'))"
    if "r = Inr st" for st
    using b unfolding that
  proof (rule wire_result)
    fix J l
    assume "allot E i pid cfg sip (nw_ipam w) = (J, Inr l)" "nw_ipam w' = J" "ns_network st = nc_name cfg"
      "ns_ip st = Some (le_ip l)" "ns_extra st = []"
    then show ?thesis using allot_own [of E i pid cfg sip "nw_ipam w" J "Inr l"] by auto
  qed
  ultimately show ?thesis by blast
qed (use assms in \<open>auto simp: apply_mode_def plain_state_def own_change_refl st_lift_def st_bind_def split: sum.splits\<close>)

lemma apply_own:
  assumes "apply_net E K R i pid ann w = (w', r)"
  shows "own_change i (nw_ipam w) (nw_ipam w') \<and>
    (\<forall>st. r = Inr (Some st) \<longrightarrow> ns_extra st = [] \<and>
       (ns_mode st = ''bridge'' \<longrightarrow> (\<exists>ip. ns_ip st = Some ip \<and> has_lease (ns_network st) i ip (nw_ipam w'))))"
  using assms
proof (cases rule: apply_cases)
  case (failed mode ports cfg sip w1 e)
  with mode_own [OF failed(3)] teardown_by_id_own [of i w1 E K] show ?thesis by (auto intro: own_change_trans)
next
  case (wired mode ports cfg sip st)
  with mode_own [OF wired(4)] show ?thesis by auto
qed (simp_all add: own_change_refl)

section \<open>Properties\<close>

lemma allot_fresh:
  assumes "allot E i pid cfg sip I = (I', Inr l)" and "i \<notin> le_cid ` set (ipam_leases (nc_name cfg) I)"
  shows "I' = (ipam_lock (nc_name cfg) I)(nc_name cfg \<mapsto> Parsed (ipam_leases (nc_name cfg) I @ [l]))" and "le_cid l = i"
proof -
  let ?t = "ipam_leases (nc_name cfg) I"
  have f: "filter (\<lambda>l. le_cid l \<noteq> i) ?t = ?t" using assms(2) by (intro filter_True) auto
  have "I' = (ipam_lock (nc_name cfg) I)(nc_name cfg \<mapsto> Parsed (?t @ [l])) \<and> le_cid l = i"
  proof (cases sip)
    case None
    with assms(1) have "ipam_allocate (ne_lib E) (ne_lease_write E) cfg i pid I = (I', Inr l)" by (simp add: allot_def)
    then show ?thesis by (cases rule: allocate_cases) (use assms(2) in auto)
  next
    case (Some ip)
    with assms(1) have "ipam_allocate_static (ne_lib E) (ne_lease_write E) cfg i pid ip I = (I', Inr l)" by (simp add: allot_def)
    then show ?thesis by (cases rule: static_cases) (use assms(2) f in auto)
  qed
  then show "I' = (ipam_lock (nc_name cfg) I)(nc_name cfg \<mapsto> Parsed (?t @ [l]))" and "le_cid l = i" by simp_all
qed

lemma free_snoc:
  assumes "I net = Some (Parsed (t @ [l]))" and "le_cid l = i" and "i \<notin> le_cid ` set t"
  shows "ipam_free True net i I = (I(net \<mapsto> Parsed t), Inr ())"
proof -
  have "filter (\<lambda>l. le_cid l \<noteq> i) t = t" using assms(3) by (intro filter_True) auto
  with assms show ?thesis
    by (simp add: ipam_free_def with_table_def ipam_lock_def ipam_load_def ipam_save_def)
qed

text \<open>C17: taking down the network of a container just wired gives back every lease table and every rule there
  was, whichever network it is on and whatever ports it publishes.
\<close>

theorem apply_teardown_undo:
  assumes "nft_kernel K" and "nl_present K (nw_nft w)" and "\<forall>c. comment_udata i \<notin> snd ` set (rules_of K (nw_nft w) c)"
    and "\<forall>n. i \<notin> le_cid ` set (ipam_leases n (nw_ipam w))" and "ne_lease_write E"
    and "apply_net E K R i pid ann w = (w1, Inr (Some st))" and "ns_network st \<noteq> [] \<or> ns_mode st \<noteq> ''bridge''"
    and "snd (teardown_container K i (nw_nft w1)) = Inr ()"
  shows "ipam_leases n (nw_ipam (teardown E K i st w1)) = ipam_leases n (nw_ipam w) \<and>
    rules_of K (nw_nft (teardown E K i st w1)) c = rules_of K (nw_nft w) c"
  using assms(6)
proof (cases rule: apply_cases)
  case (wired mode ports cfg sip st')
  then have st: "st' = st" by simp
  have len: "length i \<le> 64" using wired(2) by (auto simp: validate_id_def split: if_splits)
  show ?thesis
  proof (cases mode)
    case Bridge_mode
    with wired(4) st have b: "apply_bridge E K i pid cfg sip (static_mac_of (ann ''dn7.mac'')) ports w = (w1, Inr st)"
      by (simp add: apply_mode_def)
    then show ?thesis
    proof (rule wire_result)
      fix I l
      assume a: "allot E i pid cfg sip (nw_ipam w) = (I, Inr l)" and I: "nw_ipam w1 = I"
        and s: "ns_mode st = ''bridge''" "ns_network st = nc_name cfg" "ns_extra st = []"
        and p: "nl_present K (nw_nft w) \<Longrightarrow> published K i (nw_nft w) (nw_nft w1)"
      from assms(4) have fr: "i \<notin> le_cid ` set (ipam_leases (nc_name cfg) (nw_ipam w))" by blast
      note af = allot_fresh [OF a fr]
      let ?t = "ipam_leases (nc_name cfg) (nw_ipam w)"
      have fs: "ipam_free True (nc_name cfg) i I = (I(nc_name cfg \<mapsto> Parsed ?t), Inr ())"
        by (rule free_snoc [OF _ af(2) fr]) (simp add: af(1))
      obtain k2 where t: "teardown_container K i (nw_nft w1) = (k2, Inr ())"
        using assms(8) by (cases "teardown_container K i (nw_nft w1)") auto
      have "teardown E K i st w1 = \<lparr>nw_ipam = I(nc_name cfg \<mapsto> Parsed ?t), nw_nft = k2\<rparr>"
        using s assms(5,7) t fs I by (simp add: teardown_def Let_def ignore_def on_nft_def on_ipam_def)
      moreover have "rules_of K k2 c = rules_of K (nw_nft w) c"
        using publish_teardown_aux [OF assms(1,3) len p [OF assms(2)] t] .
      moreover have "ipam_leases n (I(nc_name cfg \<mapsto> Parsed ?t)) = ipam_leases n (nw_ipam w)"
        unfolding af(1) by simp
      ultimately show ?thesis by simp
    qed
  qed (use wired(4) st in \<open>auto simp: apply_mode_def plain_state_def teardown_def st_lift_def st_bind_def split: sum.splits\<close>)
qed simp_all

text \<open>A container that asks for the network mode host or none never starts: the name is looked up as a
  network before the mode is considered, and no network can have it.
\<close>

theorem host_none_refused:
  assumes "registry_ok R" and "ann ''dn7.net'' = Some m" and "m = ''host'' \<or> m = ''none''"
  shows "\<exists>e. apply_net E K R i pid ann w = (w, Inl e)"
proof -
  have "m \<in> set RESERVED" using assms(3) by (auto simp: RESERVED_def)
  then have "load_user m R = None"
    using assms(1) by (auto simp: load_user_def registry_ok_def split: option.splits manifest.splits)
  then have n: "\<exists>e. resolve_net m R = Inl e"
    using assms(3) by (auto simp: resolve_net_def DEFAULT_NETWORK_def)
  have "mode_of ann \<noteq> None" using assms(2) by (simp add: mode_of_def)
  then obtain mode where "mode_of ann = Some mode" by blast
  with n assms(2) show ?thesis
    by (auto simp: apply_net_def st_lift_def st_bind_def split: sum.splits)
qed

theorem host_none_refused_witness:
  "\<exists>e. apply_net demo_net_env demo_kernel [] ''web'' 7 [''dn7.net'' \<mapsto> ''host''] \<lparr>nw_ipam = Map.empty, nw_nft = []\<rparr> =
     (\<lparr>nw_ipam = Map.empty, nw_nft = []\<rparr>, Inl e)"
  by (rule host_none_refused [OF registry_empty, where m = "''host''"]) simp_all

theorem apply_teardown_undo_witness:
  "\<exists>w1 st. apply_net demo_net_env demo_kernel [] ''web'' 7
       [''dn7.net'' \<mapsto> ''bridge'', ''dn7.ip'' \<mapsto> ''172.18.0.9'', ''dn7.ports'' \<mapsto> port_text None 80 8080 Tcp]
       \<lparr>nw_ipam = Map.empty, nw_nft = []\<rparr> = (w1, Inr (Some st)) \<and>
     has_lease ''dn7'' ''web'' (ip4 172 18 0 9) (nw_ipam w1) \<and>
     ipam_leases ''dn7'' (nw_ipam (teardown demo_net_env demo_kernel ''web'' st w1)) = [] \<and>
     rules_of demo_kernel (nw_nft (teardown demo_net_env demo_kernel ''web'' st w1)) ''prerouting'' = []"
proof -
  let ?ann = "[''dn7.net'' \<mapsto> ''bridge'', ''dn7.ip'' \<mapsto> ''172.18.0.9'', ''dn7.ports'' \<mapsto> port_text None 80 8080 Tcp]"
  let ?w = "\<lparr>nw_ipam = Map.empty, nw_nft = []\<rparr> :: demo_rules net_world"
  let ?p = "\<lparr>pm_host_ip = V4 0, pm_host_port = 80, pm_container_port = 8080, pm_proto = Tcp\<rparr>"
  let ?ip = "ip4 172 18 0 9"
  have v: "validate_id id ''web'' = Inr ()" by code_simp
  have "CHR '','' \<notin> set (port_text None 80 8080 Tcp)" "trim (port_text None 80 8080 Tcp) = port_text None 80 8080 Tcp"
    by (rule port_text_no_comma port_text_trim, simp)+
  moreover have "parse_one_port id (port_text None 80 8080 Tcp) = Inr ?p"
    by (rule parse_port_text) (simp_all add: ip_meaning_def)
  ultimately have ps: "parse_ports id (port_text None 80 8080 Tcp) = Inr [?p]"
    by (simp add: parse_ports_def split_on_single) (simp add: port_text_def to_dec_not_Nil)
  have "parse_ipv4 (trim ''172.18.0.9'') = Some 0xAC120009" "trim ''172.18.0.9'' \<noteq> []" by code_simp+
  then have ipp: "static_ip_of demo_net_env (Some ''172.18.0.9'') = Inr (Some ?ip)"
    by (simp add: static_ip_of_def ip4_def)
  have u: "usable demo_ipnet default_dn7 ?ip"
    by (simp add: usable_def demo_ipnet_def default_dn7_def net_contains_def ip4_def drop_bit_eq_div net_base_def
        net_last_def push_bit_eq_mult)
  then have al: "ipam_allocate_static demo_ipnet True default_dn7 ''web'' 7 ?ip Map.empty =
      ([''dn7'' \<mapsto> Parsed [\<lparr>le_ip = ?ip, le_mac = mac_for ?ip, le_cid = ''web'', le_pid = 7\<rparr>]],
       Inr \<lparr>le_ip = ?ip, le_mac = mac_for ?ip, le_cid = ''web'', le_pid = 7\<rparr>)"
    by (simp add: ipam_allocate_static_def usable_def with_table_def ipam_lock_def ipam_load_def save_then_cases
        Let_def default_dn7_def DEFAULT_NETWORK_def)
  let ?k = "[(str_bytes ''prerouting'' @ [0], Some (comment_udata ''web'')), (str_bytes ''output'' @ [0], Some (comment_udata ''web''))]"
  have pub: "publish_port demo_kernel ''web'' ?p ?ip [] = (?k, Inr ())" by (subst demo_publish) simp_all
  have nm: "nc_name default_dn7 = ''dn7''" by (simp add: default_dn7_def DEFAULT_NETWORK_def)
  have res: "resolve_net ''bridge'' [] = Inr default_dn7" by (simp add: resolve_net_def)
  have e: "ne_lib demo_net_env = demo_ipnet" "ne_dbg demo_net_env = id" "ne_lease_write demo_net_env = True"
    "\<And>c. call_backend demo_net_env c = Inr ()" "nl_have demo_kernel k" "ensure_base L demo_kernel c k = (k, Inr ())" for L c k
    by (simp_all add: demo_net_env_def call_backend_def demo_kernel_def ensure_base_def)
  obtain w1 st where a: "apply_net demo_net_env demo_kernel [] ''web'' 7 ?ann ?w = (w1, Inr (Some st))"
    and w1: "w1 = \<lparr>nw_ipam = [''dn7'' \<mapsto> Parsed [\<lparr>le_ip = ?ip, le_mac = mac_for ?ip, le_cid = ''web'', le_pid = 7\<rparr>]], nw_nft = ?k\<rparr>"
    and st: "ns_network st = ''dn7''"
    by (simp add: apply_net_def mode_of_def e v ps ipp res st_lift_def apply_mode_def apply_bridge_def on_ipam_def al
        on_nft_def pub Let_def nm)
  have "length ?k < 1000" by simp
  from demo_teardown [OF this] obtain k2 where t: "teardown_container demo_kernel ''web'' ?k = (k2, Inr ())" by blast
  have "ipam_leases n (nw_ipam (teardown demo_net_env demo_kernel ''web'' st w1)) = ipam_leases n (nw_ipam ?w) \<and>
      rules_of demo_kernel (nw_nft (teardown demo_net_env demo_kernel ''web'' st w1)) c = rules_of demo_kernel (nw_nft ?w) c" for n c
    by (rule apply_teardown_undo [OF demo_nft.nft_kernel_axioms _ _ _ _ a])
      (use t in \<open>simp_all add: e st w1 ipam_leases_def ipam_load_def demo_kernel_def rules_of_def demo_list_def\<close>)
  moreover have "has_lease ''dn7'' ''web'' ?ip (nw_ipam w1)" by (simp add: w1 has_lease_def)
  moreover have "ipam_leases ''dn7'' (nw_ipam ?w) = []" "rules_of demo_kernel (nw_nft ?w) ''prerouting'' = []"
    by (simp_all add: ipam_leases_def ipam_load_def demo_kernel_def rules_of_def demo_list_def)
  ultimately show ?thesis using a by metis
qed

end
