(* ===== verification/Containers.thy ===== *)
theory Containers
  imports Net_Manager
begin

text \<open>
  The life of a container (\<open>crates/dn7-container/src/container/mod.rs\<close> and \<open>container/state.rs\<close>): its
  record and log under the state directory, its processes, its network, and every verb of the runtime.
  A verb holds the lock of its container for the whole of its body, so it is one function on the state;
  \<open>delete\<close> takes no lock. Namespaces, mounts and the program of the container are outside: the environment
  \<open>cenv\<close> says which calls of the kernel succeed and what the new process is. The result \<open>None\<close> is a verb
  that never returns.
\<close>

section \<open>The record\<close>

datatype status = Created | Running | Stopped

fun status_str :: "status \<Rightarrow> string" where
  "status_str Created = ''created''"
| "status_str Running = ''running''"
| "status_str Stopped = ''stopped''"

record state_meta =
  sm_image :: "string option"
  sm_name :: "string option"
  sm_restart_policy :: "string option"
  sm_stopped_by_user :: bool
  sm_tty :: bool
  sm_open_stdin :: bool
  sm_hostname :: "string option"
  sm_domainname :: "string option"
  sm_dns :: "string list"
  sm_env :: "string list"
  sm_cmd :: "string list"
  sm_labels :: "(string, string) hmap"
  sm_mem_limit :: "int option"
  sm_nano_cpus :: "int option"
  sm_cpu_shares :: "int option"
  sm_privileged :: bool
  sm_ports_spec :: string
  sm_net_name_requested :: "string option"
  sm_create_spec :: "string option"
  sm_exit_code :: int
  sm_restart_count :: nat
  sm_paused :: bool
  sm_stop_signal :: "string option"
  sm_stop_timeout :: "int option"
  sm_auto_remove :: bool
  sm_started_at :: "nat option"
  sm_finished_at :: "nat option"
  sm_oom_killed :: bool

definition default_meta :: state_meta where
  "default_meta = \<lparr>sm_image = None, sm_name = None, sm_restart_policy = None, sm_stopped_by_user = False,
     sm_tty = False, sm_open_stdin = False, sm_hostname = None, sm_domainname = None, sm_dns = [], sm_env = [],
     sm_cmd = [], sm_labels = [], sm_mem_limit = None, sm_nano_cpus = None, sm_cpu_shares = None,
     sm_privileged = False, sm_ports_spec = [], sm_net_name_requested = None, sm_create_spec = None,
     sm_exit_code = 0, sm_restart_count = 0, sm_paused = False, sm_stop_signal = None, sm_stop_timeout = None,
     sm_auto_remove = False, sm_started_at = None, sm_finished_at = None, sm_oom_killed = False\<rparr>"

record cstate =
  cs_id :: string
  cs_status :: status
  cs_pid :: int
  cs_bundle :: string
  cs_cgroup :: string
  cs_created :: nat
  cs_net :: "net_state option"
  cs_meta :: state_meta

definition new_state :: "string \<Rightarrow> int \<Rightarrow> string \<Rightarrow> string \<Rightarrow> nat \<Rightarrow> cstate" where
  "new_state i pid bundle cgroup created = \<lparr>cs_id = i, cs_status = Created, cs_pid = pid, cs_bundle = bundle,
     cs_cgroup = cgroup, cs_created = created, cs_net = None, cs_meta = default_meta\<rparr>"

section \<open>The host\<close>

text \<open>A state directory, a process with its cgroup, and whether it is the init that waits at the exec FIFO.\<close>

record cdir =
  cd_state :: "cstate manifest"
  cd_log :: string
  cd_rotated :: "string option"

record proc =
  pr_cgroup :: string
  pr_parked :: bool

record 'k cworld =
  cw_net :: "'k net_world"
  cw_dirs :: "(string, cdir) hmap"
  cw_procs :: "(int, proc) hmap"
  cw_bundles :: "string \<rightharpoonup> (string \<rightharpoonup> string)"

record 'k cenv =
  ce_net :: net_env
  ce_nft :: "'k nft_lib"
  ce_reg :: registry
  ce_now :: nat
  ce_lock :: bool
  ce_save :: bool
  ce_setup :: "cerr option"
  ce_pid :: int
  ce_add_pid :: bool
  ce_release :: bool
  ce_fifo :: "cerr option"
  ce_cgroup_delete :: bool
  ce_freeze :: bool
  ce_term_exits :: bool
  ce_oom :: bool
  ce_copy :: bool

type_synonym 'k verb = "'k cworld \<times> unit cres"

definition state_load :: "string \<Rightarrow> 'k cworld \<Rightarrow> cstate cres" where
  "state_load i w =
     (case hm_get (cw_dirs w) i of
        None \<Rightarrow> Inl (NotFoundC i)
      | Some d \<Rightarrow> (case cd_state d of
            Missing \<Rightarrow> Inl (NotFoundC i)
          | Unparsable \<Rightarrow> Inl JsonError
          | Parsed s \<Rightarrow> Inr s))"

definition state_exists :: "string \<Rightarrow> 'k cworld \<Rightarrow> bool" where
  "state_exists i w = (case hm_get (cw_dirs w) i of Some d \<Rightarrow> cd_state d \<noteq> Missing | None \<Rightarrow> False)"

definition make_dir :: "string \<Rightarrow> 'k cworld \<Rightarrow> 'k cworld" where
  "make_dir i w = (case hm_get (cw_dirs w) i of
     Some _ \<Rightarrow> w
   | None \<Rightarrow> w\<lparr>cw_dirs := hm_insert i \<lparr>cd_state = Missing, cd_log = [], cd_rotated = None\<rparr> (cw_dirs w)\<rparr>)"

definition remove_dir :: "string \<Rightarrow> 'k cworld \<Rightarrow> 'k cworld" where
  "remove_dir i w = w\<lparr>cw_dirs := hm_remove i (cw_dirs w)\<rparr>"

definition state_save :: "'k cenv \<Rightarrow> cstate \<Rightarrow> 'k cworld \<Rightarrow> 'k verb" where
  "state_save E s w =
     (case hm_get (cw_dirs w) (cs_id s) of
        Some d \<Rightarrow> if ce_save E
          then (w\<lparr>cw_dirs := hm_insert (cs_id s) (d\<lparr>cd_state := Parsed s\<rparr>) (cw_dirs w)\<rparr>, Inr ())
          else (w, Inl IoError)
      | None \<Rightarrow> (w, Inl IoError))"

definition pid_alive :: "int \<Rightarrow> 'k cworld \<Rightarrow> bool" where
  "pid_alive pid w \<longleftrightarrow> hm_get (cw_procs w) pid \<noteq> None"

definition refresh_status :: "'k cworld \<Rightarrow> cstate \<Rightarrow> cstate" where
  "refresh_status w s = (if cs_status s = Running \<and> \<not> pid_alive (cs_pid s) w then s\<lparr>cs_status := Stopped\<rparr> else s)"

definition all_states :: "'k cworld \<Rightarrow> cstate list" where
  "all_states w = sort_key cs_id (map (refresh_status w)
     (List.map_filter (\<lambda>(i, d). case cd_state d of Parsed s \<Rightarrow> Some s | _ \<Rightarrow> None) (cw_dirs w)))"

section \<open>Processes\<close>

definition kill_pid :: "int \<Rightarrow> 'k cworld \<Rightarrow> 'k cworld" where
  "kill_pid pid w = w\<lparr>cw_procs := hm_remove pid (cw_procs w)\<rparr>"

text \<open>\<open>cgroup.kill\<close> and the wait until the cgroup is empty.\<close>

definition kill_all :: "string \<Rightarrow> 'k cworld \<Rightarrow> 'k cworld" where
  "kill_all cg w = w\<lparr>cw_procs := hm_retain (\<lambda>_ p. pr_cgroup p \<noteq> cg) (cw_procs w)\<rparr>"

definition default_cgroup :: "string \<Rightarrow> string" where
  "default_cgroup i = ''dn7/'' @ i"

text \<open>The network of a container, within the state.\<close>

definition net_teardown :: "'k cenv \<Rightarrow> string \<Rightarrow> net_state option \<Rightarrow> 'k cworld \<Rightarrow> 'k cworld" where
  "net_teardown E i net w =
     (case net of Some ns \<Rightarrow> w\<lparr>cw_net := teardown (ce_net E) (ce_nft E) i ns (cw_net w)\<rparr> | None \<Rightarrow> w)"

section \<open>Creating\<close>

definition create_inner :: "'k cenv \<Rightarrow> string \<Rightarrow> string \<Rightarrow> (string \<rightharpoonup> string) \<Rightarrow> state_meta \<Rightarrow> 'k cworld \<Rightarrow> 'k verb" where
  "create_inner E i bundle ann meta w =
     (case ce_setup E of
        Some e \<Rightarrow> (w, Inl e)
      | None \<Rightarrow>
          if \<not> ce_add_pid E then (w, Inl IoError)
          else let pid = ce_pid E;
                   w = w\<lparr>cw_procs := hm_insert pid \<lparr>pr_cgroup = default_cgroup i, pr_parked = True\<rparr> (cw_procs w)\<rparr> in
            (case apply_net (ce_net E) (ce_nft E) (ce_reg E) i pid ann (cw_net w) of
               (nw, Inl e) \<Rightarrow> (kill_pid pid (w\<lparr>cw_net := nw\<rparr>), Inl e)
             | (nw, Inr net) \<Rightarrow>
                 let w = w\<lparr>cw_net := nw\<rparr> in
                 if \<not> ce_release E then (kill_pid pid w, Inl IoError)
                 else (case state_save E ((new_state i pid bundle (default_cgroup i) (ce_now E))\<lparr>cs_net := net, cs_meta := meta\<rparr>) w of
                    (w, Inl e) \<Rightarrow> (kill_pid pid (net_teardown E i net w), Inl e)
                  | (w, Inr _) \<Rightarrow> (w, Inr ()))))"

definition create_with_meta :: "'k cenv \<Rightarrow> string \<Rightarrow> string \<Rightarrow> state_meta \<Rightarrow> 'k cworld \<Rightarrow> 'k verb" where
  "create_with_meta E i bundle meta w =
     (if state_exists i w then (w, Inl (Exists i))
      else (case cw_bundles w bundle of
          None \<Rightarrow> (w, Inl BundleError)
        | Some ann \<Rightarrow>
            (case create_inner E i bundle ann meta (make_dir i w) of
               (w, Inl e) \<Rightarrow> (remove_dir i w, Inl e)
             | (w, Inr _) \<Rightarrow> (w, Inr ()))))"

definition locked :: "'k cenv \<Rightarrow> 'k cworld \<Rightarrow> 'k cworld \<times> 'a cres \<Rightarrow> 'k cworld \<times> 'a cres" where
  "locked E w r = (if ce_lock E then r else (w, Inl IoError))"

definition create :: "'k cenv \<Rightarrow> string \<Rightarrow> string \<Rightarrow> 'k cworld \<Rightarrow> 'k verb" where
  "create E i bundle w = locked E w (create_with_meta E i bundle default_meta w)"

definition BUNDLES_DIR :: string where "BUNDLES_DIR = ''/var/lib/dn7-container/bundles''"

definition bundle_dir :: "string \<Rightarrow> string" where "bundle_dir i = BUNDLES_DIR @ ''/'' @ i"

text \<open>\<open>assemble\<close> stands for \<open>assemble_image_bundle\<close>: what it leaves of the bundles, and whether it succeeds.\<close>

definition create_from_image ::
  "'k cenv \<Rightarrow> (string \<Rightarrow> (string \<rightharpoonup> (string \<rightharpoonup> string)) \<Rightarrow> (string \<rightharpoonup> (string \<rightharpoonup> string)) \<times> unit cres) \<Rightarrow>
   string \<Rightarrow> state_meta \<Rightarrow> 'k cworld \<Rightarrow> 'k cworld \<times> string cres" where
  "create_from_image E assemble i meta w = locked E w
     (if state_exists i w then (w, Inl (Exists i))
      else (case assemble i (cw_bundles w) of
          (B, Inl e) \<Rightarrow> (w\<lparr>cw_bundles := B\<rparr>, Inl e)
        | (B, Inr _) \<Rightarrow>
            (case create_with_meta E i (bundle_dir i) meta (w\<lparr>cw_bundles := B\<rparr>) of
               (w, Inr _) \<Rightarrow> (w, Inr i)
             | (w, Inl e) \<Rightarrow> (w\<lparr>cw_bundles := (cw_bundles w)(bundle_dir i := None)\<rparr>, Inl e))))"

section \<open>Starting and stopping\<close>

text \<open>Reading the FIFO returns when the init of this container waits at its other end, and blocks otherwise.\<close>

definition start_locked :: "'k cenv \<Rightarrow> string \<Rightarrow> 'k cworld \<Rightarrow> 'k verb option" where
  "start_locked E i w =
     (case state_load i w of
        Inl e \<Rightarrow> Some (w, Inl e)
      | Inr s \<Rightarrow>
          if cs_status s \<noteq> Created then Some (w, Inl (BadState i (status_str (cs_status s)) ''start''))
          else (case hm_get (cw_procs w) (cs_pid s) of
              None \<Rightarrow> None
            | Some p \<Rightarrow>
                if \<not> (pr_parked p \<and> pr_cgroup p = cs_cgroup s) then None
                else (case ce_fifo E of
                    Some e \<Rightarrow> Some (w, Inl e)
                  | None \<Rightarrow>
                      Some (state_save E (s\<lparr>cs_status := Running, cs_meta := (cs_meta s)
                          \<lparr>sm_started_at := Some (ce_now E), sm_finished_at := None, sm_oom_killed := False\<rparr>\<rparr>)
                        (w\<lparr>cw_procs := hm_insert (cs_pid s) (p\<lparr>pr_parked := False\<rparr>) (cw_procs w)\<rparr>)))))"

definition start :: "'k cenv \<Rightarrow> string \<Rightarrow> 'k cworld \<Rightarrow> 'k verb option" where
  "start E i w = (if ce_lock E then start_locked E i w else Some (w, Inl IoError))"

definition to_ascii_upper_char :: "char \<Rightarrow> char" where
  "to_ascii_upper_char c = (if is_ascii_lowercase c then char_of (byte c - 32) else c)"

text \<open>A signal is its number; the numbers the crate knows are 1 to 31.\<close>

definition parse_signal :: "string \<Rightarrow> int option" where
  "parse_signal name =
     (let n = trim name in
      case (case parse_i64 n of Some v \<Rightarrow> if - (2 ^ 31) \<le> v \<and> v < 2 ^ 31 then Some v else None | None \<Rightarrow> None) of
        Some v \<Rightarrow> if 1 \<le> v \<and> v \<le> 31 then Some v else None
      | None \<Rightarrow>
          let upper = map to_ascii_upper_char n;
              base = (case strip_prefix upper ''SIG'' of Some r \<Rightarrow> r | None \<Rightarrow> upper) in
          map_of [(''TERM'', 15), (''KILL'', 9), (''INT'', 2), (''QUIT'', 3), (''HUP'', 1), (''USR1'', 10), (''USR2'', 12),
            (''STOP'', 19), (''WINCH'', 28)] base)"

definition stop_signal_of :: "cstate \<Rightarrow> int" where
  "stop_signal_of s = opt_or (Option.bind (sm_stop_signal (cs_meta s)) parse_signal) 15"

text \<open>\<open>ce_term_exits\<close> says whether the signal makes the process it is sent to end within the grace period.\<close>

definition stopped_record :: "'k cenv \<Rightarrow> cstate \<Rightarrow> cstate" where
  "stopped_record E s = s\<lparr>cs_status := Stopped, cs_meta := (cs_meta s)
     \<lparr>sm_paused := False, sm_stopped_by_user := True, sm_finished_at := Some (ce_now E)\<rparr>\<rparr>"

definition stop :: "'k cenv \<Rightarrow> string \<Rightarrow> 'k cworld \<Rightarrow> 'k verb" where
  "stop E i w = locked E w
     (case state_load i w of
        Inl e \<Rightarrow> (w, Inl e)
      | Inr s \<Rightarrow>
          let s = refresh_status w s in
          if cs_status s \<noteq> Running then (w, Inr ())
          else let w = (if ce_term_exits E then kill_pid (cs_pid s) w else w);
                   w = (if pid_alive (cs_pid s) w then kill_all (cs_cgroup s) w else w);
                   w = net_teardown E i (cs_net s) w
               in state_save E (stopped_record E s) w)"

definition kill_now :: "'k cenv \<Rightarrow> string \<Rightarrow> 'k cworld \<Rightarrow> 'k verb" where
  "kill_now E i w = locked E w
     (case state_load i w of
        Inl e \<Rightarrow> (w, Inl e)
      | Inr s \<Rightarrow>
          let s = refresh_status w s in
          if cs_status s \<noteq> Running then (w, Inl (BadState i (status_str (cs_status s)) ''kill''))
          else state_save E (stopped_record E s) (net_teardown E i (cs_net s) (kill_all (cs_cgroup s) w)))"

definition pause :: "'k cenv \<Rightarrow> string \<Rightarrow> 'k cworld \<Rightarrow> 'k verb" where
  "pause E i w = locked E w
     (case state_load i w of
        Inl e \<Rightarrow> (w, Inl e)
      | Inr s \<Rightarrow>
          let s = refresh_status w s in
          if cs_status s \<noteq> Running then (w, Inl (BadState i (status_str (cs_status s)) ''pause''))
          else if \<not> ce_freeze E then (w, Inl IoError)
          else state_save E (s\<lparr>cs_meta := (cs_meta s)\<lparr>sm_paused := True\<rparr>\<rparr>) w)"

definition unpause :: "'k cenv \<Rightarrow> string \<Rightarrow> 'k cworld \<Rightarrow> 'k verb" where
  "unpause E i w = locked E w
     (case state_load i w of
        Inl e \<Rightarrow> (w, Inl e)
      | Inr s \<Rightarrow>
          let s = refresh_status w s in
          if \<not> ce_freeze E then (w, Inl IoError)
          else state_save E (s\<lparr>cs_meta := (cs_meta s)\<lparr>sm_paused := False\<rparr>\<rparr>) w)"

definition rerun_locked :: "'k cenv \<Rightarrow> string \<Rightarrow> 'k cworld \<Rightarrow> 'k verb option" where
  "rerun_locked E i w =
     (case state_load i w of
        Inl e \<Rightarrow> Some (w, Inl e)
      | Inr s \<Rightarrow>
          if cs_status (refresh_status w s) = Running then Some (w, Inl (BadState i ''running'' ''rerun''))
          else let w = net_teardown E i (cs_net s) w;
                   meta = (cs_meta s)\<lparr>sm_paused := False, sm_stopped_by_user := False\<rparr>;
                   w = remove_dir i w in
            (case create_with_meta E i (cs_bundle s) meta w of
               (w, Inl e) \<Rightarrow> Some (w, Inl e)
             | (w, Inr _) \<Rightarrow> start_locked E i w))"

definition rerun :: "'k cenv \<Rightarrow> string \<Rightarrow> 'k cworld \<Rightarrow> 'k verb option" where
  "rerun E i w = (if ce_lock E then rerun_locked E i w else Some (w, Inl IoError))"

definition start_or_rerun :: "'k cenv \<Rightarrow> string \<Rightarrow> 'k cworld \<Rightarrow> 'k verb option" where
  "start_or_rerun E i w =
     (case state_load i w of
        Inl e \<Rightarrow> Some (w, Inl e)
      | Inr s \<Rightarrow> (case cs_status (refresh_status w s) of
            Created \<Rightarrow> start E i w
          | Stopped \<Rightarrow> rerun E i w
          | Running \<Rightarrow> Some (w, Inr ())))"

definition restart :: "'k cenv \<Rightarrow> string \<Rightarrow> 'k cworld \<Rightarrow> 'k verb option" where
  "restart E i w =
     (case state_load i w of
        Inl e \<Rightarrow> Some (w, Inl e)
      | Inr s \<Rightarrow> (case cs_status (refresh_status w s) of
            Created \<Rightarrow> start E i w
          | Stopped \<Rightarrow> rerun E i w
          | Running \<Rightarrow> (case stop E i w of (w, Inl e) \<Rightarrow> Some (w, Inl e) | (w, Inr _) \<Rightarrow> rerun E i w)))"

definition stop_grace_period :: "cstate \<Rightarrow> int" where
  "stop_grace_period s = (case sm_stop_timeout (cs_meta s) of Some t \<Rightarrow> if 0 < t then t else 10 | None \<Rightarrow> 10)"

section \<open>Deleting\<close>

definition path_comps :: "string \<Rightarrow> string list" where
  "path_comps p = (if starts_with p ''/'' then [''/''] else []) @ filter (\<lambda>s. s \<noteq> [] \<and> s \<noteq> ''.'') (split_on CHR ''/'' p)"

definition path_starts_with :: "string \<Rightarrow> string \<Rightarrow> bool" where
  "path_starts_with p base \<longleftrightarrow> take (length (path_comps base)) (path_comps p) = path_comps base"

definition delete :: "'k cenv \<Rightarrow> string \<Rightarrow> bool \<Rightarrow> 'k cworld \<Rightarrow> 'k verb" where
  "delete E i force w =
     (case state_load i w of
        Inl e \<Rightarrow> (w, Inl e)
      | Inr s \<Rightarrow>
          let s = refresh_status w s in
          if pid_alive (cs_pid s) w \<and> \<not> force
          then (w, Inl (BadState i (status_str (cs_status s)) ''delete (still alive; use --force)''))
          else let w = net_teardown E i (cs_net s) (kill_all (cs_cgroup s) w) in
            if \<not> ce_cgroup_delete E then (w, Inl IoError)
            else let w = (if path_starts_with (cs_bundle s) BUNDLES_DIR
                          then w\<lparr>cw_bundles := (cw_bundles w)(cs_bundle s := None)\<rparr> else w)
                 in (remove_dir i w, Inr ()))"

end
