(* ===== verification/Container_Ops.thy ===== *)
theory Container_Ops
  imports Containers
begin

text \<open>
  What happens to a container beside the verbs of its life (\<open>crates/dn7-container/src/container/mod.rs\<close>):
  the restart supervisor and the reconciliation at boot, references to containers, secondary networks and
  addresses, and the captured log.
\<close>

section \<open>The restart supervisor\<close>

definition should_restart :: "string \<Rightarrow> int \<Rightarrow> nat \<Rightarrow> bool \<Rightarrow> bool" where
  "should_restart policy exit_code restart_count user_stopped =
     (if user_stopped then False
      else let (kind, mx) = (case split_once CHR '':'' policy of
               Some (k, n) \<Rightarrow> (trim k, parse_u32 (trim n))
             | None \<Rightarrow> (trim policy, None)) in
        if kind = ''always'' \<or> kind = ''unless-stopped'' then True
        else if kind = ''on-failure'' then
          exit_code \<noteq> 0 \<and> (case mx of None \<Rightarrow> True | Some m \<Rightarrow> m = 0 \<or> restart_count < m)
        else False)"

text \<open>Milliseconds.\<close>

definition restart_backoff :: "nat \<Rightarrow> nat" where
  "restart_backoff restart_count = min (100 * 2 ^ min restart_count 9) 60000"

datatype wait_status = Exited int | Signaled int | Other_status

datatype reap_next = Reap_done | Reap_restart nat

definition LOG_ROTATE_BYTES :: nat where "LOG_ROTATE_BYTES = 8388608"

definition rotate_dir :: "bool \<Rightarrow> cdir \<Rightarrow> cdir" where
  "rotate_dir copy_ok d =
     (if length (cd_log d) \<le> LOG_ROTATE_BYTES \<or> \<not> copy_ok then d
      else d\<lparr>cd_rotated := Some (cd_log d), cd_log := []\<rparr>)"

definition rotate_log :: "bool \<Rightarrow> string \<Rightarrow> 'k cworld \<Rightarrow> 'k cworld" where
  "rotate_log copy_ok i w = (case hm_get (cw_dirs w) i of
     Some d \<Rightarrow> w\<lparr>cw_dirs := hm_insert i (rotate_dir copy_ok d) (cw_dirs w)\<rparr>
   | None \<Rightarrow> w)"

text \<open>The thread of \<open>spawn_reaper\<close>, up to its sleep: what it does when the init ends.\<close>

definition exit_record :: "'k cenv \<Rightarrow> int \<Rightarrow> cstate \<Rightarrow> cstate" where
  "exit_record E code s = s\<lparr>cs_status := Stopped, cs_meta := (cs_meta s)
     \<lparr>sm_exit_code := code, sm_paused := False, sm_finished_at := Some (ce_now E), sm_oom_killed := ce_oom E\<rparr>\<rparr>"

definition reap :: "'k cenv \<Rightarrow> string \<Rightarrow> int \<Rightarrow> wait_status \<Rightarrow> 'k cworld \<Rightarrow> 'k cworld \<times> reap_next" where
  "reap E i init_pid st w =
     (case (case st of Exited c \<Rightarrow> Some c | Signaled sg \<Rightarrow> Some (128 + sg) | Other_status \<Rightarrow> None) of
        None \<Rightarrow> (w, Reap_done)
      | Some code \<Rightarrow>
          if \<not> ce_lock E then (w, Reap_done)
          else (case state_load i w of
              Inl _ \<Rightarrow> (w, Reap_done)
            | Inr s \<Rightarrow>
                if cs_pid s \<noteq> init_pid then (w, Reap_done)
                else let s = exit_record E code s;
                         w = rotate_log (ce_copy E) i (fst (state_save E s w)) in
                  if sm_auto_remove (cs_meta s) then (fst (delete E i True w), Reap_done)
                  else if should_restart (opt_or (sm_restart_policy (cs_meta s)) []) code
                            (sm_restart_count (cs_meta s)) (sm_stopped_by_user (cs_meta s))
                  then (w, Reap_restart (restart_backoff (sm_restart_count (cs_meta s))))
                  else (w, Reap_done)))"

text \<open>And after it: \<open>None\<close> is a thread that never ends.\<close>

definition reap_again :: "'k cenv \<Rightarrow> string \<Rightarrow> 'k cworld \<Rightarrow> 'k cworld option" where
  "reap_again E i w =
     (if \<not> ce_lock E then Some w
      else (case state_load i w of
          Inl _ \<Rightarrow> Some w
        | Inr cur \<Rightarrow>
            let cur = refresh_status w cur in
            if cs_status cur \<noteq> Stopped \<or> sm_stopped_by_user (cs_meta cur) then Some w
            else let cur = cur\<lparr>cs_meta := (cs_meta cur)\<lparr>sm_restart_count := min (sm_restart_count (cs_meta cur) + 1) (2 ^ 32 - 1)\<rparr>\<rparr>
                 in map_option fst (rerun E i (fst (state_save E cur w)))))"

text \<open>The reconciliation at boot: which containers it runs again.\<close>

definition boot_wants :: "cstate \<Rightarrow> bool" where
  "boot_wants s =
     (let policy = opt_or (sm_restart_policy (cs_meta s)) [];
          kind = trim (case split_once CHR '':'' policy of Some (k, _) \<Rightarrow> k | None \<Rightarrow> policy) in
      if kind = ''always'' then True
      else if kind = ''unless-stopped'' then \<not> sm_stopped_by_user (cs_meta s)
      else False)"

fun reconcile_list :: "'k cenv \<Rightarrow> cstate list \<Rightarrow> 'k cworld \<Rightarrow> ('k cworld \<times> nat) option" where
  "reconcile_list E [] w = Some (w, 0)"
| "reconcile_list E (s # ss) w =
     (if cs_status s = Created \<or> \<not> boot_wants s \<or> cs_status (refresh_status w s) = Running then reconcile_list E ss w
      else (case rerun E (cs_id s) w of
          None \<Rightarrow> None
        | Some (w, r) \<Rightarrow> (case reconcile_list E ss w of
              None \<Rightarrow> None
            | Some (w, n) \<Rightarrow> Some (w, if is_Ok r then n + 1 else n))))"

definition reconcile_restart_policies :: "'k cenv \<Rightarrow> 'k cworld \<Rightarrow> ('k cworld \<times> nat) option" where
  "reconcile_restart_policies E w = reconcile_list E (all_states w) w"

section \<open>References\<close>

definition resolve_ref :: "string \<Rightarrow> 'k cworld \<Rightarrow> string cres" where
  "resolve_ref r w =
     (if state_exists r w then Inr r
      else let al = all_states w in
        (case find (\<lambda>s. sm_name (cs_meta s) = Some r) al of
           Some s \<Rightarrow> Inr (cs_id s)
         | None \<Rightarrow> (case filter (\<lambda>s. starts_with (cs_id s) r) al of
               [s] \<Rightarrow> Inr (cs_id s)
             | _ # _ # _ \<Rightarrow> Inl (Other (''ambiguous reference: '' @ r))
             | [] \<Rightarrow> Inl (NotFoundC r))))"

section \<open>Networks of a running container\<close>

definition on_net :: "('k net_world \<Rightarrow> 'k net_world \<times> 'a cres) \<Rightarrow> 'k cworld \<Rightarrow> 'k cworld \<times> 'a cres" where
  "on_net f w = (case f (cw_net w) of (n, r) \<Rightarrow> (w\<lparr>cw_net := n\<rparr>, r))"

definition resolve_other :: "'k cenv \<Rightarrow> string \<Rightarrow> net_cfg cres" where
  "resolve_other E network = (case resolve_net network (ce_reg E) of Inr c \<Rightarrow> Inr c | Inl e \<Rightarrow> Inl (Other (cerr_text e)))"

definition parse_want :: "string \<Rightarrow> ipv4 cres" where
  "parse_want s = (case parse_ipv4 (trim s) of Some ip \<Rightarrow> Inr ip | None \<Rightarrow> Inl (Other (''invalid ipv4: '' @ s)))"

definition wire_attachment :: "'k cenv \<Rightarrow> net_cfg \<Rightarrow> string \<Rightarrow> string \<Rightarrow> int \<Rightarrow> string \<Rightarrow> ipv4 \<Rightarrow> 'k cworld \<Rightarrow> 'k verb" where
  "wire_attachment E cfg host peer pid ifname ip w =
     (case and_then (call_backend (ce_net E) (EnsureBridge (nc_bridge cfg)))
        (\<lambda>_. and_then (call_backend (ce_net E) (MakeVeth host peer))
        (\<lambda>_. and_then (call_backend (ce_net E) (AttachToBridge host (nc_bridge cfg)))
        (\<lambda>_. and_then (call_backend (ce_net E) (MovePeer peer pid))
        (\<lambda>_. call_backend (ce_net E) (ConfigAttachment pid peer ifname ip))))) of
        Inl e \<Rightarrow> (w, Inl e)
      | Inr _ \<Rightarrow>
          (if nl_have (ce_nft E) (nw_nft (cw_net w))
           then fst (on_net (on_nft (ensure_base (ne_lib (ce_net E)) (ce_nft E) cfg)) w) else w, Inr ()))"

definition lease_for :: "'k cenv \<Rightarrow> net_cfg \<Rightarrow> string \<Rightarrow> int \<Rightarrow> string option \<Rightarrow> 'k cworld \<Rightarrow> 'k cworld \<times> lease cres" where
  "lease_for E cfg i pid static_ip w =
     (case static_ip of
        Some ip \<Rightarrow> (case parse_want ip of
            Inl e \<Rightarrow> (w, Inl e)
          | Inr want \<Rightarrow> on_net (on_ipam (allot (ce_net E) i pid cfg (Some want))) w)
      | None \<Rightarrow> on_net (on_ipam (allot (ce_net E) i pid cfg None)) w)"

definition free_lease :: "'k cenv \<Rightarrow> string \<Rightarrow> string \<Rightarrow> 'k cworld \<Rightarrow> 'k cworld" where
  "free_lease E net i w = fst (on_net (on_ipam (ipam_free (ne_lease_write (ce_net E)) net i)) w)"

definition add_attachment :: "attachment \<Rightarrow> cstate \<Rightarrow> cstate" where
  "add_attachment a s = s\<lparr>cs_net := map_option (\<lambda>n. n\<lparr>ns_extra := ns_extra n @ [a]\<rparr>) (cs_net s)\<rparr>"

definition attachment_for :: "'k cenv \<Rightarrow> string \<Rightarrow> net_state \<Rightarrow> net_cfg \<Rightarrow> lease \<Rightarrow> attachment" where
  "attachment_for E i net cfg l =
     \<lparr>at_network = nc_name cfg, at_bridge = nc_bridge cfg,
      at_veth_host = veth_host_name_for (ne_sha (ce_net E)) i (nc_name cfg),
      at_ifname = ''eth'' @ to_dec (1 + length (ns_extra net)), at_ip = le_ip l, at_mac = le_mac l\<rparr>"

text \<open>The second half of \<open>net_connect\<close>, once the network is known to be a new one.\<close>

definition connect_to ::
  "'k cenv \<Rightarrow> string \<Rightarrow> cstate \<Rightarrow> net_state \<Rightarrow> net_cfg \<Rightarrow> string option \<Rightarrow> 'k cworld \<Rightarrow> 'k cworld \<times> (string \<times> string) cres" where
  "connect_to E i s net cfg static_ip w =
     (case lease_for E cfg i (cs_pid s) static_ip w of
        (w, Inl e) \<Rightarrow> (w, Inl e)
      | (w, Inr l) \<Rightarrow>
          let a = attachment_for E i net cfg l;
              peer = veth_peer_name_for (ne_sha (ce_net E)) i (nc_name cfg) in
          (case wire_attachment E cfg (at_veth_host a) peer (cs_pid s) (at_ifname a) (at_ip a) w of
             (w, Inl e) \<Rightarrow> (free_lease E (nc_name cfg) i w, Inl e)
           | (w, Inr _) \<Rightarrow>
               (case state_save E (add_attachment a s) w of
                  (w, Inl e) \<Rightarrow> (w, Inl e)
                | (w, Inr _) \<Rightarrow> (w, Inr (show_ipv4 (at_ip a), at_ifname a)))))"

definition net_connect :: "'k cenv \<Rightarrow> string \<Rightarrow> string \<Rightarrow> string option \<Rightarrow> 'k cworld \<Rightarrow> 'k cworld \<times> (string \<times> string) cres" where
  "net_connect E i network static_ip w = locked E w
     (case state_load i w of
        Inl e \<Rightarrow> (w, Inl e)
      | Inr s \<Rightarrow>
          let s = refresh_status w s in
          if cs_status s \<noteq> Running then (w, Inl (BadState i (status_str (cs_status s)) ''network connect''))
          else (case cs_net s of
              None \<Rightarrow> (w, Inl (Other ''container has no managed network''))
            | Some net \<Rightarrow>
                if ns_mode net \<noteq> ''bridge''
                then (w, Inl (Other ''container is not on a bridge network; connect is not applicable''))
                else (case resolve_other E network of
                    Inl e \<Rightarrow> (w, Inl e)
                  | Inr cfg \<Rightarrow>
                      if ns_network net = nc_name cfg \<or> list_ex (\<lambda>a. at_network a = nc_name cfg) (ns_extra net)
                      then (w, Inl (Other (''container is already connected to network '' @ nc_name cfg)))
                      else connect_to E i s net cfg static_ip w)))"

fun remove_first :: "('a \<Rightarrow> bool) \<Rightarrow> 'a list \<Rightarrow> 'a list" where
  "remove_first p [] = []"
| "remove_first p (x # xs) = (if p x then xs else x # remove_first p xs)"

definition net_disconnect :: "'k cenv \<Rightarrow> string \<Rightarrow> string \<Rightarrow> 'k cworld \<Rightarrow> 'k verb" where
  "net_disconnect E i network w = locked E w
     (case state_load i w of
        Inl e \<Rightarrow> (w, Inl e)
      | Inr s \<Rightarrow> (case resolve_other E network of
          Inl e \<Rightarrow> (w, Inl e)
        | Inr cfg \<Rightarrow> (case cs_net s of
            None \<Rightarrow> (w, Inl (Other ''container has no managed network''))
          | Some net \<Rightarrow>
              if ns_network net = nc_name cfg
              then (w, Inl (Other ''can't disconnect the container's primary network; remove the container instead''))
              else if \<not> list_ex (\<lambda>a. at_network a = nc_name cfg) (ns_extra net)
              then (w, Inl (Other (''container is not connected to network '' @ nc_name cfg)))
              else state_save E
                (s\<lparr>cs_net := Some (net\<lparr>ns_extra := remove_first (\<lambda>a. at_network a = nc_name cfg) (ns_extra net)\<rparr>)\<rparr>)
                (free_lease E (nc_name cfg) i w))))"

fun update_first :: "('a \<Rightarrow> bool) \<Rightarrow> ('a \<Rightarrow> 'a) \<Rightarrow> 'a list \<Rightarrow> 'a list" where
  "update_first p f [] = []"
| "update_first p f (x # xs) = (if p x then f x # xs else x # update_first p f xs)"

text \<open>The second half of \<open>net_set_ip\<close>, once the lease is taken.\<close>

definition set_ip_on :: "'k cenv \<Rightarrow> cstate \<Rightarrow> net_cfg \<Rightarrow> ipv4 \<Rightarrow> lease \<Rightarrow> 'k cworld \<Rightarrow> 'k verb" where
  "set_ip_on E s cfg want l w =
     (case cs_net s of
        None \<Rightarrow> (w, Inl (Other ''container has no managed network''))
      | Some net \<Rightarrow>
          if ns_network net = nc_name cfg then
            (case call_backend (ce_net E) (SetIfaceIp (cs_pid s) ''eth0'' (ns_ip net) want) of
               Inl e \<Rightarrow> (w, Inl e)
             | Inr _ \<Rightarrow> state_save E (s\<lparr>cs_net := Some (net\<lparr>ns_ip := Some want, ns_mac := Some (le_mac l)\<rparr>)\<rparr>) w)
          else (case find (\<lambda>a. at_network a = nc_name cfg) (ns_extra net) of
              None \<Rightarrow> (w, Inl (Other (''container is not connected to network '' @ nc_name cfg)))
            | Some a \<Rightarrow>
                (case call_backend (ce_net E) (SetIfaceIp (cs_pid s) (at_ifname a) (Some (at_ip a)) want) of
                   Inl e \<Rightarrow> (w, Inl e)
                 | Inr _ \<Rightarrow> state_save E (s\<lparr>cs_net := Some (net\<lparr>ns_extra :=
                       update_first (\<lambda>a. at_network a = nc_name cfg) (\<lambda>a. a\<lparr>at_ip := want, at_mac := le_mac l\<rparr>)
                         (ns_extra net)\<rparr>)\<rparr>) w)))"

definition net_set_ip :: "'k cenv \<Rightarrow> string \<Rightarrow> string \<Rightarrow> string \<Rightarrow> 'k cworld \<Rightarrow> 'k verb" where
  "net_set_ip E i network ip w = locked E w
     (case state_load i w of
        Inl e \<Rightarrow> (w, Inl e)
      | Inr s \<Rightarrow>
          let s = refresh_status w s in
          if cs_status s \<noteq> Running then (w, Inl (BadState i (status_str (cs_status s)) ''set network ip''))
          else (case resolve_other E network of
              Inl e \<Rightarrow> (w, Inl e)
            | Inr cfg \<Rightarrow> (case parse_want ip of
                Inl e \<Rightarrow> (w, Inl e)
              | Inr want \<Rightarrow>
                  (case on_net (on_ipam (allot (ce_net E) i (cs_pid s) cfg (Some want))) w of
                     (w, Inl e) \<Rightarrow> (w, Inl e)
                   | (w, Inr l) \<Rightarrow> set_ip_on E s cfg want l w))))"

section \<open>The log\<close>

definition logs :: "bool \<Rightarrow> string \<Rightarrow> 'k cworld \<Rightarrow> 'k cworld \<times> string cres" where
  "logs copy_ok i w =
     (if \<not> state_exists i w then (w, Inl (NotFoundC i))
      else let w = rotate_log copy_ok i w in
        (w, case hm_get (cw_dirs w) i of
              Some d \<Rightarrow> Inr (opt_or (cd_rotated d) [] @ cd_log d)
            | None \<Rightarrow> Inl (NotFoundC i)))"

definition POLL_BYTES :: nat where "POLL_BYTES = 2097152"

definition logs_from :: "bool \<Rightarrow> string \<Rightarrow> nat \<Rightarrow> 'k cworld \<Rightarrow> 'k cworld \<times> (string \<times> nat) cres" where
  "logs_from copy_ok i offset w =
     (if \<not> state_exists i w then (w, Inl (NotFoundC i))
      else let w = rotate_log copy_ok i w in
        (w, case hm_get (cw_dirs w) i of
              None \<Rightarrow> Inl (NotFoundC i)
            | Some d \<Rightarrow>
                let len = length (cd_log d); from = (if len < offset then 0 else offset); n = min (len - from) POLL_BYTES
                in Inr (take n (drop from (cd_log d)), from + n)))"

fun rotate_list :: "bool \<Rightarrow> cstate list \<Rightarrow> 'k cworld \<Rightarrow> 'k cworld \<times> nat" where
  "rotate_list copy_ok [] w = (w, 0)"
| "rotate_list copy_ok (s # ss) w =
     (let big = (case hm_get (cw_dirs w) (cs_id s) of Some d \<Rightarrow> LOG_ROTATE_BYTES < length (cd_log d) | None \<Rightarrow> False);
          (w', n) = rotate_list copy_ok ss (if big then rotate_log copy_ok (cs_id s) w else w)
      in (w', if big then n + 1 else n))"

definition rotate_all_logs :: "bool \<Rightarrow> 'k cworld \<Rightarrow> 'k cworld \<times> nat" where
  "rotate_all_logs copy_ok w = rotate_list copy_ok (all_states w) w"

end
