(* ===== verification/Container_Proofs.thy ===== *)
theory Container_Proofs
  imports Container_Ops
begin

text \<open>
  What holds of every reachable state of the runtime: each record is its container's own, a live
  container holds the lease of every address it was given, and so no two of them share one.
\<close>

section \<open>The invariant\<close>

definition record_of :: "'k cworld \<Rightarrow> string \<Rightarrow> cstate option" where
  "record_of w i = (case hm_get (cw_dirs w) i of Some d \<Rightarrow> (case cd_state d of Parsed s \<Rightarrow> Some s | _ \<Rightarrow> None) | None \<Rightarrow> None)"

definition leases_in :: "'k cworld \<Rightarrow> ipam" where "leases_in w = nw_ipam (cw_net w)"

definition live :: "'k cworld \<Rightarrow> cstate \<Rightarrow> bool" where
  "live w s \<longleftrightarrow> cs_status s \<noteq> Stopped \<and> pid_alive (cs_pid s) w"

text \<open>The addresses a receipt names, each with its network.\<close>

definition addresses :: "net_state \<Rightarrow> (string \<times> ipv4) set" where
  "addresses ns = {(ns_network ns, ip) |ip. ns_mode ns = ''bridge'' \<and> ns_ip ns = Some ip} \<union>
     (\<lambda>a. (at_network a, at_ip a)) ` set (ns_extra ns)"

definition holds_leases :: "ipam \<Rightarrow> string \<Rightarrow> net_state option \<Rightarrow> bool" where
  "holds_leases I i net \<longleftrightarrow> (\<forall>ns. net = Some ns \<longrightarrow> (\<forall>(n, ip) \<in> addresses ns. has_lease n i ip I))"

definition receipt_ok :: "net_state option \<Rightarrow> bool" where
  "receipt_ok net \<longleftrightarrow> (\<forall>ns. net = Some ns \<longrightarrow> distinct (ns_network ns # map at_network (ns_extra ns)))"

definition record_ok :: "'k cworld \<Rightarrow> string \<Rightarrow> cstate \<Rightarrow> bool" where
  "record_ok w i s \<longleftrightarrow> cs_id s = i \<and> cs_cgroup s = default_cgroup i \<and> receipt_ok (cs_net s) \<and>
     (\<forall>p. hm_get (cw_procs w) (cs_pid s) = Some p \<longrightarrow> pr_cgroup p = default_cgroup i) \<and>
     (live w s \<longrightarrow> holds_leases (leases_in w) i (cs_net s)) \<and>
     (sm_paused (cs_meta s) \<longrightarrow> cs_status s \<noteq> Created) \<and>
     (sm_stopped_by_user (cs_meta s) \<longrightarrow> cs_status s = Stopped)"

definition world_ok :: "'k cworld \<Rightarrow> bool" where
  "world_ok w \<longleftrightarrow> hm_ok (cw_dirs w) \<and> hm_ok (cw_procs w) \<and> (\<forall>n. leases_ok (ipam_leases n (leases_in w))) \<and>
     (\<forall>i s. record_of w i = Some s \<longrightarrow> record_ok w i s)"

text \<open>What a verb on one container may do to the rest.\<close>

definition own_step :: "string \<Rightarrow> 'k cworld \<Rightarrow> 'k cworld \<Rightarrow> bool" where
  "own_step i w w' \<longleftrightarrow>
     (hm_ok (cw_dirs w) \<longrightarrow> hm_ok (cw_dirs w')) \<and>
     own_change i (leases_in w) (leases_in w') \<and> (\<forall>j. j \<noteq> i \<longrightarrow> record_of w' j = record_of w j) \<and>
     (hm_ok (cw_procs w) \<longrightarrow> hm_ok (cw_procs w') \<and>
       (\<forall>j s. j \<noteq> i \<longrightarrow> record_of w j = Some s \<longrightarrow>
          (\<forall>p. hm_get (cw_procs w') (cs_pid s) = Some p \<longrightarrow>
             (\<exists>q. hm_get (cw_procs w) (cs_pid s) = Some q \<and> pr_cgroup q = pr_cgroup p))))"

lemma own_step_refl: "own_step i w w"
  by (simp add: own_step_def own_change_refl)

lemma own_step_trans: "own_step i w v \<Longrightarrow> own_step i v u \<Longrightarrow> own_step i w u"
  unfolding own_step_def by (auto intro: own_change_trans) (metis (no_types, lifting))+

lemma record_ok_other:
  assumes "own_step i w w'" and "j \<noteq> i" and "record_of w j = Some s" and "record_ok w j s" and "hm_ok (cw_procs w)"
  shows "record_ok w' j s"
proof -
  from assms(1-3,5) have p: "\<forall>p. hm_get (cw_procs w') (cs_pid s) = Some p \<longrightarrow>
      (\<exists>q. hm_get (cw_procs w) (cs_pid s) = Some q \<and> pr_cgroup q = pr_cgroup p)"
    unfolding own_step_def by blast
  have "has_lease n j ip (leases_in w') \<longleftrightarrow> has_lease n j ip (leases_in w)" for n ip
    using assms(1,2) by (intro own_change_lease [of i]) (auto simp: own_step_def)
  then have "holds_leases (leases_in w') j (cs_net s) \<longleftrightarrow> holds_leases (leases_in w) j (cs_net s)"
    by (simp add: holds_leases_def)
  with p assms(4) show ?thesis by (auto simp: record_ok_def live_def pid_alive_def)
qed

lemma world_ok_step:
  assumes "world_ok w" and "own_step i w w'" and "\<And>s. record_of w' i = Some s \<Longrightarrow> record_ok w' i s"
  shows "world_ok w'"
  unfolding world_ok_def
proof (intro conjI allI impI)
  show "hm_ok (cw_dirs w')" "hm_ok (cw_procs w')" using assms(1,2) by (auto simp: world_ok_def own_step_def)
  show "leases_ok (ipam_leases n (leases_in w'))" for n
    using assms(1,2) by (auto simp: world_ok_def own_step_def own_change_def)
  fix j s assume r: "record_of w' j = Some s"
  show "record_ok w' j s"
  proof (cases "j = i")
    case True
    with assms(3) r show ?thesis by simp
  next
    case False
    with r assms(1,2) have "record_of w j = Some s" "record_ok w j s" by (auto simp: own_step_def world_ok_def)
    with record_ok_other [OF assms(2) False] assms(1) show ?thesis by (auto simp: world_ok_def)
  qed
qed

section \<open>Small steps\<close>

named_theorems own_steps "changes that concern one container"

lemma load_record: "state_load i w = Inr s \<longleftrightarrow> record_of w i = Some s"
  by (auto simp: state_load_def record_of_def split: option.splits manifest.splits)

lemma exists_record: "\<not> state_exists i w \<Longrightarrow> record_of w i = None"
  by (auto simp: state_exists_def record_of_def split: option.splits manifest.splits)

lemma own_kill_pid [own_steps]: "own_step i w (kill_pid pid w)"
  by (auto simp: own_step_def kill_pid_def own_change_refl leases_in_def record_of_def hm_simps hm_ok_remove hm_ok_retain hm_ok_insert)

lemma own_kill_all [own_steps]: "own_step i w (kill_all cg w)"
  by (auto simp: own_step_def kill_all_def own_change_refl leases_in_def record_of_def hm_simps hm_ok_remove hm_ok_retain hm_ok_insert
      split: option.splits)

lemma own_make_dir [own_steps]: "own_step i w (make_dir i w)"
  by (auto simp: own_step_def make_dir_def own_change_refl leases_in_def record_of_def hm_simps hm_ok_remove hm_ok_retain hm_ok_insert
      split: option.splits)

lemma own_remove_dir [own_steps]: "own_step i w (remove_dir i w)"
  by (auto simp: own_step_def remove_dir_def own_change_refl leases_in_def record_of_def hm_simps hm_ok_remove hm_ok_retain hm_ok_insert)

lemma own_save [own_steps]: "cs_id s = i \<Longrightarrow> own_step i w (fst (state_save E s w))"
  by (auto simp: own_step_def state_save_def own_change_refl leases_in_def record_of_def hm_simps hm_ok_remove hm_ok_retain hm_ok_insert
      split: option.splits)

lemma own_rotate [own_steps]: "own_step i w (rotate_log ok i w)"
  by (auto simp: own_step_def rotate_log_def own_change_refl leases_in_def record_of_def hm_simps hm_ok_remove hm_ok_retain hm_ok_insert
      split: option.splits)

lemma own_bundles [own_steps]: "own_step i w (w\<lparr>cw_bundles := B\<rparr>)"
  by (simp add: own_step_def own_change_refl leases_in_def record_of_def)

lemma own_net: "own_change i (leases_in w) (nw_ipam nw) \<Longrightarrow> own_step i w (w\<lparr>cw_net := nw\<rparr>)"
  by (simp add: own_step_def leases_in_def record_of_def)

lemma own_teardown [own_steps]: "own_step i w (net_teardown E i net w)"
  by (auto simp: net_teardown_def own_step_refl leases_in_def intro!: own_net teardown_own split: option.splits)

lemma own_spawn:
  assumes "\<And>j s. record_of w j = Some s \<Longrightarrow> j \<noteq> i \<Longrightarrow> cs_pid s \<noteq> pid"
  shows "own_step i w (w\<lparr>cw_procs := hm_insert pid p (cw_procs w)\<rparr>)"
  using assms by (auto simp: own_step_def own_change_refl leases_in_def record_of_def hm_simps hm_ok_remove hm_ok_retain hm_ok_insert)

section \<open>What each part leaves\<close>

lemma record_simps [simp]:
  "record_of (kill_pid pid w) i = record_of w i" "record_of (kill_all cg w) i = record_of w i"
  "record_of (net_teardown E j net w) i = record_of w i" "record_of (w\<lparr>cw_net := nw\<rparr>) i = record_of w i"
  "record_of (w\<lparr>cw_bundles := B\<rparr>) i = record_of w i" "record_of (w\<lparr>cw_procs := P\<rparr>) i = record_of w i"
  "record_of (remove_dir j w) i = (if i = j then None else record_of w i)"
  "record_of (make_dir j w) i = record_of w i" "record_of (rotate_log ok j w) i = record_of w i"
  by (auto simp: record_of_def kill_pid_def kill_all_def net_teardown_def remove_dir_def make_dir_def rotate_log_def
      rotate_dir_def hm_simps split: option.splits)

lemma procs_simps [simp]:
  "cw_procs (net_teardown E j net w) = cw_procs w" "cw_procs (remove_dir j w) = cw_procs w"
  "cw_procs (make_dir j w) = cw_procs w" "cw_procs (rotate_log ok j w) = cw_procs w"
  "cw_procs (kill_pid pid w) = hm_remove pid (cw_procs w)"
  "cw_procs (kill_all cg w) = hm_retain (\<lambda>_ p. pr_cgroup p \<noteq> cg) (cw_procs w)"
  by (auto simp: net_teardown_def remove_dir_def make_dir_def rotate_log_def kill_pid_def kill_all_def split: option.splits)

lemma net_simps [simp]:
  "cw_net (remove_dir j w) = cw_net w" "cw_net (make_dir j w) = cw_net w" "cw_net (rotate_log ok j w) = cw_net w"
  "cw_net (kill_pid pid w) = cw_net w" "cw_net (kill_all cg w) = cw_net w"
  by (auto simp: remove_dir_def make_dir_def rotate_log_def kill_pid_def kill_all_def split: option.splits)

lemma save_cases:
  assumes "state_save E s w = (w', r)"
  obtains "r = Inr ()" "record_of w' (cs_id s) = Some s" "cw_procs w' = cw_procs w" "cw_net w' = cw_net w"
      "hm_get (cw_dirs w) (cs_id s) \<noteq> None"
  | "\<not> is_Ok r" "w' = w"
  using assms by (auto simp: state_save_def record_of_def hm_simps split: option.splits if_splits)

lemma own_saved: "state_save E s w = (w', r) \<Longrightarrow> cs_id s = i \<Longrightarrow> own_step i w w'"
  using own_save [of s i w E] by simp

definition fresh_pid :: "'k cenv \<Rightarrow> 'k cworld \<Rightarrow> bool" where
  "fresh_pid E w \<longleftrightarrow> (\<forall>j s. record_of w j = Some s \<longrightarrow> cs_pid s \<noteq> ce_pid E)"

lemma apply_holds:
  assumes "apply_net E K R i pid ann nw = (nw', Inr net)"
  shows "holds_leases (nw_ipam nw') i net" and "receipt_ok net"
  using apply_own [OF assms] by (auto simp: holds_leases_def addresses_def receipt_ok_def)

lemma create_inner_ok:
  assumes "create_inner E i bundle ann meta w = (w', r)" and "fresh_pid E w" and "record_of w i = None"
  shows "own_step i w w' \<and> (case r of Inl _ \<Rightarrow> record_of w' i = None
    | Inr _ \<Rightarrow> \<exists>net. record_of w' i = Some ((new_state i (ce_pid E) bundle (default_cgroup i) (ce_now E))\<lparr>cs_net := net, cs_meta := meta\<rparr>) \<and>
        holds_leases (leases_in w') i net \<and> receipt_ok net \<and>
        hm_get (cw_procs w') (ce_pid E) = Some \<lparr>pr_cgroup = default_cgroup i, pr_parked = True\<rparr>)"
proof (cases "ce_setup E = None \<and> ce_add_pid E")
  case False
  with assms(1,3) show ?thesis by (auto simp: create_inner_def own_step_refl split: option.splits)
next
  case True
  define w1 where "w1 = w\<lparr>cw_procs := hm_insert (ce_pid E) \<lparr>pr_cgroup = default_cgroup i, pr_parked = True\<rparr> (cw_procs w)\<rparr>"
  have o1: "own_step i w w1"
    unfolding w1_def by (rule own_spawn) (use assms(2) in \<open>simp add: fresh_pid_def\<close>)
  have p1: "hm_get (cw_procs w1) (ce_pid E) = Some \<lparr>pr_cgroup = default_cgroup i, pr_parked = True\<rparr>" "record_of w1 i = None"
    using assms(3) by (simp_all add: w1_def hm_simps)
  obtain nw x where a: "apply_net (ce_net E) (ce_nft E) (ce_reg E) i (ce_pid E) ann (cw_net w1) = (nw, x)" by fastforce
  define w2 where "w2 = w1\<lparr>cw_net := nw\<rparr>"
  have o2: "own_step i w1 w2"
    unfolding w2_def by (rule own_net) (use apply_own [OF a] in \<open>simp add: leases_in_def\<close>)
  note o12 = own_step_trans [OF o1 o2]
  note e = assms(1) [unfolded create_inner_def Let_def, folded w1_def]
  show ?thesis
  proof (cases x)
    case (Inl err)
    with e a True have "w' = kill_pid (ce_pid E) w2" "r = Inl err" by (simp_all add: w2_def)
    with o12 p1 show ?thesis by (auto simp: w2_def intro: own_step_trans own_kill_pid)
  next
    case (Inr net)
    let ?s = "(new_state i (ce_pid E) bundle (default_cgroup i) (ce_now E))\<lparr>cs_net := net, cs_meta := meta\<rparr>"
    show ?thesis
    proof (cases "ce_release E")
      case False
      with e a True Inr have "w' = kill_pid (ce_pid E) w2" "r = Inl IoError" by (simp_all add: w2_def)
      with o12 p1 show ?thesis by (auto simp: w2_def intro: own_step_trans own_kill_pid)
    next
      case rel: True
      obtain w3 y where s: "state_save E ?s w2 = (w3, y)" by fastforce
      have id: "cs_id ?s = i" by (simp add: new_state_def)
      note o3 = own_step_trans [OF o12 own_saved [OF s id]]
      have h: "holds_leases (leases_in w2) i net" "receipt_ok net"
        using apply_holds a unfolding Inr by (auto simp: w2_def leases_in_def)
      have pr: "cw_procs w2 = cw_procs w1" "record_of w2 i = None" using p1 by (simp_all add: w2_def)
      from s show ?thesis
      proof (cases rule: save_cases)
        case 1
        with e a True Inr rel s have "w' = w3" "r = Inr ()" by (simp_all add: w2_def)
        with 1 o3 h p1 pr id show ?thesis by (auto simp: leases_in_def)
      next
        case 2
        with e a True Inr rel s obtain err where "w' = kill_pid (ce_pid E) (net_teardown E i net w2)" "r = Inl err"
          by (cases y) (auto simp: w2_def)
        with own_step_trans [OF own_step_trans [OF o12 own_teardown] own_kill_pid] pr show ?thesis by auto
      qed
    qed
  qed
qed

section \<open>The verbs keep the invariant\<close>

definition plain_meta :: "state_meta \<Rightarrow> bool" where
  "plain_meta m \<longleftrightarrow> \<not> sm_paused m \<and> \<not> sm_stopped_by_user m"

lemma world_ok_record: "world_ok w \<Longrightarrow> record_of w i = Some s \<Longrightarrow> record_ok w i s"
  by (simp add: world_ok_def)

lemma record_id: "world_ok w \<Longrightarrow> record_of w i = Some s \<Longrightarrow> cs_id s = i"
  using world_ok_record by (auto simp: record_ok_def)

lemma create_with_meta_ok:
  assumes "create_with_meta E i bundle meta w = (w', r)" and "fresh_pid E w" and "plain_meta meta"
  shows "own_step i w w' \<and> (\<forall>s. r = Inr () \<longrightarrow> record_of w' i = Some s \<longrightarrow> record_ok w' i s \<and> cs_status s = Created) \<and>
    (r \<noteq> Inr () \<longrightarrow> w' = w \<or> record_of w' i = None)"
proof (cases "state_exists i w \<or> cw_bundles w bundle = None")
  case True
  with assms(1) show ?thesis by (auto simp: create_with_meta_def own_step_refl split: if_splits option.splits)
next
  case False
  then obtain ann where ann: "cw_bundles w bundle = Some ann" "record_of w i = None" using exists_record by auto
  obtain w1 x where c: "create_inner E i bundle ann meta (make_dir i w) = (w1, x)" by fastforce
  have "fresh_pid E (make_dir i w)" "record_of (make_dir i w) i = None" using assms(2) ann by (simp_all add: fresh_pid_def)
  note ci = create_inner_ok [OF c this]
  have o: "own_step i w w1" using own_step_trans [OF own_make_dir] ci by blast
  have e: "(w', r) = (case x of Inl e \<Rightarrow> (remove_dir i w1, Inl e) | Inr _ \<Rightarrow> (w1, Inr ()))"
    using assms(1) False ann c by (auto simp: create_with_meta_def split: sum.splits)
  show ?thesis
  proof (cases x)
    case (Inl err)
    with e o show ?thesis by (auto intro: own_step_trans own_remove_dir)
  next
    case (Inr u)
    with ci obtain net where n: "record_of w1 i = Some ((new_state i (ce_pid E) bundle (default_cgroup i) (ce_now E))\<lparr>cs_net := net, cs_meta := meta\<rparr>)"
      "holds_leases (leases_in w1) i net" "receipt_ok net" "hm_get (cw_procs w1) (ce_pid E) = Some \<lparr>pr_cgroup = default_cgroup i, pr_parked = True\<rparr>"
      by auto
    with e Inr o assms(3) show ?thesis
      by (auto simp: record_ok_def new_state_def plain_meta_def)
  qed
qed

lemma create_ok:
  assumes "world_ok w" and "create_with_meta E i bundle meta w = (w', r)" and "fresh_pid E w" and "plain_meta meta"
  shows "world_ok w'"
proof (cases "w' = w")
  case False
  note c = create_with_meta_ok [OF assms(2-4)]
  show ?thesis
    by (rule world_ok_step [OF assms(1)]) (use c False in auto)
qed (use assms(1) in simp)

lemma start_locked_ok:
  assumes "world_ok w" and "start_locked E i w = Some (w', r)"
  shows "world_ok w' \<and> own_step i w w'"
proof (cases "w' = w")
  case False
  from assms(2) False obtain s p where s: "record_of w i = Some s" "cs_status s = Created"
    and p: "hm_get (cw_procs w) (cs_pid s) = Some p"
    and sv: "state_save E (s\<lparr>cs_status := Running, cs_meta := (cs_meta s)
          \<lparr>sm_started_at := Some (ce_now E), sm_finished_at := None, sm_oom_killed := False\<rparr>\<rparr>)
        (w\<lparr>cw_procs := hm_insert (cs_pid s) (p\<lparr>pr_parked := False\<rparr>) (cw_procs w)\<rparr>) = (w', r)"
    by (auto simp: start_locked_def load_record split: sum.splits if_splits option.splits)
  let ?w = "w\<lparr>cw_procs := hm_insert (cs_pid s) (p\<lparr>pr_parked := False\<rparr>) (cw_procs w)\<rparr>"
  have ok: "record_ok w i s" using world_ok_record [OF assms(1) s(1)] .
  then have id: "cs_id s = i" by (simp add: record_ok_def)
  have o1: "own_step i w ?w"
    using p by (auto simp: own_step_def own_change_refl leases_in_def hm_simps hm_ok_insert)
  have o: "own_step i w w'" by (rule own_step_trans [OF o1 own_saved [OF sv]]) (simp add: id)
  have okw: "record_ok ?w i s" using ok p by (auto simp: record_ok_def live_def pid_alive_def leases_in_def hm_simps)
  from sv have "\<And>t. record_of w' i = Some t \<Longrightarrow> record_ok w' i t"
  proof (cases rule: save_cases)
    case 1
    with id okw s(2) show "record_of w' i = Some t \<Longrightarrow> record_ok w' i t" for t
      by (auto simp: record_ok_def live_def pid_alive_def leases_in_def)
  next
    case 2
    with okw s(1) show "record_of w' i = Some t \<Longrightarrow> record_ok w' i t" for t by simp
  qed
  with world_ok_step [OF assms(1) o] o show ?thesis by simp
qed (use assms(1) own_step_refl in simp)

text \<open>A verb that stores a changed record of its container, after changes that concern only it.\<close>

lemma save_ok:
  assumes "world_ok w" and "own_step i w v" and "state_save E t v = (w', r)" and "cs_id t = i"
    and "record_ok v i t" and "\<And>s. record_of v i = Some s \<Longrightarrow> record_ok v i s"
  shows "world_ok w' \<and> own_step i w w'"
proof -
  have o: "own_step i w w'" by (rule own_step_trans [OF assms(2) own_saved [OF assms(3,4)]])
  from assms(3) have "record_ok w' i s" if "record_of w' i = Some s" for s
    using that assms(4-6)
    by (cases rule: save_cases) (auto simp: record_ok_def live_def pid_alive_def leases_in_def)
  with world_ok_step [OF assms(1) o] o show ?thesis by blast
qed

lemma record_ok_dead:
  assumes "record_ok w i s" and "hm_get (cw_procs v) (cs_pid s) = None"
  shows "record_ok v i s"
  using assms by (auto simp: record_ok_def live_def pid_alive_def)

lemma refresh_ok: "record_ok w i s \<Longrightarrow> record_ok w i (refresh_status w s)"
  by (auto simp: record_ok_def refresh_status_def live_def)

lemma refresh_running:
  assumes "cs_status (refresh_status w s) = Running"
  shows "refresh_status w s = s" and "cs_status s = Running" and "pid_alive (cs_pid s) w"
  using assms by (auto simp: refresh_status_def split: if_splits)

text \<open>A verb that needs a running container.\<close>

lemma running_cases:
  assumes "locked E w (case state_load i w of Inl e \<Rightarrow> (w, Inl e) | Inr s \<Rightarrow>
      if cs_status (refresh_status w s) \<noteq> Running then (w, g s) else F (refresh_status w s)) = (w', r)"
  obtains "w' = w" | s where "record_of w i = Some s" "cs_status (refresh_status w s) = Running" "ce_lock E" "F s = (w', r)"
proof (cases "state_load i w")
  case (Inl e)
  with assms that(1) show ?thesis by (auto simp: locked_def split: if_splits)
next
  case (Inr s)
  show ?thesis
  proof (cases "cs_status (refresh_status w s) = Running \<and> ce_lock E")
    case True
    note rs = refresh_running(1) [OF conjunct1 [OF True]]
    from assms True have "F s = (w', r)" unfolding Inr sum.case rs by (simp add: locked_def)
    with Inr True that(2) show ?thesis by (simp add: load_record)
  next
    case False
    with Inr assms that(1) show ?thesis by (auto simp: locked_def split: if_splits)
  qed
qed

lemma pid_dead_after_kill:
  assumes "world_ok w" and "record_of w i = Some s"
  shows "hm_get (cw_procs (kill_all (cs_cgroup s) w)) (cs_pid s) = None"
    and "hm_get (cw_procs (kill_all (cs_cgroup s) (kill_pid (cs_pid s) w))) (cs_pid s) = None"
proof -
  have "record_ok w i s" "hm_ok (cw_procs w)" using assms by (auto simp: world_ok_def)
  then show "hm_get (cw_procs (kill_all (cs_cgroup s) w)) (cs_pid s) = None"
    "hm_get (cw_procs (kill_all (cs_cgroup s) (kill_pid (cs_pid s) w))) (cs_pid s) = None"
    by (auto simp: record_ok_def hm_simps hm_ok_remove split: option.splits)
qed

text \<open>Storing a stopped record once its process is gone.\<close>

lemma stopped_save_ok:
  assumes "world_ok w" and "record_of w i = Some s" and "own_step i w v" and "record_of v i = Some s"
    and "hm_get (cw_procs v) (cs_pid s) = None" and "state_save E t v = (w', r)"
    and "cs_status t = Stopped" and "cs_id t = i" and "cs_cgroup t = cs_cgroup s" and "cs_pid t = cs_pid s"
    and "\<not> sm_paused (cs_meta t)" and "cs_net t = cs_net s"
  shows "world_ok w' \<and> own_step i w w'"
proof (rule save_ok [OF assms(1,3,6,8)])
  have ok: "record_ok w i s" by (rule world_ok_record [OF assms(1,2)])
  then show "record_ok v i t" using assms(5,7-12) by (auto simp: record_ok_def live_def pid_alive_def)
  show "record_ok v i u" if "record_of v i = Some u" for u
    using that assms(4) record_ok_dead [OF ok assms(5)] by simp
qed

text \<open>The processes \<open>stop\<close> leaves.\<close>

definition stop_procs :: "'k cenv \<Rightarrow> cstate \<Rightarrow> 'k cworld \<Rightarrow> 'k cworld" where
  "stop_procs E s w = (let v = (if ce_term_exits E then kill_pid (cs_pid s) w else w)
     in if pid_alive (cs_pid s) v then kill_all (cs_cgroup s) v else v)"

lemma record_stop_procs [simp]: "record_of (stop_procs E s w) i = record_of w i"
  by (simp add: stop_procs_def Let_def)

lemma stop_cases:
  assumes "stop E i w = (w', r)"
  obtains "w' = w" | s where "record_of w i = Some s" "cs_status (refresh_status w s) = Running"
    "state_save E (stopped_record E s) (net_teardown E i (cs_net s) (stop_procs E s w)) = (w', r)"
  using assms unfolding stop_def Let_def
  by (rule running_cases) (use that in \<open>auto simp: stop_procs_def Let_def\<close>)

lemma stop_ok:
  assumes "world_ok w" and "stop E i w = (w', r)"
  shows "world_ok w' \<and> own_step i w w'"
  using assms(2)
proof (cases rule: stop_cases)
  case 1
  with assms(1) own_step_refl show ?thesis by simp
next
  case (2 s)
  have o: "own_step i w (stop_procs E s w)"
    by (auto simp: stop_procs_def Let_def
        intro: own_step_trans [OF own_kill_pid own_kill_all] own_kill_all own_kill_pid own_step_refl)
  have d: "hm_get (cw_procs (stop_procs E s w)) (cs_pid s) = None"
    using pid_dead_after_kill [OF assms(1) 2(1)] by (auto simp: stop_procs_def Let_def pid_alive_def hm_simps)
  have ru: "record_of (stop_procs E s w) i = Some s" using 2(1) by (simp add: stop_procs_def Let_def)
  have id: "cs_id s = i" by (rule record_id [OF assms(1) 2(1)])
  show ?thesis
    by (rule stopped_save_ok [OF assms(1) 2(1) own_step_trans [OF o own_teardown] _ _ 2(3)])
      (use ru d id in \<open>simp_all add: stopped_record_def\<close>)
qed

lemma kill_now_cases:
  assumes "kill_now E i w = (w', r)"
  obtains "w' = w" | s where "record_of w i = Some s" "cs_status (refresh_status w s) = Running"
    "state_save E (stopped_record E s) (net_teardown E i (cs_net s) (kill_all (cs_cgroup s) w)) = (w', r)"
  using assms unfolding kill_now_def Let_def
  by (rule running_cases) (use that in auto)

lemma kill_now_ok:
  assumes "world_ok w" and "kill_now E i w = (w', r)"
  shows "world_ok w' \<and> own_step i w w'"
  using assms(2)
proof (cases rule: kill_now_cases)
  case (2 s)
  have id: "cs_id s = i" by (rule record_id [OF assms(1) 2(1)])
  show ?thesis
    by (rule stopped_save_ok [OF assms(1) 2(1) own_step_trans [OF own_kill_all own_teardown] _ _ 2(3)])
      (use 2(1) id pid_dead_after_kill(1) [OF assms(1) 2(1)] in \<open>simp_all add: stopped_record_def\<close>)
qed (use assms(1) own_step_refl in simp)

lemma pause_cases:
  assumes "pause E i w = (w', r)"
  obtains "w' = w" | s where "record_of w i = Some s" "cs_status (refresh_status w s) = Running"
    "state_save E (s\<lparr>cs_meta := (cs_meta s)\<lparr>sm_paused := True\<rparr>\<rparr>) w = (w', r)"
  using assms unfolding pause_def Let_def
  by (rule running_cases) (use that in \<open>auto split: if_splits\<close>)

lemma pause_ok:
  assumes "world_ok w" and "pause E i w = (w', r)"
  shows "world_ok w' \<and> own_step i w w'"
  using assms(2)
proof (cases rule: pause_cases)
  case (2 s)
  have ok: "record_ok w i s" by (rule world_ok_record [OF assms(1) 2(1)])
  show ?thesis
    by (rule save_ok [OF assms(1) own_step_refl 2(3)])
      (use ok 2(1) refresh_running [OF 2(2)] in \<open>auto simp: record_ok_def live_def\<close>)
qed (use assms(1) own_step_refl in simp)

lemma unpause_ok:
  assumes "world_ok w" and "unpause E i w = (w', r)"
  shows "world_ok w' \<and> own_step i w w'"
proof (cases "w' = w")
  case False
  from assms(2) False obtain s where s: "record_of w i = Some s"
    and e: "state_save E ((refresh_status w s)\<lparr>cs_meta := (cs_meta (refresh_status w s))\<lparr>sm_paused := False\<rparr>\<rparr>) w = (w', r)"
    by (auto simp: unpause_def locked_def load_record Let_def split: sum.splits if_splits)
  have ok: "record_ok w i s" by (rule world_ok_record [OF assms(1) s])
  show ?thesis
    by (rule save_ok [OF assms(1) own_step_refl e])
      (use ok s in \<open>auto simp: record_ok_def live_def refresh_status_def\<close>)
qed (use assms(1) own_step_refl in simp)

lemma rerun_locked_ok:
  assumes "world_ok w" and "fresh_pid E w" and "rerun_locked E i w = Some (w', r)"
  shows "world_ok w' \<and> own_step i w w'"
proof (cases "w' = w")
  case False
  from assms(3) False obtain s where s: "record_of w i = Some s"
    and e: "(case create_with_meta E i (cs_bundle s) ((cs_meta s)\<lparr>sm_paused := False, sm_stopped_by_user := False\<rparr>)
        (remove_dir i (net_teardown E i (cs_net s) w)) of (w, Inl e) \<Rightarrow> Some (w, Inl e) | (w, Inr _) \<Rightarrow> start_locked E i w) = Some (w', r)"
    by (auto simp: rerun_locked_def load_record Let_def split: sum.splits if_splits)
  let ?v = "remove_dir i (net_teardown E i (cs_net s) w)"
  have o: "own_step i w ?v" by (rule own_step_trans [OF own_teardown own_remove_dir])
  have v: "world_ok ?v" by (rule world_ok_step [OF assms(1) o]) simp
  have f: "fresh_pid E ?v" using assms(2) by (simp add: fresh_pid_def)
  obtain u x where c: "create_with_meta E i (cs_bundle s) ((cs_meta s)\<lparr>sm_paused := False, sm_stopped_by_user := False\<rparr>) ?v = (u, x)"
    by fastforce
  have m: "plain_meta ((cs_meta s)\<lparr>sm_paused := False, sm_stopped_by_user := False\<rparr>)" by (simp add: plain_meta_def)
  have u: "world_ok u" by (rule create_ok [OF v c f m])
  have o2: "own_step i w u" using own_step_trans [OF o] create_with_meta_ok [OF c f m] by blast
  show ?thesis
  proof (cases x)
    case (Inl err)
    with e c u o2 show ?thesis by simp
  next
    case (Inr z)
    with e c have "start_locked E i u = Some (w', r)" by simp
    from start_locked_ok [OF u this] o2 show ?thesis by (blast intro: own_step_trans)
  qed
qed (use assms(1) own_step_refl in simp)

lemma start_ok: "world_ok w \<Longrightarrow> start E i w = Some (w', r) \<Longrightarrow> world_ok w' \<and> own_step i w w'"
  by (auto simp: start_def own_step_refl dest: start_locked_ok split: if_splits)

lemma rerun_ok: "world_ok w \<Longrightarrow> fresh_pid E w \<Longrightarrow> rerun E i w = Some (w', r) \<Longrightarrow> world_ok w' \<and> own_step i w w'"
  by (auto simp: rerun_def own_step_refl dest: rerun_locked_ok split: if_splits)

lemma start_or_rerun_ok:
  "world_ok w \<Longrightarrow> fresh_pid E w \<Longrightarrow> start_or_rerun E i w = Some (w', r) \<Longrightarrow> world_ok w' \<and> own_step i w w'"
  by (auto simp: start_or_rerun_def own_step_refl dest: start_ok rerun_ok split: sum.splits status.splits)

text \<open>A change of one container keeps a process number fresh when it keeps that of the container.\<close>

lemma stop_pids:
  assumes "stop E i w = (w', r)" and "record_of w' i = Some t" and "world_ok w"
  shows "\<exists>s. record_of w i = Some s \<and> cs_pid s = cs_pid t"
  using assms(1)
proof (cases rule: stop_cases)
  case (2 s)
  have id: "cs_id s = i" by (rule record_id [OF assms(3) 2(1)])
  from 2(3) show ?thesis
  proof (cases rule: save_cases)
    case 1
    with 2(1) id assms(2) show ?thesis by (auto simp: stopped_record_def)
  next
    case 2: 2
    with assms(2) \<open>record_of w i = Some s\<close> show ?thesis by simp
  qed
qed (use assms(2) in auto)

lemma restart_ok:
  assumes "world_ok w" and "fresh_pid E w" and "restart E i w = Some (w', r)"
  shows "world_ok w' \<and> own_step i w w'"
proof -
  obtain v x where st: "stop E i w = (v, x)" by fastforce
  note so = stop_ok [OF assms(1) st]
  have f: "fresh_pid E v"
    unfolding fresh_pid_def
  proof (intro allI impI)
    fix j t assume t: "record_of v j = Some t"
    show "cs_pid t \<noteq> ce_pid E"
    proof (cases "j = i")
      case True
      with stop_pids [OF st _ assms(1)] t assms(2) show ?thesis by (fastforce simp: fresh_pid_def)
    next
      case False
      with so t assms(2) show ?thesis by (auto simp: own_step_def fresh_pid_def)
    qed
  qed
  from assms(3) st show ?thesis
    using start_ok [OF assms(1)] rerun_ok [OF assms(1,2)] rerun_ok [of v E, OF _ f] so assms(1)
    by (auto simp: restart_def own_step_refl intro: own_step_trans split: sum.splits status.splits)
qed

lemma delete_ok:
  assumes "world_ok w" and "delete E i force w = (w', r)"
  shows "world_ok w' \<and> own_step i w w'"
proof (cases "w' = w")
  case False
  with assms(2) obtain s where s: "record_of w i = Some s"
    by (auto simp: delete_def load_record split: sum.splits)
  let ?t = "refresh_status w s"
  have t: "cs_pid ?t = cs_pid s" "cs_cgroup ?t = cs_cgroup s" "cs_net ?t = cs_net s" by (simp_all add: refresh_status_def)
  let ?u = "net_teardown E i (cs_net s) (kill_all (cs_cgroup s) w)"
  have o: "own_step i w ?u" by (rule own_step_trans [OF own_kill_all own_teardown])
  have l: "state_load i w = Inr s" using s by (simp add: load_record)
  have "w' = ?u \<or> w' = remove_dir i ?u \<or> (\<exists>B. w' = remove_dir i (?u\<lparr>cw_bundles := B\<rparr>))"
    using assms(2) False unfolding delete_def l Let_def t sum.case by (auto split: if_splits)
  moreover have "own_step i w (remove_dir i ?u)" "own_step i w (remove_dir i (?u\<lparr>cw_bundles := B\<rparr>))" for B
    using own_step_trans [OF o own_remove_dir] own_step_trans [OF own_step_trans [OF o own_bundles] own_remove_dir] by blast+
  ultimately have o': "own_step i w w'" using o by auto
  have "record_ok w' i x" if "record_of w' i = Some x" for x
  proof -
    have "x = s" "w' = ?u"
      using \<open>w' = ?u \<or> _\<close> that s by auto
    moreover have "record_ok ?u i s"
      by (rule record_ok_dead [OF world_ok_record [OF assms(1) s]])
        (use pid_dead_after_kill(1) [OF assms(1) s] in simp)
    ultimately show ?thesis by simp
  qed
  with world_ok_step [OF assms(1) o'] o' show ?thesis by blast
qed (use assms(1) own_step_refl in simp)

lemma rotate_ok: "world_ok w \<Longrightarrow> world_ok (rotate_log c i w)"
proof (rule world_ok_step [OF _ own_rotate])
  assume w: "world_ok w"
  fix s assume s: "record_of (rotate_log c i w) i = Some s"
  then have "record_ok w i s" using world_ok_record [OF w] by simp
  then show "record_ok (rotate_log c i w) i s" by (auto simp: record_ok_def live_def pid_alive_def leases_in_def)
qed

lemma reap_ok:
  assumes "world_ok w" and "reap E i pid st w = (w', nx)"
  shows "world_ok w' \<and> own_step i w w'"
proof (cases "w' = w")
  case False
  with assms(2) obtain s code where s: "record_of w i = Some s" "cs_pid s = pid"
    and e: "(let t = exit_record E code s; v = rotate_log (ce_copy E) i (fst (state_save E t w)) in
        if sm_auto_remove (cs_meta t) then (fst (delete E i True v), Reap_done)
        else if should_restart (opt_or (sm_restart_policy (cs_meta t)) []) code (sm_restart_count (cs_meta t)) (sm_stopped_by_user (cs_meta t))
        then (v, Reap_restart (restart_backoff (sm_restart_count (cs_meta t)))) else (v, Reap_done)) = (w', nx)"
    by (auto simp: reap_def load_record split: wait_status.splits sum.splits if_splits)
  obtain u r where sv: "state_save E (exit_record E code s) w = (u, r)" by fastforce
  have ok: "record_ok w i s" by (rule world_ok_record [OF assms(1) s(1)])
  then have id: "cs_id s = i" by (simp add: record_ok_def)
  have u: "world_ok u \<and> own_step i w u"
    by (rule save_ok [OF assms(1) own_step_refl sv])
      (use ok s(1) id in \<open>auto simp: record_ok_def exit_record_def live_def\<close>)
  let ?v = "rotate_log (ce_copy E) i u"
  have v: "world_ok ?v" "own_step i w ?v" using u rotate_ok own_rotate own_step_trans by blast+
  have "w' = ?v \<or> w' = fst (delete E i True ?v)"
    using e sv by (auto simp: Let_def split: if_splits)
  then show ?thesis
  proof
    assume "w' = fst (delete E i True ?v)"
    with delete_ok [OF v(1), of E i True w' "snd (delete E i True ?v)"] v(2) show ?thesis
      by (auto intro: own_step_trans)
  qed (use v in simp)
qed (use assms(1) own_step_refl in simp)

lemma save_pids:
  assumes "fresh_pid E w" and "state_save F t w = (w', r)" and "cs_pid t \<noteq> ce_pid E" and "own_step (cs_id t) w w'"
  shows "fresh_pid E w'"
  unfolding fresh_pid_def
proof (intro allI impI)
  fix j s assume s: "record_of w' j = Some s"
  show "cs_pid s \<noteq> ce_pid E"
  proof (cases "j = cs_id t")
    case True
    from assms(2) show ?thesis
      by (cases rule: save_cases) (use s True assms(1,3) in \<open>auto simp: fresh_pid_def\<close>)
  next
    case False
    with s assms(1,4) show ?thesis by (auto simp: fresh_pid_def own_step_def)
  qed
qed

lemma reap_again_ok:
  assumes "world_ok w" and "fresh_pid E w" and "reap_again E i w = Some w'"
  shows "world_ok w' \<and> own_step i w w'"
proof (cases "w' = w")
  case False
  let ?t = "\<lambda>s. (refresh_status w s)\<lparr>cs_meta := (cs_meta (refresh_status w s))\<lparr>sm_restart_count := min (sm_restart_count (cs_meta (refresh_status w s)) + 1) (2 ^ 32 - 1)\<rparr>\<rparr>"
  from assms(3) False obtain s where s: "record_of w i = Some s"
    and st: "cs_status (refresh_status w s) = Stopped" "\<not> sm_stopped_by_user (cs_meta (refresh_status w s))"
    and e: "map_option fst (rerun E i (fst (state_save E (?t s) w))) = Some w'"
    by (auto simp: reap_again_def load_record Let_def split: sum.splits if_splits)
  obtain u r where sv: "state_save E (?t s) w = (u, r)" by fastforce
  have ok: "record_ok w i s" by (rule world_ok_record [OF assms(1) s])
  have id: "cs_id (?t s) = i" "cs_pid (?t s) = cs_pid s" using ok by (simp_all add: record_ok_def refresh_status_def)
  have u: "world_ok u \<and> own_step i w u"
    by (rule save_ok [OF assms(1) own_step_refl sv id(1)])
      (use ok s st in \<open>auto simp: record_ok_def live_def refresh_status_def split: if_splits\<close>)
  have f: "fresh_pid E u"
    by (rule save_pids [OF assms(2) sv]) (use assms(2) s id u in \<open>auto simp: fresh_pid_def\<close>)
  from e sv obtain x where "rerun E i u = Some (w', x)" by auto
  from rerun_ok [OF _ f this] u show ?thesis by (blast intro: own_step_trans)
qed (use assms(1) own_step_refl in simp)

section \<open>Secondary networks\<close>

text \<open>A change of the tables of one network keeps the leases on the others.\<close>

definition only_net :: "string \<Rightarrow> ipam \<Rightarrow> ipam \<Rightarrow> bool" where
  "only_net n I J \<longleftrightarrow> (\<forall>m. m \<noteq> n \<longrightarrow> ipam_leases m J = ipam_leases m I)"

lemma allot_only: "allot E i pid cfg sip I = (J, r) \<Longrightarrow> only_net (nc_name cfg) I J"
proof (cases sip)
  case None
  assume "allot E i pid cfg sip I = (J, r)"
  with None have "ipam_allocate (ne_lib E) (ne_lease_write E) cfg i pid I = (J, r)" by (simp add: allot_def)
  then show ?thesis by (cases rule: allocate_cases) (auto simp: only_net_def)
next
  case (Some ip)
  assume "allot E i pid cfg sip I = (J, r)"
  with Some have "ipam_allocate_static (ne_lib E) (ne_lease_write E) cfg i pid ip I = (J, r)" by (simp add: allot_def)
  then show ?thesis by (cases rule: static_cases) (auto simp: only_net_def)
qed

lemma only_net_holds:
  assumes "only_net n I J" and "holds_leases I i (Some ns)" and "n \<notin> fst ` addresses ns"
  shows "holds_leases J i (Some ns)"
  unfolding holds_leases_def
proof (intro allI impI ballI, clarify)
  fix m ip assume a: "(m, ip) \<in> addresses ns"
  then have "m \<noteq> n" using assms(3) by force
  moreover have "has_lease m i ip I" using assms(2) a by (auto simp: holds_leases_def)
  ultimately show "has_lease m i ip J" using assms(1) by (simp add: only_net_def has_lease_def)
qed

lemma address_nets: "fst ` addresses ns \<subseteq> set (ns_network ns # map at_network (ns_extra ns))"
  by (auto simp: addresses_def)

lemma lease_for_ok:
  assumes "lease_for E cfg i pid sip w = (w', r)"
  shows "own_step i w w' \<and> only_net (nc_name cfg) (leases_in w) (leases_in w') \<and> cw_procs w' = cw_procs w \<and>
    cw_dirs w' = cw_dirs w \<and> (\<forall>l. r = Inr l \<longrightarrow> has_lease (nc_name cfg) i (le_ip l) (leases_in w'))"
proof (cases "w' = w \<and> \<not> is_Ok r")
  case True
  then show ?thesis by (auto simp: own_step_refl only_net_def)
next
  case False
  with assms obtain s where e: "on_net (on_ipam (allot (ce_net E) i pid cfg s)) w = (w', r)"
    by (auto simp: lease_for_def split: option.splits sum.splits)
  obtain I x where a: "allot (ce_net E) i pid cfg s (nw_ipam (cw_net w)) = (I, x)" by fastforce
  from e a have w': "w' = w\<lparr>cw_net := (cw_net w)\<lparr>nw_ipam := I\<rparr>\<rparr>" "r = x" by (auto simp: on_net_def on_ipam_def)
  show ?thesis
    using allot_own [OF a] allot_only [OF a] own_net [of i w "(cw_net w)\<lparr>nw_ipam := I\<rparr>"]
    by (auto simp: w' leases_in_def)
qed

lemma free_lease_ok:
  "own_step i w (free_lease E net i w) \<and> only_net net (leases_in w) (leases_in (free_lease E net i w)) \<and>
   cw_procs (free_lease E net i w) = cw_procs w \<and> cw_dirs (free_lease E net i w) = cw_dirs w"
proof -
  obtain I x where f: "ipam_free (ne_lease_write (ce_net E)) net i (nw_ipam (cw_net w)) = (I, x)" by fastforce
  then have w': "free_lease E net i w = w\<lparr>cw_net := (cw_net w)\<lparr>nw_ipam := I\<rparr>\<rparr>"
    by (simp add: free_lease_def on_net_def on_ipam_def)
  show ?thesis
    using free_own [OF f] free_leases(1) [OF f] own_net [of i w "(cw_net w)\<lparr>nw_ipam := I\<rparr>"]
    by (auto simp: w' leases_in_def only_net_def)
qed

lemma wire_attachment_ok:
  assumes "wire_attachment E cfg host peer pid ifname ip w = (w', r)"
  shows "own_step i w w' \<and> leases_in w' = leases_in w \<and> cw_procs w' = cw_procs w \<and> cw_dirs w' = cw_dirs w"
proof -
  have "w' = w \<or> w' = fst (on_net (on_nft (ensure_base (ne_lib (ce_net E)) (ce_nft E) cfg)) w)"
    using assms by (auto simp: wire_attachment_def split: sum.splits if_splits)
  then obtain nw where "w' = w\<lparr>cw_net := nw\<rparr>" "nw_ipam nw = nw_ipam (cw_net w)"
  proof
    assume "w' = w"
    then show ?thesis using that [of "cw_net w"] by simp
  next
    assume e: "w' = fst (on_net (on_nft (ensure_base (ne_lib (ce_net E)) (ce_nft E) cfg)) w)"
    obtain k x where "ensure_base (ne_lib (ce_net E)) (ce_nft E) cfg (nw_nft (cw_net w)) = (k, x)" by fastforce
    with e that [of "(cw_net w)\<lparr>nw_nft := k\<rparr>"] show ?thesis by (simp add: on_net_def on_nft_def)
  qed
  moreover from this have "own_step i w (w\<lparr>cw_net := nw\<rparr>)"
    by (intro own_net) (simp add: leases_in_def own_change_refl)
  ultimately show ?thesis by (simp add: leases_in_def)
qed

lemma record_dirs: "cw_dirs w' = cw_dirs w \<Longrightarrow> record_of w' i = record_of w i"
  by (simp add: record_of_def)

lemma record_ok_moved:
  assumes "record_ok w i s" and "cw_procs w' = cw_procs w" and "only_net n (leases_in w) (leases_in w')"
    and "\<And>ns. cs_net s = Some ns \<Longrightarrow> n \<notin> set (ns_network ns # map at_network (ns_extra ns))"
  shows "record_ok w' i s"
proof -
  have "holds_leases (leases_in w') i (cs_net s)" if "holds_leases (leases_in w) i (cs_net s)"
  proof (cases "cs_net s")
    case (Some ns)
    with that assms(3,4) address_nets [of ns] show ?thesis by (auto intro: only_net_holds)
  qed (simp add: holds_leases_def)
  with assms(1,2) show ?thesis by (auto simp: record_ok_def live_def pid_alive_def)
qed

lemma only_net_trans: "only_net n I J \<Longrightarrow> only_net n J M \<Longrightarrow> only_net n I M"
  by (simp add: only_net_def)

lemma image_notin: "y \<notin> f ` A \<longleftrightarrow> (\<forall>x \<in> A. f x \<noteq> y)"
  by auto

lemma connect_to_ok:
  assumes "world_ok w" and "record_of w i = Some s" and "cs_net s = Some net" and "ns_mode net = ''bridge''"
    and "nc_name cfg \<notin> set (ns_network net # map at_network (ns_extra net))"
    and "connect_to E i s net cfg sip w = (w', r)"
  shows "world_ok w' \<and> own_step i w w'"
proof -
  have ok: "record_ok w i s" by (rule world_ok_record [OF assms(1,2)])
  have new: "\<And>ns. cs_net s = Some ns \<Longrightarrow> nc_name cfg \<notin> set (ns_network ns # map at_network (ns_extra ns))"
    using assms(3,5) by simp
  obtain w1 x where l: "lease_for E cfg i (cs_pid s) sip w = (w1, x)" by fastforce
  note l1 = lease_for_ok [OF l]
  have rec1: "record_of w1 i = Some s" using l1 assms(2) by (simp add: record_of_def)
  have ok1: "record_ok w1 i s" by (rule record_ok_moved [OF ok _ _ new]) (use l1 in auto)
  have w1: "world_ok w1" by (rule world_ok_step [OF assms(1)]) (use l1 rec1 ok1 in auto)
  show ?thesis
  proof (cases x)
    case (Inl err)
    with assms(6) l l1 w1 show ?thesis by (simp add: connect_to_def)
  next
    case (Inr y)
    let ?a = "attachment_for E i net cfg y"
    obtain w2 z where wi: "wire_attachment E cfg (at_veth_host ?a) (veth_peer_name_for (ne_sha (ce_net E)) i (nc_name cfg))
        (cs_pid s) (at_ifname ?a) (at_ip ?a) w1 = (w2, z)" by fastforce
    note l2 = wire_attachment_ok [OF wi]
    have o2: "own_step i w w2" using l1 l2 own_step_trans by blast
    have rec2: "record_of w2 i = Some s" using l2 rec1 by (simp add: record_of_def)
    have ok2: "record_ok w2 i s" using ok1 l2 by (auto simp: record_ok_def live_def pid_alive_def)
    show ?thesis
    proof (cases z)
      case (Inl err)
      with assms(6) l Inr wi have w': "w' = free_lease E (nc_name cfg) i w2" by (simp add: connect_to_def Let_def)
      note f = free_lease_ok [of i w2 E "nc_name cfg"]
      have o: "own_step i w w'" unfolding w' using f o2 own_step_trans by blast
      have "record_of w' i = Some s" using f rec2 by (simp add: w' record_of_def)
      moreover have "record_ok w' i s" unfolding w' by (rule record_ok_moved [OF ok2 _ _ new]) (use f in auto)
      ultimately show ?thesis using world_ok_step [OF assms(1) o] o by simp
    next
      case iz: (Inr u)
      obtain w3 q where sv: "state_save E (add_attachment ?a s) w2 = (w3, q)" by fastforce
      with assms(6) l Inr wi iz have w': "w' = w3" by (cases q) (simp_all add: connect_to_def Let_def)
      have "has_lease (nc_name cfg) i (le_ip y) (leases_in w2)" using l1 l2 Inr by simp
      then have "record_ok w2 i (add_attachment ?a s)"
        using ok2 assms(3,4,5)
        by (auto simp: record_ok_def add_attachment_def attachment_for_def live_def receipt_ok_def holds_leases_def addresses_def)
      with save_ok [OF assms(1) o2 sv] ok2 rec2 show ?thesis
        unfolding w' by (auto simp: record_ok_def add_attachment_def)
    qed
  qed
qed

lemma connect_ok:
  assumes "world_ok w" and "net_connect E i network sip w = (w', r)"
  shows "world_ok w' \<and> own_step i w w'"
  using assms(2) unfolding net_connect_def Let_def
proof (rule running_cases)
  fix s
  assume s: "record_of w i = Some s"
    and e: "(case cs_net s of
              None \<Rightarrow> (w, Inl (Other ''container has no managed network''))
            | Some net \<Rightarrow>
                if ns_mode net \<noteq> ''bridge''
                then (w, Inl (Other ''container is not on a bridge network; connect is not applicable''))
                else (case resolve_other E network of
                    Inl e \<Rightarrow> (w, Inl e)
                  | Inr cfg \<Rightarrow>
                      if ns_network net = nc_name cfg \<or> list_ex (\<lambda>a. at_network a = nc_name cfg) (ns_extra net)
                      then (w, Inl (Other (''container is already connected to network '' @ nc_name cfg)))
                      else connect_to E i s net cfg sip w)) = (w', r)"
  show ?thesis
  proof (cases "w' = w")
    case False
    with e obtain net cfg where "cs_net s = Some net" "ns_mode net = ''bridge''" "connect_to E i s net cfg sip w = (w', r)"
      "ns_network net \<noteq> nc_name cfg" "\<not> list_ex (\<lambda>a. at_network a = nc_name cfg) (ns_extra net)"
      by (auto split: option.splits sum.splits if_splits)
    with connect_to_ok [OF assms(1) s, of net cfg] show ?thesis by (simp add: list_ex_iff image_notin eq_commute)
  qed (use assms(1) own_step_refl in simp)
qed (use assms(1) own_step_refl in simp)

lemma remove_first_sub: "set (remove_first p xs) \<subseteq> set xs"
  by (induction xs) auto

lemma remove_first_distinct: "distinct (map f xs) \<Longrightarrow> distinct (map f (remove_first p xs))"
  using remove_first_sub by (induction xs) fastforce+

lemma remove_first_gone: "distinct (map at_network xs) \<Longrightarrow> a \<in> set (remove_first (\<lambda>a. at_network a = n) xs) \<Longrightarrow> at_network a \<noteq> n"
proof (induction xs)
  case (Cons x xs)
  then show ?case by (cases "at_network x = n") (auto simp: image_notin)
qed simp

lemma disconnect_ok:
  assumes "world_ok w" and "net_disconnect E i network w = (w', Inr u)"
  shows "world_ok w' \<and> own_step i w w'"
proof -
  from assms(2) obtain s and cfg :: net_cfg and net where s: "record_of w i = Some s"
    and net: "cs_net s = Some net" "ns_network net \<noteq> nc_name cfg"
    and e: "state_save E (s\<lparr>cs_net := Some (net\<lparr>ns_extra := remove_first (\<lambda>a. at_network a = nc_name cfg) (ns_extra net)\<rparr>)\<rparr>)
        (free_lease E (nc_name cfg) i w) = (w', Inr u)"
    by (auto simp: net_disconnect_def locked_def load_record split: sum.splits if_splits option.splits)
  let ?v = "free_lease E (nc_name cfg) i w" and ?x = "remove_first (\<lambda>a. at_network a = nc_name cfg) (ns_extra net)"
  let ?t = "s\<lparr>cs_net := Some (net\<lparr>ns_extra := ?x\<rparr>)\<rparr>"
  note f = free_lease_ok [of i w E "nc_name cfg"]
  have ok: "record_ok w i s" by (rule world_ok_record [OF assms(1) s])
  have r: "distinct (ns_network net # map at_network (ns_extra net))" using ok net by (simp add: record_ok_def receipt_ok_def)
  have sub: "set ?x \<subseteq> set (ns_extra net)" by (rule remove_first_sub)
  have r': "nc_name cfg \<notin> set (ns_network net # map at_network ?x)"
    using net(2) remove_first_gone [of "ns_extra net" _ "nc_name cfg"] r by (simp add: image_notin eq_commute)
  have "record_ok w i ?t"
    using ok net r sub remove_first_distinct [of at_network "ns_extra net"]
    by (auto simp: record_ok_def receipt_ok_def live_def holds_leases_def addresses_def) blast+
  then have t: "record_ok ?v i ?t"
    by (rule record_ok_moved [of _ _ _ _ "nc_name cfg"]) (use f r' in auto)
  have id: "cs_id ?t = i" using ok by (simp add: record_ok_def)
  from e have "record_of w' i = Some ?t \<and> cw_procs w' = cw_procs ?v \<and> cw_net w' = cw_net ?v"
    by (cases rule: save_cases) (use id in auto)
  then have "\<And>q. record_of w' i = Some q \<Longrightarrow> record_ok w' i q"
    using t by (auto simp: record_ok_def live_def pid_alive_def leases_in_def)
  moreover have o: "own_step i w w'" by (rule own_step_trans [OF conjunct1 [OF f] own_saved [OF e id]])
  ultimately show ?thesis using world_ok_step [OF assms(1) o] by blast
qed

lemma update_first_nets: "(\<And>x. f (g x) = f x) \<Longrightarrow> map f (update_first p g xs) = map f xs"
  by (induction xs) auto

lemma update_first_in:
  "distinct (map at_network xs) \<Longrightarrow> (\<And>x. at_network (g x) = at_network x) \<Longrightarrow>
   a \<in> set (update_first (\<lambda>a. at_network a = n) g xs) \<Longrightarrow> (a \<in> set xs \<and> at_network a \<noteq> n) \<or> (\<exists>b \<in> set xs. a = g b \<and> at_network b = n)"
  by (induction xs) (auto simp: image_notin split: if_splits)

lemma set_ip_ok:
  assumes "world_ok w" and "net_set_ip E i network ip w = (w', Inr u)"
  shows "world_ok w' \<and> own_step i w w'"
proof (cases "w' = w")
  case False
  from assms(2) show ?thesis
    unfolding net_set_ip_def Let_def
  proof (rule running_cases)
    assume "w' = w"
    with False show ?thesis by simp
  next
    fix s
    assume s: "record_of w i = Some s"
      and e: "(case resolve_other E network of
              Inl e \<Rightarrow> (w, Inl e)
            | Inr cfg \<Rightarrow> (case parse_want ip of
                Inl e \<Rightarrow> (w, Inl e)
              | Inr want \<Rightarrow>
                  (case on_net (on_ipam (allot (ce_net E) i (cs_pid s) cfg (Some want))) w of
                     (w, Inl e) \<Rightarrow> (w, Inl e)
                   | (w, Inr l) \<Rightarrow> set_ip_on E s cfg want l w))) = (w', Inr u)"
    then obtain cfg want v l where a: "on_net (on_ipam (allot (ce_net E) i (cs_pid s) cfg (Some want))) w = (v, Inr l)"
      and so: "set_ip_on E s cfg want l v = (w', Inr u)"
      by (auto split: sum.splits prod.splits)
    obtain I x where al: "allot (ce_net E) i (cs_pid s) cfg (Some want) (nw_ipam (cw_net w)) = (I, x)" by fastforce
    with a have v: "v = w\<lparr>cw_net := (cw_net w)\<lparr>nw_ipam := I\<rparr>\<rparr>" and x: "x = Inr l"
      by (auto simp: on_net_def on_ipam_def)
    have own: "own_change i (leases_in w) I" "only_net (nc_name cfg) (leases_in w) I"
      using allot_own [OF al] allot_only [OF al] by (simp_all add: leases_in_def)
    have lease: "has_lease (nc_name cfg) i want I"
      using static_own [of "ne_lib (ce_net E)" "ne_lease_write (ce_net E)" cfg i "cs_pid s" want "nw_ipam (cw_net w)" I "Inr l"] al x
      by (simp add: allot_def)
    have o: "own_step i w v" unfolding v by (rule own_net) (simp add: own)
    have lv: "leases_in v = I" by (simp add: v leases_in_def)
    have ok: "record_ok w i s" by (rule world_ok_record [OF assms(1) s])
    obtain net where net: "cs_net s = Some net" using so by (auto simp: set_ip_on_def split: option.splits)
    have dist: "distinct (ns_network net # map at_network (ns_extra net))" using ok net by (simp add: record_ok_def receipt_ok_def)
    have keep: "has_lease n i b I" if "holds_leases (leases_in w) i (Some net)" "(n, b) \<in> addresses net" "n \<noteq> nc_name cfg" for n b
      using that own(2) by (auto simp: holds_leases_def only_net_def has_lease_def)
    obtain t where sv: "state_save E t v = (w', Inr u)" and t: "cs_id t = i" "record_ok v i t"
    proof (cases "ns_network net = nc_name cfg")
      case True
      let ?t = "s\<lparr>cs_net := Some (net\<lparr>ns_ip := Some want, ns_mac := Some (le_mac l)\<rparr>)\<rparr>"
      have "state_save E ?t v = (w', Inr u)"
        using so net True by (auto simp: set_ip_on_def split: sum.splits)
      moreover have "holds_leases I i (cs_net ?t)" if "holds_leases (leases_in w) i (Some net)"
        using keep [OF that] lease True dist by (auto simp: holds_leases_def addresses_def image_notin)
      then have "record_ok v i ?t"
        using ok net dist lv by (auto simp: record_ok_def live_def receipt_ok_def v pid_alive_def)
      ultimately show ?thesis using that ok by (simp add: record_ok_def)
    next
      case False
      let ?g = "\<lambda>a. a\<lparr>at_ip := want, at_mac := le_mac l\<rparr>"
      let ?t = "s\<lparr>cs_net := Some (net\<lparr>ns_extra := update_first (\<lambda>a. at_network a = nc_name cfg) ?g (ns_extra net)\<rparr>)\<rparr>"
      have "state_save E ?t v = (w', Inr u)"
        using so net False by (auto simp: set_ip_on_def split: sum.splits option.splits)
      moreover have d: "map at_network (update_first (\<lambda>a. at_network a = nc_name cfg) ?g (ns_extra net)) = map at_network (ns_extra net)"
        by (rule update_first_nets) simp
      have "holds_leases I i (cs_net ?t)" if h: "holds_leases (leases_in w) i (Some net)"
        unfolding holds_leases_def
      proof (intro allI impI ballI, clarify)
        fix ns n b assume "cs_net ?t = Some ns" "(n, b) \<in> addresses ns"
        then have ns: "ns_network ns = ns_network net" "ns_mode ns = ns_mode net" "ns_ip ns = ns_ip net"
          "ns_extra ns = update_first (\<lambda>a. at_network a = nc_name cfg) ?g (ns_extra net)"
          and nb: "(n, b) \<in> addresses ns" by auto
        have dx: "distinct (map at_network (ns_extra net))" using dist by simp
        consider (primary) "n = ns_network net" "ns_mode net = ''bridge''" "ns_ip net = Some b"
          | (extra) x where "x \<in> set (ns_extra ns)" "n = at_network x" "b = at_ip x"
          using nb ns(1-3) by (auto simp: addresses_def)
        then consider "(n, b) \<in> addresses net" "n \<noteq> nc_name cfg" | "n = nc_name cfg" "b = want"
        proof cases
          case primary
          with False that(1) show ?thesis by (simp add: addresses_def)
        next
          case (extra x)
          from update_first_in [OF dx, of ?g x "nc_name cfg"] extra(1) ns(4)
          have "(x \<in> set (ns_extra net) \<and> at_network x \<noteq> nc_name cfg) \<or> (at_network x = nc_name cfg \<and> at_ip x = want)" by auto
          with extra that show ?thesis by (auto simp: addresses_def)
        qed
        then show "has_lease n i b I" using keep [OF h] lease by cases auto
      qed
      then have "record_ok v i ?t"
        using ok net dist lv d by (auto simp: record_ok_def live_def receipt_ok_def v pid_alive_def simp flip: set_map)
      ultimately show ?thesis using that ok by (simp add: record_ok_def)
    qed
    have "record_of w' i = Some t \<and> cw_procs w' = cw_procs v \<and> cw_net w' = cw_net v"
      using sv by (cases rule: save_cases) (use t in auto)
    then have "\<And>q. record_of w' i = Some q \<Longrightarrow> record_ok w' i q"
      using t by (auto simp: record_ok_def live_def pid_alive_def leases_in_def)
    moreover have o': "own_step i w w'" by (rule own_step_trans [OF o own_saved [OF sv t(1)]])
    ultimately show ?thesis using world_ok_step [OF assms(1) o'] by blast
  qed
qed (use assms(1) own_step_refl in simp)

end
