(* ===== verification/Container_Safety.thy ===== *)
theory Container_Safety
  imports Container_Proofs
begin

text \<open>
  Runs of the container runtime and what holds over them: no two live containers share an address, a
  container the user stopped stays stopped, and when a start returns; beside these what a rerun, a change
  of address and a poll of the log do.
\<close>

section \<open>Runs\<close>

definition append_log :: "string \<Rightarrow> string \<Rightarrow> 'k cworld \<Rightarrow> 'k cworld" where
  "append_log i bs w = (case hm_get (cw_dirs w) i of
     Some d \<Rightarrow> w\<lparr>cw_dirs := hm_insert i (d\<lparr>cd_log := cd_log d @ bs\<rparr>) (cw_dirs w)\<rparr>
   | None \<Rightarrow> w)"

text \<open>
  The host has no container and no lease at first. Each step has an environment of its own, with the
  networks of its moment; a new process has a number that no record bears. Of the two operations that
  change an address in place only the completed ones are steps.
\<close>

definition initial :: "'k cworld \<Rightarrow> bool" where
  "initial w \<longleftrightarrow> cw_dirs w = [] \<and> hm_ok (cw_procs w) \<and> (\<forall>n. ipam_leases n (leases_in w) = [])"

inductive cstep :: "'k cworld \<Rightarrow> 'k cworld \<Rightarrow> bool" where
  st_create: "fresh_pid E w \<Longrightarrow> plain_meta meta \<Longrightarrow> create_from_image E asm i meta w = (w', r) \<Longrightarrow> cstep w w'"
| st_create_bundle: "fresh_pid E w \<Longrightarrow> create E i bundle w = (w', r') \<Longrightarrow> cstep w w'"
| st_start: "fresh_pid E w \<Longrightarrow> start_or_rerun E i w = Some (w', r') \<Longrightarrow> cstep w w'"
| st_restart: "fresh_pid E w \<Longrightarrow> restart E i w = Some (w', r') \<Longrightarrow> cstep w w'"
| st_stop: "stop E i w = (w', r') \<Longrightarrow> cstep w w'"
| st_kill: "kill_now E i w = (w', r') \<Longrightarrow> cstep w w'"
| st_pause: "pause E i w = (w', r') \<Longrightarrow> cstep w w'"
| st_unpause: "unpause E i w = (w', r') \<Longrightarrow> cstep w w'"
| st_delete: "delete E i force w = (w', r') \<Longrightarrow> cstep w w'"
| st_reap: "reap E i pid st w = (w', nx) \<Longrightarrow> cstep w w'"
| st_reap_again: "fresh_pid E w \<Longrightarrow> reap_again E i w = Some w' \<Longrightarrow> cstep w w'"
| st_connect: "net_connect E i network sip w = (w', r'') \<Longrightarrow> cstep w w'"
| st_disconnect: "net_disconnect E i network w = (w', Inr u) \<Longrightarrow> cstep w w'"
| st_set_ip: "net_set_ip E i network ip w = (w', Inr u) \<Longrightarrow> cstep w w'"
| st_exit: "cstep w (kill_pid pid w)"
| st_write: "cstep w (append_log i bs w)"

lemma append_log_ok: "world_ok w \<Longrightarrow> world_ok (append_log i bs w)"
proof (rule world_ok_step)
  have r: "record_of (append_log i bs w) j = record_of w j" for j
    by (auto simp: append_log_def record_of_def hm_simps split: option.splits)
  have p: "cw_procs (append_log i bs w) = cw_procs w" "cw_net (append_log i bs w) = cw_net w"
    by (auto simp: append_log_def split: option.splits)
  show "own_step i w (append_log i bs w)"
    using r p by (auto simp: own_step_def own_change_refl leases_in_def append_log_def hm_ok_insert split: option.splits)
  show "record_ok (append_log i bs w) i s" if "world_ok w" "record_of (append_log i bs w) i = Some s" for s
  proof -
    from that r have "record_ok w i s" by (simp add: world_ok_record)
    then show ?thesis using p by (auto simp: record_ok_def live_def pid_alive_def leases_in_def)
  qed
qed simp_all

lemma bundles_ok: "world_ok w \<Longrightarrow> world_ok (w\<lparr>cw_bundles := B\<rparr>)"
proof (rule world_ok_step [OF _ own_bundles])
  show "record_ok (w\<lparr>cw_bundles := B\<rparr>) i s" if "world_ok w" "record_of (w\<lparr>cw_bundles := B\<rparr>) i = Some s" for i s
    using that world_ok_record [of w i s] by (auto simp: record_ok_def live_def pid_alive_def leases_in_def)
qed

lemma kill_pid_ok: "world_ok w \<Longrightarrow> world_ok (kill_pid pid w)"
proof (rule world_ok_step [OF _ own_kill_pid])
  show "record_ok (kill_pid pid w) i s" if "world_ok w" "record_of (kill_pid pid w) i = Some s" for i s
    using that world_ok_record [of w i s]
    by (auto simp: record_ok_def live_def pid_alive_def leases_in_def hm_simps split: if_splits)
qed

lemma create_from_image_ok:
  assumes "world_ok w" and "create_from_image E asm i meta w = (w', r)" and "fresh_pid E w" and "plain_meta meta"
  shows "world_ok w'"
proof (cases "w' = w")
  case False
  obtain B x where a: "asm i (cw_bundles w) = (B, x)" by fastforce
  let ?v = "w\<lparr>cw_bundles := B\<rparr>"
  obtain u y where c: "create_with_meta E i (bundle_dir i) meta ?v = (u, y)" by fastforce
  have v: "world_ok ?v" "fresh_pid E ?v" using bundles_ok [OF assms(1)] assms(3) by (simp_all add: fresh_pid_def)
  have "world_ok u" by (rule create_ok [OF v(1) c v(2) assms(4)])
  then show ?thesis
    using assms(2) False a c v(1) bundles_ok
    by (auto simp: create_from_image_def locked_def split: if_splits sum.splits)
qed (use assms(1) in simp)

lemma cstep_ok: "cstep w w' \<Longrightarrow> world_ok w \<Longrightarrow> world_ok w'"
proof (induction rule: cstep.induct)
  case (st_create_bundle E w i b w' r')
  then show ?case
    using create_ok [of w E i b default_meta]
    by (auto simp: create_def locked_def default_meta_def plain_meta_def split: if_splits)
next
  case st_create
  then show ?case by (blast dest: create_from_image_ok)
next
  case st_start
  then show ?case by (blast dest: start_or_rerun_ok)
next
  case st_restart
  then show ?case by (blast dest: restart_ok)
next
  case st_stop
  then show ?case by (blast dest: stop_ok)
next
  case st_kill
  then show ?case by (blast dest: kill_now_ok)
next
  case st_pause
  then show ?case by (blast dest: pause_ok)
next
  case st_unpause
  then show ?case by (blast dest: unpause_ok)
next
  case st_delete
  then show ?case by (blast dest: delete_ok)
next
  case st_reap
  then show ?case by (blast dest: reap_ok)
next
  case st_reap_again
  then show ?case by (blast dest: reap_again_ok)
next
  case st_connect
  then show ?case by (blast dest: connect_ok)
next
  case st_disconnect
  then show ?case by (blast dest: disconnect_ok)
next
  case st_set_ip
  then show ?case by (blast dest: set_ip_ok)
qed (simp_all add: kill_pid_ok append_log_ok)

lemma initial_ok: "initial w \<Longrightarrow> world_ok w"
  by (simp add: initial_def world_ok_def record_of_def leases_ok_def hm_simps)

lemma reachable_world: "initial w\<^sub>0 \<Longrightarrow> cstep\<^sup>*\<^sup>* w\<^sub>0 w \<Longrightarrow> world_ok w"
  by (erule rtranclp_induct) (auto intro: initial_ok cstep_ok)


section \<open>Stopped by the user\<close>

text \<open>What happens without a request: exits, their reaping, automatic restarts, output.\<close>

inductive sstep :: "'k cworld \<Rightarrow> 'k cworld \<Rightarrow> bool" where
  ss_reap: "reap E i pid st w = (w', nx) \<Longrightarrow> sstep w w'"
| ss_again: "fresh_pid E w \<Longrightarrow> reap_again E i w = Some w' \<Longrightarrow> sstep w w'"
| ss_exit: "sstep w (kill_pid pid w)"
| ss_write: "sstep w (append_log i bs w)"

lemma sstep_cstep: "sstep w w' \<Longrightarrow> cstep w w'"
  by (induction rule: sstep.induct) (auto intro: cstep.intros)

definition user_stopped :: "string \<Rightarrow> 'k cworld \<Rightarrow> bool" where
  "user_stopped i w \<longleftrightarrow> (\<forall>t. record_of w i = Some t \<longrightarrow> cs_status t = Stopped \<and> sm_stopped_by_user (cs_meta t))"

lemma record_append_log [simp]: "record_of (append_log i bs w) j = record_of w j"
  by (auto simp: append_log_def record_of_def hm_simps split: option.splits)

lemma reap_record:
  assumes "reap E i pid st w = (w', nx)" and "record_of w i = Some s" and "cs_id s = i" and "w' \<noteq> w"
  shows "record_of w' i = None \<or> record_of w' i = Some s \<or> (\<exists>code. record_of w' i = Some (exit_record E code s))"
proof -
  from assms(1,2,4) obtain code where e: "(let t = exit_record E code s; v = rotate_log (ce_copy E) i (fst (state_save E t w)) in
        if sm_auto_remove (cs_meta t) then (fst (delete E i True v), Reap_done)
        else if should_restart (opt_or (sm_restart_policy (cs_meta t)) []) code (sm_restart_count (cs_meta t)) (sm_stopped_by_user (cs_meta t))
        then (v, Reap_restart (restart_backoff (sm_restart_count (cs_meta t)))) else (v, Reap_done)) = (w', nx)"
    by (auto simp: reap_def load_record split: wait_status.splits sum.splits if_splits)
  obtain u r where sv: "state_save E (exit_record E code s) w = (u, r)" by fastforce
  let ?v = "rotate_log (ce_copy E) i u"
  from sv have "record_of u i = Some s \<or> record_of u i = Some (exit_record E code s)"
    by (cases rule: save_cases) (use assms(2,3) in \<open>auto simp: exit_record_def\<close>)
  then have v: "record_of ?v i = Some s \<or> record_of ?v i = Some (exit_record E code s)" by simp
  have "record_of (fst (delete E i True ?v)) i = None \<or> record_of (fst (delete E i True ?v)) i = record_of ?v i"
    by (auto simp: delete_def Let_def split: sum.splits)
  moreover have "w' = ?v \<or> w' = fst (delete E i True ?v)" using e sv by (auto simp: Let_def split: if_splits)
  ultimately show ?thesis using v by auto
qed

lemma sstep_stopped:
  assumes "sstep w w'" and "world_ok w" and "user_stopped i w"
  shows "user_stopped i w'"
  using assms
proof induction
  case (ss_reap E j pid st w w' nx)
  show ?case
  proof (cases "j = i \<and> w' \<noteq> w")
    case True
    show ?thesis
    proof (cases "record_of w i")
      case None
      with ss_reap.hyps True have False by (auto simp: reap_def load_record[symmetric] state_load_def record_of_def
            split: wait_status.splits sum.splits option.splits manifest.splits if_splits)
      then show ?thesis ..
    next
      case (Some s)
      have "cs_id s = i" by (rule record_id [OF ss_reap.prems(1) Some])
      with reap_record [of E i pid st w w' nx s] ss_reap Some True show ?thesis
        by (auto simp: user_stopped_def exit_record_def)
    qed
  next
    case False
    with reap_ok [OF ss_reap.prems(1) ss_reap.hyps] ss_reap.prems(2) show ?thesis
      by (auto simp: own_step_def user_stopped_def)
  qed
next
  case (ss_again E w j w')
  show ?case
  proof (cases "j = i")
    case True
    with ss_again have "w' = w"
      by (auto simp: reap_again_def load_record user_stopped_def refresh_status_def Let_def split: sum.splits if_splits)
    with ss_again show ?thesis by simp
  next
    case False
    with reap_again_ok [OF ss_again.prems(1) ss_again.hyps] ss_again.prems(2) show ?thesis
      by (auto simp: own_step_def user_stopped_def)
  qed
qed (simp_all add: user_stopped_def)


section \<open>Starting\<close>

lemma dir_of_record: "record_of w i = Some s \<Longrightarrow> \<exists>d. hm_get (cw_dirs w) i = Some d"
  by (auto simp: record_of_def split: option.splits)


section \<open>Running again\<close>

definition log_of :: "'k cworld \<Rightarrow> string \<Rightarrow> (string \<times> string option) option" where
  "log_of w i = map_option (\<lambda>d. (cd_log d, cd_rotated d)) (hm_get (cw_dirs w) i)"

lemma log_simps [simp]:
  "log_of (kill_pid pid w) i = log_of w i" "log_of (net_teardown E j net w) i = log_of w i"
  "log_of (w\<lparr>cw_net := nw\<rparr>) i = log_of w i" "log_of (w\<lparr>cw_procs := P\<rparr>) i = log_of w i"
  "log_of (fst (state_save E s w)) i = log_of w i"
  "log_of (make_dir i (remove_dir i w)) i = Some ([], None)"
  by (auto simp: log_of_def kill_pid_def net_teardown_def state_save_def remove_dir_def make_dir_def hm_simps
      split: option.splits)

lemma save_log: "state_save E s w = (w', r) \<Longrightarrow> log_of w' i = log_of w i"
  using log_simps(5) [of E s w i] by simp

lemma create_inner_log: "create_inner E i b ann meta w = (w', r) \<Longrightarrow> log_of w' i = log_of w i"
  by (auto simp: create_inner_def Let_def dest: save_log split: option.splits if_splits sum.splits prod.splits)

lemma create_log:
  assumes "create_with_meta E i b meta (remove_dir i w) = (w', r)"
  shows "(case r of Inr _ \<Rightarrow> log_of w' i = Some ([], None) | Inl _ \<Rightarrow> record_of w' i = None)"
proof (cases "cw_bundles (remove_dir i w) b")
  case None
  with assms show ?thesis by (auto simp: create_with_meta_def split: if_splits)
next
  case (Some ann)
  have "\<not> state_exists i (remove_dir i w)" by (simp add: state_exists_def remove_dir_def hm_simps)
  moreover obtain v x where "create_inner E i b ann meta (make_dir i (remove_dir i w)) = (v, x)" by fastforce
  ultimately show ?thesis
    using assms Some by (cases x) (auto simp: create_with_meta_def dest: create_inner_log)
qed

text \<open>Running a stopped container again removes its state directory first. When it succeeds the captured
  log of the earlier runs is gone; when the bundle is missing, the record of the container is gone too.
\<close>

theorem rerun_discards:
  assumes "record_of w i = Some s" and "cs_status (refresh_status w s) \<noteq> Running" and "ce_lock E"
    and "rerun E i w = Some (w', r)"
  shows "(case r of Inr _ \<Rightarrow> log_of w' i = Some ([], None) | Inl _ \<Rightarrow> True) \<and>
    (cw_bundles w (cs_bundle s) = None \<longrightarrow> r = Inl BundleError \<and> record_of w' i = None)"
proof -
  let ?m = "(cs_meta s)\<lparr>sm_paused := False, sm_stopped_by_user := False\<rparr>"
  let ?v = "remove_dir i (net_teardown E i (cs_net s) w)"
  have l: "state_load i w = Inr s" using assms(1) by (simp add: load_record)
  obtain u x where c: "create_with_meta E i (cs_bundle s) ?m ?v = (u, x)" by fastforce
  have e: "(case x of Inl e \<Rightarrow> Some (u, Inl e) | Inr _ \<Rightarrow> start_locked E i u) = Some (w', r)"
    using assms(2-4) l c by (simp add: rerun_def rerun_locked_def Let_def split: sum.splits)
  have b: "cw_bundles ?v = cw_bundles w" by (auto simp: remove_dir_def net_teardown_def split: option.splits)
  have gone: "\<not> state_exists i ?v" by (simp add: state_exists_def remove_dir_def hm_simps)
  show ?thesis
  proof (cases x)
    case (Inl err)
    with e c b gone show ?thesis by (auto simp: create_with_meta_def)
  next
    case (Inr z)
    with create_log [OF c] have lg: "log_of u i = Some ([], None)" by simp
    have "log_of w' i = log_of u i"
      using e Inr by (auto simp: start_locked_def dest: save_log split: sum.splits if_splits option.splits)
    moreover have "cw_bundles w (cs_bundle s) \<noteq> None"
      using c b gone Inr by (auto simp: create_with_meta_def split: option.splits)
    ultimately show ?thesis using lg by (auto split: sum.splits)
  qed
qed

section \<open>Changing an address\<close>

text \<open>Changing the address of a running container on its primary network leaves the rules of its published
  ports as they were, forwarding to the address given up, which then belongs to no container and is free
  for the next one.
\<close>

theorem set_ip_leaves_rules:
  assumes "initial w\<^sub>0" and "cstep\<^sup>*\<^sup>* w\<^sub>0 w" and "record_of w i = Some s" and "cs_net s = Some net"
    and "ns_mode net = ''bridge''" and "ns_ip net = Some old" and "resolve_other E network = Inr cfg"
    and "nc_name cfg = ns_network net" and "parse_want ip = Inr want" and "want \<noteq> old"
    and "cs_status (refresh_status w s) = Running" and "ce_lock E" and "net_set_ip E i network ip w = (w', Inr u)"
  shows "nw_nft (cw_net w') = nw_nft (cw_net w) \<and> (\<forall>j. \<not> has_lease (ns_network net) j old (leases_in w'))"
proof -
  have w: "world_ok w" by (rule reachable_world [OF assms(1,2)])
  have l: "state_load i w = Inr s" using assms(3) by (simp add: load_record)
  note rs = refresh_running [OF assms(11)]
  obtain I x where al: "allot (ce_net E) i (cs_pid s) cfg (Some want) (nw_ipam (cw_net w)) = (I, x)" by fastforce
  let ?v = "w\<lparr>cw_net := (cw_net w)\<lparr>nw_ipam := I\<rparr>\<rparr>"
  have on: "on_net (on_ipam (allot (ce_net E) i (cs_pid s) cfg (Some want))) w = (?v, x)"
    using al by (simp add: on_net_def on_ipam_def)
  have "(case x of Inl e \<Rightarrow> (?v, Inl e) | Inr l \<Rightarrow> set_ip_on E s cfg want l ?v) = (w', Inr u)"
    using assms(13,11,12) unfolding net_set_ip_def l sum.case Let_def rs(1) assms(7,9) on
    by (cases x) (simp_all add: locked_def)
  then obtain y where x: "x = Inr y" and so: "set_ip_on E s cfg want y ?v = (w', Inr u)" by (cases x) auto
  have net': "cw_net w' = cw_net ?v"
    using so assms(4,8) by (auto simp: set_ip_on_def state_save_def split: sum.splits option.splits if_splits)
  have ok: "record_ok w i s" by (rule world_ok_record [OF w assms(3)])
  have "live w s" using rs by (simp add: live_def)
  with ok assms(4-6) have old: "has_lease (nc_name cfg) i old (leases_in w)"
    by (auto simp: record_ok_def holds_leases_def addresses_def assms(8))
  have lo: "leases_ok (ipam_leases (nc_name cfg) (leases_in w))" using w by (simp add: world_ok_def)
  have st: "ipam_allocate_static (ne_lib (ce_net E)) (ne_lease_write (ce_net E)) cfg i (cs_pid s) want (leases_in w) = (I, Inr y)"
    using al x by (simp add: allot_def leases_in_def)
  have own: "own_change i (leases_in w) I" and new: "has_lease (nc_name cfg) i want I"
    using static_own [OF st] by auto
  have "\<not> has_lease (nc_name cfg) j old I" for j
  proof
    assume j: "has_lease (nc_name cfg) j old I"
    have lo': "leases_ok (ipam_leases (nc_name cfg) I)" using own lo by (simp add: own_change_def)
    show False
    proof (cases "j = i")
      case True
      with j new lo' assms(10) show False by (auto simp: has_lease_def dest: leases_ok_unique)
    next
      case False
      with j own_change_lease [OF own False] have "has_lease (nc_name cfg) j old (leases_in w)" by simp
      with one_owner [OF lo _ old] False show False by blast
    qed
  qed
  then show ?thesis using net' by (simp add: assms(8) [symmetric] leases_in_def)
qed

section \<open>Decisions of the supervisor\<close>

text \<open>The delay before an automatic restart grows with the count, from 100 milliseconds, and never passes
  51.2 seconds: the cap of 60 seconds it is taken under is never reached.
\<close>

theorem backoff_bounds:
  "100 \<le> restart_backoff n \<and> restart_backoff n \<le> 51200 \<and> restart_backoff n \<le> restart_backoff (Suc n) \<and>
   restart_backoff 9 = 51200"
proof -
  have p: "(2 :: nat) ^ min n 9 \<le> 2 ^ 9" by (rule power_increasing) simp_all
  moreover have "(1 :: nat) \<le> 2 ^ min n 9" by simp
  moreover have "(2 :: nat) ^ min n 9 \<le> 2 ^ min (Suc n) 9" by (rule power_increasing) simp_all
  ultimately show ?thesis by (simp add: restart_backoff_def)
qed

lemma digits_plain: "trim (to_dec n) = to_dec n"
  using to_dec_digits [of n] to_dec_not_Nil [of n] plain_digit by (intro trim_plain) (auto simp: list_all_iff)

lemma parse_u32_dec: "n < 2 ^ 32 \<Longrightarrow> parse_u32 (to_dec n) = Some n"
proof -
  have "hd (to_dec n) \<noteq> CHR ''+''"
    using to_dec_no_sep [of n] to_dec_not_Nil [of n] hd_in_set by fastforce
  then show "n < 2 ^ 32 \<Longrightarrow> ?thesis"
    using to_dec_digits [of n] to_dec_not_Nil [of n] to_dec_val [of n]
    by (simp add: parse_u32_def parse_uint_def)
qed

text \<open>Under the policy on-failure with a maximum, a container is restarted after an exit exactly when the
  exit is a failure the user did not ask for and fewer automatic restarts than the maximum came before.
\<close>

theorem on_failure_decision:
  assumes "0 < m" and "m < 2 ^ 32"
  shows "should_restart (''on-failure:'' @ to_dec m) code count user \<longleftrightarrow> \<not> user \<and> code \<noteq> 0 \<and> count < m"
proof -
  have s: "split_once CHR '':'' (''on-failure:'' @ to_dec m) = Some (''on-failure'', to_dec m)"
    by (simp add: split_once_def)
  have t: "trim ''on-failure'' = ''on-failure''" by code_simp
  have "parse_u32 (trim (to_dec m)) = Some m" using parse_u32_dec [OF assms(2)] by (simp only: digits_plain)
  then show ?thesis using assms(1) unfolding should_restart_def s option.case prod.case t by (auto simp: Let_def)
qed

section \<open>References\<close>

lemma all_states_record:
  assumes "hm_ok (cw_dirs w)" and "s \<in> set (all_states w)"
  shows "\<exists>i t. record_of w i = Some t \<and> s = refresh_status w t"
proof -
  from assms(2) obtain i d t where "(i, d) \<in> set (cw_dirs w)" "cd_state d = Parsed t" "s = refresh_status w t"
    by (auto simp: all_states_def List.map_filter_def split: manifest.splits)
  moreover from this(1) have "hm_get (cw_dirs w) i = Some d" by (rule hm_get_SomeI [OF assms(1)])
  ultimately show ?thesis by (intro exI [of _ i] exI [of _ t]) (simp add: record_of_def)
qed

lemma record_all_states: "record_of w i = Some t \<Longrightarrow> refresh_status w t \<in> set (all_states w)"
  using hm_get_SomeD [of "cw_dirs w" i]
  by (force simp: record_of_def all_states_def List.map_filter_def split: option.splits manifest.splits)

text \<open>A reference resolves to a container that exists: the one with that identifier, or else one with that
  name, or else the only one whose identifier begins with it; a reference that fits no container fails.
\<close>

theorem resolve_sound:
  assumes "initial w\<^sub>0" and "cstep\<^sup>*\<^sup>* w\<^sub>0 w"
  shows "case resolve_ref r w of
      Inr i \<Rightarrow> state_exists i w \<and> (i = r \<or> (\<exists>s. record_of w i = Some s \<and> sm_name (cs_meta s) = Some r) \<or>
        (starts_with i r \<and> (\<forall>j s. record_of w j = Some s \<and> starts_with j r \<longrightarrow> j = i)))
    | Inl _ \<Rightarrow> \<not> state_exists r w \<and> (\<forall>j s. record_of w j = Some s \<longrightarrow> sm_name (cs_meta s) \<noteq> Some r)"
proof (cases "state_exists r w")
  case True
  then show ?thesis by (simp add: resolve_ref_def)
next
  case nex: False
  have w: "world_ok w" by (rule reachable_world [OF assms])
  then have hm: "hm_ok (cw_dirs w)" by (simp add: world_ok_def)
  have ex: "\<exists>t. record_of w (cs_id s) = Some t \<and> sm_name (cs_meta t) = sm_name (cs_meta s) \<and> state_exists (cs_id s) w"
    if s: "s \<in> set (all_states w)" for s
  proof -
    from all_states_record [OF hm s] obtain i t where t: "record_of w i = Some t" "s = refresh_status w t" by blast
    moreover have "cs_id t = i" by (rule record_id [OF w t(1)])
    ultimately have "cs_id s = i" "sm_name (cs_meta t) = sm_name (cs_meta s)" by (auto simp: refresh_status_def)
    with t(1) show ?thesis by (auto simp: record_of_def state_exists_def split: option.splits)
  qed
  have in_all: "\<exists>s \<in> set (all_states w). cs_id s = j \<and> sm_name (cs_meta s) = sm_name (cs_meta t)" if "record_of w j = Some t" for j t
    using record_id [OF w that] by (intro bexI [OF _ record_all_states [OF that]]) (simp add: refresh_status_def)
  show ?thesis
  proof (cases "find (\<lambda>s. sm_name (cs_meta s) = Some r) (all_states w)")
    case (Some s)
    then have "s \<in> set (all_states w)" "sm_name (cs_meta s) = Some r" by (auto simp: find_Some_iff)
    with ex [of s] Some nex show ?thesis by (auto simp: resolve_ref_def)
  next
    case None
    then have none: "sm_name (cs_meta t) \<noteq> Some r" if "record_of w j = Some t" for j t
      using in_all [OF that] by (auto simp: find_None_iff)
    let ?f = "filter (\<lambda>s. starts_with (cs_id s) r) (all_states w)"
    show ?thesis
    proof (cases "\<exists>s. ?f = [s]")
      case True
      then obtain s where f: "?f = [s]" ..
      then have s: "s \<in> set (all_states w)" "starts_with (cs_id s) r" by (auto simp: filter_eq_Cons_iff)
      have only: "x = s" if "x \<in> set (all_states w)" "starts_with (cs_id x) r" for x
      proof -
        from that have "x \<in> set ?f" by simp
        then show ?thesis unfolding f by simp
      qed
      have "j = cs_id s" if "record_of w j = Some t" "starts_with j r" for j t
        using in_all [OF that(1)] only that(2) by auto
      with ex [OF s(1)] s(2) f None nex show ?thesis by (auto simp: resolve_ref_def)
    next
      case False
      then have "\<exists>e. resolve_ref r w = Inl e"
        using None nex by (auto simp: resolve_ref_def split: list.splits)
      with none nex show ?thesis by auto
    qed
  qed
qed

section \<open>Following a log\<close>

text \<open>Polls one after the other, each from where the one before ended.\<close>

fun follow :: "bool \<Rightarrow> string \<Rightarrow> nat \<Rightarrow> nat \<Rightarrow> 'k cworld \<Rightarrow> string \<times> nat" where
  "follow c i 0 off w = ([], off)"
| "follow c i (Suc n) off w =
     (case logs_from c i off w of
        (w', Inr (bs, off')) \<Rightarrow> (let (rest, k) = follow c i n off' w' in (bs @ rest, k))
      | (_, Inl _) \<Rightarrow> ([], off))"

lemma rotate_small:
  assumes "hm_get (cw_dirs w) i = Some d" and "length (cd_log d) \<le> LOG_ROTATE_BYTES"
  shows "hm_get (cw_dirs (rotate_log c i w)) i = Some d"
  using assms by (simp add: rotate_log_def rotate_dir_def hm_simps)

text \<open>Following a log of at most the rotation size from its start gives, after n polls, its first n times
  two mebibytes, each byte once and in order, and all of it when that is enough.
\<close>

theorem follow_complete:
  assumes "hm_get (cw_dirs w) i = Some d" and "cd_state d \<noteq> Missing" and "length (cd_log d) \<le> LOG_ROTATE_BYTES"
  shows "follow c i n 0 w = (take (n * POLL_BYTES) (cd_log d), min (n * POLL_BYTES) (length (cd_log d)))"
proof -
  have "follow c i n off w = (take (n * POLL_BYTES) (drop off (cd_log d)), min (off + n * POLL_BYTES) (length (cd_log d)))"
    if "off \<le> length (cd_log d)" "hm_get (cw_dirs w) i = Some d" for off and w :: "'a cworld"
    using that
  proof (induction n arbitrary: off w)
    case 0
    then show ?case by simp
  next
    case (Suc n)
    let ?k = "min (length (cd_log d) - off) POLL_BYTES" and ?w = "rotate_log c i w"
    have g: "hm_get (cw_dirs ?w) i = Some d" by (rule rotate_small [OF Suc.prems(2) assms(3)])
    have "state_exists i w" using Suc.prems(2) assms(2) by (simp add: state_exists_def)
    then have l: "logs_from c i off w = (?w, Inr (take ?k (drop off (cd_log d)), off + ?k))"
      using g Suc.prems(1) by (simp add: logs_from_def Let_def)
    have "follow c i n (off + ?k) ?w =
        (take (n * POLL_BYTES) (drop (off + ?k) (cd_log d)), min (off + ?k + n * POLL_BYTES) (length (cd_log d)))"
      by (rule Suc.IH [OF _ g]) (use Suc.prems(1) in simp)
    moreover have "take ?k (drop off (cd_log d)) @ take (n * POLL_BYTES) (drop (off + ?k) (cd_log d)) =
        take (Suc n * POLL_BYTES) (drop off (cd_log d))"
      by (cases "length (cd_log d) - off \<le> POLL_BYTES") (simp_all add: min_def take_add add.commute drop_drop [symmetric] del: drop_drop)
    moreover have "min (off + ?k + n * POLL_BYTES) (length (cd_log d)) = min (off + Suc n * POLL_BYTES) (length (cd_log d))"
      using Suc.prems(1) by auto
    ultimately show ?case by (simp add: l)
  qed
  from this [of 0 w] assms(1) show ?thesis by simp
qed

section \<open>A run\<close>

definition demo_cenv :: "int \<Rightarrow> demo_rules cenv" where
  "demo_cenv pid = \<lparr>ce_net = demo_net_env, ce_nft = demo_kernel, ce_reg = [], ce_now = 1000, ce_lock = True, ce_save = True,
     ce_setup = None, ce_pid = pid, ce_add_pid = True, ce_release = True, ce_fifo = None, ce_cgroup_delete = True,
     ce_freeze = True, ce_term_exits = True, ce_oom = False, ce_copy = True\<rparr>"

definition demo_ann :: "string \<Rightarrow> string \<rightharpoonup> string" where
  "demo_ann ip = [''dn7.net'' \<mapsto> ''bridge'', ''dn7.ip'' \<mapsto> ip]"

definition demo_net :: "string \<Rightarrow> ipv4 \<Rightarrow> net_state" where
  "demo_net i ip = \<lparr>ns_mode = ''bridge'', ns_network = ''dn7'', ns_bridge = DEFAULT_BRIDGE,
     ns_veth_host = veth_host_name (ne_sha demo_net_env) i, ns_ip = Some ip, ns_mac = Some (mac_for ip), ns_ports = [], ns_extra = []\<rparr>"

definition demo_lease :: "string \<Rightarrow> int \<Rightarrow> ipv4 \<Rightarrow> lease" where
  "demo_lease i pid ip = \<lparr>le_ip = ip, le_mac = mac_for ip, le_cid = i, le_pid = pid\<rparr>"

definition demo_state :: "string \<Rightarrow> int \<Rightarrow> ipv4 \<Rightarrow> cstate" where
  "demo_state i pid ip = (new_state i pid (''/'' @ i) (default_cgroup i) 1000)\<lparr>cs_net := Some (demo_net i ip)\<rparr>"

definition demo_dir :: "cstate \<Rightarrow> cdir" where
  "demo_dir s = \<lparr>cd_state = Parsed s, cd_log = [], cd_rotated = None\<rparr>"

definition ip_a :: ipv4 where "ip_a = ip4 172 18 0 9"
definition ip_b :: ipv4 where "ip_b = ip4 172 18 0 10"

definition demo_bundles :: "string \<Rightarrow> (string \<rightharpoonup> string) option" where
  "demo_bundles = [''/a'' \<mapsto> demo_ann ''172.18.0.9'', ''/b'' \<mapsto> demo_ann ''172.18.0.10'']"

definition demo_w0 :: "demo_rules cworld" where
  "demo_w0 = \<lparr>cw_net = \<lparr>nw_ipam = Map.empty, nw_nft = []\<rparr>, cw_dirs = [], cw_procs = [], cw_bundles = demo_bundles\<rparr>"

definition demo_w1 :: "demo_rules cworld" where
  "demo_w1 = \<lparr>cw_net = \<lparr>nw_ipam = [''dn7'' \<mapsto> Parsed [demo_lease ''a'' 7 ip_a]], nw_nft = []\<rparr>,
     cw_dirs = [(''a'', demo_dir (demo_state ''a'' 7 ip_a))],
     cw_procs = [(7, \<lparr>pr_cgroup = default_cgroup ''a'', pr_parked = True\<rparr>)], cw_bundles = demo_bundles\<rparr>"

definition demo_w2 :: "demo_rules cworld" where
  "demo_w2 = \<lparr>cw_net = \<lparr>nw_ipam = [''dn7'' \<mapsto> Parsed [demo_lease ''a'' 7 ip_a, demo_lease ''b'' 8 ip_b]], nw_nft = []\<rparr>,
     cw_dirs = [(''b'', demo_dir (demo_state ''b'' 8 ip_b)), (''a'', demo_dir (demo_state ''a'' 7 ip_a))],
     cw_procs = [(8, \<lparr>pr_cgroup = default_cgroup ''b'', pr_parked = True\<rparr>), (7, \<lparr>pr_cgroup = default_cgroup ''a'', pr_parked = True\<rparr>)],
     cw_bundles = demo_bundles\<rparr>"

lemma demo_wire:
  assumes "validate_id id i = Inr ()" and "static_ip_of demo_net_env (Some txt) = Inr (Some ip)"
    and "usable demo_ipnet default_dn7 ip" and "I = [''dn7'' \<mapsto> Parsed t] \<or> I = Map.empty \<and> t = []"
    and "\<forall>l \<in> set t. le_cid l \<noteq> i \<and> le_ip l \<noteq> ip"
  shows "apply_net demo_net_env demo_kernel [] i pid (demo_ann txt) \<lparr>nw_ipam = I, nw_nft = []\<rparr> =
    (\<lparr>nw_ipam = [''dn7'' \<mapsto> Parsed (t @ [demo_lease i pid ip])], nw_nft = []\<rparr>, Inr (Some (demo_net i ip)))"
proof -
  have nm: "nc_name default_dn7 = ''dn7''" "nc_bridge default_dn7 = DEFAULT_BRIDGE"
    by (simp_all add: default_dn7_def DEFAULT_NETWORK_def)
  have f: "filter (\<lambda>l. le_cid l \<noteq> i) t = t" using assms(5) by (intro filter_True) auto
  have n: "find (\<lambda>l. le_cid l = i) t = None" "\<not> list_ex (\<lambda>l. le_ip l = ip \<and> le_cid l \<noteq> i) t"
    using assms(5) by (auto simp: find_None_iff list_ex_iff)
  have al: "ipam_allocate_static demo_ipnet True default_dn7 i pid ip I =
      ([''dn7'' \<mapsto> Parsed (t @ [demo_lease i pid ip])], Inr (demo_lease i pid ip))"
    using assms(3,4) n f
    by (auto simp: ipam_allocate_static_def usable_def with_table_def ipam_lock_def ipam_load_def save_then_cases
        Let_def nm demo_lease_def)
  have res: "resolve_net ''bridge'' [] = Inr default_dn7" by (simp add: resolve_net_def)
  have e: "ne_lib demo_net_env = demo_ipnet" "ne_dbg demo_net_env = id" "ne_lease_write demo_net_env = True"
    "\<And>c. call_backend demo_net_env c = Inr ()" "nl_have demo_kernel k" "ensure_base L demo_kernel c k = (k, Inr ())" for L c k
    by (simp_all add: demo_net_env_def call_backend_def demo_kernel_def ensure_base_def)
  show ?thesis
    by (simp add: apply_net_def mode_of_def demo_ann_def e assms(1,2) res st_lift_def apply_mode_def apply_bridge_def
        on_ipam_def al on_nft_def Let_def nm static_mac_of_def demo_net_def)
      (simp add: demo_lease_def)
qed

lemma demo_ids: "validate_id id ''a'' = Inr ()" "validate_id id ''b'' = Inr ()"
  by code_simp+

lemma demo_ips:
  "static_ip_of demo_net_env (Some ''172.18.0.9'') = Inr (Some ip_a)"
  "static_ip_of demo_net_env (Some ''172.18.0.10'') = Inr (Some ip_b)"
  "usable demo_ipnet default_dn7 ip_a" "usable demo_ipnet default_dn7 ip_b" "ip_a \<noteq> ip_b"
proof -
  have "parse_ipv4 (trim ''172.18.0.9'') = Some 0xAC120009" "trim ''172.18.0.9'' \<noteq> []"
    "parse_ipv4 (trim ''172.18.0.10'') = Some 0xAC12000A" "trim ''172.18.0.10'' \<noteq> []" by code_simp+
  then show "static_ip_of demo_net_env (Some ''172.18.0.9'') = Inr (Some ip_a)"
    "static_ip_of demo_net_env (Some ''172.18.0.10'') = Inr (Some ip_b)"
    by (simp_all add: static_ip_of_def ip4_def ip_a_def ip_b_def)
  show "usable demo_ipnet default_dn7 ip_a" "usable demo_ipnet default_dn7 ip_b" "ip_a \<noteq> ip_b"
    by (simp_all add: usable_def demo_ipnet_def default_dn7_def net_contains_def ip4_def drop_bit_eq_div net_base_def
        net_last_def push_bit_eq_mult ip_a_def ip_b_def)
qed

lemma demo_create_a: "create (demo_cenv 7) ''a'' ''/a'' demo_w0 = (demo_w1, Inr ())"
proof -
  have a: "apply_net demo_net_env demo_kernel [] ''a'' 7 (demo_ann ''172.18.0.9'') \<lparr>nw_ipam = Map.empty, nw_nft = []\<rparr> =
      (\<lparr>nw_ipam = [''dn7'' \<mapsto> Parsed ([] @ [demo_lease ''a'' 7 ip_a])], nw_nft = []\<rparr>, Inr (Some (demo_net ''a'' ip_a)))"
    by (rule demo_wire) (simp_all add: demo_ids demo_ips)
  show ?thesis
    using a
    by (simp add: create_def locked_def demo_cenv_def create_with_meta_def state_exists_def demo_w0_def demo_w1_def
        demo_bundles_def make_dir_def create_inner_def state_save_def new_state_def hm_get_def Let_def demo_dir_def
        demo_state_def hm_insert_def hm_remove_def)
qed

lemma demo_create_b: "create (demo_cenv 8) ''b'' ''/b'' demo_w1 = (demo_w2, Inr ())"
proof -
  have a: "apply_net demo_net_env demo_kernel [] ''b'' 8 (demo_ann ''172.18.0.10'')
        \<lparr>nw_ipam = [''dn7'' \<mapsto> Parsed [demo_lease ''a'' 7 ip_a]], nw_nft = []\<rparr> =
      (\<lparr>nw_ipam = [''dn7'' \<mapsto> Parsed ([demo_lease ''a'' 7 ip_a] @ [demo_lease ''b'' 8 ip_b])], nw_nft = []\<rparr>,
       Inr (Some (demo_net ''b'' ip_b)))"
    by (rule demo_wire) (simp_all add: demo_ids demo_ips demo_lease_def)
  show ?thesis
    using a
    by (simp add: create_def locked_def demo_cenv_def create_with_meta_def state_exists_def demo_w2_def demo_w1_def
        demo_bundles_def make_dir_def create_inner_def state_save_def new_state_def hm_get_def Let_def demo_dir_def
        demo_state_def hm_insert_def hm_remove_def)
qed

lemma demo_run: "initial demo_w0" "cstep\<^sup>*\<^sup>* demo_w0 demo_w1" "cstep\<^sup>*\<^sup>* demo_w0 demo_w2"
proof -
  show "initial demo_w0" by (simp add: initial_def demo_w0_def leases_in_def ipam_leases_def ipam_load_def)
  have "fresh_pid (demo_cenv 7) demo_w0" "fresh_pid (demo_cenv 8) demo_w1"
    by (auto simp: fresh_pid_def record_of_def demo_w0_def demo_w1_def hm_get_def demo_cenv_def demo_dir_def demo_state_def
        new_state_def split: if_splits)
  then have "cstep demo_w0 demo_w1" "cstep demo_w1 demo_w2"
    using st_create_bundle demo_create_a demo_create_b by blast+
  then show "cstep\<^sup>*\<^sup>* demo_w0 demo_w1" "cstep\<^sup>*\<^sup>* demo_w0 demo_w2" by auto
qed

lemma demo_records:
  "record_of demo_w1 ''a'' = Some (demo_state ''a'' 7 ip_a)" "record_of demo_w2 ''a'' = Some (demo_state ''a'' 7 ip_a)"
  "record_of demo_w2 ''b'' = Some (demo_state ''b'' 8 ip_b)"
  by (simp_all add: record_of_def demo_w1_def demo_w2_def hm_get_def demo_dir_def)



text \<open>The first container, started.\<close>

definition demo_running :: cstate where
  "demo_running = (demo_state ''a'' 7 ip_a)\<lparr>cs_status := Running, cs_meta := default_meta\<lparr>sm_started_at := Some 1000\<rparr>\<rparr>"

definition demo_w3 :: "demo_rules cworld" where
  "demo_w3 = demo_w1\<lparr>cw_procs := [(7, \<lparr>pr_cgroup = default_cgroup ''a'', pr_parked = False\<rparr>)],
     cw_dirs := [(''a'', demo_dir demo_running)]\<rparr>"

lemma demo_start: "start_or_rerun (demo_cenv 9) ''a'' demo_w1 = Some (demo_w3, Inr ())"
  by (simp add: start_or_rerun_def refresh_status_def start_def demo_cenv_def start_locked_def state_load_def demo_w1_def
      demo_w3_def hm_get_def demo_dir_def demo_state_def new_state_def demo_running_def state_save_def hm_insert_def
      hm_remove_def default_meta_def)

lemma demo_run3: "cstep\<^sup>*\<^sup>* demo_w0 demo_w3" "record_of demo_w3 ''a'' = Some demo_running"
  "cs_status (refresh_status demo_w3 demo_running) = Running" "refresh_status demo_w3 demo_running = demo_running"
  "state_load ''a'' demo_w3 = Inr demo_running" "hm_get (cw_dirs demo_w3) ''a'' = Some (demo_dir demo_running)"
proof -
  have "fresh_pid (demo_cenv 9) demo_w1"
    by (auto simp: fresh_pid_def record_of_def demo_w1_def hm_get_def demo_cenv_def demo_dir_def demo_state_def new_state_def
        split: if_splits)
  then show "cstep\<^sup>*\<^sup>* demo_w0 demo_w3"
    using demo_run(2) st_start [OF _ demo_start] by (blast intro: rtranclp.rtrancl_into_rtrancl)
  show "record_of demo_w3 ''a'' = Some demo_running" by (simp add: record_of_def demo_w3_def hm_get_def demo_dir_def)
  then show "state_load ''a'' demo_w3 = Inr demo_running" by (simp add: load_record)
  show "hm_get (cw_dirs demo_w3) ''a'' = Some (demo_dir demo_running)" by (simp add: demo_w3_def hm_get_def)
  show r: "cs_status (refresh_status demo_w3 demo_running) = Running"
    by (simp add: refresh_status_def pid_alive_def demo_running_def demo_state_def new_state_def demo_w3_def hm_get_def)
  from refresh_running(1) [OF r] show "refresh_status demo_w3 demo_running = demo_running" .
qed

lemma demo_env: "ce_lock (demo_cenv 9)" "ce_save (demo_cenv 9)" "ce_net (demo_cenv 9) = demo_net_env" by (simp_all add: demo_cenv_def)


theorem rerun_discards_witness:
  "case rerun (demo_cenv 9) ''a'' (demo_w1\<lparr>cw_bundles := Map.empty\<rparr>) of
     Some (w, r) \<Rightarrow> r = Inl BundleError \<and> record_of w ''a'' = None | None \<Rightarrow> False"
proof -
  let ?w = "demo_w1\<lparr>cw_bundles := Map.empty\<rparr>"
  have r: "record_of ?w ''a'' = Some (demo_state ''a'' 7 ip_a)" using demo_records(1) by (simp add: record_of_def)
  have s: "cs_status (refresh_status ?w (demo_state ''a'' 7 ip_a)) \<noteq> Running"
    by (simp add: refresh_status_def demo_state_def new_state_def)
  have l: "ce_lock (demo_cenv 9)" by (simp add: demo_cenv_def)
  have b: "cw_bundles (remove_dir j (net_teardown E j n ?w)) = Map.empty" "\<not> state_exists j (remove_dir j v)"
    for E :: "demo_rules cenv" and j n and v :: "demo_rules cworld"
    by (auto simp: remove_dir_def net_teardown_def state_exists_def hm_simps split: option.splits)
  have "state_load ''a'' ?w = Inr (demo_state ''a'' 7 ip_a)" using r by (simp only: load_record)
  then obtain w x where e: "rerun (demo_cenv 9) ''a'' ?w = Some (w, x)"
    using s l by (auto simp: rerun_def rerun_locked_def Let_def create_with_meta_def b split: prod.splits)
  have c: "cw_bundles ?w (cs_bundle (demo_state ''a'' 7 ip_a)) = None" by simp
  from rerun_discards [OF r s l e] c e show ?thesis by simp
qed

theorem on_failure_decision_witness:
  "should_restart ''on-failure:3'' 1 2 False \<and> \<not> should_restart ''on-failure:3'' 1 3 False \<and> \<not> should_restart ''on-failure:3'' 1 2 True"
proof -
  have "to_dec 3 = ''3''" by code_simp
  then show ?thesis using on_failure_decision [of 3] by simp
qed

theorem resolve_sound_witness:
  "resolve_ref ''b'' demo_w2 = Inr ''b'' \<and> state_exists ''b'' demo_w2"
proof -
  have "resolve_ref ''b'' demo_w2 = Inr ''b''"
    by (simp add: resolve_ref_def state_exists_def demo_w2_def hm_get_def demo_dir_def)
  then show ?thesis using resolve_sound [OF demo_run(1,3), of "''b''"] by simp
qed

theorem follow_complete_witness:
  "follow True ''a'' 1 0 (demo_w1\<lparr>cw_dirs := [(''a'', (demo_dir demo_running)\<lparr>cd_log := ''hi''\<rparr>)]\<rparr>) = (''hi'', 2)"
proof -
  have "follow True ''a'' 1 0 (demo_w1\<lparr>cw_dirs := [(''a'', (demo_dir demo_running)\<lparr>cd_log := ''hi''\<rparr>)]\<rparr>) =
    (take (1 * POLL_BYTES) ''hi'', min (1 * POLL_BYTES) (length ''hi''))"
    using follow_complete [of "demo_w1\<lparr>cw_dirs := [(''a'', (demo_dir demo_running)\<lparr>cd_log := ''hi''\<rparr>)]\<rparr>" "''a''"
        "(demo_dir demo_running)\<lparr>cd_log := ''hi''\<rparr>" True 1]
    by (simp add: demo_w1_def hm_get_def demo_dir_def LOG_ROTATE_BYTES_def)
  then show ?thesis by (simp add: POLL_BYTES_def take_Cons')
qed

lemma demo_new_ip: "parse_want ''172.18.0.11'' = Inr (ip4 172 18 0 11)" "usable demo_ipnet default_dn7 (ip4 172 18 0 11)"
  "ip4 172 18 0 11 \<noteq> ip_a"
proof -
  have "parse_ipv4 (trim ''172.18.0.11'') = Some 0xAC12000B" by code_simp
  then show "parse_want ''172.18.0.11'' = Inr (ip4 172 18 0 11)" by (simp add: parse_want_def ip4_def)
  show "usable demo_ipnet default_dn7 (ip4 172 18 0 11)" "ip4 172 18 0 11 \<noteq> ip_a"
    by (simp_all add: usable_def demo_ipnet_def default_dn7_def net_contains_def ip4_def drop_bit_eq_div net_base_def
        net_last_def push_bit_eq_mult ip_a_def)
qed

theorem set_ip_leaves_rules_witness:
  "snd (net_set_ip (demo_cenv 9) ''a'' ''dn7'' ''172.18.0.11'' demo_w3) = Inr () \<and>
   (let w = fst (net_set_ip (demo_cenv 9) ''a'' ''dn7'' ''172.18.0.11'' demo_w3) in
      nw_nft (cw_net w) = nw_nft (cw_net demo_w3) \<and> (\<forall>j. \<not> has_lease ''dn7'' j ip_a (leases_in w)))"
proof -
  have nm: "nc_name default_dn7 = ''dn7''" by (simp add: default_dn7_def DEFAULT_NETWORK_def)
  have res: "resolve_other (demo_cenv 9) ''dn7'' = Inr default_dn7"
    by (simp add: resolve_other_def resolve_net_def DEFAULT_NETWORK_def)
  have net: "cs_net demo_running = Some (demo_net ''a'' ip_a)" "cs_status demo_running = Running" "cs_id demo_running = ''a''"
    by (simp_all add: demo_running_def demo_state_def new_state_def)
  have n: "ns_mode (demo_net ''a'' ip_a) = ''bridge''" "ns_ip (demo_net ''a'' ip_a) = Some ip_a"
    "nc_name default_dn7 = ns_network (demo_net ''a'' ip_a)" by (simp_all add: demo_net_def nm)
  have I: "nw_ipam (cw_net demo_w3) = [''dn7'' \<mapsto> Parsed [demo_lease ''a'' 7 ip_a]]" by (simp add: demo_w3_def demo_w1_def)
  obtain J l where al: "allot demo_net_env ''a'' (cs_pid demo_running) default_dn7 (Some (ip4 172 18 0 11))
      [''dn7'' \<mapsto> Parsed [demo_lease ''a'' 7 ip_a]] = (J, Inr l)"
    using demo_new_ip(2) demo_new_ip(3) [symmetric]
    by (auto simp: allot_def ipam_allocate_static_def usable_def with_table_def ipam_lock_def ipam_load_def save_then_cases
        Let_def nm demo_lease_def demo_net_env_def)
  have "\<And>c. call_backend demo_net_env c = Inr ()" by (simp add: demo_net_env_def call_backend_def)
  then obtain w where e: "net_set_ip (demo_cenv 9) ''a'' ''dn7'' ''172.18.0.11'' demo_w3 = (w, Inr ())"
    using demo_run3(6) n(3)
    by (simp add: net_set_ip_def locked_def demo_run3 Let_def res demo_new_ip(1) demo_env net on_net_def on_ipam_def I al
        set_ip_on_def state_save_def)
  from set_ip_leaves_rules [OF demo_run(1) demo_run3(1,2) net(1) n(1,2) res n(3) demo_new_ip(1,3) demo_run3(3) demo_env(1) e]
    e n(3) nm
  show ?thesis by (simp add: Let_def)
qed

end
