(* ===== verification/Volumes.thy ===== *)
theory Volumes
  imports Host_Files Docker_Policy Net_Config
begin

text \<open>
  Volumes of containers (\<open>crates/dn7-container/src/image/volume.rs\<close>) over the file system of
  \<open>Host_Fs\<close>, and the two operations of the panel on them (\<open>src/infra/docker/runtime_dn7.rs\<close>). A
  volume is a directory of the store, or a symbolic link to a directory of the host. The runtime is
  root. Listing volumes changes nothing and is left out.
\<close>

section \<open>The store\<close>

definition VOLUMES_DIR :: string where "VOLUMES_DIR = ''/var/lib/dn7-container/volumes''"

record volume_mount =
  vm_source :: string
  vm_dest :: string
  vm_ro :: bool

definition volume_name_ok :: "string \<Rightarrow> bool" where
  "volume_name_ok name \<longleftrightarrow> name \<noteq> [] \<and> list_all (\<lambda>c. is_ascii_alphanumeric c \<or> c \<in> set ''_-.'') name"

definition named_path :: "(string \<Rightarrow> string) \<Rightarrow> string \<Rightarrow> string cres" where
  "named_path dbg name =
     (if volume_name_ok name then Inr (VOLUMES_DIR @ ''/'' @ name) else Inl (Other (''bad volume name '' @ dbg name)))"

text \<open>\<open>std::os::unix::fs::symlink\<close>, and the results of \<open>std::fs\<close> as errors of the crate.\<close>

definition symlink_at :: "string \<Rightarrow> string \<Rightarrow> fsys \<Rightarrow> unit io" where
  "symlink_at target path F =
     (case entry_of F [] (segs_of path) of
        Inl e \<Rightarrow> (F, Inl e)
      | Inr p \<Rightarrow> if F p = None then (F(p \<mapsto> Link target), Inr ()) else (F, Inl AlreadyExists))"

definition io_cres :: "unit io \<Rightarrow> fsys \<times> unit cres" where
  "io_cres r = (case r of (F, Inl _) \<Rightarrow> (F, Inl IoError) | (F, Inr _) \<Rightarrow> (F, Inr ()))"

definition make_dirs :: "string \<Rightarrow> fsys \<Rightarrow> fsys \<times> unit cres" where
  "make_dirs path F = io_cres (create_dir_all root_may [] (segs_of path) F)"

definition create_with_mount :: "(string \<Rightarrow> string) \<Rightarrow> string \<Rightarrow> string option \<Rightarrow> fsys \<Rightarrow> fsys \<times> unit cres" where
  "create_with_mount dbg name mountpoint F =
     (case named_path dbg name of
        Inl e \<Rightarrow> (F, Inl e)
      | Inr p \<Rightarrow>
          (case mountpoint of
             None \<Rightarrow> make_dirs p F
           | Some mp \<Rightarrow>
               (case make_dirs mp F of
                  (F, Inl e) \<Rightarrow> (F, Inl e)
                | (F, Inr _) \<Rightarrow>
                    if stat F [] (segs_of p) \<noteq> None then (F, Inr ())
                    else (case make_dirs VOLUMES_DIR F of
                        (F, Inl e) \<Rightarrow> (F, Inl e)
                      | (F, Inr _) \<Rightarrow> io_cres (symlink_at mp p F)))))"

definition remove_volume :: "(string \<Rightarrow> string) \<Rightarrow> string \<Rightarrow> fsys \<Rightarrow> fsys \<times> unit cres" where
  "remove_volume dbg name F =
     (case named_path dbg name of
        Inl e \<Rightarrow> (F, Inl e)
      | Inr p \<Rightarrow>
          (case lstat F [] (segs_of p) of
             None \<Rightarrow> (F, Inr ())
           | Some (Link _) \<Rightarrow> io_cres (remove_file root_may [] (segs_of p) F)
           | Some _ \<Rightarrow>
               (case remove_dir_all root_may [] (segs_of p) F of
                  (F, Inr _) \<Rightarrow> (F, Inr ())
                | (F, Inl e) \<Rightarrow> (F, if e = NotFound then Inr () else Inl IoError))))"

text \<open>The mount of a text \<open>src:dst\<close>, with \<open>:ro\<close> or \<open>:rw\<close>.\<close>

definition resolve_source :: "(string \<Rightarrow> string) \<Rightarrow> string \<Rightarrow> fsys \<Rightarrow> fsys \<times> string cres" where
  "resolve_source dbg src F =
     (if CHR ''/'' \<in> set src then (F, Inr src)
      else (case named_path dbg src of
          Inl e \<Rightarrow> (F, Inl e)
        | Inr p \<Rightarrow> (case make_dirs p F of (F, Inl e) \<Rightarrow> (F, Inl e) | (F, Inr _) \<Rightarrow> (F, Inr p))))"

definition resolve_mount :: "(string \<Rightarrow> string) \<Rightarrow> string \<Rightarrow> fsys \<Rightarrow> fsys \<times> volume_mount cres" where
  "resolve_mount dbg spec F =
     (case (case split_on CHR '':'' spec of
              [s, d] \<Rightarrow> Some (s, d, False)
            | [s, d, m] \<Rightarrow> if m = ''ro'' then Some (s, d, True) else if m = ''rw'' then Some (s, d, False) else None
            | _ \<Rightarrow> None) of
        None \<Rightarrow> (F, Inl (Other (''bad volume spec '' @ dbg spec @ '' (want src:dst[:ro])'')))
      | Some (src, dst, ro) \<Rightarrow>
          if \<not> starts_with dst ''/'' then (F, Inl (Other (''volume destination must be absolute: '' @ dbg dst)))
          else if ''..'' \<in> set (split_on CHR ''/'' dst)
          then (F, Inl (Other (''volume destination must not contain '' @ [CHR 0x27] @ ''..'' @ [CHR 0x27] @ '': '' @ dbg dst)))
          else (case resolve_source dbg src F of
              (F, Inl e) \<Rightarrow> (F, Inl e)
            | (F, Inr p) \<Rightarrow> (F, Inr \<lparr>vm_source = p, vm_dest = dst, vm_ro = ro\<rparr>)))"

section \<open>The panel's operations\<close>

text \<open>An error code of the panel, an error of the runtime, or another message.\<close>

datatype derr = Coded docker_error | Runtime cerr | Message string

definition checked_op :: "checked \<Rightarrow> 's \<Rightarrow> ('s \<times> (derr + 'a)) \<Rightarrow> 's \<times> (derr + 'a)" where
  "checked_op c s r = (case c of Inl e \<Rightarrow> (s, Inl (Coded e)) | Inr _ \<Rightarrow> r)"

definition runtime_res :: "'s \<times> 'a cres \<Rightarrow> 's \<times> (derr + 'a)" where
  "runtime_res r = (case r of (s, Inl e) \<Rightarrow> (s, Inl (Runtime e)) | (s, Inr x) \<Rightarrow> (s, Inr x))"

definition canon_text :: "fsys \<Rightarrow> string \<Rightarrow> string option" where
  "canon_text F p = (case canonicalize F [] p of Inr q \<Rightarrow> Some (path_text q) | Inl _ \<Rightarrow> None)"

definition op_create_volume :: "(string \<Rightarrow> string) \<Rightarrow> string option \<Rightarrow> string option \<Rightarrow> fsys \<Rightarrow> fsys \<times> (derr + unit)" where
  "op_create_volume dbg name path F =
     (case opt_trim name of
        None \<Rightarrow> (F, Inl (Coded MissingVolumeName))
      | Some n \<Rightarrow>
          checked_op (validate_name n) F
            (case opt_trim path of
               None \<Rightarrow> runtime_res (create_with_mount dbg n None F)
             | Some p \<Rightarrow>
                 checked_op (validate_path p) F
                   (checked_op (validate_bind_source (canon_text F) p) F
                     (runtime_res (create_with_mount dbg n (Some p) F)))))"

definition need_ref :: "string option \<Rightarrow> docker_error + string" where
  "need_ref r =
     (case opt_trim r of
        None \<Rightarrow> Inl MissingRef
      | Some t \<Rightarrow> (case validate_token t of Inl e \<Rightarrow> Inl e | Inr _ \<Rightarrow> Inr t))"

definition op_remove_volume :: "(string \<Rightarrow> string) \<Rightarrow> string option \<Rightarrow> fsys \<Rightarrow> fsys \<times> (derr + unit)" where
  "op_remove_volume dbg r F =
     (case need_ref r of
        Inl e \<Rightarrow> (F, Inl (Coded e))
      | Inr name \<Rightarrow>
          if starts_with name ''dn7-'' then (F, Inl (Coded VolumeManaged))
          else runtime_res (remove_volume dbg name F))"

section \<open>What removal removes\<close>

definition store_dir :: ppath where "store_dir = [''var'', ''lib'', ''dn7-container'', ''volumes'']"

text \<open>The directories of the store are directories, not links.\<close>

definition store_ok :: "fsys \<Rightarrow> bool" where
  "store_ok F \<longleftrightarrow> fs_ok F \<and> F [''var''] = Some Dir \<and> F [''var'', ''lib''] = Some Dir \<and>
     F [''var'', ''lib'', ''dn7-container''] = Some Dir \<and> F store_dir = Some Dir"

lemma store_plain: "\<forall>s \<in> set store_dir. plain_name s"
  by (simp add: store_dir_def plain_name_def)

lemma store_text: "VOLUMES_DIR = path_text store_dir"
  by (simp add: VOLUMES_DIR_def path_text_def store_dir_def)

lemma name_no_slash: "volume_name_ok name \<Longrightarrow> CHR ''/'' \<notin> set name"
proof -
  have "\<not> (is_ascii_alphanumeric CHR ''/'' \<or> CHR ''/'' \<in> set ''_-.'')" by code_simp
  then show "volume_name_ok name \<Longrightarrow> CHR ''/'' \<notin> set name" unfolding volume_name_ok_def list_all_iff by blast
qed

lemma segs_volume:
  assumes "volume_name_ok name" and "name \<noteq> ''.''" and "name \<noteq> ''..''"
  shows "plain_name name" and "segs_of (VOLUMES_DIR @ ''/'' @ name) = store_dir @ [name]"
proof -
  show n: "plain_name name" using assms name_no_slash by (simp add: plain_name_def volume_name_ok_def)
  have "VOLUMES_DIR @ ''/'' @ name = path_text (store_dir @ [name])"
    by (simp add: VOLUMES_DIR_def path_text_def store_dir_def)
  moreover have "segs_of (path_text (store_dir @ [name])) = store_dir @ [name]"
    using n store_plain by (intro segs_path_text) auto
  ultimately show "segs_of (VOLUMES_DIR @ ''/'' @ name) = store_dir @ [name]" by simp
qed

lemma walks_dirs:
  "\<forall>k < length ns. is_dir_at F (cur @ take k ns) \<and> F (cur @ take (Suc k) ns) = Some Dir \<Longrightarrow>
   \<forall>s \<in> set ns. plain_name s \<Longrightarrow> walks F False n cur ns (cur @ ns)"
proof (induction ns arbitrary: cur)
  case (Cons s ns)
  have h: "is_dir_at F cur" "F (cur @ [s]) = Some Dir" using Cons.prems(1) [rule_format, of 0] by simp_all
  have "walks F False n (cur @ [s]) ns ((cur @ [s]) @ ns)"
  proof (rule Cons.IH)
    show "\<forall>k < length ns. is_dir_at F ((cur @ [s]) @ take k ns) \<and> F ((cur @ [s]) @ take (Suc k) ns) = Some Dir"
      using Cons.prems(1) [rule_format, of "Suc _"] by simp
  qed (use Cons.prems(2) in simp)
  then show ?case using walks.node [of F cur s Dir False n ns] h Cons.prems(2) by (simp add: plain_step)
qed (simp add: walks.stop)

lemma walks_append_up:
  "walks F False n cur ns d \<Longrightarrow> is_dir_at F d \<Longrightarrow> walks F False n cur (ns @ [''..'']) (butlast d)"
  by (induction rule: walks.induct) (auto intro: walks.intros)

lemma walks_store: "store_ok F \<Longrightarrow> walks F False n [] store_dir store_dir"
  using walks_dirs [of store_dir F "[]" n] store_plain
  by (simp add: store_ok_def store_dir_def is_dir_at_def less_Suc_eq All_less_Suc)

lemma store_is_dir: "store_ok F \<Longrightarrow> is_dir_at F store_dir"
  by (simp add: store_ok_def is_dir_at_def)

lemma entry_volume:
  assumes "store_ok F" and "step_name name"
  shows "entry_of F [] (store_dir @ [name]) = Inr (store_dir @ [name])"
  using assms walks_store [OF assms(1), of MAX_LINKS] store_is_dir [OF assms(1)] follows_snoc [OF assms(2), of store_dir]
  by (simp add: entry_of_def resolve_iff [THEN iffD2])

lemma resolve_dir:
  assumes "store_ok F" and "plain_name name" and "lstat F [] (store_dir @ [name]) = Some Dir"
  shows "resolve F [] (store_dir @ [name]) = Inr (store_dir @ [name])"
proof -
  have st: "step_name name" using assms(2) by (rule plain_step)
  have "F (store_dir @ [name]) = Some Dir"
    using assms(3) follows_snoc [OF st, of store_dir] entry_volume [OF assms(1) st] by (simp add: lstat_def node_at_step)
  then show ?thesis
    using walks_append_node [OF walks_store [OF assms(1)] store_is_dir [OF assms(1)] st] by (simp add: resolve_iff)
qed

text \<open>C33: removing a volume by any name but \<open>.\<close> and \<open>..\<close> changes nothing outside that volume's own entry
  of the store: not another volume, not the directory of the host a volume stands for.
\<close>

theorem remove_volume_confined:
  assumes "store_ok F" and "op_remove_volume dbg r F = (F', x)" and "F' p \<noteq> F p" and "opt_trim r \<noteq> Some ''.''"
    and "opt_trim r \<noteq> Some ''..''"
  shows "\<exists>name. opt_trim r = Some name \<and> \<not> starts_with name ''dn7-'' \<and> prefix (store_dir @ [name]) p"
proof -
  obtain name where r: "opt_trim r = Some name" "need_ref r = Inr name"
    using assms(2,3) by (auto simp: op_remove_volume_def need_ref_def split: option.splits sum.splits)
  with assms(2,3) have d: "\<not> starts_with name ''dn7-''" and rm: "\<exists>y. remove_volume dbg name F = (F', y)"
    by (auto simp: op_remove_volume_def runtime_res_def split: if_splits prod.splits sum.splits)
  from rm assms(3) have ok: "volume_name_ok name" by (auto simp: remove_volume_def named_path_def split: if_splits)
  have "name \<noteq> ''.''" "name \<noteq> ''..''" using r assms(4,5) by auto
  note sv = segs_volume [OF ok this]
  have st: "step_name name" by (rule plain_step [OF sv(1)])
  have l: "last (store_dir @ [name]) \<noteq> []" using sv(1) by (simp add: plain_name_def)
  have "prefix (store_dir @ [name]) p"
  proof (cases "lstat F [] (store_dir @ [name]) = Some Dir")
    case True
    with rm assms(3) show ?thesis
      using resolve_dir [OF assms(1) sv(1) True] entry_volume [OF assms(1) st]
      by (auto simp: remove_volume_def named_path_def ok sv(2) [simplified] remove_dir_all_def root_may_def Let_def drop_below_def
          strict_prefix_def split: if_splits)
  next
    case False
    with rm assms(3) show ?thesis
      using entry_volume [OF assms(1) st] l
      by (auto simp: remove_volume_def named_path_def ok sv(2) [simplified] remove_dir_all_def remove_file_def io_cres_def root_may_def
          split: option.splits fnode.splits prod.splits sum.splits if_splits)
  qed
  with r(1) d show ?thesis by blast
qed

text \<open>C29: the name \<open>..\<close> passes every check on a volume name, and removing that volume deletes all the runtime
  keeps: every image, every container and every volume.
\<close>

theorem remove_volume_escapes:
  assumes "store_ok F" and "strict_prefix [''var'', ''lib'', ''dn7-container''] p"
  shows "fst (op_remove_volume dbg (Some ''..'') F) p = None"
proof -
  let ?q = "[''var'', ''lib'', ''dn7-container'']"
  have n: "need_ref (Some ''..'') = Inr ''..''" by code_simp
  have ok: "volume_name_ok ''..''" "\<not> starts_with ''..'' ''dn7-''" by code_simp+
  have s: "segs_of (VOLUMES_DIR @ ''/..'') = store_dir @ [''..'']" by code_simp
  have "walks F False MAX_LINKS [] (store_dir @ [''..'']) ?q"
    using walks_append_up [OF walks_store [OF assms(1)] store_is_dir [OF assms(1)], of MAX_LINKS] by (simp add: store_dir_def)
  then have w: "resolve F [] (store_dir @ [''..'']) = Inr ?q" by (simp add: resolve_iff)
  moreover have "F ?q = Some Dir" using assms(1) by (simp add: store_ok_def)
  moreover have "follows (store_dir @ [''..''])" "last_name (store_dir @ [''..'']) = None" by code_simp+
  ultimately show ?thesis using assms(2)
    by (simp add: op_remove_volume_def n ok remove_volume_def named_path_def s lstat_def node_at_def
        remove_dir_all_def root_may_def entry_of_def drop_below_def runtime_res_def)
qed

text \<open>A store with a volume, a volume that stands for a directory of the host, and an image.\<close>

definition vol_entries :: "(ppath \<times> fnode) list" where
  "vol_entries = [([''var''], Dir), ([''var'', ''lib''], Dir), ([''var'', ''lib'', ''dn7-container''], Dir),
     (store_dir, Dir), (store_dir @ [''data''], Dir), (store_dir @ [''data'', ''x''], File ''1''),
     (store_dir @ [''web''], Link ''/srv''), ([''srv''], Dir), ([''srv'', ''y''], File ''2''),
     ([''var'', ''lib'', ''dn7-container'', ''images''], Dir)]"

definition vol_store :: fsys where "vol_store = map_of vol_entries"

lemma vol_store_ok: "store_ok vol_store"
proof -
  have "list_all (\<lambda>(p, v). p \<noteq> [] \<and> plain_name (last p) \<and> is_dir_at (map_of vol_entries) (butlast p)) vol_entries"
    by code_simp
  then have "p \<noteq> [] \<and> plain_name (last p) \<and> is_dir_at vol_store (butlast p)" if "vol_store p \<noteq> None" for p
    using that map_of_SomeD unfolding vol_store_def list_all_iff by fast
  then have "fs_ok vol_store" unfolding fs_ok_def by blast
  moreover have "map_of vol_entries [''var''] = Some Dir" "map_of vol_entries [''var'', ''lib''] = Some Dir"
    "map_of vol_entries [''var'', ''lib'', ''dn7-container''] = Some Dir" "map_of vol_entries store_dir = Some Dir"
    by code_simp+
  ultimately show ?thesis by (simp add: store_ok_def vol_store_def)
qed

theorem remove_volume_confined_witness:
  "fst (op_remove_volume id (Some ''data'') vol_store) (store_dir @ [''data'', ''x'']) = None \<and>
   fst (op_remove_volume id (Some ''data'') vol_store) [''srv'', ''y''] = Some (File ''2'')"
proof -
  have t: "opt_trim (Some ''data'') = Some ''data''" by code_simp
  obtain F' x where e: "op_remove_volume id (Some ''data'') vol_store = (F', x)" by fastforce
  have "F' [''srv'', ''y''] = vol_store [''srv'', ''y'']"
    using remove_volume_confined [OF vol_store_ok e, of "[''srv'', ''y'']"] t by (auto simp: store_dir_def)
  moreover have "vol_store [''srv'', ''y''] = Some (File ''2'')" by code_simp
  moreover have "F' (store_dir @ [''data'', ''x'']) = None"
  proof -
    have "fst (op_remove_volume id (Some ''data'') vol_store) (store_dir @ [''data'', ''x'']) = None" by code_simp
    with e show ?thesis by simp
  qed
  ultimately show ?thesis using e by simp
qed

theorem remove_volume_escapes_witness:
  "fst (op_remove_volume id (Some ''..'') vol_store) [''var'', ''lib'', ''dn7-container'', ''images''] = None"
  by (rule remove_volume_escapes [OF vol_store_ok]) (simp add: strict_prefix_def)

end
