(* ===== verification/Docker_Create.thy ===== *)
theory Docker_Create
  imports Volumes Container_Ops
begin

text \<open>
  From a request to create a container to the plan the runtime carries out: the validation of
  \<open>src/infra/docker/create/build.rs\<close> and the translation of \<open>src/infra/docker/runtime_dn7.rs\<close>. The
  fields of \<open>bollard\<close> types the code fills in are records. Limits are exact rationals where the code
  has \<open>f64\<close>. A random source, the limits of the host, the value of a decimal text and the stop signal
  of an image are in the environment.
\<close>

section \<open>Requests\<close>

record port_req =
  pq_host :: int
  pq_container :: int
  pq_proto :: "string option"
  pq_host_ip :: "string option"
  pq_ipv6 :: "bool option"

record net_attach =
  na_network :: string
  na_mac :: "string option"
  na_ipv4 :: "string option"

record volume_req =
  vq_host :: string
  vq_container :: string
  vq_readonly :: bool

record create_req =
  rq_image :: "string option"
  rq_name :: "string option"
  rq_ports :: "port_req list option"
  rq_env :: "string list option"
  rq_volumes :: "volume_req list option"
  rq_restart :: "string option"
  rq_start :: "bool option"
  rq_network :: "string option"
  rq_networks :: "net_attach list option"
  rq_mac :: "string option"
  rq_ipv4 :: "string option"
  rq_hostname :: "string option"
  rq_domainname :: "string option"
  rq_dns :: "string list option"
  rq_cpu_shares :: "int option"
  rq_pids_limit :: "int option"
  rq_privileged :: "bool option"
  rq_stop_signal :: "string option"
  rq_stop_timeout :: "int option"
  rq_auto_remove :: "bool option"
  rq_replace :: "string option"
  rq_command :: "string option"
  rq_tty :: "bool option"
  rq_interactive :: "bool option"
  rq_cpus :: "string option"
  rq_memory :: "string option"

record create_env =
  de_dbg :: "string \<Rightarrow> string"
  de_parse_f64 :: "string \<Rightarrow> f64 option"
  de_host_cpus :: nat
  de_host_mem :: nat
  de_urandom :: "8 word list option"
  de_nanos :: nat
  de_pid :: nat
  de_picks :: "nat \<Rightarrow> 8 word \<times> 8 word"
  de_stop_signal :: "string \<Rightarrow> string option"
  de_body :: "create_req \<Rightarrow> string"

type_synonym 'a dres = "derr + 'a"

definition coded :: "(docker_error + 'a) \<Rightarrow> 'a dres" where
  "coded r = (case r of Inl e \<Rightarrow> Inl (Coded e) | Inr x \<Rightarrow> Inr x)"

lemma coded_Inr [simp]: "coded r = Inr x \<longleftrightarrow> r = Inr x"
  by (simp add: coded_def split: sum.splits)

definition is_set :: "bool option \<Rightarrow> bool" where "is_set b \<longleftrightarrow> b = Some True"

text \<open>\<open>iter().flatten()\<close> on an optional list.\<close>

definition flat :: "'a list option \<Rightarrow> 'a list" where "flat xs = (case xs of Some ys \<Rightarrow> ys | None \<Rightarrow> [])"

section \<open>The capability guard\<close>

definition enforce_create_policy :: "create_req \<Rightarrow> bool \<Rightarrow> unit dres" where
  "enforce_create_policy req is_super =
     (if is_super then Inr ()
      else (case create_escalation_of (is_set (rq_privileged req))
                   (map na_network (flat (rq_networks req)) @ (case rq_network req of Some n \<Rightarrow> [n] | None \<Rightarrow> [])) of
          Some EscPrivileged \<Rightarrow> Inl (Coded PrivilegedRequiresSuper)
        | Some EscHostNetwork \<Rightarrow> Inl (Coded HostNetworkRequiresSuper)
        | None \<Rightarrow> Inr ()))"

section \<open>The specification\<close>

datatype restart_name = R_always | R_no | R_on_failure | R_unless_stopped

record host_config =
  hc_restart :: "restart_name \<times> int option"
  hc_binds :: "string list option"
  hc_port_bindings :: "(string, (string option \<times> string) list) hmap option"
  hc_nano_cpus :: "int option"
  hc_memory :: "int option"
  hc_cpu_shares :: "int option"
  hc_privileged :: bool
  hc_dns :: "string list option"
  hc_network_mode :: "string option"

record endpoint =
  ep_network :: string
  ep_ipv4 :: "string option"
  ep_mac :: "string option"

record create_config =
  cc_image :: string
  cc_cmd :: "string list option"
  cc_env :: "string list option"
  cc_tty :: bool
  cc_open_stdin :: bool
  cc_hostname :: "string option"
  cc_domainname :: "string option"
  cc_exposed :: "string list option"
  cc_host :: host_config
  cc_networking :: "endpoint option"

record create_spec =
  sp_image :: string
  sp_name :: "string option"
  sp_start :: bool
  sp_config :: create_config
  sp_replace :: "string option"
  sp_extra :: "net_attach list"

definition spec_restart :: "create_req \<Rightarrow> (restart_name \<times> int option) dres" where
  "spec_restart req =
     (let restart = opt_or (opt_trim (rq_restart req)) ''unless-stopped'' in
      if \<not> restart_allowed restart then Inl (Coded BadRestartPolicy)
      else let (kind, retries) = (case split_once CHR '':'' restart of
               Some (k, n) \<Rightarrow> (k, parse_i64 n) | None \<Rightarrow> (restart, None)) in
        Inr (if kind = ''always'' then R_always else if kind = ''no'' then R_no
             else if kind = ''on-failure'' then R_on_failure else R_unless_stopped, retries))"

definition checked_opt :: "(string \<Rightarrow> checked) \<Rightarrow> string option \<Rightarrow> string option dres" where
  "checked_opt chk s =
     (case opt_trim s of None \<Rightarrow> Inr None | Some t \<Rightarrow> (case chk t of Inl e \<Rightarrow> Inl (Coded e) | Inr _ \<Rightarrow> Inr (Some t)))"

definition spec_one_attach :: "string \<Rightarrow> string option \<Rightarrow> string option \<Rightarrow> net_attach dres" where
  "spec_one_attach network mac ipv4 =
     and_then (coded (validate_token network)) (\<lambda>_.
     and_then (checked_opt valid_mac mac) (\<lambda>m.
     and_then (checked_opt valid_ipv4 ipv4) (\<lambda>i.
       Inr \<lparr>na_network = network, na_mac = m, na_ipv4 = i\<rparr>)))"

fun attach_list :: "net_attach list \<Rightarrow> net_attach list \<Rightarrow> net_attach list dres" where
  "attach_list acc [] = Inr acc"
| "attach_list acc (a # as) =
     (let name = trim (na_network a) in
      if name = [] \<or> list_ex (\<lambda>x. na_network x = name) acc then attach_list acc as
      else and_then (spec_one_attach name (na_mac a) (na_ipv4 a)) (\<lambda>x. attach_list (acc @ [x]) as))"

definition spec_attachments :: "create_req \<Rightarrow> net_attach list dres" where
  "spec_attachments req =
     and_then (case rq_networks req of
         Some l \<Rightarrow> attach_list [] l
       | None \<Rightarrow> (case opt_trim (rq_network req) of
             Some net \<Rightarrow> and_then (spec_one_attach net (rq_mac req) (rq_ipv4 req)) (\<lambda>x. Inr [x])
           | None \<Rightarrow> Inr []))
     (\<lambda>as. if 16 < length as then Inl (Coded TooManyNetworks) else Inr as)"

definition port_proto :: "port_req \<Rightarrow> string" where "port_proto p = opt_or (pq_proto p) ''tcp''"

definition port_ok :: "port_req \<Rightarrow> unit dres" where
  "port_ok p =
     (if pq_host p < 1 \<or> 65535 < pq_host p \<or> pq_container p < 1 \<or> 65535 < pq_container p then Inl (Coded PortRange)
      else if port_proto p \<noteq> ''tcp'' \<and> port_proto p \<noteq> ''udp'' then Inl (Coded BadProto)
      else Inr ())"

definition port_key :: "port_req \<Rightarrow> string" where
  "port_key p = to_dec (nat (pq_container p)) @ ''/'' @ port_proto p"

definition port_bindings :: "port_req \<Rightarrow> (string option \<times> string) list" where
  "port_bindings p =
     (let h = to_dec (nat (pq_host p)) in
      (None, h) # (if is_set (pq_ipv6 p) then [(Some ''::'', h)] else []))"

fun ports_loop :: "port_req list \<Rightarrow> (string, (string option \<times> string) list) hmap \<Rightarrow>
    (string, (string option \<times> string) list) hmap dres" where
  "ports_loop [] bs = Inr bs"
| "ports_loop (p # ps) bs = and_then (port_ok p) (\<lambda>_. ports_loop ps (hm_insert (port_key p) (port_bindings p) bs))"

text \<open>The exposed ports are the keys of the bindings.\<close>

definition spec_ports :: "create_req \<Rightarrow> (string, (string option \<times> string) list) hmap dres" where
  "spec_ports req =
     (case rq_ports req of
        None \<Rightarrow> Inr []
      | Some ps \<Rightarrow> if 50 < length ps then Inl (Coded TooManyPorts) else ports_loop ps [])"

fun checked_list :: "(string \<Rightarrow> checked) \<Rightarrow> string list \<Rightarrow> string list dres" where
  "checked_list chk [] = Inr []"
| "checked_list chk (s # ss) =
     (let t = trim s in
      if t = [] then checked_list chk ss
      else and_then (coded (chk t)) (\<lambda>_. and_then (checked_list chk ss) (\<lambda>ts. Inr (t # ts))))"

definition spec_env :: "create_req \<Rightarrow> string list dres" where
  "spec_env req =
     (case rq_env req of
        None \<Rightarrow> Inr []
      | Some es \<Rightarrow> if 100 < length es then Inl (Coded TooManyEnvs) else checked_list validate_env es)"

definition spec_dns :: "create_req \<Rightarrow> string list dres" where
  "spec_dns req =
     (case rq_dns req of
        None \<Rightarrow> Inr []
      | Some ds \<Rightarrow> if 8 < length ds then Inl (Coded TooManyDns) else checked_list valid_ipv4 ds)"

definition mount_text :: "volume_req \<Rightarrow> string" where
  "mount_text v = trim (vq_host v) @ '':'' @ trim (vq_container v) @ (if vq_readonly v then '':ro'' else [])"

definition volume_ok :: "(string \<Rightarrow> string option) \<Rightarrow> volume_req \<Rightarrow> unit dres" where
  "volume_ok canon v =
     (let host = trim (vq_host v) in
      and_then (coded (if starts_with host ''/'' then validate_bind_source canon host else validate_name host))
        (\<lambda>_. coded (validate_path (trim (vq_container v)))))"

fun binds_loop :: "(string \<Rightarrow> string option) \<Rightarrow> volume_req list \<Rightarrow> string list dres" where
  "binds_loop canon [] = Inr []"
| "binds_loop canon (v # vs) =
     and_then (volume_ok canon v) (\<lambda>_. and_then (binds_loop canon vs) (\<lambda>bs. Inr (mount_text v # bs)))"

definition spec_binds :: "(string \<Rightarrow> string option) \<Rightarrow> create_req \<Rightarrow> string list dres" where
  "spec_binds canon req =
     (case rq_volumes req of
        None \<Rightarrow> Inr []
      | Some vs \<Rightarrow> if 50 < length vs then Inl (Coded TooManyMounts) else binds_loop canon vs)"

text \<open>\<open>as i64\<close> of a float times a constant: towards zero, saturating.\<close>

definition f64_scaled :: "f64 \<Rightarrow> rat \<Rightarrow> int" where
  "f64_scaled v k =
     (case v of
        Finite x \<Rightarrow> let y = x * k; n = (if 0 \<le> y then floor y else ceiling y) in max (- (2 ^ 63)) (min (2 ^ 63 - 1) n)
      | PosInf \<Rightarrow> 2 ^ 63 - 1 | NegInf \<Rightarrow> - (2 ^ 63) | NaN \<Rightarrow> 0)"

definition f64_over :: "f64 \<Rightarrow> nat \<Rightarrow> bool" where
  "f64_over v n \<longleftrightarrow> (case v of Finite x \<Rightarrow> of_nat n < x | PosInf \<Rightarrow> True | NegInf \<Rightarrow> False | NaN \<Rightarrow> False)"

text \<open>The message of the limit on processors, in UTF-8.\<close>

definition utf8 :: "nat list \<Rightarrow> string" where "utf8 bs = map char_of bs"

definition cpu_limit_text :: "nat \<Rightarrow> string" where
  "cpu_limit_text host = ''CPU '' @
     utf8 [0xE9, 0x99, 0x90, 0xE5, 0x88, 0xB6, 0xE4, 0xB8, 0x8D, 0xE8, 0x83, 0xBD, 0xE8, 0xB6, 0x85, 0xE8, 0xBF, 0x87,
       0xE5, 0xAE, 0xBF, 0xE4, 0xB8, 0xBB, 0xE6, 0x9C, 0xBA, 0xE6, 0xA0, 0xB8, 0xE6, 0x95, 0xB0, 0xEF, 0xBC, 0x88] @
     to_dec host @ utf8 [0xEF, 0xBC, 0x89]"

text \<open>The wrap of \<open>u64 as i64\<close>.\<close>

definition as_i64 :: "nat \<Rightarrow> int" where
  "as_i64 n = (let m = int n mod 2 ^ 64 in if m < 2 ^ 63 then m else m - 2 ^ 64)"

definition spec_cpus :: "create_env \<Rightarrow> create_req \<Rightarrow> int option dres" where
  "spec_cpus E req =
     (case opt_trim (rq_cpus req) of
        None \<Rightarrow> Inr None
      | Some cpus \<Rightarrow>
          and_then (coded (validate_cpus (de_parse_f64 E) cpus)) (\<lambda>_.
            let v = opt_or (de_parse_f64 E cpus) (Finite 0); host = de_host_cpus E in
            if 0 < host \<and> f64_over v host then Inl (Message (cpu_limit_text host))
            else Inr (Some (f64_scaled v 1000000000))))"

definition spec_memory :: "create_env \<Rightarrow> create_req \<Rightarrow> int option dres" where
  "spec_memory E req =
     (case opt_trim (rq_memory req) of
        None \<Rightarrow> Inr None
      | Some mem \<Rightarrow>
          and_then (coded (validate_memory mem)) (\<lambda>_.
            let host = de_host_mem E; bytes = mem_to_bytes mem in
            if 0 < host \<and> host < bytes then Inl (Coded MemOverHost) else Inr (Some (as_i64 bytes))))"

definition spec_cpu_mem :: "create_env \<Rightarrow> create_req \<Rightarrow> (int option \<times> int option) dres" where
  "spec_cpu_mem E req = and_then (spec_cpus E req) (\<lambda>c. and_then (spec_memory E req) (\<lambda>m. Inr (c, m)))"

definition spec_cpu_shares :: "create_req \<Rightarrow> int option dres" where
  "spec_cpu_shares req =
     (case rq_cpu_shares req of
        Some v \<Rightarrow> if 0 < v then (if 2 \<le> v \<and> v \<le> 262144 then Inr (Some v) else Inl (Coded CpuSharesRange)) else Inr None
      | None \<Rightarrow> Inr None)"

definition spec_networking_config :: "net_attach list \<Rightarrow> endpoint option" where
  "spec_networking_config as =
     (case as of
        [] \<Rightarrow> None
      | a # _ \<Rightarrow> if na_mac a = None \<and> na_ipv4 a = None then None
          else Some \<lparr>ep_network = na_network a, ep_ipv4 = na_ipv4 a, ep_mac = na_mac a\<rparr>)"

definition spec_command :: "create_req \<Rightarrow> string list option dres" where
  "spec_command req =
     (case opt_trim (rq_command req) of
        None \<Rightarrow> Inr None
      | Some c \<Rightarrow> and_then (coded (split_command c)) (\<lambda>ws. Inr (Some ws)))"

definition non_empty :: "'a list \<Rightarrow> 'a list option" where "non_empty xs = (if xs = [] then None else Some xs)"

definition build_create_spec :: "create_env \<Rightarrow> (string \<Rightarrow> string option) \<Rightarrow> create_req \<Rightarrow> (create_spec \<times> string) dres" where
  "build_create_spec E canon req =
     (case opt_trim (rq_image req) of
        None \<Rightarrow> Inl (Message ''missing image'')
      | Some img \<Rightarrow>
          and_then (coded (validate_token img)) (\<lambda>_.
          and_then (checked_opt validate_name (rq_name req)) (\<lambda>name.
          and_then (spec_restart req) (\<lambda>restart.
          and_then (spec_attachments req) (\<lambda>attachments.
            let network = (case attachments of a # _ \<Rightarrow> Some (na_network a) | [] \<Rightarrow> None) in
          and_then (spec_ports req) (\<lambda>bindings.
            if bindings \<noteq> [] \<and> (network = Some ''host'' \<or> network = Some ''none'') then Inl (Coded PortsWithHostNet)
            else
          and_then (spec_env req) (\<lambda>env.
          and_then (spec_binds canon req) (\<lambda>binds.
          and_then (spec_cpu_mem E req) (\<lambda>(nano_cpus, memory).
            let tty = is_set (rq_tty req); interactive = opt_or (rq_interactive req) tty in
          and_then (spec_cpu_shares req) (\<lambda>cpu_shares.
          and_then (spec_dns req) (\<lambda>dns.
          and_then (checked_opt valid_hostname (rq_hostname req)) (\<lambda>hostname.
          and_then (checked_opt valid_hostname (rq_domainname req)) (\<lambda>domainname.
          and_then (spec_command req) (\<lambda>cmd.
            Inr (\<lparr>sp_image = img, sp_name = name, sp_start = opt_or (rq_start req) True,
              sp_config = \<lparr>cc_image = img, cc_cmd = cmd, cc_env = non_empty env, cc_tty = tty, cc_open_stdin = interactive,
                cc_hostname = hostname, cc_domainname = domainname, cc_exposed = non_empty (map fst bindings),
                cc_host = \<lparr>hc_restart = restart, hc_binds = non_empty binds, hc_port_bindings = non_empty bindings,
                  hc_nano_cpus = nano_cpus, hc_memory = memory, hc_cpu_shares = cpu_shares,
                  hc_privileged = is_set (rq_privileged req), hc_dns = non_empty dns, hc_network_mode = network\<rparr>,
                cc_networking = spec_networking_config attachments\<rparr>,
              sp_replace = opt_trim (rq_replace req), sp_extra = drop 1 attachments\<rparr>, opt_or name [])))))))))))))))"

end
