(* ===== verification/Docker_Plan.thy ===== *)
theory Docker_Plan
  imports Docker_Create
begin

text \<open>
  The translation of a validated request for the panel's own runtime and the check of its host ports
  (\<open>src/infra/docker/runtime_dn7.rs\<close>, \<open>create/checks.rs\<close>).
\<close>

section \<open>Identifiers and names\<close>

fun hex_digits :: "nat \<Rightarrow> nat \<Rightarrow> string" where
  "hex_digits 0 n = []"
| "hex_digits (Suc k) n = hex_digits k (n div 16) @ [hex_digit (n mod 16)]"

text \<open>32 hexadecimal digits of an \<open>u128\<close>.\<close>

definition gen_container_id :: "create_env \<Rightarrow> string" where
  "gen_container_id E =
     (case de_urandom E of
        Some bs \<Rightarrow> concat (map hex2 bs)
      | None \<Rightarrow> hex_digits 32 (de_nanos E) @ hex_digits 32 (de_pid E * 0x9E3779B97F4A7C15 mod 2 ^ 128))"

definition ADJ :: "string list" where
  "ADJ = [''admiring'', ''bold'', ''brave'', ''calm'', ''clever'', ''cool'', ''dreamy'', ''eager'', ''elegant'', ''fervent'',
     ''gentle'', ''gifted'', ''happy'', ''jolly'', ''keen'', ''kind'', ''lucid'', ''mystic'', ''nifty'', ''peaceful'',
     ''quirky'', ''serene'', ''sharp'', ''silly'', ''stoic'', ''tender'', ''upbeat'', ''vibrant'', ''wizardly'', ''zen'']"

definition SUR :: "string list" where
  "SUR = [''babbage'', ''bardeen'', ''bohr'', ''curie'', ''darwin'', ''dijkstra'', ''euler'', ''fermi'', ''franklin'',
     ''galileo'', ''gauss'', ''goldberg'', ''hamilton'', ''hawking'', ''hopper'', ''kepler'', ''knuth'', ''liskov'',
     ''lovelace'', ''mendel'', ''newton'', ''noether'', ''pasteur'', ''perlman'', ''planck'', ''ritchie'', ''shannon'',
     ''tesla'', ''torvalds'', ''turing'']"

definition pick_name :: "8 word \<times> 8 word \<Rightarrow> string" where
  "pick_name b = ADJ ! (unat (fst b) mod length ADJ) @ ''_'' @ SUR ! (unat (snd b) mod length SUR)"

text \<open>The n-th draw is \<open>de_picks E n\<close>; \<open>fresh\<close> is the identifier drawn when every name was taken.\<close>

definition gen_container_name :: "create_env \<Rightarrow> string \<Rightarrow> (string \<Rightarrow> bool) \<Rightarrow> string" where
  "gen_container_name E fresh in_use =
     (case find (\<lambda>n. \<not> in_use n) (map (\<lambda>k. pick_name (de_picks E k)) [0..<24]) of
        Some n \<Rightarrow> n
      | None \<Rightarrow> pick_name (de_picks E 24) @ ''_'' @ take 6 fresh)"

definition name_in_use :: "'k cworld \<Rightarrow> string \<Rightarrow> bool" where
  "name_in_use w name \<longleftrightarrow> list_ex (\<lambda>s. sm_name (cs_meta s) = Some name) (all_states w)"

section \<open>The plan\<close>

record image_run_spec =
  ir_id :: string
  ir_reference :: string
  ir_cmd :: "string list"
  ir_net_mode :: string
  ir_ports :: string
  ir_volumes :: "volume_mount list"
  ir_env_extra :: "string list"
  ir_dns :: "string list"
  ir_hostname :: "string option"
  ir_mem_limit :: "int option"
  ir_cpu_quota :: "(int \<times> nat) option"
  ir_cpu_shares :: "nat option"
  ir_pids_limit :: "int option"
  ir_tty :: bool
  ir_static_ip :: "string option"
  ir_static_mac :: "string option"

record create_plan =
  dp_spec :: image_run_spec
  dp_meta :: state_meta
  dp_target :: string
  dp_start :: bool
  dp_replace :: "string option"
  dp_image :: string
  dp_extra_nets :: "net_attach list"

text \<open>The request stored with a container, from which it is created again.\<close>

definition create_body :: "create_req \<Rightarrow> create_req" where
  "create_body r =
     \<lparr>rq_image = rq_image r, rq_name = rq_name r,
      rq_ports = Some (map (\<lambda>p. p\<lparr>pq_proto := Some (port_proto p), pq_ipv6 := Some (is_set (pq_ipv6 p))\<rparr>) (flat (rq_ports r))),
      rq_env = rq_env r, rq_volumes = Some (flat (rq_volumes r)), rq_restart = rq_restart r, rq_start = None,
      rq_network = None, rq_networks = Some (flat (rq_networks r)), rq_mac = None, rq_ipv4 = None,
      rq_hostname = rq_hostname r, rq_domainname = rq_domainname r, rq_dns = rq_dns r, rq_cpu_shares = rq_cpu_shares r,
      rq_pids_limit = rq_pids_limit r, rq_privileged = Some (is_set (rq_privileged r)),
      rq_stop_signal = rq_stop_signal r, rq_stop_timeout = rq_stop_timeout r,
      rq_auto_remove = Some (is_set (rq_auto_remove r)), rq_replace = None, rq_command = rq_command r,
      rq_tty = Some (is_set (rq_tty r)), rq_interactive = Some (is_set (rq_interactive r)),
      rq_cpus = rq_cpus r, rq_memory = rq_memory r\<rparr>"

definition port_text_of :: "port_req \<Rightarrow> string" where
  "port_text_of p =
     (let rest = to_dec (nat (pq_host p)) @ '':'' @ to_dec (nat (pq_container p)) @ ''/'' @ port_proto p in
      case opt_trim (pq_host_ip p) of Some ip \<Rightarrow> ip @ '':'' @ rest | None \<Rightarrow> rest)"

definition ports_text :: "port_req list \<Rightarrow> string" where
  "ports_text ps = join_with CHR '','' (map port_text_of ps)"

text \<open>A missing source is made, as a directory; whether that succeeds is not looked at.\<close>

definition ensure_source :: "string \<Rightarrow> fsys \<Rightarrow> fsys" where
  "ensure_source src F = (if stat F [] (segs_of src) \<noteq> None then F else fst (make_dirs src F))"

fun plan_volumes :: "(string \<Rightarrow> string) \<Rightarrow> volume_req list \<Rightarrow> fsys \<Rightarrow> fsys \<times> volume_mount list dres" where
  "plan_volumes dbg [] F = (F, Inr [])"
| "plan_volumes dbg (v # vs) F =
     (if trim (vq_host v) = [] \<or> trim (vq_container v) = [] then plan_volumes dbg vs F
      else (case resolve_mount dbg (mount_text v) F of
          (F, Inl e) \<Rightarrow> (F, Inl (Runtime e))
        | (F, Inr m) \<Rightarrow>
            (case plan_volumes dbg vs (ensure_source (vm_source m) F) of
               (F, Inl e) \<Rightarrow> (F, Inl e)
             | (F, Inr ms) \<Rightarrow> (F, Inr (m # ms)))))"

text \<open>The mode of the primary network, and the network asked for by name.\<close>

definition primary_name :: "create_req \<Rightarrow> string option \<Rightarrow> string option" where
  "primary_name req hc_mode =
     (case flat (rq_networks req) of
        a # _ \<Rightarrow> if trim (na_network a) \<noteq> [] then Some (trim (na_network a)) else hc_mode
      | [] \<Rightarrow> hc_mode)"

definition plan_mode :: "string option \<Rightarrow> string \<times> string option" where
  "plan_mode n =
     (case n of
        None \<Rightarrow> (''bridge'', None)
      | Some m \<Rightarrow>
          if m = ''bridge'' \<or> m = ''dn7'' then (''bridge'', None)
          else if m = ''host'' \<or> m = ''none'' then (m, None) else (m, Some m))"

definition first_set :: "(net_attach \<Rightarrow> string option) \<Rightarrow> create_req \<Rightarrow> string option" where
  "first_set f req =
     (case flat (rq_networks req) of
        a # _ \<Rightarrow> (case f a of Some s \<Rightarrow> if trim s \<noteq> [] then Some s else None | None \<Rightarrow> None)
      | [] \<Rightarrow> None)"

definition trimmed_list :: "string list option \<Rightarrow> string list" where
  "trimmed_list xs = filter (\<lambda>s. s \<noteq> []) (map trim (flat xs))"

definition positive :: "int option \<Rightarrow> int option" where
  "positive v = (case v of Some n \<Rightarrow> if 0 < n then Some n else None | None \<Rightarrow> None)"

definition plan_spec :: "create_env \<Rightarrow> create_req \<Rightarrow> create_spec \<Rightarrow> volume_mount list \<Rightarrow> string list \<Rightarrow> image_run_spec" where
  "plan_spec E req cspec volumes cmd =
     (let i = gen_container_id E;
          cpus = Option.bind (opt_trim (rq_cpus req)) (de_parse_f64 E) in
      \<lparr>ir_id = i, ir_reference = sp_image cspec, ir_cmd = cmd,
       ir_net_mode = fst (plan_mode (primary_name req (hc_network_mode (cc_host (sp_config cspec))))),
       ir_ports = ports_text (flat (rq_ports req)), ir_volumes = volumes, ir_env_extra = trimmed_list (rq_env req),
       ir_dns = trimmed_list (rq_dns req), ir_hostname = Some (opt_or (opt_trim (rq_hostname req)) (take 12 i)),
       ir_mem_limit = map_option (\<lambda>m. as_i64 (mem_to_bytes m)) (opt_trim (rq_memory req)),
       ir_cpu_quota = map_option (\<lambda>v. (f64_scaled v 100000, 100000)) cpus,
       ir_cpu_shares = map_option nat (positive (rq_cpu_shares req)), ir_pids_limit = positive (rq_pids_limit req),
       ir_tty = is_set (rq_tty req), ir_static_ip = first_set na_ipv4 req, ir_static_mac = first_set na_mac req\<rparr>)"

definition plan_meta :: "create_env \<Rightarrow> create_req \<Rightarrow> create_spec \<Rightarrow> string \<Rightarrow> image_run_spec \<Rightarrow> state_meta" where
  "plan_meta E req cspec name spec =
     default_meta\<lparr>sm_image := Some (sp_image cspec), sm_name := Some name,
       sm_restart_policy := Some (opt_or (opt_trim (rq_restart req)) ''unless-stopped''),
       sm_tty := is_set (rq_tty req), sm_open_stdin := opt_or (rq_interactive req) (is_set (rq_tty req)),
       sm_hostname := ir_hostname spec, sm_domainname := opt_trim (rq_domainname req), sm_dns := ir_dns spec,
       sm_env := ir_env_extra spec, sm_cmd := ir_cmd spec, sm_mem_limit := ir_mem_limit spec,
       sm_nano_cpus := map_option (\<lambda>v. f64_scaled v 1000000000) (Option.bind (opt_trim (rq_cpus req)) (de_parse_f64 E)),
       sm_cpu_shares := positive (rq_cpu_shares req), sm_privileged := False, sm_ports_spec := ir_ports spec,
       sm_net_name_requested := snd (plan_mode (primary_name req (hc_network_mode (cc_host (sp_config cspec))))),
       sm_create_spec := Some (de_body E (create_body req)),
       sm_stop_signal := (case opt_trim (rq_stop_signal req) of Some g \<Rightarrow> Some g | None \<Rightarrow> de_stop_signal E (sp_image cspec)),
       sm_stop_timeout := positive (rq_stop_timeout req), sm_auto_remove := is_set (rq_auto_remove req)\<rparr>"

definition build_dn7_create ::
  "create_env \<Rightarrow> string \<Rightarrow> (string \<Rightarrow> bool) \<Rightarrow> create_req \<Rightarrow> fsys \<Rightarrow> fsys \<times> create_plan dres" where
  "build_dn7_create E fresh in_use req F =
     (case build_create_spec E (canon_text F) req of
        Inl e \<Rightarrow> (F, Inl e)
      | Inr (cspec, display_name) \<Rightarrow>
          if is_set (rq_privileged req) then (F, Inl (Message ''ERR_CODE:dn7.create_privileged_unsupported''))
          else if list_ex (\<lambda>p. is_set (pq_ipv6 p)) (flat (rq_ports req))
          then (F, Inl (Message ''ERR_CODE:docker.ipv6_publish_unsupported''))
          else (case plan_volumes (de_dbg E) (flat (rq_volumes req)) F of
              (F, Inl e) \<Rightarrow> (F, Inl e)
            | (F, Inr volumes) \<Rightarrow>
                (F, and_then (spec_command req) (\<lambda>cmd.
                  let spec = plan_spec E req cspec volumes (opt_or cmd []);
                      name = opt_or (sp_name cspec) (gen_container_name E fresh in_use) in
                  Inr \<lparr>dp_spec = spec, dp_meta = plan_meta E req cspec name spec,
                    dp_target = (if display_name = [] then sp_image cspec else display_name), dp_start = sp_start cspec,
                    dp_replace = sp_replace cspec, dp_image = sp_image cspec,
                    dp_extra_nets = drop 1 (flat (rq_networks req))\<rparr>))))"

section \<open>Host ports\<close>

definition show_int :: "int \<Rightarrow> string" where
  "show_int n = (if n < 0 then CHR ''-'' # to_dec (nat (- n)) else to_dec (nat n))"

definition US :: char where "US = CHR 0x1F"

text \<open>The messages carry their arguments behind unit separators; \<open>upper\<close> stands for \<open>to_uppercase\<close>.\<close>

definition port_message :: "(string \<Rightarrow> string) \<Rightarrow> string \<Rightarrow> port_req \<Rightarrow> string list \<Rightarrow> derr" where
  "port_message upper code p args =
     Message (''ERR_CODE:docker.'' @ code @ concat (map (\<lambda>a. US # a) ([show_int (pq_host p), upper (port_proto p)] @ args)))"

fun dup_loop :: "(string \<Rightarrow> string) \<Rightarrow> (int \<times> string) set \<Rightarrow> port_req list \<Rightarrow> unit dres" where
  "dup_loop upper seen [] = Inr ()"
| "dup_loop upper seen (p # ps) =
     (if (pq_host p, port_proto p) \<in> seen then Inl (port_message upper ''port_duplicated'' p [])
      else dup_loop upper (insert (pq_host p, port_proto p) seen) ps)"

definition reject_duplicate_ports :: "(string \<Rightarrow> string) \<Rightarrow> port_req list \<Rightarrow> unit dres" where
  "reject_duplicate_ports upper ps = dup_loop upper {} ps"

definition parse_ports_spec :: "string \<Rightarrow> (int \<times> string) list" where
  "parse_ports_spec spec =
     List.map_filter (\<lambda>p.
       let (hostpart, pr) = (case rsplit_once CHR ''/'' p of Some hp \<Rightarrow> hp | None \<Rightarrow> (p, ''tcp'')) in
       case split_once CHR '':'' hostpart of
         Some (hp, _) \<Rightarrow> (case parse_i64 hp of Some h \<Rightarrow> Some (h, pr) | None \<Rightarrow> None)
       | None \<Rightarrow> None)
     (filter (\<lambda>s. s \<noteq> []) (split_on CHR '','' spec))"

definition owner_name :: "cstate \<Rightarrow> string" where "owner_name s = opt_or (sm_name (cs_meta s)) (cs_id s)"

text \<open>The ports of running containers with their owners; the first entry of a port counts.\<close>

definition held_ports :: "'k cworld \<Rightarrow> ((int \<times> string) \<times> string) list" where
  "held_ports w =
     concat (map (\<lambda>s. map (\<lambda>k. (k, owner_name s)) (parse_ports_spec (sm_ports_spec (cs_meta s))))
       (filter (\<lambda>s. cs_status s = Running) (all_states w)))"

definition port_busy :: "(int \<Rightarrow> string \<Rightarrow> bool) \<Rightarrow> int \<Rightarrow> string \<Rightarrow> bool" where
  "port_busy bound port pr \<longleftrightarrow> 1 \<le> port \<and> port \<le> 65535 \<and> bound port (if pr = ''udp'' then ''udp'' else ''tcp'')"

fun conflict_loop :: "(string \<Rightarrow> string) \<Rightarrow> (int \<Rightarrow> string \<Rightarrow> bool) \<Rightarrow> string list \<Rightarrow> ((int \<times> string) \<times> string) list \<Rightarrow>
    port_req list \<Rightarrow> unit dres" where
  "conflict_loop upper bound excluded held [] = Inr ()"
| "conflict_loop upper bound excluded held (p # ps) =
     (case map_of held (pq_host p, port_proto p) of
        Some owner \<Rightarrow>
          if owner \<notin> set excluded then Inl (port_message upper ''port_in_use_container'' p [owner])
          else conflict_loop upper bound excluded held ps
      | None \<Rightarrow>
          if port_busy bound (pq_host p) (port_proto p) then Inl (port_message upper ''port_in_use_process'' p [])
          else conflict_loop upper bound excluded held ps)"

definition option_list :: "'a option \<Rightarrow> 'a list" where
  "option_list v = (case v of Some x \<Rightarrow> [x] | None \<Rightarrow> [])"

definition check_dn7_port_conflicts :: "(string \<Rightarrow> string) \<Rightarrow> (int \<Rightarrow> string \<Rightarrow> bool) \<Rightarrow> create_req \<Rightarrow> 'k cworld \<Rightarrow> unit dres" where
  "check_dn7_port_conflicts upper bound req w =
     (let ps = flat (rq_ports req) in
      if ps = [] then Inr ()
      else and_then (reject_duplicate_ports upper ps) (\<lambda>_.
        conflict_loop upper bound (option_list (opt_trim (rq_replace req)) @ option_list (opt_trim (rq_name req)))
          (held_ports w) ps))"

end
