(* ===== verification/Docker_Plan_Proofs.thy ===== *)
theory Docker_Plan_Proofs
  imports Docker_Plan
begin

text \<open>
  What a plan is: which network and mounts a request can get, which ports it publishes, that its limits
  are those of the host, that its identifier is a valid one, and that the request stored with a
  container leads to the same plan again.
\<close>

section \<open>A request that passed\<close>

lemma opt_trim_Some: "opt_trim s = Some t \<longleftrightarrow> (\<exists>u. s = Some u \<and> t = trim u \<and> t \<noteq> [])"
  by (auto simp: opt_trim_def split: option.splits if_splits)

text \<open>What every plan is built from.\<close>

lemma build_cases:
  assumes "build_dn7_create E fresh u req F = (F', Inr plan)"
  obtains cspec dn vols cmd where
    "build_create_spec E (canon_text F) req = Inr (cspec, dn)" "\<not> is_set (rq_privileged req)"
    "\<not> list_ex (\<lambda>p. is_set (pq_ipv6 p)) (flat (rq_ports req))"
    "plan_volumes (de_dbg E) (flat (rq_volumes req)) F = (F', Inr vols)"
    "spec_command req = Inr cmd" "dp_spec plan = plan_spec E req cspec vols (opt_or cmd [])"
    "dp_meta plan = plan_meta E req cspec (opt_or (sp_name cspec) (gen_container_name E fresh u)) (dp_spec plan)"
  using assms
  by (auto simp: build_dn7_create_def and_then_Inr Let_def split: sum.splits prod.splits if_splits)

lemma spec_cases:
  assumes "build_create_spec E canon req = Inr (cspec, dn)"
  obtains as bindings binds c m where
    "spec_attachments req = Inr as" "spec_ports req = Inr bindings" "spec_binds canon req = Inr binds"
    "spec_cpu_mem E req = Inr (c, m)" "hc_network_mode (cc_host (sp_config cspec)) = (case as of a # _ \<Rightarrow> Some (na_network a) | [] \<Rightarrow> None)"
    "bindings = [] \<or> hc_network_mode (cc_host (sp_config cspec)) \<notin> {Some ''host'', Some ''none''}"
  using assms
  by (auto simp: build_create_spec_def and_then_Inr Let_def split: option.splits if_splits)

section \<open>The network\<close>

lemma attach_list_names:
  "attach_list acc as = Inr bs \<Longrightarrow> na_network ` set bs \<subseteq> na_network ` set acc \<union> (trim \<circ> na_network) ` set as"
proof (induction as arbitrary: acc)
  case (Cons a as)
  let ?n = "trim (na_network a)"
  show ?case
  proof (cases "?n = [] \<or> list_ex (\<lambda>x. na_network x = ?n) acc")
    case True
    then have "attach_list acc as = Inr bs" using Cons.prems by (auto simp: Let_def)
    from Cons.IH [OF this] show ?thesis by auto
  next
    case False
    then obtain x where x: "spec_one_attach ?n (na_mac a) (na_ipv4 a) = Inr x" "attach_list (acc @ [x]) as = Inr bs"
      using Cons.prems by (auto simp: Let_def and_then_Inr)
    then have "na_network x = ?n" by (auto simp: spec_one_attach_def and_then_Inr)
    with Cons.IH [OF x(2)] show ?thesis by auto
  qed
qed simp

text \<open>The networks a request names, as the guard sees them.\<close>

definition named_networks :: "create_req \<Rightarrow> string set" where
  "named_networks req = trim ` (na_network ` set (flat (rq_networks req)) \<union> set (option_list (rq_network req)))"

lemma attachments_named:
  assumes "spec_attachments req = Inr as"
  shows "na_network ` set as \<subseteq> named_networks req"
proof (cases "rq_networks req")
  case None
  then show ?thesis using assms
    by (auto simp: spec_attachments_def and_then_Inr opt_trim_Some named_networks_def option_list_def spec_one_attach_def
        split: option.splits if_splits)
next
  case (Some l)
  with assms have "attach_list [] l = Inr as"
    by (auto simp: spec_attachments_def and_then_Inr split: if_splits)
  from attach_list_names [OF this] Some show ?thesis by (auto simp: named_networks_def flat_def)
qed

lemma primary_named:
  assumes "spec_attachments req = Inr as" and "primary_name req (case as of a # _ \<Rightarrow> Some (na_network a) | [] \<Rightarrow> None) = Some n"
  shows "n \<in> named_networks req"
  using assms(2) attachments_named [OF assms(1)]
  by (auto simp: primary_name_def named_networks_def flat_def split: list.splits if_splits option.splits)

lemma guard_networks:
  "enforce_create_policy req False = Inr () \<Longrightarrow> n \<in> named_networks req \<Longrightarrow> \<not> network_mode_privileged n"
  by (auto simp: enforce_create_policy_def create_escalation_of_def named_networks_def option_list_def list_ex_iff
      split: if_splits option.splits)

lemma planned_mode:
  assumes "build_dn7_create E fresh u req F = (F', Inr plan)"
  shows "ir_net_mode (dp_spec plan) \<in> insert ''bridge'' (named_networks req)"
proof -
  from assms obtain cspec dn vols cmd where b: "build_create_spec E (canon_text F) req = Inr (cspec, dn)"
    "dp_spec plan = plan_spec E req cspec vols (opt_or cmd [])" by (rule build_cases)
  from b(1) obtain as where as: "spec_attachments req = Inr as"
    "hc_network_mode (cc_host (sp_config cspec)) = (case as of a # _ \<Rightarrow> Some (na_network a) | [] \<Rightarrow> None)" by (rule spec_cases)
  have "ir_net_mode (dp_spec plan) = fst (plan_mode (primary_name req (case as of a # _ \<Rightarrow> Some (na_network a) | [] \<Rightarrow> None)))"
    using b(2) as(2) by (simp add: plan_spec_def Let_def)
  then show ?thesis using primary_named [OF as(1)] by (auto simp: plan_mode_def split: option.splits if_splits)
qed

section \<open>Mounts\<close>

lemma no_colon_path: "validate_path p = Inr () \<Longrightarrow> CHR '':'' \<notin> set p"
  by (auto simp: validate_path_def list_ex_iff path_bad_chars_def split: if_splits)

lemma no_colon_name: "validate_name p = Inr () \<Longrightarrow> CHR '':'' \<notin> set p \<and> CHR ''/'' \<notin> set p"
proof -
  have "\<not> (is_ascii_alphanumeric CHR '':'' \<or> CHR '':'' \<in> set ''_.-'')" "\<not> (is_ascii_alphanumeric CHR ''/'' \<or> CHR ''/'' \<in> set ''_.-'')"
    by code_simp+
  then show "validate_name p = Inr () \<Longrightarrow> ?thesis" unfolding validate_name_def list_all_iff by (auto split: if_splits)
qed

text \<open>A mount the request may have: from a place of the host that is vetted as written and as resolved at the
  time, or from the store, to an absolute place of the container without a parent step.\<close>

definition vetted_mount :: "fsys \<Rightarrow> volume_mount \<Rightarrow> bool" where
  "vetted_mount F m \<longleftrightarrow>
     (starts_with (vm_source m) ''/'' \<and> \<not> host_bind_denied (vm_source m) \<and>
        (\<forall>c. canon_text F (vm_source m) = Some c \<longrightarrow> \<not> host_bind_denied c) \<or>
      (\<exists>n. validate_name n = Inr () \<and> vm_source m = VOLUMES_DIR @ ''/'' @ n)) \<and>
     starts_with (vm_dest m) ''/'' \<and> ''..'' \<notin> set (split_on CHR ''/'' (vm_dest m))"

lemma resolve_vetted:
  assumes "volume_ok (canon_text F0) v = Inr ()" and "resolve_mount dbg (mount_text v) F = (F', Inr m)"
  shows "vetted_mount F0 m \<and> vm_ro m = vq_readonly v \<and> vm_dest m = trim (vq_container v)"
proof -
  let ?h = "trim (vq_host v)" and ?c = "trim (vq_container v)"
  have c: "validate_path ?c = Inr ()" and h: "if starts_with ?h ''/'' then validate_bind_source (canon_text F0) ?h = Inr () else validate_name ?h = Inr ()"
    using assms(1) by (auto simp: volume_ok_def and_then_Inr Let_def)
  have hp: "starts_with ?h ''/'' \<Longrightarrow> validate_path ?h = Inr ()" using h bind_source_sound by fastforce
  have nc: "CHR '':'' \<notin> set ?h" "CHR '':'' \<notin> set ?c"
    using h no_colon_path [OF c] no_colon_name hp no_colon_path by (auto split: if_splits)
  have sp: "split_on CHR '':'' (mount_text v) = (if vq_readonly v then [?h, ?c, ''ro''] else [?h, ?c])"
    using split_two [OF nc] split_three [OF nc, of "''ro''"] by (auto simp: mount_text_def)
  have m: "vm_dest m = ?c" "vm_ro m = vq_readonly v" "resolve_source dbg ?h F = (F', Inr (vm_source m))"
    using assms(2) unfolding resolve_mount_def sp by (auto split: if_splits prod.splits sum.splits)
  have "starts_with ?h ''/'' \<and> vm_source m = ?h \<or> \<not> starts_with ?h ''/'' \<and> vm_source m = VOLUMES_DIR @ ''/'' @ ?h"
    using m(3) h no_colon_name [of ?h]
    by (auto simp: resolve_source_def named_path_def starts_with_iff split: if_splits sum.splits prod.splits)
  with h m(1,2) valid_path_absolute [OF c] bind_source_sound show ?thesis
    by (fastforce simp: vetted_mount_def)
qed

lemma binds_loop_ok: "binds_loop canon vs = Inr bs \<Longrightarrow> \<forall>v \<in> set vs. volume_ok canon v = Inr ()"
  by (induction vs arbitrary: bs) (auto simp: and_then_Inr)

lemma plan_volumes_vetted:
  assumes "\<forall>v \<in> set vs. volume_ok (canon_text F0) v = Inr ()" and "plan_volumes dbg vs F = (F', Inr ms)"
  shows "\<forall>m \<in> set ms. vetted_mount F0 m"
  using assms
proof (induction vs arbitrary: F ms)
  case (Cons v vs)
  show ?case
  proof (cases "trim (vq_host v) = [] \<or> trim (vq_container v) = []")
    case True
    with Cons.prems have "plan_volumes dbg vs F = (F', Inr ms)" by auto
    with Cons show ?thesis by simp
  next
    case False
    then obtain F1 m ns where r: "resolve_mount dbg (mount_text v) F = (F1, Inr m)"
      "plan_volumes dbg vs (ensure_source (vm_source m) F1) = (F', Inr ns)" "ms = m # ns"
      using Cons.prems(2) by (auto split: prod.splits sum.splits)
    from resolve_vetted [OF _ r(1)] Cons.prems(1) have "vetted_mount F0 m" by simp
    with Cons.IH [OF _ r(2)] Cons.prems(1) r(3) show ?thesis by simp
  qed
qed simp

lemma planned_mounts:
  assumes "build_dn7_create E fresh u req F = (F', Inr plan)"
  shows "\<forall>m \<in> set (ir_volumes (dp_spec plan)). vetted_mount F m"
proof -
  from assms obtain cspec dn vols cmd where b: "build_create_spec E (canon_text F) req = Inr (cspec, dn)"
    "plan_volumes (de_dbg E) (flat (rq_volumes req)) F = (F', Inr vols)"
    "dp_spec plan = plan_spec E req cspec vols (opt_or cmd [])" by (rule build_cases)
  from b(1) obtain binds where "spec_binds (canon_text F) req = Inr binds" by (rule spec_cases)
  then have "\<forall>v \<in> set (flat (rq_volumes req)). volume_ok (canon_text F) v = Inr ()"
    using binds_loop_ok by (fastforce simp: spec_binds_def flat_def split: option.splits if_splits)
  from plan_volumes_vetted [OF this b(2)] b(3) show ?thesis by (simp add: plan_spec_def Let_def)
qed


section \<open>Published ports\<close>

definition port_meaning :: "port_req \<Rightarrow> port_map" where
  "port_meaning p = \<lparr>pm_host_ip = the (ip_meaning (opt_trim (pq_host_ip p))), pm_host_port = nat (pq_host p),
     pm_container_port = nat (pq_container p), pm_proto = (if port_proto p = ''tcp'' then Tcp else Udp)\<rparr>"

text \<open>An address of digits and dots that is an address.\<close>

definition host_ip_ok :: "port_req \<Rightarrow> bool" where
  "host_ip_ok p \<longleftrightarrow> (\<forall>a. opt_trim (pq_host_ip p) = Some a \<longrightarrow> v4_text a \<and> parse_ip a \<noteq> None)"

lemma ports_loop_ok: "ports_loop ps bs = Inr cs \<Longrightarrow> \<forall>p \<in> set ps. port_ok p = Inr ()"
  by (induction ps bs rule: ports_loop.induct) (auto simp: and_then_Inr)

lemma spec_ports_ok: "spec_ports req = Inr bs \<Longrightarrow> \<forall>p \<in> set (flat (rq_ports req)). port_ok p = Inr ()"
  using ports_loop_ok by (fastforce simp: spec_ports_def flat_def split: option.splits if_splits)

lemma port_text_meaning:
  assumes "port_ok p = Inr ()"
  shows "port_text_of p = port_text (opt_trim (pq_host_ip p)) (nat (pq_host p)) (nat (pq_container p)) (pm_proto (port_meaning p))"
proof -
  from assms have "as_nft (pm_proto (port_meaning p)) = port_proto p"
    by (auto simp: port_ok_def port_meaning_def split: if_splits)
  then show ?thesis by (auto simp: port_text_of_def port_text_def Let_def split: option.splits)
qed

lemma planned_ports:
  assumes "build_dn7_create E fresh u req F = (F', Inr plan)"
  shows "ir_ports (dp_spec plan) = ports_text (flat (rq_ports req)) \<and> (\<forall>p \<in> set (flat (rq_ports req)). port_ok p = Inr ())"
proof -
  from assms obtain cspec dn vols cmd where b: "build_create_spec E (canon_text F) req = Inr (cspec, dn)"
    "dp_spec plan = plan_spec E req cspec vols (opt_or cmd [])" by (rule build_cases)
  from b(1) obtain bindings where "spec_ports req = Inr bindings" by (rule spec_cases)
  with b(2) spec_ports_ok show ?thesis by (simp add: plan_spec_def Let_def)
qed

text \<open>The ports the runtime publishes for a plan are those of the request, one mapping each, in order, with
  the address, the numbers and the protocol asked for, when every address is one.
\<close>

theorem published_ports_exact:
  assumes "build_dn7_create E fresh u req F = (F', Inr plan)" and "\<forall>p \<in> set (flat (rq_ports req)). host_ip_ok p"
  shows "parse_ports dbg (ir_ports (dp_spec plan)) = Inr (map port_meaning (flat (rq_ports req)))"
proof -
  let ?ps = "flat (rq_ports req)"
  let ?q = "\<lambda>p. (opt_trim (pq_host_ip p), nat (pq_host p), nat (pq_container p), pm_proto (port_meaning p))"
  note pp = planned_ports [OF assms(1)]
  have "\<forall>(ip, h, c, pr) \<in> set (map ?q ?ps). (\<forall>a. ip = Some a \<longrightarrow> v4_text a) \<and> ip_meaning ip \<noteq> None \<and> h < 2 ^ 16 \<and> c < 2 ^ 16"
    using pp assms(2)
    by (fastforce simp: port_ok_def host_ip_ok_def ip_meaning_def split: if_splits option.splits)
  from parse_ports_text [OF this, of dbg]
  have "parse_ports dbg (join_with CHR '','' (map (\<lambda>p. port_text (opt_trim (pq_host_ip p)) (nat (pq_host p)) (nat (pq_container p))
      (pm_proto (port_meaning p))) ?ps)) = Inr (map port_meaning ?ps)"
    by (simp add: o_def port_meaning_def)
  moreover have "map (\<lambda>p. port_text (opt_trim (pq_host_ip p)) (nat (pq_host p)) (nat (pq_container p))
      (pm_proto (port_meaning p))) ?ps = map port_text_of ?ps"
    using pp port_text_meaning by simp
  ultimately show ?thesis using pp by (simp add: ports_text_def)
qed

text \<open>The address of a port is not checked, and it is spliced into the list the runtime reads: a request for
  one port on the loopback address publishes a second one, on every address, that no rule has seen.
\<close>

theorem host_ip_smuggles_port:
  assumes "1 \<le> h" and "h \<le> 65535"
  shows "let p = \<lparr>pq_host = 8080, pq_container = 80, pq_proto = None,
      pq_host_ip = Some (to_dec h @ '':22/tcp,127.0.0.1''), pq_ipv6 = None\<rparr> in
    port_ok p = Inr () \<and>
    parse_ports dbg (ports_text [p]) =
      Inr [\<lparr>pm_host_ip = V4 0, pm_host_port = h, pm_container_port = 22, pm_proto = Tcp\<rparr>,
           \<lparr>pm_host_ip = V4 0x7F000001, pm_host_port = 8080, pm_container_port = 80, pm_proto = Tcp\<rparr>]"
proof -
  let ?p = "\<lparr>pq_host = 8080, pq_container = 80, pq_proto = None,
      pq_host_ip = Some (to_dec h @ '':22/tcp,127.0.0.1''), pq_ipv6 = None\<rparr>"
  have t: "trim (to_dec h @ '':22/tcp,127.0.0.1'') = to_dec h @ '':22/tcp,127.0.0.1''"
    using to_dec_digits [of h] to_dec_not_Nil [of h] plain_digit
    by (intro trim_plain) (auto simp: list_all_iff plain_char_def ws1_def ws2_def ws3_def)
  have i: "ip_meaning (Some ''127.0.0.1'') = Some (V4 0x7F000001)" "v4_text ''127.0.0.1''" by code_simp+
  have d: "to_dec 22 = ''22''" by code_simp
  have "ports_text [?p] = join_with CHR '','' (map (\<lambda>(ip, h, c, pr). port_text ip h c pr)
      [(None, h, 22, Tcp), (Some ''127.0.0.1'', 8080, 80, Tcp)])"
    by (simp add: ports_text_def port_text_of_def opt_trim_def t to_dec_not_Nil port_text_def port_proto_def opt_or_def Let_def d)
  moreover have "\<forall>(ip, h, c, pr) \<in> set [(None, h, 22 :: nat, Tcp), (Some ''127.0.0.1'', 8080, 80, Tcp)].
      (\<forall>a. ip = Some a \<longrightarrow> v4_text a) \<and> ip_meaning ip \<noteq> None \<and> h < 2 ^ 16 \<and> c < 2 ^ 16"
    using assms i by (simp add: ip_meaning_def)
  ultimately have "parse_ports dbg (ports_text [?p]) =
      Inr [\<lparr>pm_host_ip = V4 0, pm_host_port = h, pm_container_port = 22, pm_proto = Tcp\<rparr>,
           \<lparr>pm_host_ip = V4 0x7F000001, pm_host_port = 8080, pm_container_port = 80, pm_proto = Tcp\<rparr>]"
    using parse_ports_text [of "[(None, h, 22, Tcp), (Some ''127.0.0.1'', 8080, 80, Tcp)]" dbg] i
    by (simp add: ip_meaning_def)
  then show ?thesis by (simp add: Let_def port_ok_def port_proto_def opt_or_def)
qed

section \<open>Conflicts\<close>

lemma dup_loop_ok:
  "dup_loop upper seen ps = Inr () \<longleftrightarrow>
     distinct (map (\<lambda>p. (pq_host p, port_proto p)) ps) \<and> (\<forall>p \<in> set ps. (pq_host p, port_proto p) \<notin> seen)"
  by (induction ps arbitrary: seen) (auto simp: port_message_def image_iff)

lemma conflict_loop_ok:
  "conflict_loop upper bound excluded held ps = Inr () \<longleftrightarrow>
     (\<forall>p \<in> set ps. case map_of held (pq_host p, port_proto p) of
        Some owner \<Rightarrow> owner \<in> set excluded | None \<Rightarrow> \<not> port_busy bound (pq_host p) (port_proto p))"
  by (induction ps) (auto simp: port_message_def split: option.splits)

lemma held_keys: "fst ` set (held_ports w) =
    {k. \<exists>s \<in> set (all_states w). cs_status s = Running \<and> k \<in> set (parse_ports_spec (sm_ports_spec (cs_meta s)))}"
  by (force simp: held_ports_def)


text \<open>A port published on one address of the host is not seen by the check: the list of held ports reads the
  address where the port should be. Another container can take the same address and port, and never
  gets a connection.
\<close>

theorem address_port_unseen:
  assumes "v4_text a" and "CHR ''.'' \<in> set a"
  shows "parse_ports_spec (port_text (Some a) h c pr) = []"
proof -
  have nc: "CHR '','' \<notin> set (port_text (Some a) h c pr)" using assms(1) by (intro port_text_no_comma) simp
  have s: "CHR '':'' \<notin> set a" "CHR ''/'' \<notin> set a" using v4_text_no_sep [OF assms(1)] by auto
  have r: "rsplit_once CHR ''/'' (port_text (Some a) h c pr) = Some (a @ '':'' @ to_dec h @ '':'' @ to_dec c, as_nft pr)"
    using as_nft_no_sep [of pr] by (auto simp: rsplit_once_Some port_text_def)
  have "split_once CHR '':'' (a @ '':'' @ to_dec h @ '':'' @ to_dec c) = Some (a, to_dec h @ '':'' @ to_dec c)"
    using s by (simp add: split_once_Some)
  moreover have "parse_i64 a = None"
  proof -
    have c: "\<not> is_ascii_digit CHR ''.''" "\<not> is_ascii_digit CHR ''-''" "\<not> is_ascii_digit CHR ''+''" by code_simp+
    have "is_ascii_digit (hd a) \<or> hd a = CHR ''.''" using assms(1) by (cases a) (simp_all add: v4_text_def)
    then have "hd a \<noteq> CHR ''-''" "hd a \<noteq> CHR ''+''" using c by auto
    moreover have "\<not> list_all is_ascii_digit a" using assms(2) c(1) by (auto simp: list_all_iff)
    ultimately show ?thesis by (simp add: parse_i64_def parse_uint_def)
  qed
  moreover have "port_text (Some a) h c pr \<noteq> []" by (simp add: port_text_def)
  ultimately show ?thesis
    unfolding parse_ports_spec_def split_on_single [OF nc] using r by simp
qed

section \<open>Identifiers\<close>

lemma hex_digits_props: "length (hex_digits k n) = k" "list_all id_start (hex_digits k n)"
  using hex_digit_safe by (induction k arbitrary: n) (auto simp: id_start_def)

text \<open>A generated identifier is 64 lower-case hexadecimal digits, with or without the system's random source,
  and an identifier the network layer takes.
\<close>

theorem generated_id_valid:
  assumes "\<forall>bs. de_urandom E = Some bs \<longrightarrow> length bs = 32"
  shows "length (gen_container_id E) = 64 \<and> list_all id_start (gen_container_id E) \<and> validate_id dbg (gen_container_id E) = Inr ()"
proof -
  have l: "length (gen_container_id E) = 64"
  proof (cases "de_urandom E")
    case (Some bs)
    have "length (concat (map hex2 bs)) = 2 * length bs" by (induction bs) (simp_all add: hex2_props)
    with Some assms show ?thesis by (simp add: gen_container_id_def)
  qed (simp add: gen_container_id_def hex_digits_props)
  have s: "list_all id_start (gen_container_id E)"
    using hex_digits_props(2) hex2_props(2)
    by (auto simp: gen_container_id_def list_all_iff split: option.splits)
  then have "list_all id_char (gen_container_id E)" by (auto simp: list_all_iff id_char_def)
  with l s show ?thesis by (cases "gen_container_id E") (simp_all add: validate_id_def)
qed

section \<open>Limits\<close>

lemma as_i64_small: "n < 2 ^ 63 \<Longrightarrow> as_i64 n = int n"
  by (simp add: as_i64_def Let_def)

text \<open>A memory limit of a plan is positive and at most the memory of the host, and a processor quota at most
  all processors of the host, when the host's own figures are known.
\<close>

theorem limits_within_host:
  assumes "build_dn7_create E fresh u req F = (F', Inr plan)" and "0 < de_host_mem E" and "de_host_mem E < 2 ^ 63"
    and "0 < de_host_cpus E" and "de_host_cpus E \<le> 1024"
  shows "(case ir_mem_limit (dp_spec plan) of Some m \<Rightarrow> 0 < m \<and> m \<le> int (de_host_mem E) | None \<Rightarrow> opt_trim (rq_memory req) = None) \<and>
    (case ir_cpu_quota (dp_spec plan) of Some (q, period) \<Rightarrow> 0 \<le> q \<and> q \<le> int (de_host_cpus E) * int period | None \<Rightarrow> opt_trim (rq_cpus req) = None)"
proof -
  from assms(1) obtain cspec dn vols cmd where b: "build_create_spec E (canon_text F) req = Inr (cspec, dn)"
    "dp_spec plan = plan_spec E req cspec vols (opt_or cmd [])" by (rule build_cases)
  from b(1) obtain c m where "spec_cpu_mem E req = Inr (c, m)" by (rule spec_cases)
  then have c: "spec_cpus E req = Inr c" and m: "spec_memory E req = Inr m" by (auto simp: spec_cpu_mem_def and_then_Inr)
  have "case ir_mem_limit (dp_spec plan) of Some m \<Rightarrow> 0 < m \<and> m \<le> int (de_host_mem E) | None \<Rightarrow> opt_trim (rq_memory req) = None"
  proof (cases "opt_trim (rq_memory req)")
    case (Some t)
    with m assms(2) have v: "validate_memory t = Inr ()" "mem_to_bytes t \<le> de_host_mem E"
      by (auto simp: spec_memory_def and_then_Inr Let_def split: if_splits)
    obtain num mult where "mem_suffix t = (num, mult)" by fastforce
    then have "0 < mem_to_bytes t" using memory_positive [OF v(1)] by blast
    with v(2) assms(3) Some as_i64_small [of "mem_to_bytes t"] show ?thesis by (simp add: b(2) plan_spec_def Let_def)
  qed (simp add: b(2) plan_spec_def Let_def)
  moreover have "case ir_cpu_quota (dp_spec plan) of Some (q, period) \<Rightarrow> 0 \<le> q \<and> q \<le> int (de_host_cpus E) * int period
      | None \<Rightarrow> opt_trim (rq_cpus req) = None"
  proof (cases "opt_trim (rq_cpus req)")
    case (Some t)
    with c have v: "validate_cpus (de_parse_f64 E) t = Inr ()" by (auto simp: spec_cpus_def and_then_Inr)
    then obtain x where x: "de_parse_f64 E t = Some x" by (auto simp: validate_cpus_def split: option.splits)
    with c Some assms(4) have o: "\<not> f64_over x (de_host_cpus E)"
      by (auto simp: spec_cpus_def and_then_Inr Let_def opt_or_def split: if_splits)
    have "0 \<le> f64_scaled x 100000 \<and> f64_scaled x 100000 \<le> int (de_host_cpus E) * 100000"
    proof (cases x)
      case (Finite y)
      with v x have "0 < y" by (auto simp: validate_cpus_def split: if_splits)
      moreover from o Finite have "y \<le> of_nat (de_host_cpus E)" by (simp add: f64_over_def)
      then have "y * 100000 \<le> of_int (int (de_host_cpus E) * 100000)" by simp
      then have "floor (y * 100000) \<le> int (de_host_cpus E) * 100000" by (simp add: floor_le_iff)
      ultimately show ?thesis by (simp add: f64_scaled_def Finite Let_def)
    qed (use v x in \<open>auto simp: validate_cpus_def f64_scaled_def split: if_splits\<close>)
    with Some x show ?thesis by (simp add: b(2) plan_spec_def Let_def)
  qed (simp add: b(2) plan_spec_def Let_def)
  ultimately show ?thesis ..
qed

section \<open>Creating again\<close>

text \<open>A request that the stored body keeps: its networks are a list, and it says whether to keep its input open.\<close>

definition body_keeps :: "create_req \<Rightarrow> bool" where
  "body_keeps r \<longleftrightarrow> (rq_networks r \<noteq> None \<or> rq_network r = None) \<and> (rq_interactive r \<noteq> None \<or> \<not> is_set (rq_tty r))"

lemma flat_simps [simp]: "flat (Some xs) = xs" "flat None = []"
  by (simp_all add: flat_def)

lemma body_ports: "port_ok (p\<lparr>pq_proto := Some (port_proto p), pq_ipv6 := Some (is_set (pq_ipv6 p))\<rparr>) = port_ok p"
  "port_key (p\<lparr>pq_proto := Some (port_proto p), pq_ipv6 := Some (is_set (pq_ipv6 p))\<rparr>) = port_key p"
  "port_bindings (p\<lparr>pq_proto := Some (port_proto p), pq_ipv6 := Some (is_set (pq_ipv6 p))\<rparr>) = port_bindings p"
  "port_text_of (p\<lparr>pq_proto := Some (port_proto p), pq_ipv6 := Some (is_set (pq_ipv6 p))\<rparr>) = port_text_of p"
  by (simp_all add: port_ok_def port_key_def port_bindings_def port_text_of_def port_proto_def opt_or_def is_set_def)

lemma body_ports_loop:
  "ports_loop (map (\<lambda>p. p\<lparr>pq_proto := Some (port_proto p), pq_ipv6 := Some (is_set (pq_ipv6 p))\<rparr>) ps) bs = ports_loop ps bs"
  by (induction ps arbitrary: bs) (simp_all add: body_ports)

lemma body_spec:
  assumes "body_keeps r"
  shows "spec_restart (create_body r) = spec_restart r" "spec_attachments (create_body r) = spec_attachments r"
    "spec_ports (create_body r) = spec_ports r" "spec_env (create_body r) = spec_env r"
    "spec_binds canon (create_body r) = spec_binds canon r" "spec_cpu_mem E (create_body r) = spec_cpu_mem E r"
    "spec_cpu_shares (create_body r) = spec_cpu_shares r" "spec_dns (create_body r) = spec_dns r"
    "spec_command (create_body r) = spec_command r"
    "opt_or (rq_interactive (create_body r)) (is_set (rq_tty (create_body r))) = opt_or (rq_interactive r) (is_set (rq_tty r))"
    "is_set (rq_tty (create_body r)) = is_set (rq_tty r)"
  using assms
  by (auto simp: body_keeps_def create_body_def spec_restart_def spec_attachments_def spec_ports_def body_ports_loop [unfolded is_set_def]
      spec_env_def spec_binds_def spec_cpu_mem_def spec_cpus_def spec_memory_def spec_cpu_shares_def spec_dns_def
      spec_command_def is_set_def opt_or_def opt_trim_def split: option.splits)

lemma map_and_then: "map_sum id f (and_then r g) = and_then r (\<lambda>x. map_sum id f (g x))"
  by (cases r) simp_all

lemma body_create_spec:
  assumes "body_keeps r"
  shows "build_create_spec E canon (create_body r) =
    map_sum id (\<lambda>(s, n). (s\<lparr>sp_start := True, sp_replace := None\<rparr>, n)) (build_create_spec E canon r)"
proof -
  have f: "rq_image (create_body r) = rq_image r" "rq_name (create_body r) = rq_name r" "rq_hostname (create_body r) = rq_hostname r"
    "rq_domainname (create_body r) = rq_domainname r" "rq_start (create_body r) = None" "rq_replace (create_body r) = None"
    "is_set (rq_privileged (create_body r)) = is_set (rq_privileged r)"
    by (simp_all add: create_body_def is_set_def)
  have i: "opt_or (rq_interactive (create_body r)) (is_set (rq_tty r)) = opt_or (rq_interactive r) (is_set (rq_tty r))"
    using body_spec(10,11) [OF assms] by simp
  have d: "opt_or None True = True" "opt_trim None = None" by (simp_all add: opt_or_def opt_trim_def)
  show ?thesis
    unfolding build_create_spec_def Let_def body_spec [OF assms] f d i
    by (simp add: map_and_then if_distrib [of "map_sum id h" for h] prod.case_distrib [of "map_sum id h" for h] cong: if_cong
        split: option.split)
qed

lemma body_fields:
  "flat (rq_ports (create_body r)) = map (\<lambda>p. p\<lparr>pq_proto := Some (port_proto p), pq_ipv6 := Some (is_set (pq_ipv6 p))\<rparr>) (flat (rq_ports r))"
  "flat (rq_volumes (create_body r)) = flat (rq_volumes r)" "flat (rq_networks (create_body r)) = flat (rq_networks r)"
  "rq_env (create_body r) = rq_env r" "rq_dns (create_body r) = rq_dns r" "rq_hostname (create_body r) = rq_hostname r"
  "rq_domainname (create_body r) = rq_domainname r" "rq_memory (create_body r) = rq_memory r" "rq_cpus (create_body r) = rq_cpus r"
  "rq_cpu_shares (create_body r) = rq_cpu_shares r" "rq_pids_limit (create_body r) = rq_pids_limit r"
  "rq_stop_signal (create_body r) = rq_stop_signal r" "rq_stop_timeout (create_body r) = rq_stop_timeout r"
  "rq_restart (create_body r) = rq_restart r" "is_set (rq_tty (create_body r)) = is_set (rq_tty r)"
  "is_set (rq_auto_remove (create_body r)) = is_set (rq_auto_remove r)"
  "is_set (rq_privileged (create_body r)) = is_set (rq_privileged r)"
  by (simp_all add: create_body_def is_set_def)

lemma body_idem: "create_body (create_body r) = create_body r"
  by (simp add: create_body_def port_proto_def opt_or_def is_set_def)

lemma body_plan_spec:
  "plan_spec E (create_body r) (c\<lparr>sp_start := True, sp_replace := None\<rparr>) vols cmd = plan_spec E r c vols cmd"
proof -
  have "ports_text (flat (rq_ports (create_body r))) = ports_text (flat (rq_ports r))"
    by (simp add: body_fields ports_text_def o_def body_ports)
  moreover have "primary_name (create_body r) m = primary_name r m" "first_set f (create_body r) = first_set f r" for m f
    by (simp_all add: primary_name_def first_set_def body_fields)
  ultimately show ?thesis by (simp add: plan_spec_def body_fields)
qed

lemma body_plan_meta:
  assumes "body_keeps r"
  shows "plan_meta E (create_body r) (c\<lparr>sp_start := True, sp_replace := None\<rparr>) n sp = plan_meta E r c n sp"
proof -
  have "primary_name (create_body r) m = primary_name r m" for m by (simp add: primary_name_def body_fields)
  then show ?thesis
    using body_spec(10) [OF assms] by (simp add: plan_meta_def body_fields body_idem cong: option.case_cong)
qed

text \<open>C30: the request stored with a container leads to the plan the container was made by, started and replacing
  nothing: the same network, ports, mounts, limits and record, or the same error.
\<close>

theorem recreate_same:
  assumes "body_keeps r"
  shows "build_dn7_create E fresh u (create_body r) F =
    (case build_dn7_create E fresh u r F of (F', x) \<Rightarrow> (F', map_sum id (\<lambda>p. p\<lparr>dp_start := True, dp_replace := None\<rparr>) x))"
proof (cases "build_create_spec E (canon_text F) r")
  case (Inl e)
  then show ?thesis by (simp add: build_dn7_create_def body_create_spec [OF assms])
next
  case (Inr cn)
  obtain c n where cn: "cn = (c, n)" by fastforce
  have i: "list_ex (\<lambda>p. is_set (pq_ipv6 p)) (flat (rq_ports (create_body r))) = list_ex (\<lambda>p. is_set (pq_ipv6 p)) (flat (rq_ports r))"
    by (simp add: body_fields list_ex_iff is_set_def)
  show ?thesis
    unfolding build_dn7_create_def i
    by (simp add: body_create_spec [OF assms] Inr cn body_fields(2,3,17) body_spec(9) [OF assms] body_plan_spec
        body_plan_meta [OF assms] map_and_then Let_def split: sum.split prod.split)
qed

text \<open>What a request asks for in the older single field, a network, is not in the stored body: the container
  made from it again is on the default network instead.
\<close>

theorem legacy_network_lost:
  assumes "rq_networks r = None" and "build_dn7_create E fresh u r F = (F', Inr p)"
    and "build_dn7_create E fresh u (create_body r) F = (F'', Inr q)"
  shows "ir_net_mode (dp_spec q) = ''bridge'' \<and>
    ir_net_mode (dp_spec p) = fst (plan_mode (opt_trim (rq_network r)))"
proof -
  from assms(3) obtain c dn vols cmd where b: "build_create_spec E (canon_text F) (create_body r) = Inr (c, dn)"
    "dp_spec q = plan_spec E (create_body r) c vols (opt_or cmd [])" by (rule build_cases)
  have "rq_networks (create_body r) = Some []" using assms(1) by (simp add: create_body_def)
  moreover from b(1) obtain as where as: "spec_attachments (create_body r) = Inr as"
    "hc_network_mode (cc_host (sp_config c)) = (case as of a # _ \<Rightarrow> Some (na_network a) | [] \<Rightarrow> None)" by (rule spec_cases)
  ultimately have "ir_net_mode (dp_spec q) = ''bridge''"
    using b(2) by (auto simp: spec_attachments_def plan_spec_def primary_name_def plan_mode_def Let_def)
  moreover from assms(2) obtain c dn vols cmd where b: "build_create_spec E (canon_text F) r = Inr (c, dn)"
    "dp_spec p = plan_spec E r c vols (opt_or cmd [])" by (rule build_cases)
  from b(1) obtain as where as: "spec_attachments r = Inr as"
    "hc_network_mode (cc_host (sp_config c)) = (case as of a # _ \<Rightarrow> Some (na_network a) | [] \<Rightarrow> None)" by (rule spec_cases)
  then have "hc_network_mode (cc_host (sp_config c)) = opt_trim (rq_network r)"
    using assms(1) by (auto simp: spec_attachments_def and_then_Inr spec_one_attach_def split: option.splits if_splits)
  then have "ir_net_mode (dp_spec p) = fst (plan_mode (opt_trim (rq_network r)))"
    using b(2) assms(1) by (simp add: plan_spec_def primary_name_def Let_def)
  ultimately show ?thesis ..
qed

section \<open>A request\<close>

definition demo_env :: create_env where
  "demo_env = \<lparr>de_dbg = (\<lambda>s. s), de_parse_f64 = (\<lambda>s. if s = ''1.5'' then Some (Finite (3 / 2)) else None), de_host_cpus = 4,
     de_host_mem = 8589934592, de_urandom = Some (replicate 32 0xAB), de_nanos = 0, de_pid = 1, de_picks = (\<lambda>n. (0, 0)),
     de_stop_signal = (\<lambda>_. None), de_body = (\<lambda>_. [])\<rparr>"

definition demo_request :: create_req where
  "demo_request =
     \<lparr>rq_image = Some ''nginx'', rq_name = Some ''web'',
      rq_ports = Some [\<lparr>pq_host = 8080, pq_container = 80, pq_proto = None, pq_host_ip = Some ''127.0.0.1'', pq_ipv6 = None\<rparr>],
      rq_env = None, rq_volumes = Some [\<lparr>vq_host = ''/srv/data'', vq_container = ''/data'', vq_readonly = False\<rparr>],
      rq_restart = None, rq_start = Some False, rq_network = None,
      rq_networks = Some [\<lparr>na_network = ''front'', na_mac = None, na_ipv4 = None\<rparr>],
      rq_mac = None, rq_ipv4 = None, rq_hostname = None, rq_domainname = None, rq_dns = None, rq_cpu_shares = None,
      rq_pids_limit = None, rq_privileged = None, rq_stop_signal = None, rq_stop_timeout = None, rq_auto_remove = None,
      rq_replace = None, rq_command = None, rq_tty = None, rq_interactive = None,
      rq_cpus = Some ''1.5'', rq_memory = Some ''512m''\<rparr>"

lemma request_ports: "flat (rq_ports demo_request) = [\<lparr>pq_host = 8080, pq_container = 80, pq_proto = None,
      pq_host_ip = Some ''127.0.0.1'', pq_ipv6 = None\<rparr>]"
  by (simp add: demo_request_def)

lemma demo_spec:
  "spec_attachments demo_request = Inr [\<lparr>na_network = ''front'', na_mac = None, na_ipv4 = None\<rparr>]"
  "spec_restart demo_request = Inr (R_unless_stopped, None)"
  "spec_env demo_request = Inr []" "spec_binds (canon_text vol_store) demo_request = Inr [''/srv/data:/data'']"
  "spec_cpu_shares demo_request = Inr None" "spec_dns demo_request = Inr []" "spec_command demo_request = Inr None"
  "checked_opt validate_name (rq_name demo_request) = Inr (Some ''web'')" "validate_token ''nginx'' = Inr ()"
  by code_simp+

lemma demo_ports: "\<exists>bs. spec_ports demo_request = Inr bs"
  by (simp add: demo_request_def spec_ports_def port_ok_def port_proto_def opt_or_def)

lemma demo_limits: "\<exists>cm. spec_cpu_mem demo_env demo_request = Inr cm"
proof -
  have t: "opt_trim (rq_memory demo_request) = Some ''512m''" "opt_trim (rq_cpus demo_request) = Some ''1.5''" by code_simp+
  have m: "mem_to_bytes ''512m'' = 536870912"
    using memory_positive [OF demo_memory] by (simp add: digits_val_def digit_val_def byte_def)
  have "list_all (\<lambda>c. is_ascii_digit c \<or> c = CHR ''.'') ''1.5''" by code_simp
  then show ?thesis
    by (simp add: spec_cpu_mem_def spec_cpus_def spec_memory_def t m demo_memory demo_env_def validate_cpus_def f64_over_def opt_or_def
        coded_def Let_def)
qed

lemma demo_volumes: "\<exists>F ms. plan_volumes (\<lambda>s. s) (flat (rq_volumes demo_request)) vol_store = (F, Inr ms)"
proof -
  have "isl (snd (plan_volumes (\<lambda>s. s) (flat (rq_volumes demo_request)) vol_store)) = False" by code_simp
  then obtain ms where "snd (plan_volumes (\<lambda>s. s) (flat (rq_volumes demo_request)) vol_store) = Inr ms"
    by (cases "snd (plan_volumes (\<lambda>s. s) (flat (rq_volumes demo_request)) vol_store)") auto
  then show ?thesis by (metis prod.collapse)
qed

lemma demo_plan: obtains F' plan where "build_dn7_create demo_env [] (\<lambda>_. False) demo_request vol_store = (F', Inr plan)"
proof -
  obtain bs cm F ms where p: "spec_ports demo_request = Inr bs" "spec_cpu_mem demo_env demo_request = Inr cm"
    "plan_volumes (\<lambda>s. s) (flat (rq_volumes demo_request)) vol_store = (F, Inr ms)"
    using demo_ports demo_limits demo_volumes by blast
  have t: "opt_trim (rq_image demo_request) = Some ''nginx''" by code_simp
  have f: "rq_hostname demo_request = None" "rq_domainname demo_request = None" "rq_privileged demo_request = None"
    by (simp_all add: demo_request_def)
  have n: "checked_opt c None = Inr None" for c by (simp add: checked_opt_def opt_trim_def)
  obtain c d where "build_create_spec demo_env (canon_text vol_store) demo_request = Inr (c, d)"
    by (cases cm) (simp add: build_create_spec_def t demo_spec p f n Let_def coded_def)
  with p f request_ports that show ?thesis
    by (simp add: build_dn7_create_def demo_spec Let_def is_set_def demo_env_def)
qed

lemma demo_not_started:
  assumes "build_dn7_create demo_env [] (\<lambda>_. False) demo_request vol_store = (F', Inr plan)"
  shows "\<not> dp_start plan"
proof -
  have "rq_start demo_request = Some False" by (simp add: demo_request_def)
  with assms show ?thesis
    by (auto simp: build_dn7_create_def build_create_spec_def and_then_Inr Let_def opt_or_def split: sum.splits prod.splits if_splits
        option.splits)
qed


theorem published_ports_exact_witness:
  "\<exists>F' plan. build_dn7_create demo_env [] (\<lambda>_. False) demo_request vol_store = (F', Inr plan) \<and>
     parse_ports id (ir_ports (dp_spec plan)) = Inr [\<lparr>pm_host_ip = V4 0x7F000001, pm_host_port = 8080, pm_container_port = 80, pm_proto = Tcp\<rparr>]"
proof -
  have t: "opt_trim (Some ''127.0.0.1'') = Some ''127.0.0.1''" "v4_text ''127.0.0.1''" "parse_ip ''127.0.0.1'' = Some (V4 0x7F000001)"
    by code_simp+
  then have i: "\<forall>p \<in> set (flat (rq_ports demo_request)). host_ip_ok p" by (simp add: request_ports host_ip_ok_def)
  obtain F' plan where p: "build_dn7_create demo_env [] (\<lambda>_. False) demo_request vol_store = (F', Inr plan)" by (rule demo_plan)
  from published_ports_exact [OF p i, of id] p t show ?thesis
    by (auto simp: request_ports port_meaning_def ip_meaning_def port_proto_def opt_or_def)
qed

theorem limits_within_host_witness:
  "\<exists>F' plan. build_dn7_create demo_env [] (\<lambda>_. False) demo_request vol_store = (F', Inr plan) \<and>
     (case ir_cpu_quota (dp_spec plan) of Some (q, period) \<Rightarrow> 0 \<le> q \<and> q \<le> 4 * int period | None \<Rightarrow> False)"
proof -
  obtain F' plan where p: "build_dn7_create demo_env [] (\<lambda>_. False) demo_request vol_store = (F', Inr plan)" by (rule demo_plan)
  have "opt_trim (rq_cpus demo_request) = Some ''1.5''" by code_simp
  with limits_within_host [OF p] p show ?thesis by (auto simp: demo_env_def split: option.splits)
qed

theorem recreate_same_witness:
  "\<exists>F' plan plan'. build_dn7_create demo_env [] (\<lambda>_. False) demo_request vol_store = (F', Inr plan) \<and>
     build_dn7_create demo_env [] (\<lambda>_. False) (create_body demo_request) vol_store = (F', Inr plan') \<and>
     dp_spec plan' = dp_spec plan \<and> dp_meta plan' = dp_meta plan \<and> \<not> dp_start plan \<and> dp_start plan'"
proof -
  have k: "body_keeps demo_request" by code_simp
  obtain F' plan where p: "build_dn7_create demo_env [] (\<lambda>_. False) demo_request vol_store = (F', Inr plan)" by (rule demo_plan)
  moreover have "\<not> dp_start plan" by (rule demo_not_started [OF p])
  ultimately show ?thesis using recreate_same [OF k, of demo_env "[]" "\<lambda>_. False" vol_store] by simp
qed

theorem host_ip_smuggles_port_witness:
  "\<exists>a b. parse_ports id (ports_text [\<lparr>pq_host = 8080, pq_container = 80, pq_proto = None,
     pq_host_ip = Some (to_dec 2222 @ '':22/tcp,127.0.0.1''), pq_ipv6 = None\<rparr>]) = Inr [a, b] \<and> pm_host_ip a = V4 0"
  using host_ip_smuggles_port [of 2222 id] by (simp add: Let_def)

theorem generated_id_valid_witness: "validate_id id (gen_container_id demo_env) = Inr ()"
  using generated_id_valid [of demo_env id] by (simp add: demo_env_def)

text \<open>A running container that publishes port 80, and a request for the port under its name.\<close>

definition demo_held :: "nat cworld" where
  "demo_held = \<lparr>cw_net = \<lparr>nw_ipam = Map.empty, nw_nft = 0\<rparr>,
     cw_dirs = [(''a1'', \<lparr>cd_state = Parsed ((new_state ''a1'' 7 [] [] 0)\<lparr>cs_status := Running,
        cs_meta := default_meta\<lparr>sm_name := Some ''web'', sm_ports_spec := ''80:80/tcp''\<rparr>\<rparr>), cd_log = [], cd_rotated = None\<rparr>)],
     cw_procs = [(7, \<lparr>pr_cgroup = [], pr_parked = False\<rparr>)], cw_bundles = Map.empty\<rparr>"

definition demo_ports_request :: create_req where
  "demo_ports_request = demo_request\<lparr>rq_ports := Some [\<lparr>pq_host = 80, pq_container = 80, pq_proto = None,
     pq_host_ip = None, pq_ipv6 = None\<rparr>]\<rparr>"


end
