(* ===== verification/Image_Refs.thy ===== *)
theory Image_Refs
  imports Volumes Container_Ops
begin

text \<open>
  References of images (\<open>crates/dn7-container/src/image/reference.rs\<close>), the records of the image store
  on disk under the keys made of them (\<open>image/store.rs\<close>, \<open>image/mod.rs\<close>), and the panel's guard of
  their removal (\<open>src/infra/docker/runtime_dn7.rs\<close>).
\<close>

section \<open>References\<close>

definition DOCKER_HUB_API :: string where "DOCKER_HUB_API = ''registry-1.docker.io''"

record image_ref =
  ref_registry :: string
  ref_repository :: string
  ref_reference :: string
  ref_is_digest :: bool

definition is_registry_host :: "string \<Rightarrow> bool" where
  "is_registry_host s \<longleftrightarrow> s = ''localhost'' \<or> CHR ''.'' \<in> set s \<or> CHR '':'' \<in> set s"

definition split_host :: "string \<Rightarrow> string \<times> string" where
  "split_host input =
     (case split_once CHR ''/'' input of
        Some (first, rest) \<Rightarrow> if is_registry_host first then (first, rest) else (DOCKER_HUB_API, input)
      | None \<Rightarrow> (DOCKER_HUB_API, input))"

definition split_reference :: "string \<Rightarrow> string \<times> string \<times> bool" where
  "split_reference remainder =
     (case split_once CHR ''@'' remainder of
        Some (r, d) \<Rightarrow> (r, d, True)
      | None \<Rightarrow> (case rsplit_once CHR '':'' remainder of
            Some (r, t) \<Rightarrow> (r, t, False)
          | None \<Rightarrow> (remainder, ''latest'', False)))"

definition parse_ref :: "string \<Rightarrow> image_ref cres" where
  "parse_ref input =
     (if input = [] then Inl (Other ''empty image reference'')
      else let (host, remainder) = split_host input;
               (repo_part, reference, is_digest) = split_reference remainder in
        if repo_part = [] then Inl (Other (''no repository in '' @ [CHR 0x27] @ input @ [CHR 0x27]))
        else let repository = (if host = DOCKER_HUB_API \<and> CHR ''/'' \<notin> set repo_part then ''library/'' @ repo_part else repo_part) in
          if is_digest \<and> \<not> starts_with reference ''sha256:''
          then Inl (Other (''unsupported digest '' @ [CHR 0x27] @ reference @ [CHR 0x27]))
          else Inr \<lparr>ref_registry = host, ref_repository = repository, ref_reference = reference, ref_is_digest = is_digest\<rparr>)"

definition replace_char :: "char \<Rightarrow> char \<Rightarrow> string \<Rightarrow> string" where
  "replace_char a b s = map (\<lambda>c. if c = a then b else c) s"

definition store_key :: "image_ref \<Rightarrow> string" where
  "store_key r = ref_registry r @ ''_'' @ replace_char CHR ''/'' CHR ''_'' (ref_repository r) @ ''_'' @
     replace_char CHR '':'' CHR ''-'' (ref_reference r)"

definition canonical :: "image_ref \<Rightarrow> string" where
  "canonical r = ref_registry r @ ''/'' @ ref_repository r @ (if ref_is_digest r then ''@'' else '':'') @ ref_reference r"

section \<open>Records on disk\<close>

definition IMAGES_DIR :: string where "IMAGES_DIR = ''/var/lib/dn7-container/images''"

definition image_dir :: "string \<Rightarrow> string" where "image_dir key = IMAGES_DIR @ ''/'' @ key"

definition write_image_json :: "string \<Rightarrow> string \<Rightarrow> fsys \<Rightarrow> fsys \<times> unit cres" where
  "write_image_json key bytes F =
     (case make_dirs (image_dir key) F of
        (F, Inl e) \<Rightarrow> (F, Inl e)
      | (F, Inr _) \<Rightarrow> io_cres (write_path root_may [] (segs_of (image_dir key @ ''/image.json'')) bytes F))"

text \<open>The removal of a record; the sweep of the content is in \<open>Image_Store\<close>.\<close>

definition remove_record :: "string \<Rightarrow> fsys \<Rightarrow> fsys \<times> unit cres" where
  "remove_record reference F =
     (case parse_ref reference of
        Inl e \<Rightarrow> (F, Inl e)
      | Inr r \<Rightarrow>
          (case remove_dir_all root_may [] (segs_of (image_dir (store_key r))) F of
             (F, Inr _) \<Rightarrow> (F, Inr ())
           | (F, Inl e) \<Rightarrow> (F, Inl (if e = NotFound then Other (''no such image: '' @ reference) else IoError))))"

section \<open>The panel's guard\<close>

fun join_str :: "string \<Rightarrow> string list \<Rightarrow> string" where
  "join_str sep [] = []"
| "join_str sep [s] = s"
| "join_str sep (s # t # ss) = s @ sep @ join_str sep (t # ss)"

definition uses_image :: "string \<Rightarrow> cstate \<Rightarrow> bool" where
  "uses_image reference s =
     (case sm_image (cs_meta s) of
        None \<Rightarrow> False
      | Some img \<Rightarrow> img = reference \<or>
          (case (parse_ref reference, parse_ref img) of
             (Inr w, Inr g) \<Rightarrow> store_key g = store_key w
           | _ \<Rightarrow> False))"

definition dn7_image_users :: "string \<Rightarrow> 'k cworld \<Rightarrow> string option" where
  "dn7_image_users reference w =
     (let ids = map cs_id (filter (uses_image reference) (all_states w)) in
      if ids = [] then None else Some (join_str '', '' ids))"

definition op_remove_record :: "string option \<Rightarrow> 'k cworld \<Rightarrow> fsys \<Rightarrow> fsys \<times> (derr + unit)" where
  "op_remove_record r w F =
     (case need_ref r of
        Inl e \<Rightarrow> (F, Inl (Coded e))
      | Inr reference \<Rightarrow>
          (case dn7_image_users reference w of
             Some users \<Rightarrow> (F, Inl (Message (''ERR_CODE:docker.image_in_use'' @ CHR 0x1F # users)))
           | None \<Rightarrow> runtime_res (remove_record reference F)))"

section \<open>Round trip\<close>

lemma split_host_cases:
  assumes "split_host s = (h, rem)"
  shows "(is_registry_host h \<and> CHR ''/'' \<notin> set h \<and> s = h @ ''/'' @ rem) \<or> (h = DOCKER_HUB_API \<and> rem = s)"
  using assms by (auto simp: split_host_def split_once_Some split: option.splits if_splits)

lemma split_reference_cases:
  assumes "split_reference rem = (repo, rf, dig)"
  shows "CHR ''@'' \<notin> set repo \<and> (if dig then rem = repo @ ''@'' @ rf
     else CHR ''@'' \<notin> set rf \<and> CHR '':'' \<notin> set rf \<and> (rem = repo @ '':'' @ rf \<or> rem = repo \<and> rf = ''latest''))"
  using assms
  by (auto simp: split_reference_def split_once_Some split_once_None rsplit_once_Some split: option.splits)

lemma split_reference_canonical:
  assumes "CHR ''@'' \<notin> set repo" and "\<not> dig \<Longrightarrow> CHR ''@'' \<notin> set rf \<and> CHR '':'' \<notin> set rf"
  shows "split_reference (repo @ (if dig then ''@'' else '':'') @ rf) = (repo, rf, dig)"
proof (cases dig)
  case True
  have "split_once CHR ''@'' (repo @ CHR ''@'' # rf) = Some (repo, rf)" using assms(1) by (simp add: split_once_Some)
  with True show ?thesis by (simp add: split_reference_def)
next
  case False
  have "split_once CHR ''@'' (repo @ CHR '':'' # rf) = None" using assms False by (auto simp: split_once_None)
  moreover have "rsplit_once CHR '':'' (repo @ CHR '':'' # rf) = Some (repo, rf)" using assms(2) False by (simp add: rsplit_once_Some)
  ultimately show ?thesis using False by (simp add: split_reference_def)
qed

lemma hub_host: "is_registry_host DOCKER_HUB_API" "CHR ''/'' \<notin> set DOCKER_HUB_API" "DOCKER_HUB_API \<noteq> []"
  by code_simp+

lemma parse_ref_cases:
  assumes "parse_ref s = Inr r"
  obtains rem repo where "split_host s = (ref_registry r, rem)" "split_reference rem = (repo, ref_reference r, ref_is_digest r)"
    "repo \<noteq> []" "s \<noteq> []"
    "ref_repository r = (if ref_registry r = DOCKER_HUB_API \<and> CHR ''/'' \<notin> set repo then ''library/'' @ repo else repo)"
    "ref_is_digest r \<longrightarrow> starts_with (ref_reference r) ''sha256:''"
  using assms by (auto simp: parse_ref_def Let_def split: if_splits prod.splits)

text \<open>The canonical form of a parsed reference is read back as the same reference.
\<close>

theorem canonical_roundtrip:
  assumes "parse_ref s = Inr r"
  shows "parse_ref (canonical r) = Inr r"
proof -
  from assms obtain rem repo where p: "split_host s = (ref_registry r, rem)" "split_reference rem = (repo, ref_reference r, ref_is_digest r)"
    "repo \<noteq> []" "ref_repository r = (if ref_registry r = DOCKER_HUB_API \<and> CHR ''/'' \<notin> set repo then ''library/'' @ repo else repo)"
    "ref_is_digest r \<longrightarrow> starts_with (ref_reference r) ''sha256:''" by (rule parse_ref_cases)
  have h: "is_registry_host (ref_registry r)" "CHR ''/'' \<notin> set (ref_registry r)"
    using split_host_cases [OF p(1)] hub_host by auto
  have at: "CHR ''@'' \<notin> set ''library/''" "CHR ''/'' \<in> set ''library/''" by code_simp+
  note sr = split_reference_cases [OF p(2)]
  have repo: "ref_repository r \<noteq> []" "CHR ''@'' \<notin> set (ref_repository r)"
    "ref_registry r = DOCKER_HUB_API \<longrightarrow> CHR ''/'' \<in> set (ref_repository r)"
    using p(3,4) sr at by auto
  have "split_once CHR ''/'' (canonical r) = Some (ref_registry r, ref_repository r @ (if ref_is_digest r then ''@'' else '':'') @ ref_reference r)"
    using h(2) by (simp add: split_once_Some canonical_def)
  then have sh: "split_host (canonical r) = (ref_registry r, ref_repository r @ (if ref_is_digest r then ''@'' else '':'') @ ref_reference r)"
    using h(1) by (simp add: split_host_def)
  have sf: "split_reference (ref_repository r @ (if ref_is_digest r then ''@'' else '':'') @ ref_reference r) =
      (ref_repository r, ref_reference r, ref_is_digest r)"
    using sr repo(2) by (intro split_reference_canonical) (auto split: if_splits)
  have "canonical r \<noteq> []" by (simp add: canonical_def)
  then show ?thesis using repo p(5) by (simp add: parse_ref_def Let_def sh sf split del: if_split) auto
qed

text \<open>Two different images have one record: the key of the second slash of a name is an underscore, which a
  name may have itself. Pulling one replaces the other, and a container of it runs the other's content.
\<close>

theorem store_keys_collide:
  "case (parse_ref ''team/app_web:1'', parse_ref ''team_app/web:1'') of
     (Inr r, Inr r') \<Rightarrow> canonical r \<noteq> canonical r' \<and> store_key r = store_key r' | _ \<Rightarrow> False"
  by code_simp

section \<open>What removal removes\<close>

definition images_dir :: ppath where "images_dir = [''var'', ''lib'', ''dn7-container'', ''images'']"

lemma walks_append:
  "walks F False n cur a d \<Longrightarrow> (\<And>m. walks F False m d b p) \<Longrightarrow> walks F False n cur (a @ b) p"
  by (induction rule: walks.induct) (auto intro: walks.intros)

lemma walks_existing:
  assumes "fs_ok F" and "F ns = Some Dir"
  shows "walks F False n [] ns ns"
proof -
  have "is_dir_at F (take k ns) \<and> F (take (Suc k) ns) = Some Dir" if "k < length ns" for k
  proof
    show "is_dir_at F (take k ns)"
      using dir_chain [of F "[]" ns k] assms that by (auto simp: is_dir_at_def)
    show "F (take (Suc k) ns) = Some Dir"
      using dir_chain [of F "[]" ns "Suc k"] assms that by (cases "Suc k = length ns") (auto simp: Suc_lessI)
  qed
  moreover have "\<forall>s \<in> set ns. plain_name s" using fs_ok_plain [OF assms(1), of ns] assms(2) by simp
  ultimately show ?thesis using walks_dirs [of ns F "[]" n] by simp
qed

lemma entry_of_snoc:
  "step_name s \<Longrightarrow> walks F False MAX_LINKS st pre d \<Longrightarrow> is_dir_at F d \<Longrightarrow> entry_of F st (pre @ [s]) = Inr (d @ [s])"
  using follows_snoc [of s pre] by (simp add: entry_of_def resolve_iff [THEN iffD2])

lemma segs_names:
  assumes "ns \<noteq> []" and "\<forall>s \<in> set ns. CHR ''/'' \<notin> set s"
  shows "segs_of (path_text ns) = ns"
  using split_join_with [of ns "CHR ''/''"] assms by (simp add: segs_of_def is_absolute_def path_text_def starts_with_def)

lemma join_with_append:
  "a \<noteq> [] \<Longrightarrow> b \<noteq> [] \<Longrightarrow> join_with c (a @ b) = join_with c a @ c # join_with c b"
proof (induction a)
  case (Cons x a)
  then show ?case by (cases a; cases b) auto
qed simp

text \<open>A reference with a tag stays one when the tag is extended.\<close>

lemma parse_extended:
  assumes "parse_ref (repo @ '':'' @ tag) = Inr r" and "CHR ''/'' \<in> set repo" and "CHR ''@'' \<notin> set (repo @ tag @ x)"
    and "CHR '':'' \<notin> set (tag @ x)"
  shows "parse_ref (repo @ '':'' @ tag @ x) = Inr (r\<lparr>ref_reference := tag @ x\<rparr>) \<and> ref_reference r = tag"
proof -
  obtain a b where ab: "repo = a @ CHR ''/'' # b" "CHR ''/'' \<notin> set a" using assms(2) split_list_first by metis
  have so: "split_once CHR ''/'' (repo @ '':'' @ y) = Some (a, b @ '':'' @ y)" for y
    using ab by (simp add: split_once_Some)
  have sr: "split_reference (m @ '':'' @ y) = (m, y, False)" if "CHR ''@'' \<notin> set m" "CHR ''@'' \<notin> set y" "CHR '':'' \<notin> set y" for m y
    using split_reference_canonical [of m False y] that by simp
  have h: "split_host (repo @ '':'' @ y) = (if is_registry_host a then (a, b @ '':'' @ y) else (DOCKER_HUB_API, repo @ '':'' @ y))" for y
    unfolding split_host_def so by simp
  show ?thesis
  proof (cases "is_registry_host a")
    case True
    have n: "CHR ''@'' \<notin> set b" "CHR ''@'' \<notin> set tag" "CHR ''@'' \<notin> set (tag @ x)" "CHR '':'' \<notin> set tag"
      using assms(3,4) ab(1) by auto
    note s = sr [OF n(1,2,4)] sr [OF n(1,3) assms(4)]
    from assms(1) True show ?thesis
      unfolding parse_ref_def h [of "tag @ x"] h [of tag] by (auto simp: s [simplified] Let_def split: if_splits)
  next
    case False
    have n: "CHR ''@'' \<notin> set repo" "CHR ''@'' \<notin> set tag" "CHR ''@'' \<notin> set (tag @ x)" "CHR '':'' \<notin> set tag"
      using assms(3,4) by auto
    note s = sr [OF n(1,2,4)] sr [OF n(1,3) assms(4)]
    from assms(1) False show ?thesis
      unfolding parse_ref_def h [of "tag @ x"] h [of tag] by (auto simp: s [simplified] Let_def split: if_splits)
  qed
qed

lemma replace_char_id: "a \<notin> set s \<Longrightarrow> replace_char a b s = s"
  by (induction s) (auto simp: replace_char_def)

definition climb :: "string \<Rightarrow> ppath \<Rightarrow> string" where
  "climb tag ns = tag @ path_text (replicate 5 ''..'' @ ns)"

text \<open>C24: the removal of an image takes a tag with slashes and parent steps for the name of a directory: beside any
  stored image, a reference that every check lets pass empties any directory of the host.
\<close>

theorem image_removal_escapes:
  assumes "fs_ok F" and "parse_ref (repo @ '':'' @ tag) = Inr r" and "F (images_dir @ [store_key r]) = Some Dir"
    and "CHR ''/'' \<in> set repo" and "ns \<noteq> []" and "F ns = Some Dir"
    and "need_ref (Some (repo @ '':'' @ climb tag ns)) = Inr (repo @ '':'' @ climb tag ns)"
    and "CHR ''@'' \<notin> set (repo @ climb tag ns)" and "CHR '':'' \<notin> set (climb tag ns)"
    and "dn7_image_users (repo @ '':'' @ climb tag ns) w = None" and "prefix ns p"
  shows "fst (op_remove_record (Some (repo @ '':'' @ climb tag ns)) w F) p = None"
proof -
  let ?x = "path_text (replicate 5 ''..'' @ ns)"
  let ?k = "store_key r"
  let ?path = "images_dir @ [?k] @ replicate 5 ''..'' @ ns"
  have e: "parse_ref (repo @ '':'' @ tag @ ?x) = Inr (r\<lparr>ref_reference := tag @ ?x\<rparr>)" "ref_reference r = tag"
    using parse_extended [OF assms(2,4), of ?x] assms(8,9) by (simp_all add: climb_def)
  have "replace_char CHR '':'' CHR ''-'' ?x = ?x"
    using assms(9) by (simp add: climb_def replace_char_id)
  then have key: "store_key (r\<lparr>ref_reference := tag @ ?x\<rparr>) = ?k @ ?x"
    using e(2) by (simp add: store_key_def replace_char_def)
  have pl: "\<forall>s \<in> set (images_dir @ [?k]). plain_name s" "\<forall>s \<in> set ns. plain_name s"
    using fs_ok_plain [OF assms(1), of "images_dir @ [?k]"] fs_ok_plain [OF assms(1), of ns] assms(3,6) by simp_all
  have "image_dir (?k @ ?x) = path_text ?path"
    using assms(5) join_with_append [of "images_dir @ [?k]" "replicate 5 ''..'' @ ns" "CHR ''/''"]
      join_with_append [of images_dir "[?k]" "CHR ''/''"]
    by (simp add: image_dir_def IMAGES_DIR_def path_text_def images_dir_def)
  moreover have "\<forall>s \<in> set ?path. CHR ''/'' \<notin> set s" using pl by (auto simp: plain_name_def)
  ultimately have segs: "segs_of (image_dir (?k @ ?x)) = ?path" using segs_names [of ?path] assms(5) by simp
  obtain ms s where ns: "ns = ms @ [s]" "step_name s" using assms(5) pl(2) plain_step by (cases ns rule: rev_cases) auto
  have up: "walks F False n [] (images_dir @ [?k] @ replicate 5 ''..'') []" for n
  proof -
    have "is_dir_at F (take j (images_dir @ [?k]))" for j
      using dir_chain [OF assms(1), of "[]" "images_dir @ [?k]" j] assms(3) by (cases "j < 5") (auto simp: is_dir_at_def images_dir_def)
    note d = this [of 5, simplified] this [of 4, simplified] this [of 3, simplified] this [of 2, simplified] this [of 1, simplified]
    show ?thesis
      using walks_append_up [OF walks_append_up [OF walks_append_up [OF walks_append_up [OF walks_append_up
        [OF walks_existing [OF assms(1,3), of n]]]]]] d
      by (simp add: images_dir_def numeral_eq_Suc)
  qed
  have w: "walks F False n [] ?path ns" for n
    using walks_append [OF up [of n] walks_existing [OF assms(1,6)]] by simp
  have ms: "F ms = Some Dir \<or> ms = []" using fs_okD [OF assms(1), of ns] assms(6) ns(1) by (auto simp: is_dir_at_def)
  let ?pre = "images_dir @ [?k] @ replicate 5 ''..'' @ ms"
  have pre: "walks F False n [] ?pre ms" for n
    using ms up [of n] walks_append [OF up [of n] walks_existing [OF assms(1), of ms]] by auto
  have d: "is_dir_at F ms" using ms by (auto simp: is_dir_at_def)
  have path: "?path = ?pre @ [s]" by (simp add: ns(1))
  have "entry_of F [] ?path = Inr ns" using entry_of_snoc [OF ns(2) pre d] path ns(1) by argo
  moreover have "lstat F [] ?path = Some Dir" using lstat_snoc [OF ns(2) pre d] assms(6) path ns(1) by argo
  ultimately have "fst (remove_dir_all root_may [] ?path F) p = None"
    using w [THEN resolve_iff [THEN iffD2]] assms(11)
    by (auto simp: remove_dir_all_def root_may_def drop_below_def Let_def strict_prefix_def)
  moreover have "remove_record (repo @ '':'' @ climb tag ns) F =
      (case remove_dir_all root_may [] ?path F of
         (F, Inr _) \<Rightarrow> (F, Inr ())
       | (F, Inl e) \<Rightarrow> (F, Inl (if e = NotFound then Other (''no such image: '' @ repo @ '':'' @ climb tag ns) else IoError)))"
    unfolding remove_record_def climb_def e(1) sum.case key segs ..
  ultimately show ?thesis
    using assms(7,10) by (auto simp: op_remove_record_def runtime_res_def split: prod.splits sum.splits)
qed

definition img_entries :: "(ppath \<times> fnode) list" where
  "img_entries = [([''var''], Dir), ([''var'', ''lib''], Dir), ([''var'', ''lib'', ''dn7-container''], Dir),
     (images_dir, Dir), (images_dir @ [''registry-1.docker.io_a_b_c''], Dir), ([''etc''], Dir), ([''etc'', ''passwd''], File ''x'')]"

definition img_fs :: fsys where "img_fs = map_of img_entries"

definition no_containers :: "nat cworld" where
  "no_containers = \<lparr>cw_net = \<lparr>nw_ipam = Map.empty, nw_nft = 0\<rparr>, cw_dirs = [], cw_procs = [], cw_bundles = Map.empty\<rparr>"

lemma img_fs_ok: "fs_ok img_fs"
proof -
  have "list_all (\<lambda>(p, v). p \<noteq> [] \<and> plain_name (last p) \<and> is_dir_at (map_of img_entries) (butlast p)) img_entries"
    by code_simp
  then have "p \<noteq> [] \<and> plain_name (last p) \<and> is_dir_at img_fs (butlast p)" if "img_fs p \<noteq> None" for p
    using that map_of_SomeD unfolding img_fs_def list_all_iff by fast
  then show ?thesis unfolding fs_ok_def by blast
qed

theorem image_removal_escapes_witness:
  "img_fs [''etc'', ''passwd''] = Some (File ''x'') \<and>
   fst (op_remove_record (Some ''a/b:c/../../../../../etc'') no_containers img_fs) [''etc'', ''passwd''] = None"
proof -
  have c: "climb ''c'' [''etc''] = ''c/../../../../../etc''" by code_simp
  obtain r where r: "parse_ref (''a/b'' @ '':'' @ ''c'') = Inr r" "store_key r = ''registry-1.docker.io_a_b_c''"
  proof -
    have "case parse_ref (''a/b'' @ '':'' @ ''c'') of Inr r \<Rightarrow> store_key r = ''registry-1.docker.io_a_b_c'' | _ \<Rightarrow> False" by code_simp
    then show ?thesis using that by (auto split: sum.splits)
  qed
  have f: "img_fs (images_dir @ [''registry-1.docker.io_a_b_c'']) = Some Dir" "img_fs [''etc''] = Some Dir"
    "img_fs [''etc'', ''passwd''] = Some (File ''x'')" by code_simp+
  have n: "need_ref (Some (''a/b'' @ '':'' @ ''c/../../../../../etc'')) = Inr (''a/b'' @ '':'' @ ''c/../../../../../etc'')" by code_simp
  have u: "dn7_image_users (''a/b'' @ '':'' @ ''c/../../../../../etc'') no_containers = None"
    by (simp add: dn7_image_users_def all_states_def no_containers_def map_filter_def)
  have "fst (op_remove_record (Some (''a/b'' @ '':'' @ climb ''c'' [''etc''])) no_containers img_fs) [''etc'', ''passwd''] = None"
    by (rule image_removal_escapes [OF img_fs_ok r(1)]) (use r(2) f n u in \<open>simp_all add: c\<close>)
  with f show ?thesis by (simp add: c)
qed

theorem canonical_roundtrip_witness:
  "parse_ref ''registry-1.docker.io/library/alpine:3.19'' = parse_ref ''alpine:3.19''"
proof -
  let ?r = "\<lparr>ref_registry = DOCKER_HUB_API, ref_repository = ''library/alpine'', ref_reference = ''3.19'', ref_is_digest = False\<rparr>"
  have p: "parse_ref ''alpine:3.19'' = Inr ?r" by code_simp
  have "canonical ?r = ''registry-1.docker.io/library/alpine:3.19''" by code_simp
  with canonical_roundtrip [OF p] p show ?thesis by simp
qed

end
