(* ===== verification/Image_Layers.thy ===== *)
theory Image_Layers
  imports Image_Refs
begin

text \<open>
  Applying the layers of an image to its root directory (\<open>crates/dn7-container/src/image/layer.rs\<close>)
  over the file system of \<open>Host_Fs\<close>, as root. What the \<open>tar\<close> crate does with an ordinary entry is an
  argument, \<open>unpack\<close>; the markers that delete are the code's own.
\<close>

section \<open>Entries\<close>

definition WHITEOUT :: string where "WHITEOUT = ''.wh.''"

definition OPAQUE :: string where "OPAQUE = ''.wh..wh..opq''"

text \<open>The components of a path without the leading slash; one that climbs is refused.\<close>

definition sanitize_entry :: "string \<Rightarrow> string list cres" where
  "sanitize_entry p =
     (let ss = split_on CHR ''/'' p in
      if ''..'' \<in> set ss then Inl (Other ''layer entry escapes rootfs (..)'')
      else Inr (filter (\<lambda>s. s \<noteq> [] \<and> s \<noteq> ''.'') ss))"

text \<open>\<open>symlink_metadata\<close>, with its error.\<close>

definition lstat_res :: "fsys \<Rightarrow> ppath \<Rightarrow> string list \<Rightarrow> io_err + fnode" where
  "lstat_res F st ss =
     (case (if follows ss then resolve F st ss else entry_of F st ss) of
        Inl e \<Rightarrow> Inl e
      | Inr p \<Rightarrow> (case node_at F p of Some v \<Rightarrow> Inr v | None \<Rightarrow> Inl NotFound))"

definition remove_all :: "string list \<Rightarrow> fsys \<Rightarrow> fsys \<times> unit cres" where
  "remove_all ss F =
     (case lstat_res F [] ss of
        Inl e \<Rightarrow> (F, if e = NotFound then Inr () else Inl IoError)
      | Inr v \<Rightarrow> io_cres ((if v = Dir then remove_dir_all else remove_file) root_may [] ss F))"

text \<open>Each entry of the directory goes, whatever it is.\<close>

definition clear_dir :: "string list \<Rightarrow> fsys \<Rightarrow> fsys \<times> unit cres" where
  "clear_dir ss F =
     (case resolve F [] ss of
        Inl e \<Rightarrow> (F, if e = NotFound then Inr () else Inl IoError)
      | Inr q \<Rightarrow> if is_dir_at F q then (drop_below q F, Inr ())
          else (F, if F q = None then Inr () else Inl IoError))"

definition apply_entry :: "('e \<Rightarrow> fsys \<Rightarrow> fsys \<times> unit cres) \<Rightarrow> string list \<Rightarrow> string \<Rightarrow> 'e \<Rightarrow> fsys \<Rightarrow> fsys \<times> unit cres" where
  "apply_entry unpack R raw e F =
     (case sanitize_entry raw of
        Inl x \<Rightarrow> (F, Inl x)
      | Inr [] \<Rightarrow> (F, Inr ())
      | Inr rel \<Rightarrow>
          (let name = (if utf8_valid (last rel) then last rel else []); parent = R @ butlast rel in
           if name = OPAQUE then clear_dir parent F
           else (case strip_prefix name WHITEOUT of
               Some target \<Rightarrow> remove_all (parent @ [target]) F
             | None \<Rightarrow> unpack e F)))"

text \<open>A layer is the list of its entries; reading one can fail.\<close>

fun apply_one :: "('e \<Rightarrow> fsys \<Rightarrow> fsys \<times> unit cres) \<Rightarrow> string list \<Rightarrow> (cerr + string \<times> 'e) list \<Rightarrow> fsys \<Rightarrow> fsys \<times> unit cres" where
  "apply_one unpack R [] F = (F, Inr ())"
| "apply_one unpack R (Inl x # es) F = (F, Inl x)"
| "apply_one unpack R (Inr (raw, e) # es) F =
     (case apply_entry unpack R raw e F of
        (F, Inl x) \<Rightarrow> (F, Inl x)
      | (F, Inr _) \<Rightarrow> apply_one unpack R es F)"

fun apply_layers :: "('e \<Rightarrow> fsys \<Rightarrow> fsys \<times> unit cres) \<Rightarrow> string list \<Rightarrow> (cerr + (cerr + string \<times> 'e) list) list \<Rightarrow> fsys \<Rightarrow> fsys \<times> unit cres" where
  "apply_layers unpack R [] F = (F, Inr ())"
| "apply_layers unpack R (Inl x # ls) F = (F, Inl x)"
| "apply_layers unpack R (Inr l # ls) F =
     (case apply_one unpack R l F of
        (F, Inl x) \<Rightarrow> (F, Inl x)
      | (F, Inr _) \<Rightarrow> apply_layers unpack R ls F)"

section \<open>What a marker deletes\<close>

lemma sanitize_names: "sanitize_entry p = Inr rel \<Longrightarrow> s \<in> set rel \<Longrightarrow> plain_name s"
  using split_on_no_sep [of s "CHR ''/''" p] by (auto simp: sanitize_entry_def plain_name_def Let_def split: if_splits)

lemma remove_all_frame:
  assumes "step_name t" and "walks F False MAX_LINKS [] pre d" and "is_dir_at F d" and "fst (remove_all (pre @ [t]) F) p \<noteq> F p"
  shows "prefix (d @ [t]) p"
proof -
  note f = follows_snoc [OF assms(1), of pre]
  note en = entry_of_snoc [OF assms(1,2,3)]
  have t: "t \<noteq> []" using assms(1) by (simp add: step_name_def)
  show ?thesis
  proof (cases "F (d @ [t])")
    case None
    with assms(4) f en show ?thesis by (simp add: remove_all_def lstat_res_def node_at_step)
  next
    case (Some v)
    then have l: "lstat_res F [] (pre @ [t]) = Inr v" "lstat F [] (pre @ [t]) = Some v"
      using f en by (simp_all add: lstat_res_def lstat_def node_at_step)
    show ?thesis
    proof (cases "v = Dir")
      case True
      have "resolve F [] (pre @ [t]) = Inr (d @ [t])"
        using walks_append_node [OF assms(2,3,1)] Some True by (simp add: resolve_iff)
      with assms(4) l True en show ?thesis
        by (auto simp: remove_all_def io_cres_def remove_dir_all_def root_may_def Let_def drop_below_def strict_prefix_def
            split: if_splits)
    next
      case False
      with assms(4) l en Some t show ?thesis
        by (cases v) (auto simp: remove_all_def io_cres_def remove_file_def root_may_def split: if_splits)
    qed
  qed
qed

lemma remove_all_gone:
  assumes "step_name t" and "walks F False MAX_LINKS [] pre d" and "is_dir_at F d" and "fs_ok F" and "prefix (d @ [t]) p"
  shows "fst (remove_all (pre @ [t]) F) p = None"
proof -
  note f = follows_snoc [OF assms(1), of pre]
  note en = entry_of_snoc [OF assms(1,2,3)]
  have t: "t \<noteq> []" using assms(1) by (simp add: step_name_def)
  have below: "F (d @ [t]) = Some Dir \<or> p = d @ [t] \<or> F p = None"
  proof (cases "F p")
    case (Some v)
    from assms(5) obtain us where p: "p = (d @ [t]) @ us" by (auto simp: prefix_def)
    with Some dir_chain [OF assms(4), of "d @ [t]" us 0] show ?thesis by (cases us) auto
  qed simp
  show ?thesis
  proof (cases "F (d @ [t])")
    case None
    with below assms(5) f en show ?thesis by (auto simp: remove_all_def lstat_res_def node_at_step)
  next
    case (Some v)
    then have l: "lstat_res F [] (pre @ [t]) = Inr v" "lstat F [] (pre @ [t]) = Some v"
      using f en by (simp_all add: lstat_res_def lstat_def node_at_step)
    show ?thesis
    proof (cases "v = Dir")
      case True
      have "resolve F [] (pre @ [t]) = Inr (d @ [t])"
        using walks_append_node [OF assms(2,3,1)] Some True by (simp add: resolve_iff)
      with assms(5) l True en show ?thesis
        by (auto simp: remove_all_def io_cres_def remove_dir_all_def root_may_def Let_def drop_below_def strict_prefix_def)
    next
      case False
      with l en Some t below assms(5) show ?thesis
        by (cases v) (auto simp: remove_all_def io_cres_def remove_file_def root_may_def)
    qed
  qed
qed

lemma walks_append_link:
  "walks F False n cur pre d \<Longrightarrow> is_dir_at F d \<Longrightarrow> step_name s \<Longrightarrow> F (d @ [s]) = Some (Link t) \<Longrightarrow>
     (\<And>m. walks F False m (start_of d t) (segs_of t) q) \<Longrightarrow> walks F False (Suc n) cur (pre @ [s]) q"
proof (induction rule: walks.induct)
  case (stop n cur)
  then show ?case using walks.link [of F cur s t False n "[]" q] by simp
qed (auto intro: walks.intros)

lemma clear_dir_effect:
  "walks F False MAX_LINKS [] ss q \<Longrightarrow> is_dir_at F q \<Longrightarrow> clear_dir ss F = (drop_below q F, Inr ())"
  by (simp add: clear_dir_def resolve_iff [THEN iffD2])

lemma apply_entry_name:
  assumes "sanitize_entry raw = Inr (pre @ [name])" and "utf8_valid name"
  shows "apply_entry unpack R raw e F =
    (if name = OPAQUE then clear_dir (R @ pre) F
     else (case strip_prefix name WHITEOUT of
         Some target \<Rightarrow> remove_all (R @ pre @ [target]) F | None \<Rightarrow> unpack e F))"
  using assms by (cases pre) (simp_all add: apply_entry_def Let_def split: option.split)

text \<open>Where the directory of the entry is a directory and no link leads to it, a marker that deletes changes
  nothing outside that directory of the root directory.
\<close>

theorem marker_confined:
  assumes "fs_ok F" and "sanitize_entry raw = Inr (pre @ [name])" and "utf8_valid name"
    and "name = OPAQUE \<or> (\<exists>t. strip_prefix name WHITEOUT = Some t \<and> step_name t)"
    and "F (R @ pre) = Some Dir" and "fst (apply_entry unpack R raw e F) p \<noteq> F p"
  shows "strict_prefix (R @ pre) p"
proof (cases "name = OPAQUE")
  case True
  with assms(6) clear_dir_effect [OF walks_existing [OF assms(1,5)]] assms(5) show ?thesis
    unfolding apply_entry_name [OF assms(2,3)] by (auto simp: is_dir_at_def drop_below_def split: if_splits)
next
  case False
  with assms(4) obtain t where t: "strip_prefix name WHITEOUT = Some t" "step_name t" by blast
  from assms(6) False t(1) have "fst (remove_all ((R @ pre) @ [t]) F) p \<noteq> F p"
    unfolding apply_entry_name [OF assms(2,3)] by simp
  from remove_all_frame [OF t(2) walks_existing [OF assms(1,5)] _ this] assms(5)
  have "prefix ((R @ pre) @ [t]) p" by (simp add: is_dir_at_def)
  then show ?thesis by (auto simp: strict_prefix_def prefix_def)
qed

text \<open>C25: the code follows a link of the image when it looks for what a marker deletes: a layer that makes a link to a
  directory of the host, and then marks a name below it, deletes that name on the host.
\<close>

theorem layer_deletes_host:
  assumes "fs_ok F" and "F R = Some Dir" and "plain_name x" and "F (R @ [x]) = None" and "ds \<noteq> []" and "F ds = Some Dir"
    and "unpack e F = (F(R @ [x] \<mapsto> Link (path_text ds)), Inr ())"
    and "sanitize_entry raw = Inr [x]" and "utf8_valid x" and "strip_prefix x WHITEOUT = None"
    and "sanitize_entry raw' = Inr [x, WHITEOUT @ s]" and "plain_name s" and "utf8_valid (WHITEOUT @ s)" and "WHITEOUT @ s \<noteq> OPAQUE"
    and "prefix (ds @ [s]) p"
  shows "fst (apply_one unpack R [Inr (raw, e), Inr (raw', e')] F) p = None"
proof -
  let ?G = "F(R @ [x] \<mapsto> Link (path_text ds))"
  have o: "x \<noteq> OPAQUE" using assms(10) by (auto simp: OPAQUE_def WHITEOUT_def strip_prefix_def starts_with_def)
  have 1: "apply_entry unpack R raw e F = (?G, Inr ())"
    using apply_entry_name [of raw "[]" x unpack R e F] assms(7-10) o by simp
  have le: "F \<subseteq>\<^sub>m ?G" using assms(4) by (auto simp: map_le_def dom_def)
  have ok: "fs_ok ?G" using assms(1-4)
    by (auto simp: fs_ok_def is_dir_at_def split: if_splits)
  have R: "walks ?G False n [] R R" for n by (rule walks_mono [OF walks_existing [OF assms(1,2)] le])
  have ds: "walks ?G False n [] ds ds" for n by (rule walks_mono [OF walks_existing [OF assms(1,6)] le])
  have dir: "is_dir_at ?G R" "is_dir_at ?G ds"
    using assms(2,4,6) by (auto simp: is_dir_at_def)
  have st: "start_of R (path_text ds) = []" "segs_of (path_text ds) = ds"
    using segs_path_text [OF assms(5)] fs_ok_plain [OF assms(1), of ds] assms(6)
    by (simp_all add: start_of_def is_absolute_def path_text_def starts_with_def)
  have "?G (R @ [x]) = Some (Link (path_text ds))" by simp
  then have "walks ?G False (Suc 39) [] (R @ [x]) ds"
    by (rule walks_append_link [OF R dir(1) plain_step [OF assms(3)]]) (simp only: st ds)
  then have "walks ?G False MAX_LINKS [] (R @ [x]) ds" by (simp add: MAX_LINKS_def)
  from remove_all_gone [OF plain_step [OF assms(12)] this dir(2) ok assms(15)]
  have "fst (remove_all (R @ [x] @ [s]) ?G) p = None" by simp
  moreover have "strip_prefix (WHITEOUT @ s) WHITEOUT = Some s" by (simp add: strip_prefix_Some)
  then have "apply_entry unpack R raw' e' ?G = remove_all (R @ [x] @ [s]) ?G"
    using apply_entry_name [of raw' "[x]" "WHITEOUT @ s" unpack R e' ?G] assms(11,13,14) by simp
  ultimately show ?thesis using 1 by (auto split: prod.splits sum.splits)
qed

text \<open>The root directory is \<open>/r\<close>, the host has a directory \<open>/etc\<close>.\<close>

definition layer_entries :: "(ppath \<times> fnode) list" where
  "layer_entries = [([''r''], Dir), ([''r'', ''etc''], Dir), ([''r'', ''etc'', ''x''], File ''1''), ([''etc''], Dir),
     ([''etc'', ''passwd''], File ''2'')]"

definition layer_fs :: fsys where "layer_fs = map_of layer_entries"

lemma layer_fs_ok: "fs_ok layer_fs"
proof -
  have "list_all (\<lambda>(p, v). p \<noteq> [] \<and> plain_name (last p) \<and> is_dir_at (map_of layer_entries) (butlast p)) layer_entries"
    by code_simp
  then have "p \<noteq> [] \<and> plain_name (last p) \<and> is_dir_at layer_fs (butlast p)" if "layer_fs p \<noteq> None" for p
    using that map_of_SomeD unfolding layer_fs_def list_all_iff by fast
  then show ?thesis unfolding fs_ok_def by blast
qed

text \<open>An entry whose unpacking makes a link.\<close>

definition demo_unpack :: "ppath \<times> string \<Rightarrow> fsys \<Rightarrow> fsys \<times> unit cres" where
  "demo_unpack e F = (F(fst e \<mapsto> Link (snd e)), Inr ())"

theorem marker_confined_witness:
  "fst (apply_entry demo_unpack [''r''] ''etc/.wh.x'' ([], []) layer_fs) [''etc'', ''passwd''] = Some (File ''2'') \<and>
   fst (apply_entry demo_unpack [''r''] ''etc/.wh.x'' ([], []) layer_fs) [''r'', ''etc'', ''x''] = None"
proof -
  have s: "sanitize_entry ''etc/.wh.x'' = Inr ([''etc''] @ [''.wh.x''])" "utf8_valid ''.wh.x''" "strip_prefix ''.wh.x'' WHITEOUT = Some ''x''"
    "step_name ''x''" "layer_fs ([''r''] @ [''etc'']) = Some Dir" "layer_fs [''etc'', ''passwd''] = Some (File ''2'')" by code_simp+
  have "fst (apply_entry demo_unpack [''r''] ''etc/.wh.x'' ([], []) layer_fs) [''etc'', ''passwd''] = layer_fs [''etc'', ''passwd'']"
  proof (rule ccontr)
    assume "\<not> ?thesis"
    from marker_confined [OF layer_fs_ok s(1,2) _ s(5) this] s(3,4) show False by auto
  qed
  moreover have "fst (apply_entry demo_unpack [''r''] ''etc/.wh.x'' ([], []) layer_fs) [''r'', ''etc'', ''x''] = None" by code_simp
  ultimately show ?thesis using s(6) by simp
qed

theorem layer_deletes_host_witness:
  "fst (apply_one demo_unpack [''r''] [Inr (''l'', ([''r'', ''l''], ''/etc'')), Inr (''l/.wh.passwd'', ([], []))] layer_fs)
     [''etc'', ''passwd''] = None"
proof -
  have s: "layer_fs [''r''] = Some Dir" "plain_name ''l''" "layer_fs ([''r''] @ [''l'']) = None" "layer_fs [''etc''] = Some Dir"
    "sanitize_entry ''l'' = Inr [''l'']" "utf8_valid ''l''" "strip_prefix ''l'' WHITEOUT = None"
    "sanitize_entry ''l/.wh.passwd'' = Inr [''l'', WHITEOUT @ ''passwd'']" "plain_name ''passwd''"
    "utf8_valid (WHITEOUT @ ''passwd'')" "WHITEOUT @ ''passwd'' \<noteq> OPAQUE" "path_text [''etc''] = ''/etc''" by code_simp+
  show ?thesis
    by (rule layer_deletes_host [OF layer_fs_ok s(1-3) _ s(4) _ s(5-11)]) (simp_all add: demo_unpack_def s(12))
qed

end
