(* ===== verification/Image_Store.thy ===== *)
theory Image_Store
  imports Image_Refs
begin

text \<open>
  The content store of images (\<open>crates/dn7-container/src/image/store.rs\<close>) and the operations on it: pulling,
  tagging, removing, pruning (\<open>image/mod.rs\<close>), archives (\<open>image/archive.rs\<close>), commits
  (\<open>image/commit.rs\<close>). A blob is a byte string under its SHA-256; the records of images and of the
  images containers were made of name blobs by digest. The hash, the JSON texts, the registry and
  what reading from it yields are arguments. Keys of records have no slash here (see \<open>Image_Refs\<close>).
\<close>

section \<open>The store\<close>

definition hex_char :: "char \<Rightarrow> bool" where
  "hex_char c \<longleftrightarrow> is_ascii_digit c \<or> (97 \<le> byte c \<and> byte c \<le> 102)"

definition split_digest :: "string \<Rightarrow> string cres" where
  "split_digest digest =
     (case split_once CHR '':'' digest of
        Some (algo, hex) \<Rightarrow>
          if algo = ''sha256'' \<and> length hex = 64 \<and> list_all hex_char hex then Inr hex
          else Inl (Other (''malformed digest: '' @ digest))
      | None \<Rightarrow> Inl (Other (''malformed digest: '' @ digest)))"

record image_record =
  im_reference :: string
  im_config :: string
  im_layers :: "string list"

text \<open>Blobs and partial downloads by hash, records by key, extracted root directories by the hash of
  the config with their \<open>.ready\<close> mark, and the \<open>parent.json\<close> of every container.\<close>

record istore =
  is_blobs :: "(string, string) hmap"
  is_tmp :: "(string, string) hmap"
  is_images :: "(string, image_record manifest) hmap"
  is_caches :: "(string, bool) hmap"
  is_parents :: "(string, image_record) hmap"

text \<open>The hash, and whether files can be written and renamed; a write that fails leaves no new content.\<close>

record ienv =
  ie_sha :: "string \<Rightarrow> string"
  ie_write :: bool
  ie_rename :: bool

definition MAX_BLOB_BYTES :: nat where "MAX_BLOB_BYTES = 32 * 1024 * 1024 * 1024"
definition MAX_TOTAL_BYTES :: nat where "MAX_TOTAL_BYTES = 64 * 1024 * 1024 * 1024"

definition blob_of :: "string \<Rightarrow> istore \<Rightarrow> string option" where
  "blob_of digest S = (case split_digest digest of Inr hex \<Rightarrow> hm_get (is_blobs S) hex | Inl _ \<Rightarrow> None)"

definition has_blob :: "string \<Rightarrow> istore \<Rightarrow> bool" where
  "has_blob digest S \<longleftrightarrow> blob_of digest S \<noteq> None"

definition blob_size :: "string \<Rightarrow> istore \<Rightarrow> nat" where
  "blob_size digest S = (case blob_of digest S of Some b \<Rightarrow> length b | None \<Rightarrow> 0)"

definition drop_tmp :: "string \<Rightarrow> istore \<Rightarrow> istore" where
  "drop_tmp hex S = S\<lparr>is_tmp := hm_remove hex (is_tmp S)\<rparr>"

definition put_tmp :: "string \<Rightarrow> string \<Rightarrow> istore \<Rightarrow> istore" where
  "put_tmp hex bs S = S\<lparr>is_tmp := hm_insert hex bs (is_tmp S)\<rparr>"

text \<open>The rename of the partial file.\<close>

definition put_blob :: "string \<Rightarrow> string \<Rightarrow> istore \<Rightarrow> istore" where
  "put_blob hex bs S = S\<lparr>is_blobs := hm_insert hex bs (is_blobs S), is_tmp := hm_remove hex (is_tmp S)\<rparr>"

definition mismatch :: "string \<Rightarrow> string \<Rightarrow> cerr" where
  "mismatch want got = Other (''blob digest mismatch: wanted '' @ want @ '', got '' @ got)"

text \<open>\<open>fill\<close> writes some bytes and may then fail.\<close>

definition save_blob :: "ienv \<Rightarrow> string \<Rightarrow> string \<times> cerr option \<Rightarrow> istore \<Rightarrow> istore \<times> unit cres" where
  "save_blob E digest fill S =
     (if has_blob digest S then (S, Inr ())
      else (case split_digest digest of
          Inl e \<Rightarrow> (S, Inl e)
        | Inr hex \<Rightarrow>
            if \<not> ie_write E then (S, Inl IoError)
            else (case snd fill of
                Some e \<Rightarrow> (drop_tmp hex S, Inl e)
              | None \<Rightarrow>
                  if ie_sha E (fst fill) \<noteq> hex then (drop_tmp hex S, Inl (mismatch hex (ie_sha E (fst fill))))
                  else if \<not> ie_rename E then (put_tmp hex (fst fill) S, Inl IoError)
                  else (put_blob hex (fst fill) S, Inr ()))))"

text \<open>What a reader yields: bytes, and then possibly an error. \<open>CapReader\<close> fails beyond its budget.\<close>

type_synonym reader = "string \<times> bool"

definition cap_reader :: "nat \<Rightarrow> reader \<Rightarrow> reader" where
  "cap_reader mx rd = (if length (fst rd) \<le> mx then rd else (take mx (fst rd), True))"

definition save_blob_from_reader :: "ienv \<Rightarrow> string \<Rightarrow> reader \<Rightarrow> nat \<Rightarrow> istore \<Rightarrow> istore \<times> unit cres" where
  "save_blob_from_reader E digest rd mx S =
     (case cap_reader mx rd of
        (bs, err) \<Rightarrow> save_blob E digest (bs, if err then Some (Other (''stream blob '' @ digest)) else None) S)"

text \<open>\<open>base\<close> is the content the partial file keeps, \<open>hashed\<close> the part of it that is hashed again.\<close>

definition resume_from :: "ienv \<Rightarrow> string \<Rightarrow> string \<Rightarrow> nat \<Rightarrow> string \<Rightarrow> string \<Rightarrow> reader \<Rightarrow> istore \<Rightarrow> istore \<times> unit cres" where
  "resume_from E digest hex mx base hashed rd S =
     (if fst rd \<noteq> [] \<and> mx < length hashed + length (fst rd)
      then (drop_tmp hex S, Inl (Other (''blob '' @ digest @ '' exceeds size cap'')))
      else if snd rd then (put_tmp hex (base @ fst rd) S, Inl (Other (''stream blob '' @ digest)))
      else if ie_sha E (hashed @ fst rd) \<noteq> hex then (drop_tmp hex S, Inl (mismatch hex (ie_sha E (hashed @ fst rd))))
      else if \<not> ie_rename E then (put_tmp hex (base @ fst rd) S, Inl IoError)
      else (put_blob hex (base @ fst rd) S, Inr ()))"

definition save_blob_resumable ::
  "ienv \<Rightarrow> string \<Rightarrow> nat \<Rightarrow> (nat \<Rightarrow> (reader \<times> nat) cres) \<Rightarrow> istore \<Rightarrow> istore \<times> unit cres" where
  "save_blob_resumable E digest mx open_at S =
     (if has_blob digest S then (S, Inr ())
      else (case split_digest digest of
          Inl e \<Rightarrow> (S, Inl e)
        | Inr hex \<Rightarrow>
            (case open_at (case hm_get (is_tmp S) hex of Some t \<Rightarrow> length t | None \<Rightarrow> 0) of
               Inl e \<Rightarrow> (S, Inl e)
             | Inr (rd, pos) \<Rightarrow>
                 if pos = 0 then (if \<not> ie_write E then (S, Inl IoError) else resume_from E digest hex mx [] [] rd S)
                 else (case hm_get (is_tmp S) hex of
                     None \<Rightarrow> (S, Inl IoError)
                   | Some t \<Rightarrow>
                       if length t < pos
                       then (drop_tmp hex S, Inl (Other (''blob resume: partial file for '' @ digest @ '' changed size'')))
                       else resume_from E digest hex mx t (take pos t) rd S))))"

definition remove_blob :: "string \<Rightarrow> istore \<Rightarrow> istore" where
  "remove_blob digest S =
     (case split_digest digest of Inr hex \<Rightarrow> S\<lparr>is_blobs := hm_remove hex (is_blobs S)\<rparr> | Inl _ \<Rightarrow> S)"

definition remove_rootfs_cache :: "string \<Rightarrow> istore \<Rightarrow> istore" where
  "remove_rootfs_cache digest S =
     (case split_digest digest of Inr hex \<Rightarrow> S\<lparr>is_caches := hm_remove hex (is_caches S)\<rparr> | Inl _ \<Rightarrow> S)"

definition load_record :: "string \<Rightarrow> istore \<Rightarrow> image_record cres" where
  "load_record key S =
     (case hm_get (is_images S) key of
        Some (Parsed r) \<Rightarrow> Inr r
      | Some Unparsable \<Rightarrow> Inl JsonError
      | _ \<Rightarrow> Inl IoError)"

definition write_record :: "ienv \<Rightarrow> string \<Rightarrow> image_record \<Rightarrow> istore \<Rightarrow> istore \<times> unit cres" where
  "write_record E key r S =
     (if ie_write E then (S\<lparr>is_images := hm_insert key (Parsed r) (is_images S)\<rparr>, Inr ()) else (S, Inl IoError))"

section \<open>Removing and tagging\<close>

definition digests_of :: "image_record \<Rightarrow> string list" where "digests_of r = im_config r # im_layers r"

definition records :: "istore \<Rightarrow> image_record list" where
  "records S = List.map_filter (\<lambda>(k, m). case m of Parsed r \<Rightarrow> Some r | _ \<Rightarrow> None) (is_images S)"

definition referenced_digests :: "istore \<Rightarrow> string list" where
  "referenced_digests S = concat (map digests_of (records S @ map snd (is_parents S)))"

text \<open>Without duplicates, in the order of the first occurrences.\<close>

definition gc_candidates :: "image_record \<Rightarrow> string list \<Rightarrow> string list" where
  "gc_candidates removed still = rev (remdups (rev (filter (\<lambda>d. d \<notin> set still) (digests_of removed))))"

definition remove_image :: "string \<Rightarrow> istore \<Rightarrow> istore \<times> unit cres" where
  "remove_image reference S =
     (case parse_ref reference of
        Inl e \<Rightarrow> (S, Inl e)
      | Inr r \<Rightarrow>
          let removed = load_record (store_key r) S in
          if hm_get (is_images S) (store_key r) = None then (S, Inl (Other (''no such image: '' @ reference)))
          else let S = S\<lparr>is_images := hm_remove (store_key r) (is_images S)\<rparr> in
            (case removed of
               Inl _ \<Rightarrow> (S, Inr ())
             | Inr rec \<Rightarrow>
                 let still = referenced_digests S; S = fold remove_blob (gc_candidates rec still) S in
                 (if im_config rec \<notin> set still then remove_rootfs_cache (im_config rec) S else S, Inr ())))"

text \<open>The files of the blob directory are blobs and partial downloads; what no record names goes.\<close>

definition prune :: "istore \<Rightarrow> istore" where
  "prune S =
     (let used = (\<lambda>name. ''sha256:'' @ name \<in> set (referenced_digests S)) in
      S\<lparr>is_blobs := hm_retain (\<lambda>hex _. used hex) (is_blobs S),
        is_tmp := hm_retain (\<lambda>hex _. used (hex @ ''.tmp'')) (is_tmp S),
        is_caches := hm_retain (\<lambda>hex _. used hex) (is_caches S)\<rparr>)"

definition tag_image :: "ienv \<Rightarrow> string \<Rightarrow> string \<Rightarrow> istore \<Rightarrow> istore \<times> unit cres" where
  "tag_image E src new_ref S =
     (case parse_ref src of
        Inl e \<Rightarrow> (S, Inl e)
      | Inr sr \<Rightarrow> (case parse_ref new_ref of
          Inl e \<Rightarrow> (S, Inl e)
        | Inr nr \<Rightarrow> (case load_record (store_key sr) S of
            Inl e \<Rightarrow> (S, Inl e)
          | Inr rec \<Rightarrow> write_record E (store_key nr) (rec\<lparr>im_reference := canonical nr\<rparr>) S)))"

section \<open>Pulling\<close>

record descriptor =
  ds_digest :: string
  ds_size :: int
  ds_platform :: "(string \<times> string) option"

text \<open>The registry: a manifest with its content type; the status and the body of the request for a blob from
  an offset, at the n-th attempt.\<close>

record remote =
  rm_manifest :: "string \<Rightarrow> (string \<times> string) cres"
  rm_get :: "string \<Rightarrow> nat \<Rightarrow> nat \<Rightarrow> (nat \<times> reader) cres"

text \<open>The offset the body starts at is the one asked for only if the registry says so.\<close>

definition blob_reader_at :: "remote \<Rightarrow> string \<Rightarrow> nat \<Rightarrow> nat \<Rightarrow> (reader \<times> nat) cres" where
  "blob_reader_at rm digest n offset =
     and_then (case rm_get rm digest n offset of
         Inl (Other m) \<Rightarrow>
           if 0 < offset \<and> str_contains m ''registry HTTP 416'' then rm_get rm digest n 0 else Inl (Other m)
       | r \<Rightarrow> r)
     (\<lambda>(status, rd). Inr (rd, if 0 < offset \<and> status = 206 then offset else 0))"

record icodec =
  cd_is_index :: "string \<Rightarrow> bool"
  cd_index :: "string \<Rightarrow> descriptor list option"
  cd_manifest :: "string \<Rightarrow> (descriptor \<times> descriptor list) option"
  cd_arch :: string

definition OCI_INDEX :: string where "OCI_INDEX = ''application/vnd.oci.image.index.v1+json''"
definition DOCKER_LIST :: string where "DOCKER_LIST = ''application/vnd.docker.distribution.manifest.list.v2+json''"

definition is_index :: "string \<Rightarrow> bool" where
  "is_index mt \<longleftrightarrow> starts_with mt OCI_INDEX \<or> starts_with mt DOCKER_LIST"

definition select_platform :: "string \<Rightarrow> string \<Rightarrow> descriptor list \<Rightarrow> descriptor option" where
  "select_platform arch os ds = find (\<lambda>d. ds_platform d = Some (arch, os)) ds"

definition is_transient_pull_err :: "cerr \<Rightarrow> bool" where
  "is_transient_pull_err e \<longleftrightarrow>
     (let m = cerr_text e in
      str_contains m ''stream blob'' \<or> str_contains m ''registry transport'' \<or> str_contains m ''registry HTTP 5'')"

definition blob_cap :: "nat \<Rightarrow> nat" where
  "blob_cap tot = min MAX_BLOB_BYTES (MAX_TOTAL_BYTES - tot)"

definition BLOB_ATTEMPTS :: nat where "BLOB_ATTEMPTS = 3"

text \<open>With \<open>n\<close> attempts left after this one.\<close>

fun pull_tries :: "ienv \<Rightarrow> remote \<Rightarrow> string \<Rightarrow> nat \<Rightarrow> nat \<Rightarrow> istore \<Rightarrow> istore \<times> unit cres" where
  "pull_tries E rm digest cap n S =
     (case save_blob_resumable E digest cap (blob_reader_at rm digest (BLOB_ATTEMPTS - n)) S of
        (S, Inr _) \<Rightarrow> (S, Inr ())
      | (S, Inl e) \<Rightarrow>
          (case n of
             Suc m \<Rightarrow> if is_transient_pull_err e then pull_tries E rm digest cap m S else (S, Inl e)
           | 0 \<Rightarrow> (S, Inl e)))"

declare pull_tries.simps [simp del]

text \<open>The running total saturates at 64 bits.\<close>

definition pull_blob :: "ienv \<Rightarrow> remote \<Rightarrow> string \<Rightarrow> nat \<Rightarrow> istore \<Rightarrow> istore \<times> nat cres" where
  "pull_blob E rm digest tot S =
     (case pull_tries E rm digest (blob_cap tot) (BLOB_ATTEMPTS - 1) S of
        (S, Inl e) \<Rightarrow> (S, Inl e)
      | (S, Inr _) \<Rightarrow>
          let tot = min (tot + blob_size digest S) (2 ^ 64 - 1) in
          if MAX_TOTAL_BYTES < tot then (S, Inl (Other ''image exceeds total size cap'')) else (S, Inr tot))"

fun pull_layers :: "ienv \<Rightarrow> remote \<Rightarrow> string list \<Rightarrow> nat \<Rightarrow> istore \<Rightarrow> istore \<times> nat cres" where
  "pull_layers E rm [] tot S = (S, Inr tot)"
| "pull_layers E rm (d # ds) tot S =
     (if has_blob d S then pull_layers E rm ds tot S
      else (case pull_blob E rm d tot S of
          (S, Inl e) \<Rightarrow> (S, Inl e)
        | (S, Inr tot) \<Rightarrow> pull_layers E rm ds tot S))"

definition resolve_manifest :: "icodec \<Rightarrow> remote \<Rightarrow> string \<Rightarrow> (descriptor \<times> descriptor list) cres" where
  "resolve_manifest C rm reference =
     and_then (rm_manifest rm reference) (\<lambda>(top, ct).
     and_then (if is_index ct \<or> cd_is_index C top
         then (case cd_index C top of
             None \<Rightarrow> Inl JsonError
           | Some ds \<Rightarrow> (case select_platform (cd_arch C) ''linux'' ds of
                 None \<Rightarrow> Inl (Other (''image has no linux/'' @ cd_arch C @ '' variant in its index''))
               | Some d \<Rightarrow> and_then (rm_manifest rm (ds_digest d)) (\<lambda>(bs, _). Inr bs)))
         else Inr top) (\<lambda>bs.
     case cd_manifest C bs of None \<Rightarrow> Inl JsonError | Some m \<Rightarrow> Inr m))"

definition pull_with :: "ienv \<Rightarrow> icodec \<Rightarrow> remote \<Rightarrow> string \<Rightarrow> istore \<Rightarrow> istore \<times> image_record cres" where
  "pull_with E C rm reference S =
     (case parse_ref reference of
        Inl e \<Rightarrow> (S, Inl e)
      | Inr r \<Rightarrow> (case resolve_manifest C rm (ref_reference r) of
          Inl e \<Rightarrow> (S, Inl e)
        | Inr (config, layers) \<Rightarrow>
            st_bind (pull_blob E rm (ds_digest config) 0 S) (\<lambda>tot S.
            st_bind (pull_layers E rm (map ds_digest layers) tot S) (\<lambda>_ S.
              let rec = \<lparr>im_reference = canonical r, im_config = ds_digest config, im_layers = map ds_digest layers\<rparr> in
              st_bind (write_record E (store_key r) rec S) (\<lambda>_ S. (S, Inr rec))))))"

section \<open>Root directories and containers\<close>

text \<open>\<open>apply_ok\<close> says whether the layers, all present, can be applied (see \<open>Image_Layers\<close>).\<close>

definition ensure_image_rootfs :: "(image_record \<Rightarrow> bool) \<Rightarrow> image_record \<Rightarrow> istore \<Rightarrow> istore \<times> unit cres" where
  "ensure_image_rootfs apply_ok rec S =
     (case split_digest (im_config rec) of
        Inl e \<Rightarrow> (S, Inl e)
      | Inr hex \<Rightarrow>
          if hm_get (is_caches S) hex = Some True then (S, Inr ())
          else if \<not> list_all (\<lambda>d. has_blob d S) (im_layers rec) \<or> \<not> apply_ok rec
          then (S\<lparr>is_caches := hm_insert hex False (is_caches S)\<rparr>, Inl IoError)
          else (S\<lparr>is_caches := hm_insert hex True (is_caches S)\<rparr>, Inr ()))"

text \<open>From the image to the bundle of a container: the part that touches the store. \<open>json_ok\<close> says whether a
  blob is the JSON of a configuration.\<close>

definition pin_image ::
  "ienv \<Rightarrow> icodec \<Rightarrow> remote \<Rightarrow> (image_record \<Rightarrow> bool) \<Rightarrow> (string \<Rightarrow> bool) \<Rightarrow> string \<Rightarrow> string \<Rightarrow> istore \<Rightarrow> istore \<times> image_record cres" where
  "pin_image E C rm apply_ok json_ok i reference S =
     (case parse_ref reference of
        Inl e \<Rightarrow> (S, Inl e)
      | Inr r \<Rightarrow>
          st_bind (case load_record (store_key r) S of Inr rec \<Rightarrow> (S, Inr rec) | Inl _ \<Rightarrow> pull_with E C rm reference S) (\<lambda>rec S.
          st_bind (ensure_image_rootfs apply_ok rec S) (\<lambda>_ S.
            case blob_of (im_config rec) S of
              None \<Rightarrow> (S, Inl IoError)
            | Some b \<Rightarrow>
                if \<not> json_ok b then (S, Inl JsonError)
                else if \<not> ie_write E then (S\<lparr>is_parents := hm_remove i (is_parents S)\<rparr>, Inl IoError)
                else (S\<lparr>is_parents := hm_insert i rec (is_parents S)\<rparr>, Inr rec))))"

definition unpin_image :: "string \<Rightarrow> istore \<Rightarrow> istore" where
  "unpin_image i S = S\<lparr>is_parents := hm_remove i (is_parents S)\<rparr>"

text \<open>A commit: \<open>gz\<close> is the compressed layer, \<open>new_cfg\<close> the configuration with the layer added.\<close>

definition commit_image ::
  "ienv \<Rightarrow> string option \<Rightarrow> (string \<Rightarrow> string cres) \<Rightarrow> string \<Rightarrow> string \<Rightarrow> istore \<Rightarrow> istore \<times> image_record cres" where
  "commit_image E gz new_cfg i new_ref S =
     (case parse_ref new_ref of
        Inl e \<Rightarrow> (S, Inl e)
      | Inr r \<Rightarrow> (case hm_get (is_parents S) i of
          None \<Rightarrow> (S, Inl IoError)
        | Some parent \<Rightarrow> (case gz of
            None \<Rightarrow> (S, Inl (Other ''container has no overlay upper to commit''))
          | Some layer \<Rightarrow>
              let layer_digest = ''sha256:'' @ ie_sha E layer in
              st_bind (save_blob E layer_digest (layer, None) S) (\<lambda>_ S.
                case blob_of (im_config parent) S of
                  None \<Rightarrow> (S, Inl IoError)
                | Some cfg \<Rightarrow> (case new_cfg cfg of
                    Inl e \<Rightarrow> (S, Inl e)
                  | Inr cfg' \<Rightarrow>
                      let cfg_digest = ''sha256:'' @ ie_sha E cfg' in
                      st_bind (save_blob E cfg_digest (cfg', None) S) (\<lambda>_ S.
                        let rec = \<lparr>im_reference = canonical r, im_config = cfg_digest, im_layers = im_layers parent @ [layer_digest]\<rparr> in
                        st_bind (write_record E (store_key r) rec S) (\<lambda>_ S. (S, Inr rec))))))))"

section \<open>Archives\<close>

record acodec =
  ac_manifest :: "(string \<times> nat) \<Rightarrow> (string \<times> nat) list \<Rightarrow> string"
  ac_index :: "string \<Rightarrow> nat \<Rightarrow> string \<Rightarrow> string"
  ac_read_index :: "string \<Rightarrow> string option option"
  ac_read_manifest :: "string \<Rightarrow> (string \<times> string list) option"

definition OCI_LAYOUT :: string where "OCI_LAYOUT = ''{'' @ [CHR 0x22] @ ''imageLayoutVersion'' @ [CHR 0x22] @ '':'' @ [CHR 0x22] @ ''1.0.0'' @ [CHR 0x22] @ ''}''"

definition blob_tar_path :: "string \<Rightarrow> string cres" where
  "blob_tar_path digest = and_then (split_digest digest) (\<lambda>hex. Inr (''blobs/sha256/'' @ hex))"

definition sized_blob :: "istore \<Rightarrow> string \<Rightarrow> (string \<times> nat) cres" where
  "sized_blob S d =
     and_then (split_digest d) (\<lambda>_. case blob_of d S of Some b \<Rightarrow> Inr (d, length b) | None \<Rightarrow> Inl IoError)"

definition tar_blob :: "istore \<Rightarrow> string \<Rightarrow> (string \<times> string) cres" where
  "tar_blob S d =
     and_then (blob_tar_path d) (\<lambda>p. case blob_of d S of Some b \<Rightarrow> Inr (p, b) | None \<Rightarrow> Inl IoError)"

text \<open>The members of the archive in order; the output file could be created.\<close>

definition archive_save :: "ienv \<Rightarrow> acodec \<Rightarrow> string \<Rightarrow> istore \<Rightarrow> (string \<times> string) list cres" where
  "archive_save E A reference S =
     and_then (parse_ref reference) (\<lambda>r.
     and_then (load_record (store_key r) S) (\<lambda>rec.
     and_then (collect_res (map (sized_blob S) (im_layers rec))) (\<lambda>layers.
     and_then (sized_blob S (im_config rec)) (\<lambda>config.
       let manifest = ac_manifest A config layers;
           digest = ''sha256:'' @ ie_sha E manifest in
     and_then (blob_tar_path digest) (\<lambda>mpath.
     and_then (collect_res (map (tar_blob S) (digests_of rec))) (\<lambda>blobs.
       Inr ([(''oci-layout'', OCI_LAYOUT), (''index.json'', ac_index A digest (length manifest) (im_reference rec)),
             (mpath, manifest)] @ blobs)))))))"

definition MAX_ENTRIES :: nat where "MAX_ENTRIES = 8192"
definition MAX_META_BYTES :: nat where "MAX_META_BYTES = 8 * 1024 * 1024"

record load_state =
  ls_count :: nat
  ls_total :: nat
  ls_index :: "string option"
  ls_stored :: "string list"

fun load_entries :: "ienv \<Rightarrow> (string \<times> reader) list \<Rightarrow> load_state \<Rightarrow> istore \<Rightarrow> istore \<times> load_state cres" where
  "load_entries E [] L S = (S, Inr L)"
| "load_entries E ((path, rd) # es) L S =
     (let L = L\<lparr>ls_count := ls_count L + 1\<rparr> in
      if MAX_ENTRIES < ls_count L then (S, Inl (Other ''archive has too many entries''))
      else if path = ''index.json'' then
        (if snd rd \<and> length (fst rd) \<le> MAX_META_BYTES then (S, Inl (Other ''archive tar''))
         else if MAX_META_BYTES < length (fst rd) then (S, Inl (Other ''archive index.json is implausibly large''))
         else load_entries E es (L\<lparr>ls_index := Some (fst rd)\<rparr>) S)
      else (case strip_prefix path ''blobs/sha256/'' of
          None \<Rightarrow> load_entries E es L S
        | Some hex \<Rightarrow>
            let digest = ''sha256:'' @ hex in
            (case split_digest digest of
               Inl e \<Rightarrow> (S, Inl e)
             | Inr _ \<Rightarrow>
                 st_bind (save_blob_from_reader E digest rd (blob_cap (ls_total L)) S) (\<lambda>_ S.
                   let tot = min (ls_total L + blob_size digest S) (2 ^ 64 - 1) in
                   if MAX_TOTAL_BYTES < tot then (S, Inl (Other ''archive exceeds total size cap''))
                   else load_entries E es (L\<lparr>ls_total := tot, ls_stored := digest # ls_stored L\<rparr>) S))))"

definition missing_blob :: "string \<Rightarrow> cerr" where "missing_blob d = Other (''archive missing blob '' @ d)"

definition archive_load :: "ienv \<Rightarrow> acodec \<Rightarrow> (string \<times> reader) list \<Rightarrow> string \<Rightarrow> istore \<Rightarrow> istore \<times> image_record cres" where
  "archive_load E A es reference S =
     (case parse_ref reference of
        Inl e \<Rightarrow> (S, Inl e)
      | Inr r \<Rightarrow>
          st_bind (load_entries E es \<lparr>ls_count = 0, ls_total = 0, ls_index = None, ls_stored = []\<rparr> S) (\<lambda>L S.
            case ls_index L of
              None \<Rightarrow> (S, Inl (Other ''archive has no index.json''))
            | Some index \<Rightarrow> (case ac_read_index A index of
                None \<Rightarrow> (S, Inl JsonError)
              | Some None \<Rightarrow> (S, Inl (Other ''archive index has no manifest digest''))
              | Some (Some md) \<Rightarrow>
                  if md \<notin> set (ls_stored L) then (S, Inl (Other ''archive missing the manifest blob''))
                  else (case blob_of md S of
                      None \<Rightarrow> (S, Inl IoError)
                    | Some bs \<Rightarrow> (case ac_read_manifest A bs of
                        None \<Rightarrow> (S, Inl JsonError)
                      | Some (config, layers) \<Rightarrow>
                          if config \<notin> set (ls_stored L) then (S, Inl (missing_blob config))
                          else (case find (\<lambda>d. d \<notin> set (ls_stored L)) layers of
                              Some d \<Rightarrow> (S, Inl (missing_blob d))
                            | None \<Rightarrow>
                                let rec = \<lparr>im_reference = canonical r, im_config = config, im_layers = layers\<rparr> in
                                st_bind (write_record E (store_key r) rec S) (\<lambda>_ S. (S, Inr rec))))))))"

end
