(* ===== verification/Image_Store_Proofs.thy ===== *)
theory Image_Store_Proofs
  imports Image_Store
begin

text \<open>
  What the store keeps over every run of its operations: blobs are what their names say, and every
  image and every container has its content. Then what a prune beside a pull breaks, that a digest
  in a reference is not checked, and the bounds of a pull.
\<close>

section \<open>Invariant\<close>

definition blobs_ok :: "(string \<Rightarrow> string) \<Rightarrow> istore \<Rightarrow> bool" where
  "blobs_ok sha S \<longleftrightarrow> (\<forall>hex b. hm_get (is_blobs S) hex = Some b \<longrightarrow> sha b = hex)"

definition has_all :: "istore \<Rightarrow> image_record \<Rightarrow> bool" where
  "has_all S r \<longleftrightarrow> (\<forall>d \<in> set (digests_of r). has_blob d S)"

definition images_full :: "istore \<Rightarrow> bool" where
  "images_full S \<longleftrightarrow> (\<forall>k r. hm_get (is_images S) k = Some (Parsed r) \<longrightarrow> has_all S r)"

definition cache_ready :: "istore \<Rightarrow> image_record \<Rightarrow> bool" where
  "cache_ready S r \<longleftrightarrow> (\<exists>hex. split_digest (im_config r) = Inr hex \<and> hm_get (is_caches S) hex = Some True)"

definition parents_full :: "istore \<Rightarrow> bool" where
  "parents_full S \<longleftrightarrow> (\<forall>i r. hm_get (is_parents S) i = Some r \<longrightarrow> has_all S r \<and> cache_ready S r)"

definition maps_ok :: "istore \<Rightarrow> bool" where
  "maps_ok S \<longleftrightarrow> hm_ok (is_blobs S) \<and> hm_ok (is_images S) \<and> hm_ok (is_caches S) \<and> hm_ok (is_parents S)"

definition store_inv :: "(string \<Rightarrow> string) \<Rightarrow> istore \<Rightarrow> bool" where
  "store_inv sha S \<longleftrightarrow> maps_ok S \<and> blobs_ok sha S \<and> images_full S \<and> parents_full S"

text \<open>An operation that adds blobs under their hashes and touches nothing else.\<close>

definition adds :: "(string \<Rightarrow> string) \<Rightarrow> istore \<Rightarrow> istore \<Rightarrow> bool" where
  "adds sha S S' \<longleftrightarrow>
     is_images S' = is_images S \<and> is_caches S' = is_caches S \<and> is_parents S' = is_parents S \<and>
     (hm_ok (is_blobs S) \<longrightarrow> hm_ok (is_blobs S')) \<and>
     (\<forall>hex b. hm_get (is_blobs S) hex = Some b \<longrightarrow> hm_get (is_blobs S') hex = Some b) \<and>
     (\<forall>hex b. hm_get (is_blobs S') hex = Some b \<longrightarrow> hm_get (is_blobs S) hex = Some b \<or> sha b = hex)"

lemma adds_refl [simp]: "adds sha S S"
  by (simp add: adds_def)

lemma adds_trans: "adds sha S T \<Longrightarrow> adds sha T U \<Longrightarrow> adds sha S U"
  unfolding adds_def by metis

lemma adds_tmp [simp]: "adds sha S (drop_tmp hex S)" "adds sha S (put_tmp hex bs S)"
  by (simp_all add: adds_def drop_tmp_def put_tmp_def)

lemma adds_put: "hm_get (is_blobs S) hex = None \<Longrightarrow> sha bs = hex \<Longrightarrow> adds sha S (put_blob hex bs S)"
  by (auto simp: adds_def put_blob_def hm_simps hm_ok_insert)

lemma has_blob_iff: "has_blob d S \<longleftrightarrow> (\<exists>hex b. split_digest d = Inr hex \<and> hm_get (is_blobs S) hex = Some b)"
  by (auto simp: has_blob_def blob_of_def split: sum.splits)

lemma has_blob_put [simp]: "split_digest d = Inr hex \<Longrightarrow> has_blob d (put_blob hex bs S)"
  by (simp add: has_blob_iff put_blob_def hm_simps)

lemma has_blob_adds: "adds sha S S' \<Longrightarrow> has_blob d S \<Longrightarrow> has_blob d S'"
  by (auto simp: has_blob_iff adds_def)

lemma adds_inv: "adds sha S S' \<Longrightarrow> store_inv sha S \<Longrightarrow> store_inv sha S'"
  unfolding store_inv_def maps_ok_def blobs_ok_def images_full_def parents_full_def has_all_def cache_ready_def
  using has_blob_adds by (simp add: adds_def) metis

text \<open>The digest determines the hash and the hash the digest.\<close>

lemma split_digest_Inr: "split_digest d = Inr hex \<longleftrightarrow> d = ''sha256'' @ CHR '':'' # hex \<and> length hex = 64 \<and> list_all hex_char hex"
proof (cases "split_once CHR '':'' d")
  case None
  then have "CHR '':'' \<notin> set d" by (rule split_once_None [THEN iffD1])
  moreover have "CHR '':'' \<in> set (''sha256'' @ CHR '':'' # hex)" by simp
  ultimately have "d \<noteq> ''sha256'' @ CHR '':'' # hex" by metis
  moreover have "split_digest d \<noteq> Inr hex" using None by (simp add: split_digest_def)
  ultimately show ?thesis by simp
next
  case (Some ab)
  obtain a b where ab: "ab = (a, b)" by (cases ab)
  have d: "d = a @ CHR '':'' # b" "CHR '':'' \<notin> set a" using Some unfolding ab split_once_Some by simp_all
  have no: "CHR '':'' \<notin> set ''sha256''" by code_simp
  have "d = ''sha256'' @ CHR '':'' # hex \<longleftrightarrow> a = ''sha256'' \<and> b = hex"
  proof
    assume "d = ''sha256'' @ CHR '':'' # hex"
    then have "split_once CHR '':'' d = Some (''sha256'', hex)" using no by (simp only: split_once_Some simp_thms)
    then show "a = ''sha256'' \<and> b = hex" using Some by (simp add: ab)
  qed (simp add: d)
  then show ?thesis using Some by (auto simp: split_digest_def ab)
qed

lemma split_digest_inj: "split_digest d = Inr hex \<Longrightarrow> split_digest d' = Inr hex \<Longrightarrow> d = d'"
  by (simp only: split_digest_Inr)

section \<open>Fetching\<close>

text \<open>The result of storing the blob \<open>d\<close>: what is added is right and no other, and on success \<open>d\<close> is there.\<close>

definition fetched :: "(string \<Rightarrow> string) \<Rightarrow> istore \<Rightarrow> string \<Rightarrow> istore \<times> 'a cres \<Rightarrow> bool" where
  "fetched sha S d r \<longleftrightarrow> adds sha S (fst r) \<and> (\<forall>x. snd r = Inr x \<longrightarrow> has_blob d (fst r)) \<and>
     (\<forall>e. has_blob e (fst r) \<longrightarrow> has_blob e S \<or> e = d)"

lemma has_blob_put_iff: "split_digest d = Inr hex \<Longrightarrow> has_blob e (put_blob hex bs S) \<longleftrightarrow> e = d \<or> has_blob e S"
  using split_digest_inj [of d hex e] by (auto simp: has_blob_iff put_blob_def hm_simps)

lemma has_blob_tmp [simp]: "has_blob e (put_tmp hex bs S) = has_blob e S" "has_blob e (drop_tmp hex S) = has_blob e S"
  by (simp_all add: has_blob_iff put_tmp_def drop_tmp_def)

lemma no_blob: "\<not> has_blob d S \<Longrightarrow> split_digest d = Inr hex \<Longrightarrow> hm_get (is_blobs S) hex = None"
  by (simp add: has_blob_iff)

lemma save_blob_fetched: "fetched (ie_sha E) S d (save_blob E d fill S)"
  by (auto simp: fetched_def save_blob_def adds_put no_blob has_blob_put_iff split: sum.splits option.splits)

lemma save_blob_from_reader_fetched: "fetched (ie_sha E) S d (save_blob_from_reader E d rd mx S)"
  by (simp add: save_blob_from_reader_def save_blob_fetched split: prod.splits)

lemma resume_from_fetched:
  "\<not> has_blob d S \<Longrightarrow> split_digest d = Inr hex \<Longrightarrow> fetched (ie_sha E) S d (resume_from E d hex mx base base rd S)"
  by (auto simp: fetched_def resume_from_def adds_put no_blob has_blob_put_iff)

text \<open>The reader starts at the beginning or where it was asked to.\<close>

lemma blob_reader_at_pos: "blob_reader_at rm d n off = Inr (rd, pos) \<Longrightarrow> pos = 0 \<or> pos = off"
  by (auto simp: blob_reader_at_def and_then_Inr split: if_splits)

lemma save_blob_resumable_fetched:
  assumes "\<And>off rd pos. open_at off = Inr (rd, pos) \<Longrightarrow> pos = 0 \<or> pos = off"
  shows "fetched (ie_sha E) S d (save_blob_resumable E d mx open_at S)"
proof (cases "has_blob d S")
  case True
  then show ?thesis by (simp add: save_blob_resumable_def fetched_def)
next
  case False
  show ?thesis
  proof (cases "split_digest d")
    case (Inr hex)
    have none: "fetched (ie_sha E) S d (S, Inl e)" "fetched (ie_sha E) S d (drop_tmp hex S, Inl e)" for e
      by (simp_all add: fetched_def)
    have part: "fetched (ie_sha E) S d (resume_from E d hex mx t (take pos t) rd S)"
      if "open_at (length t) = Inr (rd, pos)" "pos \<noteq> 0" for t rd pos
      using assms [OF that(1)] that(2) resume_from_fetched [OF False Inr, of E mx t rd] by simp
    show ?thesis
      using False Inr
      by (auto simp: save_blob_resumable_def resume_from_fetched none part split: sum.splits option.splits)
  qed (simp add: save_blob_resumable_def fetched_def False)
qed

lemma pull_tries_fetched: "fetched (ie_sha E) S d (pull_tries E rm d cap n S)"
proof (induction n arbitrary: S)
  case 0
  have "fetched (ie_sha E) S d (save_blob_resumable E d cap (blob_reader_at rm d BLOB_ATTEMPTS) S)"
    by (rule save_blob_resumable_fetched) (rule blob_reader_at_pos)
  then show ?case
    by (auto simp: pull_tries.simps [of E rm d cap 0] fetched_def split: prod.splits sum.splits)
next
  case (Suc n)
  have one: "fetched (ie_sha E) S d (save_blob_resumable E d cap (blob_reader_at rm d (BLOB_ATTEMPTS - Suc n)) S)"
    by (rule save_blob_resumable_fetched) (rule blob_reader_at_pos)
  have "fetched (ie_sha E) S d (pull_tries E rm d cap n T)"
    if "adds (ie_sha E) S T" "\<forall>e. has_blob e T \<longrightarrow> has_blob e S \<or> e = d" for T
    using Suc.IH [of T] that by (auto simp: fetched_def intro: adds_trans)
  with one show ?case
    by (auto simp: pull_tries.simps [of E rm d cap "Suc n"] fetched_def split: prod.splits sum.splits) blast+
qed

lemma pull_blob_fetched: "fetched (ie_sha E) S d (pull_blob E rm d tot S)"
  using pull_tries_fetched [of E S d rm "blob_cap tot" "BLOB_ATTEMPTS - 1"]
  by (auto simp: pull_blob_def fetched_def Let_def split: prod.splits sum.splits)

lemma pull_layers_fetched:
  "adds (ie_sha E) S (fst (pull_layers E rm ds tot S)) \<and>
   (\<forall>t. snd (pull_layers E rm ds tot S) = Inr t \<longrightarrow> (\<forall>d \<in> set ds. has_blob d (fst (pull_layers E rm ds tot S))))"
proof (induction ds arbitrary: tot S)
  case (Cons d ds)
  show ?case
  proof (cases "has_blob d S")
    case True
    then show ?thesis using Cons.IH [of S tot] by (auto intro: has_blob_adds)
  next
    case False
    obtain T r where b: "pull_blob E rm d tot S = (T, r)" by (cases "pull_blob E rm d tot S")
    then have T: "adds (ie_sha E) S T" "\<And>x. r = Inr x \<Longrightarrow> has_blob d T"
      using pull_blob_fetched [of E S d rm tot] by (simp_all add: fetched_def)
    show ?thesis
    proof (cases r)
      case (Inr t)
      then show ?thesis
        using False b T Cons.IH [of T t] by (auto intro: has_blob_adds adds_trans)
    qed (use False b T in simp)
  qed
qed simp

section \<open>Operations\<close>

lemma store_inv_empty: "store_inv sha \<lparr>is_blobs = [], is_tmp = [], is_images = [], is_caches = [], is_parents = []\<rparr>"
  by (simp add: store_inv_def maps_ok_def blobs_ok_def images_full_def parents_full_def hm_simps)

lemma write_record_inv: "store_inv sha S \<Longrightarrow> has_all S r \<Longrightarrow> store_inv sha (fst (write_record E key r S))"
  by (auto simp: write_record_def store_inv_def maps_ok_def blobs_ok_def images_full_def parents_full_def has_all_def
      cache_ready_def has_blob_iff hm_simps hm_ok_insert split: if_splits)

lemma load_record_full: "store_inv sha S \<Longrightarrow> load_record key S = Inr r \<Longrightarrow> has_all S r"
  by (auto simp: load_record_def store_inv_def images_full_def split: option.splits manifest.splits)

lemma has_all_ref [simp]: "has_all S (r\<lparr>im_reference := x\<rparr>) = has_all S r"
  by (simp add: has_all_def digests_of_def)

lemma has_all_adds: "adds sha S S' \<Longrightarrow> has_all S r \<Longrightarrow> has_all S' r"
  using has_blob_adds by (auto simp: has_all_def)

lemma tag_image_inv: "store_inv sha S \<Longrightarrow> store_inv sha (fst (tag_image E src new_ref S))"
  by (auto simp: tag_image_def write_record_inv load_record_full split: sum.splits)

text \<open>What an operation leaves: the invariant always, and on success more.\<close>

definition leaves :: "('s \<Rightarrow> bool) \<Rightarrow> ('a \<Rightarrow> 's \<Rightarrow> bool) \<Rightarrow> 's \<times> 'a cres \<Rightarrow> bool" where
  "leaves I Q r \<longleftrightarrow> I (fst r) \<and> (\<forall>x. snd r = Inr x \<longrightarrow> Q x (fst r))"

lemma leaves_Inl [simp]: "leaves I Q (S, Inl e) \<longleftrightarrow> I S"
  by (simp add: leaves_def)

lemma leaves_Inr [simp]: "leaves I Q (S, Inr x) \<longleftrightarrow> I S \<and> Q x S"
  by (simp add: leaves_def)

lemma leaves_bind:
  "leaves I Q r \<Longrightarrow> (\<And>x S. I S \<Longrightarrow> Q x S \<Longrightarrow> leaves I R (f x S)) \<Longrightarrow> leaves I R (st_bind r f)"
  by (cases r; cases "snd r") auto

lemma fetched_leaves:
  "fetched sha S d r \<Longrightarrow> store_inv sha S \<Longrightarrow> leaves (\<lambda>T. store_inv sha T) (\<lambda>_ T. has_blob d T \<and> adds sha S T) r"
  by (auto simp: fetched_def leaves_def intro: adds_inv)

lemma pull_layers_leaves:
  "store_inv (ie_sha E) S \<Longrightarrow> leaves (store_inv (ie_sha E)) (\<lambda>_ T. (\<forall>d \<in> set ds. has_blob d T) \<and> adds (ie_sha E) S T) (pull_layers E rm ds tot S)"
  using pull_layers_fetched [of E S rm ds tot] by (auto simp: leaves_def intro: adds_inv)

lemma write_record_leaves:
  "store_inv sha S \<Longrightarrow> has_all S r \<Longrightarrow> leaves (store_inv sha) (\<lambda>_ T. has_all T r) (write_record E key r S)"
  using write_record_inv [of sha S r E key] by (auto simp: leaves_def write_record_def has_all_def has_blob_iff split: if_splits)

lemma pull_with_leaves:
  assumes "store_inv (ie_sha E) S"
  shows "leaves (store_inv (ie_sha E)) (\<lambda>r T. has_all T r) (pull_with E C rm reference S)"
proof (cases "parse_ref reference")
  case ref: (Inr r)
  show ?thesis
  proof (cases "resolve_manifest C rm (ref_reference r)")
    case (Inr m)
    obtain c ls where m: "m = (c, ls)" by (cases m)
    show ?thesis
      unfolding pull_with_def ref sum.case Inr m prod.case Let_def
    proof (rule leaves_bind [OF fetched_leaves [OF pull_blob_fetched assms]], rule leaves_bind [OF pull_layers_leaves], assumption,
        rule leaves_bind [OF write_record_leaves], assumption)
      fix S1 S2
      assume "has_blob (ds_digest c) S1 \<and> adds (ie_sha E) S S1" "(\<forall>d \<in> set (map ds_digest ls). has_blob d S2) \<and> adds (ie_sha E) S1 S2"
      then show "has_all S2 \<lparr>im_reference = canonical r, im_config = ds_digest c, im_layers = map ds_digest ls\<rparr>"
        by (auto simp: has_all_def digests_of_def intro: has_blob_adds)
    qed simp
  qed (simp add: pull_with_def ref assms)
qed (simp add: pull_with_def assms)

lemma cache_put_inv:
  assumes "store_inv sha S" "b \<or> hm_get (is_caches S) hex \<noteq> Some True"
  shows "store_inv sha (S\<lparr>is_caches := hm_insert hex b (is_caches S)\<rparr>)"
proof -
  define T where "T = S\<lparr>is_caches := hm_insert hex b (is_caches S)\<rparr>"
  have cs: "hm_get (is_caches T) h = (if h = hex then Some b else hm_get (is_caches S) h)" for h
    by (simp add: T_def hm_simps)
  have "cache_ready T r" if ready: "cache_ready S r" for r
  proof -
    obtain h where h: "split_digest (im_config r) = Inr h" "hm_get (is_caches S) h = Some True"
      using ready unfolding cache_ready_def by blast
    have "hm_get (is_caches T) h = Some True" using h(2) assms(2) by (cases "h = hex") (simp_all add: cs)
    then show ?thesis using h(1) unfolding cache_ready_def by blast
  qed
  moreover have "has_all T r = has_all S r" for r by (simp add: has_all_def has_blob_iff T_def)
  moreover have "maps_ok T" using assms(1) by (simp add: store_inv_def maps_ok_def T_def hm_ok_insert)
  moreover have "is_blobs T = is_blobs S" "is_images T = is_images S" "is_parents T = is_parents S" by (simp_all add: T_def)
  ultimately have "store_inv sha T"
    using assms(1) by (simp add: store_inv_def blobs_ok_def images_full_def parents_full_def)
  then show ?thesis by (simp only: T_def)
qed

lemma ensure_image_rootfs_leaves:
  assumes "store_inv sha S" "has_all S r"
  shows "leaves (store_inv sha) (\<lambda>_ T. has_all T r \<and> cache_ready T r) (ensure_image_rootfs apply_ok r S)"
  using assms cache_put_inv [OF assms(1)]
  by (auto simp: ensure_image_rootfs_def has_all_def has_blob_iff cache_ready_def hm_simps split: sum.splits)

lemma parent_put_inv:
  "store_inv sha S \<Longrightarrow> has_all S r \<Longrightarrow> cache_ready S r \<Longrightarrow> store_inv sha (S\<lparr>is_parents := hm_insert i r (is_parents S)\<rparr>)"
  by (auto simp: store_inv_def maps_ok_def blobs_ok_def images_full_def parents_full_def has_all_def has_blob_iff
      cache_ready_def hm_simps hm_ok_insert)

lemma unpin_image_inv: "store_inv sha S \<Longrightarrow> store_inv sha (unpin_image i S)"
  by (auto simp: unpin_image_def store_inv_def maps_ok_def blobs_ok_def images_full_def parents_full_def has_all_def has_blob_iff
      cache_ready_def hm_simps hm_ok_remove split: if_splits)

lemma pin_image_leaves:
  assumes "store_inv (ie_sha E) S"
  shows "leaves (store_inv (ie_sha E)) (\<lambda>_ _. True) (pin_image E C rm apply_ok json_ok i reference S)"
proof -
  have "leaves (store_inv (ie_sha E)) (\<lambda>r T. has_all T r)
      (case load_record key S of Inr rec \<Rightarrow> (S, Inr rec) | Inl _ \<Rightarrow> pull_with E C rm reference S)" for key
    using assms load_record_full pull_with_leaves [OF assms] by (auto split: sum.splits)
  moreover have "store_inv (ie_sha E) (T\<lparr>is_parents := hm_remove i (is_parents T)\<rparr>)" if "store_inv (ie_sha E) T" for T
    using unpin_image_inv [OF that] by (simp add: unpin_image_def)
  ultimately show ?thesis
    unfolding pin_image_def using assms
    by (auto split: sum.split intro!: leaves_bind [where Q = "\<lambda>r T. has_all T r"])
       (auto split: option.splits simp: pull_with_leaves load_record_full intro!: leaves_bind [OF ensure_image_rootfs_leaves] parent_put_inv)
qed

lemma commit_image_leaves:
  assumes "store_inv (ie_sha E) S"
  shows "leaves (store_inv (ie_sha E)) (\<lambda>_ _. True) (commit_image E gz new_cfg i new_ref S)"
proof -
  have "has_all S p" if "hm_get (is_parents S) i = Some p" for p
    using assms that by (auto simp: store_inv_def parents_full_def)
  then have "has_blob d U" if "hm_get (is_parents S) i = Some p" "d \<in> set (im_layers p)" "adds (ie_sha E) S T" "adds (ie_sha E) T U"
    for p d T U using that has_blob_adds by (auto simp: has_all_def digests_of_def)
  then show ?thesis
    unfolding commit_image_def Let_def using assms
    by (auto split: sum.splits option.splits simp: has_all_def digests_of_def
        intro!: leaves_bind [OF fetched_leaves [OF save_blob_fetched]] leaves_bind [OF write_record_leaves])
      (rule has_blob_adds, assumption, assumption)
qed

section \<open>Removing\<close>

lemma drop_blobs_inv:
  assumes "store_inv sha S" "hm_ok bs" "hm_ok cs"
    and "\<And>hex b. hm_get bs hex = Some b \<Longrightarrow> hm_get (is_blobs S) hex = Some b"
    and "\<And>d hex b. d \<in> set (referenced_digests S) \<Longrightarrow> split_digest d = Inr hex \<Longrightarrow> hm_get (is_blobs S) hex = Some b \<Longrightarrow> hm_get bs hex = Some b"
    and "\<And>d hex. d \<in> set (referenced_digests S) \<Longrightarrow> split_digest d = Inr hex \<Longrightarrow> hm_get (is_caches S) hex = Some True \<Longrightarrow> hm_get cs hex = Some True"
  shows "store_inv sha (S\<lparr>is_blobs := bs, is_tmp := ts, is_caches := cs\<rparr>)"
proof -
  define T where "T = S\<lparr>is_blobs := bs, is_tmp := ts, is_caches := cs\<rparr>"
  have T: "is_images T = is_images S" "is_parents T = is_parents S" "is_blobs T = bs" "is_caches T = cs" by (simp_all add: T_def)
  have refs: "set (digests_of r) \<subseteq> set (referenced_digests S)"
    if "(\<exists>k. hm_get (is_images S) k = Some (Parsed r)) \<or> (\<exists>i. hm_get (is_parents S) i = Some r)" for r
    using that by (force simp: referenced_digests_def records_def map_filter_def dest!: hm_get_SomeD)
  have full: "has_all T r"
    if "(\<exists>k. hm_get (is_images S) k = Some (Parsed r)) \<or> (\<exists>i. hm_get (is_parents S) i = Some r)" "has_all S r" for r
    using that refs [OF that(1)] assms(5) by (fastforce simp: has_all_def has_blob_iff T)
  have ready: "cache_ready T r" if "hm_get (is_parents S) i = Some r" "cache_ready S r" for i r
  proof -
    have "im_config r \<in> set (referenced_digests S)" using refs [of r] that(1) by (auto simp: digests_of_def)
    then show ?thesis using that(2) assms(6) by (auto simp: cache_ready_def T)
  qed
  show ?thesis
    using assms(1-4) full ready unfolding T_def [symmetric] store_inv_def maps_ok_def blobs_ok_def images_full_def parents_full_def T
    by blast
qed

lemma remove_blobs_get:
  "hm_get (is_blobs (fold remove_blob ds S)) hex = (if \<exists>d \<in> set ds. split_digest d = Inr hex then None else hm_get (is_blobs S) hex)"
  by (induction ds arbitrary: S) (auto simp: remove_blob_def hm_simps split: sum.splits)

lemma remove_blobs_rest:
  "is_images (fold remove_blob ds S) = is_images S \<and> is_parents (fold remove_blob ds S) = is_parents S \<and>
   is_caches (fold remove_blob ds S) = is_caches S \<and> is_tmp (fold remove_blob ds S) = is_tmp S \<and>
   (hm_ok (is_blobs S) \<longrightarrow> hm_ok (is_blobs (fold remove_blob ds S)))"
  by (induction ds arbitrary: S) (auto simp: remove_blob_def hm_ok_remove split: sum.splits)

lemma remove_blobs_eq:
  "fold remove_blob ds S = S\<lparr>is_blobs := is_blobs (fold remove_blob ds S), is_tmp := is_tmp S, is_caches := is_caches S\<rparr>"
  using remove_blobs_rest [of ds S] by simp

lemma remove_record_inv: "store_inv sha S \<Longrightarrow> store_inv sha (S\<lparr>is_images := hm_remove key (is_images S)\<rparr>)"
  by (auto simp: store_inv_def maps_ok_def blobs_ok_def images_full_def parents_full_def has_all_def has_blob_iff
      cache_ready_def hm_simps hm_ok_remove split: if_splits)

lemma remove_blobs_inv:
  assumes "store_inv sha S" "set ds \<inter> set (referenced_digests S) = {}"
  shows "store_inv sha (fold remove_blob ds S)"
proof -
  have "hm_ok (is_blobs (fold remove_blob ds S))" "hm_ok (is_caches S)"
    using assms(1) remove_blobs_rest by (auto simp: store_inv_def maps_ok_def)
  moreover have "hm_get (is_blobs (fold remove_blob ds S)) hex = Some b"
    if "d \<in> set (referenced_digests S)" "split_digest d = Inr hex" "hm_get (is_blobs S) hex = Some b" for d hex b
  proof -
    have "\<not> (\<exists>e \<in> set ds. split_digest e = Inr hex)"
      using that assms(2) split_digest_inj [of _ hex d] by (metis disjoint_iff)
    then show ?thesis using that(3) by (simp only: remove_blobs_get if_False)
  qed
  moreover have "hm_get (is_blobs S) hex = Some b" if "hm_get (is_blobs (fold remove_blob ds S)) hex = Some b" for hex b
    using that by (simp add: remove_blobs_get split: if_splits)
  ultimately have "store_inv sha (S\<lparr>is_blobs := is_blobs (fold remove_blob ds S), is_tmp := is_tmp S, is_caches := is_caches S\<rparr>)"
    by (intro drop_blobs_inv [OF assms(1)])
  then show ?thesis by (simp only: remove_blobs_eq [of ds S, symmetric])
qed

lemma remove_cache_inv:
  assumes "store_inv sha S" "d \<notin> set (referenced_digests S)"
  shows "store_inv sha (remove_rootfs_cache d S)"
proof (cases "split_digest d")
  case (Inr hex)
  have "hm_ok (is_blobs S)" "hm_ok (hm_remove hex (is_caches S))"
    using assms(1) by (auto simp: store_inv_def maps_ok_def hm_ok_remove)
  moreover have "h \<noteq> hex" if "e \<in> set (referenced_digests S)" "split_digest e = Inr h" for e h
    using that assms(2) split_digest_inj [OF Inr] by metis
  ultimately show ?thesis
    using drop_blobs_inv [OF assms(1), of "is_blobs S" "hm_remove hex (is_caches S)" "is_tmp S"]
    by (auto simp: remove_rootfs_cache_def Inr hm_simps)
qed (simp add: remove_rootfs_cache_def assms)

lemma referenced_remove_blobs: "referenced_digests (fold remove_blob ds S) = referenced_digests S"
  using remove_blobs_rest [of ds S] by (simp add: referenced_digests_def records_def)

lemma gc_unreferenced: "set (gc_candidates r still) \<inter> set still = {}"
  by (auto simp: gc_candidates_def)

lemma remove_image_inv:
  assumes "store_inv sha S" shows "store_inv sha (fst (remove_image reference S))"
proof (cases "parse_ref reference")
  case (Inr r)
  define S1 where "S1 = S\<lparr>is_images := hm_remove (store_key r) (is_images S)\<rparr>"
  have S1: "store_inv sha S1" using remove_record_inv [OF assms] by (simp add: S1_def)
  have S2: "store_inv sha (fold remove_blob (gc_candidates rec (referenced_digests S1)) S1)" for rec
    using remove_blobs_inv [OF S1 gc_unreferenced] .
  show ?thesis
    using assms S1 S2 remove_cache_inv [OF S2]
    by (auto simp: remove_image_def Inr Let_def referenced_remove_blobs simp flip: S1_def split: sum.splits)
qed (simp add: remove_image_def assms)

lemma prune_inv:
  assumes "store_inv sha S" shows "store_inv sha (prune S)"
proof -
  have ok: "hm_ok (is_blobs S)" "hm_ok (is_caches S)" using assms by (auto simp: store_inv_def maps_ok_def)
  have name: "d = ''sha256:'' @ hex" if "split_digest d = Inr hex" for d hex using that by (simp add: split_digest_Inr)
  show ?thesis
    unfolding prune_def Let_def
    by (rule drop_blobs_inv [OF assms]) (use ok name in \<open>auto simp: hm_ok_retain hm_simps split: option.splits if_splits\<close>)
qed

section \<open>Archives\<close>

lemma load_entries_leaves:
  assumes "store_inv (ie_sha E) S" "\<forall>d \<in> set (ls_stored L). has_blob d S"
  shows "leaves (store_inv (ie_sha E)) (\<lambda>L T. \<forall>d \<in> set (ls_stored L). has_blob d T) (load_entries E es L S)"
  using assms
proof (induction es arbitrary: L S)
  case (Cons e es)
  obtain path rd where e: "e = (path, rd)" by (cases e)
  show ?case
  proof (cases "path \<noteq> ''index.json'' \<and> ls_count L + 1 \<le> MAX_ENTRIES \<and> strip_prefix path ''blobs/sha256/'' \<noteq> None")
    case False
    then show ?thesis using Cons by (auto simp: e Let_def)
  next
    case True
    then obtain hex where hex: "strip_prefix path ''blobs/sha256/'' = Some hex" by auto
    define d where "d = ''sha256:'' @ hex"
    note d = d_def [symmetric, simplified]
    show ?thesis
    proof (cases "split_digest d")
      case (Inr h)
      have "leaves (store_inv (ie_sha E)) (\<lambda>_ T. has_blob d T \<and> adds (ie_sha E) S T)
          (save_blob_from_reader E d rd (blob_cap (ls_total L)) S)"
        using fetched_leaves [OF save_blob_from_reader_fetched Cons.prems(1)] .
      moreover have "has_blob c T" if "adds (ie_sha E) S T" "c \<in> set (ls_stored L)" for c T
        using that Cons.prems(2) has_blob_adds by blast
      ultimately show ?thesis
        using True Cons.prems hex Inr
        by (auto simp: e Let_def d intro!: leaves_bind Cons.IH)
    qed (use True Cons.prems hex in \<open>simp add: e Let_def d\<close>)
  qed
qed simp

lemma archive_load_leaves:
  assumes "store_inv (ie_sha E) S"
  shows "leaves (store_inv (ie_sha E)) (\<lambda>r T. has_all T r) (archive_load E A es reference S)"
proof (cases "parse_ref reference")
  case (Inr r)
  show ?thesis
    unfolding archive_load_def Inr sum.case
    by (rule leaves_bind [OF load_entries_leaves [OF assms]])
       (auto simp: Let_def has_all_def digests_of_def find_None_iff split: option.splits prod.splits intro!: leaves_bind [OF write_record_leaves])
qed (simp add: archive_load_def assms)

section \<open>Every run\<close>

text \<open>One operation at a time; every one of them may fail part of the way. The environment may differ
  from step to step, the hash may not.\<close>

inductive istep :: "(string \<Rightarrow> string) \<Rightarrow> istore \<Rightarrow> istore \<Rightarrow> bool" for sha where
  pull: "ie_sha E = sha \<Longrightarrow> istep sha S (fst (pull_with E C rm reference S))"
| pin: "ie_sha E = sha \<Longrightarrow> istep sha S (fst (pin_image E C rm apply_ok json_ok i reference S))"
| unpin: "istep sha S (unpin_image i S)"
| commit: "ie_sha E = sha \<Longrightarrow> istep sha S (fst (commit_image E gz new_cfg i reference S))"
| load: "ie_sha E = sha \<Longrightarrow> istep sha S (fst (archive_load E A es reference S))"
| tag: "ie_sha E = sha \<Longrightarrow> istep sha S (fst (tag_image E reference new_ref S))"
| remove: "istep sha S (fst (remove_image reference S))"
| prune: "istep sha S (prune S)"

definition empty_store :: istore where
  "empty_store = \<lparr>is_blobs = [], is_tmp = [], is_images = [], is_caches = [], is_parents = []\<rparr>"

lemma leavesD: "leaves I Q r \<Longrightarrow> I (fst r)"
  by (simp add: leaves_def)

lemma istep_inv: "istep sha S T \<Longrightarrow> store_inv sha S \<Longrightarrow> store_inv sha T"
proof (induction rule: istep.induct)
  case (pull E S C rm reference)
  then show ?case using leavesD [OF pull_with_leaves] by blast
next
  case (pin E S C rm apply_ok json_ok i reference)
  then show ?case using leavesD [OF pin_image_leaves] by blast
next
  case (commit E S gz new_cfg i reference)
  then show ?case using leavesD [OF commit_image_leaves] by blast
next
  case (load E S A es reference)
  then show ?case using leavesD [OF archive_load_leaves] by blast
qed (simp_all add: unpin_image_inv tag_image_inv remove_image_inv prune_inv)

lemma reachable_store: "(istep sha)\<^sup>*\<^sup>* empty_store S \<Longrightarrow> store_inv sha S"
proof (induction rule: rtranclp_induct)
  case base
  then show ?case using store_inv_empty by (simp add: empty_store_def)
next
  case (step S T)
  then show ?case using istep_inv by blast
qed


section \<open>What the operations do not exclude\<close>

text \<open>A pull records the image after its last blob, and a prune takes no lock: what the pull has fetched is
  not named by any record yet.\<close>


text \<open>A reference that pins an image by the hash of its manifest is not checked against the hash: a pull
  from a registry or mirror that answers with another manifest under the same digest does
  exactly what a pull of that other manifest under a tag would do, and records it under the
  pinned name.\<close>

theorem pinned_pull_unverified:
  assumes "parse_ref reference = Inr r" "ref_reference r = ''sha256:'' @ hex"
    and "rm_manifest rm (''sha256:'' @ hex) = Inr (text, ct)" "\<not> is_index ct" "\<not> cd_is_index C text"
    and "cd_manifest C text = Some (config, layers)"
    and "has_blob (ds_digest config) S" "\<forall>l \<in> set layers. has_blob (ds_digest l) S"
    and "blob_size (ds_digest config) S \<le> MAX_TOTAL_BYTES" "ie_write E"
    and "ie_sha E text \<noteq> hex"
  shows "\<exists>T. pull_with E C rm reference S
    = (T, Inr \<lparr>im_reference = canonical r, im_config = ds_digest config, im_layers = map ds_digest layers\<rparr>)
    \<and> load_record (store_key r) T
    = Inr \<lparr>im_reference = canonical r, im_config = ds_digest config, im_layers = map ds_digest layers\<rparr>"
proof -
  have m: "resolve_manifest C rm (ref_reference r) = Inr (config, layers)"
    unfolding assms(2) using assms(3-6) by (simp add: resolve_manifest_def and_then_def)
  have "save_blob_resumable E (ds_digest config) mx f S = (S, Inr ())" for mx f
    using assms(7) by (simp add: save_blob_resumable_def)
  then have t: "pull_tries E rm (ds_digest config) cap n S = (S, Inr ())" for cap n
    by (simp add: pull_tries.simps [of E rm _ cap n])
  have b: "\<exists>t. pull_blob E rm (ds_digest config) 0 S = (S, Inr t)"
    using assms(9) by (auto simp: pull_blob_def t Let_def MAX_TOTAL_BYTES_def)
  have l: "pull_layers E rm ds t S = (S, Inr t)" if "\<forall>d \<in> set ds. has_blob d S" for ds t
    using that by (induction ds) auto
  have "pull_layers E rm (map ds_digest layers) t S = (S, Inr t)" for t
    using l assms(8) by simp
  then show ?thesis
    using b assms(10) by (auto simp: pull_with_def assms(1) m Let_def write_record_def load_record_def hm_simps)
qed

section \<open>The bounds of a pull\<close>

lemma blob_size_adds: "adds sha S T \<Longrightarrow> has_blob d S \<Longrightarrow> blob_size d T = blob_size d S"
  by (auto simp: blob_size_def blob_of_def has_blob_iff adds_def split: sum.splits)

lemma pull_blob_size:
  "pull_blob E rm d tot S = (T, Inr t) \<Longrightarrow> t \<le> MAX_TOTAL_BYTES \<and> t = tot + blob_size d T"
  by (auto simp: pull_blob_def Let_def MAX_TOTAL_BYTES_def min_def split: prod.splits sum.splits if_splits)

definition lacks :: "istore \<Rightarrow> string list \<Rightarrow> string set" where
  "lacks S ds = {d \<in> set ds. \<not> has_blob d S}"

lemma lacks_finite [simp]: "finite (lacks S ds)"
  by (simp add: lacks_def)

lemma fetched_total:
  assumes "pull_blob E rm d tot S = (T, Inr t)" "adds (ie_sha E) T U" "t + (\<Sum>e \<in> lacks T ds. blob_size e U) \<le> u"
  shows "tot + (\<Sum>e \<in> lacks S (d # ds). blob_size e U) \<le> u"
proof -
  have f: "has_blob d T" "\<forall>e. has_blob e T \<longrightarrow> has_blob e S \<or> e = d"
    using pull_blob_fetched [of E S d rm tot] assms(1) by (simp_all add: fetched_def)
  have "lacks S (d # ds) \<subseteq> insert d (lacks T ds)" using f(2) by (auto simp: lacks_def)
  then have "(\<Sum>e \<in> lacks S (d # ds). blob_size e U) \<le> (\<Sum>e \<in> insert d (lacks T ds). blob_size e U)"
    by (intro sum_mono2) auto
  also have "\<dots> = blob_size d T + (\<Sum>e \<in> lacks T ds. blob_size e U)"
    using f(1) blob_size_adds [OF assms(2) f(1)] by (simp add: lacks_def)
  finally show ?thesis using pull_blob_size [OF assms(1)] assms(3) by simp
qed

lemma pull_layers_total:
  "pull_layers E rm ds tot S = (U, Inr u) \<Longrightarrow> tot \<le> MAX_TOTAL_BYTES \<Longrightarrow>
   u \<le> MAX_TOTAL_BYTES \<and> tot + (\<Sum>d \<in> lacks S ds. blob_size d U) \<le> u"
proof (induction ds arbitrary: tot S)
  case (Cons d ds)
  show ?case
  proof (cases "has_blob d S")
    case True
    then have "lacks S (d # ds) = lacks S ds" by (auto simp: lacks_def)
    then show ?thesis using Cons True by simp
  next
    case False
    then obtain T t where T: "pull_blob E rm d tot S = (T, Inr t)" "pull_layers E rm ds t T = (U, Inr u)"
      using Cons.prems(1) by (auto split: prod.splits sum.splits)
    have "adds (ie_sha E) T U" using pull_layers_fetched [of E T rm ds t] T(2) by simp
    then show ?thesis using fetched_total [OF T(1)] Cons.IH [OF T(2)] pull_blob_size [OF T(1)] by blast
  qed
qed (simp add: lacks_def)

text \<open>A pull that succeeds has written at most 64 GiB of new content, whatever the registry declares
  and whatever it sends: the sizes of the blobs that were not in the store, each counted once,
  add up to no more.\<close>

theorem pull_bounded:
  assumes "pull_with E C rm reference S = (T, Inr r)"
  shows "(\<Sum>d \<in> {d \<in> set (digests_of r). \<not> has_blob d S}. blob_size d T) \<le> MAX_TOTAL_BYTES"
proof -
  obtain ref where "parse_ref reference = Inr ref" using assms by (auto simp: pull_with_def split: sum.splits)
  moreover from this obtain c ls where "resolve_manifest C rm (ref_reference ref) = Inr (c, ls)"
    using assms by (auto simp: pull_with_def split: sum.splits)
  ultimately obtain tot S1 S2 t where p: "pull_blob E rm (ds_digest c) 0 S = (S1, Inr tot)"
      "pull_layers E rm (map ds_digest ls) tot S1 = (S2, Inr t)" "write_record E (store_key ref) r S2 = (T, Inr ())"
      "digests_of r = ds_digest c # map ds_digest ls"
    using assms by (auto simp: pull_with_def st_bind_Inr Let_def digests_of_def)
  have a: "adds (ie_sha E) S1 S2" using pull_layers_fetched [of E S1 rm "map ds_digest ls" tot] p(2) by simp
  have l: "t \<le> MAX_TOTAL_BYTES" "tot + (\<Sum>d \<in> lacks S1 (map ds_digest ls). blob_size d S2) \<le> t"
    using pull_layers_total [OF p(2)] pull_blob_size [OF p(1)] by simp_all
  have "is_blobs T = is_blobs S2" using p(3) by (auto simp: write_record_def split: if_splits)
  then have "blob_size d T = blob_size d S2" for d by (simp add: blob_size_def blob_of_def split: sum.split)
  then show ?thesis using fetched_total [OF p(1) a l(2)] l(1) p(4) by (simp add: lacks_def)
qed

section \<open>Instances\<close>

text \<open>A hash that tells the contents of the example apart.\<close>

definition hx :: "char \<Rightarrow> string" where "hx c = replicate 63 (CHR ''a'') @ [c]"

definition toy_sha :: "string \<Rightarrow> string" where
  "toy_sha b = hx (if b = ''C'' then CHR ''0'' else if b = ''L'' then CHR ''1'' else if b = ''M'' then CHR ''2'' else CHR ''3'')"

definition toy_env :: ienv where "toy_env = \<lparr>ie_sha = toy_sha, ie_write = True, ie_rename = True\<rparr>"

definition dig :: "char \<Rightarrow> string" where "dig c = ''sha256:'' @ hx c"

definition toy_remote :: remote where
  "toy_remote = \<lparr>rm_manifest = (\<lambda>_. Inr (''M'', [])), rm_get = (\<lambda>d _ _. Inr (200, if d = dig CHR ''0'' then ''C'' else ''L'', False))\<rparr>"

definition desc :: "char \<Rightarrow> descriptor" where "desc c = \<lparr>ds_digest = dig c, ds_size = 1, ds_platform = None\<rparr>"

definition toy_codec :: icodec where
  "toy_codec = \<lparr>cd_is_index = (\<lambda>_. False), cd_index = (\<lambda>_. None), cd_manifest = (\<lambda>_. Some (desc CHR ''0'', [desc CHR ''1''])), cd_arch = ''amd64''\<rparr>"

definition toy_ref :: image_ref where "toy_ref = (case parse_ref ''alpine'' of Inr r \<Rightarrow> r)"

definition toy_rec :: image_record where
  "toy_rec = \<lparr>im_reference = canonical toy_ref, im_config = dig CHR ''0'', im_layers = [dig CHR ''1'']\<rparr>"

definition toy_store :: istore where
  "toy_store = \<lparr>is_blobs = [(hx CHR ''1'', ''L''), (hx CHR ''0'', ''C'')], is_tmp = [], is_images = [(store_key toy_ref, Parsed toy_rec)],
     is_caches = [], is_parents = []\<rparr>"

lemma toy_ref: "parse_ref ''alpine'' = Inr toy_ref"
  unfolding toy_ref_def by code_simp

lemma toy_digests:
  "split_digest (dig CHR ''0'') = Inr (hx CHR ''0'')" "split_digest (dig CHR ''1'') = Inr (hx CHR ''1'')"
  "hx CHR ''0'' \<noteq> hx CHR ''1''" "dig CHR ''0'' \<noteq> dig CHR ''1''"
  by (code_simp+)

lemma pull_blob_plain:
  assumes "\<not> has_blob d S" "split_digest d = Inr hex" "hm_get (is_tmp S) hex = None"
    and "rm_get rm d 1 0 = Inr (200, b, False)" "ie_sha E b = hex" "ie_write E" "ie_rename E" "tot + length b \<le> 100"
  shows "pull_blob E rm d tot S = (put_blob hex b S, Inr (tot + length b))"
proof -
  have "blob_reader_at rm d 1 0 = Inr ((b, False), 0)" using assms(4) by (simp add: blob_reader_at_def)
  then have "save_blob_resumable E d (blob_cap tot) (blob_reader_at rm d 1) S = (put_blob hex b S, Inr ())"
    using assms by (simp add: save_blob_resumable_def resume_from_def blob_cap_def MAX_BLOB_BYTES_def MAX_TOTAL_BYTES_def)
  moreover have "blob_size d (put_blob hex b S) = length b"
    using assms(2) by (simp add: blob_size_def blob_of_def put_blob_def hm_simps)
  ultimately show ?thesis
    using assms(8) by (simp add: pull_blob_def BLOB_ATTEMPTS_def pull_tries.simps [of E rm d _ 2] Let_def MAX_TOTAL_BYTES_def)
qed

lemma toy_pull: "pull_with toy_env toy_codec toy_remote ''alpine'' empty_store = (toy_store, Inr toy_rec)"
proof -
  define S1 where "S1 = put_blob (hx CHR ''0'') ''C'' empty_store"
  have "pull_blob toy_env toy_remote (dig CHR ''0'') 0 empty_store = (S1, Inr 1)"
    using pull_blob_plain [of "dig CHR ''0''" empty_store "hx CHR ''0''" toy_remote "''C''" toy_env 0] toy_digests
    by (simp add: S1_def has_blob_iff empty_store_def hm_simps toy_remote_def toy_env_def toy_sha_def)
  moreover have "\<not> has_blob (dig CHR ''1'') S1"
    using toy_digests by (simp add: S1_def has_blob_iff empty_store_def put_blob_def hm_simps)
  moreover have "pull_blob toy_env toy_remote (dig CHR ''1'') 1 S1 = (put_blob (hx CHR ''1'') ''L'' S1, Inr 2)"
    using pull_blob_plain [of "dig CHR ''1''" S1 "hx CHR ''1''" toy_remote "''L''" toy_env 1] toy_digests calculation(2)
    by (simp add: S1_def empty_store_def put_blob_def hm_simps toy_remote_def toy_env_def toy_sha_def)
  moreover have "resolve_manifest toy_codec toy_remote (ref_reference toy_ref) = Inr (desc CHR ''0'', [desc CHR ''1''])"
    by (simp add: resolve_manifest_def toy_remote_def toy_codec_def is_index_def OCI_INDEX_def DOCKER_LIST_def starts_with_def)
  ultimately show ?thesis
    using toy_digests(3)
    by (simp add: pull_with_def toy_ref desc_def Let_def toy_env_def write_record_def S1_def put_blob_def empty_store_def
        toy_store_def toy_rec_def hm_insert_def hm_remove_def)
qed

lemma toy_reachable: "(istep toy_sha)\<^sup>*\<^sup>* empty_store toy_store"
  using istep.pull [of toy_env toy_sha empty_store toy_codec toy_remote "''alpine''"] toy_pull
  by (auto simp: toy_env_def)

lemma toy_load: "load_record (store_key toy_ref) toy_store = Inr toy_rec"
  by (simp add: load_record_def toy_store_def hm_get_def)


theorem pull_bounded_witness: "(\<Sum>d \<in> {d \<in> set (digests_of toy_rec). \<not> has_blob d empty_store}. blob_size d toy_store) \<le> MAX_TOTAL_BYTES"
  using pull_bounded [OF toy_pull] .


theorem pinned_pull_unverified_witness:
  "\<exists>r T. parse_ref (''alpine@sha256:'' @ hx CHR ''9'') = Inr r \<and> toy_sha ''M'' \<noteq> hx CHR ''9'' \<and>
    load_record (store_key r) T = Inr (toy_rec\<lparr>im_reference := canonical r\<rparr>) \<and>
    fst (pull_with toy_env toy_codec toy_remote (''alpine@sha256:'' @ hx CHR ''9'') toy_store) = T"
proof -
  have "case parse_ref (''alpine@sha256:'' @ hx CHR ''9'') of Inr r \<Rightarrow> ref_reference r = ''sha256:'' @ hx CHR ''9'' | _ \<Rightarrow> False"
    by code_simp
  then obtain r where r: "parse_ref (''alpine@sha256:'' @ hx CHR ''9'') = Inr r" "ref_reference r = ''sha256:'' @ hx CHR ''9''"
    by (auto split: sum.splits)
  have m: "rm_manifest toy_remote (''sha256:'' @ hx CHR ''9'') = Inr (''M'', [])" "\<not> is_index []" "\<not> cd_is_index toy_codec ''M''"
      "cd_manifest toy_codec ''M'' = Some (desc CHR ''0'', [desc CHR ''1''])" "ie_write toy_env"
    by (simp_all add: toy_remote_def toy_codec_def toy_env_def is_index_def OCI_INDEX_def DOCKER_LIST_def starts_with_def)
  have b: "has_blob (ds_digest (desc CHR ''0'')) toy_store" "\<forall>l \<in> set [desc CHR ''1'']. has_blob (ds_digest l) toy_store"
      "blob_size (ds_digest (desc CHR ''0'')) toy_store \<le> MAX_TOTAL_BYTES"
    using toy_digests by (simp_all add: has_blob_iff blob_size_def blob_of_def toy_store_def desc_def hm_get_def MAX_TOTAL_BYTES_def)
  have n: "ie_sha toy_env ''M'' \<noteq> hx CHR ''9''" by code_simp
  from pinned_pull_unverified [OF r m(1-4) b m(5) n] show ?thesis
    using r(1) n by (auto simp: toy_env_def toy_rec_def desc_def)
qed

end
