(* ===== verification/Image_Archives.thy ===== *)
theory Image_Archives
  imports Image_Store_Proofs
begin

text \<open>
  What \<open>dn7 save\<close> writes, \<open>dn7 load\<close> reads back: the members of an archive, the loader on them, and
  the round trip through a host with an empty store (\<open>crates/dn7-container/src/image/archive.rs\<close>).
\<close>

section \<open>Saving and loading an archive\<close>

definition plain_entry :: "string \<times> string \<Rightarrow> string \<times> reader" where
  "plain_entry m = (fst m, (snd m, False))"

definition blob_entry :: "(string \<Rightarrow> string) \<Rightarrow> string \<Rightarrow> string \<times> reader" where
  "blob_entry g hex = (''blobs/sha256/'' @ hex, (g hex, False))"

definition hash_name :: "string \<Rightarrow> bool" where
  "hash_name hex \<longleftrightarrow> length hex = 64 \<and> list_all hex_char hex"

text \<open>What holds of a store that has nothing but contents \<open>g\<close> under names \<open>g\<close> gives a content.\<close>

definition agrees :: "(string \<Rightarrow> string) \<Rightarrow> string list \<Rightarrow> istore \<Rightarrow> bool" where
  "agrees g hs S \<longleftrightarrow> (\<forall>hex \<in> set hs. hm_get (is_blobs S) hex \<in> {None, Some (g hex)})"

lemma split_named: "hash_name hex \<Longrightarrow> split_digest (''sha256:'' @ hex) = Inr hex"
  by (simp add: split_digest_Inr hash_name_def)

lemma save_named:
  assumes "hash_name hex" "ie_sha E (g hex) = hex" "hm_get (is_blobs S) hex \<in> {None, Some (g hex)}"
    and "ie_write E" "ie_rename E" "length (g hex) \<le> mx"
  shows "\<exists>T. save_blob_from_reader E (''sha256:'' @ hex) (g hex, False) mx S = (T, Inr ()) \<and>
    hm_get (is_blobs T) hex = Some (g hex) \<and> (\<forall>h. h \<noteq> hex \<longrightarrow> hm_get (is_blobs T) h = hm_get (is_blobs S) h)"
  using assms split_named [OF assms(1)]
  by (auto simp: save_blob_from_reader_def cap_reader_def save_blob_def has_blob_iff put_blob_def hm_simps)

lemma prefix_blobs: "strip_prefix (''blobs/sha256/'' @ hex) ''blobs/sha256/'' = Some hex"
  by (simp add: strip_prefix_def starts_with_def)

lemma load_blobs:
  assumes "\<forall>hex \<in> set hs. hash_name hex \<and> ie_sha E (g hex) = hex \<and> length (g hex) \<le> MAX_BLOB_BYTES"
    and "agrees g hs S" "ie_write E" "ie_rename E"
    and "ls_count L + length hs \<le> MAX_ENTRIES" "ls_total L + (\<Sum>hex \<leftarrow> hs. length (g hex)) \<le> MAX_TOTAL_BYTES"
  shows "\<exists>T L'. load_entries E (map (blob_entry g) hs) L S = (T, Inr L') \<and> ls_index L' = ls_index L
    \<and> set (ls_stored L') = set (ls_stored L) \<union> (\<lambda>hex. ''sha256:'' @ hex) ` set hs
    \<and> (\<forall>hex \<in> set hs. hm_get (is_blobs T) hex = Some (g hex))
    \<and> (\<forall>hex. hex \<notin> set hs \<longrightarrow> hm_get (is_blobs T) hex = hm_get (is_blobs S) hex)"
  using assms
proof (induction hs arbitrary: S L)
  case (Cons hex hs)
  have mx: "length (g hex) \<le> blob_cap (ls_total L)" using Cons.prems by (auto simp: blob_cap_def)
  obtain T where T: "save_blob_from_reader E (''sha256:'' @ hex) (g hex, False) (blob_cap (ls_total L)) S = (T, Inr ())"
      "hm_get (is_blobs T) hex = Some (g hex)" "\<And>h. h \<noteq> hex \<Longrightarrow> hm_get (is_blobs T) h = hm_get (is_blobs S) h"
    using save_named [of hex E g S "blob_cap (ls_total L)"] mx Cons.prems(3,4) Cons.prems(1,2) by (auto simp: agrees_def)
  have size: "blob_size (''sha256:'' @ hex) T = length (g hex)"
    using split_named [of hex] Cons.prems(1) T(2) by (simp add: blob_size_def blob_of_def)
  define L1 where "L1 = L\<lparr>ls_count := ls_count L + 1, ls_total := ls_total L + length (g hex), ls_stored := (''sha256:'' @ hex) # ls_stored L\<rparr>"
  have "ls_total L + length (g hex) \<le> MAX_TOTAL_BYTES" using Cons.prems(6) by simp
  moreover have "MAX_TOTAL_BYTES \<le> 2 ^ 64 - 1" by (simp add: MAX_TOTAL_BYTES_def)
  moreover have "''blobs/sha256/'' @ hex \<noteq> ''index.json''" by simp
  ultimately have "load_entries E (blob_entry g hex # map (blob_entry g) hs) L S = load_entries E (map (blob_entry g) hs) L1 T"
    unfolding blob_entry_def [of g hex] load_entries.simps Let_def prefix_blobs
    using Cons.prems(1,5) T(1) size split_named [of hex] by (simp add: L1_def min_absorb1)
  moreover have "hm_get (is_blobs T) h \<in> {None, Some (g h)}" if "h \<in> set hs" for h
    using that Cons.prems(2) T(2) T(3) [of h] by (cases "h = hex") (simp_all add: agrees_def)
  then have "agrees g hs T" unfolding agrees_def by blast
  then obtain U L' where U: "load_entries E (map (blob_entry g) hs) L1 T = (U, Inr L')" "ls_index L' = ls_index L1"
      "set (ls_stored L') = set (ls_stored L1) \<union> (\<lambda>hex. ''sha256:'' @ hex) ` set hs"
      "\<forall>hex \<in> set hs. hm_get (is_blobs U) hex = Some (g hex)"
      "\<forall>hex. hex \<notin> set hs \<longrightarrow> hm_get (is_blobs U) hex = hm_get (is_blobs T) hex"
    using Cons.IH [of T L1] Cons.prems by (auto simp: L1_def)
  moreover have "ls_index L1 = ls_index L" "set (ls_stored L1) = insert (''sha256:'' @ hex) (set (ls_stored L))"
    by (simp_all add: L1_def)
  moreover have "hm_get (is_blobs U) hex = Some (g hex)" using U(4,5) T(2) by (cases "hex \<in> set hs") simp_all
  ultimately show ?case using T(3) by (intro exI [of _ U] exI [of _ L']) simp
qed (simp add: agrees_def)

lemma collect_map:
  "collect_res (map f xs) = Inr ys \<Longrightarrow> (\<And>x y. f x = Inr y \<Longrightarrow> h y = k x) \<Longrightarrow> map h ys = map k xs"
  unfolding collect_res_Inr by (induction xs arbitrary: ys) (auto simp: Cons_eq_map_conv)

lemma collect_all: "collect_res (map f xs) = Inr ys \<Longrightarrow> x \<in> set xs \<Longrightarrow> \<exists>y. f x = Inr y"
  unfolding collect_res_Inr by (induction xs arbitrary: ys) (auto simp: Cons_eq_map_conv)

lemma archive_save_members:
  assumes "archive_save E A reference S = Inr ms" "parse_ref reference = Inr r" "load_record (store_key r) S = Inr rec"
  obtains config layers manifest where
    "manifest = ac_manifest A config layers" "map fst layers = im_layers rec" "fst config = im_config rec"
    "hash_name (ie_sha E manifest)"
    "ms = (''oci-layout'', OCI_LAYOUT) # (''index.json'', ac_index A (''sha256:'' @ ie_sha E manifest) (length manifest) (im_reference rec))
       # (''blobs/sha256/'' @ ie_sha E manifest, manifest)
       # map (\<lambda>d. (''blobs/sha256/'' @ drop 7 d, the (blob_of d S))) (digests_of rec)"
    "\<forall>d \<in> set (digests_of rec). \<exists>hex b. split_digest d = Inr hex \<and> hm_get (is_blobs S) hex = Some b"
proof -
  obtain layers config mpath blobs where c:
      "collect_res (map (sized_blob S) (im_layers rec)) = Inr layers" "sized_blob S (im_config rec) = Inr config"
      "blob_tar_path (''sha256:'' @ ie_sha E (ac_manifest A config layers)) = Inr mpath"
      "collect_res (map (tar_blob S) (digests_of rec)) = Inr blobs"
    and ms: "ms = (''oci-layout'', OCI_LAYOUT)
       # (''index.json'', ac_index A (''sha256:'' @ ie_sha E (ac_manifest A config layers)) (length (ac_manifest A config layers)) (im_reference rec))
       # (mpath, ac_manifest A config layers) # blobs"
    using assms by (auto simp: archive_save_def and_then_Inr Let_def)
  have sized: "fst x = d" if "sized_blob S d = Inr x" for d x
    using that by (auto simp: sized_blob_def and_then_Inr split: option.splits)
  then have ls: "map fst layers = im_layers rec"
    using collect_map [OF c(1), of fst "\<lambda>d. d"] by simp
  have tar: "x = (''blobs/sha256/'' @ drop 7 d, the (blob_of d S)) \<and> (\<exists>hex b. split_digest d = Inr hex \<and> hm_get (is_blobs S) hex = Some b)"
    if t: "tar_blob S d = Inr x" for d x
  proof -
    obtain hex b where h: "split_digest d = Inr hex" "hm_get (is_blobs S) hex = Some b" "x = (''blobs/sha256/'' @ hex, b)"
      using t by (auto simp: tar_blob_def blob_tar_path_def and_then_Inr blob_of_def split: option.splits)
    moreover have "drop 7 d = hex" using h(1) [unfolded split_digest_Inr] by simp
    ultimately show ?thesis by (simp add: blob_of_def)
  qed
  have blobs: "map (\<lambda>x. x) blobs = map (\<lambda>d. (''blobs/sha256/'' @ drop 7 d, the (blob_of d S))) (digests_of rec)"
    by (rule collect_map [OF c(4)]) (use tar in blast)
  have all: "\<forall>d \<in> set (digests_of rec). \<exists>x. tar_blob S d = Inr x"
    using collect_all [OF c(4)] by blast
  have mpath: "mpath = ''blobs/sha256/'' @ ie_sha E (ac_manifest A config layers)" "hash_name (ie_sha E (ac_manifest A config layers))"
    using c(3) by (auto simp: blob_tar_path_def and_then_Inr split_digest_Inr hash_name_def)
  show thesis
  proof (rule that)
    show "\<forall>d \<in> set (digests_of rec). \<exists>hex b. split_digest d = Inr hex \<and> hm_get (is_blobs S) hex = Some b"
      using all tar by blast
    show "ms = (''oci-layout'', OCI_LAYOUT) # (''index.json'', ac_index A (''sha256:'' @ ie_sha E (ac_manifest A config layers)) (length (ac_manifest A config layers)) (im_reference rec))
       # (''blobs/sha256/'' @ ie_sha E (ac_manifest A config layers), ac_manifest A config layers)
       # map (\<lambda>d. (''blobs/sha256/'' @ drop 7 d, the (blob_of d S))) (digests_of rec)"
      using blobs by (simp only: ms mpath(1) list.map_ident)
  qed (rule refl ls sized [OF c(2)] mpath(2))+
qed

lemma archive_contents:
  assumes "archive_save E A reference S = Inr ms" "parse_ref reference = Inr r" "load_record (store_key r) S = Inr rec"
    and "blobs_ok (ie_sha E) S" "\<forall>m \<in> set ms. hm_get (is_blobs S) (ie_sha E (snd m)) \<in> {None, Some (snd m)}"
  obtains config layers manifest mh g hs where
    "manifest = ac_manifest A config layers" "map fst layers = im_layers rec" "fst config = im_config rec" "g mh = manifest"
    "hs = mh # map (drop 7) (digests_of rec)" "length ms = length hs + 2"
    "\<forall>hex \<in> set hs. hash_name hex \<and> ie_sha E (g hex) = hex"
    "\<forall>d \<in> set (digests_of rec). (\<exists>hex. d = ''sha256:'' @ hex) \<and> blob_of d S = Some (g (drop 7 d))"
    "map plain_entry ms = plain_entry (''oci-layout'', OCI_LAYOUT)
      # plain_entry (''index.json'', ac_index A (''sha256:'' @ mh) (length manifest) (im_reference rec)) # map (blob_entry g) hs"
proof -
  obtain config layers manifest where m: "manifest = ac_manifest A config layers" "map fst layers = im_layers rec" "fst config = im_config rec"
      "hash_name (ie_sha E manifest)"
      "ms = (''oci-layout'', OCI_LAYOUT) # (''index.json'', ac_index A (''sha256:'' @ ie_sha E manifest) (length manifest) (im_reference rec))
       # (''blobs/sha256/'' @ ie_sha E manifest, manifest)
       # map (\<lambda>d. (''blobs/sha256/'' @ drop 7 d, the (blob_of d S))) (digests_of rec)"
    and there: "\<forall>d \<in> set (digests_of rec). \<exists>hex b. split_digest d = Inr hex \<and> hm_get (is_blobs S) hex = Some b"
    by (rule archive_save_members [OF assms(1-3)])
  define mh where "mh = ie_sha E manifest"
  define g where "g hex = (if hex = mh then manifest else the (hm_get (is_blobs S) hex))" for hex
  define hs where "hs = mh # map (drop 7) (digests_of rec)"
  have man: "hm_get (is_blobs S) mh \<in> {None, Some manifest}" using assms(5) by (simp add: m(5) mh_def)
  have d: "(\<exists>hex. d = ''sha256:'' @ hex) \<and> hash_name (drop 7 d) \<and> blob_of d S = Some (g (drop 7 d)) \<and> ie_sha E (g (drop 7 d)) = drop 7 d"
    if "d \<in> set (digests_of rec)" for d
  proof -
    obtain hex b where h: "split_digest d = Inr hex" "hm_get (is_blobs S) hex = Some b" using there \<open>d \<in> _\<close> by blast
    have "d = ''sha256:'' @ hex" "hash_name hex" using h(1) by (simp_all add: split_digest_Inr hash_name_def)
    moreover have "g hex = b" using h(2) man by (auto simp: g_def)
    moreover have "ie_sha E b = hex" using assms(4) h(2) by (simp add: blobs_ok_def)
    ultimately show ?thesis using h by (simp add: blob_of_def)
  qed
  have gm: "g mh = manifest" by (simp add: g_def)
  have hs: "\<forall>hex \<in> set hs. hash_name hex \<and> ie_sha E (g hex) = hex"
  proof
    fix hex
    assume "hex \<in> set hs"
    then consider "hex = mh" | c where "c \<in> set (digests_of rec)" "hex = drop 7 c" by (auto simp: hs_def)
    then show "hash_name hex \<and> ie_sha E (g hex) = hex"
    proof cases
      case 1
      then show ?thesis using m(4) gm mh_def by simp
    next
      case (2 c)
      then show ?thesis using d [of c] by blast
    qed
  qed
  have members: "map plain_entry ms = plain_entry (''oci-layout'', OCI_LAYOUT)
      # plain_entry (''index.json'', ac_index A (''sha256:'' @ mh) (length manifest) (im_reference rec)) # map (blob_entry g) hs"
    using d [THEN conjunct2, THEN conjunct2, THEN conjunct1]
    by (simp add: m(5) hs_def plain_entry_def blob_entry_def gm flip: mh_def)
  have len: "length ms = length hs + 2" by (simp add: m(5) hs_def)
  show thesis by (rule that [OF m(1-3) gm hs_def len hs _ members]) (use d in blast)
qed

text \<open>The loader on the members of such an archive.\<close>

lemma load_members:
  assumes "\<forall>hex \<in> set hs. hash_name hex \<and> ie_sha E (g hex) = hex" "length ms = length hs + 2"
    and "map plain_entry ms = plain_entry (''oci-layout'', OCI_LAYOUT) # plain_entry (''index.json'', idx) # map (blob_entry g) hs"
    and "length ms \<le> MAX_ENTRIES" "\<forall>m \<in> set ms. length (snd m) \<le> (if fst m = ''index.json'' then MAX_META_BYTES else MAX_BLOB_BYTES)"
    and "(\<Sum>m \<leftarrow> ms. length (snd m)) \<le> MAX_TOTAL_BYTES" "is_blobs T = []" "ie_write E" "ie_rename E"
  obtains U L where
    "load_entries E (map plain_entry ms) \<lparr>ls_count = 0, ls_total = 0, ls_index = None, ls_stored = []\<rparr> T = (U, Inr L)"
    "ls_index L = Some idx" "set (ls_stored L) = (\<lambda>hex. ''sha256:'' @ hex) ` set hs"
    "\<forall>hex \<in> set hs. blob_of (''sha256:'' @ hex) U = Some (g hex)"
proof -
  have size: "\<forall>e \<in> set (map plain_entry ms). length (fst (snd e)) \<le> (if fst e = ''index.json'' then MAX_META_BYTES else MAX_BLOB_BYTES)"
    and total: "(\<Sum>e \<leftarrow> map plain_entry ms. length (fst (snd e))) \<le> MAX_TOTAL_BYTES"
    using assms(5,6) by (simp_all add: plain_entry_def comp_def)
  have count: "2 + length hs \<le> MAX_ENTRIES" using assms(2,4) by simp
  have small: "\<forall>hex \<in> set hs. length (g hex) \<le> MAX_BLOB_BYTES" "length idx \<le> MAX_META_BYTES"
    using size unfolding assms(3) by (auto simp: plain_entry_def blob_entry_def)
  have sum: "(\<Sum>hex \<leftarrow> hs. length (g hex)) \<le> MAX_TOTAL_BYTES"
    using total unfolding assms(3) by (simp add: plain_entry_def blob_entry_def comp_def)
  define L0 where "L0 = \<lparr>ls_count = 2, ls_total = 0, ls_index = Some idx, ls_stored = []\<rparr>"
  have none: "strip_prefix ''oci-layout'' ''blobs/sha256/'' = None" "''oci-layout'' \<noteq> ''index.json''"
    by code_simp simp
  have first: "load_entries E (map plain_entry ms) \<lparr>ls_count = 0, ls_total = 0, ls_index = None, ls_stored = []\<rparr> T
      = load_entries E (map (blob_entry g) hs) L0 T"
    unfolding assms(3) using none small(2) count by (simp add: plain_entry_def L0_def Let_def numeral_2_eq_2)
  obtain U L where U: "load_entries E (map (blob_entry g) hs) L0 T = (U, Inr L)" "ls_index L = Some idx"
      "set (ls_stored L) = (\<lambda>hex. ''sha256:'' @ hex) ` set hs" "\<forall>hex \<in> set hs. hm_get (is_blobs U) hex = Some (g hex)"
    using load_blobs [of hs E g T L0] assms(1,7-9) small(1) count sum
    by (auto simp: L0_def agrees_def hm_simps)
  then have "\<forall>hex \<in> set hs. blob_of (''sha256:'' @ hex) U = Some (g hex)"
    using assms(1) split_named by (simp add: blob_of_def)
  then show thesis using that U first by simp
qed

text \<open>C27: an image saved as an archive and loaded on a host whose store has none of its content comes
  back as the same image under the name asked for, with the same configuration and layers in
  the same order and every blob byte for byte, whenever the archive is within the limits the
  loader sets and no two of the contents have one hash.\<close>

theorem archive_roundtrip:
  assumes "archive_save E A reference S = Inr ms" "parse_ref reference = Inr r" "load_record (store_key r) S = Inr rec"
    and "blobs_ok (ie_sha E) S" "\<forall>m \<in> set ms. hm_get (is_blobs S) (ie_sha E (snd m)) \<in> {None, Some (snd m)}"
    and "\<And>c ls. ac_read_manifest A (ac_manifest A c ls) = Some (fst c, map fst ls)"
    and "\<And>d n t. ac_read_index A (ac_index A d n t) = Some (Some d)"
    and "length ms \<le> MAX_ENTRIES" "\<forall>m \<in> set ms. length (snd m) \<le> (if fst m = ''index.json'' then MAX_META_BYTES else MAX_BLOB_BYTES)"
    and "(\<Sum>m \<leftarrow> ms. length (snd m)) \<le> MAX_TOTAL_BYTES"
    and "parse_ref new_ref = Inr r'" "is_blobs T = []" "ie_write E'" "ie_rename E'" "ie_sha E' = ie_sha E"
  shows "\<exists>U. archive_load E' A (map plain_entry ms) new_ref T = (U, Inr (rec\<lparr>im_reference := canonical r'\<rparr>))
    \<and> load_record (store_key r') U = Inr (rec\<lparr>im_reference := canonical r'\<rparr>)
    \<and> (\<forall>d \<in> set (digests_of rec). blob_of d U = blob_of d S \<and> has_blob d U)"
proof -
  obtain config layers manifest mh g hs where m: "manifest = ac_manifest A config layers" "map fst layers = im_layers rec"
      "fst config = im_config rec" "g mh = manifest" "hs = mh # map (drop 7) (digests_of rec)" "length ms = length hs + 2"
      "\<forall>hex \<in> set hs. hash_name hex \<and> ie_sha E (g hex) = hex"
      "\<forall>d \<in> set (digests_of rec). (\<exists>hex. d = ''sha256:'' @ hex) \<and> blob_of d S = Some (g (drop 7 d))"
      "map plain_entry ms = plain_entry (''oci-layout'', OCI_LAYOUT)
        # plain_entry (''index.json'', ac_index A (''sha256:'' @ mh) (length manifest) (im_reference rec)) # map (blob_entry g) hs"
    by (rule archive_contents [OF assms(1-5)])
  obtain U L where U: "load_entries E' (map plain_entry ms) \<lparr>ls_count = 0, ls_total = 0, ls_index = None, ls_stored = []\<rparr> T = (U, Inr L)"
      "ls_index L = Some (ac_index A (''sha256:'' @ mh) (length manifest) (im_reference rec))"
      "set (ls_stored L) = (\<lambda>hex. ''sha256:'' @ hex) ` set hs" "\<forall>hex \<in> set hs. blob_of (''sha256:'' @ hex) U = Some (g hex)"
    by (rule load_members [OF _ m(6,9) assms(8-10,12-14)]) (use m(7) assms(15) in auto)
  have stored: "d \<in> set (ls_stored L) \<and> blob_of d U = blob_of d S \<and> has_blob d U" if dr: "d \<in> set (digests_of rec)" for d
  proof -
    obtain hex where hex: "d = ''sha256:'' @ hex" using m(8) dr by blast
    then have "hex \<in> set hs" "drop 7 d = hex" using dr by (force simp: m(5))+
    then show ?thesis using m(8) dr U(3,4) hex by (simp add: has_blob_def)
  qed
  have mh: "''sha256:'' @ mh \<in> set (ls_stored L)" "blob_of (''sha256:'' @ mh) U = Some manifest"
    using U(3,4) m(4) by (auto simp: m(5))
  define new where "new = rec\<lparr>im_reference := canonical r'\<rparr>"
  have new: "new = \<lparr>im_reference = canonical r', im_config = im_config rec, im_layers = im_layers rec\<rparr>" by (simp add: new_def)
  have "find (\<lambda>d. d \<notin> set (ls_stored L)) (im_layers rec) = None" "im_config rec \<in> set (ls_stored L)"
    using stored by (auto simp: find_None_iff digests_of_def)
  then have load: "archive_load E' A (map plain_entry ms) new_ref T = st_bind (write_record E' (store_key r') new U) (\<lambda>_ S. (S, Inr new))"
    unfolding archive_load_def assms(11) sum.case U(1) st_bind_simps U(2) option.case Let_def new assms(7) mh(2) m(1) assms(6) prod.case m(2,3)
    using mh(1) by simp
  define V where "V = fst (write_record E' (store_key r') new U)"
  have V: "archive_load E' A (map plain_entry ms) new_ref T = (V, Inr new)" "load_record (store_key r') V = Inr new" "is_blobs V = is_blobs U"
    using assms(13) unfolding load by (simp_all add: V_def write_record_def load_record_def hm_simps)
  have "blob_of d V = blob_of d U" for d using V(3) by (simp add: blob_of_def split: sum.split)
  then show ?thesis using stored V(1,2) unfolding new_def [symmetric] has_blob_def by metis
qed

section \<open>Instance\<close>

text \<open>Texts for the lists of digests: every character escaped, every string closed.\<close>

definition enc_strs :: "string list \<Rightarrow> string" where
  "enc_strs ss = concat (map (\<lambda>s. concat (map (\<lambda>c. [CHR ''x'', c]) s) @ ''.'') ss)"

fun dec_strs :: "string \<Rightarrow> string \<Rightarrow> string list" where
  "dec_strs cur [] = []"
| "dec_strs cur [a] = [cur]"
| "dec_strs cur (a # b # r) = (if a = CHR ''x'' then dec_strs (cur @ [b]) r else cur # dec_strs [] (b # r))"

lemma dec_one: "dec_strs cur (concat (map (\<lambda>c. [CHR ''x'', c]) s) @ CHR ''.'' # r) = (cur @ s) # dec_strs [] r"
  by (induction s arbitrary: cur) (simp, cases r, simp_all)

lemma dec_enc: "dec_strs [] (enc_strs ss) = ss"
  by (induction ss) (simp_all add: enc_strs_def dec_one)

definition toy_acodec :: acodec where
  "toy_acodec = \<lparr>ac_manifest = (\<lambda>c ls. enc_strs (fst c # map fst ls)), ac_index = (\<lambda>d _ _. enc_strs [d]),
     ac_read_index = (\<lambda>s. case dec_strs [] s of [] \<Rightarrow> None | d # _ \<Rightarrow> Some (Some d)),
     ac_read_manifest = (\<lambda>s. case dec_strs [] s of [] \<Rightarrow> None | c # ls \<Rightarrow> Some (c, ls))\<rparr>"

definition toy_manifest :: string where "toy_manifest = enc_strs [dig CHR ''0'', dig CHR ''1'']"

definition toy_archive :: "(string \<times> string) list" where
  "toy_archive = [(''oci-layout'', OCI_LAYOUT), (''index.json'', enc_strs [dig CHR ''3'']), (''blobs/sha256/'' @ hx CHR ''3'', toy_manifest),
     (''blobs/sha256/'' @ hx CHR ''0'', ''C''), (''blobs/sha256/'' @ hx CHR ''1'', ''L'')]"

lemma toy_save: "archive_save toy_env toy_acodec ''alpine'' toy_store = Inr toy_archive"
proof -
  note sd = dig_def [symmetric, simplified]
  have m: "toy_sha toy_manifest = hx CHR ''3''" "split_digest (dig CHR ''3'') = Inr (hx CHR ''3'')" by (code_simp+)
  have b: "blob_of (dig CHR ''0'') toy_store = Some ''C''" "blob_of (dig CHR ''1'') toy_store = Some ''L''"
    using toy_digests by (simp_all add: blob_of_def toy_store_def hm_get_def)
  have t: "tar_blob toy_store (dig CHR ''0'') = Inr (''blobs/sha256/'' @ hx CHR ''0'', ''C'')"
      "tar_blob toy_store (dig CHR ''1'') = Inr (''blobs/sha256/'' @ hx CHR ''1'', ''L'')"
      "sized_blob toy_store (dig CHR ''0'') = Inr (dig CHR ''0'', 1)" "sized_blob toy_store (dig CHR ''1'') = Inr (dig CHR ''1'', 1)"
      "blob_tar_path (dig CHR ''3'') = Inr (''blobs/sha256/'' @ hx CHR ''3'')"
    using toy_digests m(2) by (simp_all add: tar_blob_def sized_blob_def blob_tar_path_def b)
  have "im_layers toy_rec = [dig CHR ''1'']" "im_config toy_rec = dig CHR ''0''" by (simp_all add: toy_rec_def)
  moreover have "ac_manifest toy_acodec (dig CHR ''0'', 1) [(dig CHR ''1'', 1)] = toy_manifest" "ie_sha toy_env = toy_sha"
      "ac_index toy_acodec d n x = enc_strs [d]" for d n x
    by (simp_all add: toy_acodec_def toy_manifest_def toy_env_def)
  ultimately show ?thesis
    by (simp add: archive_save_def toy_ref toy_load toy_archive_def digests_of_def t m sd Let_def)
qed

theorem archive_roundtrip_witness:
  "\<exists>U. archive_load toy_env toy_acodec (map plain_entry toy_archive) ''alpine'' empty_store = (U, Inr toy_rec)"
proof -
  have b: "blobs_ok (ie_sha toy_env) toy_store" using toy_digests by (auto simp: blobs_ok_def toy_store_def toy_env_def toy_sha_def hm_get_def split: if_splits)
  have c: "\<forall>m \<in> set toy_archive. hm_get (is_blobs toy_store) (ie_sha toy_env (snd m)) \<in> {None, Some (snd m)}" by code_simp
  have "length toy_archive = 5" "\<forall>m \<in> set toy_archive. length (snd m) \<le> 400" "(\<Sum>m \<leftarrow> toy_archive. length (snd m)) \<le> 600"
    by (code_simp+)
  then have d: "length toy_archive \<le> MAX_ENTRIES" "(\<Sum>m \<leftarrow> toy_archive. length (snd m)) \<le> MAX_TOTAL_BYTES"
      "\<forall>m \<in> set toy_archive. length (snd m) \<le> (if fst m = ''index.json'' then MAX_META_BYTES else MAX_BLOB_BYTES)"
    by (fastforce simp: MAX_ENTRIES_def MAX_TOTAL_BYTES_def MAX_META_BYTES_def MAX_BLOB_BYTES_def)+
  have e: "ac_read_manifest toy_acodec (ac_manifest toy_acodec k ls) = Some (fst k, map fst ls)"
      "ac_read_index toy_acodec (ac_index toy_acodec x n t) = Some (Some x)" for k ls x n t
    by (simp_all add: toy_acodec_def dec_enc)
  have f: "is_blobs empty_store = []" "ie_write toy_env" "ie_rename toy_env" by (simp_all add: empty_store_def toy_env_def)
  show ?thesis
    using archive_roundtrip [OF toy_save toy_ref toy_load b c e d(1,3,2) toy_ref f refl] by (auto simp: toy_rec_def)
qed

end
