(* ===== verification/Spec2Isabelle.thy ===== *)
theory Spec2Isabelle
  imports Login Sessions Throttle Totp Auth_Stores Web_Gate Edge_Publish Edge_Limits Htpasswd
    Website_Forms Website_Ops Website_Proofs Accounts_Proofs Host_Files Docker_Policy
    Container_Safety Docker_Plan_Proofs Image_Layers Image_Archives
begin

text \<open>
  A verification development for DN7 Panel, a single-binary server panel: a web console that
  manages a Linux host, its websites and its containers, with an edge server of its own in front
  of the websites. Paths below are relative to \<open>src/\<close>.

  \<^bold>\<open>How the parts fit together.\<close> The edge (\<open>crates/dn7-edge\<close>) accepts connections, resolves
  the host of a request to a route, and passes it through the route's gates to the proxy, the file
  server or a redirect. Its route table is a projection of persisted manifests, replaced in one
  step by a reload. The website control plane (\<open>src/infra/website\<close>) edits the manifests and
  reloads the edge after each change. The console is itself a site of the edge: its requests pass
  the entry gate (\<open>src/web/http/middleware/gate.rs\<close>) and then the login policy
  (\<open>src/app/auth\<close>) over the in-memory stores of \<open>src/infra/auth\<close>.

  \<^bold>\<open>Base theories.\<close>
  \<^item> \<open>Prelude\<close>: results as sums, clocks in nanoseconds, \<open>HashMap\<close> as an association list
    with distinct keys (\<open>hmap\<close>), and the \<open>hm_simps\<close> collection.
  \<^item> \<open>Json_Store\<close>: the tolerant and the strict loader of a JSON file.
  \<^item> \<open>Rust_Str\<close>: \<open>&str\<close> as its UTF-8 bytes, with the library functions the code calls.
  \<^item> \<open>Net_Addr\<close>: \<open>std::net::IpAddr\<close> and its parser.

  \<^bold>\<open>Console authentication.\<close>
  \<^item> \<open>Token_Store\<close>: the contract of a single-use credential store, as a locale.
  \<^item> \<open>Auth_Stores\<close>: login challenges, tickets, step-up grants, each an interpretation.
  \<^item> \<open>Sessions\<close>: bearer sessions with their file; \<open>Throttle\<close>: the rate limiter, refined to an
    abstract log of failures; \<open>Totp\<close>: the second factor and its replay guard.
  \<^item> \<open>Login\<close>: the facade \<open>AuthState\<close> and the two use-cases \<open>verify_login\<close> and
    \<open>verify_reauth\<close>, whole; the bound on guesses holds over runs of both.

  \<^bold>\<open>The console's front door.\<close> \<open>Web_Gate\<close>: settings and their loader, the allow list, the
  client address behind a trusted proxy, the entry gate, the redaction of logs.

  \<^bold>\<open>Accounts.\<close>
  \<^item> \<open>Identity\<close>: the panel user, privilege levels (\<open>src/core/authz\<close>), what a name, a verifier and
    an adoptable system account is.
  \<^item> \<open>Etc_Accounts\<close>: the edits of the account tables in \<open>/etc\<close> (\<open>src/infra/system/ops.rs\<close>): no
    operation on one account touches another, no text forges a row, ids are fresh; and two ways in
    which a table loses rows.
  \<^item> \<open>Accounts\<close>: who a request is and the handlers of \<open>src/web/http/controllers\<close> that change users,
    the own account, the owner's settings and sessions, with the use-cases of \<open>src/app/users\<close> and
    \<open>src/app/account\<close>, over one state. \<open>Accounts_Proofs\<close>: the step relation of all requests, its
    invariants, privilege, second factor and password lemmas, and four defects.

  \<^bold>\<open>The edge.\<close>
  \<^item> \<open>Edge_Model\<close>: the input contract (\<open>model.rs\<close>) and the runtime table (\<open>config.rs\<close>).
  \<^item> \<open>Htpasswd\<close>, \<open>Edge_Security\<close>: password hashes, real client address, access lists, attack
    patterns, response headers.
  \<^item> \<open>Edge_Limits\<close>: the token bucket with auto-ban and the count of requests in flight, each as
    operations on a table and as runs of interleaved clients.
  \<^item> \<open>Edge_Router\<close>: the pipeline \<open>handle\<close>, every gate in the code's order; \<open>gates_open\<close> is its
    specification.
  \<^item> \<open>Edge_Build\<close>, \<open>Edge_Reload\<close>, \<open>Edge_Publish\<close>: from manifests to the table, its validation
    and publication; which table results, when a reload succeeds, what it never does.

  \<^bold>\<open>The website control plane.\<close>
  \<^item> \<open>Website_Rules\<close>, \<open>Website_Forms\<close>: validators, and the way from a request to a stored site
    or access list.
  \<^item> \<open>Website_Ops\<close>: the operations over the manifests with the edge behind them.
  \<^item> \<open>Website_Proofs\<close>: the step relation \<open>web_step\<close> of all operations, its invariants, the
    transaction property of adding a site, and two defects at the end of an issuance.

  \<^bold>\<open>The file manager.\<close>
  \<^item> \<open>Paths\<close>: lexical normalisation and the guards on path texts, that of bind mounts included.
  \<^item> \<open>Host_Fs\<close>: a file system with symbolic links: resolution, and the system calls the code makes.
  \<^item> \<open>Host_Files\<close>: the operations of \<open>src/infra/file\<close> on the host, as root and through the helper
    process of another user; what their guards keep out of the sensitive trees and what they let in.

  \<^bold>\<open>Containers.\<close> The panel brings a container runtime of its own, \<open>crates/dn7-container\<close>.
  \<^item> \<open>Docker_Policy\<close>: what a request may ask of it (\<open>src/core/docker\<close>, \<open>src/infra/docker\<close>):
    whitelists, validators, limits and the splitter of command lines.
  \<^item> \<open>Net_Config\<close>, \<open>Ipam\<close>, \<open>Net_Registry\<close>: identifiers and port mappings, the lease tables, and the
    registry of networks. An address has one holder; networks are disjoint.
  \<^item> \<open>Nft_Wire\<close>: the bytes sent to and read from nftables. \<open>Firewall\<close>: the rules of a container as
    transactions; the locale \<open>nft_kernel\<close> says what a kernel does with one (all or nothing, handles
    unique), and is interpreted by a kernel that decodes the bytes.
  \<^item> \<open>Net_Manager\<close>: wiring a container to a network and undoing it (\<open>net/mod.rs\<close>).
  \<^item> \<open>Containers\<close>, \<open>Container_Ops\<close>: the record of a container and the verbs over it, with the
    processes and cgroups they act on (\<open>container/state.rs\<close>, \<open>container/mod.rs\<close>); the restart
    supervisor, secondary networks, logs. A verb that blocks for ever has the value \<open>None\<close>.
  \<^item> \<open>Container_Proofs\<close>: the invariant \<open>world_ok\<close> and that every verb keeps it.
    \<open>Container_Safety\<close>: the step relation of all verbs, crashes and exits, and what holds over its
    runs; at the end a run of two containers, from which the witnesses are taken.
  \<^item> \<open>Volumes\<close>: named volumes over the file system (\<open>image/volume.rs\<close>), what their removal
    deletes, and the name that deletes the store.
  \<^item> \<open>Docker_Create\<close>, \<open>Docker_Plan\<close>: from a request of the panel to the plan the runtime carries
    out (\<open>create/build.rs\<close>, \<open>create/checks.rs\<close>, \<open>runtime_dn7.rs\<close>). \<open>Docker_Plan_Proofs\<close>: which
    networks, mounts, ports and limits a plan can have, that the stored request leads to it again,
    and what the check of host ports guarantees and misses.
  \<^item> \<open>Image_Refs\<close>, \<open>Image_Layers\<close>: names of images and the directories of their records
    (\<open>image/reference.rs\<close>), the application of layers with their deletion markers
    (\<open>image/layer.rs\<close>), over the file system; a name and a layer that delete parts of the host.
  \<^item> \<open>Image_Store\<close>: blobs, records, pulls with resumption, commits, archives, removal and pruning
    (\<open>image/store.rs\<close>, \<open>image/mod.rs\<close>, \<open>image/archive.rs\<close>, \<open>image/commit.rs\<close>), with the
    assembly of a container as far as it touches them. \<open>Image_Store_Proofs\<close>: every image is
    complete over every run of operations, one after another; what a prune beside a pull breaks;
    the bound of a pull. \<open>Image_Archives\<close>: an archive is read back as the image that was saved.

  \<^bold>\<open>Conventions.\<close> An operation is a function from the state, the environment and its arguments to
  the new state and its result; errors are the left side of a sum. Locks make each operation
  atomic, so a run is a list of operations or a path of a step relation. Randomness, clocks and
  third-party code are arguments: hashes (SHA-256, Argon2, MD5, SHA-1, HMAC), base64,
  header text decoding, the parser of networks, loading a certificate pair, the file system.
  Rates are exact rationals where the code has \<open>f64\<close>.
  Loops end structurally; \<open>unique_name_from\<close> has one step of fuel for every name taken and
  one more, so a free name is found. The environment says of every write of a manifest if it
  succeeds; writes whose result the code ignores are taken to succeed.

  \<^bold>\<open>Not modelled.\<close> Asynchronous streaming (\<open>proxy.rs\<close>, the body wrappers), accept loops and TLS
  handshakes, the ACME protocol (the steps that start and end an issuance are modelled, its
  result is an argument); what a container is made of in the kernel (namespaces, mounts, cgroup
  files, seccomp, netlink), HTTP with image registries, the text of the runtime's specification,
  the panel's job orchestration of containers, their backups and their networks;
  metrics, self-update and supervision, the HTTP handlers of those parts, the command line client
  and the JavaScript UI.
\<close>

end
